(* ===== verification/Fraggle_Prelude.thy ===== *)
theory Fraggle_Prelude
  imports Main "HOL-Library.Word" "HOL-Library.Multiset" "HOL-Library.Code_Target_Nat"
begin

text \<open>
  What the component theories share.

  \<^item> Names for the machine integers of the source (\<open>u8\<close> .. \<open>u64\<close>, \<open>i32\<close>): words of that
    width, read with \<^const>\<open>unat\<close> or \<^const>\<open>sint\<close>. A \<open>usize\<close> that is the length of a
    collection is a \<^typ>\<open>nat\<close>.
  \<^item> The part of Rust's \<open>str\<close> that the source uses, on \<^typ>\<open>string\<close>. A string is the
    list of its bytes; the functions agree with Rust's on ASCII text, which is what the
    source hands them (Unicode white space and Unicode case mapping are not modelled).
  \<^item> Decimal printing and reading, with their round trip.
  \<^item> Reachability of a step relation and the interface locale through which the stateful
    components get their invariants.
\<close>

named_theorems fp_defs \<comment> \<open>definitions a component's proofs unfold\<close>
named_theorems verdict_defs \<comment> \<open>definitions of verdict functions\<close>

type_synonym u8 = "8 word"
type_synonym u16 = "16 word"
type_synonym u32 = "32 word"
type_synonym u64 = "64 word"
type_synonym i64 = "64 word" \<comment> \<open>read with \<^const>\<open>sint\<close>\<close>
type_synonym i32 = "32 word" \<comment> \<open>read with \<^const>\<open>sint\<close>\<close>

section \<open>Results\<close>

text \<open>\<open>Result<T, E>\<close>: \<^const>\<open>Inl\<close> is \<open>Err\<close>, \<^const>\<open>Inr\<close> is \<open>Ok\<close>.\<close>

definition result_ok :: "'e + 'a \<Rightarrow> 'a option" where
  "result_ok r = (case r of Inl _ \<Rightarrow> None | Inr v \<Rightarrow> Some v)"

definition unwrap_or :: "'a option \<Rightarrow> 'a \<Rightarrow> 'a" where
  "unwrap_or x d = (case x of None \<Rightarrow> d | Some v \<Rightarrow> v)"

fun filter_map :: "('a \<Rightarrow> 'b option) \<Rightarrow> 'a list \<Rightarrow> 'b list" where
  "filter_map f [] = []"
| "filter_map f (x # xs) =
     (case f x of None \<Rightarrow> filter_map f xs | Some y \<Rightarrow> y # filter_map f xs)"

text \<open>\<open>slice::windows(2)\<close>\<close>

definition adjacent :: "'a list \<Rightarrow> ('a \<times> 'a) list" where
  "adjacent xs = zip xs (tl xs)"

text \<open>\<open>Iterator::position\<close>\<close>

fun position :: "('a \<Rightarrow> bool) \<Rightarrow> 'a list \<Rightarrow> nat option" where
  "position P [] = None"
| "position P (x # xs) = (if P x then Some 0 else map_option Suc (position P xs))"

text \<open>\<open>Iterator::max\<close> and \<open>Iterator::min\<close>: \<open>None\<close> on an empty iterator.\<close>

fun iter_max :: "'a::linorder list \<Rightarrow> 'a option" where
  "iter_max [] = None"
| "iter_max (x # xs) = Some (fold max xs x)"

fun iter_min :: "'a::linorder list \<Rightarrow> 'a option" where
  "iter_min [] = None"
| "iter_min (x # xs) = Some (fold min xs x)"

section \<open>Strings\<close>

definition is_space :: "char \<Rightarrow> bool" where
  "is_space c \<longleftrightarrow> c \<in> {CHR 0x09, CHR 0x0A, CHR 0x0B, CHR 0x0C, CHR 0x0D, CHR 0x20}"

definition is_digit :: "char \<Rightarrow> bool" where
  "is_digit c \<longleftrightarrow> 48 \<le> (of_char c :: nat) \<and> (of_char c :: nat) \<le> 57"

definition is_hexdigit :: "char \<Rightarrow> bool" where
  "is_hexdigit c \<longleftrightarrow> is_digit c \<or> (65 \<le> (of_char c :: nat) \<and> (of_char c :: nat) \<le> 70)
     \<or> (97 \<le> (of_char c :: nat) \<and> (of_char c :: nat) \<le> 102)"

definition to_lower_char :: "char \<Rightarrow> char" where
  "to_lower_char c =
     (if 65 \<le> (of_char c :: nat) \<and> (of_char c :: nat) \<le> 90 then char_of ((of_char c :: nat) + 32) else c)"

definition to_lowercase :: "string \<Rightarrow> string" where
  "to_lowercase s = map to_lower_char s"

definition trim_start_matches :: "(char \<Rightarrow> bool) \<Rightarrow> string \<Rightarrow> string" where
  "trim_start_matches P s = dropWhile P s"

definition trim_end_matches :: "(char \<Rightarrow> bool) \<Rightarrow> string \<Rightarrow> string" where
  "trim_end_matches P s = rev (dropWhile P (rev s))"

definition trim_matches :: "(char \<Rightarrow> bool) \<Rightarrow> string \<Rightarrow> string" where
  "trim_matches P s = trim_end_matches P (trim_start_matches P s)"

definition trim :: "string \<Rightarrow> string" where
  "trim s = trim_matches is_space s"

definition starts_with :: "string \<Rightarrow> string \<Rightarrow> bool" where
  "starts_with s p \<longleftrightarrow> take (length p) s = p"

definition ends_with :: "string \<Rightarrow> string \<Rightarrow> bool" where
  "ends_with s p \<longleftrightarrow> starts_with (rev s) (rev p)"

definition strip_prefix :: "string \<Rightarrow> string \<Rightarrow> string option" where
  "strip_prefix s p = (if starts_with s p then Some (drop (length p) s) else None)"

text \<open>\<open>str::find\<close> of a substring: the first index it occurs at.\<close>

fun find_str :: "string \<Rightarrow> string \<Rightarrow> nat option" where
  "find_str [] p = (if p = [] then Some 0 else None)"
| "find_str (c # s) p = (if starts_with (c # s) p then Some 0 else map_option Suc (find_str s p))"

definition contains :: "string \<Rightarrow> string \<Rightarrow> bool" where
  "contains s p \<longleftrightarrow> find_str s p \<noteq> None"

text \<open>\<open>str::split\<close> at a separator character: always at least one piece.\<close>

fun split_on :: "char \<Rightarrow> string \<Rightarrow> string list" where
  "split_on d [] = [[]]"
| "split_on d (c # s) =
     (if c = d then [] # split_on d s
      else (case split_on d s of [] \<Rightarrow> [[c]] | p # ps \<Rightarrow> (c # p) # ps))"

text \<open>\<open>str::splitn(2, d)\<close>: the text before the first separator and, if there is one, the rest.\<close>

fun splitn2 :: "char \<Rightarrow> string \<Rightarrow> string \<times> string option" where
  "splitn2 d [] = ([], None)"
| "splitn2 d (c # s) =
     (if c = d then ([], Some s) else (case splitn2 d s of (a, r) \<Rightarrow> (c # a, r)))"

text \<open>\<open>str::lines\<close>: pieces ended by a newline (or CR LF), the last one possibly not ended.\<close>

definition strip_cr :: "string \<Rightarrow> string" where
  "strip_cr l = (if l \<noteq> [] \<and> last l = CHR 0x0D then butlast l else l)"

definition lines :: "string \<Rightarrow> string list" where
  "lines s = (let ps = split_on (CHR 0x0A) s in
     map strip_cr (butlast ps) @ (if last ps = [] then [] else [last ps]))"

text \<open>\<open>str::split_whitespace\<close>: the maximal runs of non-space characters.\<close>

fun words_acc :: "string \<Rightarrow> string \<Rightarrow> string list" where
  "words_acc acc [] = (if acc = [] then [] else [rev acc])"
| "words_acc acc (c # s) =
     (if is_space c then (if acc = [] then words_acc [] s else rev acc # words_acc [] s)
      else words_acc (c # acc) s)"

definition split_whitespace :: "string \<Rightarrow> string list" where
  "split_whitespace s = words_acc [] s"

text \<open>\<open>[String]::join\<close>\<close>

fun join :: "string \<Rightarrow> string list \<Rightarrow> string" where
  "join sep [] = []"
| "join sep [x] = x"
| "join sep (x # y # ys) = x @ sep @ join sep (y # ys)"

text \<open>Text between single quotes, as the messages of the source print names.\<close>

definition quoted :: "string \<Rightarrow> string" where
  "quoted s = [CHR 0x27] @ s @ [CHR 0x27]"

text \<open>
  \<open>str::replace\<close>: every non-overlapping occurrence of a non-empty pattern, from the left.
  \<open>n\<close> counts the characters of an occurrence that are still to be skipped.
\<close>

fun replace_from :: "nat \<Rightarrow> string \<Rightarrow> string \<Rightarrow> string \<Rightarrow> string" where
  "replace_from n p r [] = []"
| "replace_from (Suc n) p r (c # s) = replace_from n p r s"
| "replace_from 0 p r (c # s) =
     (if starts_with (c # s) p then r @ replace_from (length p - 1) p r s
      else c # replace_from 0 p r s)"

definition replace_str :: "string \<Rightarrow> string \<Rightarrow> string \<Rightarrow> string" where
  "replace_str p r s = replace_from 0 p r s"

section \<open>Numbers as text\<close>

definition digit_char :: "nat \<Rightarrow> char" where
  "digit_char d = char_of (48 + d)"

fun show_nat :: "nat \<Rightarrow> string" where
  "show_nat n = (if n < 10 then [digit_char n] else show_nat (n div 10) @ [digit_char (n mod 10)])"

declare show_nat.simps [simp del]

definition show_word :: "'w::len word \<Rightarrow> string" where
  "show_word w = show_nat (unat w)"

definition show_int :: "int \<Rightarrow> string" where
  "show_int i = (if i < 0 then ''-'' @ show_nat (nat (- i)) else show_nat (nat i))"

definition digit_val :: "char \<Rightarrow> nat option" where
  "digit_val c = (if is_digit c then Some (of_char c - 48) else None)"

text \<open>\<open>u8::is_ascii_hexdigit\<close> and its value\<close>

definition hex_val :: "char \<Rightarrow> nat option" where
  "hex_val c =
     (let n = (of_char c :: nat) in
      if is_digit c then Some (n - 48)
      else if 65 \<le> n \<and> n \<le> 70 then Some (n - 55)
      else if 97 \<le> n \<and> n \<le> 102 then Some (n - 87) else None)"

fun read_radix :: "(char \<Rightarrow> nat option) \<Rightarrow> nat \<Rightarrow> nat \<Rightarrow> string \<Rightarrow> nat option" where
  "read_radix val r acc [] = Some acc"
| "read_radix val r acc (c # s) =
     (case val c of None \<Rightarrow> None | Some d \<Rightarrow> read_radix val r (acc * r + d) s)"

text \<open>The digits of \<open>str::parse\<close> for an unsigned type: at least one, an optional leading \<open>+\<close>.\<close>

definition read_digits :: "(char \<Rightarrow> nat option) \<Rightarrow> nat \<Rightarrow> string \<Rightarrow> nat option" where
  "read_digits val r s =
     (let t = (if s \<noteq> [] \<and> hd s = CHR ''+'' then tl s else s)
      in if t = [] then None else read_radix val r 0 t)"

text \<open>\<open>parse::<uN>()\<close>: \<open>None\<close> on a malformed or an out-of-range number.\<close>

definition parse_uint :: "string \<Rightarrow> 'w::len word option" where
  "parse_uint s = (case read_digits digit_val 10 s of
     None \<Rightarrow> None
   | Some n \<Rightarrow> if n < 2 ^ LENGTH('w) then Some (of_nat n) else None)"

definition parse_usize :: "string \<Rightarrow> nat option" where
  "parse_usize s = (case read_digits digit_val 10 s of
     None \<Rightarrow> None | Some n \<Rightarrow> if n < 2 ^ 64 then Some n else None)"

text \<open>\<open>u32::from_str_radix(s, 16)\<close>\<close>

definition parse_hex :: "string \<Rightarrow> 'w::len word option" where
  "parse_hex s = (case read_digits hex_val 16 s of
     None \<Rightarrow> None
   | Some n \<Rightarrow> if n < 2 ^ LENGTH('w) then Some (of_nat n) else None)"

text \<open>\<open>parse::<i32>()\<close>: an optional sign, then digits, within range.\<close>

definition parse_i32 :: "string \<Rightarrow> i32 option" where
  "parse_i32 s =
     (if s \<noteq> [] \<and> hd s = CHR ''-'' then
        (if tl s = [] then None else
         case read_radix digit_val 10 0 (tl s) of
           None \<Rightarrow> None
         | Some n \<Rightarrow> if n \<le> 2 ^ 31 then Some (- of_nat n) else None)
      else (case read_digits digit_val 10 s of
           None \<Rightarrow> None
         | Some n \<Rightarrow> if n < 2 ^ 31 then Some (of_nat n) else None))"

section \<open>Lemmas on the shared functions\<close>

lemma filter_map_append [simp]: "filter_map f (xs @ ys) = filter_map f xs @ filter_map f ys"
  by (induction xs) (auto split: option.split)

lemma filter_map_eq: "filter_map f xs = map (the \<circ> f) (filter (\<lambda>x. f x \<noteq> None) xs)"
  by (induction xs) (auto split: option.split)

lemma filter_map_Some [simp]: "filter_map (\<lambda>x. Some (f x)) xs = map f xs"
  by (induction xs) auto

lemma filter_map_total: "\<forall>x \<in> set xs. f x = Some (g x) \<Longrightarrow> filter_map f xs = map g xs"
  by (induction xs) auto

lemma set_filter_map: "set (filter_map f xs) = {y. \<exists>x \<in> set xs. f x = Some y}"
  by (induction xs) (auto split: option.splits)

lemma mset_map_filter_partition:
  "mset (map f (filter P xs)) + mset (map f (filter (\<lambda>x. \<not> P x) xs)) = mset (map f xs)"
  by (induction xs) auto

lemma length_filter_eq_iff: "length (filter P xs) = length xs \<longleftrightarrow> (\<forall>x \<in> set xs. P x)"
proof (induction xs)
  case (Cons x xs)
  have "length (filter P xs) \<noteq> Suc (length xs)" using length_filter_le[of P xs] by linarith
  with Cons show ?case by auto
qed simp

lemma position_Some_less: "position P xs = Some i \<Longrightarrow> i < length xs \<and> P (xs ! i)"
  by (induction xs arbitrary: i) (auto split: if_splits)

lemma position_None: "position P xs = None \<longleftrightarrow> (\<forall>x \<in> set xs. \<not> P x)"
  by (induction xs) auto

lemma fold_max_upper: "y \<in> insert x (set xs) \<Longrightarrow> y \<le> fold max xs (x::'a::linorder)"
proof (induction xs arbitrary: x y)
  case Nil
  then show ?case by simp
next
  case (Cons a xs)
  have "max a x \<le> fold max xs (max a x)" by (rule Cons.IH) simp
  with Cons show ?case by auto
qed

lemma fold_max_in: "fold max xs (x::'a::linorder) \<in> insert x (set xs)"
  by (induction xs arbitrary: x) (auto simp: max_def split: if_splits)

lemma fold_min_lower: "y \<in> insert x (set xs) \<Longrightarrow> fold min xs (x::'a::linorder) \<le> y"
proof (induction xs arbitrary: x y)
  case Nil
  then show ?case by simp
next
  case (Cons a xs)
  have "fold min xs (min a x) \<le> min a x" by (rule Cons.IH) simp
  with Cons show ?case by auto
qed

lemma fold_min_in: "fold min xs (x::'a::linorder) \<in> insert x (set xs)"
  by (induction xs arbitrary: x) (auto simp: min_def split: if_splits)

lemma iter_max_Some_iff:
  "iter_max xs = Some m \<longleftrightarrow> m \<in> set xs \<and> (\<forall>x \<in> set xs. x \<le> m)"
proof (cases xs)
  case Nil
  then show ?thesis by simp
next
  case (Cons a ys)
  have "fold max ys a \<in> set xs" and "\<forall>x \<in> set xs. x \<le> fold max ys a"
    using fold_max_in[of ys a] fold_max_upper[of _ a ys] Cons by auto
  with Cons show ?thesis by (auto intro: antisym)
qed

lemma iter_max_None_iff [simp]: "iter_max xs = None \<longleftrightarrow> xs = []"
  by (cases xs) auto

lemma iter_min_Some_iff:
  "iter_min xs = Some m \<longleftrightarrow> m \<in> set xs \<and> (\<forall>x \<in> set xs. m \<le> x)"
proof (cases xs)
  case Nil
  then show ?thesis by simp
next
  case (Cons a ys)
  have "fold min ys a \<in> set xs" and "\<forall>x \<in> set xs. fold min ys a \<le> x"
    using fold_min_in[of ys a] fold_min_lower[of _ a ys] Cons by auto
  with Cons show ?thesis by (auto intro: antisym)
qed

lemma iter_min_None_iff [simp]: "iter_min xs = None \<longleftrightarrow> xs = []"
  by (cases xs) auto

lemma of_char_digit_char [simp]: "d < 10 \<Longrightarrow> (of_char (digit_char d) :: nat) = 48 + d"
  by (simp add: digit_char_def)

lemma digit_val_digit_char [simp]: "d < 10 \<Longrightarrow> digit_val (digit_char d) = Some d"
  by (simp add: digit_val_def is_digit_def)

lemma show_nat_nonempty [simp]: "show_nat n \<noteq> []"
  by (subst show_nat.simps) simp

lemma show_nat_digits: "c \<in> set (show_nat n) \<Longrightarrow> is_digit c"
proof (induction n rule: show_nat.induct)
  case (1 n)
  show ?case
  proof (cases "n < 10")
    case True
    with "1.prems" show ?thesis by (simp add: show_nat.simps[of n] is_digit_def)
  next
    case False
    have "is_digit (digit_char (n mod 10))" by (simp add: is_digit_def)
    with False "1.prems" "1.IH" show ?thesis by (auto simp: show_nat.simps[of n])
  qed
qed

lemma read_radix_append:
  "read_radix v r acc (xs @ ys) = Option.bind (read_radix v r acc xs) (\<lambda>a. read_radix v r a ys)"
  by (induction xs arbitrary: acc) (auto split: option.split)

lemma read_radix_show_nat: "read_radix digit_val 10 0 (show_nat n) = Some n"
proof (induction n rule: show_nat.induct)
  case (1 n)
  then show ?case
    by (cases "n < 10") (simp_all add: show_nat.simps[of n] read_radix_append)
qed

lemma hd_show_nat_neq_plus [simp]: "hd (show_nat n) \<noteq> CHR ''+''"
proof -
  have "is_digit (hd (show_nat n))" by (rule show_nat_digits[of _ n]) simp
  then show ?thesis by (auto simp: is_digit_def)
qed

lemma read_digits_show_nat [simp]: "read_digits digit_val 10 (show_nat n) = Some n"
  by (simp add: read_digits_def read_radix_show_nat)

lemma parse_uint_show_word [simp]: "parse_uint (show_word w) = Some (w :: 'w::len word)"
  by (simp add: parse_uint_def show_word_def)

lemma show_nat_inj [simp]: "show_nat m = show_nat n \<longleftrightarrow> m = n"
  by (metis option.inject read_radix_show_nat)

lemma show_word_inj [simp]: "show_word v = show_word w \<longleftrightarrow> v = (w :: 'w::len word)"
  by (simp add: show_word_def word_unat_eq_iff)

lemma show_word_nonempty [simp]: "show_word w \<noteq> []"
  by (simp add: show_word_def)

lemma show_word_digits: "c \<in> set (show_word w) \<Longrightarrow> is_digit c"
  by (auto simp: show_word_def dest: show_nat_digits)

text \<open>A piece without the separator in front of the separator is determined by the whole.\<close>

lemma split_at_unique:
  assumes "a @ d # b = a' @ d # b'" and "d \<notin> set a" and "d \<notin> set a'"
  shows "a = a' \<and> b = b'"
proof -
  have "takeWhile (\<lambda>c. c \<noteq> d) (a @ d # b) = a" "takeWhile (\<lambda>c. c \<noteq> d) (a' @ d # b') = a'"
    using assms(2,3) by (auto simp: takeWhile_append)
  with assms(1) show ?thesis by auto
qed

lemma starts_with_append [simp]: "starts_with (p @ s) p"
  by (simp add: starts_with_def)

lemma starts_withE: "starts_with s p \<Longrightarrow> \<exists>r. s = p @ r"
  unfolding starts_with_def by (metis append_take_drop_id)

lemma starts_with_iff: "starts_with s p \<longleftrightarrow> (\<exists>r. s = p @ r)"
  using starts_withE by (auto simp: starts_with_def)

lemma contains_iff: "contains s p \<longleftrightarrow> (\<exists>a b. s = a @ p @ b)"
proof (induction s)
  case Nil
  then show ?case by (simp add: contains_def)
next
  case (Cons c s)
  show ?case
  proof
    assume "contains (c # s) p"
    then consider "starts_with (c # s) p" | "contains s p"
      by (auto simp: contains_def split: if_splits)
    then show "\<exists>a b. c # s = a @ p @ b"
    proof cases
      case 1
      then show ?thesis by (auto simp: starts_with_iff intro: exI[of _ "[]"])
    next
      case 2
      with Cons.IH obtain a b where "s = a @ p @ b" by auto
      then show ?thesis by (intro exI[of _ "c # a"] exI[of _ b]) simp
    qed
  next
    assume "\<exists>a b. c # s = a @ p @ b"
    then obtain a b where ab: "c # s = a @ p @ b" by auto
    show "contains (c # s) p"
    proof (cases a)
      case Nil
      with ab have "starts_with (c # s) p" by (auto simp: starts_with_iff)
      then show ?thesis by (simp add: contains_def)
    next
      case (Cons x a')
      with ab have "\<exists>a b. s = a @ p @ b" by auto
      with Cons.IH have "contains s p" by simp
      then show ?thesis by (auto simp: contains_def)
    qed
  qed
qed

lemma contains_append: "contains s p \<Longrightarrow> contains (a @ s @ b) p"
  unfolding contains_iff by (metis append.assoc)

lemma split_on_nonempty [simp]: "split_on d s \<noteq> []"
  by (induction s) (auto split: list.split)

lemma split_on_absent: "d \<notin> set a \<Longrightarrow> split_on d a = [a]"
  by (induction a) auto

lemma split_on_append: "d \<notin> set a \<Longrightarrow> split_on d (a @ d # s) = a # split_on d s"
  by (induction a) auto

lemma words_acc_run: "\<forall>c \<in> set w. \<not> is_space c \<Longrightarrow> words_acc acc (w @ s) = words_acc (rev w @ acc) s"
  by (induction w arbitrary: acc) auto

lemma split_whitespace_word:
  assumes "\<forall>c \<in> set w. \<not> is_space c" and "w \<noteq> []"
  shows "split_whitespace w = [w]" and "is_space c \<Longrightarrow> split_whitespace (w @ c # s) = w # split_whitespace s"
  using words_acc_run[OF assms(1), of "[]"] words_acc_run[OF assms(1), of "[]" "[]"] assms(2)
  by (auto simp: split_whitespace_def)

lemma is_space_iff: "is_space c \<longleftrightarrow> (of_char c :: nat) \<in> {9, 10, 11, 12, 13, 32}"
proof -
  have "c = CHR 0x09 \<longleftrightarrow> of_char c = (9::nat)" "c = CHR 0x0A \<longleftrightarrow> of_char c = (10::nat)"
    "c = CHR 0x0B \<longleftrightarrow> of_char c = (11::nat)" "c = CHR 0x0C \<longleftrightarrow> of_char c = (12::nat)"
    "c = CHR 0x0D \<longleftrightarrow> of_char c = (13::nat)" "c = CHR 0x20 \<longleftrightarrow> of_char c = (32::nat)"
    by (auto simp flip: of_char_eq_iff[where 'a = nat])
  then show ?thesis by (simp add: is_space_def)
qed

lemma digit_not_space: "is_digit c \<Longrightarrow> \<not> is_space c"
  by (auto simp: is_digit_def is_space_iff)

lemma dropWhile_id: "\<forall>c \<in> set s. \<not> P c \<Longrightarrow> dropWhile P s = s"
  by (cases s) auto

lemma trim_no_space: "\<forall>c \<in> set s. \<not> is_space c \<Longrightarrow> trim s = s"
  by (simp add: trim_def trim_matches_def trim_start_matches_def trim_end_matches_def dropWhile_id)

lemma trim_show_word [simp]: "trim (show_word w) = show_word w"
  by (rule trim_no_space) (auto dest: show_word_digits digit_not_space)

section \<open>Reachable states and invariants\<close>

text \<open>The states a step relation reaches from its initial states.\<close>

inductive reachable_by :: "('s \<Rightarrow> bool) \<Rightarrow> ('s \<Rightarrow> 's \<Rightarrow> bool) \<Rightarrow> 's \<Rightarrow> bool"
  for init step where
  start: "init s \<Longrightarrow> reachable_by init step s"
| more: "reachable_by init step s \<Longrightarrow> step s t \<Longrightarrow> reachable_by init step t"

text \<open>
  The contract of a stateful component: an invariant that its initial states satisfy and its
  steps keep. Whatever the invariant says then holds of every reachable state.
\<close>

locale step_invariant =
  fixes init :: "'s \<Rightarrow> bool"
    and step :: "'s \<Rightarrow> 's \<Rightarrow> bool"
    and inv :: "'s \<Rightarrow> bool"
  assumes inv_init: "init s \<Longrightarrow> inv s"
    and inv_step: "inv s \<Longrightarrow> step s t \<Longrightarrow> inv t"
begin

lemma reachable_inv: "reachable_by init step s \<Longrightarrow> inv s"
  by (induction rule: reachable_by.induct) (auto intro: inv_init inv_step)

end

end
