(* ===== verification/F64.thy ===== *)
theory F64
  imports Fraggle_Prelude Complex_Main
begin

text \<open>
  Rust's \<open>f64\<close> (IEEE 754 binary64, round to nearest, ties to even) as an executable type.
  A finite value is the rational it denotes; \<open>-0.0\<close> and \<open>0.0\<close> are one value, which the
  source never tells apart. The operations compute the exact result and round it with
  \<open>f64_round\<close>; comparisons are false as soon as one side is \<open>NaN\<close>; casts to an unsigned
  type saturate, as Rust's \<open>as\<close> does.

  The locale \<open>rounding\<close> is the interface the components rely on: rounding is monotone and
  leaves zero and the small integers alone. It is interpreted on \<open>f64_round\<close>.
\<close>

datatype f64 = NaN | PInf | NInf | Fin rat

section \<open>Rounding\<close>

fun bit_len :: "nat \<Rightarrow> nat" where
  "bit_len n = (if n = 0 then 0 else Suc (bit_len (n div 2)))"

declare bit_len.simps [simp del]

definition ilog2 :: "rat \<Rightarrow> int" where
  "ilog2 r = (case quotient_of r of (p, q) \<Rightarrow>
     let e = int (bit_len (nat p)) - int (bit_len (nat q))
     in if 2 powi e \<le> r then e else e - 1)"

definition round_half_even :: "rat \<Rightarrow> int" where
  "round_half_even q = (let f = \<lfloor>q\<rfloor>; d = q - of_int f in
     if d < 1 / 2 then f else if 1 / 2 < d then f + 1 else if even f then f else f + 1)"

definition ulp_exp :: "rat \<Rightarrow> int" where
  "ulp_exp a = max (ilog2 a - 52) (- 1074)"

definition round_mag :: "rat \<Rightarrow> rat" where
  "round_mag a = (let e = ulp_exp a in of_int (round_half_even (a / 2 powi e)) * 2 powi e)"

definition f64_round :: "rat \<Rightarrow> f64" where
  "f64_round r =
     (if r = 0 then Fin 0
      else if 0 < r then (if 2 ^ 1024 \<le> round_mag r then PInf else Fin (round_mag r))
      else (if 2 ^ 1024 \<le> round_mag (- r) then NInf else Fin (- round_mag (- r))))"

section \<open>Comparison, arithmetic, casts, printing\<close>

fun f64_lt :: "f64 \<Rightarrow> f64 \<Rightarrow> bool" where
  "f64_lt (Fin a) (Fin b) = (a < b)"
| "f64_lt (Fin _) PInf = True"
| "f64_lt NInf (Fin _) = True"
| "f64_lt NInf PInf = True"
| "f64_lt _ _ = False"

definition f64_le :: "f64 \<Rightarrow> f64 \<Rightarrow> bool" where
  "f64_le x y \<longleftrightarrow> f64_lt x y \<or> (x = y \<and> x \<noteq> NaN)"

fun f64_neg :: "f64 \<Rightarrow> f64" where
  "f64_neg NaN = NaN"
| "f64_neg PInf = NInf"
| "f64_neg NInf = PInf"
| "f64_neg (Fin a) = Fin (- a)"

fun f64_add :: "f64 \<Rightarrow> f64 \<Rightarrow> f64" where
  "f64_add (Fin a) (Fin b) = f64_round (a + b)"
| "f64_add NaN _ = NaN"
| "f64_add _ NaN = NaN"
| "f64_add PInf NInf = NaN"
| "f64_add NInf PInf = NaN"
| "f64_add PInf _ = PInf"
| "f64_add _ PInf = PInf"
| "f64_add NInf _ = NInf"
| "f64_add _ NInf = NInf"

definition f64_sub :: "f64 \<Rightarrow> f64 \<Rightarrow> f64" where
  "f64_sub x y = f64_add x (f64_neg y)"

text \<open>An infinity times a value of the given sign.\<close>

definition inf_of_sign :: "rat \<Rightarrow> f64" where
  "inf_of_sign s = (if s = 0 then NaN else if 0 < s then PInf else NInf)"

fun f64_sign :: "f64 \<Rightarrow> rat" where
  "f64_sign NaN = 0"
| "f64_sign PInf = 1"
| "f64_sign NInf = - 1"
| "f64_sign (Fin a) = sgn a"

fun f64_mul :: "f64 \<Rightarrow> f64 \<Rightarrow> f64" where
  "f64_mul (Fin a) (Fin b) = f64_round (a * b)"
| "f64_mul NaN _ = NaN"
| "f64_mul _ NaN = NaN"
| "f64_mul x y = inf_of_sign (f64_sign x * f64_sign y)"

text \<open>A zero divisor is \<open>+0.0\<close>.\<close>

fun f64_div :: "f64 \<Rightarrow> f64 \<Rightarrow> f64" where
  "f64_div (Fin a) (Fin b) = (if b = 0 then inf_of_sign a else f64_round (a / b))"
| "f64_div NaN _ = NaN"
| "f64_div _ NaN = NaN"
| "f64_div (Fin _) _ = Fin 0"
| "f64_div x (Fin b) = (if b = 0 then x else inf_of_sign (f64_sign x * sgn b))"
| "f64_div _ _ = NaN"

fun f64_abs :: "f64 \<Rightarrow> f64" where
  "f64_abs NaN = NaN"
| "f64_abs PInf = PInf"
| "f64_abs NInf = PInf"
| "f64_abs (Fin a) = Fin \<bar>a\<bar>"

text \<open>\<open>n as f64\<close> and \<open>x as u64\<close>\<close>

definition f64_of_nat :: "nat \<Rightarrow> f64" where
  "f64_of_nat n = f64_round (of_nat n)"

fun f64_as_uint :: "f64 \<Rightarrow> 'w::len word" where
  "f64_as_uint NaN = 0"
| "f64_as_uint PInf = - 1"
| "f64_as_uint NInf = 0"
| "f64_as_uint (Fin a) = (if a \<le> 0 then 0 else if 2 ^ LENGTH('w) \<le> \<lfloor>a\<rfloor> then - 1 else of_int \<lfloor>a\<rfloor>)"

text \<open>\<open>Duration::as_secs_f64\<close> of a duration in nanoseconds\<close>

definition as_secs_f64 :: "nat \<Rightarrow> f64" where
  "as_secs_f64 ns = f64_add (f64_of_nat (ns div 1000000000))
     (f64_div (f64_of_nat (ns mod 1000000000)) (Fin 1000000000))"

text \<open>\<open>format!("{:.1}", x)\<close>\<close>

definition fmt1_rat :: "rat \<Rightarrow> string" where
  "fmt1_rat a = (let n = nat (round_half_even (\<bar>a\<bar> * 10)) in
     (if a < 0 then ''-'' else []) @ show_nat (n div 10) @ ''.'' @ show_nat (n mod 10))"

fun fmt1 :: "f64 \<Rightarrow> string" where
  "fmt1 NaN = ''NaN''"
| "fmt1 PInf = ''inf''"
| "fmt1 NInf = ''-inf''"
| "fmt1 (Fin a) = fmt1_rat a"

text \<open>\<open>parse::<f64>()\<close>: an optional sign, then \<open>inf\<close>, \<open>infinity\<close>, \<open>nan\<close> (any case) or a
  decimal with an optional fraction and exponent, rounded to the nearest value.\<close>

definition parse_exp :: "string \<Rightarrow> int option" where
  "parse_exp s =
     (if s = [] then Some 0
      else if hd s \<noteq> CHR ''e'' \<and> hd s \<noteq> CHR ''E'' then None
      else let t = tl s; neg = (t \<noteq> [] \<and> hd t = CHR ''-'');
               d = (if t \<noteq> [] \<and> (hd t = CHR ''-'' \<or> hd t = CHR ''+'') then tl t else t)
           in if d = [] then None
              else map_option (\<lambda>n. if neg then - int n else int n) (read_radix digit_val 10 0 d))"

definition parse_decimal :: "string \<Rightarrow> rat option" where
  "parse_decimal t =
     (let ip = takeWhile is_digit t; r = dropWhile is_digit t;
          dot = (r \<noteq> [] \<and> hd r = CHR ''.'');
          fp = (if dot then takeWhile is_digit (tl r) else []);
          r2 = (if dot then dropWhile is_digit (tl r) else r)
      in if ip = [] \<and> fp = [] then None
         else case (read_radix digit_val 10 0 (ip @ fp), parse_exp r2) of
           (Some n, Some e) \<Rightarrow> Some (of_nat n * 10 powi (e - int (length fp)))
         | _ \<Rightarrow> None)"

definition parse_f64 :: "string \<Rightarrow> f64 option" where
  "parse_f64 s =
     (let neg = (s \<noteq> [] \<and> hd s = CHR ''-'');
          t = (if s \<noteq> [] \<and> (hd s = CHR ''-'' \<or> hd s = CHR ''+'') then tl s else s)
      in if to_lowercase t = ''inf'' \<or> to_lowercase t = ''infinity'' then Some (if neg then NInf else PInf)
         else if to_lowercase t = ''nan'' then Some NaN
         else map_option (\<lambda>q. f64_round (if neg then - q else q)) (parse_decimal t))"

section \<open>The order\<close>

lemma f64_le_refl [simp]: "f64_le x x \<longleftrightarrow> x \<noteq> NaN"
  by (cases x) (auto simp: f64_le_def)

lemma f64_le_Fin [simp]: "f64_le (Fin a) (Fin b) \<longleftrightarrow> a \<le> b"
  by (auto simp: f64_le_def)

lemma f64_le_trans [trans]: "f64_le x y \<Longrightarrow> f64_le y z \<Longrightarrow> f64_le x z"
  by (cases x; cases y; cases z) (auto simp: f64_le_def)

lemma f64_not_lt_iff: "x \<noteq> NaN \<Longrightarrow> y \<noteq> NaN \<Longrightarrow> \<not> f64_lt x y \<longleftrightarrow> f64_le y x"
  by (cases x; cases y) (auto simp: f64_le_def)

lemma f64_lt_NaN [simp]: "\<not> f64_lt NaN x" "\<not> f64_lt x NaN"
  by (cases x; simp)+

lemma f64_le_NaN [simp]: "\<not> f64_le NaN x" "\<not> f64_le x NaN"
  by (auto simp: f64_le_def)

lemma f64_lt_le_trans: "f64_lt x y \<Longrightarrow> f64_le y z \<Longrightarrow> f64_lt x z"
  by (cases x; cases y; cases z) (auto simp: f64_le_def)

lemma f64_le_between_Fin: "f64_le (Fin a) x \<Longrightarrow> f64_le x (Fin b) \<Longrightarrow> \<exists>c. x = Fin c \<and> a \<le> c \<and> c \<le> b"
  by (cases x) (auto simp: f64_le_def)

section \<open>Rounding is monotone and exact on what is representable\<close>

lemma bit_len_bounds: "0 < n \<Longrightarrow> 0 < bit_len n \<and> 2 ^ (bit_len n - 1) \<le> n \<and> n < 2 ^ bit_len n"
proof (induction n rule: bit_len.induct)
  case (1 n)
  show ?case
  proof (cases "n div 2 = 0")
    case True
    with 1 have "n = 1" by simp
    then show ?thesis by (simp add: bit_len.simps)
  next
    case False
    with 1 have ih: "0 < bit_len (n div 2)" "2 ^ (bit_len (n div 2) - 1) \<le> n div 2"
      "n div 2 < 2 ^ bit_len (n div 2)" by auto
    have s: "bit_len n = Suc (bit_len (n div 2))"
      using 1 by (simp add: bit_len.simps[of n])
    from ih(1) obtain k where k: "bit_len (n div 2) = Suc k" by (cases "bit_len (n div 2)") auto
    with ih s show ?thesis by auto
  qed
qed

lemma ilog2_bounds:
  assumes "0 < r"
  shows "2 powi (ilog2 r) \<le> r" and "r < 2 powi (ilog2 r + 1)"
proof -
  obtain p q where pq: "quotient_of r = (p, q)" by (cases "quotient_of r")
  have q: "0 < q" and r: "r = of_int p / of_int q"
    using quotient_of_denom_pos[OF pq] quotient_of_div[OF pq] by auto
  with assms have p: "0 < p" by (simp add: zero_less_divide_iff)
  define a b where "a = int (bit_len (nat p))" and "b = int (bit_len (nat q))"
  have bnd: "(2::rat) powi (int (bit_len (nat z)) - 1) \<le> of_int z \<and> (of_int z :: rat) < 2 powi int (bit_len (nat z))"
    if "0 < z" for z
  proof -
    have l: "0 < bit_len (nat z)" "2 ^ (bit_len (nat z) - 1) \<le> nat z" "nat z < 2 ^ bit_len (nat z)"
      using bit_len_bounds[of "nat z"] that by auto
    have "(2::rat) powi (int (bit_len (nat z)) - 1) = of_nat (2 ^ (bit_len (nat z) - 1))"
      using l(1) by (simp add: power_int_def nat_diff_distrib)
    also have "\<dots> \<le> of_nat (nat z)" using l(2) by (simp only: of_nat_le_iff)
    finally have 1: "(2::rat) powi (int (bit_len (nat z)) - 1) \<le> of_int z" using that by simp
    have "(of_nat (nat z) :: rat) < of_nat (2 ^ bit_len (nat z))" using l(3) by (simp only: of_nat_less_iff)
    then have "(of_int z :: rat) < 2 powi int (bit_len (nat z))" using that by simp
    with 1 show ?thesis by simp
  qed
  have pb: "2 powi (a - 1) \<le> (of_int p :: rat)" "(of_int p :: rat) < 2 powi a"
    using bnd[OF p] by (simp_all add: a_def)
  have qb: "2 powi (b - 1) \<le> (of_int q :: rat)" "(of_int q :: rat) < 2 powi b"
    using bnd[OF q] by (simp_all add: b_def)
  have hi: "r < 2 powi (a - b + 1)"
  proof -
    have "r \<le> of_int p / 2 powi (b - 1)"
      unfolding r using p qb(1) by (intro divide_left_mono) (auto intro!: mult_pos_pos simp: q)
    also have "\<dots> < 2 powi a / 2 powi (b - 1)" using pb(2) by (intro divide_strict_right_mono) auto
    also have "\<dots> = 2 powi (a - b + 1)" by (simp flip: power_int_diff add: algebra_simps)
    finally show ?thesis .
  qed
  have lo: "2 powi (a - b - 1) \<le> r"
  proof -
    have "2 powi (a - b - 1) = 2 powi (a - 1) / (2 powi b :: rat)"
      by (simp flip: power_int_diff add: algebra_simps)
    also have "\<dots> \<le> of_int p / 2 powi b" using pb(1) by (intro divide_right_mono) auto
    also have "\<dots> \<le> r"
      unfolding r using p qb(2) q by (intro divide_left_mono) (auto intro!: mult_pos_pos)
    finally show ?thesis .
  qed
  have ilog: "ilog2 r = (if 2 powi (a - b) \<le> r then a - b else a - b - 1)"
    by (simp add: ilog2_def pq a_def b_def Let_def)
  show "2 powi (ilog2 r) \<le> r" and "r < 2 powi (ilog2 r + 1)"
    using hi lo by (auto simp: ilog)
qed

lemma powi_less_iff2: "(2::rat) powi m < 2 powi n \<longleftrightarrow> m < n"
  by (meson linorder_not_less one_less_numeral_iff power_int_increasing power_int_strict_increasing
      semiring_norm(76) one_le_numeral)

lemma ilog2_mono: "0 < a \<Longrightarrow> a \<le> b \<Longrightarrow> ilog2 a \<le> ilog2 b"
proof -
  assume "0 < a" "a \<le> b"
  then have "(2::rat) powi (ilog2 a) < 2 powi (ilog2 b + 1)"
    using ilog2_bounds(1)[of a] ilog2_bounds(2)[of b] by linarith
  then show ?thesis by (simp add: powi_less_iff2)
qed

lemma round_half_even_mono: "a \<le> b \<Longrightarrow> round_half_even a \<le> round_half_even b"
proof -
  assume le: "a \<le> b"
  consider "\<lfloor>a\<rfloor> < \<lfloor>b\<rfloor>" | "\<lfloor>a\<rfloor> = \<lfloor>b\<rfloor>" using floor_mono[OF le] by linarith
  then show ?thesis
  proof cases
    case 1
    then show ?thesis by (auto simp: round_half_even_def Let_def)
  next
    case 2
    with le show ?thesis by (auto simp: round_half_even_def Let_def)
  qed
qed

lemma round_half_even_of_int [simp]: "round_half_even (of_int n) = n"
  by (simp add: round_half_even_def)

text \<open>A multiple of the unit in the last place is its own rounding.\<close>

lemma round_grid:
  assumes "x = of_int m * 2 powi (k::int)" and "e \<le> k"
  shows "of_int (round_half_even (x / 2 powi e)) * 2 powi e = x"
proof -
  have "x / 2 powi e = of_int m * 2 powi (k - e)"
    using assms(1) by (simp add: power_int_diff)
  also have "\<dots> = of_int (m * 2 ^ nat (k - e))"
    using assms(2) by (simp add: power_int_def)
  finally have "x / 2 powi e = of_int (m * 2 ^ nat (k - e))" .
  then have "of_int (round_half_even (x / 2 powi e)) = x / 2 powi e"
    by (simp only: round_half_even_of_int)
  then show ?thesis by simp
qed

lemma round_mag_mono:
  assumes a: "0 < a" and ab: "a \<le> b"
  shows "round_mag a \<le> round_mag b"
proof (cases "ulp_exp a = ulp_exp b")
  case True
  have "a / 2 powi ulp_exp b \<le> b / 2 powi ulp_exp b" using ab by (intro divide_right_mono) auto
  from round_half_even_mono[OF this] show ?thesis
    by (simp add: round_mag_def Let_def True mult_right_mono)
next
  case False
  define k where "k = ilog2 b"
  have lk: "ilog2 a < k" and kb: "ulp_exp b \<le> k" and ka: "ulp_exp a \<le> k"
    using False ilog2_mono[OF a ab] by (auto simp: ulp_exp_def k_def max_def split: if_splits)
  have ak: "a \<le> 2 powi k"
  proof -
    have "a < 2 powi (ilog2 a + 1)" using ilog2_bounds(2)[OF a] .
    also have "\<dots> \<le> 2 powi k" using lk by (intro power_int_increasing) auto
    finally show ?thesis by simp
  qed
  have bk: "2 powi k \<le> b" using ilog2_bounds(1)[of b] a ab by (simp add: k_def)
  have grid: "of_int (round_half_even (2 powi k / 2 powi e)) * 2 powi e = (2 powi k :: rat)" if "e \<le> k" for e
    by (rule round_grid[of _ 1 k]) (use that in auto)
  have "round_mag a \<le> 2 powi k"
  proof -
    have "a / 2 powi ulp_exp a \<le> 2 powi k / 2 powi ulp_exp a" using ak by (intro divide_right_mono) auto
    from round_half_even_mono[OF this]
    have "round_mag a \<le> of_int (round_half_even (2 powi k / 2 powi ulp_exp a)) * 2 powi ulp_exp a"
      by (simp add: round_mag_def Let_def mult_right_mono)
    then show ?thesis using grid[OF ka] by simp
  qed
  also have "2 powi k \<le> round_mag b"
  proof -
    have "2 powi k / 2 powi ulp_exp b \<le> b / 2 powi ulp_exp b" using bk by (intro divide_right_mono) auto
    from round_half_even_mono[OF this]
    have "of_int (round_half_even (2 powi k / 2 powi ulp_exp b)) * 2 powi ulp_exp b \<le> round_mag b"
      by (simp add: round_mag_def Let_def mult_right_mono)
    then show ?thesis using grid[OF kb] by simp
  qed
  finally show ?thesis .
qed

lemma round_mag_nonneg: "0 < a \<Longrightarrow> 0 \<le> round_mag a"
proof -
  assume "0 < a"
  then have "round_half_even 0 \<le> round_half_even (a / 2 powi ulp_exp a)"
    by (intro round_half_even_mono) simp
  moreover have "round_half_even 0 = 0" using round_half_even_of_int[of 0] by simp
  ultimately show ?thesis by (simp add: round_mag_def Let_def)
qed

text \<open>The numbers \<open>m * 2 ^ k\<close> of binary64 with a 53-bit integer significand.\<close>

lemma round_mag_exact:
  assumes "x = of_int m * 2 powi (k::int)" "0 < m" "m < 2 ^ 53" "- 1074 \<le> k"
  shows "round_mag x = x"
proof -
  have "0 < x" using assms by simp
  have "x < 2 powi (k + 53)"
  proof -
    have "(of_int m :: rat) < of_int (2 ^ 53)" using assms(3) by (simp only: of_int_less_iff)
    then have "x < of_int (2 ^ 53) * 2 powi k"
      unfolding assms(1) by (intro mult_strict_right_mono) auto
    then show ?thesis by (simp add: power_int_add)
  qed
  with ilog2_bounds(1)[OF \<open>0 < x\<close>] have "(2::rat) powi (ilog2 x) < 2 powi (k + 53)" by linarith
  then have "ulp_exp x \<le> k" using assms(4) by (simp add: powi_less_iff2 ulp_exp_def)
  then show ?thesis using round_grid[OF assms(1)] by (simp add: round_mag_def Let_def)
qed

lemma f64_round_small_int: "\<bar>n\<bar> < 2 ^ 53 \<Longrightarrow> f64_round (of_int n) = Fin (of_int n)"
proof -
  assume n: "\<bar>n\<bar> < 2 ^ 53"
  have pos: "f64_round (of_int m) = Fin (of_int m) \<and> round_mag (of_int m) = of_int m \<and> (of_int m :: rat) < 2 ^ 1024"
    if "0 < m" "m < 2 ^ 53" for m
  proof -
    have r: "round_mag (of_int m) = of_int m"
      by (rule round_mag_exact[of _ m 0]) (use that in auto)
    have "(of_int m :: rat) < of_int (2 ^ 53)" using that by (simp only: of_int_less_iff)
    then have lt: "(of_int m :: rat) < 2 ^ 1024" by simp
    with r that show ?thesis by (simp add: f64_round_def)
  qed
  consider "n = 0" | "0 < n" | "n < 0" by linarith
  then show ?thesis
  proof cases
    case 1
    then show ?thesis by (simp add: f64_round_def)
  next
    case 2
    with pos[of n] n show ?thesis by simp
  next
    case 3
    with pos[of "- n"] n show ?thesis by (simp add: f64_round_def)
  qed
qed

lemma f64_round_not_NaN [simp]: "f64_round r \<noteq> NaN"
  by (simp add: f64_round_def)

lemma f64_round_mono: "a \<le> b \<Longrightarrow> f64_le (f64_round a) (f64_round b)"
proof -
  assume ab: "a \<le> b"
  consider "0 < a" | "a \<le> 0" "0 \<le> b" | "b < 0" by linarith
  then show ?thesis
  proof cases
    case 1
    with ab have "0 < b" and m: "round_mag a \<le> round_mag b" by (auto intro: round_mag_mono)
    with 1 show ?thesis by (auto simp: f64_round_def f64_le_def)
  next
    case 2
    have "f64_le (f64_round a) (Fin 0)"
      using 2 round_mag_nonneg[of "- a"] by (auto simp: f64_round_def f64_le_def)
    moreover have "f64_le (Fin 0) (f64_round b)"
      using 2 round_mag_nonneg[of b] by (auto simp: f64_round_def f64_le_def)
    ultimately show ?thesis by (rule f64_le_trans)
  next
    case 3
    with ab have "a < 0" and m: "round_mag (- b) \<le> round_mag (- a)" by (auto intro: round_mag_mono)
    with 3 show ?thesis by (auto simp: f64_round_def f64_le_def)
  qed
qed

section \<open>The interface of rounding\<close>

locale rounding =
  fixes rnd :: "rat \<Rightarrow> f64"
  assumes rnd_mono: "a \<le> b \<Longrightarrow> f64_le (rnd a) (rnd b)"
    and rnd_int: "\<bar>n\<bar> < 2 ^ 53 \<Longrightarrow> rnd (of_int n) = Fin (of_int n)"
begin

lemma rnd_0: "rnd 0 = Fin 0"
  using rnd_int[of 0] by simp

lemma rnd_1: "rnd 1 = Fin 1"
  using rnd_int[of 1] by simp

lemma rnd_numeral: "numeral k < (2::int) ^ 53 \<Longrightarrow> rnd (numeral k) = Fin (numeral k)"
  using rnd_int[of "numeral k"] by simp

lemma rnd_nonneg: "0 \<le> a \<Longrightarrow> f64_le (Fin 0) (rnd a)"
  using rnd_mono[of 0 a] by (simp add: rnd_0)

lemma rnd_le_int: "a \<le> of_int n \<Longrightarrow> \<bar>n\<bar> < 2 ^ 53 \<Longrightarrow> f64_le (rnd a) (Fin (of_int n))"
  using rnd_mono[of a "of_int n"] by (simp add: rnd_int)

lemma rnd_within_int:
  assumes "0 \<le> a" "a \<le> of_int n" "\<bar>n\<bar> < 2 ^ 53"
  shows "\<exists>c. rnd a = Fin c \<and> 0 \<le> c \<and> c \<le> of_int n"
  using f64_le_between_Fin[OF rnd_nonneg[OF assms(1)] rnd_le_int[OF assms(2,3)]] by auto

text \<open>A quotient of a part by its whole rounds into the unit interval.\<close>

lemma rnd_ratio:
  assumes "0 \<le> a" "a \<le> b" "0 < b"
  shows "\<exists>c. rnd (a / b) = Fin c \<and> 0 \<le> c \<and> c \<le> 1"
  using rnd_within_int[of "a / b" 1] assms by (simp add: divide_le_eq)

end

interpretation ieee: rounding f64_round
  by unfold_locales (auto intro: f64_round_mono f64_round_small_int)

lemmas f64_round_simps [simp] = ieee.rnd_0 ieee.rnd_1

lemma f64_of_nat_mono: "m \<le> n \<Longrightarrow> f64_le (f64_of_nat m) (f64_of_nat n)"
  by (simp add: f64_of_nat_def f64_round_mono)

lemma f64_of_nat_small: "n < 2 ^ 53 \<Longrightarrow> f64_of_nat n = Fin (of_nat n)"
  using f64_round_small_int[of "int n"] by (simp add: f64_of_nat_def)

lemma f64_of_nat_0 [simp]: "f64_of_nat 0 = Fin 0"
  by (simp add: f64_of_nat_def)

lemma f64_of_nat_nonneg: "f64_le (Fin 0) (f64_of_nat n)"
  by (simp add: f64_of_nat_def ieee.rnd_nonneg)

end
