(* ===== verification/Load_Budget.thy ===== *)
theory Load_Budget
  imports F64
begin

text \<open>
  \<open>load_guard/budget.rs\<close>: the mandatory load budget, the caps of the two run modes, the
  validation every load phase passes through and the progressive ramp schedule.
\<close>

section \<open>Model\<close>

datatype RunMode = Maintenance | LiveEvent

record AbortThresholds =
  max_gateway_latency_ms :: f64
  max_loss_pct :: f64

record LoadBudget =
  mode :: RunMode
  target_rate_mbps :: f64
  max_duration_secs :: u64
  max_concurrency :: u32
  ramp_steps :: u32
  abort :: AbortThresholds

datatype BudgetError =
    RateExceedsCap string string RunMode
  | DurationExceedsCap u64 u64 RunMode
  | ConcurrencyExceedsCap u32 u32 RunMode
  | ZeroRamp

definition LIVE_EVENT_MAX_RATE_MBPS :: f64 where "LIVE_EVENT_MAX_RATE_MBPS = Fin 50"
definition LIVE_EVENT_MAX_DURATION_SECS :: u64 where "LIVE_EVENT_MAX_DURATION_SECS = 30"
definition LIVE_EVENT_MAX_CONCURRENCY :: u32 where "LIVE_EVENT_MAX_CONCURRENCY = 2"
definition MAINTENANCE_MAX_RATE_MBPS :: f64 where "MAINTENANCE_MAX_RATE_MBPS = Fin 1000"
definition MAINTENANCE_MAX_DURATION_SECS :: u64 where "MAINTENANCE_MAX_DURATION_SECS = 300"
definition MAINTENANCE_MAX_CONCURRENCY :: u32 where "MAINTENANCE_MAX_CONCURRENCY = 16"

definition live_event :: "f64 \<Rightarrow> u64 \<Rightarrow> u32 \<Rightarrow> LoadBudget" where
  "live_event rate dur conc =
     \<lparr>mode = LiveEvent, target_rate_mbps = rate, max_duration_secs = dur,
      max_concurrency = conc, ramp_steps = 4,
      abort = \<lparr>max_gateway_latency_ms = Fin 50, max_loss_pct = Fin 2\<rparr>\<rparr>"

definition maintenance :: "f64 \<Rightarrow> u64 \<Rightarrow> u32 \<Rightarrow> LoadBudget" where
  "maintenance rate dur conc =
     \<lparr>mode = Maintenance, target_rate_mbps = rate, max_duration_secs = dur,
      max_concurrency = conc, ramp_steps = 4,
      abort = \<lparr>max_gateway_latency_ms = Fin 200, max_loss_pct = Fin 10\<rparr>\<rparr>"

definition caps :: "LoadBudget \<Rightarrow> f64 \<times> u64 \<times> u32" where
  "caps b = (case mode b of
       LiveEvent \<Rightarrow> (LIVE_EVENT_MAX_RATE_MBPS, LIVE_EVENT_MAX_DURATION_SECS, LIVE_EVENT_MAX_CONCURRENCY)
     | Maintenance \<Rightarrow> (MAINTENANCE_MAX_RATE_MBPS, MAINTENANCE_MAX_DURATION_SECS, MAINTENANCE_MAX_CONCURRENCY))"

definition validate :: "LoadBudget \<Rightarrow> BudgetError + unit" where
  "validate b = (case caps b of (rate_cap, dur_cap, conc_cap) \<Rightarrow>
     if f64_lt rate_cap (target_rate_mbps b)
     then Inl (RateExceedsCap (fmt1 (target_rate_mbps b)) (fmt1 rate_cap) (mode b))
     else if dur_cap < max_duration_secs b
     then Inl (DurationExceedsCap (max_duration_secs b) dur_cap (mode b))
     else if conc_cap < max_concurrency b
     then Inl (ConcurrencyExceedsCap (max_concurrency b) conc_cap (mode b))
     else if ramp_steps b = 0 then Inl ZeroRamp
     else Inr ())"

definition ramp_schedule :: "LoadBudget \<Rightarrow> f64 list" where
  "ramp_schedule b =
     map (\<lambda>step. f64_mul (target_rate_mbps b) (f64_div (f64_of_nat step) (f64_of_nat (unat (ramp_steps b)))))
       [1 ..< Suc (unat (ramp_steps b))]"

lemmas budget_caps_defs = caps_def LIVE_EVENT_MAX_RATE_MBPS_def LIVE_EVENT_MAX_DURATION_SECS_def
  LIVE_EVENT_MAX_CONCURRENCY_def MAINTENANCE_MAX_RATE_MBPS_def MAINTENANCE_MAX_DURATION_SECS_def
  MAINTENANCE_MAX_CONCURRENCY_def

section \<open>What validation accepts\<close>

text \<open>The abstract meaning of an accepted budget, as a reference predicate.\<close>

definition within_caps :: "LoadBudget \<Rightarrow> bool" where
  "within_caps b \<longleftrightarrow>
     (target_rate_mbps b = NaN \<or> f64_le (target_rate_mbps b) (fst (caps b)))
     \<and> max_duration_secs b \<le> fst (snd (caps b)) \<and> max_concurrency b \<le> snd (snd (caps b))
     \<and> 0 < ramp_steps b"

lemma caps_rate_not_NaN: "fst (caps b) \<noteq> NaN"
  by (simp add: budget_caps_defs split: RunMode.split)

lemma validate_ok_iff: "validate b = Inr () \<longleftrightarrow> within_caps b"
proof -
  obtain r d c where abc: "caps b = (r, d, c)" by (cases "caps b")
  have "r \<noteq> NaN" using caps_rate_not_NaN[of b] abc by simp
  then have "\<not> f64_lt r (target_rate_mbps b) \<longleftrightarrow> target_rate_mbps b = NaN \<or> f64_le (target_rate_mbps b) r"
    by (cases "target_rate_mbps b = NaN") (auto simp: f64_not_lt_iff)
  then show ?thesis
    by (auto simp: validate_def within_caps_def abc not_less word_gt_0)
qed

section \<open>The ramp\<close>

lemma length_ramp_schedule: "length (ramp_schedule b) = unat (ramp_steps b)"
  by (simp add: ramp_schedule_def)

lemma unat_u32_lt: "unat (w :: u32) < 2 ^ 53"
proof -
  have "unat w < 2 ^ 32" using unsigned_less[of w] by simp
  then show ?thesis by (rule less_trans) simp
qed

lemma ramp_nth:
  assumes n: "n = unat (ramp_steps b)" and i: "i < n"
  shows "ramp_schedule b ! i = f64_mul (target_rate_mbps b) (f64_round (of_nat (Suc i) / of_nat n))"
proof -
  have "n < 2 ^ 53" using unat_u32_lt n by simp
  with i have "f64_div (f64_of_nat (Suc i)) (f64_of_nat n) = f64_round (of_nat (Suc i) / of_nat n)"
    by (simp add: f64_of_nat_small)
  moreover have "ramp_schedule b ! i = f64_mul (target_rate_mbps b)
      (f64_div (f64_of_nat (Suc i)) (f64_of_nat n))"
    using i by (simp add: ramp_schedule_def n del: upt_Suc)
  ultimately show ?thesis by simp
qed

lemma f64_round_unit: "0 \<le> r \<Longrightarrow> r \<le> 1 \<Longrightarrow> \<exists>c. f64_round r = Fin c \<and> 0 \<le> c \<and> c \<le> 1"
  using ieee.rnd_within_int[of r 1] by simp

lemma f64_mul_mono_right:
  assumes "target = Fin t" "0 \<le> t" "f64_le x y" "x = Fin a" "y = Fin c"
  shows "f64_le (f64_mul target x) (f64_mul target y)"
  using assms by (auto intro: f64_round_mono mult_left_mono)

lemma ramp_rate_bounds:
  assumes target: "target_rate_mbps b = Fin t" and t: "0 \<le> t" and repr: "f64_round t = Fin t"
    and r: "r \<in> set (ramp_schedule b)"
  shows "f64_le (Fin 0) r \<and> f64_le r (Fin t)"
proof -
  define n where n: "n = unat (ramp_steps b)"
  obtain i where i: "i < n" and ri: "r = ramp_schedule b ! i"
    using r by (auto simp: in_set_conv_nth length_ramp_schedule n)
  obtain c where c: "f64_round (of_nat (Suc i) / of_nat n) = Fin c" "0 \<le> c" "c \<le> 1"
    using f64_round_unit[of "of_nat (Suc i) / of_nat n"] i by auto
  have "r = f64_round (t * c)" using ri i c(1) target by (simp add: ramp_nth[OF n])
  moreover have "0 \<le> t * c" "t * c \<le> t" using c t mult_left_mono[of c 1 t] by auto
  ultimately show ?thesis
    using f64_round_mono[of "t * c" t] repr ieee.rnd_nonneg[of "t * c"] by simp
qed

text \<open>A value the machine can hold: its finite values are those that rounding leaves alone.\<close>

definition is_double :: "f64 \<Rightarrow> bool" where
  "is_double x = (case x of Fin t \<Rightarrow> f64_round t = Fin t | _ \<Rightarrow> True)"

lemma f64_round_tiny: "f64_round (1 / 2 ^ 32) = Fin (1 / 2 ^ 32)"
proof -
  have "round_mag (1 / 2 ^ 32) = 1 / 2 ^ 32"
    by (rule round_mag_exact[where m = 1 and k = "- 32"]) (simp_all add: power_int_minus field_simps)
  moreover have "\<not> (2::rat) ^ 1024 \<le> 1 / 2 ^ 32"
  proof -
    have "(1::rat) / 2 ^ 32 < 1" by simp
    also have "(1::rat) \<le> 2 ^ 1024" by (rule one_le_power) simp
    finally show ?thesis by simp
  qed
  ultimately show ?thesis by (simp add: f64_round_def)
qed

text \<open>The share of the target a step of the ramp asks for is positive and at most one.\<close>

lemma ramp_share:
  assumes n: "n = unat (ramp_steps b)" and i: "i < n"
  shows "\<exists>c. f64_round (of_nat (Suc i) / of_nat n) = Fin c \<and> 0 < c \<and> c \<le> 1"
proof -
  obtain c where c: "f64_round (of_nat (Suc i) / of_nat n) = Fin c" "c \<le> 1"
    using f64_round_unit[of "of_nat (Suc i) / of_nat n"] i by auto
  have "n < 2 ^ 32" using unsigned_less[of "ramp_steps b"] n by simp
  then have "(of_nat n :: rat) \<le> of_nat (2 ^ 32)" by (simp only: of_nat_le_iff less_imp_le)
  then have "(1::rat) / 2 ^ 32 \<le> 1 / of_nat n" using i by (intro divide_left_mono) auto
  also have "\<dots> \<le> of_nat (Suc i) / of_nat n" by (rule divide_right_mono) auto
  finally have "f64_le (Fin (1 / 2 ^ 32)) (Fin c)"
    using f64_round_mono[of "1 / 2 ^ 32" "of_nat (Suc i) / of_nat n"] f64_round_tiny c(1) by simp
  then have "1 / 2 ^ 32 \<le> c" by (simp only: f64_le_Fin)
  moreover have "(0::rat) < 1 / 2 ^ 32" by simp
  ultimately show ?thesis using c by (metis less_le_trans)
qed

text \<open>Every rate of the ramp lies between zero and the target, on whichever side of zero the
  target is; with a target that is not a number no rate is one.\<close>

lemma ramp_rate_range:
  assumes d: "is_double (target_rate_mbps b)" and p: "target_rate_mbps b \<noteq> PInf"
    and r: "r \<in> set (ramp_schedule b)"
  shows "if target_rate_mbps b = NaN then r = NaN
    else if f64_le (Fin 0) (target_rate_mbps b) then f64_le (Fin 0) r \<and> f64_le r (target_rate_mbps b)
    else f64_le (target_rate_mbps b) r \<and> f64_le r (Fin 0)"
proof -
  define n where n: "n = unat (ramp_steps b)"
  obtain i where i: "i < n" and ri: "r = ramp_schedule b ! i"
    using r by (auto simp: in_set_conv_nth length_ramp_schedule n)
  obtain c where c: "f64_round (of_nat (Suc i) / of_nat n) = Fin c" "0 < c" "c \<le> 1"
    using ramp_share[OF n i] by blast
  have rc: "r = f64_mul (target_rate_mbps b) (Fin c)" using ri c(1) i by (simp add: ramp_nth[OF n])
  show ?thesis
  proof (cases "target_rate_mbps b")
    case (Fin t)
    show ?thesis
    proof (cases "0 \<le> t")
      case True
      then show ?thesis using ramp_rate_bounds[OF Fin True _ r] d Fin by (simp add: is_double_def)
    next
      case False
      then have "t \<le> t * c" "t * c \<le> 0" using c mult_left_mono_neg[of c 1 t] by (auto simp: mult_le_0_iff)
      then show ?thesis
        using f64_round_mono[of t "t * c"] f64_round_mono[of "t * c" 0] d rc Fin False
        by (simp add: is_double_def)
    qed
  qed (use rc c p in \<open>auto simp: inf_of_sign_def f64_le_def\<close>)
qed

text \<open>A validated budget is within the caps of its mode: the duration and the concurrency are
  at most the cap, there is at least one ramp step and, when the rate is a number, the rate is at
  most the cap; and every budget that satisfies this is accepted.\<close>

theorem validate_enforces_caps:
  "validate b = Inr () \<longleftrightarrow>
     (target_rate_mbps b = NaN \<or>
      f64_le (target_rate_mbps b) (case mode b of LiveEvent \<Rightarrow> Fin 50 | Maintenance \<Rightarrow> Fin 1000))
     \<and> unat (max_duration_secs b) \<le> (case mode b of LiveEvent \<Rightarrow> 30 | Maintenance \<Rightarrow> 300)
     \<and> unat (max_concurrency b) \<le> (case mode b of LiveEvent \<Rightarrow> 2 | Maintenance \<Rightarrow> 16)
     \<and> 1 \<le> unat (ramp_steps b)"
  unfolding validate_ok_iff within_caps_def
  by (cases "mode b") (auto simp: budget_caps_defs word_le_nat_alt Suc_le_eq unat_gt_0 word_gt_0)

text \<open>The ramp has one rate per step, the rates never fall, never exceed the target rate and
  end exactly at it, for a non-negative representable target rate.\<close>

theorem ramp_is_progressive:
  assumes target: "target_rate_mbps b = Fin t" and t: "0 \<le> t" and repr: "f64_round t = Fin t"
    and steps: "0 < ramp_steps b"
  shows "length (ramp_schedule b) = unat (ramp_steps b)
    \<and> (\<forall>i j. i \<le> j \<and> j < unat (ramp_steps b) \<longrightarrow> f64_le (ramp_schedule b ! i) (ramp_schedule b ! j))
    \<and> (\<forall>r \<in> set (ramp_schedule b). f64_le (Fin 0) r \<and> f64_le r (Fin t))
    \<and> last (ramp_schedule b) = Fin t"
proof -
  define n where n: "n = unat (ramp_steps b)"
  have n0: "0 < n" using steps by (simp add: n unat_gt_0 word_gt_0)
  have len: "length (ramp_schedule b) = n" by (simp add: length_ramp_schedule n)
  have frac: "\<exists>c. f64_round (of_nat (Suc i) / of_nat n) = Fin c \<and> 0 \<le> c \<and> c \<le> 1" if "i < n" for i
    using that by (intro f64_round_unit) auto
  have mono: "f64_le (ramp_schedule b ! i) (ramp_schedule b ! j)" if ij: "i \<le> j" "j < n" for i j
  proof -
    obtain a c where "f64_round (of_nat (Suc i) / of_nat n) = Fin a"
      "f64_round (of_nat (Suc j) / of_nat n) = Fin c" using frac ij by (meson le_less_trans)
    moreover have "f64_le (f64_round (of_nat (Suc i) / of_nat n)) (f64_round (of_nat (Suc j) / of_nat n))"
      using ij by (intro f64_round_mono divide_right_mono) auto
    ultimately show ?thesis using f64_mul_mono_right[OF target t] ij by (simp add: ramp_nth[OF n])
  qed
  have bounds: "f64_le (Fin 0) r \<and> f64_le r (Fin t)" if "r \<in> set (ramp_schedule b)" for r
    using ramp_rate_bounds[OF target t repr that] .
  have "ramp_schedule b \<noteq> []" using len n0 by auto
  then have "last (ramp_schedule b) = ramp_schedule b ! (n - 1)" using len by (simp add: last_conv_nth)
  also have "\<dots> = f64_round (t * 1)" using n0 target by (simp add: ramp_nth[OF n])
  finally have "last (ramp_schedule b) = Fin t" using repr by simp
  with len mono bounds show ?thesis unfolding n by blast
qed

theorem ramp_is_progressive_witness:
  "last (ramp_schedule (maintenance (Fin 100) 10 1)) = Fin 100
   \<and> length (ramp_schedule (maintenance (Fin 100) 10 1)) = 4
   \<and> f64_le (ramp_schedule (maintenance (Fin 100) 10 1) ! 0) (ramp_schedule (maintenance (Fin 100) 10 1) ! 3)"
proof -
  let ?b = "maintenance (Fin 100) 10 1"
  have h: "target_rate_mbps ?b = Fin 100" "(0::rat) \<le> 100" "f64_round 100 = Fin 100" "0 < ramp_steps ?b"
    using ieee.rnd_int[of 100] by (simp_all add: maintenance_def)
  have "unat (ramp_steps ?b) = 4" by (simp add: maintenance_def)
  with ramp_is_progressive[OF h] show ?thesis by simp
qed

text \<open>The two ways the documentation of the ramp and of the caps overstates the code. A rate
  that is not a number passes validation in both modes, whatever the cap; and a one-step ramp is
  accepted and starts, on its first step, at the full target rate.\<close>

theorem budget_gaps:
  "validate (live_event NaN 30 2) = Inr ()
   \<and> validate (maintenance (Fin 1000) 300 16 \<lparr>ramp_steps := 1\<rparr>) = Inr ()
   \<and> ramp_schedule (maintenance (Fin 1000) 300 16 \<lparr>ramp_steps := 1\<rparr>) = [Fin 1000]"
proof (intro conjI)
  show "validate (live_event NaN 30 2) = Inr ()"
    by (simp add: validate_def live_event_def budget_caps_defs)
  show "validate (maintenance (Fin 1000) 300 16 \<lparr>ramp_steps := 1\<rparr>) = Inr ()"
    by (simp add: validate_def maintenance_def budget_caps_defs)
  have "f64_round 1000 = Fin 1000" using ieee.rnd_int[of 1000] by simp
  then show "ramp_schedule (maintenance (Fin 1000) 300 16 \<lparr>ramp_steps := 1\<rparr>) = [Fin 1000]"
    by (simp add: ramp_schedule_def maintenance_def f64_of_nat_def)
qed

end
