(* ===== verification/Radio.thy ===== *)
theory Radio
  imports F64
begin

text \<open>
  \<open>load_guard/radio.rs\<close>: the allow-listed Wi-Fi radio snapshot, its association fingerprint,
  the RF quality classification and the two parsers (\<open>system_profiler\<close> and \<open>ioreg\<close> text).
  Running the two commands is outside the model; their text is the parsers' argument.
\<close>

section \<open>Model\<close>

record RadioSnapshot =
  associated :: bool
  phy_mode :: "string option"
  band :: "string option"
  channel :: "u32 option"
  width_mhz :: "u32 option"
  rssi_dbm :: "i32 option"
  noise_dbm :: "i32 option"
  tx_rate_mbps :: "f64 option"
  mcs_index :: "u32 option"

definition unavailable :: RadioSnapshot where
  "unavailable = \<lparr>associated = False, phy_mode = None, band = None, channel = None,
     width_mhz = None, rssi_dbm = None, noise_dbm = None, tx_rate_mbps = None, mcs_index = None\<rparr>"

definition opt_num :: "u32 option \<Rightarrow> string" where
  "opt_num x = (case x of None \<Rightarrow> [] | Some v \<Rightarrow> show_word v)"

definition association_fingerprint :: "RadioSnapshot \<Rightarrow> string option" where
  "association_fingerprint s =
     (if \<not> associated s then None
      else Some (unwrap_or (band s) ''?'' @ '':'' @ opt_num (channel s) @ '':'' @ opt_num (width_mhz s)))"

text \<open>\<open>r - n\<close> on \<open>i32\<close>: the release build wraps.\<close>

definition snr_db :: "RadioSnapshot \<Rightarrow> i32 option" where
  "snr_db s = (case (rssi_dbm s, noise_dbm s) of (Some r, Some n) \<Rightarrow> Some (r - n) | _ \<Rightarrow> None)"

datatype RfQuality = Strong | Weak | Unstable | Unknown

definition WEAK_RSSI_DBM :: int where "WEAK_RSSI_DBM = - 75"
definition UNSTABLE_SNR_DB :: int where "UNSTABLE_SNR_DB = 15"

definition classify_rf :: "RadioSnapshot \<Rightarrow> RfQuality" where
  "classify_rf s =
     (if \<not> associated s then Unknown
      else case (rssi_dbm s, snr_db s) of
        (Some rssi, Some snr) \<Rightarrow>
          (if sint rssi \<le> WEAK_RSSI_DBM then Weak
           else if sint snr < UNSTABLE_SNR_DB then Unstable else Strong)
      | (Some rssi, None) \<Rightarrow> (if sint rssi \<le> WEAK_RSSI_DBM then Weak else Strong)
      | _ \<Rightarrow> Unknown)"

section \<open>Parsing ioreg text\<close>

definition extract_ioreg_value :: "string \<Rightarrow> string \<Rightarrow> string option" where
  "extract_ioreg_value line key_eq =
     map_option (\<lambda>i. drop (i + length key_eq) line) (find_str line key_eq)"

definition quote :: string where "quote = [CHR 0x22]"

definition key_channel :: string where "key_channel = quote @ ''IO80211Channel'' @ quote @ '' = ''"
definition key_width :: string where "key_width = quote @ ''IO80211ChannelBandwidth'' @ quote @ '' = ''"
definition key_band :: string where "key_band = quote @ ''IO80211Band'' @ quote @ '' = ''"

definition ioreg_line :: "string \<Rightarrow> RadioSnapshot \<Rightarrow> RadioSnapshot" where
  "ioreg_line line snap =
     (case extract_ioreg_value line key_channel of
        Some v \<Rightarrow> snap\<lparr>channel := parse_uint (trim v)\<rparr>
      | None \<Rightarrow> (case extract_ioreg_value line key_width of
          Some v \<Rightarrow> snap\<lparr>width_mhz := parse_uint (trim v)\<rparr>
        | None \<Rightarrow> (case extract_ioreg_value line key_band of
            Some v \<Rightarrow> (let cleaned = filter (\<lambda>c. c \<noteq> CHR '' '') (trim_matches (\<lambda>c. c = CHR 0x22) (trim v))
                       in if cleaned \<noteq> [] then snap\<lparr>band := Some cleaned\<rparr> else snap)
          | None \<Rightarrow> snap)))"

definition parse_ioreg_wlan :: "string \<Rightarrow> RadioSnapshot" where
  "parse_ioreg_wlan text =
     (let snap = fold ioreg_line (lines text) unavailable
      in snap\<lparr>associated := channel snap \<noteq> None\<rparr>)"

section \<open>Parsing system-profiler text\<close>

text \<open>\<open>trim_end_matches\<close> with a string pattern removes every trailing copy of it.\<close>

function trim_end_str :: "string \<Rightarrow> string \<Rightarrow> string" where
  "trim_end_str p s =
     (if p \<noteq> [] \<and> ends_with s p then trim_end_str p (take (length s - length p) s) else s)"
  by pat_completeness auto
termination
proof (relation "measure (\<lambda>(p, s). length s)")
  fix p s :: string
  assume "p \<noteq> [] \<and> ends_with s p"
  then have "p \<noteq> []" "s \<noteq> []" by (auto simp: ends_with_def starts_with_def)
  then show "((p, take (length s - length p) s), p, s) \<in> measure (\<lambda>(p, s). length s)" by simp
qed simp

declare trim_end_str.simps [simp del]

definition parse_channel :: "string \<Rightarrow> RadioSnapshot \<Rightarrow> RadioSnapshot" where
  "parse_channel v snap =
     (case splitn2 (CHR ''('') v of (chan_str, rest_opt) \<Rightarrow>
       let snap1 = snap\<lparr>channel := parse_uint (trim chan_str)\<rparr> in
       case rest_opt of
         None \<Rightarrow> snap1
       | Some rest \<Rightarrow>
           fold (\<lambda>tok sn. let token = trim tok in
               if ends_with token ''GHz'' then sn\<lparr>band := Some token\<rparr>
               else if ends_with token ''MHz''
               then sn\<lparr>width_mhz := parse_uint (trim (trim_end_str ''MHz'' token))\<rparr>
               else sn)
             (split_on (CHR '','') (trim_end_matches (\<lambda>c. c = CHR '')'') rest)) snap1)"

definition parse_dbm :: "string \<Rightarrow> i32 option" where
  "parse_dbm s = parse_i32 (trim (trim_end_str ''dBm'' (trim s)))"

definition parse_signal_noise :: "string \<Rightarrow> RadioSnapshot \<Rightarrow> RadioSnapshot" where
  "parse_signal_noise v snap =
     (case split_on (CHR ''/'') v of
        [] \<Rightarrow> snap
      | [r] \<Rightarrow> snap\<lparr>rssi_dbm := parse_dbm r\<rparr>
      | r # n # _ \<Rightarrow> snap\<lparr>rssi_dbm := parse_dbm r, noise_dbm := parse_dbm n\<rparr>)"

text \<open>One line of the report; the flag says whether the current network's section is open.\<close>

definition airport_field :: "string \<Rightarrow> RadioSnapshot \<Rightarrow> RadioSnapshot" where
  "airport_field line snap =
     (case strip_prefix line ''PHY Mode:'' of
        Some v \<Rightarrow> snap\<lparr>phy_mode := Some (trim v)\<rparr>
      | None \<Rightarrow> (case strip_prefix line ''Channel:'' of
          Some v \<Rightarrow> parse_channel (trim v) snap
        | None \<Rightarrow> (case strip_prefix line ''Signal / Noise:'' of
            Some v \<Rightarrow> parse_signal_noise (trim v) snap
          | None \<Rightarrow> (case strip_prefix line ''Transmit Rate:'' of
              Some v \<Rightarrow> snap\<lparr>tx_rate_mbps := parse_f64 (trim v)\<rparr>
            | None \<Rightarrow> (case strip_prefix line ''MCS Index:'' of
                Some v \<Rightarrow> snap\<lparr>mcs_index := parse_uint (trim v)\<rparr>
              | None \<Rightarrow> snap)))))"

definition airport_line :: "string \<Rightarrow> bool \<times> RadioSnapshot \<Rightarrow> bool \<times> RadioSnapshot" where
  "airport_line raw_line st =
     (case st of (in_current, snap0) \<Rightarrow>
       let line = trim raw_line;
           snap = (if starts_with line ''Status:'' then snap0\<lparr>associated := contains line ''Connected''\<rparr> else snap0)
       in if starts_with line ''Current Network Information:'' then (True, snap)
          else if starts_with line ''Other Local Wi-Fi Networks:'' then (False, snap)
          else if \<not> in_current then (in_current, snap)
          else (in_current, airport_field line snap))"

definition parse_airport_text :: "string \<Rightarrow> RadioSnapshot" where
  "parse_airport_text text =
     (let snap = snd (fold airport_line (lines text) (False, unavailable))
      in if phy_mode snap \<noteq> None \<or> channel snap \<noteq> None then snap\<lparr>associated := True\<rparr> else snap)"

section \<open>The fingerprint identifies the association\<close>

text \<open>Bands as the parsers produce them, \<open>6GHz\<close> say: no colon, and not the placeholder.\<close>

definition plain_band :: "RadioSnapshot \<Rightarrow> bool" where
  "plain_band s \<longleftrightarrow> (case band s of None \<Rightarrow> True | Some b \<Rightarrow> CHR '':'' \<notin> set b \<and> b \<noteq> ''?'')"

lemma opt_num_no_colon: "CHR '':'' \<notin> set (opt_num x)"
proof -
  have "\<not> is_digit (CHR '':'')" by (simp add: is_digit_def)
  then show ?thesis by (auto simp: opt_num_def dest: show_word_digits split: option.splits)
qed

lemma opt_num_inj [simp]: "opt_num x = opt_num y \<longleftrightarrow> x = y"
  by (cases x; cases y) (auto simp: opt_num_def dest: sym[of "[]"])

lemma plain_band_part:
  assumes "plain_band s"
  shows "CHR '':'' \<notin> set (unwrap_or (band s) ''?'')"
  using assms by (auto simp: plain_band_def unwrap_or_def split: option.splits)

lemma plain_band_inj:
  assumes "plain_band s" "plain_band t"
  shows "unwrap_or (band s) ''?'' = unwrap_or (band t) ''?'' \<longleftrightarrow> band s = band t"
  using assms by (auto simp: plain_band_def unwrap_or_def split: option.splits)

lemma fingerprint_parts:
  assumes s: "plain_band s" and t: "plain_band t" and "associated s" "associated t"
  shows "association_fingerprint s = association_fingerprint t \<longleftrightarrow>
         band s = band t \<and> channel s = channel t \<and> width_mhz s = width_mhz t"
proof
  assume "association_fingerprint s = association_fingerprint t"
  then have eq: "unwrap_or (band s) ''?'' @ CHR '':'' # (opt_num (channel s) @ CHR '':'' # opt_num (width_mhz s))
      = unwrap_or (band t) ''?'' @ CHR '':'' # (opt_num (channel t) @ CHR '':'' # opt_num (width_mhz t))"
    using assms by (simp add: association_fingerprint_def)
  from split_at_unique[OF eq plain_band_part[OF s] plain_band_part[OF t]]
  have b: "band s = band t" and
    r: "opt_num (channel s) @ CHR '':'' # opt_num (width_mhz s) = opt_num (channel t) @ CHR '':'' # opt_num (width_mhz t)"
    using plain_band_inj[OF s t] by auto
  from split_at_unique[OF r opt_num_no_colon opt_num_no_colon] b
  show "band s = band t \<and> channel s = channel t \<and> width_mhz s = width_mhz t" by simp
next
  assume "band s = band t \<and> channel s = channel t \<and> width_mhz s = width_mhz t"
  then show "association_fingerprint s = association_fingerprint t"
    using assms by (simp add: association_fingerprint_def)
qed

text \<open>Two snapshots have the same fingerprint exactly when both are unassociated, or both
  are associated with the same band, channel and width. The signal level, PHY mode, rate and MCS
  index never enter it.\<close>

theorem fingerprint_same_iff:
  assumes "plain_band s" "plain_band t"
  shows "association_fingerprint s = association_fingerprint t \<longleftrightarrow>
    (\<not> associated s \<and> \<not> associated t) \<or>
    (associated s \<and> associated t \<and> band s = band t \<and> channel s = channel t \<and> width_mhz s = width_mhz t)"
  using fingerprint_parts[OF assms]
  by (cases "associated s"; cases "associated t") (auto simp: association_fingerprint_def)

theorem fingerprint_same_iff_witness:
  "association_fingerprint (unavailable\<lparr>associated := True, band := Some ''6GHz'', channel := Some 197\<rparr>)
   \<noteq> association_fingerprint (unavailable\<lparr>associated := True, band := Some ''6GHz'', channel := Some 1\<rparr>)"
proof -
  let ?s = "unavailable\<lparr>associated := True, band := Some ''6GHz'', channel := Some 197\<rparr>"
  let ?t = "unavailable\<lparr>associated := True, band := Some ''6GHz'', channel := Some 1\<rparr>"
  have h: "plain_band ?s" "plain_band ?t" by (simp_all add: plain_band_def)
  show ?thesis using fingerprint_same_iff[OF h] by simp
qed

section \<open>RF quality\<close>

text \<open>The RF classification. A run on an unassociated or RSSI-less radio is never called
  strong or weak; a level at or below -75 dBm is weak whatever the noise; a stronger level is
  unstable exactly when the noise is known and the SNR is under 15 dB.\<close>

theorem classify_rf_spec:
  "classify_rf s =
     (if \<not> associated s \<or> rssi_dbm s = None then Unknown
      else if sint (the (rssi_dbm s)) \<le> - 75 then Weak
      else if noise_dbm s \<noteq> None \<and> sint (the (rssi_dbm s) - the (noise_dbm s)) < 15 then Unstable
      else Strong)"
  by (cases "rssi_dbm s"; cases "noise_dbm s")
    (auto simp: classify_rf_def snr_db_def WEAK_RSSI_DBM_def UNSTABLE_SNR_DB_def)

section \<open>What the parsers look at\<close>

text \<open>The line carries one of the three allow-listed keys.\<close>

definition ioreg_keyed :: "string \<Rightarrow> bool" where
  "ioreg_keyed l \<longleftrightarrow> contains l key_channel \<or> contains l key_width \<or> contains l key_band"

lemma extract_None: "extract_ioreg_value l k = None \<longleftrightarrow> \<not> contains l k"
  by (simp add: extract_ioreg_value_def contains_def)

lemma ioreg_line_unkeyed: "\<not> ioreg_keyed l \<Longrightarrow> ioreg_line l = id"
  by (rule ext) (simp add: ioreg_line_def ioreg_keyed_def extract_None[THEN iffD2])

lemma fold_ioreg_filter: "fold ioreg_line ls = fold ioreg_line (filter ioreg_keyed ls)"
  by (induction ls) (auto simp: ioreg_line_unkeyed)

text \<open>Fields no line of the fast source can write.\<close>

lemma ioreg_line_frame:
  "phy_mode (ioreg_line l s) = phy_mode s" "rssi_dbm (ioreg_line l s) = rssi_dbm s"
  "noise_dbm (ioreg_line l s) = noise_dbm s" "associated (ioreg_line l s) = associated s"
  by (auto simp: ioreg_line_def Let_def split: option.splits)

lemma fold_ioreg_frame:
  "phy_mode (fold ioreg_line ls s) = phy_mode s" "rssi_dbm (fold ioreg_line ls s) = rssi_dbm s"
  "noise_dbm (fold ioreg_line ls s) = noise_dbm s"
  by (induction ls arbitrary: s) (auto simp: ioreg_line_frame)

text \<open>The fast source's snapshot depends only on the lines that carry the channel, width or
  band key: outputs that agree on those lines (and differ in SSID, BSSID or any other line) give
  the same snapshot. It never carries an RSSI, noise level or PHY mode, so it can never be
  classified strong, weak or unstable, and it is associated exactly when a channel was read.\<close>

theorem ioreg_snapshot_allowlist:
  assumes "filter ioreg_keyed (lines t1) = filter ioreg_keyed (lines t2)"
  shows "parse_ioreg_wlan t1 = parse_ioreg_wlan t2
    \<and> classify_rf (parse_ioreg_wlan t1) = Unknown
    \<and> phy_mode (parse_ioreg_wlan t1) = None
    \<and> (associated (parse_ioreg_wlan t1) \<longleftrightarrow> channel (parse_ioreg_wlan t1) \<noteq> None)"
proof -
  have "parse_ioreg_wlan t1 = parse_ioreg_wlan t2"
    by (simp add: parse_ioreg_wlan_def fold_ioreg_filter[of "lines t1"] fold_ioreg_filter[of "lines t2"] assms)
  moreover have "classify_rf (parse_ioreg_wlan t1) = Unknown"
    by (simp add: parse_ioreg_wlan_def classify_rf_def fold_ioreg_frame Let_def unavailable_def)
  moreover have "phy_mode (parse_ioreg_wlan t1) = None"
    by (simp add: parse_ioreg_wlan_def fold_ioreg_frame Let_def unavailable_def)
  ultimately show ?thesis by (simp add: parse_ioreg_wlan_def Let_def)
qed

theorem ioreg_snapshot_allowlist_witness:
  "parse_ioreg_wlan (key_channel @ ''6'' @ [CHR 0x0A] @ ''IO80211SSID = a'')
   = parse_ioreg_wlan (key_channel @ ''6'' @ [CHR 0x0A] @ ''IO80211SSID = b'')"
proof -
  let ?a = "key_channel @ ''6'' @ [CHR 0x0A] @ ''IO80211SSID = a''"
  let ?b = "key_channel @ ''6'' @ [CHR 0x0A] @ ''IO80211SSID = b''"
  have "filter ioreg_keyed (lines ?a) = filter ioreg_keyed (lines ?b)" by code_simp
  from ioreg_snapshot_allowlist[OF this] show ?thesis by simp
qed

end
