(* ===== verification/Counters.thy ===== *)
theory Counters
  imports Fraggle_Prelude
begin

text \<open>
  \<open>load_guard/counters.rs\<close>: interface counter snapshots, the usability test for a delta, and
  the parser of \<open>netstat -I <iface> -b\<close> text. Running \<open>netstat\<close> is outside the model.
\<close>

section \<open>Model\<close>

record InterfaceCounters =
  rx_packets :: u64
  tx_packets :: u64
  rx_bytes :: u64
  tx_bytes :: u64
  rx_errors :: u64
  tx_errors :: u64

definition zero :: InterfaceCounters where
  "zero = \<lparr>rx_packets = 0, tx_packets = 0, rx_bytes = 0, tx_bytes = 0, rx_errors = 0, tx_errors = 0\<rparr>"

definition usable_delta_from :: "InterfaceCounters \<Rightarrow> InterfaceCounters \<Rightarrow> bool" where
  "usable_delta_from self before \<longleftrightarrow>
     rx_packets before \<le> rx_packets self \<and> tx_packets before \<le> tx_packets self
     \<and> rx_bytes before \<le> rx_bytes self \<and> tx_bytes before \<le> tx_bytes self"

text \<open>The column indices read off the header, in the order Ipkts, Ierrs, Ibytes, Opkts, Oerrs, Obytes.\<close>

record Columns =
  ipkts_i :: nat
  ierrs_i :: nat
  ibytes_i :: nat
  opkts_i :: nat
  oerrs_i :: nat
  obytes_i :: nat

definition header_columns :: "string list \<Rightarrow> Columns option" where
  "header_columns cols =
     (let idx = (\<lambda>name. position (\<lambda>c. c = name) cols) in
      case (idx ''Ipkts'', idx ''Ierrs'', idx ''Ibytes'', idx ''Opkts'', idx ''Oerrs'', idx ''Obytes'') of
        (Some a, Some b, Some c, Some d, Some e, Some f) \<Rightarrow>
          Some \<lparr>ipkts_i = a, ierrs_i = b, ibytes_i = c, opkts_i = d, oerrs_i = e, obytes_i = f\<rparr>
      | _ \<Rightarrow> None)"

definition max_column :: "Columns \<Rightarrow> nat" where
  "max_column k = fold max [ierrs_i k, ibytes_i k, opkts_i k, oerrs_i k, obytes_i k] (ipkts_i k)"

text \<open>One row: the counters it holds, or \<open>None\<close> when the loop goes on to the next row.\<close>

definition netstat_row :: "Columns \<Rightarrow> string \<Rightarrow> string \<Rightarrow> InterfaceCounters option" where
  "netstat_row k interface line =
     (let fields = split_whitespace line in
      if fields = [] \<or> hd fields \<noteq> interface then None
      else if length fields \<le> max_column k then None
      else case (parse_uint (fields ! ipkts_i k), parse_uint (fields ! ibytes_i k),
                 parse_uint (fields ! opkts_i k), parse_uint (fields ! obytes_i k)) of
        (Some ip, Some ib, Some op, Some ob) \<Rightarrow>
          Some \<lparr>rx_packets = ip, tx_packets = op, rx_bytes = ib, tx_bytes = ob,
                rx_errors = unwrap_or (parse_uint (fields ! ierrs_i k)) 0,
                tx_errors = unwrap_or (parse_uint (fields ! oerrs_i k)) 0\<rparr>
      | _ \<Rightarrow> None)"

fun first_row :: "Columns \<Rightarrow> string \<Rightarrow> string list \<Rightarrow> InterfaceCounters option" where
  "first_row k interface [] = None"
| "first_row k interface (l # ls) =
     (case netstat_row k interface l of Some c \<Rightarrow> Some c | None \<Rightarrow> first_row k interface ls)"

definition parse_netstat_ib :: "string \<Rightarrow> string \<Rightarrow> InterfaceCounters option" where
  "parse_netstat_ib text interface =
     (case lines text of
        [] \<Rightarrow> None
      | header # rows \<Rightarrow>
          (case header_columns (split_whitespace header) of
             None \<Rightarrow> None
           | Some k \<Rightarrow> first_row k interface rows))"

section \<open>Lemmas\<close>

lemma usable_delta_refl [simp]: "usable_delta_from c c"
  by (simp add: usable_delta_from_def)

lemma usable_delta_trans: "usable_delta_from b a \<Longrightarrow> usable_delta_from c b \<Longrightarrow> usable_delta_from c a"
  by (auto simp: usable_delta_from_def)

text \<open>On a usable delta the subtraction of the packet and byte counters does not wrap.\<close>

lemma usable_delta_unat:
  assumes "usable_delta_from after before"
  shows "unat (rx_bytes after - rx_bytes before) = unat (rx_bytes after) - unat (rx_bytes before)"
    and "unat (tx_bytes after - tx_bytes before) = unat (tx_bytes after) - unat (tx_bytes before)"
  using assms by (auto simp: usable_delta_from_def unat_sub)

lemma first_row_Some:
  "first_row k i ls = Some c \<Longrightarrow> \<exists>l \<in> set ls. netstat_row k i l = Some c"
  by (induction ls) (auto split: option.splits)

lemma header_columns_sound:
  assumes "header_columns cols = Some k"
  shows "cols ! ipkts_i k = ''Ipkts'' \<and> cols ! ibytes_i k = ''Ibytes'' \<and> cols ! opkts_i k = ''Opkts'' \<and> cols ! obytes_i k = ''Obytes''"
  using assms by (auto simp: header_columns_def Let_def split: option.splits dest: position_Some_less)

lemma max_column_ge:
  "ipkts_i k \<le> max_column k \<and> ierrs_i k \<le> max_column k \<and> ibytes_i k \<le> max_column k
   \<and> opkts_i k \<le> max_column k \<and> oerrs_i k \<le> max_column k \<and> obytes_i k \<le> max_column k"
  by (simp add: max_column_def le_max_iff_disj)

lemma netstat_row_in_range:
  assumes "netstat_row k interface line = Some c"
  shows "ipkts_i k < length (split_whitespace line) \<and> ibytes_i k < length (split_whitespace line)
    \<and> opkts_i k < length (split_whitespace line) \<and> obytes_i k < length (split_whitespace line)"
proof -
  have "max_column k < length (split_whitespace line)"
    using assms by (auto simp: netstat_row_def Let_def split: if_splits)
  with max_column_ge[of k] show ?thesis by linarith
qed

text \<open>Counters read from \<open>netstat\<close> come from one row of the interface asked for, each of the
  four traffic counters parsed from the column whose header names it; no field is read out of
  range and none is invented.\<close>

theorem parse_netstat_sound:
  assumes "parse_netstat_ib text interface = Some c"
  shows "\<exists>header rows row k.
    lines text = header # rows \<and> row \<in> set rows \<and> header_columns (split_whitespace header) = Some k
    \<and> hd (split_whitespace row) = interface
    \<and> (\<forall>(i, name, v) \<in> {(ipkts_i k, ''Ipkts'', rx_packets c), (ibytes_i k, ''Ibytes'', rx_bytes c),
                          (opkts_i k, ''Opkts'', tx_packets c), (obytes_i k, ''Obytes'', tx_bytes c)}.
        split_whitespace header ! i = name \<and> i < length (split_whitespace row)
        \<and> parse_uint (split_whitespace row ! i) = Some v)"
proof -
  obtain header rows k where hr: "lines text = header # rows"
    and k: "header_columns (split_whitespace header) = Some k" and f: "first_row k interface rows = Some c"
    using assms by (auto simp: parse_netstat_ib_def split: list.splits option.splits)
  obtain row where row: "row \<in> set rows" "netstat_row k interface row = Some c"
    using first_row_Some[OF f] by blast
  have "hd (split_whitespace row) = interface"
    "parse_uint (split_whitespace row ! ipkts_i k) = Some (rx_packets c)"
    "parse_uint (split_whitespace row ! ibytes_i k) = Some (rx_bytes c)"
    "parse_uint (split_whitespace row ! opkts_i k) = Some (tx_packets c)"
    "parse_uint (split_whitespace row ! obytes_i k) = Some (tx_bytes c)"
    using row(2) by (auto simp: netstat_row_def Let_def split: if_splits option.splits)
  with hr k row(1) header_columns_sound[OF k] netstat_row_in_range[OF row(2)] show ?thesis by auto
qed

definition sample_netstat :: string where
  "sample_netstat = ''Name Ipkts Ierrs Ibytes Opkts Oerrs Obytes'' @ [CHR 0x0A] @ ''en0 7 0 900 5 1 800''"

theorem parse_netstat_sound_witness:
  "\<exists>header rows row k.
    lines sample_netstat = header # rows \<and> row \<in> set rows \<and> header_columns (split_whitespace header) = Some k
    \<and> hd (split_whitespace row) = ''en0''
    \<and> parse_uint (split_whitespace row ! ibytes_i k) = Some (900 :: u64)"
proof -
  have "parse_netstat_ib sample_netstat ''en0'' =
    Some \<lparr>rx_packets = 7, tx_packets = 5, rx_bytes = 900, tx_bytes = 800, rx_errors = 0, tx_errors = 1\<rparr>"
    by code_simp
  from parse_netstat_sound[OF this] show ?thesis by fastforce
qed

end
