(* ===== verification/Load_Guard.thy ===== *)
theory Load_Guard
  imports Load_Budget Radio Counters
begin

text \<open>
  \<open>load_guard/guard.rs\<close>: the execution guard around every load phase. \<open>run\<close> is the whole
  handler: the snapshots before the phase, the ramp with its per-tick abort checks, the snapshots
  after it, the validity verdict and the derived ratio.

  What the surroundings decide is the argument \<open>RunEnv\<close>: the answers of the radio and counter
  sources, the snapshots the background sampling thread pushed (in order), the clock readings and
  the ticks of the phase, one \<open>IterObs\<close> per evaluation of the inner loop's condition. A run whose
  observations are used up before the loop ends is \<open>None\<close>: it is still running.
\<close>

section \<open>Data\<close>

record RadioTimeline =
  before :: RadioSnapshot
  during :: "RadioSnapshot list"
  after :: RadioSnapshot

definition roamed :: "RadioTimeline \<Rightarrow> bool" where
  "roamed t \<longleftrightarrow> (\<exists>s \<in> set (during t @ [after t]).
     association_fingerprint s \<noteq> association_fingerprint (before t))"

definition band_changed :: "RadioTimeline \<Rightarrow> bool" where
  "band_changed t \<longleftrightarrow> (\<exists>s \<in> set (during t @ [after t]). band s \<noteq> band (before t))"

fun rf_rank :: "RfQuality \<Rightarrow> nat" where
  "rf_rank Strong = 0"
| "rf_rank Unknown = 1"
| "rf_rank Unstable = 2"
| "rf_rank Weak = 3"

text \<open>\<open>max_by_key\<close>: the last element of greatest key.\<close>

definition worse_rf :: "RfQuality \<Rightarrow> RfQuality \<Rightarrow> RfQuality" where
  "worse_rf q best = (if rf_rank best \<le> rf_rank q then q else best)"

definition weakest_rf :: "RadioTimeline \<Rightarrow> RfQuality" where
  "weakest_rf t =
     (case map classify_rf (during t @ [before t, after t]) of
        [] \<Rightarrow> Unknown
      | q # qs \<Rightarrow> fold worse_rf qs q)"

datatype InvalidReason = Roamed | BandChanged | WeakRf | UnstableRf | CountersUnusable
  | RadioUnavailable | PhaseDurationExceeded | PhaseTargetUndershoot | SyntheticRadioSource

datatype Validity = Valid | Invalid InvalidReason

definition is_valid :: "Validity \<Rightarrow> bool" where
  "is_valid v \<longleftrightarrow> v = Valid"

datatype StopReason =
    Completed
  | AbortGatewayLatency u64 u64
  | AbortLoss u64 u64
  | AbortAssociationChange
  | AbortEndpointError string
  | OperatorCancelled

record PhaseTick =
  gateway_latency_ms :: "f64 option"
  loss_pct :: "f64 option"
  endpoint_error :: "string option"
  bytes_sent_delta :: u64

record RawMetrics =
  bytes_transferred :: u64
  elapsed_secs :: f64
  target_bytes :: u64

record DerivedMetrics =
  retained_capacity_pct :: f64
  collapse_ratio :: f64

definition compute_derived_ratio :: "Validity \<Rightarrow> RawMetrics \<Rightarrow> DerivedMetrics option" where
  "compute_derived_ratio validity raw =
     (case validity of
        Invalid _ \<Rightarrow> None
      | Valid \<Rightarrow>
          if target_bytes raw = 0 then None
          else let retained = f64_div (f64_of_nat (unat (bytes_transferred raw)))
                                      (f64_of_nat (unat (target_bytes raw)))
               in Some \<lparr>retained_capacity_pct = f64_mul retained (Fin 100),
                        collapse_ratio = f64_sub (Fin 1) retained\<rparr>)"

section \<open>The guard and its surroundings\<close>

record LoadGuard =
  budget :: LoadBudget
  interface :: string
  default_route_is_tunnel :: bool
  radio_source_is_synthetic :: bool

definition guard_new :: "LoadBudget \<Rightarrow> string \<Rightarrow> bool \<Rightarrow> BudgetError + LoadGuard" where
  "guard_new b iface tunnel =
     (case validate b of
        Inl e \<Rightarrow> Inl e
      | Inr _ \<Rightarrow> Inr \<lparr>budget = b, interface = iface, default_route_is_tunnel = tunnel,
                       radio_source_is_synthetic = False\<rparr>)"

definition with_synthetic_radio_marker :: "LoadGuard \<Rightarrow> bool \<Rightarrow> LoadGuard" where
  "with_synthetic_radio_marker g is_synthetic = g\<lparr>radio_source_is_synthetic := is_synthetic\<rparr>"

definition radio_sample :: "string + RadioSnapshot \<Rightarrow> RadioSnapshot" where
  "radio_sample r = (case r of Inl _ \<Rightarrow> unavailable | Inr s \<Rightarrow> s)"

definition counter_sample :: "string + InterfaceCounters \<Rightarrow> InterfaceCounters" where
  "counter_sample r = (case r of Inl _ \<Rightarrow> zero | Inr c \<Rightarrow> c)"

text \<open>
  One round of the inner loop as the surroundings see it (times in nanoseconds since the step
  began): the clock at the loop condition, the cancel flag, the phase's tick, how many snapshots
  the sampling thread has pushed by then, the clock where the remaining time is computed.
\<close>

record IterObs =
  ob_elapsed :: nat
  ob_cancel :: bool
  ob_tick :: PhaseTick
  ob_pushed :: nat
  ob_elapsed_end :: nat

record RunEnv =
  env_before :: "string + RadioSnapshot"
  env_counters_before :: "string + InterfaceCounters"
  env_during :: "(string + RadioSnapshot) list"
  env_iters :: "IterObs list"
  env_elapsed_ns :: nat
  env_after :: "string + RadioSnapshot"
  env_counters_after :: "string + InterfaceCounters"

record LoopState =
  ls_bytes :: u64
  ls_stop :: StopReason
  ls_calls :: "(f64 \<times> PhaseTick) list" \<comment> \<open>the phase's calls so far: the rate it was given and its tick\<close>

section \<open>The ramp loop\<close>

text \<open>The abort checks after a tick, in the order of the code.\<close>

definition tick_abort :: "AbortThresholds \<Rightarrow> PhaseTick \<Rightarrow> StopReason option" where
  "tick_abort a t =
     (case endpoint_error t of
        Some detail \<Rightarrow> Some (AbortEndpointError detail)
      | None \<Rightarrow>
          (case (case gateway_latency_ms t of
                   Some ms \<Rightarrow> if f64_lt (max_gateway_latency_ms a) ms
                              then Some (AbortGatewayLatency (f64_as_uint ms) (f64_as_uint (max_gateway_latency_ms a)))
                              else None
                 | None \<Rightarrow> None) of
             Some r \<Rightarrow> Some r
           | None \<Rightarrow>
               (case loss_pct t of
                  Some pct \<Rightarrow> if f64_lt (max_loss_pct a) pct
                              then Some (AbortLoss (f64_as_uint (f64_mul pct (Fin 100)))
                                                   (f64_as_uint (f64_mul (max_loss_pct a) (Fin 100))))
                              else None
                | None \<Rightarrow> None)))"

definition association_changed :: "RadioSnapshot \<Rightarrow> RadioSnapshot list \<Rightarrow> nat \<Rightarrow> bool" where
  "association_changed before_radio pushed n =
     (case rev (take n pushed) of
        [] \<Rightarrow> False
      | latest # _ \<Rightarrow> association_fingerprint latest \<noteq> association_fingerprint before_radio)"

text \<open>The inner loop of one ramp step; the flag says whether it broke out of the whole ramp.\<close>

fun step_loop :: "AbortThresholds \<Rightarrow> RadioSnapshot \<Rightarrow> RadioSnapshot list \<Rightarrow> nat \<Rightarrow> f64 \<Rightarrow>
    IterObs list \<Rightarrow> LoopState \<Rightarrow> (bool \<times> LoopState \<times> IterObs list) option" where
  "step_loop a bef dur step_ns rate [] st = None"
| "step_loop a bef dur step_ns rate (ob # obs) st =
     (if \<not> ob_elapsed ob < step_ns then Some (False, st, obs)
      else if ob_cancel ob then Some (True, st\<lparr>ls_stop := OperatorCancelled\<rparr>, obs)
      else
        let st1 = st\<lparr>ls_bytes := ls_bytes st + bytes_sent_delta (ob_tick ob),
                     ls_calls := ls_calls st @ [(rate, ob_tick ob)]\<rparr>
        in case tick_abort a (ob_tick ob) of
             Some r \<Rightarrow> Some (True, st1\<lparr>ls_stop := r\<rparr>, obs)
           | None \<Rightarrow>
               if association_changed bef dur (ob_pushed ob)
               then Some (True, st1\<lparr>ls_stop := AbortAssociationChange\<rparr>, obs)
               else if step_ns - ob_elapsed_end ob = 0 then Some (False, st1, obs)
               else step_loop a bef dur step_ns rate obs st1)"

fun ramp_loop :: "AbortThresholds \<Rightarrow> RadioSnapshot \<Rightarrow> RadioSnapshot list \<Rightarrow> nat \<Rightarrow> f64 list \<Rightarrow>
    IterObs list \<Rightarrow> LoopState \<Rightarrow> LoopState option" where
  "ramp_loop a bef dur step_ns [] obs st = Some st"
| "ramp_loop a bef dur step_ns (rate # rates) obs st =
     (case step_loop a bef dur step_ns rate obs st of
        None \<Rightarrow> None
      | Some (True, st', _) \<Rightarrow> Some st'
      | Some (False, st', obs') \<Rightarrow> ramp_loop a bef dur step_ns rates obs' st')"

section \<open>The run\<close>

definition DURATION_OVERRUN_TOLERANCE :: f64 where "DURATION_OVERRUN_TOLERANCE = Fin (5 / 4)"
definition MIN_TARGET_FRACTION :: f64 where "MIN_TARGET_FRACTION = f64_round (1 / 10)"

definition target_bytes_of :: "LoadBudget \<Rightarrow> u64" where
  "target_bytes_of b = f64_as_uint (f64_mul
     (f64_div (f64_mul (target_rate_mbps b) (Fin 1000000)) (Fin 8))
     (f64_of_nat (unat (max_duration_secs b))))"

definition step_duration_ns :: "LoadBudget \<Rightarrow> nat" where
  "step_duration_ns b =
     (max (unat (max_duration_secs b)) 1 * 1000000000) div max (length (ramp_schedule b)) 1"

definition judge_validity ::
    "bool \<Rightarrow> RadioTimeline \<Rightarrow> bool \<Rightarrow> bool \<Rightarrow> bool \<Rightarrow> Validity" where
  "judge_validity synthetic timeline counters_usable duration_exceeded target_undershoot =
     (if \<not> associated (before timeline) \<or> \<not> associated (after timeline) then Invalid RadioUnavailable
      else if roamed timeline then Invalid Roamed
      else if band_changed timeline then Invalid BandChanged
      else if \<not> counters_usable then Invalid CountersUnusable
      else if duration_exceeded then Invalid PhaseDurationExceeded
      else if target_undershoot then Invalid PhaseTargetUndershoot
      else (case weakest_rf timeline of
              Weak \<Rightarrow> Invalid WeakRf
            | Unstable \<Rightarrow> Invalid UnstableRf
            | _ \<Rightarrow> if synthetic then Invalid SyntheticRadioSource else Valid))"

definition RF_CHECK_COVERAGE_CAVEAT :: string where
  "RF_CHECK_COVERAGE_CAVEAT = ''weak/unstable RF is checked only at the before/after boundary snapshots, not via a continuous mid-phase time series; a weak-RF episode confined entirely to mid-phase could go undetected''"

record GuardReport =
  gr_interface :: string
  gr_mode :: RunMode
  stop_reason :: StopReason
  validity :: Validity
  radio :: RadioTimeline
  counters_before :: InterfaceCounters
  counters_after :: InterfaceCounters
  counters_usable :: bool
  raw :: RawMetrics
  derived :: "DerivedMetrics option"
  gr_default_route_is_tunnel :: bool
  radio_source :: string
  rf_check_coverage_caveat :: string
  gr_calls :: "(f64 \<times> PhaseTick) list" \<comment> \<open>not in the report: the calls of the phase\<close>

definition finish_report :: "LoadGuard \<Rightarrow> RunEnv \<Rightarrow> LoopState \<Rightarrow> GuardReport" where
  "finish_report g e st =
     (let timeline = \<lparr>before = radio_sample (env_before e), during = map radio_sample (env_during e),
                      after = radio_sample (env_after e)\<rparr>;
          cb = counter_sample (env_counters_before e);
          ca = counter_sample (env_counters_after e);
          usable = usable_delta_from ca cb;
          elapsed = as_secs_f64 (env_elapsed_ns e);
          target = target_bytes_of (budget g);
          budgeted = f64_of_nat (unat (max_duration_secs (budget g)));
          exceeded = f64_lt (Fin 0) budgeted \<and> f64_lt (f64_mul budgeted DURATION_OVERRUN_TOLERANCE) elapsed;
          completed = (ls_stop st = Completed);
          undershoot = completed \<and> 0 < target
            \<and> f64_lt (f64_of_nat (unat (ls_bytes st))) (f64_mul (f64_of_nat (unat target)) MIN_TARGET_FRACTION);
          v = judge_validity (radio_source_is_synthetic g) timeline usable (completed \<and> exceeded) undershoot;
          r = \<lparr>bytes_transferred = ls_bytes st, elapsed_secs = elapsed, target_bytes = target\<rparr>
      in \<lparr>gr_interface = interface g, gr_mode = mode (budget g), stop_reason = ls_stop st, validity = v,
          radio = timeline, counters_before = cb, counters_after = ca, counters_usable = usable, raw = r,
          derived = compute_derived_ratio v r, gr_default_route_is_tunnel = default_route_is_tunnel g,
          radio_source = (if radio_source_is_synthetic g then ''synthetic'' else ''live''),
          rf_check_coverage_caveat = RF_CHECK_COVERAGE_CAVEAT, gr_calls = ls_calls st\<rparr>)"

definition run :: "LoadGuard \<Rightarrow> RunEnv \<Rightarrow> GuardReport option" where
  "run g e = map_option (finish_report g e)
     (ramp_loop (abort (budget g)) (radio_sample (env_before e)) (map radio_sample (env_during e))
        (step_duration_ns (budget g)) (ramp_schedule (budget g)) (env_iters e)
        \<lparr>ls_bytes = 0, ls_stop = Completed, ls_calls = []\<rparr>)"

section \<open>Lemmas on the loop\<close>

lemmas report_defs = finish_report_def Let_def

text \<open>The bytes a list of phase calls reported, modulo \<open>2 ^ 64\<close>.\<close>

primrec sent_sum :: "(f64 \<times> PhaseTick) list \<Rightarrow> u64" where
  "sent_sum [] = 0"
| "sent_sum (c # cs) = bytes_sent_delta (snd c) + sent_sum cs"

lemma sent_sum_append [simp]: "sent_sum (xs @ ys) = sent_sum xs + sent_sum ys"
  by (induction xs) auto

lemma tick_abort_not_Completed: "tick_abort a t = Some r \<Longrightarrow> r \<noteq> Completed"
  by (auto simp: tick_abort_def split: option.splits if_splits)

lemma step_loop_props:
  assumes "step_loop a bef dur step_ns rate obs st = Some (brk, st', obs')"
  shows "(brk \<longrightarrow> ls_stop st' \<noteq> Completed) \<and> (\<not> brk \<longrightarrow> ls_stop st' = ls_stop st)
    \<and> (ls_stop st' = AbortAssociationChange \<longrightarrow> ls_stop st = AbortAssociationChange
        \<or> (\<exists>s \<in> set dur. association_fingerprint s \<noteq> association_fingerprint bef))
    \<and> (\<exists>new. ls_calls st' = ls_calls st @ new \<and> (\<forall>c \<in> set new. fst c = rate)
        \<and> ls_bytes st' = ls_bytes st + sent_sum new)"
  using assms
proof (induction obs arbitrary: st)
  case Nil
  then show ?case by simp
next
  case (Cons ob obs)
  let ?t = "ob_tick ob"
  let ?st1 = "st\<lparr>ls_bytes := ls_bytes st + bytes_sent_delta ?t, ls_calls := ls_calls st @ [(rate, ?t)]\<rparr>"
  have latest: "\<exists>s \<in> set dur. association_fingerprint s \<noteq> association_fingerprint bef"
    if ch: "association_changed bef dur (ob_pushed ob)"
  proof -
    obtain l ls where l: "rev (take (ob_pushed ob) dur) = l # ls"
      "association_fingerprint l \<noteq> association_fingerprint bef"
      using ch by (auto simp: association_changed_def split: list.splits)
    then have "l \<in> set (take (ob_pushed ob) dur)" by (metis list.set_intros(1) set_rev)
    with l(2) show ?thesis using set_take_subset by fastforce
  qed
  consider (expired) "\<not> ob_elapsed ob < step_ns" "brk = False" "st' = st"
    | (cancel) "ob_elapsed ob < step_ns" "brk" "st' = st\<lparr>ls_stop := OperatorCancelled\<rparr>"
    | (abort) r where "tick_abort a ?t = Some r" "brk" "st' = ?st1\<lparr>ls_stop := r\<rparr>"
    | (assoc) "association_changed bef dur (ob_pushed ob)" "brk" "st' = ?st1\<lparr>ls_stop := AbortAssociationChange\<rparr>"
    | (done_step) "brk = False" "st' = ?st1"
    | (go_on) "step_loop a bef dur step_ns rate obs ?st1 = Some (brk, st', obs')"
    using Cons.prems by (auto simp: Let_def split: if_splits option.splits)
  then show ?case
  proof cases
    case abort
    with tick_abort_not_Completed[of a ?t r] have "r \<noteq> Completed" by simp
    moreover have "r \<noteq> AbortAssociationChange"
      using abort(1) by (auto simp: tick_abort_def split: option.splits if_splits)
    ultimately show ?thesis using abort by auto
  next
    case assoc
    with latest show ?thesis by auto
  next
    case go_on
    from Cons.IH[OF go_on] obtain new where
      n: "ls_calls st' = ls_calls st @ [(rate, ?t)] @ new" "\<forall>c \<in> set new. fst c = rate"
      "ls_bytes st' = ls_bytes st + bytes_sent_delta ?t + sent_sum new"
      by auto
    then have "\<exists>new. ls_calls st' = ls_calls st @ new \<and> (\<forall>c \<in> set new. fst c = rate)
        \<and> ls_bytes st' = ls_bytes st + sent_sum new"
      by (intro exI[of _ "(rate, ?t) # new"]) (auto simp: algebra_simps)
    with Cons.IH[OF go_on] show ?thesis by simp
  qed auto
qed

lemma ramp_loop_props:
  assumes "ramp_loop a bef dur step_ns rates obs st = Some st'"
  shows "(ls_stop st' = AbortAssociationChange \<longrightarrow> ls_stop st = AbortAssociationChange
        \<or> (\<exists>s \<in> set dur. association_fingerprint s \<noteq> association_fingerprint bef))
    \<and> (\<exists>new. ls_calls st' = ls_calls st @ new \<and> (\<forall>c \<in> set new. fst c \<in> set rates)
        \<and> ls_bytes st' = ls_bytes st + sent_sum new)"
  using assms
proof (induction rates arbitrary: obs st)
  case Nil
  then show ?case by simp
next
  case (Cons rate rates)
  obtain brk st1 obs1 where s: "step_loop a bef dur step_ns rate obs st = Some (brk, st1, obs1)"
    and r: "if brk then st' = st1 else ramp_loop a bef dur step_ns rates obs1 st1 = Some st'"
    using Cons.prems by (auto split: option.splits prod.splits bool.splits)
  note step = step_loop_props[OF s]
  show ?case
  proof (cases brk)
    case True
    with r step show ?thesis by fastforce
  next
    case False
    with r have ih: "ramp_loop a bef dur step_ns rates obs1 st1 = Some st'" by simp
    obtain n1 where n1: "ls_calls st1 = ls_calls st @ n1" "\<forall>c \<in> set n1. fst c = rate"
      "ls_bytes st1 = ls_bytes st + sent_sum n1" using step by blast
    obtain n2 where n2: "ls_calls st' = ls_calls st1 @ n2" "\<forall>c \<in> set n2. fst c \<in> set rates"
      "ls_bytes st' = ls_bytes st1 + sent_sum n2"
      using Cons.IH[OF ih] by blast
    have "\<exists>new. ls_calls st' = ls_calls st @ new \<and> (\<forall>c \<in> set new. fst c \<in> set (rate # rates))
        \<and> ls_bytes st' = ls_bytes st + sent_sum new"
      using n1 n2 by (intro exI[of _ "n1 @ n2"]) (auto simp: algebra_simps)
    moreover have "ls_stop st1 = ls_stop st" using step False by simp
    ultimately show ?thesis using Cons.IH[OF ih] by simp
  qed
qed

text \<open>A step ends by the first observation whose clock is past the step duration.\<close>

lemma step_loop_returns:
  assumes "filter (\<lambda>ob. step_ns \<le> ob_elapsed ob) obs \<noteq> []"
  shows "\<exists>brk st' obs'. step_loop a bef dur step_ns rate obs st = Some (brk, st', obs')
    \<and> length (filter (\<lambda>ob. step_ns \<le> ob_elapsed ob) obs) \<le> Suc (length (filter (\<lambda>ob. step_ns \<le> ob_elapsed ob) obs'))"
  using assms
proof (induction obs arbitrary: st)
  case Nil
  then show ?case by simp
next
  case (Cons ob obs)
  show ?case
  proof (cases "ob_elapsed ob < step_ns")
    case False
    then show ?thesis by (intro exI[of _ False] exI[of _ st] exI[of _ obs]) auto
  next
    case True
    then have ne: "filter (\<lambda>ob. step_ns \<le> ob_elapsed ob) obs \<noteq> []" using Cons.prems by simp
    with True Cons.IH[OF ne] show ?thesis by (auto simp: Let_def split: option.split)
  qed
qed

lemma ramp_loop_returns:
  assumes "length rates \<le> length (filter (\<lambda>ob. step_ns \<le> ob_elapsed ob) obs)"
  shows "\<exists>st'. ramp_loop a bef dur step_ns rates obs st = Some st'"
  using assms
proof (induction rates arbitrary: obs st)
  case Nil
  then show ?case by simp
next
  case (Cons rate rates)
  then have "filter (\<lambda>ob. step_ns \<le> ob_elapsed ob) obs \<noteq> []" by auto
  from step_loop_returns[OF this] obtain brk st1 obs1 where
    s: "step_loop a bef dur step_ns rate obs st = Some (brk, st1, obs1)"
    and l: "length (filter (\<lambda>ob. step_ns \<le> ob_elapsed ob) obs) \<le> Suc (length (filter (\<lambda>ob. step_ns \<le> ob_elapsed ob) obs1))"
    by blast
  have "length rates \<le> length (filter (\<lambda>ob. step_ns \<le> ob_elapsed ob) obs1)" using Cons.prems l by simp
  from Cons.IH[OF this, of st1] show ?case using s by (cases brk) auto
qed

section \<open>Lemmas on the verdict\<close>

lemma fold_worse_rf:
  "fold worse_rf qs q \<in> insert q (set qs) \<and> (\<forall>p \<in> insert q (set qs). rf_rank p \<le> rf_rank (fold worse_rf qs q))"
proof (induction qs arbitrary: q)
  case Nil
  then show ?case by simp
next
  case (Cons a qs)
  from Cons.IH[of "worse_rf a q"] show ?case by (auto simp: worse_rf_def split: if_splits)
qed

lemma weakest_rf_props:
  "weakest_rf t \<in> classify_rf ` set (during t @ [before t, after t])
   \<and> (\<forall>s \<in> set (during t @ [before t, after t]). rf_rank (classify_rf s) \<le> rf_rank (weakest_rf t))"
proof -
  obtain q qs where q: "map classify_rf (during t @ [before t, after t]) = q # qs"
    by (cases "map classify_rf (during t @ [before t, after t])") auto
  then have "insert q (set qs) = classify_rf ` set (during t @ [before t, after t])"
    by (metis list.set_map list.simps(15))
  with fold_worse_rf[where qs = qs and q = q] q show ?thesis by (auto simp: weakest_rf_def)
qed

lemma rf_rank_le_1: "rf_rank q \<le> 1 \<longleftrightarrow> q \<noteq> Weak \<and> q \<noteq> Unstable"
  by (cases q) auto

lemma weakest_rf_acceptable:
  "weakest_rf t \<noteq> Weak \<and> weakest_rf t \<noteq> Unstable \<longleftrightarrow>
   (\<forall>s \<in> set (during t @ [before t, after t]). classify_rf s \<noteq> Weak \<and> classify_rf s \<noteq> Unstable)"
proof -
  note w = weakest_rf_props[of t, THEN conjunct1] weakest_rf_props[of t, THEN conjunct2]
  show ?thesis unfolding rf_rank_le_1[symmetric]
  proof
    assume "rf_rank (weakest_rf t) \<le> 1"
    with w(2) show "\<forall>s \<in> set (during t @ [before t, after t]). rf_rank (classify_rf s) \<le> 1"
      by (meson le_trans)
  next
    assume "\<forall>s \<in> set (during t @ [before t, after t]). rf_rank (classify_rf s) \<le> 1"
    with w(1) show "rf_rank (weakest_rf t) \<le> 1" by (metis imageE)
  qed
qed

lemma judge_validity_Valid:
  "judge_validity synth t usable exc short = Valid \<longleftrightarrow>
     associated (before t) \<and> associated (after t) \<and> \<not> roamed t \<and> \<not> band_changed t
     \<and> usable \<and> \<not> exc \<and> \<not> short \<and> \<not> synth \<and> weakest_rf t \<noteq> Weak \<and> weakest_rf t \<noteq> Unstable"
  by (auto simp: judge_validity_def split: RfQuality.splits)

lemma derived_only_valid: "compute_derived_ratio v r = Some d \<Longrightarrow> v = Valid \<and> target_bytes r \<noteq> 0"
  by (auto simp: compute_derived_ratio_def split: Validity.splits if_splits)

lemma run_elim:
  assumes "run g e = Some rep"
  obtains st where "rep = finish_report g e st"
    "ramp_loop (abort (budget g)) (radio_sample (env_before e)) (map radio_sample (env_during e))
        (step_duration_ns (budget g)) (ramp_schedule (budget g)) (env_iters e)
        \<lparr>ls_bytes = 0, ls_stop = Completed, ls_calls = []\<rparr> = Some st"
  using assms by (auto simp: run_def)

section \<open>A concrete run\<close>

text \<open>A live-event run of five seconds at 10 Mbit/s in one ramp step that sends all its bytes.\<close>

definition ex_budget :: LoadBudget where
  "ex_budget = (live_event (Fin 10) 5 1)\<lparr>ramp_steps := 1\<rparr>"

definition ex_guard :: LoadGuard where
  "ex_guard = \<lparr>budget = ex_budget, interface = ''en0'', default_route_is_tunnel = False,
               radio_source_is_synthetic = False\<rparr>"

definition ex_radio :: RadioSnapshot where
  "ex_radio = unavailable\<lparr>associated := True, channel := Some 36, band := Some ''5GHz''\<rparr>"

definition ex_tick :: PhaseTick where
  "ex_tick = \<lparr>gateway_latency_ms = None, loss_pct = None, endpoint_error = None, bytes_sent_delta = 6250000\<rparr>"

definition ex_env :: RunEnv where
  "ex_env = \<lparr>env_before = Inr ex_radio, env_counters_before = Inr zero, env_during = [Inr ex_radio],
     env_iters = [\<lparr>ob_elapsed = 0, ob_cancel = False, ob_tick = ex_tick, ob_pushed = 1, ob_elapsed_end = 1000\<rparr>,
                  \<lparr>ob_elapsed = 5000000000, ob_cancel = False, ob_tick = ex_tick, ob_pushed = 1,
                   ob_elapsed_end = 5000000000\<rparr>],
     env_elapsed_ns = 5000000000, env_after = Inr ex_radio, env_counters_after = Inr zero\<rparr>"

definition ex_final :: LoopState where
  "ex_final = \<lparr>ls_bytes = 6250000, ls_stop = Completed, ls_calls = [(Fin 10, ex_tick)]\<rparr>"

lemma ex_schedule: "ramp_schedule ex_budget = [Fin 10]"
proof -
  have "f64_round 10 = Fin 10" by (rule ieee.rnd_numeral) simp
  then show ?thesis by (simp add: ramp_schedule_def ex_budget_def live_event_def f64_of_nat_def)
qed

lemma ex_guard_new: "guard_new ex_budget ''en0'' False = Inr ex_guard"
  by (simp add: guard_new_def validate_def ex_budget_def live_event_def budget_caps_defs ex_guard_def)

lemma ex_run: "run ex_guard ex_env = Some (finish_report ex_guard ex_env ex_final)"
proof -
  have "step_duration_ns ex_budget = 5000000000"
    unfolding step_duration_ns_def ex_schedule by (simp add: ex_budget_def live_event_def)
  then show ?thesis
    by (simp add: run_def ex_guard_def ex_env_def ex_schedule ex_final_def radio_sample_def
        tick_abort_def association_changed_def ex_tick_def Let_def)
qed

lemma ex_target: "target_bytes_of ex_budget = 6250000"
proof -
  have r: "f64_round 10000000 = Fin 10000000" "f64_round 1250000 = Fin 1250000"
    "f64_round 5 = Fin 5" "f64_round 6250000 = Fin 6250000"
    by (rule ieee.rnd_numeral, simp)+
  then show ?thesis
    by (simp add: target_bytes_of_def ex_budget_def live_event_def f64_of_nat_def)
qed

text \<open>What the report of this run contains; the fraction 0.1 is only known to lie in the unit interval.\<close>

lemma ex_report:
  "validity (finish_report ex_guard ex_env ex_final) = Valid"
  "stop_reason (finish_report ex_guard ex_env ex_final) = Completed"
  "gr_calls (finish_report ex_guard ex_env ex_final) = [(Fin 10, ex_tick)]"
  "bytes_transferred (raw (finish_report ex_guard ex_env ex_final)) = 6250000"
  "target_bytes (raw (finish_report ex_guard ex_env ex_final)) = 6250000"
proof -
  have r: "f64_round 5 = Fin 5" "f64_round 6250000 = Fin 6250000" by (rule ieee.rnd_numeral, simp)+
  obtain c where c: "f64_round (1 / 10) = Fin c" "0 \<le> c" "c \<le> 1" using f64_round_unit[of "1 / 10"] by auto
  obtain d where d: "f64_round (6250000 * c) = Fin d" "d \<le> 6250000"
    using ieee.rnd_within_int[of "6250000 * c" 6250000] c by auto
  have e: "\<exists>y. f64_round (5 * (5 / 4)) = Fin y \<and> 5 \<le> y"
    using ieee.rnd_mono[of 5 "25 / 4"] ieee.rnd_within_int[of "25 / 4" 7] r by auto
  have el: "as_secs_f64 5000000000 = Fin 5"
    by (simp add: as_secs_f64_def f64_of_nat_def r)
  have u: "usable_delta_from zero zero" by (simp add: usable_delta_from_def)
  have q: "weakest_rf \<lparr>before = ex_radio, during = [ex_radio], after = ex_radio\<rparr> = Unknown"
    by (simp add: weakest_rf_def classify_rf_def ex_radio_def unavailable_def worse_rf_def snr_db_def)
  note defs = report_defs ex_guard_def ex_env_def ex_final_def radio_sample_def counter_sample_def ex_target
  show "validity (finish_report ex_guard ex_env ex_final) = Valid"
    using e d by (auto simp: defs judge_validity_Valid q u el roamed_def band_changed_def
        DURATION_OVERRUN_TOLERANCE_def MIN_TARGET_FRACTION_def c(1) f64_of_nat_def r)
      (auto simp: ex_radio_def unavailable_def ex_budget_def live_event_def r)
  show "stop_reason (finish_report ex_guard ex_env ex_final) = Completed"
    "gr_calls (finish_report ex_guard ex_env ex_final) = [(Fin 10, ex_tick)]"
    "bytes_transferred (raw (finish_report ex_guard ex_env ex_final)) = 6250000"
    "target_bytes (raw (finish_report ex_guard ex_env ex_final)) = 6250000"
    by (simp_all add: defs)
qed

section \<open>Properties\<close>

text \<open>C1: a run is valid exactly when the radio was associated before and after it, never roamed
  or changed band, showed no weak or unstable RF in any snapshot, the counters did not go
  backwards, the radio source was not fabricated and, if the phase ran to completion, it neither
  overran its duration by more than a quarter nor moved less than a tenth of its target bytes.
  A derived ratio is reported only for such a run.\<close>

theorem guard_valid_iff:
  assumes "run g e = Some rep"
  shows "(validity rep = Valid \<longleftrightarrow>
      associated (before (radio rep)) \<and> associated (after (radio rep))
      \<and> \<not> roamed (radio rep) \<and> \<not> band_changed (radio rep)
      \<and> (\<forall>s \<in> set (during (radio rep) @ [before (radio rep), after (radio rep)]).
            classify_rf s \<noteq> Weak \<and> classify_rf s \<noteq> Unstable)
      \<and> usable_delta_from (counters_after rep) (counters_before rep)
      \<and> \<not> radio_source_is_synthetic g
      \<and> (stop_reason rep = Completed \<longrightarrow>
           \<not> (f64_lt (Fin 0) (f64_of_nat (unat (max_duration_secs (budget g))))
              \<and> f64_lt (f64_mul (f64_of_nat (unat (max_duration_secs (budget g)))) (Fin (5 / 4)))
                        (elapsed_secs (raw rep)))
           \<and> \<not> (0 < target_bytes (raw rep)
              \<and> f64_lt (f64_of_nat (unat (bytes_transferred (raw rep))))
                        (f64_mul (f64_of_nat (unat (target_bytes (raw rep)))) (f64_round (1 / 10))))))
    \<and> (derived rep \<noteq> None \<longrightarrow> validity rep = Valid)"
proof -
  obtain st where rep: "rep = finish_report g e st" using assms by (rule run_elim)
  have d: "derived rep \<noteq> None \<longrightarrow> validity rep = Valid"
    unfolding rep by (auto simp: report_defs dest: derived_only_valid)
  show ?thesis
    unfolding weakest_rf_acceptable[symmetric]
    by (intro conjI d)
      (unfold rep, auto simp: report_defs judge_validity_Valid DURATION_OVERRUN_TOLERANCE_def MIN_TARGET_FRACTION_def)
qed

theorem guard_valid_iff_witness:
  "\<exists>rep. run ex_guard ex_env = Some rep \<and> validity rep = Valid \<and> \<not> roamed (radio rep)
    \<and> usable_delta_from (counters_after rep) (counters_before rep)"
  using ex_run ex_report(1) guard_valid_iff[OF ex_run] by blast

text \<open>C2: the rates of a load phase driven through a constructed guard, for every double as the target rate. A
  target that is a number keeps every rate the phase is ever given under the cap of the mode and
  between zero and the target, on whichever side of zero the target lies (a negative target is accepted). A
  target that is not a number is accepted wherever the same budget with a number is, and then every
  rate given is not a number, so no cap holds. The reported byte count is the sum, modulo \<open>2 ^ 64\<close>, of
  what the phase's ticks reported.\<close>

theorem guarded_rates_within_cap:
  assumes new: "guard_new b iface tunnel = Inr g0" and g: "g = with_synthetic_radio_marker g0 m"
    and t: "is_double (target_rate_mbps b)"
    and run: "run g e = Some rep"
  shows "(\<forall>(rate, tick) \<in> set (gr_calls rep).
        if target_rate_mbps b = NaN then rate = NaN
        else f64_le rate (case mode b of LiveEvent \<Rightarrow> Fin 50 | Maintenance \<Rightarrow> Fin 1000)
          \<and> (if f64_le (Fin 0) (target_rate_mbps b)
             then f64_le (Fin 0) rate \<and> f64_le rate (target_rate_mbps b)
             else f64_le (target_rate_mbps b) rate \<and> f64_le rate (Fin 0)))
    \<and> validate (b\<lparr>target_rate_mbps := NaN\<rparr>) = Inr ()
    \<and> bytes_transferred (raw rep) = sent_sum (gr_calls rep)"
proof -
  let ?cap = "case mode b of LiveEvent \<Rightarrow> Fin 50 | Maintenance \<Rightarrow> Fin 1000"
  have gb: "budget g = b" and ok: "validate b = Inr ()"
    using new g by (auto simp: guard_new_def with_synthetic_radio_marker_def split: sum.splits)
  have cap: "target_rate_mbps b = NaN \<or> f64_le (target_rate_mbps b) ?cap"
    using ok unfolding validate_ok_iff within_caps_def by (cases "mode b") (auto simp: budget_caps_defs)
  have cap0: "f64_le (Fin 0) ?cap" by (cases "mode b") simp_all
  have p: "target_rate_mbps b \<noteq> PInf" using cap by (cases "mode b") (auto simp: f64_le_def)
  have nan: "validate (b\<lparr>target_rate_mbps := NaN\<rparr>) = Inr ()"
    using ok unfolding validate_ok_iff within_caps_def by (cases "mode b") (auto simp: budget_caps_defs)
  obtain st where rep: "rep = finish_report g e st" and
    rl: "ramp_loop (abort (budget g)) (radio_sample (env_before e)) (map radio_sample (env_during e))
        (step_duration_ns (budget g)) (ramp_schedule (budget g)) (env_iters e)
        \<lparr>ls_bytes = 0, ls_stop = Completed, ls_calls = []\<rparr> = Some st"
    using run by (rule run_elim)
  from ramp_loop_props[OF rl] have calls: "\<forall>c \<in> set (ls_calls st). fst c \<in> set (ramp_schedule b)"
    and bytes: "ls_bytes st = sent_sum (ls_calls st)"
    using gb by auto
  have "if target_rate_mbps b = NaN then fst c = NaN
        else f64_le (fst c) ?cap
          \<and> (if f64_le (Fin 0) (target_rate_mbps b)
             then f64_le (Fin 0) (fst c) \<and> f64_le (fst c) (target_rate_mbps b)
             else f64_le (target_rate_mbps b) (fst c) \<and> f64_le (fst c) (Fin 0))"
    if c: "c \<in> set (ls_calls st)" for c
  proof -
    note r = ramp_rate_range[OF t p, of "fst c"]
    have "fst c \<in> set (ramp_schedule b)" using calls c by blast
    from r[OF this] show ?thesis
      using f64_le_trans[of "fst c" "target_rate_mbps b" ?cap] f64_le_trans[of "fst c" "Fin 0" ?cap] cap cap0
      by (simp split: if_splits)
  qed
  moreover have "gr_calls rep = ls_calls st" "bytes_transferred (raw rep) = ls_bytes st"
    by (simp_all add: rep report_defs)
  ultimately show ?thesis using bytes nan by fastforce
qed

theorem guarded_rates_within_cap_witness:
  "\<exists>rep. run ex_guard ex_env = Some rep
    \<and> f64_le (Fin 0) (fst (hd (gr_calls rep))) \<and> f64_le (fst (hd (gr_calls rep))) (Fin 50)
    \<and> bytes_transferred (raw rep) = bytes_sent_delta ex_tick"
proof -
  have g: "ex_guard = with_synthetic_radio_marker ex_guard False"
    by (simp add: with_synthetic_radio_marker_def ex_guard_def)
  have m: "target_rate_mbps ex_budget = Fin 10" "mode ex_budget = LiveEvent" "is_double (Fin 10)"
    using ieee.rnd_int[of 10] by (simp_all add: ex_budget_def live_event_def is_double_def)
  from guarded_rates_within_cap[OF ex_guard_new g _ ex_run] m(3)
  show ?thesis using ex_run by (auto simp: m(1,2) ex_report(3))
qed

text \<open>C14: a run returns: if for each ramp step some later observation finds the step's clock past
  the step duration, the ramp loop ends and the guard produces a report.\<close>

theorem guard_run_returns:
  assumes "unat (ramp_steps (budget g))
    \<le> length (filter (\<lambda>ob. step_duration_ns (budget g) \<le> ob_elapsed ob) (env_iters e))"
  shows "\<exists>rep. run g e = Some rep"
proof -
  have "length (ramp_schedule (budget g))
    \<le> length (filter (\<lambda>ob. step_duration_ns (budget g) \<le> ob_elapsed ob) (env_iters e))"
    using assms by (simp add: length_ramp_schedule)
  from ramp_loop_returns[OF this] show ?thesis by (auto simp: run_def)
qed

theorem guard_run_returns_witness: "\<exists>rep. run ex_guard ex_env = Some rep"
proof (rule guard_run_returns)
  have "step_duration_ns ex_budget = 5000000000"
    unfolding step_duration_ns_def ex_schedule by (simp add: ex_budget_def live_event_def)
  then show "unat (ramp_steps (budget ex_guard))
    \<le> length (filter (\<lambda>ob. step_duration_ns (budget ex_guard) \<le> ob_elapsed ob) (env_iters ex_env))"
    by (simp add: ex_guard_def ex_env_def) (simp add: ex_budget_def)
qed

text \<open>How an aborted run is labelled. A run that stopped for any abort reason is never
  reported as a duration overrun or a target undershoot; a run aborted because the association
  changed is invalid, as a roam or (when the radio was not associated at an end) as unavailable,
  and carries no derived ratio.\<close>

theorem abort_labels:
  assumes "run g e = Some rep"
  shows "(stop_reason rep \<noteq> Completed \<longrightarrow>
       validity rep \<noteq> Invalid PhaseDurationExceeded \<and> validity rep \<noteq> Invalid PhaseTargetUndershoot)
    \<and> (stop_reason rep = AbortAssociationChange \<longrightarrow>
       (validity rep = Invalid Roamed \<or> validity rep = Invalid RadioUnavailable) \<and> derived rep = None)"
proof -
  obtain st where rep: "rep = finish_report g e st" and
    rl: "ramp_loop (abort (budget g)) (radio_sample (env_before e)) (map radio_sample (env_during e))
        (step_duration_ns (budget g)) (ramp_schedule (budget g)) (env_iters e)
        \<lparr>ls_bytes = 0, ls_stop = Completed, ls_calls = []\<rparr> = Some st"
    using assms by (rule run_elim)
  have "roamed (radio rep)" if "stop_reason rep = AbortAssociationChange"
    using ramp_loop_props[OF rl] that by (auto simp: rep report_defs roamed_def)
  then have a: "stop_reason rep = AbortAssociationChange \<longrightarrow>
       validity rep = Invalid Roamed \<or> validity rep = Invalid RadioUnavailable"
    by (auto simp: rep report_defs judge_validity_def)
  have "stop_reason rep = AbortAssociationChange \<longrightarrow> derived rep = None"
    using a by (auto simp: rep report_defs compute_derived_ratio_def)
  moreover have "stop_reason rep \<noteq> Completed \<longrightarrow>
       validity rep \<noteq> Invalid PhaseDurationExceeded \<and> validity rep \<noteq> Invalid PhaseTargetUndershoot"
    by (auto simp: rep report_defs judge_validity_def split: RfQuality.splits)
  ultimately show ?thesis using a by blast
qed

theorem abort_labels_witness:
  "\<exists>rep. run ex_guard (ex_env\<lparr>env_during := [Inl ''no wifi'']\<rparr>) = Some rep
    \<and> stop_reason rep = AbortAssociationChange \<and> derived rep = None
    \<and> (validity rep = Invalid Roamed \<or> validity rep = Invalid RadioUnavailable)"
proof -
  let ?e = "ex_env\<lparr>env_during := [Inl ''no wifi'']\<rparr>"
  let ?st = "\<lparr>ls_bytes = 6250000, ls_stop = AbortAssociationChange, ls_calls = [(Fin 10, ex_tick)]\<rparr>"
  have d: "step_duration_ns ex_budget = 5000000000"
    unfolding step_duration_ns_def ex_schedule by (simp add: ex_budget_def live_event_def)
  have "association_fingerprint unavailable \<noteq> association_fingerprint ex_radio"
    by (simp add: association_fingerprint_def unavailable_def ex_radio_def)
  then have r: "run ex_guard ?e = Some (finish_report ex_guard ?e ?st)"
    by (simp add: run_def ex_guard_def ex_env_def ex_schedule d radio_sample_def
        tick_abort_def association_changed_def ex_tick_def Let_def)
  have "stop_reason (finish_report ex_guard ?e ?st) = AbortAssociationChange" by (simp add: report_defs)
  with r abort_labels[OF r] show ?thesis by blast
qed

text \<open>The derived ratio of a valid run that moved no more than its target: the retained
  capacity is a percentage between 0 and 100 and the collapse ratio lies between 0 and 1, in
  binary64 arithmetic.\<close>

theorem derived_ratio_bounds:
  assumes d: "compute_derived_ratio v r = Some d" and le: "bytes_transferred r \<le> target_bytes r"
  shows "\<exists>p c. retained_capacity_pct d = Fin p \<and> 0 \<le> p \<and> p \<le> 100
    \<and> collapse_ratio d = Fin c \<and> 0 \<le> c \<and> c \<le> 1"
proof -
  define a b where "a = f64_of_nat (unat (bytes_transferred r))" and "b = f64_of_nat (unat (target_bytes r))"
  have t0: "target_bytes r \<noteq> 0" using derived_only_valid[OF d] by simp
  have ab: "f64_le a b" "f64_le (Fin 0) a"
    using le by (auto simp: a_def b_def word_le_nat_alt f64_of_nat_mono f64_of_nat_nonneg)
  have ratio: "\<exists>q. f64_div a b = Fin q \<and> 0 \<le> q \<and> q \<le> 1"
  proof -
    have "unat (target_bytes r) \<le> 2 ^ 64"
      using unsigned_less[of "target_bytes r", where 'a = nat] by simp
    then have "(of_nat (unat (target_bytes r)) :: rat) \<le> of_nat (2 ^ 64)" by (rule of_nat_mono)
    then have "f64_le b (f64_round (2 ^ 64))"
      unfolding b_def f64_of_nat_def of_nat_power of_nat_numeral by (rule f64_round_mono)
    moreover have "f64_round (2 ^ 64) = Fin (2 ^ 64)"
    proof -
      have "round_mag (2 ^ 64) = 2 ^ 64" by (rule round_mag_exact[of _ 1 64]) auto
      then show ?thesis by (simp add: f64_round_def)
    qed
    ultimately obtain y where b: "b = Fin y" "0 \<le> y"
      using f64_le_between_Fin[of 0 b "2 ^ 64"] f64_le_trans[OF ab(2,1)] by auto
    obtain x where a: "a = Fin x" "0 \<le> x" "x \<le> y" using f64_le_between_Fin[OF ab(2)] ab(1) b by auto
    have "f64_le (Fin 1) b"
      using f64_of_nat_mono[of 1 "unat (target_bytes r)"] t0
      by (simp add: b_def f64_of_nat_def Suc_le_eq unat_gt_0)
    then have "0 < y" using b by simp
    with a b ieee.rnd_ratio[of x y] show ?thesis by simp
  qed
  then obtain q where q: "f64_div a b = Fin q" "0 \<le> q" "q \<le> 1" by blast
  have dd: "d = \<lparr>retained_capacity_pct = f64_mul (Fin q) (Fin 100), collapse_ratio = f64_sub (Fin 1) (Fin q)\<rparr>"
    using d q(1) by (auto simp: compute_derived_ratio_def a_def b_def Let_def split: Validity.splits if_splits)
  have "\<exists>p. f64_round (q * 100) = Fin p \<and> 0 \<le> p \<and> p \<le> of_int 100"
    using q by (intro ieee.rnd_within_int) auto
  moreover have "\<exists>c. f64_round (1 - q) = Fin c \<and> 0 \<le> c \<and> c \<le> of_int 1"
    using q by (intro ieee.rnd_within_int) auto
  ultimately show ?thesis by (auto simp: dd f64_sub_def)
qed

theorem derived_ratio_bounds_witness:
  "\<exists>d p. compute_derived_ratio Valid \<lparr>bytes_transferred = 400, elapsed_secs = Fin 1, target_bytes = 500\<rparr> = Some d
    \<and> retained_capacity_pct d = Fin p \<and> 0 \<le> p \<and> p \<le> 100"
proof -
  let ?r = "\<lparr>bytes_transferred = 400, elapsed_secs = Fin 1, target_bytes = 500\<rparr> :: RawMetrics"
  obtain d where d: "compute_derived_ratio Valid ?r = Some d"
    by (simp add: compute_derived_ratio_def Let_def)
  show ?thesis using d derived_ratio_bounds[OF d] by (auto simp: word_le_nat_alt)
qed

end
