(* ===== verification/Listener_Lease.thy ===== *)
theory Listener_Lease
  imports F64
begin

text \<open>
  \<open>network_tests/listener_lease.rs\<close>: leases of operator-authorized listeners.

  The pool is a record; \<open>in_use\<close> is the shared \<open>HashSet<u16>\<close> behind the mutex, and every operation
  holds the mutex for its whole body, so an operation is one atomic step. The live leases are the
  second half of the system state: \<open>Drop\<close> of a lease is the step that returns its port.
\<close>

section \<open>Data and operations\<close>

record AuthorizedListener =
  host :: string
  port :: u16

datatype LeaseError = PortNotAuthorized u16 | AllListenersInUse | ConcurrencyCapReached nat

definition lease_error_display :: "LeaseError \<Rightarrow> string" where
  "lease_error_display e =
     (case e of
        PortNotAuthorized p \<Rightarrow> ''port '' @ show_word p
          @ '' is not in the operator-authorized listener allowlist; refusing to contact it''
      | AllListenersInUse \<Rightarrow> ''all authorized listeners currently leased''
      | ConcurrencyCapReached cap \<Rightarrow> ''concurrency cap ('' @ show_nat cap @ '') reached'')"

record ListenerPool =
  allowlist :: "AuthorizedListener list"
  in_use :: "u16 set"
  pool_cap :: nat

definition pool_new :: "AuthorizedListener list \<Rightarrow> nat \<Rightarrow> ListenerPool" where
  "pool_new ls cap = \<lparr>allowlist = ls, in_use = {}, pool_cap = cap\<rparr>"

definition is_authorized :: "ListenerPool \<Rightarrow> u16 \<Rightarrow> bool" where
  "is_authorized p prt \<longleftrightarrow> (\<exists>l \<in> set (allowlist p). port l = prt)"

definition lease :: "ListenerPool \<Rightarrow> (LeaseError + AuthorizedListener) \<times> ListenerPool" where
  "lease p =
     (case List.find (\<lambda>l. port l \<notin> in_use p) (allowlist p) of
        None \<Rightarrow> (Inl AllListenersInUse, p)
      | Some l \<Rightarrow>
          if pool_cap p \<le> card (in_use p) then (Inl (ConcurrencyCapReached (pool_cap p)), p)
          else (Inr l, p\<lparr>in_use := insert (port l) (in_use p)\<rparr>))"

definition lease_specific :: "ListenerPool \<Rightarrow> u16 \<Rightarrow> (LeaseError + AuthorizedListener) \<times> ListenerPool" where
  "lease_specific p prt =
     (case List.find (\<lambda>l. port l = prt) (allowlist p) of
        None \<Rightarrow> (Inl (PortNotAuthorized prt), p)
      | Some l \<Rightarrow>
          if pool_cap p \<le> card (in_use p) then (Inl (ConcurrencyCapReached (pool_cap p)), p)
          else if prt \<in> in_use p then (Inl AllListenersInUse, p)
          else (Inr l, p\<lparr>in_use := insert prt (in_use p)\<rparr>))"

definition drop_lease :: "AuthorizedListener \<Rightarrow> ListenerPool \<Rightarrow> ListenerPool" where
  "drop_lease l p = p\<lparr>in_use := in_use p - {port l}\<rparr>"

definition leased_count :: "ListenerPool \<Rightarrow> nat" where
  "leased_count p = card (in_use p)"

record EndpointLossFloor =
  client_version_family :: string
  floor_pct_low :: f64
  floor_pct_high :: f64

definition estimate_loss_floor :: "string \<Rightarrow> EndpointLossFloor" where
  "estimate_loss_floor iperf_version =
     (if contains iperf_version ''3.9''
      then \<lparr>client_version_family = ''iperf3-3.9'', floor_pct_low = f64_round (6 / 10), floor_pct_high = Fin 1\<rparr>
      else \<lparr>client_version_family = ''iperf3-other'', floor_pct_low = Fin 0, floor_pct_high = f64_round (2 / 10)\<rparr>)"

datatype Transport = Tcp | Udp

record CapacityCheck =
  cc_transport :: Transport
  requested_duration_secs :: f64
  reported_duration_secs :: f64
  receiver_bits_per_second :: f64

datatype CapacityVerdict = Consistent | DurationInconsistent f64 f64

definition DURATION_TOLERANCE_FRACTION :: f64 where
  "DURATION_TOLERANCE_FRACTION = f64_round (15 / 100)"

definition qualify_capacity :: "CapacityCheck \<Rightarrow> CapacityVerdict" where
  "qualify_capacity c =
     (if f64_le (requested_duration_secs c) (Fin 0)
      then DurationInconsistent (requested_duration_secs c) (reported_duration_secs c)
      else let delta = f64_div (f64_abs (f64_sub (reported_duration_secs c) (requested_duration_secs c)))
                               (requested_duration_secs c)
           in if f64_lt DURATION_TOLERANCE_FRACTION delta
              then DurationInconsistent (requested_duration_secs c) (reported_duration_secs c)
              else Consistent)"

definition is_busy_or_rate_limited :: "string \<Rightarrow> bool" where
  "is_busy_or_rate_limited error_text =
     (let lower = to_lowercase error_text
      in contains lower ''busy'' \<or> contains lower ''too many'' \<or> contains lower ''rate limit'')"

section \<open>The pool as a state machine\<close>

type_synonym pool_state = "ListenerPool \<times> AuthorizedListener list"

inductive pool_step :: "pool_state \<Rightarrow> pool_state \<Rightarrow> bool" where
  lease_ok: "lease p = (Inr l, p') \<Longrightarrow> pool_step (p, held) (p', l # held)"
| lease_refused: "lease p = (Inl e, p') \<Longrightarrow> pool_step (p, held) (p', held)"
| specific_ok: "lease_specific p prt = (Inr l, p') \<Longrightarrow> pool_step (p, held) (p', l # held)"
| specific_refused: "lease_specific p prt = (Inl e, p') \<Longrightarrow> pool_step (p, held) (p', held)"
| dropped: "l \<in> set held \<Longrightarrow> pool_step (p, held) (drop_lease l p, remove1 l held)"

definition pool_init :: "AuthorizedListener list \<Rightarrow> nat \<Rightarrow> pool_state \<Rightarrow> bool" where
  "pool_init ls cap s \<longleftrightarrow> s = (pool_new ls cap, [])"

text \<open>The live leases hold distinct ports, exactly the ports in use, all from the allowlist, and
  their number is within the cap.\<close>

definition pool_inv :: "AuthorizedListener list \<Rightarrow> nat \<Rightarrow> pool_state \<Rightarrow> bool" where
  "pool_inv ls cap s \<longleftrightarrow> (case s of (p, held) \<Rightarrow>
     allowlist p = ls \<and> pool_cap p = cap \<and> set held \<subseteq> set ls
     \<and> distinct (map port held) \<and> in_use p = set (map port held) \<and> length held \<le> cap)"

lemma lease_cases:
  "fst (lease p) = Inr l \<longleftrightarrow>
     List.find (\<lambda>l. port l \<notin> in_use p) (allowlist p) = Some l \<and> card (in_use p) < pool_cap p"
  "fst (lease p) = Inr l \<Longrightarrow> snd (lease p) = p\<lparr>in_use := insert (port l) (in_use p)\<rparr>"
  "fst (lease p) = Inl e \<Longrightarrow> snd (lease p) = p"
  by (auto simp: lease_def split: option.splits if_splits)

lemma lease_specific_cases:
  "fst (lease_specific p prt) = Inr l \<longleftrightarrow>
     List.find (\<lambda>l. port l = prt) (allowlist p) = Some l \<and> card (in_use p) < pool_cap p \<and> prt \<notin> in_use p"
  "fst (lease_specific p prt) = Inr l \<Longrightarrow> snd (lease_specific p prt) = p\<lparr>in_use := insert prt (in_use p)\<rparr>"
  "fst (lease_specific p prt) = Inl e \<Longrightarrow> snd (lease_specific p prt) = p"
  by (auto simp: lease_specific_def split: option.splits if_splits)

lemma find_Some_mem: "List.find P xs = Some x \<Longrightarrow> x \<in> set xs \<and> P x"
  by (auto simp: find_Some_iff)

text \<open>Granting a lease on an unused authorized port below the cap keeps the invariant.\<close>

lemma pool_inv_grant:
  assumes "pool_inv ls cap (p, held)" and "l \<in> set ls" and "port l \<notin> in_use p" and "card (in_use p) < cap"
  shows "pool_inv ls cap (p\<lparr>in_use := insert (port l) (in_use p)\<rparr>, l # held)"
proof -
  have "card (in_use p) = length held"
    using assms(1) by (simp add: pool_inv_def distinct_card flip: set_map)
  with assms show ?thesis by (auto simp: pool_inv_def)
qed

lemma pool_inv_drop:
  assumes inv: "pool_inv ls cap (p, held)" and l: "l \<in> set held"
  shows "pool_inv ls cap (drop_lease l p, remove1 l held)"
proof -
  have d: "distinct (map port held)" and u: "in_use p = set (map port held)"
    using inv by (auto simp: pool_inv_def)
  have inj: "inj_on port (set held)" and dh: "distinct held" using d by (auto simp: distinct_map)
  have s: "set (remove1 l held) = set held - {l}" using dh by simp
  have "distinct (map port (remove1 l held))"
    using dh inj s by (auto simp: distinct_map intro: inj_on_subset)
  moreover have "in_use p - {port l} = set (map port (remove1 l held))"
    using inj l u s by (auto simp: inj_on_def)
  ultimately show ?thesis
    using inv l by (auto simp: pool_inv_def drop_lease_def length_remove1 dest: notin_set_remove1)
qed

lemma pool_inv_step:
  assumes "pool_inv ls cap s" and "pool_step s s'"
  shows "pool_inv ls cap s'"
proof -
  obtain p held where s: "s = (p, held)" by (cases s)
  have ls: "allowlist p = ls" "pool_cap p = cap" using assms(1) by (auto simp: s pool_inv_def)
  from assms(2)[unfolded s] show ?thesis
  proof cases
    case (lease_ok l p')
    then have "fst (lease p) = Inr l" "p' = snd (lease p)" by auto
    with lease_cases(1,2)[of p l] find_Some_mem assms(1) ls lease_ok show ?thesis
      by (fastforce simp: s intro!: pool_inv_grant)
  next
    case (lease_refused e p')
    with lease_cases(3)[of p e] assms(1) show ?thesis by (simp add: s)
  next
    case (specific_ok prt l p')
    then have "fst (lease_specific p prt) = Inr l" "p' = snd (lease_specific p prt)" by auto
    with lease_specific_cases(1,2)[of p prt l] find_Some_mem assms(1) ls specific_ok show ?thesis
      by (fastforce simp: s intro!: pool_inv_grant)
  next
    case (specific_refused prt e p')
    with lease_specific_cases(3)[of p prt e] assms(1) show ?thesis by (simp add: s)
  next
    case (dropped l)
    with pool_inv_drop assms(1) show ?thesis by (simp add: s)
  qed
qed

interpretation lease_pool: step_invariant "pool_init ls cap" pool_step "pool_inv ls cap" for ls cap
proof
  show "pool_init ls cap s \<Longrightarrow> pool_inv ls cap s" for s
    by (simp add: pool_init_def pool_inv_def pool_new_def)
qed (rule pool_inv_step)

section \<open>Properties\<close>

text \<open>C5: whatever sequence of leases, refusals and drops the pool goes through, the live leases
  are authorized listeners with pairwise distinct ports, no more of them than the concurrency cap,
  and the ports marked in use are exactly theirs.\<close>

theorem lease_pool_safe:
  assumes "reachable_by (pool_init ls cap) pool_step (p, held)"
  shows "set held \<subseteq> set ls \<and> distinct (map port held) \<and> length held \<le> cap
    \<and> in_use p = port ` set held \<and> leased_count p = length held"
proof -
  have inv: "pool_inv ls cap (p, held)" using lease_pool.reachable_inv[OF assms] .
  then have "card (in_use p) = length held"
    by (simp add: pool_inv_def distinct_card flip: set_map)
  with inv show ?thesis by (simp add: pool_inv_def leased_count_def)
qed

definition two_hosts :: "AuthorizedListener list" where
  "two_hosts = [\<lparr>host = ''a'', port = 5201\<rparr>, \<lparr>host = ''b'', port = 5201\<rparr>]"

theorem lease_pool_safe_witness:
  "\<exists>p held. reachable_by (pool_init two_hosts 2) pool_step (p, held) \<and> held = [hd two_hosts]
     \<and> length held \<le> 2 \<and> leased_count p = length held"
proof -
  let ?p = "pool_new two_hosts 2"
  have "lease ?p = (Inr (hd two_hosts), ?p\<lparr>in_use := {5201}\<rparr>)"
    by (simp add: lease_def pool_new_def two_hosts_def)
  then have "reachable_by (pool_init two_hosts 2) pool_step (?p\<lparr>in_use := {5201}\<rparr>, [hd two_hosts])"
    by (intro reachable_by.more[OF reachable_by.start[of _ "(?p, [])"]] lease_ok) (auto simp: pool_init_def)
  from lease_pool_safe[OF this] this show ?thesis by blast
qed

text \<open>An unrestricted lease succeeds exactly when some authorized port is free and the cap is
  not reached; it then grants the first such listener. It reports exhaustion only when every
  authorized port is in use, and the cap only when a free port exists. A specific lease succeeds
  exactly for an authorized free port below the cap, and names the port as unauthorized exactly when
  it is not on the allowlist. A refusal never changes the pool.\<close>

theorem lease_outcomes:
  "((\<exists>l. fst (lease p) = Inr l) \<longleftrightarrow>
       (\<exists>l \<in> set (allowlist p). port l \<notin> in_use p) \<and> card (in_use p) < pool_cap p)
   \<and> (fst (lease p) = Inl AllListenersInUse \<longleftrightarrow> port ` set (allowlist p) \<subseteq> in_use p)
   \<and> ((\<exists>l. fst (lease_specific p prt) = Inr l) \<longleftrightarrow>
       is_authorized p prt \<and> prt \<notin> in_use p \<and> card (in_use p) < pool_cap p)
   \<and> (fst (lease_specific p prt) = Inl (PortNotAuthorized prt) \<longleftrightarrow> \<not> is_authorized p prt)
   \<and> (case fst (lease p) of Inl _ \<Rightarrow> snd (lease p) = p
      | Inr l \<Rightarrow> l \<in> set (allowlist p) \<and> in_use (snd (lease p)) = insert (port l) (in_use p))
   \<and> (case fst (lease_specific p prt) of Inl _ \<Rightarrow> snd (lease_specific p prt) = p
      | Inr l \<Rightarrow> l \<in> set (allowlist p) \<and> port l = prt \<and> in_use (snd (lease_specific p prt)) = insert prt (in_use p))"
proof -
  have a: "(\<exists>l. List.find P ls = Some l) \<longleftrightarrow> (\<exists>l \<in> set ls. P l)" for P :: "AuthorizedListener \<Rightarrow> bool" and ls
    by (metis find_None_iff find_Some_mem option.exhaust option.simps(3))
  have "fst (lease p) = Inl AllListenersInUse \<longleftrightarrow> port ` set (allowlist p) \<subseteq> in_use p"
    by (auto simp: lease_def find_None_iff split: option.splits dest: find_Some_mem)
  moreover have "fst (lease_specific p prt) = Inl (PortNotAuthorized prt) \<longleftrightarrow> \<not> is_authorized p prt"
    by (auto simp: lease_specific_def is_authorized_def find_None_iff split: option.splits dest: find_Some_mem)
  moreover have "case fst (lease p) of Inl _ \<Rightarrow> snd (lease p) = p
      | Inr l \<Rightarrow> l \<in> set (allowlist p) \<and> in_use (snd (lease p)) = insert (port l) (in_use p)"
    by (auto simp: lease_def split: option.splits dest: find_Some_mem)
  moreover have "case fst (lease_specific p prt) of Inl _ \<Rightarrow> snd (lease_specific p prt) = p
      | Inr l \<Rightarrow> l \<in> set (allowlist p) \<and> port l = prt \<and> in_use (snd (lease_specific p prt)) = insert prt (in_use p)"
    by (auto simp: lease_specific_def split: option.splits dest: find_Some_mem)
  ultimately show ?thesis
    using a[of "\<lambda>l. port l \<notin> in_use p" "allowlist p"] a[of "\<lambda>l. port l = prt" "allowlist p"]
    unfolding lease_cases(1) lease_specific_cases(1) is_authorized_def by auto
qed

text \<open>The pool keys its leases by port alone. With two authorized listeners on different hosts
  that share a port and a cap of two, leasing the first makes the pool report that all listeners are
  in use while the second is idle; and a specific lease of that port can only ever return the first
  host.\<close>

theorem same_port_listeners_conflict:
  "let p1 = snd (lease (pool_new two_hosts 2))
   in fst (lease (pool_new two_hosts 2)) = Inr \<lparr>host = ''a'', port = 5201\<rparr>
      \<and> fst (lease p1) = Inl AllListenersInUse \<and> leased_count p1 < pool_cap p1
      \<and> (\<forall>p l. allowlist p = two_hosts \<and> fst (lease_specific p 5201) = Inr l \<longrightarrow> host l = ''a'')"
  by (auto simp: lease_def lease_specific_def pool_new_def two_hosts_def leased_count_def Let_def split: if_splits)

theorem same_port_listeners_conflict_witness:
  "fst (lease_specific (pool_new two_hosts 2) 5201) = Inr \<lparr>host = ''a'', port = 5201\<rparr>
   \<and> (\<exists>l. fst (lease_specific (pool_new two_hosts 2) 5201) = Inr l \<and> host l = ''a'')"
proof -
  have "fst (lease_specific (pool_new two_hosts 2) 5201) = Inr \<lparr>host = ''a'', port = 5201\<rparr>"
    by (simp add: lease_specific_def pool_new_def two_hosts_def)
  moreover have "allowlist (pool_new two_hosts 2) = two_hosts" by (simp add: pool_new_def)
  ultimately show ?thesis using same_port_listeners_conflict unfolding Let_def by blast
qed

lemma duration_tolerance_value: "\<exists>x. DURATION_TOLERANCE_FRACTION = Fin x \<and> 0 \<le> x \<and> x < 1"
proof -
  obtain y where y: "f64_round (15 / 100) = Fin y" "0 \<le> y" using ieee.rnd_within_int[of "15 / 100" 1] by auto
  have "round_mag (1 / 2) = 1 / 2" by (rule round_mag_exact[of _ 1 "- 1"]) auto
  then have "f64_round (1 / 2) = Fin (1 / 2)" by (simp add: f64_round_def)
  with ieee.rnd_mono[of "15 / 100" "1 / 2"] y have "y \<le> 1 / 2" by simp
  with y show ?thesis by (simp add: DURATION_TOLERANCE_FRACTION_def)
qed

text \<open>When a reported capacity is accepted, for a positive requested duration. A run that
  reports no elapsed time is refused, a run of exactly the requested length is accepted, a request
  that is not positive is always refused; but a duration that is not a number is accepted.\<close>

theorem qualify_capacity_cases:
  assumes t: "0 < t" "f64_round t = Fin t"
  shows "qualify_capacity \<lparr>cc_transport = tr, requested_duration_secs = Fin t, reported_duration_secs = Fin 0,
            receiver_bits_per_second = bps\<rparr> = DurationInconsistent (Fin t) (Fin 0)
    \<and> qualify_capacity \<lparr>cc_transport = tr, requested_duration_secs = Fin t, reported_duration_secs = Fin t,
            receiver_bits_per_second = bps\<rparr> = Consistent
    \<and> qualify_capacity \<lparr>cc_transport = tr, requested_duration_secs = Fin (- t), reported_duration_secs = rep,
            receiver_bits_per_second = bps\<rparr> = DurationInconsistent (Fin (- t)) rep
    \<and> qualify_capacity \<lparr>cc_transport = tr, requested_duration_secs = Fin t, reported_duration_secs = NaN,
            receiver_bits_per_second = bps\<rparr> = Consistent"
proof -
  obtain x where x: "DURATION_TOLERANCE_FRACTION = Fin x" "0 \<le> x" "x < 1"
    using duration_tolerance_value by blast
  have "f64_round (- t) = Fin (- t)" using t by (simp add: f64_round_def split: if_splits)
  with t x(2,3) show ?thesis by (simp add: qualify_capacity_def Let_def f64_sub_def x(1))
qed

theorem qualify_capacity_cases_witness:
  "qualify_capacity \<lparr>cc_transport = Udp, requested_duration_secs = Fin 10, reported_duration_secs = Fin 0,
     receiver_bits_per_second = Fin 44600000\<rparr> = DurationInconsistent (Fin 10) (Fin 0)"
  using qualify_capacity_cases[of 10] ieee.rnd_int[of 10] by simp

end
