(* ===== verification/Endpoint_Registry.thy ===== *)
theory Endpoint_Registry
  imports Listener_Lease
begin

text \<open>
  \<open>network_tests/endpoint_registry.rs\<close>: the registry of endpoints with their observed behaviour,
  and the interface through which the lease pool relies on it: an allowlist never holds a listener
  recorded as bad. Deserialization (\<open>serde_json\<close>) and the file system are arguments of \<open>from_json\<close>
  and \<open>load_registry\<close>.
\<close>

section \<open>Data\<close>

record RegistryListener =
  rl_host :: string
  rl_port :: u16
  region_label :: "string option"
  rl_transport :: "string list"
  verified :: "string option"
  verified_on :: "string option"
  purpose :: "string option"
  observed :: "string option"

record KnownBadPort =
  kb_host :: string
  kb_port :: "u16 option"
  kb_ports :: "u16 list"
  outcome :: string
  kb_verified_on :: "string option"
  must_not_be_recorded_as :: "string option"
  why_it_matters :: "string option"

definition covers :: "KnownBadPort \<Rightarrow> string \<Rightarrow> u16 \<Rightarrow> bool" where
  "covers b hst prt \<longleftrightarrow> (if kb_host b \<noteq> hst then False else kb_port b = Some prt \<or> prt \<in> set (kb_ports b))"

definition all_ports :: "KnownBadPort \<Rightarrow> u16 list" where
  "all_ports b = kb_ports b @ (case kb_port b of Some p \<Rightarrow> [p] | None \<Rightarrow> [])"

record Provider =
  provider_name :: string
  documentation :: "string option"
  authorization :: "string option"
  listeners :: "RegistryListener list"
  known_bad_ports :: "KnownBadPort list"
  caveats :: "string list"

record EndpointRegistry =
  schema_version :: u32
  registry_note :: "string option"
  providers :: "Provider list"

datatype SelectionError =
    UnknownProvider string "string list"
  | KnownBad string u16 string
  | NoListenerForPurpose string string

definition selection_message :: "SelectionError \<Rightarrow> string" where
  "selection_message e =
     (case e of
        UnknownProvider requested available \<Rightarrow>
          ''no provider named '' @ quoted requested @ '' in the registry; available: ''
          @ (if available = [] then ''none'' else join '', '' available)
      | KnownBad hst prt out \<Rightarrow>
          hst @ '':'' @ show_word prt @ '' is recorded as a known-bad endpoint ('' @ out
          @ ''); refusing to use it, since a repeat failure could be recorded as a network measurement rather than an endpoint one''
      | NoListenerForPurpose prov purp \<Rightarrow>
          ''provider '' @ quoted prov @ '' has no verified listener for '' @ quoted purp)"

section \<open>Operations\<close>

definition from_json :: "(string \<Rightarrow> string + EndpointRegistry) \<Rightarrow> string \<Rightarrow> string + EndpointRegistry" where
  "from_json serde_from_str text =
     (case serde_from_str text of
        Inl e \<Rightarrow> Inl (''registry is not valid JSON: '' @ e)
      | Inr r \<Rightarrow> Inr r)"

definition load_registry :: "(string \<Rightarrow> string + EndpointRegistry) \<Rightarrow> (string \<Rightarrow> string + string) \<Rightarrow>
    string \<Rightarrow> string + EndpointRegistry" where
  "load_registry serde_from_str read_to_string path =
     (case read_to_string path of
        Inl e \<Rightarrow> Inl (''could not read registry '' @ path @ '': '' @ e)
      | Inr text \<Rightarrow> from_json serde_from_str text)"

definition provider :: "EndpointRegistry \<Rightarrow> string \<Rightarrow> Provider option" where
  "provider r name = List.find (\<lambda>p. provider_name p = name) (providers r)"

definition provider_names :: "EndpointRegistry \<Rightarrow> string list" where
  "provider_names r = map provider_name (providers r)"

definition is_known_bad :: "EndpointRegistry \<Rightarrow> string \<Rightarrow> u16 \<Rightarrow> KnownBadPort option" where
  "is_known_bad r hst prt =
     List.find (\<lambda>b. covers b hst prt) (concat (map known_bad_ports (providers r)))"

text \<open>The loop of \<open>select\<close> over the provider's listeners.\<close>

fun select_loop :: "EndpointRegistry \<Rightarrow> string \<Rightarrow> string \<Rightarrow> RegistryListener list \<Rightarrow>
    SelectionError + RegistryListener" where
  "select_loop r prov purp [] = Inl (NoListenerForPurpose prov purp)"
| "select_loop r prov purp (l # ls) =
     (let matches_purpose = (case purpose l of None \<Rightarrow> False
                             | Some s \<Rightarrow> contains (to_lowercase s) (to_lowercase purp))
      in if \<not> matches_purpose then select_loop r prov purp ls
         else case is_known_bad r (rl_host l) (rl_port l) of
                Some bad \<Rightarrow> Inl (KnownBad (rl_host l) (rl_port l) (outcome bad))
              | None \<Rightarrow> Inr l)"

definition select :: "EndpointRegistry \<Rightarrow> string \<Rightarrow> string \<Rightarrow> SelectionError + RegistryListener" where
  "select r prov purp =
     (case provider r prov of
        None \<Rightarrow> Inl (UnknownProvider prov (provider_names r))
      | Some p \<Rightarrow> select_loop r prov purp (listeners p))"

definition allowlist_for :: "EndpointRegistry \<Rightarrow> string \<Rightarrow> SelectionError + AuthorizedListener list" where
  "allowlist_for r prov =
     (case provider r prov of
        None \<Rightarrow> Inl (UnknownProvider prov (provider_names r))
      | Some p \<Rightarrow> Inr (map (\<lambda>l. \<lparr>host = rl_host l, port = rl_port l\<rparr>)
                     (filter (\<lambda>l. is_known_bad r (rl_host l) (rl_port l) = None) (listeners p))))"

definition caveats_for :: "EndpointRegistry \<Rightarrow> string \<Rightarrow> string list" where
  "caveats_for r prov = (case provider r prov of None \<Rightarrow> [] | Some p \<Rightarrow> caveats p)"

definition directions_span_different_hosts :: "RegistryListener \<Rightarrow> RegistryListener \<Rightarrow> bool" where
  "directions_span_different_hosts a b \<longleftrightarrow> rl_host a \<noteq> rl_host b"

section \<open>The interface to the lease pool\<close>

text \<open>What the lease layer is promised of whoever supplies its allowlist.\<close>

locale allowlist_source =
  fixes allowed :: "'r \<Rightarrow> string \<Rightarrow> 'e + AuthorizedListener list"
    and bad :: "'r \<Rightarrow> string \<Rightarrow> u16 \<Rightarrow> bool"
  assumes allowed_not_bad: "allowed r p = Inr ls \<Longrightarrow> l \<in> set ls \<Longrightarrow> \<not> bad r (host l) (port l)"
begin

lemma leases_not_bad:
  assumes "allowed r p = Inr ls" and "reachable_by (pool_init ls cap) pool_step (pool, held)" and "l \<in> set held"
  shows "\<not> bad r (host l) (port l)"
proof -
  have "pool_inv ls cap (pool, held)" using lease_pool.reachable_inv[OF assms(2)] .
  then have "l \<in> set ls" using assms(3) by (auto simp: pool_inv_def)
  with assms(1) show ?thesis by (rule allowed_not_bad)
qed

end

lemma is_known_bad_None:
  "is_known_bad r hst prt = None \<longleftrightarrow>
     (\<forall>p \<in> set (providers r). \<forall>b \<in> set (known_bad_ports p). \<not> covers b hst prt)"
  by (auto simp: is_known_bad_def find_None_iff)

lemma covers_iff: "covers b hst prt \<longleftrightarrow> kb_host b = hst \<and> prt \<in> set (all_ports b)"
  by (auto simp: covers_def all_ports_def split: option.split)

interpretation registry: allowlist_source allowlist_for "\<lambda>r hst prt. is_known_bad r hst prt \<noteq> None"
  by unfold_locales (auto simp: allowlist_for_def split: option.splits)

lemma select_loop_cases:
  "(case select_loop r prov purp ls of
      Inr l \<Rightarrow> l \<in> set ls \<and> is_known_bad r (rl_host l) (rl_port l) = None
        \<and> (\<exists>s. purpose l = Some s \<and> contains (to_lowercase s) (to_lowercase purp))
    | Inl (KnownBad h p out) \<Rightarrow> (\<exists>l \<in> set ls. rl_host l = h \<and> rl_port l = p)
        \<and> (\<exists>b. is_known_bad r h p = Some b \<and> outcome b = out)
    | Inl (NoListenerForPurpose pv pp) \<Rightarrow> pv = prov \<and> pp = purp
        \<and> (\<forall>l \<in> set ls. \<forall>s. purpose l = Some s \<longrightarrow> \<not> contains (to_lowercase s) (to_lowercase purp))
    | Inl (UnknownProvider _ _) \<Rightarrow> False)"
  by (induction ls) (auto simp: Let_def split: option.splits sum.splits SelectionError.splits)

section \<open>Properties\<close>

text \<open>C6: end to end, no listener a lease pool ever hands out was recorded as bad: for a pool built
  on the allowlist of any provider, in every reachable state, no live lease is covered by any
  known-bad entry of any provider of the registry.\<close>

theorem no_known_bad_lease:
  assumes "allowlist_for r prov = Inr ls" and "reachable_by (pool_init ls cap) pool_step (pool, held)"
    and "l \<in> set held" and "p \<in> set (providers r)" and "b \<in> set (known_bad_ports p)"
  shows "\<not> (kb_host b = host l \<and> port l \<in> set (all_ports b))"
  using registry.leases_not_bad[OF assms(1-3)] assms(4,5) by (auto simp: is_known_bad_None covers_iff)

definition sample_registry :: EndpointRegistry where
  "sample_registry = \<lparr>schema_version = 1, registry_note = None, providers = [
     \<lparr>provider_name = ''x'', documentation = None, authorization = None,
      listeners = [
        \<lparr>rl_host = ''h'', rl_port = 5202, region_label = None, rl_transport = [], verified = None,
         verified_on = None, purpose = Some ''Upload'', observed = None\<rparr>,
        \<lparr>rl_host = ''h'', rl_port = 5201, region_label = None, rl_transport = [], verified = None,
         verified_on = None, purpose = Some ''Download'', observed = None\<rparr>],
      known_bad_ports = [
        \<lparr>kb_host = ''h'', kb_port = None, kb_ports = [5202, 5203], outcome = ''refused'', kb_verified_on = None,
         must_not_be_recorded_as = None, why_it_matters = None\<rparr>],
      caveats = []\<rparr>]\<rparr>"

lemma sample_allowlist: "allowlist_for sample_registry ''x'' = Inr [\<lparr>host = ''h'', port = 5201\<rparr>]"
  by (simp add: allowlist_for_def provider_def sample_registry_def is_known_bad_def covers_def)

theorem no_known_bad_lease_witness:
  "\<exists>pool held l b. reachable_by (pool_init [\<lparr>host = ''h'', port = 5201\<rparr>] 1) pool_step (pool, held) \<and> l \<in> set held
     \<and> b \<in> set (known_bad_ports (hd (providers sample_registry)))
     \<and> \<not> (kb_host b = host l \<and> port l \<in> set (all_ports b))"
proof -
  let ?l = "\<lparr>host = ''h'', port = 5201\<rparr>" and ?p = "pool_new [\<lparr>host = ''h'', port = 5201\<rparr>] 1"
  have "lease ?p = (Inr ?l, ?p\<lparr>in_use := {5201}\<rparr>)" by (simp add: lease_def pool_new_def)
  then have r: "reachable_by (pool_init [?l] 1) pool_step (?p\<lparr>in_use := {5201}\<rparr>, [?l])"
    by (intro reachable_by.more[OF reachable_by.start[of _ "(?p, [])"]] lease_ok) (auto simp: pool_init_def)
  have b: "hd (known_bad_ports (hd (providers sample_registry))) \<in> set (known_bad_ports (hd (providers sample_registry)))"
    and p: "hd (providers sample_registry) \<in> set (providers sample_registry)"
    by (simp_all add: sample_registry_def)
  have "\<not> (kb_host (hd (known_bad_ports (hd (providers sample_registry)))) = host ?l
      \<and> port ?l \<in> set (all_ports (hd (known_bad_ports (hd (providers sample_registry))))))"
    using no_known_bad_lease[OF sample_allowlist r _ p b, of ?l] by simp
  with r b show ?thesis by (metis list.set_intros(1))
qed

text \<open>Selection by purpose. A selected listener belongs to the named provider, serves the
  purpose (ignoring case) and is not recorded as bad; a \<open>KnownBad\<close> error names a listener of the
  provider that is recorded as bad, with the recorded outcome; \<open>NoListenerForPurpose\<close> means that
  none serves it; \<open>UnknownProvider\<close> is returned exactly when no provider has the name, and lists
  the ones there are.\<close>

theorem select_spec:
  "(case Endpoint_Registry.select r prov purp of
      Inr l \<Rightarrow> (\<exists>p. provider r prov = Some p \<and> l \<in> set (listeners p))
        \<and> is_known_bad r (rl_host l) (rl_port l) = None
        \<and> (\<exists>s. purpose l = Some s \<and> contains (to_lowercase s) (to_lowercase purp))
    | Inl (KnownBad h prt out) \<Rightarrow>
        (\<exists>p. provider r prov = Some p \<and> (\<exists>l \<in> set (listeners p). rl_host l = h \<and> rl_port l = prt))
        \<and> (\<exists>b. is_known_bad r h prt = Some b \<and> outcome b = out)
    | Inl (NoListenerForPurpose pv pp) \<Rightarrow> pv = prov \<and> pp = purp
        \<and> (\<exists>p. provider r prov = Some p \<and> \<not> (\<exists>l \<in> set (listeners p). \<exists>s. purpose l = Some s
             \<and> contains (to_lowercase s) (to_lowercase purp)))
    | Inl (UnknownProvider name names) \<Rightarrow> name = prov \<and> names = map provider_name (providers r)
        \<and> prov \<notin> set names)"
proof (cases "provider r prov")
  case None
  then have "prov \<notin> set (map provider_name (providers r))" by (auto simp: provider_def find_None_iff)
  with None show ?thesis by (simp add: select_def provider_names_def)
next
  case (Some p)
  then show ?thesis
    using select_loop_cases[where r = r and prov = prov and purp = purp and ls = "listeners p"]
    by (auto simp: select_def split: sum.splits SelectionError.splits)
qed

text \<open>A known-bad listener does not hide behind a later good one in a selection, but it does not
  stop the allowlist: a purpose whose first match is recorded as bad is refused, even when another
  listener of the provider serves it, while the allowlist still offers that other listener.\<close>

theorem select_stops_at_first_bad:
  assumes p: "provider r prov = Some p" and ls: "listeners p = pre @ l # post"
    and pre: "\<forall>x \<in> set pre. case purpose x of None \<Rightarrow> True | Some s \<Rightarrow> \<not> contains (to_lowercase s) (to_lowercase purp)"
    and l: "purpose l = Some s" "contains (to_lowercase s) (to_lowercase purp)"
    and b: "is_known_bad r (rl_host l) (rl_port l) = Some b"
  shows "select r prov purp = Inl (KnownBad (rl_host l) (rl_port l) (outcome b))
    \<and> (\<forall>ls. allowlist_for r prov = Inr ls \<longrightarrow>
         (\<forall>x \<in> set post. is_known_bad r (rl_host x) (rl_port x) = None \<longrightarrow>
            \<lparr>host = rl_host x, port = rl_port x\<rparr> \<in> set ls))"
proof -
  have "select_loop r prov purp (pre @ l # post) = Inl (KnownBad (rl_host l) (rl_port l) (outcome b))"
    using pre by (induction pre) (auto simp: l b Let_def split: option.splits)
  then show ?thesis using p ls by (auto simp: select_def allowlist_for_def)
qed

theorem select_stops_at_first_bad_witness:
  "select sample_registry ''x'' ''load'' = Inl (KnownBad ''h'' 5202 ''refused'')"
proof -
  let ?p = "hd (providers sample_registry)"
  let ?l = "hd (listeners ?p)" and ?l2 = "last (listeners ?p)" and ?b = "hd (known_bad_ports ?p)"
  have p: "provider sample_registry ''x'' = Some ?p" by (simp add: provider_def sample_registry_def)
  have ls: "listeners ?p = [] @ ?l # [?l2]" by (simp add: sample_registry_def)
  have m: "purpose ?l = Some ''Upload''" by (simp add: sample_registry_def)
  have c: "contains (to_lowercase ''Upload'') (to_lowercase ''load'')" by code_simp
  have b: "is_known_bad sample_registry (rl_host ?l) (rl_port ?l) = Some ?b"
    by (simp add: is_known_bad_def covers_def sample_registry_def)
  show ?thesis using select_stops_at_first_bad[OF p ls _ m c b] by (simp add: sample_registry_def)
qed

end
