(* ===== verification/Iperf.thy ===== *)
theory Iperf
  imports F64 "HOL-Library.Monad_Syntax"
begin

text \<open>
  \<open>network_tests/iperf.rs\<close>: reading an iperf3 \<open>-J\<close> document and probing named listeners.

  The JSON library \<open>serde_json\<close> is the argument \<open>js\<close>, a record of the accessors the source calls
  on a \<open>Value\<close> (of any type); the iperf3 process is the argument \<open>exec\<close>, from its command line to
  its standard output or the reason it could not run. No law of either is needed.
\<close>

record 'v SerdeJson =
  from_str :: "string \<Rightarrow> string + 'v"
  get :: "'v \<Rightarrow> string \<Rightarrow> 'v option"
  as_str :: "'v \<Rightarrow> string option"
  as_u64 :: "'v \<Rightarrow> u64 option"
  as_f64 :: "'v \<Rightarrow> f64 option"
  as_array :: "'v \<Rightarrow> 'v list option"

section \<open>Versions\<close>

record IperfVersion =
  major :: u32
  minor :: u32

definition version_parse :: "string \<Rightarrow> IperfVersion option" where
  "version_parse text =
     (case List.find (\<lambda>tok. tok \<noteq> [] \<and> is_digit (hd tok)) (split_whitespace text) of
        None \<Rightarrow> None
      | Some digits \<Rightarrow>
          (case split_on (CHR ''.'') digits of
             [] \<Rightarrow> None
           | ma # rest \<Rightarrow>
               (case parse_uint ma of
                  None \<Rightarrow> None
                | Some maj \<Rightarrow>
                    (case parse_uint (takeWhile is_digit (case rest of [] \<Rightarrow> ''0'' | mi # _ \<Rightarrow> mi)) of
                       None \<Rightarrow> None
                     | Some mn \<Rightarrow> Some \<lparr>major = maj, minor = mn\<rparr>))))"

definition supports_bidir_reliably :: "IperfVersion \<Rightarrow> bool" where
  "supports_bidir_reliably v \<longleftrightarrow> 3 < major v \<or> (major v = 3 \<and> 16 \<le> minor v)"

definition detect_local_version :: "(string list \<Rightarrow> string + (bool \<times> string)) \<Rightarrow> IperfVersion option" where
  "detect_local_version exec =
     (case exec [''-v''] of
        Inl _ \<Rightarrow> None
      | Inr (success, out) \<Rightarrow> if \<not> success then None else version_parse out)"

section \<open>Rate samples\<close>

record RateSample =
  bits_per_second :: f64
  bytes :: u64
  seconds :: f64
  packets :: "u64 option"
  lost_percent :: "f64 option"

definition is_hollow :: "RateSample \<Rightarrow> bool" where
  "is_hollow s = (case packets s of Some p \<Rightarrow> p = 0 | None \<Rightarrow> bytes s = 0)"

definition parse_rate_sample :: "'v SerdeJson \<Rightarrow> 'v \<Rightarrow> RateSample option" where
  "parse_rate_sample js v =
     do { bps \<leftarrow> Option.bind (get js v ''bits_per_second'') (as_f64 js);
          byts \<leftarrow> Option.bind (get js v ''bytes'') (as_u64 js);
          Some \<lparr>bits_per_second = bps, bytes = byts,
                seconds = unwrap_or (Option.bind (get js v ''seconds'') (as_f64 js)) (Fin 0),
                packets = Option.bind (get js v ''packets'') (as_u64 js),
                lost_percent = Option.bind (get js v ''lost_percent'') (as_f64 js)\<rparr> }"

record RateEvidence =
  offered_bps :: "f64 option"
  sent :: "RateSample option"
  received :: "RateSample option"
  estimated_received :: "RateSample option"

datatype TestDirection = Forward | Reverse | Bidirectional

record IperfResult =
  ir_version :: "IperfVersion option"
  protocol :: string
  direction :: TestDirection
  forward :: RateEvidence
  bidir_reverse :: "RateEvidence option"
  required_fields_missing :: "string list"

datatype IperfParseError = InvalidJson string | ServerError string | MissingField string

definition iperf_error_display :: "IperfParseError \<Rightarrow> string" where
  "iperf_error_display e =
     (case e of
        InvalidJson d \<Rightarrow> ''invalid JSON: '' @ d
      | ServerError d \<Rightarrow> ''iperf3 reported an error before any result was produced: '' @ d
      | MissingField d \<Rightarrow> ''missing required field: '' @ d)"

text \<open>\<open>Option::filter\<close>\<close>

definition opt_filter :: "('a \<Rightarrow> bool) \<Rightarrow> 'a option \<Rightarrow> 'a option" where
  "opt_filter P x = (case x of None \<Rightarrow> None | Some v \<Rightarrow> if P v then Some v else None)"

definition solid_sample :: "'v SerdeJson \<Rightarrow> 'v \<Rightarrow> string \<Rightarrow> RateSample option" where
  "solid_sample js endv name =
     opt_filter (\<lambda>s. \<not> is_hollow s) (Option.bind (get js endv name) (parse_rate_sample js))"

definition note_missing :: "'v SerdeJson \<Rightarrow> 'v \<Rightarrow> string list \<Rightarrow> string list" where
  "note_missing js endv names = filter (\<lambda>n. get js endv n = None) names"

definition parse_iperf_json :: "'v SerdeJson \<Rightarrow> string \<Rightarrow> IperfParseError + IperfResult" where
  "parse_iperf_json js text =
     (case from_str js text of
        Inl e \<Rightarrow> Inl (InvalidJson e)
      | Inr v \<Rightarrow>
          (case Option.bind (get js v ''error'') (as_str js) of
             Some err \<Rightarrow> Inl (ServerError err)
           | None \<Rightarrow>
               let start = get js v ''start'';
                   version = Option.bind (Option.bind (Option.bind start (\<lambda>s. get js s ''version'')) (as_str js)) version_parse;
                   test_start = Option.bind start (\<lambda>s. get js s ''test_start'');
                   proto = unwrap_or (Option.bind (Option.bind test_start (\<lambda>t. get js t ''protocol'')) (as_str js)) ''unknown'';
                   bidir = (unwrap_or (Option.bind (Option.bind test_start (\<lambda>t. get js t ''bidir'')) (as_u64 js)) 0 \<noteq> 0);
                   rvs = (unwrap_or (Option.bind (Option.bind test_start (\<lambda>t. get js t ''reverse'')) (as_u64 js)) 0 \<noteq> 0);
                   dir = (if bidir then Bidirectional else if rvs then Reverse else Forward)
               in case get js v ''end'' of
                    None \<Rightarrow> Inl (MissingField ''end'')
                  | Some endv \<Rightarrow>
                      let offered = opt_filter (\<lambda>b. f64_lt (Fin 0) b)
                            (Option.bind (Option.bind test_start (\<lambda>t. get js t ''target_bitrate'')) (as_f64 js));
                          fwd = \<lparr>offered_bps = offered, sent = solid_sample js endv ''sum_sent'',
                                 received = solid_sample js endv ''sum_received'',
                                 estimated_received = Option.bind (get js endv ''sum'') (parse_rate_sample js)\<rparr>;
                          bid = (if bidir
                                 then Some \<lparr>offered_bps = offered, sent = solid_sample js endv ''sum_sent_bidir_reverse'',
                                            received = solid_sample js endv ''sum_received_bidir_reverse'',
                                            estimated_received = None\<rparr>
                                 else None);
                          missing = note_missing js endv [''sum_sent'', ''sum_received'']
                            @ (if bidir then note_missing js endv [''sum_sent_bidir_reverse'', ''sum_received_bidir_reverse''] else [])
                      in Inr \<lparr>ir_version = version, protocol = proto, direction = dir, forward = fwd,
                              bidir_reverse = bid, required_fields_missing = missing\<rparr>))"

section \<open>Running iperf3\<close>

definition client_args :: "string \<Rightarrow> u16 \<Rightarrow> u32 \<Rightarrow> bool \<Rightarrow> bool \<Rightarrow> bool \<Rightarrow> string option \<Rightarrow> string option \<Rightarrow> string list" where
  "client_args hst prt duration_secs rvs bidir udp target_bitrate bind_interface =
     [''-c'', hst, ''-p'', show_word prt, ''-t'', show_word duration_secs, ''-J'']
     @ (if rvs then [''-R''] else []) @ (if bidir then [''--bidir''] else []) @ (if udp then [''-u''] else [])
     @ (case target_bitrate of Some rate \<Rightarrow> [''-b'', rate] | None \<Rightarrow> [])
     @ (case bind_interface of Some iface \<Rightarrow> [''--bind-dev'', iface] | None \<Rightarrow> [])"

definition run_iperf_client :: "'v SerdeJson \<Rightarrow> (string list \<Rightarrow> string + string) \<Rightarrow> string \<Rightarrow> u16 \<Rightarrow> u32 \<Rightarrow>
    bool \<Rightarrow> bool \<Rightarrow> bool \<Rightarrow> string option \<Rightarrow> string option \<Rightarrow> IperfParseError + IperfResult" where
  "run_iperf_client js exec hst prt duration_secs rvs bidir udp target_bitrate bind_interface =
     (case exec (client_args hst prt duration_secs rvs bidir udp target_bitrate bind_interface) of
        Inl e \<Rightarrow> Inl (InvalidJson (''failed to run iperf3: '' @ e))
      | Inr text \<Rightarrow> parse_iperf_json js text)"

record EndpointAllowlist =
  ea_host :: string
  ea_ports :: "u16 list"

record ListenerCapability =
  lc_port :: u16
  reachable :: bool
  lc_version :: "IperfVersion option"
  supports_bidir :: "bool option"
  lc_detail :: string

definition probe_args :: "string \<Rightarrow> u16 \<Rightarrow> u32 \<Rightarrow> string list" where
  "probe_args hst prt connect_timeout_ms =
     [''-c'', hst, ''-p'', show_word prt, ''-n'', ''16'', ''-J'', ''--connect-timeout'', show_word connect_timeout_ms]"

definition probe_one_listener :: "'v SerdeJson \<Rightarrow> (string list \<Rightarrow> string + string) \<Rightarrow> string \<Rightarrow> u32 \<Rightarrow> u16 \<Rightarrow>
    ListenerCapability" where
  "probe_one_listener js exec hst connect_timeout_ms prt =
     (case exec (probe_args hst prt connect_timeout_ms) of
        Inl e \<Rightarrow> \<lparr>lc_port = prt, reachable = False, lc_version = None, supports_bidir = None,
                   lc_detail = ''failed to run iperf3: '' @ e\<rparr>
      | Inr text \<Rightarrow>
          (case parse_iperf_json js text of
             Inr r \<Rightarrow> \<lparr>lc_port = prt, reachable = True, lc_version = ir_version r,
                        supports_bidir = map_option supports_bidir_reliably (ir_version r),
                        lc_detail = ''listener answered''\<rparr>
           | Inl (ServerError e) \<Rightarrow> \<lparr>lc_port = prt, reachable = False, lc_version = None,
                                       supports_bidir = None, lc_detail = e\<rparr>
           | Inl e \<Rightarrow> \<lparr>lc_port = prt, reachable = False, lc_version = None, supports_bidir = None,
                        lc_detail = ''parse error: '' @ iperf_error_display e\<rparr>))"

text \<open>The ports in the order they are contacted; the \<open>debug_assert\<close> on duplicates is a panic of
  debug builds only and is not part of the model.\<close>

definition discover_listeners :: "'v SerdeJson \<Rightarrow> (string list \<Rightarrow> string + string) \<Rightarrow> EndpointAllowlist \<Rightarrow> u32 \<Rightarrow>
    ListenerCapability list" where
  "discover_listeners js exec al connect_timeout_ms =
     map (probe_one_listener js exec (ea_host al) connect_timeout_ms) (ea_ports al)"

definition select_independent_listener :: "ListenerCapability list \<Rightarrow> ListenerCapability option" where
  "select_independent_listener capabilities = List.find reachable capabilities"

section \<open>Lemmas\<close>

lemma not_hollow_iff: "\<not> is_hollow s \<longleftrightarrow> (case packets s of Some p \<Rightarrow> p \<noteq> 0 | None \<Rightarrow> bytes s \<noteq> 0)"
  by (simp add: is_hollow_def split: option.split)

lemma solid_sample_not_hollow: "solid_sample js endv n = Some s \<Longrightarrow> \<not> is_hollow s"
  by (auto simp: solid_sample_def opt_filter_def split: option.splits if_splits)

lemma parse_iperf_Inr:
  assumes "parse_iperf_json js text = Inr r"
  shows "\<exists>v endv. from_str js text = Inr v \<and> Option.bind (get js v ''error'') (as_str js) = None
    \<and> get js v ''end'' = Some endv
    \<and> sent (forward r) = solid_sample js endv ''sum_sent''
    \<and> received (forward r) = solid_sample js endv ''sum_received''
    \<and> (\<forall>e. bidir_reverse r = Some e \<longrightarrow> direction r = Bidirectional
        \<and> sent e = solid_sample js endv ''sum_sent_bidir_reverse''
        \<and> received e = solid_sample js endv ''sum_received_bidir_reverse'')
    \<and> (bidir_reverse r = None \<longrightarrow> direction r \<noteq> Bidirectional)
    \<and> (\<forall>b. offered_bps (forward r) = Some b \<longrightarrow> f64_lt (Fin 0) b)"
  using assms
  by (auto simp: parse_iperf_json_def Let_def opt_filter_def split: sum.splits option.splits if_splits)

section \<open>Properties\<close>

text \<open>A parsed document carries no synthesized figure. The document had no top-level error and
  had an \<open>end\<close> block; every sent or received sample, forward or reverse, measured something (packets
  for UDP, bytes for TCP); an offered rate is positive; and a reverse direction is present exactly
  for a bidirectional test.\<close>

theorem iperf_no_hollow_rates:
  assumes "parse_iperf_json js text = Inr r"
  shows "(\<exists>v endv. from_str js text = Inr v \<and> Option.bind (get js v ''error'') (as_str js) = None
        \<and> get js v ''end'' = Some endv)
    \<and> (\<forall>e s. e \<in> insert (forward r) (set_option (bidir_reverse r)) \<and> (sent e = Some s \<or> received e = Some s)
        \<longrightarrow> (case packets s of Some p \<Rightarrow> p \<noteq> 0 | None \<Rightarrow> bytes s \<noteq> 0))
    \<and> (\<forall>b. offered_bps (forward r) = Some b \<longrightarrow> f64_lt (Fin 0) b)
    \<and> (bidir_reverse r \<noteq> None \<longleftrightarrow> direction r = Bidirectional)"
proof -
  from parse_iperf_Inr[OF assms] obtain v endv where
    r: "from_str js text = Inr v" "Option.bind (get js v ''error'') (as_str js) = None"
    "get js v ''end'' = Some endv"
    "sent (forward r) = solid_sample js endv ''sum_sent''"
    "received (forward r) = solid_sample js endv ''sum_received''"
    "\<forall>e. bidir_reverse r = Some e \<longrightarrow> direction r = Bidirectional
        \<and> sent e = solid_sample js endv ''sum_sent_bidir_reverse''
        \<and> received e = solid_sample js endv ''sum_received_bidir_reverse''"
    "bidir_reverse r = None \<longrightarrow> direction r \<noteq> Bidirectional"
    "\<forall>b. offered_bps (forward r) = Some b \<longrightarrow> f64_lt (Fin 0) b"
    by (elim exE conjE)
  have "\<not> is_hollow s" if "e \<in> insert (forward r) (set_option (bidir_reverse r))"
    "sent e = Some s \<or> received e = Some s" for e s
  proof -
    have "\<exists>n. solid_sample js endv n = Some s"
      using that r(4,5) r(6)[rule_format, of e] by (metis elem_set insert_iff)
    then show ?thesis by (auto dest: solid_sample_not_hollow)
  qed
  then have "\<forall>e s. e \<in> insert (forward r) (set_option (bidir_reverse r)) \<and> (sent e = Some s \<or> received e = Some s)
        \<longrightarrow> (case packets s of Some p \<Rightarrow> p \<noteq> 0 | None \<Rightarrow> bytes s \<noteq> 0)"
    unfolding not_hollow_iff by blast
  moreover have "bidir_reverse r \<noteq> None \<longleftrightarrow> direction r = Bidirectional" using r(6,7) by blast
  ultimately show ?thesis using r(1-3,8) by blast
qed

text \<open>A small JSON type for the concrete documents of the witnesses.\<close>

datatype Json = JNum nat | JStr string | JArr "Json list" | JObj "(string \<times> Json) list"

definition json_ops :: "(string \<Rightarrow> string + Json) \<Rightarrow> Json SerdeJson" where
  "json_ops parse = \<lparr>from_str = parse,
     get = (\<lambda>v k. case v of JObj kvs \<Rightarrow> map_of kvs k | _ \<Rightarrow> None),
     as_str = (\<lambda>v. case v of JStr s \<Rightarrow> Some s | _ \<Rightarrow> None),
     as_u64 = (\<lambda>v. case v of JNum n \<Rightarrow> Some (of_nat n) | _ \<Rightarrow> None),
     as_f64 = (\<lambda>v. case v of JNum n \<Rightarrow> Some (Fin (of_nat n)) | _ \<Rightarrow> None),
     as_array = (\<lambda>v. case v of JArr vs \<Rightarrow> Some vs | _ \<Rightarrow> None)\<rparr>"

text \<open>A UDP reverse document: the sender's block counts no packet, nor does the legacy block.\<close>

definition udp_reverse_doc :: Json where
  "udp_reverse_doc = JObj [
     (''start'', JObj [(''connected'', JArr [JNum 5]), (''test_start'', JObj [(''reverse'', JNum 1)])]),
     (''end'', JObj [
        (''sum_sent'', JObj [(''bits_per_second'', JNum 7), (''bytes'', JNum 9), (''packets'', JNum 0)]),
        (''sum_received'', JObj [(''bits_per_second'', JNum 800), (''bytes'', JNum 100), (''packets'', JNum 3)]),
        (''sum'', JObj [(''bits_per_second'', JNum 7), (''bytes'', JNum 0), (''packets'', JNum 0)])])]"

lemma udp_reverse_parse:
  "\<exists>r. parse_iperf_json (json_ops (\<lambda>_. Inr udp_reverse_doc)) ''doc'' = Inr r
    \<and> sent (forward r) = None \<and> map_option bits_per_second (received (forward r)) = Some (Fin 800)
    \<and> (\<exists>s. estimated_received (forward r) = Some s \<and> is_hollow s)
    \<and> direction r = Reverse \<and> bidir_reverse r = None"
  by (simp add: parse_iperf_json_def json_ops_def udp_reverse_doc_def solid_sample_def parse_rate_sample_def
      opt_filter_def is_hollow_def unwrap_or_def Let_def)

theorem iperf_no_hollow_rates_witness:
  "\<exists>r s. parse_iperf_json (json_ops (\<lambda>_. Inr udp_reverse_doc)) ''doc'' = Inr r \<and> received (forward r) = Some s
    \<and> (case packets s of Some p \<Rightarrow> p \<noteq> 0 | None \<Rightarrow> bytes s \<noteq> 0)"
proof -
  obtain r where r: "parse_iperf_json (json_ops (\<lambda>_. Inr udp_reverse_doc)) ''doc'' = Inr r"
    and "map_option bits_per_second (received (forward r)) = Some (Fin 800)"
    using udp_reverse_parse by blast
  then obtain s where s: "received (forward r) = Some s" by auto
  with r iperf_no_hollow_rates[OF r] show ?thesis by blast
qed

text \<open>The legacy \<open>sum\<close> block is the exception: a document can yield an estimated received rate
  whose block counted no packet at all, although the documentation of the rate kinds says a hollow
  block is never reported.\<close>

theorem iperf_estimated_can_be_hollow:
  "\<exists>r s. parse_iperf_json (json_ops (\<lambda>_. Inr udp_reverse_doc)) ''doc'' = Inr r
    \<and> estimated_received (forward r) = Some s \<and> packets s = Some 0 \<and> bits_per_second s = Fin 7"
  by (simp add: parse_iperf_json_def json_ops_def udp_reverse_doc_def solid_sample_def parse_rate_sample_def
      opt_filter_def is_hollow_def unwrap_or_def Let_def)

text \<open>Listener discovery contacts exactly the ports of the allowlist, in order, one transfer of
  16 bytes each, and marks a listener reachable only if iperf3 ran and returned a result without an
  error; the listener it selects answered, and none is selected only when none answered.\<close>

theorem discovery_named_ports_only:
  "map lc_port (discover_listeners js exec al ms) = ea_ports al
   \<and> (\<forall>c \<in> set (discover_listeners js exec al ms). reachable c \<longleftrightarrow>
        (\<exists>text r. exec [''-c'', ea_host al, ''-p'', show_word (lc_port c), ''-n'', ''16'', ''-J'',
                         ''--connect-timeout'', show_word ms] = Inr text
                \<and> parse_iperf_json js text = Inr r))
   \<and> (case select_independent_listener (discover_listeners js exec al ms) of
        Some c \<Rightarrow> c \<in> set (discover_listeners js exec al ms) \<and> reachable c
      | None \<Rightarrow> \<not> (\<exists>c \<in> set (discover_listeners js exec al ms). reachable c))"
proof -
  have p: "lc_port (probe_one_listener js exec h ms prt) = prt"
    "reachable (probe_one_listener js exec h ms prt) \<longleftrightarrow>
       (\<exists>text r. exec (probe_args h prt ms) = Inr text \<and> parse_iperf_json js text = Inr r)" for h prt
    by (auto simp: probe_one_listener_def split: sum.split IperfParseError.split)
  have "map lc_port (discover_listeners js exec al ms) = ea_ports al"
    by (simp add: discover_listeners_def p comp_def)
  moreover have "\<forall>c \<in> set (discover_listeners js exec al ms). reachable c \<longleftrightarrow>
        (\<exists>text r. exec (probe_args (ea_host al) (lc_port c) ms) = Inr text \<and> parse_iperf_json js text = Inr r)"
    by (auto simp: discover_listeners_def p)
  ultimately show ?thesis unfolding select_independent_listener_def probe_args_def
    by (auto simp: find_None_iff find_Some_iff split: option.split)
qed

text \<open>A version string prints and reads back: for every major and minor number the text iperf3
  puts in \<open>start.version\<close> parses to that version, and the bidirectional mode is trusted exactly from
  3.16 on.\<close>

theorem version_round_trip:
  "version_parse (''iperf '' @ show_word ma @ ''.'' @ show_word mi) = Some \<lparr>major = ma, minor = mi\<rparr>
   \<and> (supports_bidir_reliably \<lparr>major = ma, minor = mi\<rparr> \<longleftrightarrow>
        4 \<le> unat ma \<or> (unat ma = 3 \<and> 16 \<le> unat mi))"
proof -
  let ?t = "show_word ma @ ''.'' @ show_word mi"
  have d: "CHR ''.'' \<notin> set (show_word ma)" "CHR ''.'' \<notin> set (show_word mi)"
    by (auto dest!: show_word_digits simp: is_digit_def)
  have ns: "\<forall>c \<in> set ?t. \<not> is_space c"
    by (auto dest: show_word_digits digit_not_space) (simp add: is_space_iff)
  have "split_whitespace (''iperf '' @ ?t) = ''iperf'' # split_whitespace ?t"
    using split_whitespace_word(2)[of "''iperf''" "CHR '' ''" ?t] by (simp add: is_space_iff)
  also have "split_whitespace ?t = [?t]" using split_whitespace_word(1)[OF ns] by simp
  finally have w: "split_whitespace (''iperf '' @ ?t) = [''iperf'', ?t]" .
  have h: "is_digit (hd ?t)" using show_word_digits[of "hd (show_word ma)" ma] by simp
  have s: "split_on (CHR ''.'') ?t = [show_word ma, show_word mi]"
    using split_on_append[OF d(1), of "show_word mi"] split_on_absent[OF d(2)] by simp
  have tw: "takeWhile is_digit (show_word mi) = show_word mi"
    by (simp add: show_word_digits)
  have "\<not> is_digit (CHR ''i'')" by (simp add: is_digit_def)
  then have "version_parse (''iperf '' @ ?t) = Some \<lparr>major = ma, minor = mi\<rparr>"
    using h unfolding version_parse_def w by (simp add: s[unfolded append.simps append_Nil append_Cons] tw)
  moreover have "3 < ma \<longleftrightarrow> 4 \<le> unat ma" "ma = 3 \<longleftrightarrow> unat ma = 3" "16 \<le> mi \<longleftrightarrow> 16 \<le> unat mi"
    by (auto simp: word_less_nat_alt word_le_nat_alt word_unat_eq_iff)
  ultimately show ?thesis by (simp add: supports_bidir_reliably_def)
qed

end
