(* ===== verification/Listener_Admission.thy ===== *)
theory Listener_Admission
  imports Iperf
begin

text \<open>
  \<open>network_tests/listener_admission.rs\<close>: a fanout of sessions released together, and the cohort
  that may be aggregated. Each session thread observes its surroundings once (\<open>SessionObs\<close>): when
  it was released, what the runner answered before the safety timeout (\<open>None\<close> is the timeout), how
  long it took and whether the thread panicked. The threads share the release reference: it is the
  release time of the thread that took its lock first, whose index (modulo the number of threads) is
  \<open>first_locker\<close>.
\<close>

record ListenerTarget =
  lt_host :: string
  lt_port :: u16
  pool_label :: string

datatype AdmissionOutcome =
    FullyAdmitted u64
  | PartiallyAdmitted u64 u64
  | NeverAdmitted string
  | SafetyTimeout f64

definition is_admitted :: "AdmissionOutcome \<Rightarrow> bool" where
  "is_admitted x = (case x of FullyAdmitted _ \<Rightarrow> True | _ \<Rightarrow> False)"

definition reason :: "AdmissionOutcome \<Rightarrow> string" where
  "reason x =
     (case x of
        FullyAdmitted _ \<Rightarrow> ''fully admitted''
      | PartiallyAdmitted _ _ \<Rightarrow> ''partial stream admission''
      | NeverAdmitted _ \<Rightarrow> ''connection never admitted''
      | SafetyTimeout _ \<Rightarrow> ''safety timeout before completion'')"

record SessionResult =
  target :: ListenerTarget
  sr_outcome :: AdmissionOutcome
  start_skew_ms :: i64
  sr_receiver_bps :: "f64 option"

definition streams_established :: "'v SerdeJson \<Rightarrow> string \<Rightarrow> u64" where
  "streams_established js raw_json =
     unwrap_or (Option.bind (result_ok (from_str js raw_json))
       (\<lambda>v. Option.bind (get js v ''start'') (\<lambda>s. Option.bind (get js s ''connected'')
         (\<lambda>c. map_option (\<lambda>a. of_nat (length a)) (as_array js c))))) 0"

definition classify_result :: "'v SerdeJson \<Rightarrow> string \<Rightarrow> u64 \<Rightarrow> AdmissionOutcome" where
  "classify_result js raw_json requested_streams =
     (let established = streams_established js raw_json in
      case parse_iperf_json js raw_json of
        Inl (ServerError detail) \<Rightarrow> NeverAdmitted detail
      | Inl e \<Rightarrow> NeverAdmitted (iperf_error_display e)
      | Inr _ \<Rightarrow>
          if established = 0 then NeverAdmitted ''no streams reported in start.connected''
          else if established < requested_streams then PartiallyAdmitted established requested_streams
          else FullyAdmitted established)"

definition receiver_bps :: "'v SerdeJson \<Rightarrow> string \<Rightarrow> f64 option" where
  "receiver_bps js raw_json =
     Option.bind (result_ok (parse_iperf_json js raw_json))
       (\<lambda>r. map_option bits_per_second (received (forward r)))"

section \<open>The fanout\<close>

record SessionObs =
  released_at :: nat \<comment> \<open>nanoseconds\<close>
  reply :: "(string + string) option"
  obs_elapsed_ns :: nat
  panicked :: bool

definition start_skew :: "nat \<Rightarrow> nat \<Rightarrow> i64" where
  "start_skew reference released = of_nat ((released - reference) div 1000000)"

definition session_thread :: "'v SerdeJson \<Rightarrow> u64 \<Rightarrow> nat \<Rightarrow> ListenerTarget \<Rightarrow> SessionObs \<Rightarrow> SessionResult option" where
  "session_thread js requested_streams reference tgt ob =
     (if panicked ob then None
      else let (out, bps) =
             (case reply ob of
                Some (Inr raw_json) \<Rightarrow>
                  let o1 = classify_result js raw_json requested_streams
                  in (o1, if is_admitted o1 then receiver_bps js raw_json else None)
              | Some (Inl e) \<Rightarrow> (NeverAdmitted e, None)
              | None \<Rightarrow> (SafetyTimeout (as_secs_f64 (obs_elapsed_ns ob)), None))
           in Some \<lparr>target = tgt, sr_outcome = out, start_skew_ms = start_skew reference (released_at ob),
                    sr_receiver_bps = bps\<rparr>)"

definition run_admission_fanout :: "'v SerdeJson \<Rightarrow> (ListenerTarget \<times> SessionObs) list \<Rightarrow> u64 \<Rightarrow> nat \<Rightarrow>
    SessionResult list" where
  "run_admission_fanout js targets requested_streams first_locker =
     (if targets = [] then []
      else filter_map (\<lambda>(tgt, ob). session_thread js requested_streams
             (released_at (snd (targets ! (first_locker mod length targets)))) tgt ob) targets)"

section \<open>The cohort\<close>

record AdmissionCohort =
  requested_streams :: u64
  results :: "SessionResult list"
  minimum_valid_cohort :: nat
  max_start_skew_ms :: i64

text \<open>\<open>unsigned_abs() as i64\<close>: the most negative value stays itself.\<close>

definition unsigned_abs_as_i64 :: "i64 \<Rightarrow> i64" where
  "unsigned_abs_as_i64 x = (if sint x < 0 then - x else x)"

definition session_is_valid :: "AdmissionCohort \<Rightarrow> SessionResult \<Rightarrow> bool" where
  "session_is_valid c r \<longleftrightarrow> is_admitted (sr_outcome r)
     \<and> sint (unsigned_abs_as_i64 (start_skew_ms r)) \<le> sint (max_start_skew_ms c)"

definition fully_admitted_count :: "AdmissionCohort \<Rightarrow> nat" where
  "fully_admitted_count c = length (filter (session_is_valid c) (results c))"

definition valid_throughput_results :: "AdmissionCohort \<Rightarrow> SessionResult list" where
  "valid_throughput_results c = filter (session_is_valid c) (results c)"

definition aggregate_receiver_bps :: "AdmissionCohort \<Rightarrow> f64 option" where
  "aggregate_receiver_bps c =
     (if fully_admitted_count c < minimum_valid_cohort c then None
      else Some (fold (\<lambda>x acc. f64_add acc x) (filter_map sr_receiver_bps (valid_throughput_results c)) (Fin 0)))"

definition excluded_with_reason :: "AdmissionCohort \<Rightarrow> (ListenerTarget \<times> string) list" where
  "excluded_with_reason c =
     map (\<lambda>r. (target r, if is_admitted (sr_outcome r) then ''start skew exceeded fanout tolerance''
                         else reason (sr_outcome r)))
       (filter (\<lambda>r. \<not> session_is_valid c r) (results c))"

section \<open>Lemmas\<close>

lemma is_admitted_iff: "is_admitted x \<longleftrightarrow> (\<exists>n. x = FullyAdmitted n)"
  by (cases x) (auto simp: is_admitted_def)

lemma classify_FullyAdmitted:
  "classify_result js raw req = FullyAdmitted n \<longleftrightarrow>
     (\<exists>r. parse_iperf_json js raw = Inr r) \<and> n = streams_established js raw \<and> n \<noteq> 0 \<and> req \<le> n"
  by (auto simp: classify_result_def Let_def split: sum.split IperfParseError.split)

lemma session_thread_Some:
  assumes "session_thread js req ref tgt ob = Some s"
  shows "\<not> panicked ob \<and> target s = tgt
    \<and> (sr_receiver_bps s \<noteq> None \<longrightarrow> is_admitted (sr_outcome s))
    \<and> (is_admitted (sr_outcome s) \<longrightarrow> (\<exists>raw. reply ob = Some (Inr raw)
         \<and> sr_outcome s = classify_result js raw req \<and> sr_receiver_bps s = receiver_bps js raw))"
  using assms
  by (auto simp: session_thread_def Let_def is_admitted_def split: if_splits option.splits sum.splits)

lemma receiver_bps_Some:
  assumes "receiver_bps js raw = Some b"
  shows "\<exists>r s. parse_iperf_json js raw = Inr r \<and> received (forward r) = Some s \<and> bits_per_second s = b
    \<and> \<not> is_hollow s"
proof -
  obtain r s where r: "parse_iperf_json js raw = Inr r" "received (forward r) = Some s" "bits_per_second s = b"
    using assms by (auto simp: receiver_bps_def result_ok_def bind_eq_Some_conv split: sum.splits)
  with parse_iperf_Inr[OF r(1)] solid_sample_not_hollow show ?thesis by metis
qed

section \<open>Properties\<close>

text \<open>C9: a session that was not fully admitted never carries a throughput figure. Every result of a
  fanout with a figure comes from a session whose runner answered in time with a document that
  parsed, that lists at least the requested number of streams (and at least one), and whose received
  block measured something; the figure is that block's rate.\<close>

theorem throughput_only_if_admitted:
  assumes "s \<in> set (run_admission_fanout js targets req first)" and "sr_receiver_bps s = Some b"
  shows "\<exists>ob raw r smp n. (target s, ob) \<in> set targets \<and> reply ob = Some (Inr raw)
    \<and> sr_outcome s = FullyAdmitted n \<and> n = streams_established js raw \<and> n \<noteq> 0 \<and> req \<le> n
    \<and> parse_iperf_json js raw = Inr r \<and> received (forward r) = Some smp \<and> bits_per_second smp = b
    \<and> (case packets smp of Some p \<Rightarrow> p \<noteq> 0 | None \<Rightarrow> bytes smp \<noteq> 0)"
proof -
  obtain tgt ob ref where mem: "(tgt, ob) \<in> set targets" and th: "session_thread js req ref tgt ob = Some s"
    using assms(1) by (auto simp: run_admission_fanout_def set_filter_map split: if_splits)
  from session_thread_Some[OF th] assms(2) obtain raw where
    raw: "reply ob = Some (Inr raw)" "sr_outcome s = classify_result js raw req"
      "receiver_bps js raw = Some b" "is_admitted (sr_outcome s)" and t: "target s = tgt"
    by auto
  obtain n where n: "sr_outcome s = FullyAdmitted n" using raw(4) by (auto simp: is_admitted_iff)
  with raw(2) have "n = streams_established js raw \<and> n \<noteq> 0 \<and> req \<le> n"
    using classify_FullyAdmitted[of js raw req n] by metis
  with receiver_bps_Some[OF raw(3)] mem raw(1) n t show ?thesis unfolding not_hollow_iff by blast
qed

definition one_stream_obs :: SessionObs where
  "one_stream_obs = \<lparr>released_at = 5000000, reply = Some (Inr ''doc''), obs_elapsed_ns = 7, panicked = False\<rparr>"

definition tgt1 :: ListenerTarget where
  "tgt1 = \<lparr>lt_host = ''h'', lt_port = 5201, pool_label = ''p''\<rparr>"

lemma one_stream_run:
  "run_admission_fanout (json_ops (\<lambda>_. Inr udp_reverse_doc)) [(tgt1, one_stream_obs)] 1 0
   = [\<lparr>target = tgt1, sr_outcome = FullyAdmitted 1, start_skew_ms = 0, sr_receiver_bps = Some (Fin 800)\<rparr>]"
  by (simp add: run_admission_fanout_def session_thread_def one_stream_obs_def classify_result_def is_admitted_def
      streams_established_def receiver_bps_def parse_iperf_json_def json_ops_def udp_reverse_doc_def
      solid_sample_def parse_rate_sample_def opt_filter_def is_hollow_def unwrap_or_def result_ok_def
      start_skew_def Let_def)

theorem throughput_only_if_admitted_witness:
  "\<exists>s ob raw n. s \<in> set (run_admission_fanout (json_ops (\<lambda>_. Inr udp_reverse_doc)) [(tgt1, one_stream_obs)] 1 0)
    \<and> (target s, ob) \<in> set [(tgt1, one_stream_obs)] \<and> reply ob = Some (Inr raw)
    \<and> sr_outcome s = FullyAdmitted n \<and> n \<noteq> 0"
proof -
  let ?s = "\<lparr>target = tgt1, sr_outcome = FullyAdmitted 1, start_skew_ms = 0, sr_receiver_bps = Some (Fin 800)\<rparr>"
  have "?s \<in> set (run_admission_fanout (json_ops (\<lambda>_. Inr udp_reverse_doc)) [(tgt1, one_stream_obs)] 1 0)"
    by (simp add: one_stream_run)
  from throughput_only_if_admitted[OF this] this show ?thesis by fastforce
qed

text \<open>The cohort rules. The sessions that may be aggregated and the excluded ones partition the
  results, each excluded one with a reason; an aggregate exists exactly when at least the minimum
  number of fully admitted sessions started within the skew tolerance.\<close>

theorem cohort_partition:
  "mset (map target (valid_throughput_results c)) + mset (map fst (excluded_with_reason c))
     = mset (map target (results c))
   \<and> (aggregate_receiver_bps c \<noteq> None \<longleftrightarrow>
        minimum_valid_cohort c \<le> length (filter (\<lambda>r. (\<exists>n. sr_outcome r = FullyAdmitted n)
          \<and> sint (unsigned_abs_as_i64 (start_skew_ms r)) \<le> sint (max_start_skew_ms c)) (results c)))
   \<and> ''fully admitted'' \<notin> snd ` set (excluded_with_reason c)"
proof -
  have "filter (session_is_valid c) (results c) = filter (\<lambda>r. (\<exists>n. sr_outcome r = FullyAdmitted n)
          \<and> sint (unsigned_abs_as_i64 (start_skew_ms r)) \<le> sint (max_start_skew_ms c)) (results c)"
    by (rule filter_cong) (auto simp: session_is_valid_def is_admitted_iff)
  moreover have "mset (map target (valid_throughput_results c)) + mset (map fst (excluded_with_reason c))
     = mset (map target (results c))"
    unfolding valid_throughput_results_def excluded_with_reason_def map_map comp_def fst_conv
    by (rule mset_map_filter_partition)
  moreover have "''fully admitted'' \<notin> snd ` set (excluded_with_reason c)"
    by (auto simp: excluded_with_reason_def reason_def is_admitted_def split: AdmissionOutcome.splits if_splits)
  ultimately show ?thesis
    by (auto simp: aggregate_receiver_bps_def fully_admitted_count_def)
qed

text \<open>A cohort can be aggregated to a rate of zero with no measurement behind it: an admitted
  session without a receiver figure counts towards the minimum cohort and contributes nothing to the
  sum, so a cohort of such sessions reports a throughput of 0 although no session measured one.\<close>

theorem aggregate_zero_without_figures:
  assumes "\<forall>r \<in> set (results c). session_is_valid c r \<longrightarrow> sr_receiver_bps r = None"
    and "minimum_valid_cohort c \<le> fully_admitted_count c"
  shows "aggregate_receiver_bps c = Some (Fin 0)"
proof -
  have "filter_map sr_receiver_bps (valid_throughput_results c) = []"
    using assms(1) by (simp add: filter_map_eq valid_throughput_results_def)
  with assms(2) show ?thesis by (simp add: aggregate_receiver_bps_def)
qed

theorem aggregate_zero_without_figures_witness:
  "aggregate_receiver_bps \<lparr>requested_streams = 1,
     results = [\<lparr>target = tgt1, sr_outcome = FullyAdmitted 1, start_skew_ms = 0, sr_receiver_bps = None\<rparr>],
     minimum_valid_cohort = 1, max_start_skew_ms = 500\<rparr> = Some (Fin 0)"
  by (rule aggregate_zero_without_figures)
    (simp_all add: fully_admitted_count_def session_is_valid_def is_admitted_def unsigned_abs_as_i64_def)

end
