(* ===== verification/Pmtu_Evidence.thy ===== *)
theory Pmtu_Evidence
  imports Fraggle_Prelude
begin

text \<open>
  \<open>probe/pmtu_evidence.rs\<close>: response-validated path MTU probing. The sockets, the QUIC library and
  the clock are the observations of one tested size (\<open>LocalObs\<close>, \<open>QuicObs\<close>): what each call the
  source makes returned. The classification, the sweep, the largest confirmed size and the verdict
  text are the source's.
\<close>

definition QUIC_MIN_TESTABLE_MTU :: u16 where "QUIC_MIN_TESTABLE_MTU = 1200"

datatype SizeOutcome = Confirmed | SendFailedLocally | IcmpTooBig | NoResponse | NotTestable

definition outcome_as_str :: "SizeOutcome \<Rightarrow> string" where
  "outcome_as_str x =
     (case x of Confirmed \<Rightarrow> ''confirmed'' | SendFailedLocally \<Rightarrow> ''send-failed-locally''
      | IcmpTooBig \<Rightarrow> ''icmp-too-big'' | NoResponse \<Rightarrow> ''no-response'' | NotTestable \<Rightarrow> ''not-testable'')"

definition is_path_evidence :: "SizeOutcome \<Rightarrow> bool" where
  "is_path_evidence x \<longleftrightarrow> x = Confirmed"

record SizeResult =
  sz :: nat
  sz_outcome :: SizeOutcome
  sz_detail :: string
  sz_elapsed_ms :: u64

record DfStatus =
  requested :: bool
  applied :: bool
  df_detail :: string

record PmtuEvidence =
  pe_target :: string
  resolved_ip :: "string option"
  pe_port :: u16
  df :: DfStatus
  sizes :: "SizeResult list"
  confirmed_pmtu :: "nat option"
  verdict :: string

definition largest_confirmed :: "PmtuEvidence \<Rightarrow> nat option" where
  "largest_confirmed e = iter_max (map sz (filter (\<lambda>s. is_path_evidence (sz_outcome s)) (sizes e)))"

definition smallest_unanswered :: "PmtuEvidence \<Rightarrow> nat option" where
  "smallest_unanswered e = iter_min (map sz (filter (\<lambda>s. sz_outcome s \<in> {NoResponse, IcmpTooBig}) (sizes e)))"

section \<open>The don't-fragment option\<close>

datatype Platform = Linux | Apple | OtherPlatform

definition set_dont_fragment :: "Platform \<Rightarrow> string option \<Rightarrow> DfStatus" where
  "set_dont_fragment platform setsockopt_error =
     (case platform of
        Linux \<Rightarrow>
          (case setsockopt_error of
             None \<Rightarrow> \<lparr>requested = True, applied = True, df_detail = ''IP_MTU_DISCOVER=IP_PMTUDISC_DO''\<rparr>
           | Some e \<Rightarrow> \<lparr>requested = True, applied = False,
                         df_detail = ''setsockopt IP_MTU_DISCOVER failed: '' @ e\<rparr>)
      | Apple \<Rightarrow>
          (case setsockopt_error of
             None \<Rightarrow> \<lparr>requested = True, applied = True, df_detail = ''IP_DONTFRAG=1''\<rparr>
           | Some e \<Rightarrow> \<lparr>requested = True, applied = False,
                         df_detail = ''setsockopt IP_DONTFRAG failed: '' @ e\<rparr>)
      | OtherPlatform \<Rightarrow> \<lparr>requested = True, applied = False,
                           df_detail = ''no DF socket option known for this platform''\<rparr>)"

section \<open>Confirming one size\<close>

datatype StreamRes =
    OpenTimeout
  | OpenErr string
  | WriteErr string
  | WriteStalled
  | WriteAcked \<comment> \<open>written, finished and acknowledged by the peer\<close>

datatype HandshakeRes = HsTimeout | HsErr string | HsOk string \<comment> \<open>the negotiated ALPN\<close>

record QuicObs =
  tls_config_err :: "string option"
  idle_timeout_invalid :: bool
  bind_parse_err :: "string option"
  endpoint_bind_err :: "string option"
  connect_setup_err :: "string option"
  handshake :: HandshakeRes
  stream :: StreamRes
  max_datagram_size :: "nat option"
  timeout_text :: string

definition stream_outcome :: "u16 \<Rightarrow> string \<Rightarrow> QuicObs \<Rightarrow> SizeOutcome \<times> string" where
  "stream_outcome msize alpn q =
     (case stream q of
        WriteAcked \<Rightarrow> (Confirmed, show_nat (unat msize * 4) @ '' bytes of stream data acknowledged with ''
          @ show_word msize @ ''-byte datagrams (alpn='' @ alpn @ '')'')
      | WriteErr e \<Rightarrow> (NoResponse, ''stream write with '' @ show_word msize @ ''-byte datagrams failed: '' @ e)
      | WriteStalled \<Rightarrow> (NoResponse, ''stream write stalled with '' @ show_word msize
          @ ''-byte datagrams: no acknowledgement within '' @ timeout_text q
          @ '', consistent with the path not carrying this size'')
      | OpenErr e \<Rightarrow> (NoResponse, ''peer refused a stream ('' @ e @ ''), size unconfirmed'')
      | OpenTimeout \<Rightarrow> (NoResponse, ''opening a stream stalled at '' @ show_word msize @ ''-byte datagrams''))"

definition confirm_size_via_quic :: "u16 \<Rightarrow> QuicObs \<Rightarrow> SizeOutcome \<times> string" where
  "confirm_size_via_quic msize q =
     (if msize < QUIC_MIN_TESTABLE_MTU
      then (NotTestable, ''below quinn'' @ [CHR 0x27] @ ''s '' @ show_word QUIC_MIN_TESTABLE_MTU @ ''-byte floor'')
      else case tls_config_err q of Some e \<Rightarrow> (NoResponse, ''quic tls config: '' @ e)
      | None \<Rightarrow> if idle_timeout_invalid q then (NoResponse, ''invalid idle timeout'')
      else case bind_parse_err q of Some e \<Rightarrow> (NoResponse, ''bind parse: '' @ e)
      | None \<Rightarrow> (case endpoint_bind_err q of Some e \<Rightarrow> (SendFailedLocally, ''endpoint bind: '' @ e)
      | None \<Rightarrow> (case connect_setup_err q of Some e \<Rightarrow> (SendFailedLocally, ''connect setup: '' @ e)
      | None \<Rightarrow>
          (case handshake q of
             HsOk alpn \<Rightarrow>
               let out = stream_outcome msize alpn q in
               (case max_datagram_size q of
                  Some obs \<Rightarrow>
                    if fst out = Confirmed \<and> (of_nat obs :: u16) < msize
                    then (NoResponse, ''write succeeded but quinn'' @ [CHR 0x27] @ ''s path estimate stayed at ''
                           @ show_nat obs @ '' bytes, below the requested '' @ show_word msize
                           @ ''; not treated as confirmation of '' @ show_word msize)
                    else out
                | None \<Rightarrow> out)
           | HsErr msg \<Rightarrow>
               if contains msg ''too long'' \<or> contains msg ''message size'' then (SendFailedLocally, msg)
               else (NoResponse, msg)
           | HsTimeout \<Rightarrow> (NoResponse, ''no handshake response within '' @ timeout_text q)))))"

section \<open>The local check and the sweep\<close>

record LocalObs =
  bind_err :: "string option"
  setsockopt_err :: "string option"
  send_to :: "string + nat"

definition local_send_check :: "Platform \<Rightarrow> nat \<Rightarrow> LocalObs \<Rightarrow> SizeOutcome \<times> string \<times> DfStatus" where
  "local_send_check platform msize l =
     (case bind_err l of
        Some e \<Rightarrow> (SendFailedLocally, ''bind: '' @ e,
          \<lparr>requested = False, applied = False, df_detail = ''socket bind failed''\<rparr>)
      | None \<Rightarrow>
          let dfs = set_dont_fragment platform (setsockopt_err l) in
          (case send_to l of
             Inr n \<Rightarrow> if n = msize then (NoResponse, ''local stack accepted the datagram; no path evidence'', dfs)
                      else (SendFailedLocally, ''short send: '' @ show_nat n @ '' of '' @ show_nat msize @ '' bytes'', dfs)
           | Inl e \<Rightarrow> (SendFailedLocally, e, dfs)))"

record SizeObs =
  so_size :: nat
  so_local :: LocalObs
  so_quic :: QuicObs
  so_elapsed_ms :: u64

definition clamp_u16 :: "nat \<Rightarrow> u16" where
  "clamp_u16 msize = (if 65535 < msize then 65535 else of_nat msize)"

definition probe_size :: "Platform \<Rightarrow> string option \<Rightarrow> SizeObs \<Rightarrow> SizeResult \<times> DfStatus" where
  "probe_size platform runtime_err ob =
     (case local_send_check platform (so_size ob) (so_local ob) of (local_outcome, local_detail, dfs) \<Rightarrow>
        let (out, det) =
          (if local_outcome = SendFailedLocally then (local_outcome, local_detail)
           else case runtime_err of
                  None \<Rightarrow> confirm_size_via_quic (clamp_u16 (so_size ob)) (so_quic ob)
                | Some e \<Rightarrow> (NoResponse, ''runtime: '' @ e))
        in (\<lparr>sz = so_size ob, sz_outcome = out, sz_detail = det, sz_elapsed_ms = so_elapsed_ms ob\<rparr>, dfs))"

text \<open>The loop: results in order, and the DF status of the last size tried.\<close>

fun sweep :: "Platform \<Rightarrow> string option \<Rightarrow> SizeObs list \<Rightarrow> SizeResult list \<times> DfStatus \<Rightarrow> SizeResult list \<times> DfStatus" where
  "sweep platform rt [] acc = acc"
| "sweep platform rt (ob # obs) (rs, _) =
     (case probe_size platform rt ob of (r, dfs) \<Rightarrow> sweep platform rt obs (rs @ [r], dfs))"

definition build_verdict :: "PmtuEvidence \<Rightarrow> string" where
  "build_verdict e =
     join ''; ''
       ((case confirmed_pmtu e of
           Some c \<Rightarrow> [''largest response-confirmed UDP payload: '' @ show_nat c @ '' bytes'']
             @ (case smallest_unanswered e of
                  Some u \<Rightarrow> if c < u then [''path ceiling lies between '' @ show_nat c @ '' and '' @ show_nat u @ '' bytes''] else []
                | None \<Rightarrow> [])
         | None \<Rightarrow>
             let unanswered = length (filter (\<lambda>s. sz_outcome s = NoResponse) (sizes e));
                 lcl = length (filter (\<lambda>s. sz_outcome s = SendFailedLocally) (sizes e))
             in [''path MTU undetermined: no tested size produced a protocol-valid response'']
                @ (if 0 < unanswered
                   then [show_nat unanswered @ '' size(s) sent without a reply, which is ambiguous between path MTU, response filtering, and an endpoint that does not answer'']
                   else [])
                @ (if 0 < lcl then [show_nat lcl @ '' size(s) refused by the local stack (local evidence only)''] else []))
        @ (if \<not> applied (df e)
           then [''WARNING: don'' @ [CHR 0x27] @ ''t-fragment could not be set ('' @ df_detail (df e)
                 @ ''), so any confirmation may describe fragmented delivery rather than path MTU'']
           else []))"

definition probe_pmtu_evidence :: "Platform \<Rightarrow> string option \<Rightarrow> string \<Rightarrow> string \<Rightarrow> u16 \<Rightarrow> SizeObs list \<Rightarrow> PmtuEvidence" where
  "probe_pmtu_evidence platform rt host ip port obs =
     (let (rs, dfs) = sweep platform rt obs
            ([], \<lparr>requested = True, applied = False, df_detail = ''not yet attempted''\<rparr>);
          e0 = \<lparr>pe_target = host, resolved_ip = Some ip, pe_port = port, df = dfs, sizes = rs,
                confirmed_pmtu = None, verdict = []\<rparr>;
          e1 = e0\<lparr>confirmed_pmtu := largest_confirmed e0\<rparr>
      in e1\<lparr>verdict := build_verdict e1\<rparr>)"

section \<open>Lemmas\<close>

text \<open>What has to be observed for a size to be confirmed.\<close>

definition acknowledged :: "string option \<Rightarrow> SizeObs \<Rightarrow> bool" where
  "acknowledged rt ob \<longleftrightarrow> rt = None \<and> bind_err (so_local ob) = None \<and> send_to (so_local ob) = Inr (so_size ob)
     \<and> 1200 \<le> so_size ob \<and> tls_config_err (so_quic ob) = None \<and> \<not> idle_timeout_invalid (so_quic ob)
     \<and> bind_parse_err (so_quic ob) = None \<and> endpoint_bind_err (so_quic ob) = None
     \<and> connect_setup_err (so_quic ob) = None \<and> (\<exists>alpn. handshake (so_quic ob) = HsOk alpn)
     \<and> stream (so_quic ob) = WriteAcked
     \<and> (case max_datagram_size (so_quic ob) of
          Some obs \<Rightarrow> min (so_size ob) 65535 \<le> obs mod 65536 | None \<Rightarrow> True)"

lemma unat_clamp_u16: "unat (clamp_u16 n) = min n 65535"
  by (auto simp: clamp_u16_def unat_of_nat take_bit_nat_eq_self)

lemma confirm_Confirmed:
  "fst (confirm_size_via_quic msize q) = Confirmed \<longleftrightarrow>
     1200 \<le> unat msize \<and> tls_config_err q = None \<and> \<not> idle_timeout_invalid q
     \<and> bind_parse_err q = None \<and> endpoint_bind_err q = None \<and> connect_setup_err q = None
     \<and> (\<exists>alpn. handshake q = HsOk alpn) \<and> stream q = WriteAcked
     \<and> (case max_datagram_size q of Some obs \<Rightarrow> unat msize \<le> obs mod 65536 | None \<Rightarrow> True)"
proof -
  have s: "fst (stream_outcome msize alpn q) = Confirmed \<longleftrightarrow> stream q = WriteAcked" for alpn
    by (simp add: stream_outcome_def split: StreamRes.split)
  have l: "msize < QUIC_MIN_TESTABLE_MTU \<longleftrightarrow> \<not> 1200 \<le> unat msize"
    by (simp add: QUIC_MIN_TESTABLE_MTU_def word_less_nat_alt not_le)
  have o: "(of_nat obs :: u16) < msize \<longleftrightarrow> \<not> unat msize \<le> obs mod 65536" for obs
    by (simp add: word_less_nat_alt unat_of_nat take_bit_eq_mod not_le)
  show ?thesis
    unfolding confirm_size_via_quic_def l o
    by (auto simp: s Let_def split: option.split HandshakeRes.split)
qed

lemma probe_size_result:
  "sz (fst (probe_size platform rt ob)) = so_size ob"
  "sz_outcome (fst (probe_size platform rt ob)) = Confirmed \<longleftrightarrow> acknowledged rt ob"
proof -
  show "sz (fst (probe_size platform rt ob)) = so_size ob"
    by (simp add: probe_size_def Let_def split: prod.split)
  have "sz_outcome (fst (probe_size platform rt ob)) = Confirmed \<longleftrightarrow>
      rt = None \<and> bind_err (so_local ob) = None \<and> send_to (so_local ob) = Inr (so_size ob)
      \<and> fst (confirm_size_via_quic (clamp_u16 (so_size ob)) (so_quic ob)) = Confirmed"
    by (auto simp: probe_size_def local_send_check_def Let_def split: option.splits sum.splits prod.splits if_splits)
  then show "sz_outcome (fst (probe_size platform rt ob)) = Confirmed \<longleftrightarrow> acknowledged rt ob"
    unfolding confirm_Confirmed acknowledged_def unat_clamp_u16 by (auto split: option.splits)
qed

lemma sweep_eq:
  "sweep platform rt obs (rs, d) =
     (rs @ map (\<lambda>ob. fst (probe_size platform rt ob)) obs,
      if obs = [] then d else snd (probe_size platform rt (last obs)))"
  by (induction obs arbitrary: rs d) (auto split: prod.split)

lemma probe_sizes:
  "sizes (probe_pmtu_evidence platform rt host ip port obs) = map (\<lambda>ob. fst (probe_size platform rt ob)) obs"
  by (simp add: probe_pmtu_evidence_def sweep_eq Let_def)

lemma probe_df:
  "obs \<noteq> [] \<Longrightarrow> df (probe_pmtu_evidence platform rt host ip port obs) = snd (probe_size platform rt (last obs))"
  by (simp add: probe_pmtu_evidence_def sweep_eq Let_def)

lemma probe_confirmed:
  "confirmed_pmtu (probe_pmtu_evidence platform rt host ip port obs) = iter_max (map so_size (filter (acknowledged rt) obs))"
  by (simp add: probe_pmtu_evidence_def sweep_eq Let_def largest_confirmed_def is_path_evidence_def
      filter_map comp_def probe_size_result)

lemma build_verdict_cong:
  assumes "confirmed_pmtu e = confirmed_pmtu e'" and "sizes e = sizes e'" and "df e = df e'"
  shows "build_verdict e = build_verdict e'"
  unfolding build_verdict_def smallest_unanswered_def assms ..

lemma verdict_build:
  "verdict (probe_pmtu_evidence platform rt host ip port obs)
   = build_verdict (probe_pmtu_evidence platform rt host ip port obs)"
  by (auto simp: probe_pmtu_evidence_def Let_def split: prod.split intro: build_verdict_cong)

lemma join_starts: "starts_with (join sep (x # xs)) x"
  by (cases xs) (auto simp: starts_with_iff)

lemma join_contains: "x \<in> set xs \<Longrightarrow> contains (join sep xs) x"
proof (induction sep xs rule: join.induct)
  case (3 sep x y ys)
  then show ?case
    by (auto simp: contains_iff) (metis append.assoc, metis append.assoc)
next
  case (2 sep x)
  then show ?case using contains_append[of x x "[]" "[]"] by (simp add: contains_iff) (metis append_Nil append_Nil2)
qed simp

section \<open>Properties\<close>

text \<open>C3: the reported path MTU is exactly what was proved. It is the largest tested size for which
  the local stack sent the whole datagram and the peer acknowledged the stream data sent in
  datagrams of that size, and it is absent exactly when there is no such size; a send alone never
  counts.\<close>

theorem pmtu_confirmed_exactly_acknowledged:
  "(case confirmed_pmtu (probe_pmtu_evidence platform rt host ip port obs) of
      Some c \<Rightarrow> (\<exists>ob \<in> set obs. so_size ob = c \<and> acknowledged rt ob)
        \<and> Max {so_size ob |ob. ob \<in> set obs \<and> acknowledged rt ob} = c
    | None \<Rightarrow> \<not> (\<exists>ob \<in> set obs. acknowledged rt ob))"
proof (cases "confirmed_pmtu (probe_pmtu_evidence platform rt host ip port obs)")
  case None
  then show ?thesis by (auto simp: probe_confirmed filter_empty_conv)
next
  case (Some c)
  then have c: "c \<in> set (map so_size (filter (acknowledged rt) obs))"
    "\<forall>x \<in> set (map so_size (filter (acknowledged rt) obs)). x \<le> c"
    unfolding probe_confirmed iter_max_Some_iff by auto
  have e: "{so_size ob |ob. ob \<in> set obs \<and> acknowledged rt ob} = set (map so_size (filter (acknowledged rt) obs))"
    by auto
  have "Max {so_size ob |ob. ob \<in> set obs \<and> acknowledged rt ob} = c"
    unfolding e by (intro Max_eqI List.finite_set c(1)) (use c(2) in blast)
  with Some c(1) show ?thesis by auto
qed

lemma build_verdict_wording:
  assumes "confirmed_pmtu e = largest_confirmed e"
  shows "(case confirmed_pmtu e of
       None \<Rightarrow> starts_with (build_verdict e) ''path MTU undetermined: no tested size produced a protocol-valid response''
     | Some c \<Rightarrow> starts_with (build_verdict e) (''largest response-confirmed UDP payload: '' @ show_nat c @ '' bytes'')
         \<and> (case smallest_unanswered e of
              None \<Rightarrow> True
            | Some u \<Rightarrow>
                (if c < u
                 then contains (build_verdict e) (''path ceiling lies between '' @ show_nat c @ '' and '' @ show_nat u @ '' bytes'')
                   \<and> \<not> (\<exists>s t. s \<in> set (sizes e) \<and> t \<in> set (sizes e) \<and> sz_outcome s = Confirmed
                         \<and> sz_outcome t \<in> {NoResponse, IcmpTooBig} \<and> \<not> sz s < sz t)
                 else (\<exists>t \<in> set (sizes e). sz_outcome t \<in> {NoResponse, IcmpTooBig} \<and> sz t \<le> c))))"
proof (cases "confirmed_pmtu e")
  case None
  then show ?thesis by (simp add: build_verdict_def join_starts Let_def)
next
  case (Some c)
  have start: "starts_with (build_verdict e) (''largest response-confirmed UDP payload: '' @ show_nat c @ '' bytes'')"
    unfolding build_verdict_def using Some by (simp add: join_starts)
  have le: "\<forall>s \<in> set (sizes e). sz_outcome s = Confirmed \<longrightarrow> sz s \<le> c"
    using Some assms by (simp add: largest_confirmed_def iter_max_Some_iff is_path_evidence_def)
  show ?thesis
  proof (cases "smallest_unanswered e")
    case None
    with Some start show ?thesis by simp
  next
    case u: (Some u)
    have ge: "\<forall>t \<in> set (sizes e). sz_outcome t \<in> {NoResponse, IcmpTooBig} \<longrightarrow> u \<le> sz t"
      and ex: "\<exists>t \<in> set (sizes e). sz_outcome t \<in> {NoResponse, IcmpTooBig} \<and> sz t = u"
      using u by (auto simp: smallest_unanswered_def iter_min_Some_iff)
    have "contains (build_verdict e) (''path ceiling lies between '' @ show_nat c @ '' and '' @ show_nat u @ '' bytes'')"
      if "c < u"
      unfolding build_verdict_def using Some u that by (intro join_contains) simp
    moreover have "\<not> (\<exists>s t. s \<in> set (sizes e) \<and> t \<in> set (sizes e) \<and> sz_outcome s = Confirmed
        \<and> sz_outcome t \<in> {NoResponse, IcmpTooBig} \<and> \<not> sz s < sz t)" if "c < u"
      using le ge that by (meson le_less_trans less_le_trans)
    moreover have "\<exists>t \<in> set (sizes e). sz_outcome t \<in> {NoResponse, IcmpTooBig} \<and> sz t \<le> c" if "\<not> c < u"
      using ex that by (metis not_le)
    ultimately show ?thesis using Some u start by simp
  qed
qed

text \<open>The verdict never prints a number it cannot support. With nothing confirmed it begins by
  saying that the path MTU is undetermined; with a confirmed size it begins with that size; and if it
  also states a ceiling, every confirmed size lies below every unanswered one. A sweep in which a size
  at or below the confirmed one went unanswered states no ceiling.\<close>

theorem pmtu_verdict_wording:
  "let e = probe_pmtu_evidence platform rt host ip port obs in
    (case confirmed_pmtu e of
       None \<Rightarrow> starts_with (verdict e) ''path MTU undetermined: no tested size produced a protocol-valid response''
     | Some c \<Rightarrow> starts_with (verdict e) (''largest response-confirmed UDP payload: '' @ show_nat c @ '' bytes'')
         \<and> (case smallest_unanswered e of
              None \<Rightarrow> True
            | Some u \<Rightarrow>
                (if c < u
                 then contains (verdict e) (''path ceiling lies between '' @ show_nat c @ '' and '' @ show_nat u @ '' bytes'')
                   \<and> \<not> (\<exists>s t. s \<in> set (sizes e) \<and> t \<in> set (sizes e) \<and> sz_outcome s = Confirmed
                         \<and> sz_outcome t \<in> {NoResponse, IcmpTooBig} \<and> \<not> sz s < sz t)
                 else (\<exists>t \<in> set (sizes e). sz_outcome t \<in> {NoResponse, IcmpTooBig} \<and> sz t \<le> c))))"
  unfolding Let_def verdict_build
  by (rule build_verdict_wording)
    (simp add: probe_pmtu_evidence_def largest_confirmed_def Let_def split: prod.split)

definition acked_quic :: QuicObs where
  "acked_quic = \<lparr>tls_config_err = None, idle_timeout_invalid = False, bind_parse_err = None,
     endpoint_bind_err = None, connect_setup_err = None, handshake = HsOk ''h3'', stream = WriteAcked,
     max_datagram_size = Some 1400, timeout_text = ''2s''\<rparr>"

definition df_gap_obs :: "SizeObs list" where
  "df_gap_obs =
     [\<lparr>so_size = 1400, so_local = \<lparr>bind_err = None, setsockopt_err = Some ''EPERM'', send_to = Inr 1400\<rparr>,
       so_quic = acked_quic, so_elapsed_ms = 5\<rparr>,
      \<lparr>so_size = 1472, so_local = \<lparr>bind_err = None, setsockopt_err = None, send_to = Inl ''EMSGSIZE''\<rparr>,
       so_quic = acked_quic, so_elapsed_ms = 1\<rparr>]"

text \<open>The don't-fragment warning depends on the last tested size only. Whenever the last size
  set the option, the evidence says it was applied, also for a sweep in which it failed for the very
  size that is reported as confirmed.\<close>

theorem pmtu_df_status_is_last:
  assumes "obs \<noteq> []"
  shows "(applied (df (probe_pmtu_evidence platform rt host ip port obs)) \<longleftrightarrow>
       bind_err (so_local (last obs)) = None \<and> setsockopt_err (so_local (last obs)) = None \<and> platform \<noteq> OtherPlatform)
    \<and> confirmed_pmtu (probe_pmtu_evidence Linux None ''h'' ''192.0.2.1'' 443 df_gap_obs) = Some 1400
    \<and> applied (df (probe_pmtu_evidence Linux None ''h'' ''192.0.2.1'' 443 df_gap_obs))"
proof -
  have a: "applied (snd (probe_size platform rt ob)) \<longleftrightarrow>
      bind_err (so_local ob) = None \<and> setsockopt_err (so_local ob) = None \<and> platform \<noteq> OtherPlatform"
    for platform rt and ob
    by (auto simp: probe_size_def local_send_check_def set_dont_fragment_def Let_def
        split: prod.split option.split sum.split Platform.split)
  have "filter (acknowledged None) df_gap_obs = [hd df_gap_obs]"
    by (simp add: df_gap_obs_def acknowledged_def acked_quic_def)
  then have "confirmed_pmtu (probe_pmtu_evidence Linux None ''h'' ''192.0.2.1'' 443 df_gap_obs) = Some 1400"
    by (simp add: probe_confirmed) (simp add: df_gap_obs_def)
  moreover have "applied (df (probe_pmtu_evidence Linux None ''h'' ''192.0.2.1'' 443 df_gap_obs))"
    by (simp add: probe_df a df_gap_obs_def)
  ultimately show ?thesis using assms by (simp add: probe_df a)
qed

theorem pmtu_df_status_is_last_witness:
  "applied (df (probe_pmtu_evidence Linux None ''h'' ''192.0.2.1'' 443 df_gap_obs))"
  using pmtu_df_status_is_last[of df_gap_obs] by (simp add: df_gap_obs_def)

end
