(* ===== verification/Preflight.thy ===== *)
theory Preflight
  imports Fraggle_Prelude
begin

text \<open>
  \<open>probe/preflight.rs\<close>: does a failed handshake mean that the endpoint lacks the protocol or that
  the network filters it? The answers of the sockets, the TLS and QUIC libraries, curl and the
  resolver are observations (\<open>TlsObs\<close>, \<open>H3Obs\<close>, \<open>FetchObs\<close>, \<open>CurlObs\<close>); the header reading, the
  classification of each answer, the combination for HTTP/3 and the network verdict are the source's.
\<close>

datatype Protocol = Http1 | Http2 | Http3

definition protocol_as_str :: "Protocol \<Rightarrow> string" where
  "protocol_as_str p = (case p of Http1 \<Rightarrow> ''http/1.1'' | Http2 \<Rightarrow> ''h2'' | Http3 \<Rightarrow> ''h3'')"

definition alpn_token :: "Protocol \<Rightarrow> string" where
  "alpn_token p = (case p of Http1 \<Rightarrow> ''http/1.1'' | Http2 \<Rightarrow> ''h2'' | Http3 \<Rightarrow> ''h3'')"

definition default_h3_endpoints :: "string list" where
  "default_h3_endpoints = [''cloudflare.com'', ''google.com'', ''mensura.cdn-apple.com'']"

datatype EndpointVerdict = Unsupported | HandshakeRejected | Timeout | EndpointFiltered | EndpointOk

definition verdict_as_str :: "EndpointVerdict \<Rightarrow> string" where
  "verdict_as_str v =
     (case v of Unsupported \<Rightarrow> ''unsupported'' | HandshakeRejected \<Rightarrow> ''handshake-rejected''
      | Timeout \<Rightarrow> ''timeout'' | EndpointFiltered \<Rightarrow> ''filtered'' | EndpointOk \<Rightarrow> ''ok'')"

datatype Advertisement = Advertised | NotAdvertised | Undetermined

definition advertisement_as_str :: "Advertisement \<Rightarrow> string" where
  "advertisement_as_str a =
     (case a of Advertised \<Rightarrow> ''advertised'' | NotAdvertised \<Rightarrow> ''not-advertised'' | Undetermined \<Rightarrow> ''undetermined'')"

record EndpointResult =
  er_host :: string
  er_resolved_ip :: "string option"
  er_protocol :: string
  advertised :: "Advertisement option"
  negotiated_alpn :: "string option"
  er_verdict :: EndpointVerdict
  er_detail :: string
  er_elapsed_ms :: u64

datatype NetworkVerdict = Usable | Filtered "string list" | Inconclusive string

definition MIN_CORROBORATING_ENDPOINTS :: nat where "MIN_CORROBORATING_ENDPOINTS = 2"

section \<open>Reading the Alt-Svc header\<close>

definition crlf2 :: string where "crlf2 = [CHR 0x0D, CHR 0x0A, CHR 0x0D, CHR 0x0A]"

definition find_header_end :: "string \<Rightarrow> nat option" where
  "find_header_end buf = map_option (\<lambda>p. p + 4) (find_str buf crlf2)"

definition looks_like_http_response :: "string \<Rightarrow> bool" where
  "looks_like_http_response buf = (if buf = [] then False else starts_with (take 16 buf) ''HTTP/1.'')"

definition alt_svc_advertises_h3 :: "string \<Rightarrow> bool" where
  "alt_svc_advertises_h3 value \<longleftrightarrow> contains value ''h3='' \<or> contains value ''h3-''"

text \<open>One read of the TLS stream: bytes (none at the end of the stream), a timeout or would-block, or
  another error.\<close>

datatype ReadRes = Bytes string | ReadBlocked | ReadErr string

text \<open>The reading loop. A peer that stops sending is an end of the list: the read timeout ends it.\<close>

fun read_loop :: "string \<Rightarrow> ReadRes list \<Rightarrow> string + string" where
  "read_loop buf [] = Inr buf"
| "read_loop buf (Bytes chunk # rs) =
     (if chunk = [] then Inr buf
      else let buf' = buf @ chunk in
           if 64 * 1024 < length buf' then Inr buf'
           else case find_header_end buf' of
                  Some pos \<Rightarrow> Inr (take pos buf')
                | None \<Rightarrow> read_loop buf' rs)"
| "read_loop buf (ReadBlocked # rs) = Inr buf"
| "read_loop buf (ReadErr e # rs) = Inl (''read: '' @ e)"

record FetchObs =
  fetch_tcp_err :: "string option"
  fetch_name_err :: "string option"
  fetch_tls_err :: "string option"
  fetch_write_err :: "string option"
  fetch_reads :: "ReadRes list"

definition alt_svc_line :: "string \<Rightarrow> bool" where
  "alt_svc_line l \<longleftrightarrow> starts_with (to_lowercase l) ''alt-svc:''"

definition fetch_alt_svc :: "FetchObs \<Rightarrow> string + string option" where
  "fetch_alt_svc ob =
     (case fetch_tcp_err ob of Some e \<Rightarrow> Inl (''tcp connect: '' @ e)
      | None \<Rightarrow> (case fetch_name_err ob of Some e \<Rightarrow> Inl (''invalid server name: '' @ e)
      | None \<Rightarrow> (case fetch_tls_err ob of Some e \<Rightarrow> Inl (''tls client config: '' @ e)
      | None \<Rightarrow> (case fetch_write_err ob of Some e \<Rightarrow> Inl (''write: '' @ e)
      | None \<Rightarrow> (case read_loop [] (fetch_reads ob) of
          Inl e \<Rightarrow> Inl e
        | Inr buf \<Rightarrow>
            if \<not> looks_like_http_response buf
            then Inl (''response did not parse as HTTP/1.1 ('' @ show_nat (length buf) @ '' bytes read)'')
            else Inr (map_option (\<lambda>l. trim (drop 8 l))
                   (List.find (\<lambda>l. starts_with l ''alt-svc:'') (lines (to_lowercase buf)))))))))"

datatype CurlObs = CurlSpawnErr string | CurlExit string | CurlOut string

definition curl_alt_svc :: "CurlObs \<Rightarrow> string + string option" where
  "curl_alt_svc ob =
     (case ob of
        CurlSpawnErr e \<Rightarrow> Inl (''curl spawn failed: '' @ e)
      | CurlExit status \<Rightarrow> Inl (''curl exited with '' @ status)
      | CurlOut headers \<Rightarrow>
          if \<not> starts_with (to_lowercase headers) ''http/1.''
          then Inl ''curl output did not parse as an HTTP/1.1 response''
          else Inr (map_option (\<lambda>l. trim (drop 8 l)) (List.find alt_svc_line (lines headers))))"

section \<open>Handshakes\<close>

definition debug_opt :: "string option \<Rightarrow> string" where
  "debug_opt x = (case x of None \<Rightarrow> ''None'' | Some s \<Rightarrow> ''Some('' @ [CHR 0x22] @ s @ [CHR 0x22] @ '')'')"

datatype TcpConnect = TcpOk | TcpErr bool string \<comment> \<open>is it a timeout, and its text\<close>

datatype TlsConnect = TlsErr string | TlsOk "string option" \<comment> \<open>the negotiated ALPN\<close>

record TlsObs =
  tcp :: TcpConnect
  connector_err :: "string option"
  tls :: TlsConnect
  tls_elapsed_text :: string

definition mentions_timeout :: "string \<Rightarrow> bool" where
  "mentions_timeout msg = (let lower = to_lowercase msg in contains lower ''timed out'' \<or> contains lower ''timeout'')"

definition negotiate_tls_alpn :: "string \<Rightarrow> TlsObs \<Rightarrow> EndpointVerdict \<times> string option \<times> string" where
  "negotiate_tls_alpn wanted ob =
     (case tcp ob of
        TcpErr timed_out e \<Rightarrow>
          (if timed_out then Timeout else HandshakeRejected, None, ''tcp connect failed: '' @ e)
      | TcpOk \<Rightarrow>
          (case connector_err ob of
             Some e \<Rightarrow> (HandshakeRejected, None, ''tls connector build: '' @ e)
           | None \<Rightarrow>
               (case tls ob of
                  TlsOk negotiated \<Rightarrow>
                    if negotiated = Some wanted then (EndpointOk, negotiated, ''negotiated in '' @ tls_elapsed_text ob)
                    else (Unsupported, negotiated,
                          ''handshake ok but negotiated '' @ debug_opt negotiated @ '' instead of '' @ wanted)
                | TlsErr msg \<Rightarrow>
                    (if mentions_timeout msg then Timeout else HandshakeRejected, None,
                     ''tls handshake failed: '' @ msg))))"

datatype H3Connect = H3Timeout | H3Err string | H3Ok "string option"

record H3Obs =
  h3_runtime_err :: "string option"
  h3_tls_err :: "string option"
  h3_idle_invalid :: bool
  h3_bind_err :: "string option"
  h3_connect_err :: "string option"
  h3_result :: H3Connect
  h3_elapsed_text :: string
  h3_timeout_text :: string

definition negotiate_h3_async :: "H3Obs \<Rightarrow> EndpointVerdict \<times> string option \<times> string" where
  "negotiate_h3_async ob =
     (case h3_tls_err ob of Some e \<Rightarrow> (HandshakeRejected, None, ''quic tls config: '' @ e)
      | None \<Rightarrow> if h3_idle_invalid ob then (HandshakeRejected, None, ''invalid idle timeout'')
      else case h3_bind_err ob of Some e \<Rightarrow> (HandshakeRejected, None, ''endpoint bind: '' @ e)
      | None \<Rightarrow> (case h3_connect_err ob of Some e \<Rightarrow> (HandshakeRejected, None, ''connect setup: '' @ e)
      | None \<Rightarrow>
          (case h3_result ob of
             H3Ok alpn \<Rightarrow>
               if alpn = Some ''h3'' then (EndpointOk, alpn, ''negotiated in '' @ h3_elapsed_text ob)
               else (Unsupported, alpn, ''quic connected but negotiated '' @ debug_opt alpn @ '' instead of h3'')
           | H3Err msg \<Rightarrow>
               (if mentions_timeout msg then Timeout else HandshakeRejected, None, ''quic handshake failed: '' @ msg)
           | H3Timeout \<Rightarrow> (Timeout, None, ''quic handshake exceeded '' @ h3_timeout_text ob))))"

definition negotiate_h3 :: "H3Obs \<Rightarrow> EndpointVerdict \<times> string option \<times> string" where
  "negotiate_h3 ob =
     (case h3_runtime_err ob of
        Some e \<Rightarrow> (HandshakeRejected, None, ''runtime build: '' @ e)
      | None \<Rightarrow> negotiate_h3_async ob)"

section \<open>One endpoint\<close>

definition resolve_for_preflight :: "(string \<Rightarrow> string + string) \<Rightarrow> string \<Rightarrow> string option \<Rightarrow> string option" where
  "resolve_for_preflight resolve_hostname host forced_ip =
     (case forced_ip of Some ip \<Rightarrow> Some ip | None \<Rightarrow> result_ok (resolve_hostname host))"

record PreflightObs =
  po_tls :: TlsObs
  po_h3 :: H3Obs
  po_fetch :: FetchObs
  po_curl :: CurlObs
  po_elapsed_ms :: u64

definition advertisement_of :: "string option \<Rightarrow> Advertisement" where
  "advertisement_of h =
     (case h of Some alt_svc \<Rightarrow> if alt_svc_advertises_h3 alt_svc then Advertised else NotAdvertised
      | None \<Rightarrow> NotAdvertised)"

definition preflight_one :: "(string \<Rightarrow> string + string) \<Rightarrow> string \<Rightarrow> string option \<Rightarrow> Protocol \<Rightarrow> PreflightObs \<Rightarrow>
    EndpointResult" where
  "preflight_one resolve_hostname host forced_ip proto ob =
     (let result = (\<lambda>ip adv alpn v det. \<lparr>er_host = host, er_resolved_ip = ip, er_protocol = protocol_as_str proto,
            advertised = adv, negotiated_alpn = alpn, er_verdict = v, er_detail = det,
            er_elapsed_ms = po_elapsed_ms ob\<rparr>)
      in case resolve_for_preflight resolve_hostname host forced_ip of
           None \<Rightarrow> result None None None Timeout ''DNS resolution failed''
         | Some ip \<Rightarrow>
             if proto = Http1 \<or> proto = Http2
             then (case negotiate_tls_alpn (alpn_token proto) (po_tls ob) of (v, alpn, det) \<Rightarrow>
                     result (Some ip) None alpn v det)
             else
               let adv = (case fetch_alt_svc (po_fetch ob) of
                            Inr h \<Rightarrow> Inr (advertisement_of h)
                          | Inl direct_err \<Rightarrow>
                              (case curl_alt_svc (po_curl ob) of
                                 Inr h \<Rightarrow> Inr (advertisement_of h)
                               | Inl _ \<Rightarrow> Inl direct_err))
               in case adv of
                    Inl direct_err \<Rightarrow> result (Some ip) (Some Undetermined) None Timeout
                      (''could not determine Alt-Svc advertisement: '' @ direct_err)
                  | Inr a \<Rightarrow>
                      (case negotiate_h3 (po_h3 ob) of (v, alpn, det) \<Rightarrow>
                         if a = NotAdvertised \<and> v \<noteq> EndpointOk
                         then result (Some ip) (Some a) alpn Unsupported
                                (det @ '' (confirmed no Alt-Svc h3 advertisement)'')
                         else result (Some ip) (Some a) alpn v det))"

section \<open>The network verdict\<close>

definition is_failure :: "EndpointResult \<Rightarrow> bool" where
  "is_failure r \<longleftrightarrow> er_verdict r \<in> {HandshakeRejected, Timeout, EndpointFiltered}"

definition network_verdict :: "EndpointResult list \<Rightarrow> string list \<Rightarrow> NetworkVerdict" where
  "network_verdict results control_ok_hosts =
     (let known_capable_failures = filter is_failure results;
          ok_count = length (filter (\<lambda>r. er_verdict r = EndpointOk) results);
          unsupported_count = length (filter (\<lambda>r. er_verdict r = Unsupported) results)
      in if results = [] then Inconclusive ''no endpoints tested''
         else if ok_count = length results then Usable
         else if 0 < ok_count \<and> known_capable_failures = [] then Usable
         else
           let corroborating = map er_host (filter (\<lambda>r. er_host r \<in> set control_ok_hosts) known_capable_failures)
           in if MIN_CORROBORATING_ENDPOINTS \<le> length corroborating then Filtered corroborating
              else if unsupported_count = length results
              then Inconclusive ''every tested endpoint is unsupported for this protocol; add known-capable endpoints''
              else Inconclusive (''only '' @ show_nat (length corroborating) @ '' of ''
                     @ show_nat MIN_CORROBORATING_ENDPOINTS
                     @ '' required known-capable-endpoint failures corroborated (need ''
                     @ show_nat MIN_CORROBORATING_ENDPOINTS
                     @ ''); add more known-capable endpoints or confirm control-protocol reachability''))"

section \<open>Lemmas\<close>

lemma find_str_append: "find_str s p = Some i \<Longrightarrow> p \<noteq> [] \<Longrightarrow> find_str (s @ t) p = Some i"
proof (induction s arbitrary: i)
  case (Cons c s)
  have "starts_with (c # s) p \<Longrightarrow> starts_with (c # s @ t) p"
    unfolding starts_with_iff by (metis append_Cons append_assoc)
  moreover have "\<not> starts_with (c # s @ t) p" if "\<not> starts_with (c # s) p" "find_str s p \<noteq> None"
  proof -
    have "contains s p" using that(2) by (simp add: contains_def)
    then obtain a b where "s = a @ p @ b" unfolding contains_iff by blast
    then have "length p \<le> length (c # s)" by simp
    then have "take (length p) ((c # s) @ t) = take (length p) (c # s)" by (simp only: take_append) simp
    then show ?thesis using that(1) unfolding starts_with_def by (metis append_Cons)
  qed
  ultimately show ?case using Cons by (auto split: if_splits)
qed simp

lemma find_str_bound: "find_str s p = Some i \<Longrightarrow> i + length p \<le> length s"
  by (induction s arbitrary: i) (auto simp: starts_with_def split: if_splits dest: arg_cong[of _ _ length])

lemma find_header_end_append:
  assumes "find_header_end s = Some n"
  shows "find_header_end (s @ t) = Some n \<and> take n (s @ t) = take n s"
proof -
  obtain i where i: "find_str s crlf2 = Some i" "n = i + 4"
    using assms by (auto simp: find_header_end_def)
  have "find_str (s @ t) crlf2 = Some i" using find_str_append[OF i(1)] by (simp add: crlf2_def)
  moreover have "n \<le> length s" using find_str_bound[OF i(1)] i(2) by (simp add: crlf2_def)
  ultimately show ?thesis using i(2) by (simp add: find_header_end_def)
qed

lemma read_loop_chunks:
  assumes "find_header_end (buf @ concat cs) = Some n" and "find_header_end buf = None"
    and "length (buf @ concat cs) \<le> 64 * 1024" and "[] \<notin> set cs"
  shows "read_loop buf (map Bytes cs @ rest) = Inr (take n (buf @ concat cs))"
  using assms
proof (induction cs arbitrary: buf)
  case (Cons c cs)
  show ?case
  proof (cases "find_header_end (buf @ c)")
    case None
    with Cons.IH[of "buf @ c"] Cons.prems show ?thesis by (auto simp: Let_def)
  next
    case (Some m)
    with find_header_end_append[OF Some, of "concat cs"] Cons.prems show ?thesis by (auto simp: Let_def)
  qed
qed simp

lemma network_verdict_Filtered:
  "network_verdict rs control = Filtered hs \<longleftrightarrow>
     hs = map er_host (filter (\<lambda>r. is_failure r \<and> er_host r \<in> set control) rs) \<and> 2 \<le> length hs"
proof -
  let ?fs = "filter (\<lambda>r. is_failure r \<and> er_host r \<in> set control) rs"
  have f: "filter (\<lambda>r. er_host r \<in> set control) (filter is_failure rs) = ?fs" by (simp add: conj_commute)
  have ok: "length (filter (\<lambda>r. er_verdict r = EndpointOk) rs) \<noteq> length rs"
    if ne: "?fs \<noteq> []"
  proof -
    obtain r where "r \<in> set rs" "is_failure r" using ne unfolding filter_empty_conv by blast
    then have "er_verdict r \<noteq> EndpointOk" by (auto simp: is_failure_def)
    with \<open>r \<in> set rs\<close> show ?thesis unfolding length_filter_eq_iff by blast
  qed
  have "filter is_failure rs = [] \<Longrightarrow> ?fs = []" by (auto simp: filter_empty_conv)
  then show ?thesis
    unfolding network_verdict_def Let_def f MIN_CORROBORATING_ENDPOINTS_def
    using ok by (cases "?fs = []") (auto split: if_splits)
qed

text \<open>The negotiations never report an endpoint as filtered.\<close>

lemma negotiate_tls_verdict: "fst (negotiate_tls_alpn wanted ob) \<noteq> EndpointFiltered"
  by (auto simp: negotiate_tls_alpn_def split: TcpConnect.splits option.splits TlsConnect.splits)

lemma negotiate_h3_verdict: "fst (negotiate_h3 ob) \<noteq> EndpointFiltered"
  by (auto simp: negotiate_h3_def negotiate_h3_async_def split: option.splits H3Connect.splits)

lemma advertisement_cases: "advertisement_of h = Advertised \<or> advertisement_of h = NotAdvertised"
  by (auto simp: advertisement_of_def split: option.splits)

section \<open>Properties\<close>

text \<open>C4: when a network is called filtering, and what counts towards it. The verdict names the hosts of
  exactly those entries of the result list that failed and whose host is a control host, in their order, and needs at
  least two such entries. An entry of the preflight fails when its name does not resolve; over TLS, when the
  negotiation ended in a rejection or a timeout; and for HTTP/3, when neither probe of the advertisement got an answer
  (no handshake is then tried), or when the advertisement is there and the handshake failed. Entries are counted, not
  hosts, so the same failure listed twice corroborates itself, against the documentation, which requires two
  independent endpoints. The protocol is usable exactly when some entry negotiated it and every other is unsupported.\<close>

theorem filtered_is_corroborated:
  "(network_verdict rs control = Filtered hs \<longleftrightarrow>
      hs = map er_host (filter (\<lambda>r. er_verdict r \<in> {HandshakeRejected, Timeout, EndpointFiltered}
             \<and> er_host r \<in> set control) rs)
      \<and> 2 \<le> length hs)
   \<and> (is_failure (preflight_one resolve host forced proto ob) \<longleftrightarrow>
        resolve_for_preflight resolve host forced = None
        \<or> (if proto \<in> {Http1, Http2}
           then fst (negotiate_tls_alpn (alpn_token proto) (po_tls ob)) \<in> {HandshakeRejected, Timeout}
           else (case (fetch_alt_svc (po_fetch ob), curl_alt_svc (po_curl ob)) of
                   (Inl _, Inl _) \<Rightarrow> True
                 | (Inr h, _) \<Rightarrow> advertisement_of h = Advertised \<and> fst (negotiate_h3 (po_h3 ob)) \<in> {HandshakeRejected, Timeout}
                 | (_, Inr h) \<Rightarrow> advertisement_of h = Advertised \<and> fst (negotiate_h3 (po_h3 ob)) \<in> {HandshakeRejected, Timeout})))
   \<and> (network_verdict [r, r] control = Filtered [er_host r, er_host r] \<longleftrightarrow>
        is_failure r \<and> er_host r \<in> set control)
   \<and> (network_verdict rs control = Usable \<longleftrightarrow>
        (\<exists>r \<in> set rs. er_verdict r = EndpointOk)
        \<and> set (map er_verdict rs) \<subseteq> {EndpointOk, Unsupported})"
proof (intro conjI)
  show "network_verdict rs control = Filtered hs \<longleftrightarrow>
      hs = map er_host (filter (\<lambda>r. er_verdict r \<in> {HandshakeRejected, Timeout, EndpointFiltered}
             \<and> er_host r \<in> set control) rs) \<and> 2 \<le> length hs"
    using network_verdict_Filtered[of rs control hs] unfolding is_failure_def .
  show "is_failure (preflight_one resolve host forced proto ob) \<longleftrightarrow>
        resolve_for_preflight resolve host forced = None
        \<or> (if proto \<in> {Http1, Http2}
           then fst (negotiate_tls_alpn (alpn_token proto) (po_tls ob)) \<in> {HandshakeRejected, Timeout}
           else (case (fetch_alt_svc (po_fetch ob), curl_alt_svc (po_curl ob)) of
                   (Inl _, Inl _) \<Rightarrow> True
                 | (Inr h, _) \<Rightarrow> advertisement_of h = Advertised \<and> fst (negotiate_h3 (po_h3 ob)) \<in> {HandshakeRejected, Timeout}
                 | (_, Inr h) \<Rightarrow> advertisement_of h = Advertised \<and> fst (negotiate_h3 (po_h3 ob)) \<in> {HandshakeRejected, Timeout}))"
    using negotiate_tls_verdict[of "alpn_token proto" "po_tls ob"] negotiate_h3_verdict[of "po_h3 ob"]
      advertisement_cases
    by (auto simp: preflight_one_def Let_def is_failure_def split: option.split sum.split prod.split if_splits)
  show "network_verdict [r, r] control = Filtered [er_host r, er_host r] \<longleftrightarrow>
        is_failure r \<and> er_host r \<in> set control"
    unfolding network_verdict_Filtered by auto
  have v: "set (map er_verdict rs) \<subseteq> {EndpointOk, Unsupported} \<longleftrightarrow> filter is_failure rs = []"
  proof -
    have "v \<in> {EndpointOk, Unsupported} \<longleftrightarrow> v \<notin> {HandshakeRejected, Timeout, EndpointFiltered}" for v
      by (cases v) auto
    then show ?thesis by (auto simp: filter_empty_conv is_failure_def)
  qed
  show "network_verdict rs control = Usable \<longleftrightarrow>
      (\<exists>r \<in> set rs. er_verdict r = EndpointOk) \<and> set (map er_verdict rs) \<subseteq> {EndpointOk, Unsupported}"
    unfolding v unfolding network_verdict_def Let_def length_filter_eq_iff
    by (cases rs) (auto simp: filter_empty_conv is_failure_def MIN_CORROBORATING_ENDPOINTS_def)
qed

text \<open>The HTTP/3 preflight of one endpoint. An endpoint confirmed not to advertise HTTP/3 is
  never reported as a failure, however its handshake ended; the confirmation always rests on a
  response that parsed, fetched directly or by curl; if neither probe got one the advertisement stays
  undetermined; and success means that the peer negotiated \<open>h3\<close>.\<close>

theorem h3_preflight_sound:
  "let r = preflight_one resolve host forced Http3 ob in
     (advertised r = Some NotAdvertised \<longleftrightarrow>
        resolve_for_preflight resolve host forced \<noteq> None
        \<and> (\<exists>h. (fetch_alt_svc (po_fetch ob) = Inr h
               \<or> ((\<exists>e. fetch_alt_svc (po_fetch ob) = Inl e) \<and> curl_alt_svc (po_curl ob) = Inr h))
             \<and> \<not> (\<exists>v. h = Some v \<and> alt_svc_advertises_h3 v)))
   \<and> (advertised r = Some NotAdvertised \<and> er_verdict r \<noteq> EndpointOk \<longleftrightarrow>
        advertised r = Some NotAdvertised \<and> er_verdict r = Unsupported)
   \<and> (advertised r = Some Undetermined \<longleftrightarrow>
        resolve_for_preflight resolve host forced \<noteq> None
        \<and> (\<exists>e e'. fetch_alt_svc (po_fetch ob) = Inl e \<and> curl_alt_svc (po_curl ob) = Inl e'))
   \<and> (if er_verdict r = EndpointOk then negotiated_alpn r = Some ''h3'' else True)"
proof -
  have n: "fst (negotiate_h3 (po_h3 ob)) = EndpointOk \<Longrightarrow> fst (snd (negotiate_h3 (po_h3 ob))) = Some ''h3''"
    by (auto simp: negotiate_h3_def negotiate_h3_async_def split: option.splits if_splits H3Connect.splits)
  have a: "advertisement_of h \<noteq> Undetermined" "advertisement_of h = NotAdvertised \<longleftrightarrow> \<not> (\<exists>v. h = Some v \<and> alt_svc_advertises_h3 v)" for h
    by (auto simp: advertisement_of_def split: option.split)
  show ?thesis
    unfolding Let_def
  proof (intro conjI)
    show "(if er_verdict (preflight_one resolve host forced Http3 ob) = EndpointOk
         then negotiated_alpn (preflight_one resolve host forced Http3 ob) = Some ''h3'' else True)"
      using n by (auto simp: preflight_one_def Let_def split: option.splits sum.splits prod.splits)
  qed (auto simp: preflight_one_def Let_def a split: option.splits sum.splits prod.splits)
qed

text \<open>The direct probe does not depend on how the response arrives. For any splitting of the
  response into non-empty reads, as long as its header ends within the first 64 KiB, the reading loop
  returns exactly the header up to and including the blank line.\<close>

theorem header_read_any_chunking:
  assumes "find_header_end (concat cs) = Some n" and "length (concat cs) \<le> 65536" and "[] \<notin> set cs"
  shows "read_loop [] (map Bytes cs @ rest) = Inr (take n (concat cs))"
  using read_loop_chunks[of "[]" cs n rest] assms by (simp add: find_header_end_def crlf2_def)

definition sample_response :: string where
  "sample_response = ''HTTP/1.1 200 OK'' @ [CHR 0x0D, CHR 0x0A] @ ''Alt-Svc: h3='' @ [CHR 0x0D, CHR 0x0A, CHR 0x0D, CHR 0x0A] @ ''body''"

theorem header_read_any_chunking_witness:
  "read_loop [] (map Bytes [take 7 sample_response, drop 7 sample_response] @ [ReadBlocked])
     = Inr (take 33 sample_response)"
proof -
  have c: "concat [take 7 sample_response, drop 7 sample_response] = sample_response" by simp
  have "find_header_end sample_response = Some 33" by code_simp
  moreover have "length sample_response = 37" by (simp add: sample_response_def)
  ultimately show ?thesis
    using header_read_any_chunking[of "[take 7 sample_response, drop 7 sample_response]" 33 "[ReadBlocked]"]
    unfolding c by (auto simp: sample_response_def)
qed

definition h3_result_of :: "string \<Rightarrow> Advertisement \<Rightarrow> EndpointVerdict \<Rightarrow> EndpointResult" where
  "h3_result_of h a v = \<lparr>er_host = h, er_resolved_ip = Some ''192.0.2.1'', er_protocol = ''h3'', advertised = Some a,
     negotiated_alpn = None, er_verdict = v, er_detail = [], er_elapsed_ms = 0\<rparr>"

text \<open>Three ways the network verdict is weaker than its documentation. One host listed twice
  counts as two independent failures; two endpoints whose advertisement could not be determined at
  all, so that no HTTP/3 handshake was even tried, count as known-capable failures; and two failures
  give the verdict although a third endpoint negotiated the protocol on the same network.\<close>

theorem filtered_gaps:
  "network_verdict [h3_result_of ''a'' Advertised Timeout, h3_result_of ''a'' Advertised Timeout] [''a''] = Filtered [''a'', ''a'']
   \<and> network_verdict [h3_result_of ''a'' Undetermined Timeout, h3_result_of ''b'' Undetermined Timeout] [''a'', ''b'']
       = Filtered [''a'', ''b'']
   \<and> network_verdict [h3_result_of ''a'' Advertised Timeout, h3_result_of ''b'' Advertised Timeout,
                       h3_result_of ''c'' Advertised EndpointOk] [''a'', ''b'', ''c''] = Filtered [''a'', ''b'']"
  unfolding network_verdict_Filtered by (simp add: h3_result_of_def is_failure_def)

end
