(* ===== verification/Mss_Evidence.thy ===== *)
theory Mss_Evidence
  imports Fraggle_Prelude "HOL-Library.List_Lexorder" "HOL-Library.Char_ord" "HOL-Library.Product_Lexorder"
begin

text \<open>
  \<open>network_tests/mss_evidence.rs\<close>: MSS values seen in SYN and SYN-ACK segments of a capture, their
  attribution, and the clustering of negotiated MSS values over destinations.

  The capture library and the frame parser (\<open>pcap_file\<close>, \<open>etherparse\<close>) are represented by what they
  hand to the source: a frame is \<open>None\<close> when it does not parse as an IP packet with a TCP segment, and
  the options of a segment are the elements of the library's iterator. The \<open>HashMap\<close> of flows is an
  association list with distinct keys; the unspecified order of \<open>into_values\<close> is the argument \<open>perm\<close>.
\<close>

datatype Confidence = Insufficient | Low | Medium | High

record FlowMssEvidence =
  local_ip :: string
  local_port :: u16
  peer_ip :: string
  peer_port :: u16
  local_advertised :: "u16 option"
  peer_advertised :: "u16 option"
  both_directions_observed :: bool

definition flow_new :: "string \<Rightarrow> u16 \<Rightarrow> string \<Rightarrow> u16 \<Rightarrow> FlowMssEvidence" where
  "flow_new li lp pi pp = \<lparr>local_ip = li, local_port = lp, peer_ip = pi, peer_port = pp,
     local_advertised = None, peer_advertised = None, both_directions_observed = False\<rparr>"

definition recompute :: "FlowMssEvidence \<Rightarrow> FlowMssEvidence" where
  "recompute f = f\<lparr>both_directions_observed := (local_advertised f \<noteq> None \<and> peer_advertised f \<noteq> None)\<rparr>"

datatype MiddleboxVerdict = NoRewriteEvidence | Ambiguous | InsufficientEvidence

record MiddleboxAttribution =
  mb_verdict :: MiddleboxVerdict
  confidence :: Confidence
  explanation :: string

definition attribute_middlebox :: "FlowMssEvidence \<Rightarrow> MiddleboxAttribution" where
  "attribute_middlebox flow =
     (if \<not> both_directions_observed flow then
        \<lparr>mb_verdict = InsufficientEvidence, confidence = Insufficient,
         explanation = ''only '' @ (if local_advertised flow \<noteq> None then ''the local->peer'' else ''the peer->local'')
           @ '' SYN direction observed for '' @ local_ip flow @ '':'' @ show_word (local_port flow) @ '' <-> ''
           @ peer_ip flow @ '':'' @ show_word (peer_port flow)
           @ ''; a middlebox-rewrite claim requires both SYN and SYN-ACK''\<rparr>
      else
        \<lparr>mb_verdict = Ambiguous, confidence = Low,
         explanation = ''both directions observed: local advertised '' @ show_word (the (local_advertised flow))
           @ '' in SYN, peer advertised '' @ show_word (the (peer_advertised flow)) @ '' in SYN-ACK to ''
           @ peer_ip flow @ '':'' @ show_word (peer_port flow)
           @ ''. This alone cannot distinguish genuine peer/proxy policy from an in-path rewrite of either value; it requires corroboration across independent flows to the same or different peers to raise confidence.''\<rparr>)"

record GapTenReport =
  source :: string
  flows :: "FlowMssEvidence list"
  attributions :: "MiddleboxAttribution list"
  flows_with_both_directions :: nat
  flows_total :: nat

datatype MssEvidenceError = Io string | UnrecognizedFormat | PcapError string

section \<open>Frames\<close>

datatype TcpOption = OptMss u16 | OptOther | OptMalformed

fun mss_from_options :: "TcpOption list \<Rightarrow> u16 option" where
  "mss_from_options [] = None"
| "mss_from_options (OptMss v # os) = Some v"
| "mss_from_options (_ # os) = mss_from_options os"

record TcpFrame =
  src_ip :: string
  src_port :: u16
  dst_ip :: string
  dst_port :: u16
  syn :: bool
  ack :: bool
  options :: "TcpOption list"

type_synonym flow_key = "string \<times> u16 \<times> string \<times> u16"
type_synonym flow_table = "(flow_key \<times> FlowMssEvidence) list"

text \<open>\<open>HashMap::entry(key).or_insert_with(..)\<close> followed by an update in place.\<close>

definition entry_update :: "flow_key \<Rightarrow> FlowMssEvidence \<Rightarrow> (FlowMssEvidence \<Rightarrow> FlowMssEvidence) \<Rightarrow> flow_table \<Rightarrow> flow_table" where
  "entry_update k d f t =
     (if k \<in> fst ` set t then map (\<lambda>(k', v). if k' = k then (k', f v) else (k', v)) t else t @ [(k, f d)])"

text \<open>Which endpoint is the local one, and whether the segment came from it.\<close>

definition orient :: "string list \<Rightarrow> TcpFrame \<Rightarrow> (flow_key \<times> bool) option" where
  "orient local_ips fr =
     (let out = ((src_ip fr, src_port fr, dst_ip fr, dst_port fr), True);
          inc = ((dst_ip fr, dst_port fr, src_ip fr, src_port fr), False)
      in if local_ips = [] then (if \<not> ack fr then Some out else Some inc)
         else if src_ip fr \<in> set local_ips then Some out
         else if dst_ip fr \<in> set local_ips then Some inc
         else None)"

definition record_syn :: "string list \<Rightarrow> TcpFrame \<Rightarrow> flow_table \<Rightarrow> flow_table" where
  "record_syn local_ips fr t =
     (case mss_from_options (options fr) of
        None \<Rightarrow> t
      | Some mss \<Rightarrow>
          if \<not> syn fr then t
          else case orient local_ips fr of
                 None \<Rightarrow> t
               | Some ((la, lp, pa, pp), is_local_leg) \<Rightarrow>
                   entry_update (la, lp, pa, pp) (flow_new la lp pa pp)
                     (\<lambda>e. recompute (if is_local_leg then e\<lparr>local_advertised := Some mss\<rparr>
                                     else e\<lparr>peer_advertised := Some mss\<rparr>)) t)"

definition inspect_frame :: "string list \<Rightarrow> TcpFrame option \<Rightarrow> flow_table \<Rightarrow> flow_table" where
  "inspect_frame local_ips parsed t =
     (case parsed of
        None \<Rightarrow> t
      | Some fr \<Rightarrow> if \<not> syn fr then t else record_syn local_ips fr t)"

text \<open>The reading loop: the first block that fails to read ends the ingestion with an error; a pcapng
  block that is no packet is \<open>Inr None\<close>.\<close>

fun read_blocks :: "string list \<Rightarrow> (string + TcpFrame option) list \<Rightarrow> flow_table \<Rightarrow> MssEvidenceError + flow_table" where
  "read_blocks local_ips [] t = Inr t"
| "read_blocks local_ips (Inl e # bs) t = Inl (PcapError e)"
| "read_blocks local_ips (Inr b # bs) t = read_blocks local_ips bs (inspect_frame local_ips b t)"

record CaptureFile =
  read_result :: "string + u8 list"
  reader_err :: "string option"
  blocks :: "(string + TcpFrame option) list"

definition recognized_magic :: "u8 list \<Rightarrow> bool" where
  "recognized_magic magic \<longleftrightarrow>
     magic = [0x0A, 0x0D, 0x0D, 0x0A] \<or> magic = [0xA1, 0xB2, 0xC3, 0xD4] \<or> magic = [0xA1, 0xB2, 0x3C, 0x4D]
     \<or> magic = [0xD4, 0xC3, 0xB2, 0xA1] \<or> magic = [0x4D, 0x3C, 0xB2, 0xA1]"

definition ingest_syn_mss :: "(FlowMssEvidence list \<Rightarrow> FlowMssEvidence list) \<Rightarrow> string \<Rightarrow> CaptureFile \<Rightarrow>
    string list \<Rightarrow> MssEvidenceError + GapTenReport" where
  "ingest_syn_mss perm path file local_ips =
     (case read_result file of
        Inl e \<Rightarrow> Inl (Io e)
      | Inr bytes \<Rightarrow>
          if length bytes < 4 \<or> \<not> recognized_magic (take 4 bytes) then Inl UnrecognizedFormat
          else case reader_err file of
                 Some e \<Rightarrow> Inl (PcapError e)
               | None \<Rightarrow>
                   (case read_blocks local_ips (blocks file) [] of
                      Inl e \<Rightarrow> Inl e
                    | Inr t \<Rightarrow>
                        let flow_list = sort_key (\<lambda>f. (peer_ip f, peer_port f)) (perm (map snd t))
                        in Inr \<lparr>source = path, flows = flow_list, attributions = map attribute_middlebox flow_list,
                                flows_with_both_directions = length (filter both_directions_observed flow_list),
                                flows_total = length flow_list\<rparr>))"

section \<open>Clustering\<close>

record DestinationMss =
  destination :: string
  negotiated_mss :: u16

datatype ClusterVerdict = PeerSpecific | UniformClampOrProxy | TruePmtuCeiling | ClusterInconclusive

record GapTwentySixReport =
  destinations :: "DestinationMss list"
  route_mtu :: "u16 option"
  route_interface :: "string option"
  route_is_tunnel :: bool
  large_df_probe_confirmed :: "bool option"
  mss_spread :: u16
  cluster_verdict :: ClusterVerdict
  cluster_explanation :: string

definition CONVERGENCE_TOLERANCE_BYTES :: u16 where "CONVERGENCE_TOLERANCE_BYTES = 24"

definition cluster_destination_mss :: "DestinationMss list \<Rightarrow> u16 option \<Rightarrow> string option \<Rightarrow> bool \<Rightarrow> bool option \<Rightarrow>
    GapTwentySixReport" where
  "cluster_destination_mss dests mtu iface tunnel probe =
     (let mss_values = map negotiated_mss dests;
          spread = (case (iter_min mss_values, iter_max mss_values) of (Some mn, Some mx) \<Rightarrow> mx - mn | _ \<Rightarrow> 0);
          n = show_nat (length dests);
          converged = ''MSS converged to within '' @ show_word spread @ '' bytes across '' @ n @ '' independent destinations'';
          (v, expl) =
            (if length dests < 2
             then (ClusterInconclusive, ''fewer than two independent destinations probed; cannot cluster'')
             else if CONVERGENCE_TOLERANCE_BYTES < spread
             then (PeerSpecific, ''MSS spread of '' @ show_word spread @ '' bytes across '' @ n
                    @ '' destinations exceeds the '' @ show_word CONVERGENCE_TOLERANCE_BYTES
                    @ ''-byte convergence tolerance -- values are destination-specific, no evidence of a uniform clamp'')
             else (case probe of
                     Some True \<Rightarrow> (UniformClampOrProxy, converged @ '', but a large DF-marked probe on the same path was confirmed to succeed -- a true PMTU ceiling would have broken that probe too, so this is TCP-specific clamping or transparent proxying, not a low path MTU'')
                   | Some False \<Rightarrow> (TruePmtuCeiling, converged @ '' AND a large DF-marked probe on the same path failed to be confirmed -- consistent with a true path MTU ceiling'')
                   | None \<Rightarrow> (ClusterInconclusive, converged @ '', but no large DF-marked probe result is available to discriminate a TCP clamp from a true PMTU ceiling'')))
      in \<lparr>destinations = dests, route_mtu = mtu, route_interface = iface, route_is_tunnel = tunnel,
          large_df_probe_confirmed = probe, mss_spread = spread, cluster_verdict = v, cluster_explanation = expl\<rparr>)"

section \<open>Lemmas on the flow table\<close>

lemma entry_update_keys:
  assumes "distinct (map fst t)"
  shows "distinct (map fst (entry_update k d f t))"
proof (cases "k \<in> fst ` set t")
  case True
  have "map fst (map (\<lambda>(k', v). if k' = k then (k', f v) else (k', v)) t) = map fst t"
    by (induction t) auto
  with True assms show ?thesis by (simp only: entry_update_def if_True)
next
  case False
  with assms show ?thesis by (simp add: entry_update_def)
qed

lemma entry_update_lookup:
  "map_of (entry_update k d f t) = (map_of t)(k \<mapsto> f (case map_of t k of None \<Rightarrow> d | Some v \<Rightarrow> v))"
proof (cases "k \<in> fst ` set t")
  case True
  have "map_of (map (\<lambda>(k', v). if k' = k then (k', f v) else (k', v)) t) x
      = (if x = k then map_option f (map_of t k) else map_of t x)" for x
    by (induction t) auto
  moreover obtain v where "map_of t k = Some v" using True by (metis domD dom_map_of_conv_image_fst)
  ultimately show ?thesis using True by (auto simp: entry_update_def fun_eq_iff)
next
  case False
  then have "map_of t k = None" by (simp add: map_of_eq_None_iff)
  then show ?thesis using False by (auto simp: entry_update_def fun_eq_iff map_add_def split: option.split)
qed

text \<open>What a table must hold after the given segments: for each flow, the last MSS each side
  offered in a SYN.\<close>

definition offers :: "string list \<Rightarrow> flow_key \<Rightarrow> bool \<Rightarrow> TcpFrame option \<Rightarrow> u16 option" where
  "offers local_ips k leg parsed =
     (case parsed of None \<Rightarrow> None
      | Some fr \<Rightarrow> if syn fr \<and> orient local_ips fr = Some (k, leg) then mss_from_options (options fr) else None)"

definition last_offer :: "string list \<Rightarrow> flow_key \<Rightarrow> bool \<Rightarrow> TcpFrame option list \<Rightarrow> u16 option" where
  "last_offer local_ips k leg frs =
     (let xs = filter_map (offers local_ips k leg) frs in if xs = [] then None else Some (last xs))"

definition flow_spec :: "string list \<Rightarrow> TcpFrame option list \<Rightarrow> flow_key \<Rightarrow> FlowMssEvidence option" where
  "flow_spec local_ips frs k =
     (let l = last_offer local_ips k True frs; p = last_offer local_ips k False frs in
      case k of (la, lp, pa, pp) \<Rightarrow>
        if l = None \<and> p = None then None
        else Some \<lparr>local_ip = la, local_port = lp, peer_ip = pa, peer_port = pp, local_advertised = l,
                   peer_advertised = p, both_directions_observed = (l \<noteq> None \<and> p \<noteq> None)\<rparr>)"

lemma last_offer_snoc:
  "last_offer ips k leg (frs @ [fr]) =
     (case offers ips k leg fr of None \<Rightarrow> last_offer ips k leg frs | Some m \<Rightarrow> Some m)"
  by (simp add: last_offer_def filter_map_append Let_def split: option.split)

lemma inspect_frame_spec:
  assumes "map_of t = flow_spec ips frs"
  shows "map_of (inspect_frame ips fr t) = flow_spec ips (frs @ [fr])"
proof
  fix k :: flow_key
  obtain la lp pa pp where k: "k = (la, lp, pa, pp)" by (cases k) auto
  have tk: "map_of t k = flow_spec ips frs k" for k using assms by simp
  show "map_of (inspect_frame ips fr t) k = flow_spec ips (frs @ [fr]) k"
  proof (cases "\<exists>f m k' leg. fr = Some f \<and> syn f \<and> mss_from_options (options f) = Some m \<and> orient ips f = Some (k', leg)")
    case False
    have none: "offers ips k leg fr = None" for leg
    proof (rule ccontr)
      assume "offers ips k leg fr \<noteq> None"
      then obtain f m where "fr = Some f" "syn f" "orient ips f = Some (k, leg)" "mss_from_options (options f) = Some m"
        by (auto simp: offers_def split: option.splits if_splits)
      with False show "False" by blast
    qed
    have "inspect_frame ips fr t = t"
      using False by (auto simp: inspect_frame_def record_syn_def split: option.split)
    then show ?thesis by (simp add: tk flow_spec_def last_offer_snoc none)
  next
    case True
    then obtain f m k' leg where f: "fr = Some f" "syn f" "mss_from_options (options f) = Some m"
      "orient ips f = Some (k', leg)" by blast
    obtain a b c d where k': "k' = (a, b, c, d)" by (cases k') auto
    have off: "offers ips k l fr = (if k = k' \<and> l = leg then Some m else None)" for l
      using f by (auto simp: offers_def)
    show ?thesis
      by (auto simp: inspect_frame_def record_syn_def f k' entry_update_lookup tk flow_spec_def last_offer_snoc
          off[unfolded f(1)] flow_new_def recompute_def Let_def split: option.split prod.split)
  qed
qed

lemma inspect_frame_keys: "distinct (map fst t) \<Longrightarrow> distinct (map fst (inspect_frame ips fr t))"
  by (auto simp: inspect_frame_def record_syn_def entry_update_keys split: option.split prod.split)

lemma read_blocks_spec:
  assumes "read_blocks ips bs t = Inr t'" and "map_of t = flow_spec ips frs" and "distinct (map fst t)"
  shows "\<exists>news. bs = map Inr news \<and> map_of t' = flow_spec ips (frs @ news) \<and> distinct (map fst t')"
  using assms
proof (induction bs arbitrary: t frs)
  case Nil
  then show ?case by simp
next
  case (Cons b bs)
  then obtain fr where b: "b = Inr fr" by (cases b) auto
  from Cons.IH[OF _ inspect_frame_spec[OF Cons.prems(2), where fr = fr] inspect_frame_keys[OF Cons.prems(3), where fr = fr]] Cons.prems(1)
  obtain news where "bs = map Inr news" "map_of t' = flow_spec ips ((frs @ [fr]) @ news)" "distinct (map fst t')"
    by (auto simp: b)
  then show ?case by (intro exI[of _ "fr # news"]) (simp add: b)
qed

lemma ingest_Inr:
  assumes "ingest_syn_mss perm path file ips = Inr r"
  shows "\<exists>frs t. blocks file = map Inr frs \<and> map_of t = flow_spec ips frs \<and> distinct (map fst t)
    \<and> flows r = sort_key (\<lambda>f. (peer_ip f, peer_port f)) (perm (map snd t))
    \<and> attributions r = map attribute_middlebox (flows r)
    \<and> flows_with_both_directions r = length (filter both_directions_observed (flows r))
    \<and> flows_total r = length (flows r)"
proof -
  obtain t where t: "read_blocks ips (blocks file) [] = Inr t"
    and r: "flows r = sort_key (\<lambda>f. (peer_ip f, peer_port f)) (perm (map snd t))"
      "attributions r = map attribute_middlebox (flows r)"
      "flows_with_both_directions r = length (filter both_directions_observed (flows r))"
      "flows_total r = length (flows r)"
    using assms by (auto simp: ingest_syn_mss_def Let_def split: sum.splits if_splits option.splits)
  have "map_of [] = flow_spec ips []"
    by (auto simp: flow_spec_def last_offer_def fun_eq_iff)
  from read_blocks_spec[OF t this] r show ?thesis by auto
qed

lemma flow_values:
  assumes t: "map_of t = flow_spec ips frs" and d: "distinct (map fst t)" and p: "mset (perm (map snd t)) = mset (map snd t)"
  shows "set (sort_key g (perm (map snd t))) = ran (flow_spec ips frs)"
proof -
  have "set (sort_key g (perm (map snd t))) = set (map snd t)" using p by (metis set_mset_mset set_sort)
  also have "\<dots> = ran (map_of t)" using ran_distinct[OF d] by simp
  finally show ?thesis unfolding t .
qed

text \<open>A block that is no segment, or a segment one of whose ends is a local address (any, when none is given).\<close>

definition matched :: "string list \<Rightarrow> string + TcpFrame option \<Rightarrow> bool" where
  "matched ips b = (case b of Inr (Some fr) \<Rightarrow> ips = [] \<or> src_ip fr \<in> set ips \<or> dst_ip fr \<in> set ips | _ \<Rightarrow> True)"

lemma unmatched_ignored: "\<not> matched ips (Inr b) \<Longrightarrow> inspect_frame ips b t = t"
  by (auto simp: matched_def inspect_frame_def record_syn_def orient_def split: option.splits)

lemma read_blocks_matched: "read_blocks ips (filter (matched ips) bs) t = read_blocks ips bs t"
  by (induction ips bs t rule: read_blocks.induct) (auto simp: unmatched_ignored matched_def[of _ "Inl _"])

lemma ingest_matched:
  "ingest_syn_mss perm path (file\<lparr>blocks := filter (matched ips) (blocks file)\<rparr>) ips = ingest_syn_mss perm path file ips"
  by (cases "read_result file"; cases "reader_err file") (simp_all add: ingest_syn_mss_def read_blocks_matched)

lemma last_offer_local: "last_offer ips (la, lp, pa, pp) leg frs = Some m \<Longrightarrow> ips = [] \<or> la \<in> set ips"
  by (auto simp: last_offer_def offers_def orient_def Let_def filter_map_eq filter_empty_conv
      split: option.splits if_splits)

lemma flow_spec_local: "flow_spec ips frs k = Some f \<Longrightarrow> ips = [] \<or> local_ip f \<in> set ips"
  by (cases k) (auto simp: flow_spec_def Let_def split: if_splits dest: last_offer_local)

section \<open>Properties\<close>

text \<open>C10: what an ingested capture reports. Its flows are exactly those for which some SYN segment
  with an MSS option was read that could be oriented, and each holds the last MSS its local side offered and the last one
  its peer offered (absent if that side offered none), both directions being observed exactly when
  both are present; the flows are sorted by peer. With local addresses given, a segment that matches none of them leaves
  no trace, although the documentation says it is still recorded: the local side of every flow is one of the addresses,
  and the report of the capture without the unmatched segments is the same.\<close>

theorem mss_flows_are_last_offers:
  assumes "ingest_syn_mss perm path file ips = Inr r" and "\<And>xs. mset (perm xs) = mset xs"
  shows "\<exists>frs. blocks file = map Inr frs
    \<and> (\<forall>f. f \<in> set (flows r) \<longleftrightarrow> (\<exists>la lp pa pp l p. l = last_offer ips (la, lp, pa, pp) True frs
          \<and> p = last_offer ips (la, lp, pa, pp) False frs \<and> (l \<noteq> None \<or> p \<noteq> None)
          \<and> f = \<lparr>local_ip = la, local_port = lp, peer_ip = pa, peer_port = pp, local_advertised = l,
                 peer_advertised = p, both_directions_observed = (l \<noteq> None \<and> p \<noteq> None)\<rparr>))
    \<and> sorted (map (\<lambda>f. (peer_ip f, peer_port f)) (flows r)) \<and> flows_total r = length (flows r)
    \<and> list_all (\<lambda>f. ips = [] \<or> local_ip f \<in> set ips) (flows r)
    \<and> ingest_syn_mss perm path (file\<lparr>blocks := filter (matched ips) (blocks file)\<rparr>) ips = Inr r"
proof -
  obtain frs t where f: "blocks file = map Inr frs" "map_of t = flow_spec ips frs" "distinct (map fst t)"
    "flows r = sort_key (\<lambda>f. (peer_ip f, peer_port f)) (perm (map snd t))" "flows_total r = length (flows r)"
    using ingest_Inr[OF assms(1)] by blast
  have "set (flows r) = ran (flow_spec ips frs)"
    unfolding f(4) using f(2,3) assms(2) by (rule flow_values)
  then have "f \<in> set (flows r) \<longleftrightarrow> (\<exists>k. flow_spec ips frs k = Some f)" for f
    by (simp add: ran_def)
  moreover have "(\<exists>k. flow_spec ips frs k = Some f) \<longleftrightarrow> (\<exists>la lp pa pp. flow_spec ips frs (la, lp, pa, pp) = Some f)" for f
    by auto
  ultimately have "f \<in> set (flows r) \<longleftrightarrow> (\<exists>la lp pa pp. flow_spec ips frs (la, lp, pa, pp) = Some f)" for f
    by simp
  moreover have "flow_spec ips frs (la, lp, pa, pp) = Some f \<longleftrightarrow>
      (\<exists>l p. l = last_offer ips (la, lp, pa, pp) True frs \<and> p = last_offer ips (la, lp, pa, pp) False frs
        \<and> (l \<noteq> None \<or> p \<noteq> None)
        \<and> f = \<lparr>local_ip = la, local_port = lp, peer_ip = pa, peer_port = pp, local_advertised = l,
               peer_advertised = p, both_directions_observed = (l \<noteq> None \<and> p \<noteq> None)\<rparr>)" for la lp pa pp f
    unfolding flow_spec_def Let_def by auto
  moreover have "ips = [] \<or> local_ip f \<in> set ips" if "f \<in> set (flows r)" for f
    using that \<open>set (flows r) = ran (flow_spec ips frs)\<close> flow_spec_local[of ips frs _ f] by (auto simp: ran_def)
  then have "list_all (\<lambda>f. ips = [] \<or> local_ip f \<in> set ips) (flows r)" by (simp add: list_all_iff)
  moreover have "ingest_syn_mss perm path (file\<lparr>blocks := filter (matched ips) (blocks file)\<rparr>) ips = Inr r"
    using assms(1) by (simp add: ingest_matched)
  ultimately show ?thesis using f(1,4,5) by auto
qed

text \<open>A capture of one handshake seen from both sides, with a retransmitted SYN.\<close>

definition syn_frame :: "bool \<Rightarrow> u16 \<Rightarrow> TcpFrame" where
  "syn_frame out mss = (if out
     then \<lparr>src_ip = ''10.0.0.2'', src_port = 50000, dst_ip = ''192.0.2.9'', dst_port = 443, syn = True, ack = False,
            options = [OptOther, OptMss mss]\<rparr>
     else \<lparr>src_ip = ''192.0.2.9'', src_port = 443, dst_ip = ''10.0.0.2'', dst_port = 50000, syn = True, ack = True,
            options = [OptMss mss]\<rparr>)"

definition sample_capture :: CaptureFile where
  "sample_capture = \<lparr>read_result = Inr [0xD4, 0xC3, 0xB2, 0xA1], reader_err = None,
     blocks = [Inr (Some (syn_frame True 1460)), Inr (Some (syn_frame True 1400)), Inr None,
               Inr (Some (syn_frame False 1360))]\<rparr>"

lemma sample_ingest:
  "ingest_syn_mss id ''cap'' sample_capture [] = Inr \<lparr>source = ''cap'',
     flows = [\<lparr>local_ip = ''10.0.0.2'', local_port = 50000, peer_ip = ''192.0.2.9'', peer_port = 443,
               local_advertised = Some 1400, peer_advertised = Some 1360, both_directions_observed = True\<rparr>],
     attributions = [attribute_middlebox \<lparr>local_ip = ''10.0.0.2'', local_port = 50000, peer_ip = ''192.0.2.9'',
               peer_port = 443, local_advertised = Some 1400, peer_advertised = Some 1360,
               both_directions_observed = True\<rparr>],
     flows_with_both_directions = 1, flows_total = 1\<rparr>"
  by (simp add: ingest_syn_mss_def sample_capture_def syn_frame_def recognized_magic_def inspect_frame_def
      record_syn_def orient_def entry_update_def flow_new_def recompute_def Let_def)

theorem mss_flows_are_last_offers_witness:
  "\<exists>frs r. ingest_syn_mss id ''cap'' sample_capture [] = Inr r \<and> blocks sample_capture = map Inr frs
    \<and> last_offer [] (''10.0.0.2'', 50000, ''192.0.2.9'', 443) True frs = Some 1400"
proof -
  obtain frs where frs: "blocks sample_capture = map Inr frs"
    using mss_flows_are_last_offers[OF sample_ingest] by auto
  then have "frs = [Some (syn_frame True 1460), Some (syn_frame True 1400), None, Some (syn_frame False 1360)]"
    by (auto simp: sample_capture_def map_eq_Cons_conv)
  then have "last_offer [] (''10.0.0.2'', 50000, ''192.0.2.9'', 443) True frs = Some 1400"
    by (simp add: last_offer_def offers_def syn_frame_def orient_def Let_def)
  with frs sample_ingest show ?thesis by blast
qed

text \<open>The attribution never overclaims. A flow seen in one direction only is labelled as
  insufficient evidence; a flow seen in both is labelled ambiguous with low confidence; no capture
  ever yields the verdict that there is no rewrite, nor a confidence above low.\<close>

theorem attribution_never_overclaims:
  assumes "ingest_syn_mss perm path file ips = Inr r"
  shows "length (attributions r) = length (flows r)
    \<and> (\<forall>i < length (flows r). mb_verdict (attributions r ! i)
           = (if both_directions_observed (flows r ! i) then Ambiguous else InsufficientEvidence)
         \<and> confidence (attributions r ! i) = (if both_directions_observed (flows r ! i) then Low else Insufficient))
    \<and> flows_with_both_directions r = length (filter (\<lambda>a. mb_verdict a = Ambiguous) (attributions r))"
proof -
  have a: "attributions r = map attribute_middlebox (flows r)"
    and b: "flows_with_both_directions r = length (filter both_directions_observed (flows r))"
    using ingest_Inr[OF assms] by auto
  have v: "mb_verdict (attribute_middlebox f) = (if both_directions_observed f then Ambiguous else InsufficientEvidence)"
    "confidence (attribute_middlebox f) = (if both_directions_observed f then Low else Insufficient)" for f
    by (auto simp: attribute_middlebox_def)
  have "length (filter (\<lambda>a. mb_verdict a = Ambiguous) (map attribute_middlebox fs))
      = length (filter both_directions_observed fs)" for fs
    by (induction fs) (auto simp: v)
  then show ?thesis unfolding a b by (simp add: v)
qed

theorem attribution_never_overclaims_witness:
  "\<exists>r. ingest_syn_mss id ''cap'' sample_capture [] = Inr r \<and> length (attributions r) = 1
    \<and> mb_verdict (attributions r ! 0) = Ambiguous \<and> confidence (attributions r ! 0) = Low"
proof -
  obtain r where r: "ingest_syn_mss id ''cap'' sample_capture [] = Inr r"
    and f: "length (flows r) = 1" "both_directions_observed (flows r ! 0)"
    by (rule that[OF sample_ingest]) simp_all
  show ?thesis using attribution_never_overclaims[OF r] r f by auto
qed

text \<open>When local addresses are given, a SYN between two other hosts leaves no trace in the flow
  table, although the documentation of the ingestion says that such packets are still recorded.\<close>

theorem foreign_syn_not_recorded:
  assumes "ips \<noteq> []" and "src_ip fr \<notin> set ips" and "dst_ip fr \<notin> set ips"
  shows "inspect_frame ips (Some fr) t = t"
  using assms by (simp add: inspect_frame_def record_syn_def orient_def split: option.split)

theorem foreign_syn_not_recorded_witness:
  "inspect_frame [''10.9.9.9''] (Some (syn_frame True 1460)) [] = []"
  using foreign_syn_not_recorded[of "[''10.9.9.9'']" "syn_frame True 1460" "[]"] by (simp add: syn_frame_def)

text \<open>Clustering. The spread is the true difference of the extreme values (no wrap-around), and
  the verdict is: inconclusive below two destinations; peer-specific above the tolerance of 24 bytes;
  otherwise a uniform clamp, a true ceiling or inconclusive according to the DF probe.\<close>

theorem cluster_verdict_spec:
  assumes "ds \<noteq> []"
  shows "let r = cluster_destination_mss ds mtu iface tunnel probe; vs = (\<lambda>d. unat (negotiated_mss d)) ` set ds in
    unat (mss_spread r) = Max vs - Min vs
    \<and> cluster_verdict r =
        (if length ds < 2 then ClusterInconclusive
         else if 24 < Max vs - Min vs then PeerSpecific
         else (case probe of Some True \<Rightarrow> UniformClampOrProxy | Some False \<Rightarrow> TruePmtuCeiling
               | None \<Rightarrow> ClusterInconclusive))"
proof -
  let ?mss = "map negotiated_mss ds" and ?vs = "(\<lambda>d. unat (negotiated_mss d)) ` set ds"
  obtain mn mx where m: "iter_min ?mss = Some mn" "iter_max ?mss = Some mx"
    using assms by (metis iter_max_None_iff iter_min_None_iff map_is_Nil_conv not_Some_eq)
  then have b: "mn \<in> set ?mss" "mx \<in> set ?mss" "\<forall>x \<in> set ?mss. mn \<le> x \<and> x \<le> mx"
    by (auto simp: iter_min_Some_iff iter_max_Some_iff)
  have "Max ?vs = unat mx" by (rule Max_eqI) (use b in \<open>auto simp: word_le_nat_alt\<close>)
  moreover have "Min ?vs = unat mn" by (rule Min_eqI) (use b in \<open>auto simp: word_le_nat_alt\<close>)
  moreover have "unat (mx - mn) = unat mx - unat mn" using b by (intro unat_sub) auto
  ultimately show ?thesis
    by (auto simp: cluster_destination_mss_def m Let_def CONVERGENCE_TOLERANCE_BYTES_def word_less_nat_alt
        split: option.split bool.split)
qed

theorem cluster_verdict_spec_witness:
  "cluster_verdict (cluster_destination_mss
     [\<lparr>destination = ''a'', negotiated_mss = 1360\<rparr>, \<lparr>destination = ''b'', negotiated_mss = 1372\<rparr>]
     (Some 1500) None False (Some True)) = UniformClampOrProxy"
  using cluster_verdict_spec[of "[\<lparr>destination = ''a'', negotiated_mss = 1360\<rparr>, \<lparr>destination = ''b'', negotiated_mss = 1372\<rparr>]"
      "Some 1500" None False "Some True"] by (simp add: Let_def)

end
