(* ===== verification/Policy.thy ===== *)
theory Policy
  imports Fraggle_Prelude
begin

text \<open>
  \<open>network_tests/policy_manifest.rs\<close> and \<open>network_tests/multicast_isolation.rs\<close>: observed
  reachability judged against what the operator declared. Both modules have the same contract, the
  locale \<open>drift_judge\<close>, interpreted once on each judging function. The sockets are observations,
  indexed by the destination the code contacts.
\<close>

section \<open>The manifest\<close>

datatype PolicyProtocol = PolicyTcp | PolicyUdp
datatype ExpectedOutcome = Allow | Deny

record PolicyEntry =
  role :: string
  source_zone :: string
  destination_host :: string
  destination_port :: u16
  entry_protocol :: PolicyProtocol
  expected :: ExpectedOutcome
  http_check_path :: "string option"

datatype ObservedOutcome = Reachable | Rejected | TimedOut | Redirected

record ProbeResult =
  entry_index :: nat
  pr_observed :: ObservedOutcome
  pr_elapsed_ms :: u64
  pr_detail :: string

datatype DriftVerdict = MatchesExpectation | UnexpectedlyAllowed | UnexpectedlyBlocked | InterceptedByPortal

fun judge_drift :: "ExpectedOutcome \<Rightarrow> ObservedOutcome \<Rightarrow> DriftVerdict" where
  "judge_drift Allow Reachable = MatchesExpectation"
| "judge_drift Deny Rejected = MatchesExpectation"
| "judge_drift Deny TimedOut = MatchesExpectation"
| "judge_drift Deny Reachable = UnexpectedlyAllowed"
| "judge_drift Deny Redirected = UnexpectedlyAllowed"
| "judge_drift Allow Rejected = UnexpectedlyBlocked"
| "judge_drift Allow TimedOut = UnexpectedlyBlocked"
| "judge_drift Allow Redirected = InterceptedByPortal"

record EntryReport =
  rep_index :: nat
  rep_role :: string
  rep_source_zone :: string
  rep_protocol :: PolicyProtocol
  rep_expected :: ExpectedOutcome
  rep_observed :: ObservedOutcome
  drift :: DriftVerdict
  rep_elapsed_ms :: u64
  rep_destination_host :: "string option"
  rep_destination_port :: "u16 option"

datatype ReportMode = Operator | AttendeeFacing

text \<open>The error kinds of a failed connect that the source distinguishes.\<close>

datatype ConnectRes = Connected | ConnectionRefused string | ConnectionReset string | OtherConnectError string

definition classify_connect_error :: "ConnectRes \<Rightarrow> ObservedOutcome" where
  "classify_connect_error e =
     (case e of ConnectionRefused _ \<Rightarrow> Rejected | ConnectionReset _ \<Rightarrow> Rejected | _ \<Rightarrow> TimedOut)"

record DestinationObs =
  resolves :: bool
  connect :: ConnectRes
  http_write_ok :: bool
  http_read :: "string option" \<comment> \<open>the bytes of the one read of at most 512 bytes\<close>
  do_elapsed_ms :: u64

definition connect_error_text :: "ConnectRes \<Rightarrow> string" where
  "connect_error_text e =
     (case e of Connected \<Rightarrow> [] | ConnectionRefused m \<Rightarrow> m | ConnectionReset m \<Rightarrow> m | OtherConnectError m \<Rightarrow> m)"

definition http_get_status :: "DestinationObs \<Rightarrow> u16 option" where
  "http_get_status ob =
     (if \<not> http_write_ok ob then None
      else case http_read ob of
             None \<Rightarrow> None
           | Some text \<Rightarrow>
               (case lines (take 512 text) of
                  [] \<Rightarrow> None
                | status_line # _ \<Rightarrow>
                    (case split_whitespace status_line of
                       _ # code_str # _ \<Rightarrow> parse_uint code_str
                     | _ \<Rightarrow> None)))"

definition probe_one :: "nat \<Rightarrow> PolicyEntry \<Rightarrow> DestinationObs \<Rightarrow> ProbeResult" where
  "probe_one index entry ob =
     (let result = (\<lambda>obs det. \<lparr>entry_index = index, pr_observed = obs, pr_elapsed_ms = do_elapsed_ms ob, pr_detail = det\<rparr>)
      in if \<not> resolves ob then result TimedOut ''DNS resolution failed for the manifest-declared destination''
         else if connect ob \<noteq> Connected
         then result (classify_connect_error (connect ob)) (connect_error_text (connect ob))
         else case (case http_check_path entry of None \<Rightarrow> None | Some path \<Rightarrow> http_get_status ob) of
                Some status \<Rightarrow>
                  if 300 \<le> status \<and> status < 400 then result Redirected (''HTTP '' @ show_word status @ '' redirect'')
                  else result Reachable ''connect succeeded''
              | None \<Rightarrow> result Reachable ''connect succeeded'')"

text \<open>The surroundings answer per destination.\<close>

type_synonym policy_env = "string \<Rightarrow> u16 \<Rightarrow> DestinationObs"

definition probe_entry :: "policy_env \<Rightarrow> PolicyEntry list \<Rightarrow> nat \<Rightarrow> ProbeResult option" where
  "probe_entry env entries index =
     (if index < length entries
      then let entry = entries ! index
           in Some (probe_one index entry (env (destination_host entry) (destination_port entry)))
      else None)"

definition run_all :: "policy_env \<Rightarrow> PolicyEntry list \<Rightarrow> ProbeResult list" where
  "run_all env entries = filter_map (probe_entry env entries) [0 ..< length entries]"

definition report_one :: "PolicyEntry list \<Rightarrow> ReportMode \<Rightarrow> ProbeResult \<Rightarrow> EntryReport option" where
  "report_one entries mode r =
     (if entry_index r < length entries
      then let entry = entries ! entry_index r
           in Some \<lparr>rep_index = entry_index r, rep_role = role entry, rep_source_zone = source_zone entry,
                   rep_protocol = entry_protocol entry, rep_expected = expected entry, rep_observed = pr_observed r,
                   drift = judge_drift (expected entry) (pr_observed r), rep_elapsed_ms = pr_elapsed_ms r,
                   rep_destination_host = (case mode of Operator \<Rightarrow> Some (destination_host entry) | AttendeeFacing \<Rightarrow> None),
                   rep_destination_port = (case mode of Operator \<Rightarrow> Some (destination_port entry) | AttendeeFacing \<Rightarrow> None)\<rparr>
      else None)"

definition report :: "PolicyEntry list \<Rightarrow> ProbeResult list \<Rightarrow> ReportMode \<Rightarrow> EntryReport list" where
  "report entries results mode = filter_map (report_one entries mode) results"

section \<open>Discovery and isolation\<close>

definition MAX_PROBES_PER_KIND :: u32 where "MAX_PROBES_PER_KIND = 5"

datatype Observation = ObservedReachable | NoReply | ConfirmedBlocked
datatype ExpectedReachability = ExpectedReachable | ExpectedBlocked

record ExpectedPolicy =
  arp_nd :: "ExpectedReachability option"
  dhcp_broadcast :: "ExpectedReachability option"
  mdns :: "ExpectedReachability option"
  ssdp :: "ExpectedReachability option"
  multicast_delivery :: "ExpectedReachability option"
  peer_isolation :: "ExpectedReachability option"

definition policy_none :: ExpectedPolicy where
  "policy_none = \<lparr>arp_nd = None, dhcp_broadcast = None, mdns = None, ssdp = None, multicast_delivery = None,
     peer_isolation = None\<rparr>"

datatype IsolationVerdict = NoExpectationDeclared | IsolationMatches | UnexpectedlyReachable
  | IsolationUnexpectedlyBlocked | ObservationInconclusive

definition judge :: "Observation \<Rightarrow> ExpectedReachability option \<Rightarrow> IsolationVerdict" where
  "judge obs ex =
     (case ex of
        None \<Rightarrow> NoExpectationDeclared
      | Some e \<Rightarrow>
          (case obs of
             NoReply \<Rightarrow> ObservationInconclusive
           | ObservedReachable \<Rightarrow>
               (case e of ExpectedReachable \<Rightarrow> IsolationMatches | ExpectedBlocked \<Rightarrow> UnexpectedlyReachable)
           | ConfirmedBlocked \<Rightarrow>
               (case e of ExpectedBlocked \<Rightarrow> IsolationMatches | ExpectedReachable \<Rightarrow> IsolationUnexpectedlyBlocked)))"

datatype ServiceClass = Http | Printer | Airplay | Chromecast | OtherService

record ResponderTally =
  total_responses :: u32
  by_class :: "(ServiceClass \<times> u32) list"

definition classify_response :: "string \<Rightarrow> ServiceClass" where
  "classify_response raw =
     (let text = to_lowercase raw in
      if contains text ''_ipp'' \<or> contains text ''_printer'' then Printer
      else if contains text ''_airplay'' then Airplay
      else if contains text ''_googlecast'' then Chromecast
      else if contains text ''_http'' \<or> contains text ''upnp'' then Http
      else OtherService)"

fun bump :: "ServiceClass \<Rightarrow> (ServiceClass \<times> u32) list \<Rightarrow> (ServiceClass \<times> u32) list" where
  "bump c [] = [(c, 1)]"
| "bump c ((d, n) # xs) = (if d = c then (d, n + 1) # xs else (d, n) # bump c xs)"

definition tally_responses :: "string list \<Rightarrow> ResponderTally" where
  "tally_responses raws = \<lparr>total_responses = of_nat (length raws),
     by_class = fold (\<lambda>raw acc. bump (classify_response raw) acc) raws []\<rparr>"

definition capped_probes :: "u32 \<Rightarrow> nat" where
  "capped_probes probe_count = unat (max (min probe_count MAX_PROBES_PER_KIND) 1)"

text \<open>What one probe of a named peer met: the send failed, it was sent without an answer, or answered.\<close>

datatype PeerProbe = SendError | Silent | Answered

definition probe_peer_reachability :: "string option \<Rightarrow> u32 \<Rightarrow> (nat \<Rightarrow> PeerProbe) \<Rightarrow> string + Observation" where
  "probe_peer_reachability bind_error probe_count peer =
     (case bind_error of
        Some e \<Rightarrow> Inl (''failed to bind local socket: '' @ e)
      | None \<Rightarrow>
          let met = map peer [0 ..< capped_probes probe_count]
          in Inr (if Answered \<in> set met then ObservedReachable
                  else if SendError \<in> set met then ConfirmedBlocked else NoReply))"

text \<open>Queries to a multicast group: the first failed send is an error; otherwise the datagrams
  received before the deadline, up to the first failed receive.\<close>

definition probe_multicast_group :: "string \<Rightarrow> u16 \<Rightarrow> string option \<Rightarrow> u32 \<Rightarrow> (nat \<Rightarrow> string option) \<Rightarrow>
    string list \<Rightarrow> string + string list" where
  "probe_multicast_group grp prt bind_error probe_count send_error responses =
     (case bind_error of
        Some e \<Rightarrow> Inl (''failed to bind local socket: '' @ e)
      | None \<Rightarrow>
          (case filter_map send_error [0 ..< capped_probes probe_count] of
             e # _ \<Rightarrow> Inl (''failed to send to '' @ grp @ '':'' @ show_word prt @ '': '' @ e)
           | [] \<Rightarrow> Inr responses))"

datatype RecvRes = RecvOk | RecvWouldBlock | RecvTimedOut | RecvError string

definition observe_group_delivery :: "string \<Rightarrow> u16 \<Rightarrow> string option \<Rightarrow> string option \<Rightarrow> RecvRes \<Rightarrow> string + Observation" where
  "observe_group_delivery grp prt bind_error join_error rcv =
     (case bind_error of
        Some e \<Rightarrow> Inl (''failed to bind '' @ show_word prt @ '' for multicast join: '' @ e)
      | None \<Rightarrow>
          (case join_error of
             Some e \<Rightarrow> Inl (''failed to join '' @ grp @ '': '' @ e)
           | None \<Rightarrow>
               (case rcv of
                  RecvOk \<Rightarrow> Inr ObservedReachable
                | RecvWouldBlock \<Rightarrow> Inr NoReply
                | RecvTimedOut \<Rightarrow> Inr NoReply
                | RecvError e \<Rightarrow> Inl e)))"

section \<open>The contract of a judge\<close>

text \<open>A judge compares an expectation with an observation. \<open>conforms\<close> is the declared policy,
  \<open>hole\<close> the verdict for traffic that got through against it.\<close>

locale drift_judge =
  fixes judged :: "'e \<Rightarrow> 'o \<Rightarrow> 'v"
    and good hole :: 'v
    and conforms :: "'e \<Rightarrow> 'o \<Rightarrow> bool"
    and forbidden :: "'e \<Rightarrow> bool"
    and delivered :: "'o \<Rightarrow> bool"
  assumes good_iff: "judged e x = good \<longleftrightarrow> conforms e x"
    and hole_iff: "judged e x = hole \<longleftrightarrow> forbidden e \<and> delivered x"
    and good_not_hole: "good \<noteq> hole"
begin

lemma forbidden_conforms: "forbidden e \<Longrightarrow> conforms e x \<Longrightarrow> \<not> delivered x"
  using good_iff hole_iff good_not_hole by metis

lemma no_drift_iff:
  "(\<forall>p \<in> set ps. judged (fst p) (snd p) = good) \<longleftrightarrow> (\<forall>p \<in> set ps. conforms (fst p) (snd p))"
  by (simp add: good_iff)

lemma no_hole_iff:
  "hole \<notin> (\<lambda>p. judged (fst p) (snd p)) ` set ps \<longleftrightarrow> (\<forall>p \<in> set ps. forbidden (fst p) \<longrightarrow> \<not> delivered (snd p))"
  using hole_iff by (metis (no_types, lifting) image_iff)

end

interpretation manifest: drift_judge judge_drift MatchesExpectation UnexpectedlyAllowed
  "\<lambda>e x. (e = Allow \<and> x = Reachable) \<or> (e = Deny \<and> x \<in> {Rejected, TimedOut})"
  "\<lambda>e. e = Deny" "\<lambda>x. x \<in> {Reachable, Redirected}"
proof
  fix e :: ExpectedOutcome and x :: ObservedOutcome
  show "judge_drift e x = MatchesExpectation \<longleftrightarrow>
      (e = Allow \<and> x = Reachable) \<or> (e = Deny \<and> x \<in> {Rejected, TimedOut})"
    by (cases e; cases x) auto
  show "judge_drift e x = UnexpectedlyAllowed \<longleftrightarrow> e = Deny \<and> x \<in> {Reachable, Redirected}"
    by (cases e; cases x) auto
qed simp

interpretation isolation: drift_judge "\<lambda>e x. judge x e" IsolationMatches UnexpectedlyReachable
  "\<lambda>e x. (e = Some ExpectedReachable \<and> x = ObservedReachable) \<or> (e = Some ExpectedBlocked \<and> x = ConfirmedBlocked)"
  "\<lambda>e. e = Some ExpectedBlocked" "\<lambda>x. x = ObservedReachable"
  by unfold_locales (auto simp: judge_def split: option.splits Observation.splits ExpectedReachability.splits)

section \<open>Lemmas\<close>

lemma run_all_eq:
  "run_all env entries =
     map (\<lambda>i. probe_one i (entries ! i) (env (destination_host (entries ! i)) (destination_port (entries ! i))))
       [0 ..< length entries]"
  unfolding run_all_def by (rule filter_map_total) (simp add: probe_entry_def Let_def)

lemma probe_one_index: "entry_index (probe_one i e ob) = i"
  by (simp add: probe_one_def Let_def split: option.split)

lemma report_run_all:
  "report entries (run_all env entries) mode =
     map (\<lambda>i. let r = probe_one i (entries ! i) (env (destination_host (entries ! i)) (destination_port (entries ! i)))
              in the (report_one entries mode r)) [0 ..< length entries]"
proof -
  have "filter_map f (map g xs) = map (\<lambda>x. the (f (g x))) xs" if "\<forall>x \<in> set xs. f (g x) \<noteq> None"
    for f :: "ProbeResult \<Rightarrow> EntryReport option" and g and xs :: "nat list"
    using that by (induction xs) auto
  then show ?thesis
    unfolding report_def run_all_eq by (simp add: report_one_def probe_one_index Let_def)
qed

lemma bump_keys: "fst ` set (bump c xs) = insert c (fst ` set xs)"
  by (induction c xs rule: bump.induct) auto

lemma bump_distinct: "distinct (map fst xs) \<Longrightarrow> distinct (map fst (bump c xs))"
proof (induction c xs rule: bump.induct)
  case (2 c d n xs)
  then show ?case using bump_keys[of c xs] by auto
qed simp

lemma bump_lookup:
  "map_of (bump c xs) = (map_of xs)(c \<mapsto> (case map_of xs c of None \<Rightarrow> 1 | Some n \<Rightarrow> n + 1))"
  by (induction c xs rule: bump.induct) (auto simp: fun_eq_iff)

lemma tally_fold:
  assumes "distinct (map fst acc)"
  shows "distinct (map fst (fold (\<lambda>raw acc. bump (classify_response raw) acc) raws acc))
    \<and> unwrap_or (map_of (fold (\<lambda>raw acc. bump (classify_response raw) acc) raws acc) c) 0
      = unwrap_or (map_of acc c) 0 + of_nat (length (filter (\<lambda>raw. classify_response raw = c) raws))"
  using assms
proof (induction raws arbitrary: acc)
  case (Cons raw raws)
  from Cons.IH[OF bump_distinct[OF Cons.prems, of "classify_response raw"]] show ?case
    by (auto simp: bump_lookup unwrap_or_def split: option.splits)
qed simp

lemma set_capped_probes: "1 \<le> capped_probes n \<and> capped_probes n \<le> 5"
  by (auto simp: capped_probes_def MAX_PROBES_PER_KIND_def word_le_nat_alt min_def max_def split: if_splits)

section \<open>Properties\<close>

text \<open>The manifest is the allowlist. A run yields one result per entry, in order, and depends on
  the answers of the manifest's own destinations only: surroundings that agree on these give the same
  results, so nothing else is contacted.\<close>

theorem manifest_is_the_allowlist:
  assumes "\<forall>e \<in> set entries. env1 (destination_host e) (destination_port e) = env2 (destination_host e) (destination_port e)"
  shows "run_all env1 entries = run_all env2 entries
    \<and> map entry_index (run_all env1 entries) = [0 ..< length entries]"
  using assms by (auto simp: run_all_eq probe_one_index comp_def)

definition sample_entry :: PolicyEntry where
  "sample_entry = \<lparr>role = ''guest'', source_zone = ''hall-b'', destination_host = ''printer.corp'', destination_port = 9100,
     entry_protocol = PolicyUdp, expected = Deny, http_check_path = None\<rparr>"

definition obs_with :: "ConnectRes \<Rightarrow> DestinationObs" where
  "obs_with c = \<lparr>resolves = True, connect = c, http_write_ok = True, http_read = None, do_elapsed_ms = 3\<rparr>"

theorem manifest_is_the_allowlist_witness:
  "run_all (\<lambda>h p. obs_with Connected) [sample_entry]
   = run_all (\<lambda>h p. if h = ''printer.corp'' then obs_with Connected else obs_with (OtherConnectError ''x'')) [sample_entry]"
  using manifest_is_the_allowlist[of "[sample_entry]" "\<lambda>h p. obs_with Connected"
      "\<lambda>h p. if h = ''printer.corp'' then obs_with Connected else obs_with (OtherConnectError ''x'')"]
  by (simp add: sample_entry_def)

text \<open>The drift report. A report of a run has one line per entry; it shows no drift exactly when
  every allowed destination was plainly reachable and every denied one was refused or silent, and it
  reports a policy hole exactly for the denied destinations that answered, a portal included.\<close>

theorem drift_report_exact:
  fixes entries :: "PolicyEntry list"
  shows "let rs = report entries (run_all env entries) mode in
    length rs = length entries
    \<and> ((\<forall>r \<in> set rs. drift r = MatchesExpectation) \<longleftrightarrow>
        (\<forall>r \<in> set rs. (rep_expected r = Allow \<and> rep_observed r = Reachable)
                   \<or> (rep_expected r = Deny \<and> rep_observed r \<in> {Rejected, TimedOut})))
    \<and> (\<forall>r \<in> set rs. drift r = UnexpectedlyAllowed \<longleftrightarrow>
        rep_expected r = Deny \<and> rep_observed r \<in> {Reachable, Redirected})
    \<and> (\<forall>i < length entries. rep_expected (rs ! i) = expected (entries ! i) \<and> rep_role (rs ! i) = role (entries ! i)
        \<and> rep_observed (rs ! i) = pr_observed (probe_one i (entries ! i)
             (env (destination_host (entries ! i)) (destination_port (entries ! i)))))"
proof -
  let ?rs = "report entries (run_all env entries) mode"
  have nth: "rep_expected (?rs ! i) = expected (entries ! i) \<and> rep_role (?rs ! i) = role (entries ! i)
        \<and> rep_observed (?rs ! i) = pr_observed (probe_one i (entries ! i)
             (env (destination_host (entries ! i)) (destination_port (entries ! i))))"
    if "i < length entries" for i
    using that by (simp add: report_run_all report_one_def probe_one_index Let_def)
  have d: "drift r = judge_drift (rep_expected r) (rep_observed r)" if "r \<in> set ?rs" for r
    using that by (auto simp: report_def set_filter_map report_one_def Let_def split: if_splits)
  have "length ?rs = length entries" by (simp add: report_run_all)
  then show ?thesis unfolding Let_def using nth d by (auto simp: manifest.good_iff manifest.hole_iff)
qed

theorem drift_report_exact_witness:
  "drift (hd (report [sample_entry] (run_all (\<lambda>h p. obs_with Connected) [sample_entry]) Operator)) = UnexpectedlyAllowed"
proof -
  let ?rs = "report [sample_entry] (run_all (\<lambda>h p. obs_with Connected) [sample_entry]) Operator"
  have "length ?rs = 1 \<and> rep_expected (?rs ! 0) = Deny \<and> rep_observed (?rs ! 0) = Reachable"
    using drift_report_exact[where entries = "[sample_entry]" and env = "\<lambda>h p. obs_with Connected" and mode = Operator]
    by (simp add: Let_def probe_one_def obs_with_def sample_entry_def)
  moreover from this have "?rs \<noteq> []" by auto
  then have "?rs ! 0 \<in> set ?rs" and "hd ?rs = ?rs ! 0" by (simp_all add: hd_conv_nth)
  ultimately show ?thesis
    using drift_report_exact[where entries = "[sample_entry]" and env = "\<lambda>h p. obs_with Connected" and mode = Operator]
    by (auto simp: Let_def)
qed

text \<open>What an attendee-facing report reveals. It names no destination: manifests that differ only
  in hosts and ports give the same attendee-facing report of the same results. It does name the source
  zone of every entry, which the documentation of the mode rules out.\<close>

theorem attendee_report_redaction:
  assumes "length es1 = length es2"
    and "\<forall>i < length es1. es2 ! i = (es1 ! i)\<lparr>destination_host := h i, destination_port := p i\<rparr>"
  shows "report es1 results AttendeeFacing = report es2 results AttendeeFacing
    \<and> (\<forall>r \<in> set (report es1 results AttendeeFacing). rep_destination_host r = None \<and> rep_destination_port r = None
         \<and> rep_source_zone r = source_zone (es1 ! rep_index r))"
proof -
  have "report_one es1 AttendeeFacing = report_one es2 AttendeeFacing"
    using assms by (auto simp: report_one_def Let_def fun_eq_iff)
  then have "report es1 results AttendeeFacing = report es2 results AttendeeFacing" by (simp add: report_def)
  moreover have "rep_destination_host r = None \<and> rep_destination_port r = None
      \<and> rep_source_zone r = source_zone (es1 ! rep_index r)" if "r \<in> set (report es1 results AttendeeFacing)" for r
    using that by (auto simp: report_def set_filter_map report_one_def Let_def split: if_splits)
  ultimately show ?thesis by blast
qed

theorem attendee_report_redaction_witness:
  "rep_source_zone (hd (report [sample_entry] (run_all (\<lambda>h p. obs_with Connected) [sample_entry]) AttendeeFacing)) = ''hall-b''"
proof -
  let ?r = "report [sample_entry] (run_all (\<lambda>h p. obs_with Connected) [sample_entry]) AttendeeFacing"
  have "?r \<noteq> []" and i: "rep_index (hd ?r) = 0"
    by (auto simp: report_run_all report_one_def probe_one_index Let_def)
  then have "hd ?r \<in> set ?r" by simp
  with attendee_report_redaction[where ?es1.0 = "[sample_entry]" and ?es2.0 = "[sample_entry]" and h = "\<lambda>i. ''printer.corp''" and p = "\<lambda>i. 9100"
      and results = "run_all (\<lambda>h p. obs_with Connected) [sample_entry]"] i
  show ?thesis by (simp add: sample_entry_def)
qed

text \<open>The transport of an entry is not used when it is probed: an entry for UDP is judged by a TCP
  connection to the port. A denied UDP service is reported as conforming whenever that TCP port is
  refused or silent.\<close>

theorem probe_ignores_protocol:
  "probe_one i (e\<lparr>entry_protocol := PolicyUdp\<rparr>) ob = probe_one i (e\<lparr>entry_protocol := PolicyTcp\<rparr>) ob
   \<and> map drift (report [sample_entry] (run_all (\<lambda>h p. obs_with (ConnectionRefused ''rst'')) [sample_entry]) Operator)
       = [MatchesExpectation]"
  by (simp add: probe_one_def report_run_all report_one_def sample_entry_def obs_with_def classify_connect_error_def Let_def)

text \<open>Isolation is judged only against a declaration. Without one there is no verdict; silence is
  always inconclusive; with a declaration and a confirmed observation the verdict matches exactly when
  they agree, and divergence is reported in the direction it occurred. A peer probe sends between one
  and five datagrams whatever count is asked for.\<close>

theorem isolation_verdict:
  "(judge x ex = NoExpectationDeclared \<longleftrightarrow> ex = None)
   \<and> (judge x ex = ObservationInconclusive \<longleftrightarrow> ex \<noteq> None \<and> x = NoReply)
   \<and> (judge x ex = IsolationMatches \<longleftrightarrow>
        (ex = Some ExpectedReachable \<and> x = ObservedReachable) \<or> (ex = Some ExpectedBlocked \<and> x = ConfirmedBlocked))
   \<and> (judge x ex = UnexpectedlyReachable \<longleftrightarrow> ex = Some ExpectedBlocked \<and> x = ObservedReachable)
   \<and> (judge x ex = IsolationUnexpectedlyBlocked \<longleftrightarrow> ex = Some ExpectedReachable \<and> x = ConfirmedBlocked)
   \<and> 1 \<le> capped_probes n \<and> capped_probes n \<le> 5"
proof -
  have "judge x ex = NoExpectationDeclared \<longleftrightarrow> ex = None"
    "judge x ex = ObservationInconclusive \<longleftrightarrow> ex \<noteq> None \<and> x = NoReply"
    "judge x ex = IsolationUnexpectedlyBlocked \<longleftrightarrow> ex = Some ExpectedReachable \<and> x = ConfirmedBlocked"
    by (auto simp: judge_def split: option.splits Observation.splits ExpectedReachability.splits)
  then show ?thesis using isolation.good_iff[of x ex] isolation.hole_iff[of x ex] set_capped_probes[of n] by simp
qed

text \<open>The tally of discovery responses counts each response once, under the class of its service
  type: the classes listed are distinct and each count is the number of responses of that class.\<close>

theorem tally_counts:
  assumes "length raws < 2 ^ 32"
  shows "distinct (map fst (by_class (tally_responses raws)))
    \<and> unat (total_responses (tally_responses raws)) = length raws
    \<and> (\<forall>c. unat (unwrap_or (map_of (by_class (tally_responses raws)) c) 0)
          = length (filter (\<lambda>raw. classify_response raw = c) raws))"
proof -
  have "length (filter P raws) < 2 ^ 32" for P using assms length_filter_le[of P raws] by linarith
  then have u: "unat (of_nat (length (filter P raws)) :: u32) = length (filter P raws)" for P
    by (simp add: unat_of_nat take_bit_nat_eq_self)
  have "unat (of_nat (length raws) :: u32) = length raws" using assms by (simp add: unat_of_nat take_bit_nat_eq_self)
  then show ?thesis
    using tally_fold[of "[]" raws] u by (simp add: tally_responses_def unwrap_or_def)
qed

theorem tally_counts_witness:
  "unat (unwrap_or (map_of (by_class (tally_responses [''x._ipp._tcp'', ''y'', ''z._IPP''])) Printer) 0) = 2"
proof -
  have "filter (\<lambda>raw. classify_response raw = Printer) [''x._ipp._tcp'', ''y'', ''z._IPP''] = [''x._ipp._tcp'', ''z._IPP'']"
    by code_simp
  then show ?thesis using tally_counts[of "[''x._ipp._tcp'', ''y'', ''z._IPP'']"] by simp
qed

end
