(* ===== verification/Fleet.thy ===== *)
theory Fleet
  imports Fraggle_Prelude
begin

text \<open>
  \<open>network_tests/fleet_orchestrator.rs\<close>: plans over a fleet of probes, the concurrent fanout bounded
  by a semaphore, and its summary.

  The standard library's \<open>DefaultHasher\<close> is the argument \<open>finish\<close>: from the values fed to a fresh
  hasher, in order, to its 64-bit result. The fanout is a step relation on the threads of the test
  nodes: the atomic load, the compare-and-exchange, the runner's answer or the timeout, the
  \<open>fetch_add\<close> and the push of the result are one step each. A runner goes on after its node timed
  out, until it ends by itself.
\<close>

section \<open>Labels and plans\<close>

datatype Hashed = HStr string | HU32 u32 | HU64 u64

definition hex_digit :: "nat \<Rightarrow> char" where
  "hex_digit d = (if d < 10 then char_of (48 + d) else char_of (87 + d))"

text \<open>\<open>format!("{:08x}", w)\<close>\<close>

definition fmt_08x :: "u32 \<Rightarrow> string" where
  "fmt_08x w = map (\<lambda>i. hex_digit ((unat w div 16 ^ i) mod 16)) [7, 6, 5, 4, 3, 2, 1, 0]"

definition label_for_node :: "(Hashed list \<Rightarrow> u64) \<Rightarrow> string \<Rightarrow> string \<Rightarrow> string" where
  "label_for_node finish address salt =
     ''node-'' @ fmt_08x (ucast (finish [HStr salt, HStr address, HStr salt]))"

datatype NodeRole = ManagementBastion | TestNode

record InventoryEntry =
  address :: string
  inv_role :: NodeRole

record FleetNode =
  label :: string
  node_role :: NodeRole

definition build_fleet_labels :: "(Hashed list \<Rightarrow> u64) \<Rightarrow> InventoryEntry list \<Rightarrow> string \<Rightarrow> FleetNode list" where
  "build_fleet_labels finish entries salt =
     map (\<lambda>e. \<lparr>label = label_for_node finish (address e) salt, node_role = inv_role e\<rparr>) entries"

record FleetPlan =
  nodes :: "FleetNode list"
  fleet_max_concurrency :: u32
  per_node_timeout_secs :: u64

datatype PlanError = BastionAssignedAsTestNode | ZeroConcurrency | ZeroTimeout | NoTestNodes

definition plan_error_display :: "PlanError \<Rightarrow> string" where
  "plan_error_display e =
     (case e of
        BastionAssignedAsTestNode \<Rightarrow> ''plan assigns a management bastion as a test node; refusing to mix control and measurement paths''
      | ZeroConcurrency \<Rightarrow> ''max_concurrency must be >= 1''
      | ZeroTimeout \<Rightarrow> ''per_node_timeout_secs must be >= 1''
      | NoTestNodes \<Rightarrow> ''plan has no TestNode-role nodes to run against'')"

definition test_nodes :: "FleetPlan \<Rightarrow> FleetNode list" where
  "test_nodes p = filter (\<lambda>n. node_role n = TestNode) (nodes p)"

definition plan_validate :: "FleetPlan \<Rightarrow> PlanError + unit" where
  "plan_validate p =
     (if fleet_max_concurrency p = 0 then Inl ZeroConcurrency
      else if per_node_timeout_secs p = 0 then Inl ZeroTimeout
      else if test_nodes p = [] then Inl NoTestNodes
      else Inr ())"

definition run_descriptor_digest :: "(Hashed list \<Rightarrow> u64) \<Rightarrow> FleetPlan \<Rightarrow> u64" where
  "run_descriptor_digest finish p =
     finish ([HU32 (fleet_max_concurrency p), HU64 (per_node_timeout_secs p)] @ map (\<lambda>n. HStr (label n)) (nodes p))"

section \<open>The salt\<close>

text \<open>The salt file: its content if it exists, and whether creating the directory, creating the file
  and writing succeed. The second read happens only after a failed exclusive creation.\<close>

record SaltFs =
  lock_err :: "string option"
  config_dir :: bool
  first_read :: "string option"
  mkdir_err :: "string option"
  create_new_ok :: bool
  write_err :: "string option"
  second_read :: "string + string"
  overwrite_err :: "string option"

definition load_or_create_node_salt :: "string \<Rightarrow> SaltFs \<Rightarrow> string + string" where
  "load_or_create_node_salt generated fs =
     (case lock_err fs of Some e \<Rightarrow> Inl (''failed to acquire fleet salt lock: '' @ e)
      | None \<Rightarrow>
          if \<not> config_dir fs then Inl ''no config directory available on this platform''
          else case (case first_read fs of None \<Rightarrow> None
                     | Some existing \<Rightarrow> let t = trim existing in if t \<noteq> [] then Some t else None) of
            Some t \<Rightarrow> Inr t
          | None \<Rightarrow>
              (case mkdir_err fs of Some e \<Rightarrow> Inl (''failed to create config dir: '' @ e)
               | None \<Rightarrow>
                   if create_new_ok fs
                   then (case write_err fs of Some e \<Rightarrow> Inl (''failed to write fleet-node salt: '' @ e) | None \<Rightarrow> Inr generated)
                   else (case second_read fs of
                           Inl e \<Rightarrow> Inl (''failed to read fleet-node salt after concurrent creation: '' @ e)
                         | Inr existing \<Rightarrow>
                             let t = trim existing in
                             if t \<noteq> [] then Inr t
                             else (case overwrite_err fs of
                                     Some e \<Rightarrow> Inl (''failed to persist fleet-node salt: '' @ e)
                                   | None \<Rightarrow> Inr generated))))"

section \<open>The fanout\<close>

datatype NodeOutcome =
    NodeCompleted "string option" "string option"
  | NodeTimedOut
  | ConnectionFailed string
  | Quarantined string

record NodeRunResult =
  res_label :: string
  res_outcome :: NodeOutcome

type_synonym runner_answer = "string + (string option \<times> string option)"

definition outcome_of :: "runner_answer \<Rightarrow> NodeOutcome" where
  "outcome_of a = (case a of Inr (bef, aft) \<Rightarrow> NodeCompleted bef aft | Inl e \<Rightarrow> ConnectionFailed e)"

datatype Phase =
    Spinning
  | Loaded nat \<comment> \<open>the value of the semaphore it read\<close>
  | Running
  | Settled NodeOutcome \<comment> \<open>outcome known, permit still held\<close>
  | Released NodeOutcome \<comment> \<open>permit returned, result not pushed yet\<close>
  | Finished

record Fanout =
  sem :: nat
  phase :: "nat \<Rightarrow> Phase"
  runner_alive :: "nat \<Rightarrow> bool"
  fan_results :: "NodeRunResult list"

definition fanout_init :: "FleetPlan \<Rightarrow> Fanout \<Rightarrow> bool" where
  "fanout_init p s \<longleftrightarrow> s = \<lparr>sem = unat (fleet_max_concurrency p), phase = (\<lambda>_. Spinning), runner_alive = (\<lambda>_. False),
     fan_results = []\<rparr>"

inductive fanout_step :: "FleetPlan \<Rightarrow> Fanout \<Rightarrow> Fanout \<Rightarrow> bool" for p where
  load: "i < length (test_nodes p) \<Longrightarrow> phase s i = Spinning \<Longrightarrow> sem s \<noteq> 0 \<Longrightarrow>
    fanout_step p s (s\<lparr>phase := (phase s)(i := Loaded (sem s))\<rparr>)"
| cas_ok: "i < length (test_nodes p) \<Longrightarrow> phase s i = Loaded c \<Longrightarrow> sem s = c \<Longrightarrow>
    fanout_step p s (s\<lparr>sem := c - 1, phase := (phase s)(i := Running), runner_alive := (runner_alive s)(i := True)\<rparr>)"
| cas_fail: "i < length (test_nodes p) \<Longrightarrow> phase s i = Loaded c \<Longrightarrow> sem s \<noteq> c \<Longrightarrow>
    fanout_step p s (s\<lparr>phase := (phase s)(i := Spinning)\<rparr>)"
| answered: "i < length (test_nodes p) \<Longrightarrow> phase s i = Running \<Longrightarrow> runner_alive s i \<Longrightarrow>
    fanout_step p s (s\<lparr>phase := (phase s)(i := Settled (outcome_of a)), runner_alive := (runner_alive s)(i := False)\<rparr>)"
| timed_out: "i < length (test_nodes p) \<Longrightarrow> phase s i = Running \<Longrightarrow>
    fanout_step p s (s\<lparr>phase := (phase s)(i := Settled NodeTimedOut)\<rparr>)"
| late_end: "i < length (test_nodes p) \<Longrightarrow> runner_alive s i \<Longrightarrow> phase s i \<noteq> Running \<Longrightarrow>
    fanout_step p s (s\<lparr>runner_alive := (runner_alive s)(i := False)\<rparr>)"
| release: "i < length (test_nodes p) \<Longrightarrow> phase s i = Settled out \<Longrightarrow>
    fanout_step p s (s\<lparr>sem := sem s + 1, phase := (phase s)(i := Released out)\<rparr>)"
| push: "i < length (test_nodes p) \<Longrightarrow> phase s i = Released out \<Longrightarrow>
    fanout_step p s (s\<lparr>phase := (phase s)(i := Finished),
      fan_results := fan_results s @ [\<lparr>res_label = label (test_nodes p ! i), res_outcome = out\<rparr>]\<rparr>)"

text \<open>All threads joined: the fanout returns its results.\<close>

definition fanout_done :: "FleetPlan \<Rightarrow> Fanout \<Rightarrow> bool" where
  "fanout_done p s \<longleftrightarrow> (\<forall>i < length (test_nodes p). phase s i = Finished)"

record FleetSummary =
  total_nodes :: nat
  completed :: nat
  fleet_excluded :: "(string \<times> string) list"

definition excluded_reason :: "NodeRunResult \<Rightarrow> (string \<times> string) option" where
  "excluded_reason r =
     (case res_outcome r of
        NodeCompleted _ _ \<Rightarrow> None
      | NodeTimedOut \<Rightarrow> Some (res_label r, ''timed out'')
      | ConnectionFailed detail \<Rightarrow> Some (res_label r, ''connection failed: '' @ detail)
      | Quarantined rsn \<Rightarrow> Some (res_label r, ''quarantined: '' @ rsn))"

fun summarize_loop :: "NodeRunResult list \<Rightarrow> nat \<times> (string \<times> string) list \<Rightarrow> nat \<times> (string \<times> string) list" where
  "summarize_loop [] acc = acc"
| "summarize_loop (r # rs) (n, ex) =
     summarize_loop rs (case excluded_reason r of None \<Rightarrow> (n + 1, ex) | Some x \<Rightarrow> (n, ex @ [x]))"

definition summarize_fleet_run :: "NodeRunResult list \<Rightarrow> FleetSummary" where
  "summarize_fleet_run results =
     (case summarize_loop results (0, []) of (n, ex) \<Rightarrow>
        \<lparr>total_nodes = length results, completed = n, fleet_excluded = ex\<rparr>)"

section \<open>The invariant of the fanout\<close>

fun holds_permit :: "Phase \<Rightarrow> bool" where
  "holds_permit Running = True"
| "holds_permit (Settled _) = True"
| "holds_permit _ = False"

definition holders :: "FleetPlan \<Rightarrow> Fanout \<Rightarrow> nat set" where
  "holders p s = {i. i < length (test_nodes p) \<and> holds_permit (phase s i)}"

definition finished :: "FleetPlan \<Rightarrow> Fanout \<Rightarrow> nat set" where
  "finished p s = {i. i < length (test_nodes p) \<and> phase s i = Finished}"

definition fanout_inv :: "FleetPlan \<Rightarrow> Fanout \<Rightarrow> bool" where
  "fanout_inv p s \<longleftrightarrow> sem s + card (holders p s) = unat (fleet_max_concurrency p)
     \<and> mset (map res_label (fan_results s)) = image_mset (\<lambda>i. label (test_nodes p ! i)) (mset_set (finished p s))
     \<and> (\<forall>i c. phase s i = Loaded c \<longrightarrow> c \<noteq> 0)"

lemma finite_holders [simp]: "finite (holders p s)" and finite_finished [simp]: "finite (finished p s)"
  by (simp_all add: holders_def finished_def)

lemma holders_update:
  assumes "i < length (test_nodes p)"
  shows "holders p (s\<lparr>phase := (phase s)(i := x)\<rparr>) =
      (if holds_permit x then insert i (holders p s) else holders p s - {i})"
    and "finished p (s\<lparr>phase := (phase s)(i := x)\<rparr>) =
      (if x = Finished then insert i (finished p s) else finished p s - {i})"
  using assms by (auto simp: holders_def finished_def)

text \<open>The fields the sets do not read.\<close>

lemma holders_cong: "phase s = phase t \<Longrightarrow> holders p s = holders p t \<and> finished p s = finished p t"
  by (simp add: holders_def finished_def)

lemma fanout_inv_step:
  assumes inv: "fanout_inv p s" and step: "fanout_step p s s'"
  shows "fanout_inv p s'"
proof -
  have cap: "sem s + card (holders p s) = unat (fleet_max_concurrency p)"
    and res: "mset (map res_label (fan_results s)) = image_mset (\<lambda>i. label (test_nodes p ! i)) (mset_set (finished p s))"
    and ld: "\<forall>i c. phase s i = Loaded c \<longrightarrow> c \<noteq> 0"
    using inv by (auto simp: fanout_inv_def)
  have not_in: "\<not> holds_permit (phase s i) \<Longrightarrow> i \<notin> holders p s" "phase s i \<noteq> Finished \<Longrightarrow> i \<notin> finished p s"
    and is_in: "i < length (test_nodes p) \<Longrightarrow> holds_permit (phase s i) \<Longrightarrow> i \<in> holders p s" for i
    by (auto simp: holders_def finished_def)
  have keep: "fanout_inv p s'"
    if "phase s' = (phase s)(i := x)" "i < length (test_nodes p)" "holds_permit x = holds_permit (phase s i)"
      "sem s' = sem s" "fan_results s' = fan_results s" "x \<noteq> Finished" "phase s i \<noteq> Finished"
      "\<forall>c. x = Loaded c \<longrightarrow> c \<noteq> 0" for s' i x
  proof -
    have h: "holders p s' = holders p s" "finished p s' = finished p s"
      using that by (auto simp: holders_def finished_def)
    have "\<forall>j c. phase s' j = Loaded c \<longrightarrow> c \<noteq> 0" using that(1,8) ld by simp
    then show ?thesis using that(4,5) cap res by (simp add: fanout_inv_def h)
  qed
  from step show ?thesis
  proof cases
    case (load i)
    then show ?thesis by (intro keep[of _ i "Loaded (sem s)"]) auto
  next
    case (cas_ok i c)
    let ?s' = "s\<lparr>sem := c - 1, phase := (phase s)(i := Running), runner_alive := (runner_alive s)(i := True)\<rparr>"
    have c: "c \<noteq> 0" using ld cas_ok by blast
    have h: "holders p ?s' = insert i (holders p s)" "finished p ?s' = finished p s" and n: "i \<notin> holders p s"
      using cas_ok not_in[of i] by (auto simp: holders_def finished_def)
    show ?thesis unfolding cas_ok(1) fanout_inv_def h using n c cas_ok(4) cap res ld by auto
  next
    case (cas_fail i c)
    then show ?thesis by (intro keep[of _ i Spinning]) auto
  next
    case (answered i a)
    then show ?thesis by (intro keep[of _ i "Settled (outcome_of a)"]) auto
  next
    case (timed_out i)
    then show ?thesis by (intro keep[of _ i "Settled NodeTimedOut"]) auto
  next
    case (late_end i)
    then have "holders p s' = holders p s" "finished p s' = finished p s" using holders_cong[of s' s p] by auto
    then show ?thesis using late_end(1) cap res ld by (simp add: fanout_inv_def)
  next
    case (release i out)
    let ?s' = "s\<lparr>sem := sem s + 1, phase := (phase s)(i := Released out)\<rparr>"
    have h: "holders p ?s' = holders p s - {i}" "finished p ?s' = finished p s" and m: "i \<in> holders p s"
      using release not_in[of i] is_in[of i] by (auto simp: holders_def finished_def)
    have "0 < card (holders p s)" using m by (auto simp: card_gt_0_iff)
    then show ?thesis unfolding release(1) fanout_inv_def h using m cap res ld by (auto simp: card_Diff_singleton)
  next
    case (push i out)
    have h: "holders p s' = holders p s" "finished p s' = insert i (finished p s)" and n: "i \<notin> finished p s"
      using push not_in[of i] by (auto simp: holders_def finished_def)
    show ?thesis unfolding fanout_inv_def h using n push(1) cap res ld by auto
  qed
qed

interpretation fanout: step_invariant "fanout_init p" "fanout_step p" "fanout_inv p" for p
proof
  show "fanout_init p s \<Longrightarrow> fanout_inv p s" for s
    by (simp add: fanout_init_def fanout_inv_def holders_def finished_def)
qed (rule fanout_inv_step)

lemma summarize_loop_eq:
  "summarize_loop rs (n, ex) =
     (n + length (filter (\<lambda>r. excluded_reason r = None) rs), ex @ filter_map excluded_reason rs)"
  by (induction rs arbitrary: n ex) (auto split: option.split)

lemma length_filter_map: "length (filter_map f xs) + length (filter (\<lambda>x. f x = None) xs) = length xs"
  by (induction xs) (auto split: option.split)

lemma excluded_reason_None: "excluded_reason r = None \<longleftrightarrow> (\<exists>b a. res_outcome r = NodeCompleted b a)"
  by (auto simp: excluded_reason_def split: NodeOutcome.split)

section \<open>Properties\<close>

text \<open>C7: however the threads interleave, at most the planned number of nodes hold a permit of the
  semaphore at any time, and when the fanout returns it has exactly one result for every test node of
  the plan and none for a management bastion.\<close>

theorem fanout_bounded_and_complete:
  assumes "reachable_by (fanout_init p) (fanout_step p) s"
  shows "card {i. i < length (test_nodes p) \<and> holds_permit (phase s i)} \<le> unat (fleet_max_concurrency p)
    \<and> (fanout_done p s \<longrightarrow>
        mset (map res_label (fan_results s)) = mset (map label (filter (\<lambda>n. node_role n = TestNode) (nodes p))))"
proof -
  have inv: "fanout_inv p s" using fanout.reachable_inv[OF assms] .
  have "mset (map res_label (fan_results s)) = mset (map label (test_nodes p))" if "fanout_done p s"
  proof -
    have "finished p s = {0 ..< length (test_nodes p)}" using that by (auto simp: finished_def fanout_done_def)
    then have "mset (map res_label (fan_results s))
        = image_mset (\<lambda>i. label (test_nodes p ! i)) (mset [0 ..< length (test_nodes p)])"
      using inv by (simp add: fanout_inv_def)
    also have "\<dots> = mset (map (\<lambda>i. label (test_nodes p ! i)) [0 ..< length (test_nodes p)])" by simp
    also have "map (\<lambda>i. label (test_nodes p ! i)) [0 ..< length (test_nodes p)] = map label (test_nodes p)"
      by (rule nth_equalityI) auto
    finally show ?thesis .
  qed
  then show ?thesis using inv unfolding fanout_inv_def holders_def test_nodes_def[symmetric] by linarith
qed

text \<open>Two test nodes, one permit and a bastion.\<close>

definition small_plan :: FleetPlan where
  "small_plan = \<lparr>nodes = [\<lparr>label = ''node-a'', node_role = TestNode\<rparr>, \<lparr>label = ''node-0'', node_role = ManagementBastion\<rparr>,
     \<lparr>label = ''node-b'', node_role = TestNode\<rparr>], fleet_max_concurrency = 1, per_node_timeout_secs = 5\<rparr>"

lemma small_plan_nodes: "length (test_nodes small_plan) = 2" "unat (fleet_max_concurrency small_plan) = 1"
  by (simp_all add: test_nodes_def small_plan_def)

text \<open>The first node starts, times out and returns its permit; then the second one starts.\<close>

definition state_of :: "nat \<Rightarrow> Phase \<Rightarrow> Phase \<Rightarrow> bool \<Rightarrow> bool \<Rightarrow> Fanout" where
  "state_of n x y a b = \<lparr>sem = n, phase = ((\<lambda>_. Spinning)(0 := x))(1 := y), runner_alive = ((\<lambda>_. False)(0 := a))(1 := b),
     fan_results = []\<rparr>"

lemma state_of_step0:
  "fanout_step small_plan (state_of 1 Spinning Spinning False False) (state_of 1 (Loaded 1) Spinning False False)"
  "fanout_step small_plan (state_of 1 (Loaded 1) Spinning False False) (state_of 0 Running Spinning True False)"
  "fanout_step small_plan (state_of 0 Running Spinning True False) (state_of 0 (Settled NodeTimedOut) Spinning True False)"
  "fanout_step small_plan (state_of 0 (Settled NodeTimedOut) Spinning True False) (state_of 1 (Released NodeTimedOut) Spinning True False)"
  "fanout_step small_plan (state_of 1 (Released NodeTimedOut) Spinning True False) (state_of 1 (Released NodeTimedOut) (Loaded 1) True False)"
  "fanout_step small_plan (state_of 1 (Released NodeTimedOut) (Loaded 1) True False) (state_of 0 (Released NodeTimedOut) Running True True)"
proof -
  note n = small_plan_nodes(1)
  show "fanout_step small_plan (state_of 1 Spinning Spinning False False) (state_of 1 (Loaded 1) Spinning False False)"
    using fanout_step.load[of 0 small_plan "state_of 1 Spinning Spinning False False"]
    by (simp add: n state_of_def fun_upd_twist)
  show "fanout_step small_plan (state_of 1 (Loaded 1) Spinning False False) (state_of 0 Running Spinning True False)"
    using fanout_step.cas_ok[of 0 small_plan "state_of 1 (Loaded 1) Spinning False False" 1]
    by (simp add: n state_of_def fun_upd_twist)
  show "fanout_step small_plan (state_of 0 Running Spinning True False) (state_of 0 (Settled NodeTimedOut) Spinning True False)"
    using fanout_step.timed_out[of 0 small_plan "state_of 0 Running Spinning True False"]
    by (simp add: n state_of_def fun_upd_twist)
  show "fanout_step small_plan (state_of 0 (Settled NodeTimedOut) Spinning True False) (state_of 1 (Released NodeTimedOut) Spinning True False)"
    using fanout_step.release[of 0 small_plan "state_of 0 (Settled NodeTimedOut) Spinning True False" NodeTimedOut]
    by (simp add: n state_of_def fun_upd_twist)
  show "fanout_step small_plan (state_of 1 (Released NodeTimedOut) Spinning True False) (state_of 1 (Released NodeTimedOut) (Loaded 1) True False)"
    using fanout_step.load[of 1 small_plan "state_of 1 (Released NodeTimedOut) Spinning True False"]
    by (simp add: n state_of_def)
  show "fanout_step small_plan (state_of 1 (Released NodeTimedOut) (Loaded 1) True False) (state_of 0 (Released NodeTimedOut) Running True True)"
    using fanout_step.cas_ok[of 1 small_plan "state_of 1 (Released NodeTimedOut) (Loaded 1) True False" 1]
    by (simp add: n state_of_def)
qed

lemma small_plan_reaches:
  "reachable_by (fanout_init small_plan) (fanout_step small_plan) (state_of 0 (Released NodeTimedOut) Running True True)"
proof -
  have "fanout_init small_plan (state_of 1 Spinning Spinning False False)"
    by (simp add: fanout_init_def state_of_def small_plan_nodes fun_eq_iff)
  then have "reachable_by (fanout_init small_plan) (fanout_step small_plan) (state_of 1 Spinning Spinning False False)"
    by (rule reachable_by.start)
  note start = this
  note more = reachable_by.more[where init = "fanout_init small_plan" and step = "fanout_step small_plan"]
  show ?thesis
    using more[OF more[OF more[OF more[OF more[OF more[OF start state_of_step0(1)] state_of_step0(2)]
      state_of_step0(3)] state_of_step0(4)] state_of_step0(5)] state_of_step0(6)] .
qed

theorem fanout_bounded_and_complete_witness:
  "\<exists>s. reachable_by (fanout_init small_plan) (fanout_step small_plan) s
    \<and> phase s 1 = Running \<and> card {i. i < length (test_nodes small_plan) \<and> holds_permit (phase s i)} \<le> 1"
  using fanout_bounded_and_complete[OF small_plan_reaches] small_plan_reaches small_plan_nodes(2)
  by (intro exI[of _ "state_of 0 (Released NodeTimedOut) Running True True"]) (simp add: state_of_def)

text \<open>The bound is on permits, not on work in progress: a node that timed out returns its permit
  while its runner goes on, so with a concurrency of one two runners can be at work at once.\<close>

theorem runners_can_exceed_cap:
  "\<exists>p s. plan_validate p = Inr () \<and> reachable_by (fanout_init p) (fanout_step p) s
    \<and> unat (fleet_max_concurrency p) = 1 \<and> card {i. i < length (test_nodes p) \<and> runner_alive s i} = 2"
proof -
  let ?s = "state_of 0 (Released NodeTimedOut) Running True True"
  have "{i. i < length (test_nodes small_plan) \<and> runner_alive ?s i} = {0, 1}"
    by (auto simp: small_plan_nodes state_of_def)
  moreover have "plan_validate small_plan = Inr ()" by (simp add: plan_validate_def small_plan_def test_nodes_def)
  ultimately show ?thesis using small_plan_reaches small_plan_nodes(2)
    by (intro exI[of _ small_plan] exI[of _ ?s]) simp
qed

text \<open>C8: the fanout of a validated plan is never stuck: as long as some node is not finished, some
  thread can take a step that changes its phase.\<close>

theorem fanout_never_stuck:
  assumes "plan_validate p = Inr ()" and "reachable_by (fanout_init p) (fanout_step p) s" and "\<not> fanout_done p s"
  shows "\<exists>s'. fanout_step p s s' \<and> phase s' \<noteq> phase s"
proof -
  obtain i where i: "i < length (test_nodes p)" "phase s i \<noteq> Finished" using assms(3) by (auto simp: fanout_done_def)
  have inv: "fanout_inv p s" using fanout.reachable_inv[OF assms(2)] .
  have cap: "0 < unat (fleet_max_concurrency p)"
    using assms(1) by (auto simp: plan_validate_def unat_gt_0 split: if_splits)
  have ch: "\<exists>s'. fanout_step p s s' \<and> phase s' \<noteq> phase s"
    if "fanout_step p s s'" "phase s' = (phase s)(j := x)" "x \<noteq> phase s j" for s' j x
    using that by (metis fun_upd_same)
  show ?thesis
  proof (cases "phase s i = Spinning \<and> sem s = 0")
    case True
    then have "holders p s \<noteq> {}" using inv cap by (auto simp: fanout_inv_def)
    then obtain j where j: "j < length (test_nodes p)" "holds_permit (phase s j)" by (auto simp: holders_def)
    show ?thesis
    proof (cases "phase s j")
      case Running
      then show ?thesis using fanout_step.timed_out[OF j(1), of s] by (intro ch[where j = j and x = "Settled NodeTimedOut"]) auto
    next
      case (Settled out)
      then show ?thesis using fanout_step.release[OF j(1), of s out] by (intro ch[where j = j and x = "Released out"]) auto
    qed (use j(2) in auto)
  next
    case False
    show ?thesis
    proof (cases "phase s i")
      case Spinning
      then show ?thesis using False fanout_step.load[OF i(1), of s] by (intro ch[where j = i and x = "Loaded (sem s)"]) auto
    next
      case (Loaded c)
      then show ?thesis using fanout_step.cas_ok[OF i(1), of s c] fanout_step.cas_fail[OF i(1), of s c]
        by (cases "sem s = c") (auto intro: ch[where j = i and x = Running] ch[where j = i and x = Spinning])
    next
      case Running
      then show ?thesis using fanout_step.timed_out[OF i(1), of s] by (intro ch[where j = i and x = "Settled NodeTimedOut"]) auto
    next
      case (Settled out)
      then show ?thesis using fanout_step.release[OF i(1), of s out] by (intro ch[where j = i and x = "Released out"]) auto
    next
      case (Released out)
      then show ?thesis using fanout_step.push[OF i(1), of s out] by (intro ch[where j = i and x = Finished]) auto
    qed (use i(2) in simp)
  qed
qed

theorem fanout_never_stuck_witness:
  "\<exists>s'. fanout_step small_plan (state_of 0 (Released NodeTimedOut) Running True True) s'"
proof -
  have "plan_validate small_plan = Inr ()" by (simp add: plan_validate_def small_plan_def test_nodes_def)
  moreover have "\<not> fanout_done small_plan (state_of 0 (Released NodeTimedOut) Running True True)"
    by (auto simp: fanout_done_def small_plan_nodes state_of_def)
  ultimately show ?thesis using fanout_never_stuck[OF _ small_plan_reaches] by blast
qed

text \<open>A plan is accepted exactly when it has a positive concurrency, a positive timeout and at
  least one test node. The error for a bastion assigned as a test node is never returned: a plan that
  lists bastions is accepted, and they are skipped by the fanout.\<close>

theorem plan_validation:
  "(plan_validate p = Inr () \<longleftrightarrow>
      0 < fleet_max_concurrency p \<and> 0 < per_node_timeout_secs p \<and> (\<exists>n \<in> set (nodes p). node_role n = TestNode))
   \<and> plan_validate p \<noteq> Inl BastionAssignedAsTestNode
   \<and> plan_validate small_plan = Inr () \<and> ManagementBastion \<in> node_role ` set (nodes small_plan)"
  by (auto simp: plan_validate_def test_nodes_def filter_empty_conv word_gt_0 small_plan_def)

text \<open>The summary counts every result exactly once: the completed ones are those with a completed
  outcome, and every other result is listed with a reason, in order.\<close>

theorem summary_partition:
  "completed (summarize_fleet_run rs) + length (fleet_excluded (summarize_fleet_run rs)) = total_nodes (summarize_fleet_run rs)
   \<and> completed (summarize_fleet_run rs) = length (filter (\<lambda>r. \<exists>b a. res_outcome r = NodeCompleted b a) rs)
   \<and> map fst (fleet_excluded (summarize_fleet_run rs))
       = map res_label (filter (\<lambda>r. \<not> (\<exists>b a. res_outcome r = NodeCompleted b a)) rs)"
proof -
  have "map fst (filter_map excluded_reason rs) = map res_label (filter (\<lambda>r. excluded_reason r \<noteq> None) rs)"
    by (induction rs) (auto simp: excluded_reason_def split: NodeOutcome.split)
  then show ?thesis
    using length_filter_map[of excluded_reason rs]
    by (simp add: summarize_fleet_run_def summarize_loop_eq excluded_reason_None)
qed

end
