(* ===== verification/Redact.thy ===== *)
theory Redact
  imports Fraggle_Prelude
begin

text \<open>
  \<open>redact.rs\<close>: masking of hardware and network addresses in text. The three passes share one scanner,
  which hands every maximal run of candidate characters to a recognizer; what the scanner guarantees for
  any recognizer whose labels are inert is proved once, in the locale \<open>text_scanner\<close>, and used for the
  three passes through its interpretations. The address parsers of the standard library are modelled on
  the characters the passes can hand them (an IPv6 candidate has no dot, so no embedded IPv4 part).
\<close>

section \<open>The scanner\<close>

function scan_and_replace :: "(char \<Rightarrow> bool) \<Rightarrow> (string \<Rightarrow> string option) \<Rightarrow> string \<Rightarrow> string" where
  "scan_and_replace is_candidate_char try_redact [] = []"
| "scan_and_replace is_candidate_char try_redact (c # cs) =
     (if is_candidate_char c then
        let run = c # takeWhile is_candidate_char cs
        in (case try_redact run of Some lbl \<Rightarrow> lbl | None \<Rightarrow> run)
           @ scan_and_replace is_candidate_char try_redact (dropWhile is_candidate_char cs)
      else c # scan_and_replace is_candidate_char try_redact cs)"
  by pat_completeness auto
termination
  by (relation "measure (\<lambda>(p, f, s). length s)") (auto simp: less_Suc_eq_le length_dropWhile_le)

section \<open>Addresses\<close>

definition is_mac_shaped :: "string \<Rightarrow> bool" where
  "is_mac_shaped s =
     (let parts = split_on (CHR '':'') s
      in length parts = 6 \<and> (\<forall>p \<in> set parts. length p = 2 \<and> (\<forall>c \<in> set p. is_hexdigit c)))"

text \<open>\<open>Ipv4Addr::from_str\<close>: four decimal octets of at most three digits, without leading zeros.\<close>

definition parse_octet :: "string \<Rightarrow> nat option" where
  "parse_octet p =
     (if p = [] \<or> 3 < length p \<or> (1 < length p \<and> hd p = CHR ''0'') then None
      else case read_radix digit_val 10 0 p of Some n \<Rightarrow> if n \<le> 255 then Some n else None | None \<Rightarrow> None)"

definition parse_ipv4 :: "string \<Rightarrow> nat list option" where
  "parse_ipv4 s =
     (let os = map parse_octet (split_on (CHR ''.'') s)
      in if length os = 4 \<and> None \<notin> set os then Some (map the os) else None)"

text \<open>\<open>Ipv6Addr::from_str\<close> on text without dots: eight groups of one to four hexadecimal digits, or
  fewer with one double colon that stands for at least one group.\<close>

definition parse_group :: "string \<Rightarrow> nat option" where
  "parse_group p = (if p = [] \<or> 4 < length p then None else read_radix hex_val 16 0 p)"

definition parse_groups :: "string \<Rightarrow> nat list option" where
  "parse_groups s =
     (if s = [] then Some []
      else let gs = map parse_group (split_on (CHR '':'') s)
           in if None \<in> set gs then None else Some (map the gs))"

definition parse_ipv6 :: "string \<Rightarrow> nat list option" where
  "parse_ipv6 s =
     (case find_str s ''::'' of
        None \<Rightarrow> (case parse_groups s of Some gs \<Rightarrow> if length gs = 8 then Some gs else None | None \<Rightarrow> None)
      | Some i \<Rightarrow>
          (case (parse_groups (take i s), parse_groups (drop (i + 2) s)) of
             (Some h, Some t) \<Rightarrow>
               if length h + length t \<le> 7 then Some (h @ replicate (8 - length h - length t) 0 @ t) else None
           | _ \<Rightarrow> None))"

datatype IpAddr = V4 "nat list" | V6 "nat list"

definition is_private_or_local :: "IpAddr \<Rightarrow> bool" where
  "is_private_or_local a =
     (case a of
        V4 os \<Rightarrow> os ! 0 = 10 \<or> (os ! 0 = 172 \<and> 16 \<le> os ! 1 \<and> os ! 1 \<le> 31) \<or> (os ! 0 = 192 \<and> os ! 1 = 168)
          \<or> os ! 0 = 127 \<or> (os ! 0 = 169 \<and> os ! 1 = 254)
      | V6 gs \<Rightarrow> gs = [0, 0, 0, 0, 0, 0, 0, 1] \<or> gs ! 0 div 64 = 0xfe80 div 64 \<or> gs ! 0 div 512 = 0xfc00 div 512)"

definition redaction_label_for :: "IpAddr \<Rightarrow> string" where
  "redaction_label_for a = (if is_private_or_local a then ''<redacted-private-ip>'' else ''<redacted-public-ip>'')"

section \<open>The passes\<close>

definition mac_char :: "char \<Rightarrow> bool" where "mac_char c \<longleftrightarrow> is_hexdigit c \<or> c = CHR '':''"
definition ipv4_char :: "char \<Rightarrow> bool" where "ipv4_char c \<longleftrightarrow> is_digit c \<or> c = CHR ''.''"
definition ipv6_char :: "char \<Rightarrow> bool" where "ipv6_char c \<longleftrightarrow> is_hexdigit c \<or> c = CHR '':'' \<or> c = CHR 0x25"

definition try_mac :: "string \<Rightarrow> string option" where
  "try_mac run = (if is_mac_shaped run then Some ''<redacted-mac>'' else None)"

definition try_ipv4 :: "string \<Rightarrow> string option" where
  "try_ipv4 run = map_option (\<lambda>os. redaction_label_for (V4 os)) (parse_ipv4 run)"

definition try_ipv6 :: "string \<Rightarrow> string option" where
  "try_ipv6 run =
     (if length (filter (\<lambda>c. c = CHR '':'') run) < 2 then None
      else map_option (\<lambda>gs. redaction_label_for (V6 gs)) (parse_ipv6 (takeWhile (\<lambda>c. c \<noteq> CHR 0x25) run)))"

definition redact_mac_or_bssid :: "string \<Rightarrow> string" where
  "redact_mac_or_bssid text = scan_and_replace mac_char try_mac text"

definition redact_ipv4 :: "string \<Rightarrow> string" where
  "redact_ipv4 text = scan_and_replace ipv4_char try_ipv4 text"

definition redact_ipv6 :: "string \<Rightarrow> string" where
  "redact_ipv6 text = scan_and_replace ipv6_char try_ipv6 text"

datatype RedactionMode = Redacted | Retained

record RedactionPolicy =
  redaction_mode :: RedactionMode
  extra_literals :: "string list"

definition default_redacted :: RedactionPolicy where
  "default_redacted = \<lparr>redaction_mode = Redacted, extra_literals = []\<rparr>"

definition reveal :: RedactionPolicy where
  "reveal = \<lparr>redaction_mode = Retained, extra_literals = []\<rparr>"

definition from_retain_flag :: "bool \<Rightarrow> RedactionPolicy" where
  "from_retain_flag retain_raw_identifiers = (if retain_raw_identifiers then reveal else default_redacted)"

definition with_literal :: "RedactionPolicy \<Rightarrow> string \<Rightarrow> RedactionPolicy" where
  "with_literal p literal = p\<lparr>extra_literals := extra_literals p @ [literal]\<rparr>"

definition is_redacting :: "RedactionPolicy \<Rightarrow> bool" where
  "is_redacting p \<longleftrightarrow> redaction_mode p = Redacted"

definition redact_literal :: "string \<Rightarrow> string \<Rightarrow> string" where
  "redact_literal literal out = (if literal \<noteq> [] then replace_str literal ''<redacted>'' out else out)"

definition redact_apply :: "RedactionPolicy \<Rightarrow> string \<Rightarrow> string" where
  "redact_apply p text =
     (if redaction_mode p = Retained then text
      else fold redact_literal (extra_literals p) (redact_ipv6 (redact_ipv4 (redact_mac_or_bssid text))))"

section \<open>What the scanner guarantees\<close>

text \<open>A maximal run of candidate characters inside a text.\<close>

definition maximal_run :: "(char \<Rightarrow> bool) \<Rightarrow> string \<Rightarrow> string \<Rightarrow> string \<Rightarrow> bool" where
  "maximal_run P pre r post \<longleftrightarrow> r \<noteq> [] \<and> (\<forall>c \<in> set r. P c) \<and> (pre = [] \<or> \<not> P (last pre)) \<and> (post = [] \<or> \<not> P (hd post))"

lemma takeWhile_run: "\<forall>c \<in> set r. P c \<Longrightarrow> s = [] \<or> \<not> P (hd s) \<Longrightarrow> takeWhile P (r @ s) = r \<and> dropWhile P (r @ s) = s"
  by (induction r) (cases s; auto)+

text \<open>A label is inert when it begins and ends with a character that is no candidate and is not
  changed by the scanner itself.\<close>

locale text_scanner =
  fixes cand :: "char \<Rightarrow> bool"
    and recognize :: "string \<Rightarrow> string option"
  assumes label_inert: "recognize run = Some lbl \<Longrightarrow>
    lbl \<noteq> [] \<and> \<not> cand (hd lbl) \<and> \<not> cand (last lbl) \<and> scan_and_replace cand recognize lbl = lbl"
begin

lemma scan_run:
  assumes "r \<noteq> []" and "\<forall>c \<in> set r. cand c" and "s = [] \<or> \<not> cand (hd s)"
  shows "scan_and_replace cand recognize (r @ s) =
    (case recognize r of Some lbl \<Rightarrow> lbl | None \<Rightarrow> r) @ scan_and_replace cand recognize s"
proof -
  obtain c cs where r: "r = c # cs" using assms(1) by (cases r) auto
  with assms(2,3) have "takeWhile cand (cs @ s) = cs" "dropWhile cand (cs @ s) = s" "cand c"
    using takeWhile_run[of cs cand s] by auto
  then show ?thesis unfolding r by (simp add: Let_def)
qed

lemma scan_boundary:
  "a = [] \<or> \<not> cand (last a) \<or> b = [] \<or> \<not> cand (hd b) \<Longrightarrow>
    scan_and_replace cand recognize (a @ b) = scan_and_replace cand recognize a @ scan_and_replace cand recognize b"
proof (induction "length a" arbitrary: a rule: less_induct)
  case less
  show ?case
  proof (cases a)
    case (Cons c cs)
    show ?thesis
    proof (cases "cand c")
      case False
      have "cs = [] \<or> \<not> cand (last cs) \<or> b = [] \<or> \<not> cand (hd b)" using less.prems Cons by (auto split: if_splits)
      with less.hyps[of cs] Cons False show ?thesis by simp
    next
      case True
      define r d where "r = c # takeWhile cand cs" and "d = dropWhile cand cs"
      have a: "a = r @ d" and rp: "\<forall>x \<in> set r. cand x" "r \<noteq> []"
        using Cons True by (auto simp: r_def d_def dest: set_takeWhileD)
      have hd_d: "d = [] \<or> \<not> cand (hd d)" unfolding d_def using hd_dropWhile by blast
      have "last a = last r" if "d = []" using a that by simp
      then have hdb: "d @ b = [] \<or> \<not> cand (hd (d @ b))"
        using hd_d less.prems rp a by (cases "d = []") (auto simp: last_in_set)
      have "d = [] \<or> \<not> cand (last d) \<or> b = [] \<or> \<not> cand (hd b)" using less.prems a by (cases "d = []") auto
      moreover have "length d < length a" using a rp(2) by simp
      ultimately have "scan_and_replace cand recognize (d @ b)
          = scan_and_replace cand recognize d @ scan_and_replace cand recognize b" using less.hyps by blast
      with scan_run[OF rp(2,1) hdb] scan_run[OF rp(2,1) hd_d] show ?thesis by (simp add: a)
    qed
  qed simp
qed

lemma scan_hd: "s = [] \<or> \<not> cand (hd s) \<Longrightarrow>
    scan_and_replace cand recognize s = [] \<or> \<not> cand (hd (scan_and_replace cand recognize s))"
  by (cases s) auto

lemma scan_idem: "scan_and_replace cand recognize (scan_and_replace cand recognize s) = scan_and_replace cand recognize s"
proof (induction "length s" arbitrary: s rule: less_induct)
  case less
  show ?case
  proof (cases s)
    case (Cons c cs)
    show ?thesis
    proof (cases "cand c")
      case False
      then show ?thesis using less.hyps[of cs] Cons by simp
    next
      case True
      define r d where "r = c # takeWhile cand cs" and "d = dropWhile cand cs"
      have s: "s = r @ d" and rp: "\<forall>x \<in> set r. cand x" "r \<noteq> []"
        using Cons True by (auto simp: r_def d_def dest: set_takeWhileD)
      have hd_d: "d = [] \<or> \<not> cand (hd d)" unfolding d_def using hd_dropWhile by blast
      have ih: "scan_and_replace cand recognize (scan_and_replace cand recognize d) = scan_and_replace cand recognize d"
        using less.hyps[of d] s rp(2) by simp
      have e: "scan_and_replace cand recognize s =
          (case recognize r of Some lbl \<Rightarrow> lbl | None \<Rightarrow> r) @ scan_and_replace cand recognize d"
        unfolding s by (rule scan_run[OF rp(2,1) hd_d])
      show ?thesis
      proof (cases "recognize r")
        case None
        then show ?thesis unfolding e using scan_run[OF rp(2,1) scan_hd[OF hd_d]] ih by simp
      next
        case (Some lbl)
        then show ?thesis unfolding e using label_inert[OF Some] scan_boundary[of lbl] ih by simp
      qed
    qed
  qed simp
qed

text \<open>A text the scanner does not change has no run it recognizes.\<close>

lemma fixpoint_no_run:
  assumes "scan_and_replace cand recognize (pre @ r @ post) = pre @ r @ post" and "maximal_run cand pre r post"
  shows "recognize r = None"
  using assms
proof (induction "length pre" arbitrary: pre rule: less_induct)
  case less
  have r: "r \<noteq> []" "\<forall>c \<in> set r. cand c" "post = [] \<or> \<not> cand (hd post)" "pre = [] \<or> \<not> cand (last pre)"
    using less.prems(2) by (auto simp: maximal_run_def)
  show ?case
  proof (cases pre)
    case Nil
    show ?thesis
    proof (rule ccontr)
      assume "recognize r \<noteq> None"
      then obtain lbl where l: "recognize r = Some lbl" by blast
      then have "lbl @ scan_and_replace cand recognize post = r @ post"
        using less.prems(1) Nil scan_run[OF r(1-3)] by simp
      then have "hd lbl = hd r" using label_inert[OF l] r(1) by (metis hd_append2)
      then show "False" using label_inert[OF l] r(1,2) by simp
    qed
  next
    case (Cons c cs)
    show ?thesis
    proof (cases "cand c")
      case False
      then have "scan_and_replace cand recognize (cs @ r @ post) = cs @ r @ post" using less.prems(1) Cons by simp
      moreover have "maximal_run cand cs r post"
        using less.prems(2) Cons by (auto simp: maximal_run_def split: if_splits)
      ultimately show ?thesis using less.hyps[of cs] Cons by simp
    next
      case True
      define q d where "q = c # takeWhile cand cs" and "d = dropWhile cand cs"
      have p: "pre = q @ d" and qp: "\<forall>x \<in> set q. cand x" "q \<noteq> []"
        using Cons True by (auto simp: q_def d_def dest: set_takeWhileD)
      have "d \<noteq> []"
      proof
        assume "d = []"
        then have "cand (last pre)" using p qp by (simp add: last_in_set)
        then show "False" using r(4) Cons by simp
      qed
      moreover have "\<not> cand (hd d)" using \<open>d \<noteq> []\<close> unfolding d_def using hd_dropWhile by blast
      ultimately have e: "scan_and_replace cand recognize (pre @ r @ post) =
          (case recognize q of Some lbl \<Rightarrow> lbl | None \<Rightarrow> q) @ scan_and_replace cand recognize (d @ r @ post)"
        unfolding p append_assoc by (intro scan_run[OF qp(2,1)]) simp
      have "recognize q = None"
      proof (rule ccontr)
        assume "recognize q \<noteq> None"
        then obtain lbl where l: "recognize q = Some lbl" by blast
        then have "lbl @ scan_and_replace cand recognize (d @ r @ post) = q @ d @ r @ post"
          using less.prems(1) e p by simp
        then have "hd lbl = hd q" using label_inert[OF l] qp(2) by (metis hd_append2)
        then show "False" using label_inert[OF l] qp by simp
      qed
      then have "scan_and_replace cand recognize (d @ r @ post) = d @ r @ post"
        using e less.prems(1) p by simp
      moreover have "maximal_run cand d r post"
        using less.prems(2) p \<open>d \<noteq> []\<close> by (auto simp: maximal_run_def)
      ultimately show ?thesis using less.hyps[of d] p qp(2) by simp
    qed
  qed
qed

lemma no_run_left:
  "scan_and_replace cand recognize s = pre @ r @ post \<Longrightarrow> maximal_run cand pre r post \<Longrightarrow> recognize r = None"
  using scan_idem[of s] fixpoint_no_run by metis

lemma run_masked:
  assumes "maximal_run cand pre r post" and "recognize r = Some lbl"
  shows "scan_and_replace cand recognize (pre @ r @ post) =
    scan_and_replace cand recognize pre @ lbl @ scan_and_replace cand recognize post"
proof -
  have r: "r \<noteq> []" "\<forall>c \<in> set r. cand c" "post = [] \<or> \<not> cand (hd post)" "pre = [] \<or> \<not> cand (last pre)"
    using assms(1) by (auto simp: maximal_run_def)
  have "scan_and_replace cand recognize (pre @ r @ post) =
      scan_and_replace cand recognize pre @ scan_and_replace cand recognize (r @ post)"
    using r(4) by (intro scan_boundary) auto
  then show ?thesis using scan_run[OF r(1-3)] assms(2) by simp
qed

lemma scan_fixed: "(\<And>run. set run \<subseteq> set s \<Longrightarrow> recognize run = None) \<Longrightarrow> scan_and_replace cand recognize s = s"
proof (induction "length s" arbitrary: s rule: less_induct)
  case less
  show ?case
  proof (cases s)
    case (Cons c cs)
    have d: "scan_and_replace cand recognize (dropWhile cand cs) = dropWhile cand cs"
      by (rule less.hyps) (use Cons less.prems in \<open>auto simp: le_imp_less_Suc length_dropWhile_le dest: set_dropWhileD\<close>)
    have t: "scan_and_replace cand recognize cs = cs" by (rule less.hyps) (use Cons less.prems in auto)
    have "recognize (c # takeWhile cand cs) = None"
      by (rule less.prems) (use Cons in \<open>auto dest: set_takeWhileD\<close>)
    then show ?thesis using Cons d t by (simp add: Let_def)
  qed simp
qed

lemma scan_between:
  assumes "a = [] \<or> \<not> cand (last a)" and "b = [] \<or> \<not> cand (hd b)"
  shows "scan_and_replace cand recognize (a @ m @ b) =
    scan_and_replace cand recognize a @ scan_and_replace cand recognize m @ scan_and_replace cand recognize b"
  using assms scan_boundary[of a "m @ b"] scan_boundary[of m b] by auto

lemma scan_ends:
  shows "s \<noteq> [] \<Longrightarrow> \<not> cand (hd s) \<Longrightarrow>
      scan_and_replace cand recognize s \<noteq> [] \<and> hd (scan_and_replace cand recognize s) = hd s"
    and "s \<noteq> [] \<Longrightarrow> \<not> cand (last s) \<Longrightarrow>
      scan_and_replace cand recognize s \<noteq> [] \<and> last (scan_and_replace cand recognize s) = last s"
proof -
  show "scan_and_replace cand recognize s \<noteq> [] \<and> hd (scan_and_replace cand recognize s) = hd s"
    if "s \<noteq> []" "\<not> cand (hd s)" using that by (cases s) auto
  show "scan_and_replace cand recognize s \<noteq> [] \<and> last (scan_and_replace cand recognize s) = last s"
    if "s \<noteq> []" "\<not> cand (last s)"
    using that scan_boundary[of "butlast s" "[last s]"] by simp
qed

end

text \<open>The three passes of the code are such scanners.\<close>

lemma mac_label_inert:
  "''<redacted-mac>'' \<noteq> [] \<and> \<not> mac_char (hd ''<redacted-mac>'') \<and> \<not> mac_char (last ''<redacted-mac>'')
    \<and> scan_and_replace mac_char try_mac ''<redacted-mac>'' = ''<redacted-mac>''"
  by code_simp

lemma ipv4_label_inert:
  "redaction_label_for a \<noteq> [] \<and> \<not> ipv4_char (hd (redaction_label_for a)) \<and> \<not> ipv4_char (last (redaction_label_for a))
    \<and> scan_and_replace ipv4_char try_ipv4 (redaction_label_for a) = redaction_label_for a"
  unfolding redaction_label_for_def by (cases "is_private_or_local a"; simp only: if_True if_False) code_simp+

lemma ipv6_label_inert:
  "redaction_label_for a \<noteq> [] \<and> \<not> ipv6_char (hd (redaction_label_for a)) \<and> \<not> ipv6_char (last (redaction_label_for a))
    \<and> scan_and_replace ipv6_char try_ipv6 (redaction_label_for a) = redaction_label_for a"
  unfolding redaction_label_for_def by (cases "is_private_or_local a"; simp only: if_True if_False) code_simp+

lemma try_mac_label: "try_mac run = Some lbl \<Longrightarrow> lbl = ''<redacted-mac>''"
  unfolding try_mac_def by (metis option.inject option.simps(3))

lemma try_ipv4_label: "try_ipv4 run = Some lbl \<Longrightarrow> \<exists>a. lbl = redaction_label_for a"
  by (auto simp: try_ipv4_def)

lemma try_ipv6_label: "try_ipv6 run = Some lbl \<Longrightarrow> \<exists>a. lbl = redaction_label_for a"
  by (auto simp: try_ipv6_def split: if_splits)

interpretation macs: text_scanner mac_char try_mac
  by (rule text_scanner.intro) (metis try_mac_label mac_label_inert)

interpretation ipv4s: text_scanner ipv4_char try_ipv4
  by (rule text_scanner.intro) (metis try_ipv4_label ipv4_label_inert)

interpretation ipv6s: text_scanner ipv6_char try_ipv6
  by (rule text_scanner.intro) (metis try_ipv6_label ipv6_label_inert)

section \<open>Recognized addresses\<close>

lemma split_on_mid: "split_on d (a @ d # s) = split_on d a @ split_on d s"
proof (induction a)
  case (Cons c a)
  then show ?case by (cases "split_on d a") auto
qed simp

lemma length_split_on: "length (split_on d s) = Suc (length (filter (\<lambda>c. c = d) s))"
proof (induction s)
  case (Cons c s)
  then show ?case by (cases "split_on d s") auto
qed simp

lemma set_split_on: "c \<in> set s \<Longrightarrow> c = d \<or> (\<exists>p \<in> set (split_on d s). c \<in> set p)"
proof (induction s)
  case (Cons x s)
  then show ?case by (cases "split_on d s") auto
qed simp

lemma read_radix_chars: "read_radix val r acc s = Some n \<Longrightarrow> c \<in> set s \<Longrightarrow> val c \<noteq> None"
  by (induction s arbitrary: acc) (auto split: option.splits)

lemma find_str_split: "find_str s p = Some i \<Longrightarrow> s = take i s @ p @ drop (i + length p) s"
proof (induction s arbitrary: i)
  case (Cons c s)
  then show ?case by (auto simp: starts_with_iff split: if_splits)
qed (auto split: if_splits)

lemma hex_val_char: "hex_val c \<noteq> None \<Longrightarrow> is_hexdigit c"
  by (auto simp: hex_val_def is_hexdigit_def Let_def split: if_splits)

lemma digit_val_char: "digit_val c \<noteq> None \<Longrightarrow> is_digit c"
  by (auto simp: digit_val_def split: if_splits)

lemma mac_shaped_chars: "is_mac_shaped s \<Longrightarrow> s \<noteq> [] \<and> (\<forall>c \<in> set s. mac_char c)"
  using set_split_on[of _ s "CHR '':''"] by (fastforce simp: is_mac_shaped_def Let_def mac_char_def)

lemma parse_ipv4_chars: "parse_ipv4 s = Some os \<Longrightarrow> s \<noteq> [] \<and> (\<forall>c \<in> set s. ipv4_char c)"
proof
  assume a: "parse_ipv4 s = Some os"
  show "s \<noteq> []" using a by (auto simp: parse_ipv4_def)
  show "\<forall>c \<in> set s. ipv4_char c"
  proof
    fix c assume "c \<in> set s"
    then consider "c = CHR ''.''" | p where "p \<in> set (split_on (CHR ''.'') s)" "c \<in> set p" using set_split_on by blast
    then show "ipv4_char c"
    proof cases
      case 2
      then have "parse_octet p \<noteq> None" using a by (force simp: parse_ipv4_def Let_def split: if_splits)
      then have "digit_val c \<noteq> None"
        using 2(2) read_radix_chars[of digit_val 10 0 p] by (auto simp: parse_octet_def split: if_splits option.splits)
      then show ?thesis using digit_val_char by (simp add: ipv4_char_def)
    qed (simp add: ipv4_char_def)
  qed
qed

lemma parse_groups_chars: "parse_groups s = Some gs \<Longrightarrow> c \<in> set s \<Longrightarrow> is_hexdigit c \<or> c = CHR '':''"
proof -
  assume a: "parse_groups s = Some gs" and c: "c \<in> set s"
  consider "c = CHR '':''" | p where "p \<in> set (split_on (CHR '':'') s)" "c \<in> set p" using set_split_on[OF c] by blast
  then show ?thesis
  proof cases
    case 2
    then have "parse_group p \<noteq> None" using a c by (force simp: parse_groups_def Let_def split: if_splits)
    then have "hex_val c \<noteq> None" using 2(2) read_radix_chars[of hex_val 16 0 p] by (auto simp: parse_group_def split: if_splits)
    then show ?thesis using hex_val_char by simp
  qed simp
qed

lemma parse_groups_length: "parse_groups s = Some gs \<Longrightarrow> s \<noteq> [] \<Longrightarrow> length (split_on (CHR '':'') s) = length gs"
  by (auto simp: parse_groups_def Let_def split: if_splits)

text \<open>An IPv6 text is either eight groups or has a double colon.\<close>

lemma parse_ipv6_shape:
  assumes "parse_ipv6 s = Some gs"
  shows "s \<noteq> [] \<and> (\<forall>c \<in> set s. is_hexdigit c \<or> c = CHR '':'') \<and>
    (length (split_on (CHR '':'') s) = 8 \<or> (\<exists>a b. s = a @ CHR '':'' # CHR '':'' # b))"
proof (cases "find_str s ''::''")
  case None
  with assms have p: "parse_groups s = Some gs" "length gs = 8" by (auto simp: parse_ipv6_def split: option.splits if_splits)
  then have "s \<noteq> []" by (auto simp: parse_groups_def)
  with p parse_groups_length parse_groups_chars show ?thesis by metis
next
  case (Some i)
  then obtain h t where "parse_groups (take i s) = Some h" "parse_groups (drop (i + 2) s) = Some t"
    using assms by (auto simp: parse_ipv6_def split: option.splits if_splits)
  moreover have s: "s = take i s @ CHR '':'' # CHR '':'' # drop (i + 2) s" using find_str_split[OF Some] by simp
  have "c \<in> set (take i s) \<or> c = CHR '':'' \<or> c \<in> set (drop (i + 2) s)" if "c \<in> set s" for c
    using that by (subst (asm) s) auto
  ultimately show ?thesis using parse_groups_chars s by blast
qed

lemma parse_ipv6_not_mac: "parse_ipv6 s = Some gs \<Longrightarrow> \<not> is_mac_shaped s"
proof
  assume a: "parse_ipv6 s = Some gs" and m: "is_mac_shaped s"
  from m have six: "length (split_on (CHR '':'') s) = 6" "\<forall>p \<in> set (split_on (CHR '':'') s). length p = 2"
    by (auto simp: is_mac_shaped_def Let_def)
  then obtain u v where "s = u @ CHR '':'' # CHR '':'' # v" using parse_ipv6_shape[OF a] by auto
  then have "[] \<in> set (split_on (CHR '':'') s)" by (simp add: split_on_mid)
  then show "False" using six(2) by force
qed

lemma parse_ipv6_colons: "parse_ipv6 s = Some gs \<Longrightarrow> 2 \<le> length (filter (\<lambda>c. c = CHR '':'') s)"
  using parse_ipv6_shape[of s gs] length_split_on[of "CHR '':''" s] by auto

section \<open>The whole pipeline\<close>

text \<open>A text stands alone between two others when the characters next to it are candidates of no pass.\<close>

definition free_char :: "char \<Rightarrow> bool" where
  "free_char c \<longleftrightarrow> \<not> mac_char c \<and> \<not> ipv4_char c \<and> \<not> ipv6_char c"

definition stands_alone :: "string \<Rightarrow> string \<Rightarrow> bool" where
  "stands_alone pre post \<longleftrightarrow> (pre = [] \<or> free_char (last pre)) \<and> (post = [] \<or> free_char (hd post))"

lemma stands_alone_mac:
  assumes "stands_alone pre post"
  shows "redact_mac_or_bssid (pre @ m @ post) = redact_mac_or_bssid pre @ redact_mac_or_bssid m @ redact_mac_or_bssid post"
    and "stands_alone (redact_mac_or_bssid pre) (redact_mac_or_bssid post)"
proof -
  have e: "pre = [] \<or> \<not> mac_char (last pre)" "post = [] \<or> \<not> mac_char (hd post)"
    using assms by (auto simp: stands_alone_def free_char_def)
  show "redact_mac_or_bssid (pre @ m @ post) = redact_mac_or_bssid pre @ redact_mac_or_bssid m @ redact_mac_or_bssid post"
    unfolding redact_mac_or_bssid_def by (rule macs.scan_between[OF e])
  show "stands_alone (redact_mac_or_bssid pre) (redact_mac_or_bssid post)"
    using assms e macs.scan_ends(2)[of pre] macs.scan_ends(1)[of post]
    unfolding stands_alone_def redact_mac_or_bssid_def by (cases "pre = []"; cases "post = []") simp_all
qed

lemma stands_alone_ipv4:
  assumes "stands_alone pre post"
  shows "redact_ipv4 (pre @ m @ post) = redact_ipv4 pre @ redact_ipv4 m @ redact_ipv4 post"
    and "stands_alone (redact_ipv4 pre) (redact_ipv4 post)"
proof -
  have e: "pre = [] \<or> \<not> ipv4_char (last pre)" "post = [] \<or> \<not> ipv4_char (hd post)"
    using assms by (auto simp: stands_alone_def free_char_def)
  show "redact_ipv4 (pre @ m @ post) = redact_ipv4 pre @ redact_ipv4 m @ redact_ipv4 post"
    unfolding redact_ipv4_def by (rule ipv4s.scan_between[OF e])
  show "stands_alone (redact_ipv4 pre) (redact_ipv4 post)"
    using assms e ipv4s.scan_ends(2)[of pre] ipv4s.scan_ends(1)[of post]
    unfolding stands_alone_def redact_ipv4_def by (cases "pre = []"; cases "post = []") simp_all
qed

lemma stands_alone_ipv6:
  assumes "stands_alone pre post"
  shows "redact_ipv6 (pre @ m @ post) = redact_ipv6 pre @ redact_ipv6 m @ redact_ipv6 post"
    and "stands_alone (redact_ipv6 pre) (redact_ipv6 post)"
proof -
  have e: "pre = [] \<or> \<not> ipv6_char (last pre)" "post = [] \<or> \<not> ipv6_char (hd post)"
    using assms by (auto simp: stands_alone_def free_char_def)
  show "redact_ipv6 (pre @ m @ post) = redact_ipv6 pre @ redact_ipv6 m @ redact_ipv6 post"
    unfolding redact_ipv6_def by (rule ipv6s.scan_between[OF e])
  show "stands_alone (redact_ipv6 pre) (redact_ipv6 post)"
    using assms e ipv6s.scan_ends(2)[of pre] ipv6s.scan_ends(1)[of post]
    unfolding stands_alone_def redact_ipv6_def by (cases "pre = []"; cases "post = []") simp_all
qed

lemma default_apply: "redact_apply default_redacted s = redact_ipv6 (redact_ipv4 (redact_mac_or_bssid s))"
  by (simp add: redact_apply_def default_redacted_def)

lemma stands_alone_apply:
  assumes "stands_alone pre post"
  shows "redact_apply default_redacted (pre @ m @ post) =
    redact_apply default_redacted pre @ redact_apply default_redacted m @ redact_apply default_redacted post"
  unfolding default_apply using stands_alone_mac[OF assms] stands_alone_ipv4 stands_alone_ipv6 by metis

lemma mac_needs_colon: "CHR '':'' \<notin> set s \<Longrightarrow> redact_mac_or_bssid s = s"
  unfolding redact_mac_or_bssid_def
proof (rule macs.scan_fixed)
  fix run assume "CHR '':'' \<notin> set s" "set run \<subseteq> set s"
  then have "split_on (CHR '':'') run = [run]" by (intro split_on_absent) blast
  then show "try_mac run = None" by (simp add: try_mac_def is_mac_shaped_def)
qed

lemma ipv4_needs_dot: "CHR ''.'' \<notin> set s \<Longrightarrow> redact_ipv4 s = s"
  unfolding redact_ipv4_def
proof (rule ipv4s.scan_fixed)
  fix run assume "CHR ''.'' \<notin> set s" "set run \<subseteq> set s"
  then have "split_on (CHR ''.'') run = [run]" by (intro split_on_absent) blast
  then show "try_ipv4 run = None" by (simp add: try_ipv4_def parse_ipv4_def)
qed

lemma ipv6_needs_colon: "CHR '':'' \<notin> set s \<Longrightarrow> redact_ipv6 s = s"
  unfolding redact_ipv6_def
proof (rule ipv6s.scan_fixed)
  fix run assume "CHR '':'' \<notin> set s" "set run \<subseteq> set s"
  then have "filter (\<lambda>c. c = CHR '':'') run = []" by (auto simp: filter_empty_conv)
  then show "try_ipv6 run = None" by (simp add: try_ipv6_def)
qed

lemma apply_label:
  "redact_ipv6 (redact_ipv4 ''<redacted-mac>'') = ''<redacted-mac>''"
  "redact_ipv6 (redaction_label_for a) = redaction_label_for a"
proof -
  show "redact_ipv6 (redact_ipv4 ''<redacted-mac>'') = ''<redacted-mac>''" by code_simp
  show "redact_ipv6 (redaction_label_for a) = redaction_label_for a"
    using ipv6_label_inert unfolding redact_ipv6_def by blast
qed

lemma apply_mac: "is_mac_shaped m \<Longrightarrow> redact_apply default_redacted m = ''<redacted-mac>''"
  using macs.scan_run[of m "[]"] mac_shaped_chars[of m] apply_label(1)
  by (simp only: default_apply redact_mac_or_bssid_def try_mac_def) simp

lemma ipv4_char_no_colon: "ipv4_char c \<Longrightarrow> c \<noteq> CHR '':''"
  by (auto simp: ipv4_char_def is_digit_def)

lemma hex_char_facts: "is_hexdigit c \<or> c = CHR '':'' \<Longrightarrow> c \<noteq> CHR ''.'' \<and> c \<noteq> CHR 0x25 \<and> mac_char c \<and> ipv6_char c"
  by (auto simp: mac_char_def ipv6_char_def is_hexdigit_def is_digit_def)

lemma apply_ipv4:
  assumes "parse_ipv4 m = Some os"
  shows "redact_apply default_redacted m = redaction_label_for (V4 os)"
proof -
  have m: "m \<noteq> []" "\<forall>c \<in> set m. ipv4_char c" using parse_ipv4_chars[OF assms] by auto
  then have 1: "redact_mac_or_bssid m = m" using ipv4_char_no_colon by (intro mac_needs_colon) blast
  have "redact_ipv4 m = redaction_label_for (V4 os)"
    using ipv4s.scan_run[OF m, of "[]"] assms by (simp add: redact_ipv4_def try_ipv4_def)
  then show ?thesis by (simp only: default_apply 1 apply_label(2))
qed

lemma apply_ipv6:
  assumes "parse_ipv6 m = Some gs"
  shows "redact_apply default_redacted m = redaction_label_for (V6 gs)"
proof -
  have m: "m \<noteq> []" "\<forall>c \<in> set m. is_hexdigit c \<or> c = CHR '':''" using parse_ipv6_shape[OF assms] by auto
  have "try_mac m = None" using parse_ipv6_not_mac[OF assms] by (simp add: try_mac_def)
  moreover have "\<forall>c \<in> set m. mac_char c" using m(2) hex_char_facts by blast
  ultimately have 1: "redact_mac_or_bssid m = m"
    using macs.scan_run[OF m(1), of "[]"] by (simp add: redact_mac_or_bssid_def)
  have 2: "redact_ipv4 m = m" using m(2) hex_char_facts by (intro ipv4_needs_dot) blast
  have 3: "takeWhile (\<lambda>c. c \<noteq> CHR 0x25) m = m" using m(2) hex_char_facts by (intro takeWhile_eq_all_conv[THEN iffD2]) blast
  have "try_ipv6 m = Some (redaction_label_for (V6 gs))"
    unfolding try_ipv6_def 3 using assms parse_ipv6_colons[OF assms] by simp
  moreover have "\<forall>c \<in> set m. ipv6_char c" using m(2) hex_char_facts by blast
  ultimately have "redact_ipv6 m = redaction_label_for (V6 gs)"
    using ipv6s.scan_run[OF m(1), of "[]"] by (simp add: redact_ipv6_def)
  then show ?thesis by (simp only: default_apply 1 2)
qed

section \<open>Properties\<close>

text \<open>C11: A hardware address, an IPv4 address or an IPv6 address that stands alone between characters no
  pass considers is replaced by its label whatever surrounds it: the redacted text does not depend on the
  address except for the private or public class of an IP address.\<close>

theorem delimited_address_masked:
  assumes "stands_alone pre post"
  shows "(is_mac_shaped a \<longrightarrow> redact_apply default_redacted (pre @ a @ post) =
        redact_apply default_redacted pre @ ''<redacted-mac>'' @ redact_apply default_redacted post)
    \<and> (\<forall>os. parse_ipv4 a = Some os \<longrightarrow> redact_apply default_redacted (pre @ a @ post) =
        redact_apply default_redacted pre @ redaction_label_for (V4 os) @ redact_apply default_redacted post)
    \<and> (\<forall>gs. parse_ipv6 a = Some gs \<longrightarrow> redact_apply default_redacted (pre @ a @ post) =
        redact_apply default_redacted pre @ redaction_label_for (V6 gs) @ redact_apply default_redacted post)"
  by (intro conjI allI impI) (simp_all only: stands_alone_apply[OF assms] apply_mac apply_ipv4 apply_ipv6)

theorem delimited_address_masked_witness:
  "redact_apply default_redacted (''bssid='' @ ''aa:bb:cc:dd:ee:ff'' @ '' up'') =
     redact_apply default_redacted ''bssid='' @ ''<redacted-mac>'' @ redact_apply default_redacted '' up''
   \<and> redact_apply default_redacted (''via '' @ ''10.0.0.5'' @ '' up'') =
     redact_apply default_redacted ''via '' @ redaction_label_for (V4 [10, 0, 0, 5]) @ redact_apply default_redacted '' up''
   \<and> redact_apply default_redacted (''via '' @ ''2001:db8::1'' @ '' up'') =
     redact_apply default_redacted ''via '' @ redaction_label_for (V6 [0x2001, 0xdb8, 0, 0, 0, 0, 0, 1])
       @ redact_apply default_redacted '' up''"
proof -
  have s: "stands_alone ''bssid='' '' up''" "stands_alone ''via '' '' up''" by code_simp+
  have m: "is_mac_shaped ''aa:bb:cc:dd:ee:ff''" by code_simp
  have v4: "parse_ipv4 ''10.0.0.5'' = Some [10, 0, 0, 5]" by code_simp
  have v6: "parse_ipv6 ''2001:db8::1'' = Some [0x2001, 0xdb8, 0, 0, 0, 0, 0, 1]" by code_simp
  show ?thesis
    using delimited_address_masked[OF s(1), of "''aa:bb:cc:dd:ee:ff''"] m
      delimited_address_masked[OF s(2), of "''10.0.0.5''"] v4
      delimited_address_masked[OF s(2), of "''2001:db8::1''"] v6 by blast
qed

text \<open>No pass leaves behind, anywhere in its output, a maximal run of its candidate characters that it
  would recognize as an address, and running a pass again changes nothing.\<close>

theorem passes_leave_no_run:
  "\<not> (\<exists>pre r post. redact_mac_or_bssid t = pre @ r @ post \<and> maximal_run mac_char pre r post \<and> is_mac_shaped r)
   \<and> \<not> (\<exists>pre r post. redact_ipv4 t = pre @ r @ post \<and> maximal_run ipv4_char pre r post \<and> parse_ipv4 r \<noteq> None)
   \<and> \<not> (\<exists>pre r post. redact_ipv6 t = pre @ r @ post \<and> maximal_run ipv6_char pre r post \<and> try_ipv6 r \<noteq> None)
   \<and> redact_mac_or_bssid (redact_mac_or_bssid t) = redact_mac_or_bssid t
   \<and> redact_ipv4 (redact_ipv4 t) = redact_ipv4 t \<and> redact_ipv6 (redact_ipv6 t) = redact_ipv6 t"
proof -
  have "try_mac r \<noteq> None" if "is_mac_shaped r" for r using that by (simp add: try_mac_def)
  moreover have "try_ipv4 r \<noteq> None" if "parse_ipv4 r \<noteq> None" for r using that by (simp add: try_ipv4_def)
  ultimately show ?thesis
    unfolding redact_mac_or_bssid_def redact_ipv4_def redact_ipv6_def
    using macs.no_run_left ipv4s.no_run_left ipv6s.no_run_left macs.scan_idem ipv4s.scan_idem ipv6s.scan_idem by metis
qed

text \<open>The whole redaction is not idempotent and misses addresses next to a candidate character: a
  hardware address after a colon and an IPv4 address at the end of a sentence are kept in clear, and a
  hardware address that touches an IPv4 address is masked by the second application only.\<close>

theorem redaction_gaps:
  "redact_apply default_redacted ''bssid:aa:bb:cc:dd:ee:ff'' = ''bssid:aa:bb:cc:dd:ee:ff''
   \<and> redact_apply default_redacted ''gateway 10.0.0.5.'' = ''gateway 10.0.0.5.''
   \<and> redact_apply default_redacted ''aa:bb:cc:dd:ee:ff1.2.3.4'' = ''aa:bb:cc:dd:ee:ff<redacted-public-ip>''
   \<and> redact_apply default_redacted (redact_apply default_redacted ''aa:bb:cc:dd:ee:ff1.2.3.4'')
      = ''<redacted-mac><redacted-public-ip>''"
  by code_simp

end
