(* ===== verification/Bytes.thy ===== *)
theory Bytes
  imports Fraggle_Prelude
begin

text \<open>
  Byte strings and the conversions of the integer types: \<open>to_be_bytes\<close>, \<open>from_be_bytes\<close>, \<open>to_le_bytes\<close>,
  \<open>from_le_bytes\<close>, and \<open>slice::chunks\<close>.
\<close>

unbundle bit_operations_syntax

type_synonym bytes = "u8 list"

definition be16 :: "u16 \<Rightarrow> bytes" where
  "be16 v = [ucast (drop_bit 8 v), ucast v]"

definition be32 :: "u32 \<Rightarrow> bytes" where
  "be32 v = [ucast (drop_bit 24 v), ucast (drop_bit 16 v), ucast (drop_bit 8 v), ucast v]"

definition of_be16 :: "u8 \<Rightarrow> u8 \<Rightarrow> u16" where
  "of_be16 a b = push_bit 8 (ucast a) OR ucast b"

definition of_be32 :: "u8 \<Rightarrow> u8 \<Rightarrow> u8 \<Rightarrow> u8 \<Rightarrow> u32" where
  "of_be32 a b c d = push_bit 24 (ucast a) OR push_bit 16 (ucast b) OR push_bit 8 (ucast c) OR ucast d"

definition be64 :: "u64 \<Rightarrow> bytes" where
  "be64 v = map (\<lambda>k. ucast (drop_bit (8 * k) v)) [7, 6, 5, 4, 3, 2, 1, 0]"

definition le32 :: "u32 \<Rightarrow> bytes" where
  "le32 v = rev (be32 v)"

definition le64 :: "u64 \<Rightarrow> bytes" where
  "le64 v = rev (be64 v)"

definition of_le32 :: "u8 \<Rightarrow> u8 \<Rightarrow> u8 \<Rightarrow> u8 \<Rightarrow> u32" where
  "of_le32 a b c d = of_be32 d c b a"

function chunks :: "nat \<Rightarrow> 'a list \<Rightarrow> 'a list list" where
  "chunks n xs = (if n = 0 \<or> xs = [] then [] else take n xs # chunks n (drop n xs))"
  by pat_completeness auto
termination
  by (relation "measure (\<lambda>(n, xs). length xs)") auto

declare chunks.simps [simp del]

section \<open>Laws\<close>

lemma of_be16_be16: "of_be16 (ucast (drop_bit 8 v)) (ucast v) = v"
  by (rule bit_word_eqI) (auto simp: of_be16_def bit_simps)

lemma of_be32_be32: "of_be32 (ucast (drop_bit 24 v)) (ucast (drop_bit 16 v)) (ucast (drop_bit 8 v)) (ucast v) = v"
proof (rule bit_word_eqI)
  fix n assume "n < LENGTH(32)"
  then consider "n < 8" | "8 \<le> n" "n < 16" | "16 \<le> n" "n < 24" | "24 \<le> n" "n < 32" by fastforce
  then show "bit (of_be32 (ucast (drop_bit 24 v)) (ucast (drop_bit 16 v)) (ucast (drop_bit 8 v)) (ucast v)) n = bit v n"
    by cases (auto simp: of_be32_def bit_simps)
qed

lemma be16_length [simp]: "length (be16 v) = 2"
  by (simp add: be16_def)

lemma be32_length [simp]: "length (be32 v) = 4"
  by (simp add: be32_def)

lemma be64_length [simp]: "length (be64 v) = 8"
  by (simp add: be64_def)

lemma le_length [simp]: "length (le32 v) = 4" "length (le64 w) = 8"
  by (simp_all add: le32_def le64_def)

lemma be16_inj: "be16 v = be16 w \<Longrightarrow> v = w"
  unfolding be16_def using of_be16_be16[of v] of_be16_be16[of w] by (metis list.inject)

lemma be32_inj: "be32 v = be32 w \<Longrightarrow> v = w"
  unfolding be32_def using of_be32_be32[of v] of_be32_be32[of w] by (metis list.inject)

lemma concat_chunks: "0 < n \<Longrightarrow> concat (chunks n xs) = xs"
proof (induction n xs rule: chunks.induct)
  case (1 n xs)
  then show ?case by (cases "xs = []") (simp_all add: chunks.simps[of n xs] chunks.simps[of n "[]"])
qed

lemma chunks_length: "0 < n \<Longrightarrow> length xs mod n = 0 \<Longrightarrow> c \<in> set (chunks n xs) \<Longrightarrow> length c = n"
proof (induction n xs rule: chunks.induct)
  case (1 n xs)
  show ?case
  proof (cases "xs = []")
    case False
    then have "n \<le> length xs" using "1.prems"(1,2) by (metis dvd_imp_le length_greater_0_conv mod_0_imp_dvd)
    moreover have "length (drop n xs) mod n = 0" using "1.prems"(2) calculation by (simp add: le_mod_geq)
    ultimately show ?thesis using 1 False by (auto simp: chunks.simps[of n xs])
  qed (use 1 in \<open>simp add: chunks.simps\<close>)
qed

end
