(* ===== verification/Packet_Dsl.thy ===== *)
theory Packet_Dsl
  imports Bytes
begin

text \<open>
  \<open>fuzzing/dsl.rs\<close>: packets as stacks of layers, their serialization and IPv4 fragmentation. The header
  writers belong to the package \<open>etherparse\<close>: they are the fields of the record \<open>Etherparse\<close>, an argument
  of the definitions that use them, and what the properties need of the documented wire formats is the
  predicate \<open>wire_formats\<close>. Values drawn from the random generator are arguments: the constructors get
  them, and \<open>build_layers\<close> gets for each layer index the value a \<open>Bad\<close> checksum draws there. Sums of
  lengths are as in a release build, where they wrap. The fragmentation loop is a partial function, so that
  not returning is \<open>None\<close>.
\<close>

unbundle bit_operations_syntax

section \<open>Layers\<close>

datatype ChecksumMode = Auto | Fixed u16 | Bad

record Ether =
  ether_src :: bytes
  ether_dst :: bytes
  ether_type :: "u16 option"

record Vlan =
  vid :: u16
  pcp :: u8

record Ip =
  ip_src :: bytes
  ip_dst :: bytes
  ttl :: u8
  ip_id :: u16
  dont_fragment :: bool
  more_fragments :: bool
  fragment_offset :: u16
  proto :: "u8 option"
  ip_checksum :: ChecksumMode

record Ipv6 =
  ip6_src :: bytes
  ip6_dst :: bytes
  hop_limit :: u8
  next_header :: "u8 option"
  flow_label :: u32

datatype TcpOpt = Nop | Mss u16 | WScale u8 | SAckOK | Timestamp u32 u32

record TcpFlags =
  fin :: bool
  syn :: bool
  rst :: bool
  psh :: bool
  ack :: bool
  urg :: bool

record Tcp =
  tcp_sport :: u16
  tcp_dport :: u16
  tcp_seq :: u32
  tcp_ack :: u32
  window :: u16
  flags :: TcpFlags
  options :: "TcpOpt list"
  tcp_checksum :: ChecksumMode

record Udp =
  udp_sport :: u16
  udp_dport :: u16
  udp_checksum :: ChecksumMode

record Icmp =
  icmp_type :: u8
  icmp_code :: u8
  icmp_id :: u16
  icmp_seq :: u16
  next_hop_mtu :: "u16 option"

record Icmpv6 =
  icmp6_type :: u8
  icmp6_code :: u8

record Raw =
  load :: bytes

datatype Layer =
    LEther Ether | LVlan Vlan | LIp Ip | LIpv6 Ipv6 | LTcp Tcp | LUdp Udp | LIcmp Icmp | LIcmpv6 Icmpv6 | LRaw Raw

record Packet =
  layers :: "Layer list"

datatype DslError = Build string | Io string

subsection \<open>Constructors and setters\<close>

text \<open>The first byte of a random hardware address is fixed, so that it is locally administered.\<close>

definition ether_new :: "bytes \<Rightarrow> bytes \<Rightarrow> Ether" where
  "ether_new rsrc rdst = \<lparr>ether_src = rsrc[0 := 2], ether_dst = rdst[0 := 2], ether_type = None\<rparr>"

definition vlan_new :: "u16 \<Rightarrow> Vlan" where
  "vlan_new v = \<lparr>vid = v, pcp = 0\<rparr>"

definition ip_new :: "u16 \<Rightarrow> Ip" where
  "ip_new rid = \<lparr>ip_src = [10, 0, 0, 1], ip_dst = [10, 0, 0, 2], ttl = 64, ip_id = rid, dont_fragment = False,
     more_fragments = False, fragment_offset = 0, proto = None, ip_checksum = Auto\<rparr>"

definition ip_df :: "Ip \<Rightarrow> Ip" where "ip_df i = i\<lparr>dont_fragment := True\<rparr>"
definition ip_mf :: "Ip \<Rightarrow> Ip" where "ip_mf i = i\<lparr>more_fragments := True\<rparr>"
definition ip_frag_offset :: "Ip \<Rightarrow> u16 \<Rightarrow> Ip" where "ip_frag_offset i off = i\<lparr>fragment_offset := off\<rparr>"
definition ip_set_proto :: "Ip \<Rightarrow> u8 \<Rightarrow> Ip" where "ip_set_proto i p = i\<lparr>proto := Some p\<rparr>"
definition ip_set_checksum :: "Ip \<Rightarrow> u16 \<Rightarrow> Ip" where "ip_set_checksum i v = i\<lparr>ip_checksum := Fixed v\<rparr>"
definition ip_bad_checksum :: "Ip \<Rightarrow> Ip" where "ip_bad_checksum i = i\<lparr>ip_checksum := Bad\<rparr>"

definition ipv6_new :: Ipv6 where
  "ipv6_new = \<lparr>ip6_src = replicate 16 0, ip6_dst = replicate 16 0, hop_limit = 64, next_header = None, flow_label = 0\<rparr>"

definition no_flags :: TcpFlags where
  "no_flags = \<lparr>fin = False, syn = False, rst = False, psh = False, ack = False, urg = False\<rparr>"

definition tcp_new :: "u16 \<Rightarrow> u32 \<Rightarrow> Tcp" where
  "tcp_new rsport rseq = \<lparr>tcp_sport = rsport, tcp_dport = 443, tcp_seq = rseq, tcp_ack = 0, window = 65535,
     flags = no_flags, options = [], tcp_checksum = Auto\<rparr>"

definition flag_char :: "TcpFlags \<Rightarrow> char \<Rightarrow> TcpFlags" where
  "flag_char f c =
     (if c = CHR ''S'' \<or> c = CHR ''s'' then f\<lparr>syn := True\<rparr>
      else if c = CHR ''A'' \<or> c = CHR ''a'' then f\<lparr>ack := True\<rparr>
      else if c = CHR ''P'' \<or> c = CHR ''p'' then f\<lparr>psh := True\<rparr>
      else if c = CHR ''F'' \<or> c = CHR ''f'' then f\<lparr>fin := True\<rparr>
      else if c = CHR ''R'' \<or> c = CHR ''r'' then f\<lparr>rst := True\<rparr>
      else if c = CHR ''U'' \<or> c = CHR ''u'' then f\<lparr>urg := True\<rparr>
      else f)"

definition flags_str :: "Tcp \<Rightarrow> string \<Rightarrow> Tcp" where
  "flags_str t s = t\<lparr>flags := foldl flag_char (flags t) s\<rparr>"

definition tcp_options :: "Tcp \<Rightarrow> TcpOpt list \<Rightarrow> Tcp" where
  "tcp_options t opts = t\<lparr>options := opts\<rparr>"

definition udp_new :: "u16 \<Rightarrow> Udp" where
  "udp_new rsport = \<lparr>udp_sport = rsport, udp_dport = 53, udp_checksum = Auto\<rparr>"

definition echo_request :: "u16 \<Rightarrow> Icmp" where
  "echo_request rid = \<lparr>icmp_type = 8, icmp_code = 0, icmp_id = rid, icmp_seq = 0, next_hop_mtu = None\<rparr>"

definition frag_needed :: "u16 \<Rightarrow> Icmp" where
  "frag_needed mtu = \<lparr>icmp_type = 3, icmp_code = 4, icmp_id = 0, icmp_seq = 0, next_hop_mtu = Some mtu\<rparr>"

definition echo_request6 :: Icmpv6 where
  "echo_request6 = \<lparr>icmp6_type = 128, icmp6_code = 0\<rparr>"

definition raw_of_size :: "nat \<Rightarrow> u8 \<Rightarrow> Raw" where
  "raw_of_size n fill = \<lparr>load = replicate n fill\<rparr>"

definition packet_new :: Packet where
  "packet_new = \<lparr>layers = []\<rparr>"

definition packet_push :: "Packet \<Rightarrow> Layer \<Rightarrow> Packet" where
  "packet_push p l = p\<lparr>layers := layers p @ [l]\<rparr>"

text \<open>The operator \<open>/\<close> between two layers, and between a packet and a layer.\<close>

definition div_layers :: "Layer \<Rightarrow> Layer \<Rightarrow> Packet" where
  "div_layers a b = packet_push (packet_push packet_new a) b"

definition div_packet :: "Packet \<Rightarrow> Layer \<Rightarrow> Packet" where
  "div_packet p l = p\<lparr>layers := layers p @ [l]\<rparr>"

definition tcp_flags_to_str :: "TcpFlags \<Rightarrow> string" where
  "tcp_flags_to_str f =
     (let s = (if fin f then ''F'' else []) @ (if syn f then ''S'' else []) @ (if rst f then ''R'' else [])
            @ (if psh f then ''P'' else []) @ (if ack f then ''A'' else []) @ (if urg f then ''U'' else [])
      in if s = [] then ''-'' else s)"

section \<open>Serialization\<close>

fun option_bytes :: "TcpOpt \<Rightarrow> bytes" where
  "option_bytes Nop = [1]"
| "option_bytes (Mss v) = [2, 4] @ be16 v"
| "option_bytes (WScale v) = [3, 3, v]"
| "option_bytes SAckOK = [4, 2]"
| "option_bytes (Timestamp tsval tsecr) = [8, 10] @ be32 tsval @ be32 tsecr"

function pad4 :: "bytes \<Rightarrow> bytes" where
  "pad4 out = (if length out mod 4 \<noteq> 0 then pad4 (out @ [1]) else out)"
  by pat_completeness auto
termination
  by (relation "measure (\<lambda>out. (4 - length out mod 4) mod 4)") (auto simp: mod_Suc)

declare pad4.simps [simp del]

definition serialize_tcp_options :: "TcpOpt list \<Rightarrow> bytes" where
  "serialize_tcp_options opts = pad4 (concat (map option_bytes opts))"

fun infer_ether_type :: "Layer list \<Rightarrow> u16" where
  "infer_ether_type [] = 0x0800"
| "infer_ether_type (LIp _ # _) = 0x0800"
| "infer_ether_type (LIpv6 _ # _) = 0x86DD"
| "infer_ether_type (LVlan _ # _) = 0x8100"
| "infer_ether_type (_ # ls) = infer_ether_type ls"

fun infer_ip_proto :: "Layer list \<Rightarrow> u8" where
  "infer_ip_proto [] = 255"
| "infer_ip_proto (LTcp _ # _) = 6"
| "infer_ip_proto (LUdp _ # _) = 17"
| "infer_ip_proto (LIcmp _ # _) = 1"
| "infer_ip_proto (LIcmpv6 _ # _) = 58"
| "infer_ip_proto (_ # ls) = infer_ip_proto ls"

fun infer_proto_from_layers :: "Layer list \<Rightarrow> u8 option" where
  "infer_proto_from_layers [] = None"
| "infer_proto_from_layers (LTcp _ # _) = Some 6"
| "infer_proto_from_layers (LUdp _ # _) = Some 17"
| "infer_proto_from_layers (LIcmp _ # _) = Some 1"
| "infer_proto_from_layers (_ # ls) = infer_proto_from_layers ls"

text \<open>The header values the code hands to \<open>etherparse\<close>, and what it calls there.\<close>

record Ipv4Header =
  h4_payload_len :: u16
  h4_ttl :: u8
  h4_protocol :: u8
  h4_source :: bytes
  h4_destination :: bytes
  h4_identification :: u16
  h4_dont_fragment :: bool
  h4_more_fragments :: bool
  h4_fragment_offset :: u16

record Ipv6Header =
  h6_flow_label :: u32
  h6_payload_length :: u16
  h6_next_header :: u8
  h6_hop_limit :: u8
  h6_source :: bytes
  h6_destination :: bytes

record TcpHeader =
  ht_source_port :: u16
  ht_destination_port :: u16
  ht_sequence_number :: u32
  ht_window_size :: u16
  ht_acknowledgment_number :: u32
  ht_flags :: TcpFlags
  ht_options :: bytes

record Etherparse =
  ethernet2_write :: "bytes \<Rightarrow> bytes \<Rightarrow> u16 \<Rightarrow> string + bytes"
  ipv4_new :: "u16 \<Rightarrow> string option" \<comment> \<open>the error for a payload length\<close>
  frag_offset_try_from :: "u16 \<Rightarrow> u16 option"
  ipv4_write :: "Ipv4Header \<Rightarrow> string + bytes"
  flow_label_try_new :: "u32 \<Rightarrow> u32 option"
  ipv6_write :: "Ipv6Header \<Rightarrow> string + bytes"
  tcp_set_options_raw :: "bytes \<Rightarrow> bytes option"
  tcp_write :: "TcpHeader \<Rightarrow> string + bytes"
  udp_write :: "u16 \<Rightarrow> u16 \<Rightarrow> u16 \<Rightarrow> u16 \<Rightarrow> string + bytes"

definition map_err :: "string + bytes \<Rightarrow> DslError + bytes" where
  "map_err r = (case r of Inl e \<Rightarrow> Inl (Build e) | Inr b \<Rightarrow> Inr b)"

definition and_then :: "DslError + bytes \<Rightarrow> (bytes \<Rightarrow> DslError + bytes) \<Rightarrow> DslError + bytes" where
  "and_then r f = (case r of Inl e \<Rightarrow> Inl e | Inr b \<Rightarrow> f b)"

text \<open>The checksum override at two bytes of a header.\<close>

definition patch_checksum :: "nat \<Rightarrow> ChecksumMode \<Rightarrow> u16 \<Rightarrow> bytes \<Rightarrow> bytes" where
  "patch_checksum at m drawn hdr =
     (let put = (\<lambda>v. if at + 2 \<le> length hdr then take at hdr @ be16 v @ drop (at + 2) hdr else hdr)
      in case m of Auto \<Rightarrow> hdr | Fixed v \<Rightarrow> put v | Bad \<Rightarrow> put drawn)"

definition ipv4_header :: "Etherparse \<Rightarrow> Ip \<Rightarrow> Layer list \<Rightarrow> bytes \<Rightarrow> DslError + bytes" where
  "ipv4_header ep ip upper rest =
     (let len = (of_nat (length rest) :: u16) in
      case ipv4_new ep len of
        Some e \<Rightarrow> Inl (Build e)
      | None \<Rightarrow>
          map_err (ipv4_write ep
            \<lparr>h4_payload_len = len, h4_ttl = ttl ip,
             h4_protocol = (case proto ip of Some p \<Rightarrow> p | None \<Rightarrow> infer_ip_proto upper),
             h4_source = ip_src ip, h4_destination = ip_dst ip, h4_identification = ip_id ip,
             h4_dont_fragment = dont_fragment ip, h4_more_fragments = more_fragments ip,
             h4_fragment_offset = unwrap_or (frag_offset_try_from ep (fragment_offset ip)) 0\<rparr>))"

definition tcp_header :: "Etherparse \<Rightarrow> Tcp \<Rightarrow> DslError + bytes" where
  "tcp_header ep t =
     (let opts_bytes = serialize_tcp_options (options t);
          opts = (if opts_bytes \<noteq> [] then unwrap_or (tcp_set_options_raw ep opts_bytes) [] else [])
      in map_err (tcp_write ep
           \<lparr>ht_source_port = tcp_sport t, ht_destination_port = tcp_dport t, ht_sequence_number = tcp_seq t,
            ht_window_size = window t, ht_acknowledgment_number = tcp_ack t, ht_flags = flags t, ht_options = opts\<rparr>))"

definition udp_length :: "bytes \<Rightarrow> u16" where
  "udp_length rest = 8 + of_nat (length rest)"

definition icmp_body :: "Icmp \<Rightarrow> bytes" where
  "icmp_body i =
     [icmp_type i, icmp_code i, 0, 0]
     @ (if icmp_type i = 8 \<or> icmp_type i = 0 then be16 (icmp_id i) @ be16 (icmp_seq i)
        else if icmp_type i = 3 then [0, 0] @ be16 (unwrap_or (next_hop_mtu i) 0)
        else [0, 0, 0, 0])"

definition vlan_tag :: "Vlan \<Rightarrow> Layer list \<Rightarrow> bytes" where
  "vlan_tag v upper =
     [0x81, 0x00] @ be16 (push_bit 13 (ucast (pcp v)) OR (vid v AND 0x0FFF)) @ be16 (infer_ether_type upper)"

text \<open>What \<open>build_layers(layers, idx, out)\<close> appends to \<open>out\<close>, on the layers from \<open>idx\<close> on.\<close>

fun build_layers :: "Etherparse \<Rightarrow> (nat \<Rightarrow> u16) \<Rightarrow> nat \<Rightarrow> Layer list \<Rightarrow> DslError + bytes" where
  "build_layers ep rnd idx [] = Inr []"
| "build_layers ep rnd idx (current # upper) =
     (let rest = build_layers ep rnd (Suc idx) upper in
      case current of
        LEther e \<Rightarrow>
          and_then (map_err (ethernet2_write ep (ether_src e) (ether_dst e)
                      (case ether_type e of Some t \<Rightarrow> t | None \<Rightarrow> infer_ether_type upper)))
            (\<lambda>h. and_then rest (\<lambda>r. Inr (h @ r)))
      | LVlan v \<Rightarrow> and_then rest (\<lambda>r. Inr (vlan_tag v upper @ r))
      | LIp ip \<Rightarrow> and_then rest (\<lambda>r. and_then (ipv4_header ep ip upper r)
                   (\<lambda>h. Inr (patch_checksum 10 (ip_checksum ip) (rnd idx) h @ r)))
      | LIpv6 ip \<Rightarrow> and_then rest (\<lambda>r. and_then (map_err (ipv6_write ep
                     \<lparr>h6_flow_label = unwrap_or (flow_label_try_new ep (flow_label ip)) 0,
                      h6_payload_length = of_nat (length r),
                      h6_next_header = (case next_header ip of Some p \<Rightarrow> p | None \<Rightarrow> infer_ip_proto upper),
                      h6_hop_limit = hop_limit ip, h6_source = ip6_src ip, h6_destination = ip6_dst ip\<rparr>))
                   (\<lambda>h. Inr (h @ r)))
      | LTcp t \<Rightarrow> and_then rest (\<lambda>r. and_then (tcp_header ep t)
                   (\<lambda>h. Inr (patch_checksum 16 (tcp_checksum t) (rnd idx) h @ r)))
      | LUdp u \<Rightarrow> and_then rest (\<lambda>r. and_then (map_err (udp_write ep (udp_sport u) (udp_dport u) (udp_length r)
                     (case udp_checksum u of Fixed v \<Rightarrow> v | Bad \<Rightarrow> rnd idx | Auto \<Rightarrow> 0)))
                   (\<lambda>h. Inr (h @ r)))
      | LIcmp i \<Rightarrow> and_then rest (\<lambda>r. Inr (icmp_body i @ r))
      | LIcmpv6 i \<Rightarrow> and_then rest (\<lambda>r. Inr ([icmp6_type i, icmp6_code i, 0, 0] @ r))
      | LRaw w \<Rightarrow> Inr (load w))"

definition build_packet :: "Etherparse \<Rightarrow> (nat \<Rightarrow> u16) \<Rightarrow> Packet \<Rightarrow> DslError + bytes" where
  "build_packet ep rnd p = build_layers ep rnd 0 (layers p)"

section \<open>Fragmentation\<close>

definition fragment_at :: "Layer list \<Rightarrow> Ip \<Rightarrow> u8 option \<Rightarrow> bytes \<Rightarrow> nat \<Rightarrow> nat \<Rightarrow> Packet" where
  "fragment_at before ip proto_hint upper_bytes fragsize off =
     (let fin_off = min (off + fragsize) (length upper_bytes);
          chunk = take (fin_off - off) (drop off upper_bytes);
          frag_ip = ip\<lparr>more_fragments := (fin_off \<noteq> length upper_bytes), fragment_offset := of_nat (off div 8)\<rparr>;
          frag_ip = (case proto_hint of Some p \<Rightarrow> frag_ip\<lparr>proto := Some p\<rparr> | None \<Rightarrow> frag_ip)
      in \<lparr>layers = before @ [LIp frag_ip, LRaw \<lparr>load = chunk\<rparr>]\<rparr>)"

partial_function (option) fragment_loop ::
    "Layer list \<Rightarrow> Ip \<Rightarrow> u8 option \<Rightarrow> bytes \<Rightarrow> nat \<Rightarrow> nat \<Rightarrow> Packet list \<Rightarrow> Packet list option" where
  "fragment_loop before ip proto_hint upper_bytes fragsize off out =
     (if off < length upper_bytes then
        fragment_loop before ip proto_hint upper_bytes fragsize (min (off + fragsize) (length upper_bytes))
          (out @ [fragment_at before ip proto_hint upper_bytes fragsize off])
      else Some out)"

declare fragment_loop.simps [code]

definition is_ip :: "Layer \<Rightarrow> bool" where
  "is_ip l = (case l of LIp _ \<Rightarrow> True | _ \<Rightarrow> False)"

definition the_ip :: "Layer \<Rightarrow> Ip" where
  "the_ip l = (case l of LIp i \<Rightarrow> i | _ \<Rightarrow> ip_new 0)"

text \<open>\<open>Packet::fragment\<close>: \<open>None\<close> is a call that does not return.\<close>

definition fragment :: "Etherparse \<Rightarrow> (nat \<Rightarrow> u16) \<Rightarrow> Packet \<Rightarrow> nat \<Rightarrow> (DslError + Packet list) option" where
  "fragment ep rnd p fragsize =
     (if fragsize mod 8 \<noteq> 0 then Some (Inl (Build ''fragsize must be a multiple of 8''))
      else case position is_ip (layers p) of
        None \<Rightarrow> Some (Inl (Build ''fragment() requires an IP layer''))
      | Some ip_idx \<Rightarrow>
          (let before = take ip_idx (layers p);
               ip = the_ip (layers p ! ip_idx);
               upper_layers = drop (Suc ip_idx) (layers p)
           in case build_layers ep rnd 0 upper_layers of
                Inl e \<Rightarrow> Some (Inl e)
              | Inr upper_bytes \<Rightarrow>
                  if upper_bytes = [] then Some (Inr [p])
                  else map_option Inr (fragment_loop before ip (infer_proto_from_layers upper_layers) upper_bytes fragsize 0 [])))"

section \<open>TCP options read back\<close>

text \<open>A reader of option lists by kind and length byte, as in RFC 793, RFC 2018 and RFC 7323.\<close>

fun read_options :: "bytes \<Rightarrow> TcpOpt list option" where
  "read_options [] = Some []"
| "read_options (k # bs) =
     (if k = 1 then map_option (Cons Nop) (read_options bs)
      else if k = 2 then
        (case bs of l # a # b # bs' \<Rightarrow> if l = 4 then map_option (Cons (Mss (of_be16 a b))) (read_options bs') else None
         | _ \<Rightarrow> None)
      else if k = 3 then
        (case bs of l # a # bs' \<Rightarrow> if l = 3 then map_option (Cons (WScale a)) (read_options bs') else None | _ \<Rightarrow> None)
      else if k = 4 then
        (case bs of l # bs' \<Rightarrow> if l = 2 then map_option (Cons SAckOK) (read_options bs') else None | _ \<Rightarrow> None)
      else if k = 8 then
        (case bs of l # a # b # c # d # e # f # g # h # bs' \<Rightarrow>
           if l = 10 then map_option (Cons (Timestamp (of_be32 a b c d) (of_be32 e f g h))) (read_options bs') else None
         | _ \<Rightarrow> None)
      else None)"

lemma read_option_bytes: "read_options (option_bytes opt @ bs) = map_option (Cons opt) (read_options bs)"
  by (cases opt) (simp_all add: be16_def be32_def of_be16_be16 of_be32_be32)

lemma read_options_concat:
  "read_options (concat (map option_bytes opts) @ bs) = map_option ((@) opts) (read_options bs)"
  by (induction opts) (simp_all add: read_option_bytes option.map_comp comp_def option.map_ident)

lemma read_nops: "read_options (replicate k 1) = Some (replicate k Nop)"
  by (induction k) simp_all

lemma pad4_eq: "pad4 out = out @ replicate ((4 - length out mod 4) mod 4) 1"
proof (induction out rule: pad4.induct)
  case (1 out)
  show ?case
  proof (cases "length out mod 4 = 0")
    case False
    then have "(4 - length out mod 4) mod 4 = Suc ((4 - length (out @ [1::u8]) mod 4) mod 4)"
      by (auto simp: mod_Suc)
    then show ?thesis using 1 False by (simp add: pad4.simps[of out])
  qed (simp add: pad4.simps)
qed

lemma pad_mod4: "(m + (4 - m mod 4) mod 4) mod 4 = (0 :: nat)"
proof -
  have "m mod 4 < 4" by simp
  then have "(r + (4 - r) mod 4) mod 4 = 0" if "r = m mod 4" for r using that by (cases "r = 0") simp_all
  then show ?thesis by (metis mod_add_left_eq)
qed

section \<open>The fragmentation loop\<close>

abbreviation frag_count :: "nat \<Rightarrow> nat \<Rightarrow> nat" where
  "frag_count t n \<equiv> (t + n - 1) div n"

lemma frag_count_less: "0 < n \<Longrightarrow> k < frag_count t n \<longleftrightarrow> k * n < t"
proof -
  assume n: "0 < n"
  have "k < frag_count t n \<longleftrightarrow> Suc k * n \<le> t + n - 1" using n by (simp add: less_eq_div_iff_mult_less_eq flip: Suc_le_eq)
  then show ?thesis using n by auto
qed

lemma fragment_loop_eq:
  assumes "0 < n" and "off = min (k * n) (length d)" and "k \<le> frag_count (length d) n"
  shows "fragment_loop before ip hint d n off out =
    Some (out @ map (\<lambda>j. fragment_at before ip hint d n (j * n)) [k ..< frag_count (length d) n])"
  using assms(2,3)
proof (induction "frag_count (length d) n - k" arbitrary: k off out)
  case 0
  then have "\<not> k < frag_count (length d) n" by simp
  then have "length d \<le> k * n" using frag_count_less[OF assms(1), of k "length d"] by linarith
  with 0 show ?case by (simp add: fragment_loop.simps)
next
  case (Suc m)
  then have k: "k < frag_count (length d) n" by linarith
  then have kn: "k * n < length d" using frag_count_less[OF assms(1)] by blast
  let ?off' = "min (off + n) (length d)"
  have "?off' = min (Suc k * n) (length d)" using Suc.prems(1) kn by (simp add: min_def add.commute)
  moreover have "m = frag_count (length d) n - Suc k" using Suc.hyps(2) by linarith
  ultimately have "fragment_loop before ip hint d n ?off' (out @ [fragment_at before ip hint d n off]) =
      Some ((out @ [fragment_at before ip hint d n off])
        @ map (\<lambda>j. fragment_at before ip hint d n (j * n)) [Suc k ..< frag_count (length d) n])"
    using Suc.hyps(1)[of "Suc k" ?off'] k by simp
  then show ?case using Suc.prems(1) kn k by (subst fragment_loop.simps) (simp add: upt_conv_Cons)
qed

lemma fragment_loop_zero: "fragment_loop before ip hint d n off out = Some res \<Longrightarrow> n = 0 \<longrightarrow> length d \<le> off"
proof (rule fragment_loop.raw_induct[where P = "\<lambda>before ip hint d n off out res. n = 0 \<longrightarrow> length d \<le> off"])
  fix f :: "Layer list \<Rightarrow> Ip \<Rightarrow> u8 option \<Rightarrow> bytes \<Rightarrow> nat \<Rightarrow> nat \<Rightarrow> Packet list \<Rightarrow> Packet list option"
  fix before ip hint d n off out res
  assume ih: "\<And>before ip hint d n off out res. f before ip hint d n off out = Some res \<Longrightarrow> n = 0 \<longrightarrow> length d \<le> off"
    and e: "(if off < length d then f before ip hint d n (min (off + n) (length d))
        (out @ [fragment_at before ip hint d n off]) else Some out) = Some res"
  show "n = 0 \<longrightarrow> length d \<le> off" using e ih by (cases "off < length d") (fastforce, simp)
qed simp

section \<open>Reassembly\<close>

text \<open>What a receiver reads from a fragment (byte offset, more-fragments flag, payload), and RFC 791
  reassembly: the fragments in the order of their offsets must follow each other without gap or overlap from
  offset zero, and exactly the last one must not announce more. A receiver that merges overlapping fragments agrees
  with it on fragments that do not overlap.\<close>

type_synonym fragment_view = "nat \<times> bool \<times> bytes"

fun contiguous :: "nat \<Rightarrow> fragment_view list \<Rightarrow> bool" where
  "contiguous pos [] = True"
| "contiguous pos ((off, mf, c) # fs) = (off = pos \<and> (mf \<longleftrightarrow> fs \<noteq> []) \<and> contiguous (pos + length c) fs)"

definition reassemble :: "fragment_view list \<Rightarrow> bytes option" where
  "reassemble fs =
     (let s = sort_key fst fs
      in if s \<noteq> [] \<and> contiguous 0 s then Some (concat (map (\<lambda>f. snd (snd f)) s)) else None)"

lemma fragment_at_layers:
  "layers (fragment_at before ip hint d n off) = before
     @ [LIp (ip\<lparr>more_fragments := min (off + n) (length d) \<noteq> length d, fragment_offset := of_nat (off div 8),
              proto := (case hint of Some q \<Rightarrow> Some q | None \<Rightarrow> proto ip)\<rparr>),
        LRaw \<lparr>load = take (min (off + n) (length d) - off) (drop off d)\<rparr>]"
  by (cases hint) (simp_all add: fragment_at_def Let_def)

lemma chunk_length: "length (take (min (off + n) (length d) - off) (drop off d)) \<le> n"
  by simp

definition chunk_view :: "bytes \<Rightarrow> nat \<Rightarrow> nat \<Rightarrow> fragment_view" where
  "chunk_view d n j = (j * n, Suc j * n < length d, take n (drop (j * n) d))"

lemma chunks_contiguous:
  assumes "0 < n" and "k \<le> frag_count (length d) n"
  shows "contiguous (k * n) (map (chunk_view d n) [k ..< frag_count (length d) n])
    \<and> concat (map (\<lambda>f. snd (snd f)) (map (chunk_view d n) [k ..< frag_count (length d) n])) = drop (k * n) d"
  using assms(2)
proof (induction "frag_count (length d) n - k" arbitrary: k)
  case 0
  then have "\<not> k < frag_count (length d) n" by simp
  then have "length d \<le> k * n" using frag_count_less[OF assms(1), of k "length d"] by linarith
  with 0 show ?case by simp
next
  case (Suc m)
  then have k: "k < frag_count (length d) n" by linarith
  then have kn: "k * n < length d" using frag_count_less[OF assms(1)] by blast
  have ih: "contiguous (Suc k * n) (map (chunk_view d n) [Suc k ..< frag_count (length d) n])"
    "concat (map (\<lambda>f. snd (snd f)) (map (chunk_view d n) [Suc k ..< frag_count (length d) n])) = drop (Suc k * n) d"
    using Suc.hyps(1)[of "Suc k"] Suc.hyps(2) k by auto
  have more: "Suc k * n < length d \<longleftrightarrow> Suc k < frag_count (length d) n" using frag_count_less[OF assms(1)] by blast
  have split: "take n (drop (k * n) d) @ drop (Suc k * n) d = drop (k * n) d"
    by (metis append_take_drop_id drop_drop mult_Suc)
  have up: "[k ..< frag_count (length d) n] = k # [Suc k ..< frag_count (length d) n]" using k by (rule upt_conv_Cons)
  have "contiguous (k * n + length (take n (drop (k * n) d))) (map (chunk_view d n) [Suc k ..< frag_count (length d) n])"
  proof (cases "Suc k < frag_count (length d) n")
    case True
    then have "length (take n (drop (k * n) d)) = n" using more by simp
    then show ?thesis using ih(1) by (simp add: add.commute)
  qed simp
  then show ?case using ih(2) more split unfolding up by (auto simp: chunk_view_def)
qed

lemma reassemble_chunks:
  assumes "0 < n" and "d \<noteq> []" and "mset fs = mset (map (chunk_view d n) [0 ..< frag_count (length d) n])"
  shows "reassemble fs = Some d"
proof -
  let ?vs = "map (chunk_view d n) [0 ..< frag_count (length d) n]"
  have "inj_on fst (set fs)" unfolding mset_eq_setD[OF assms(3)] using assms(1) by (auto simp: chunk_view_def inj_on_def)
  moreover have "sorted (map fst ?vs)" using assms(1) by (auto simp: chunk_view_def sorted_iff_nth_mono)
  ultimately have s: "sort_key fst fs = ?vs" using sort_key_inj_key_eq[OF assms(3)] by blast
  have "0 < frag_count (length d) n" using frag_count_less[OF assms(1), of 0] assms(2) by simp
  then have "?vs \<noteq> []" by simp
  then show ?thesis unfolding reassemble_def s Let_def using chunks_contiguous[OF assms(1), of 0 d] by simp
qed

section \<open>Wire formats\<close>

definition flag_word :: "bool \<Rightarrow> bool \<Rightarrow> u16 \<Rightarrow> u16" where
  "flag_word df mf off = (if df then 0x4000 else 0) OR (if mf then 0x2000 else 0) OR off"

text \<open>The documented formats: Ethernet II, IPv4 without options, IPv6, TCP with at most forty bytes of
  options, UDP; and the ranges of a payload length and of a fragment offset. The TCP header proper, the
  class and flow of IPv6 and the IPv4 checksum are left open.\<close>

definition wire_formats :: "Etherparse \<Rightarrow> bool" where
  "wire_formats ep \<longleftrightarrow>
     (\<forall>s d t. ethernet2_write ep s d t = Inr (d @ s @ be16 t))
   \<and> (\<forall>n. ipv4_new ep n = None \<longleftrightarrow> unat n \<le> 65515)
   \<and> (\<forall>v. frag_offset_try_from ep v = (if v \<le> 0x1FFF then Some v else None))
   \<and> (\<forall>h. \<exists>c. length c = 2 \<and> ipv4_write ep h = Inr ([0x45, 0] @ be16 (h4_payload_len h + 20)
          @ be16 (h4_identification h) @ be16 (flag_word (h4_dont_fragment h) (h4_more_fragments h) (h4_fragment_offset h))
          @ [h4_ttl h, h4_protocol h] @ c @ h4_source h @ h4_destination h))
   \<and> (\<forall>h. \<exists>a. length a = 4 \<and> ipv6_write ep h = Inr (a @ be16 (h6_payload_length h)
          @ [h6_next_header h, h6_hop_limit h] @ h6_source h @ h6_destination h))
   \<and> (\<forall>opts. length opts mod 4 = 0 \<longrightarrow> tcp_set_options_raw ep opts = (if length opts \<le> 40 then Some opts else None))
   \<and> (\<forall>h. \<exists>a. length a = 20 \<and> tcp_write ep h = Inr (a @ ht_options h))
   \<and> (\<forall>s d l c. udp_write ep s d l c = Inr (be16 s @ be16 d @ be16 l @ be16 c))"

definition layer_wf :: "Layer \<Rightarrow> bool" where
  "layer_wf l =
     (case l of
        LEther e \<Rightarrow> length (ether_src e) = 6 \<and> length (ether_dst e) = 6
      | LIp i \<Rightarrow> length (ip_src i) = 4 \<and> length (ip_dst i) = 4
      | LIpv6 i \<Rightarrow> length (ip6_src i) = 16 \<and> length (ip6_dst i) = 16
      | _ \<Rightarrow> True)"

definition kept_options :: "TcpOpt list \<Rightarrow> bytes" where
  "kept_options opts = (if length (serialize_tcp_options opts) \<le> 40 then serialize_tcp_options opts else [])"

fun layer_size :: "Layer \<Rightarrow> nat" where
  "layer_size (LEther _) = 14"
| "layer_size (LVlan _) = 6"
| "layer_size (LIp _) = 20"
| "layer_size (LIpv6 _) = 40"
| "layer_size (LTcp t) = 20 + length (kept_options (options t))"
| "layer_size (LUdp _) = 8"
| "layer_size (LIcmp _) = 8"
| "layer_size (LIcmpv6 _) = 4"
| "layer_size (LRaw r) = length (load r)"

text \<open>The bytes of a stack; nothing follows a raw payload.\<close>

fun stack_size :: "Layer list \<Rightarrow> nat" where
  "stack_size [] = 0"
| "stack_size (LRaw r # ls) = length (load r)"
| "stack_size (l # ls) = layer_size l + stack_size ls"

lemma length_patch_checksum [simp]: "length (patch_checksum at m drawn hdr) = length hdr"
  by (auto simp: patch_checksum_def Let_def split: ChecksumMode.splits)

lemma take_patch_checksum: "k \<le> at \<Longrightarrow> take k (patch_checksum at m drawn hdr) = take k hdr"
  by (auto simp: patch_checksum_def Let_def split: ChecksumMode.splits)

lemma serialize_mod4: "length (serialize_tcp_options opts) mod 4 = 0"
  by (simp add: serialize_tcp_options_def pad4_eq pad_mod4)

text \<open>The header the writer produces for an IPv4 layer with a payload that fits.\<close>

definition ipv4_bytes :: "Ip \<Rightarrow> Layer list \<Rightarrow> nat \<Rightarrow> bytes \<Rightarrow> bytes" where
  "ipv4_bytes ip upper n c =
     [0x45, 0] @ be16 (of_nat (n + 20)) @ be16 (ip_id ip)
     @ be16 (flag_word (dont_fragment ip) (more_fragments ip) (if fragment_offset ip \<le> 0x1FFF then fragment_offset ip else 0))
     @ [ttl ip, case proto ip of Some p \<Rightarrow> p | None \<Rightarrow> infer_ip_proto upper] @ c @ ip_src ip @ ip_dst ip"

lemma wire_formatsD:
  assumes "wire_formats ep"
  shows "ethernet2_write ep s d t = Inr (d @ s @ be16 t)"
    and "ipv4_new ep n = None \<longleftrightarrow> unat n \<le> 65515"
    and "frag_offset_try_from ep v = (if v \<le> 0x1FFF then Some v else None)"
    and "\<exists>c. length c = 2 \<and> ipv4_write ep h = Inr ([0x45, 0] @ be16 (h4_payload_len h + 20)
          @ be16 (h4_identification h) @ be16 (flag_word (h4_dont_fragment h) (h4_more_fragments h) (h4_fragment_offset h))
          @ [h4_ttl h, h4_protocol h] @ c @ h4_source h @ h4_destination h)"
    and "\<exists>a. length a = 4 \<and> ipv6_write ep h6 = Inr (a @ be16 (h6_payload_length h6)
          @ [h6_next_header h6, h6_hop_limit h6] @ h6_source h6 @ h6_destination h6)"
    and "length opts mod 4 = 0 \<Longrightarrow> tcp_set_options_raw ep opts = (if length opts \<le> 40 then Some opts else None)"
    and "\<exists>a. length a = 20 \<and> tcp_write ep ht = Inr (a @ ht_options ht)"
    and "udp_write ep us ud ul uc = Inr (be16 us @ be16 ud @ be16 ul @ be16 uc)"
  using assms unfolding wire_formats_def by (elim conjE; simp only: simp_thms)+

lemma ipv4_header_bytes:
  assumes "wire_formats ep" and "length rest \<le> 65515"
  shows "\<exists>c. length c = 2 \<and> ipv4_header ep ip upper rest = Inr (ipv4_bytes ip upper (length rest) c)"
proof -
  have new: "ipv4_new ep (of_nat (length rest)) = None"
    using wire_formatsD(2)[OF assms(1)] assms(2) by (simp add: unat_of_nat)
  let ?off = "if fragment_offset ip \<le> 0x1FFF then fragment_offset ip else 0"
  have off: "unwrap_or (frag_offset_try_from ep (fragment_offset ip)) 0 = ?off"
    by (simp add: wire_formatsD(3)[OF assms(1)] unwrap_or_def)
  let ?h = "\<lparr>h4_payload_len = of_nat (length rest), h4_ttl = ttl ip,
    h4_protocol = (case proto ip of Some p \<Rightarrow> p | None \<Rightarrow> infer_ip_proto upper),
    h4_source = ip_src ip, h4_destination = ip_dst ip, h4_identification = ip_id ip,
    h4_dont_fragment = dont_fragment ip, h4_more_fragments = more_fragments ip, h4_fragment_offset = ?off\<rparr>"
  obtain c where c: "length c = 2" "ipv4_write ep ?h = Inr (ipv4_bytes ip upper (length rest) c)"
    using wire_formatsD(4)[OF assms(1), of ?h] by (auto simp: ipv4_bytes_def add.commute)
  then show ?thesis unfolding ipv4_header_def Let_def new off by (intro exI[of _ c]) (simp add: map_err_def)
qed

lemma tcp_header_bytes:
  assumes "wire_formats ep"
  shows "\<exists>a. length a = 20 \<and> tcp_header ep t = Inr (a @ kept_options (options t))"
proof -
  let ?o = "serialize_tcp_options (options t)"
  have o: "(if ?o \<noteq> [] then unwrap_or (tcp_set_options_raw ep ?o) [] else []) = kept_options (options t)"
    by (simp add: wire_formatsD(6)[OF assms serialize_mod4] unwrap_or_def kept_options_def)
  let ?h = "\<lparr>ht_source_port = tcp_sport t, ht_destination_port = tcp_dport t, ht_sequence_number = tcp_seq t,
    ht_window_size = window t, ht_acknowledgment_number = tcp_ack t, ht_flags = flags t,
    ht_options = kept_options (options t)\<rparr>"
  obtain a where "length a = 20" "tcp_write ep ?h = Inr (a @ kept_options (options t))"
    using wire_formatsD(7)[OF assms, of ?h] by auto
  then show ?thesis unfolding tcp_header_def Let_def o by (intro exI[of _ a]) (simp add: map_err_def)
qed

lemma ipv4_bytes_length: "length c = 2 \<Longrightarrow> layer_wf (LIp ip) \<Longrightarrow> length (ipv4_bytes ip upper n c) = 20"
  by (simp add: ipv4_bytes_def layer_wf_def)

lemma ipv6_length:
  "wire_formats ep \<Longrightarrow> layer_wf (LIpv6 ip) \<Longrightarrow> h6_source h = ip6_src ip \<Longrightarrow> h6_destination h = ip6_dst ip \<Longrightarrow>
    \<exists>b. length b = 40 \<and> ipv6_write ep h = Inr b"
  using wire_formatsD(5)[of ep h] by (auto simp: layer_wf_def)

lemma nth_patch_checksum: "j < at \<Longrightarrow> patch_checksum at m drawn hdr ! j = hdr ! j"
  by (metis nth_take take_patch_checksum order_refl)

text \<open>A layer that is no raw payload puts its header in front of what follows.\<close>

definition is_raw :: "Layer \<Rightarrow> bool" where
  "is_raw l = (case l of LRaw _ \<Rightarrow> True | _ \<Rightarrow> False)"

lemma stack_size_Cons: "\<not> is_raw l \<Longrightarrow> stack_size (l # ls) = layer_size l + stack_size ls"
  by (cases l) (simp_all add: is_raw_def)

lemma build_header:
  assumes "wire_formats ep" and "layer_wf l" and "\<not> is_raw l" and "build_layers ep rnd (Suc idx) upper = Inr r"
    and "length r \<le> 65515"
  shows "\<exists>h. build_layers ep rnd idx (l # upper) = Inr (h @ r) \<and> length h = layer_size l"
proof (cases l)
  case (LEther e)
  then show ?thesis using assms by (simp add: wire_formatsD(1) and_then_def map_err_def layer_wf_def)
next
  case (LIp ip)
  obtain c where "length c = 2" "ipv4_header ep ip upper r = Inr (ipv4_bytes ip upper (length r) c)"
    using ipv4_header_bytes[OF assms(1,5)] by blast
  then show ?thesis using LIp assms by (simp add: and_then_def ipv4_bytes_length)
next
  case (LIpv6 ip)
  let ?h = "\<lparr>h6_flow_label = unwrap_or (flow_label_try_new ep (flow_label ip)) 0,
    h6_payload_length = of_nat (length r),
    h6_next_header = (case next_header ip of Some p \<Rightarrow> p | None \<Rightarrow> infer_ip_proto upper),
    h6_hop_limit = hop_limit ip, h6_source = ip6_src ip, h6_destination = ip6_dst ip\<rparr>"
  obtain b where "length b = 40" "ipv6_write ep ?h = Inr b"
    using ipv6_length[OF assms(1), of ip ?h] assms(2) LIpv6 by auto
  then show ?thesis using LIpv6 assms by (simp add: and_then_def map_err_def)
next
  case (LTcp t)
  obtain a where "length a = 20" "tcp_header ep t = Inr (a @ kept_options (options t))"
    using tcp_header_bytes[OF assms(1)] by blast
  then show ?thesis using LTcp assms
    by (intro exI[of _ "patch_checksum 16 (tcp_checksum t) (rnd idx) (a @ kept_options (options t))"]) (simp add: and_then_def)
next
  case (LUdp u)
  then show ?thesis using assms by (simp add: wire_formatsD(8) and_then_def map_err_def)
qed (use assms in \<open>simp_all add: and_then_def vlan_tag_def icmp_body_def is_raw_def\<close>)

lemma build_stack:
  assumes "wire_formats ep"
  shows "\<forall>l \<in> set ls. layer_wf l \<Longrightarrow> stack_size ls \<le> 65515 \<Longrightarrow>
    \<exists>bs. build_layers ep rnd idx ls = Inr bs \<and> length bs = stack_size ls"
proof (induction ls arbitrary: idx)
  case (Cons l ls)
  show ?case
  proof (cases "is_raw l")
    case False
    then have "stack_size ls \<le> 65515" using Cons.prems(2) by (simp add: stack_size_Cons)
    then obtain r where r: "build_layers ep rnd (Suc idx) ls = Inr r" "length r = stack_size ls"
      using Cons.IH[of "Suc idx"] Cons.prems(1) by auto
    then show ?thesis using build_header[OF assms _ False r(1)] Cons.prems False by (auto simp: stack_size_Cons)
  qed (cases l; simp add: is_raw_def)
qed simp

text \<open>A writer of these formats, with checksums left zero.\<close>

definition plain_wire :: Etherparse where
  "plain_wire =
     \<lparr>ethernet2_write = (\<lambda>s d t. Inr (d @ s @ be16 t)),
      ipv4_new = (\<lambda>n. if unat n \<le> 65515 then None else Some ''value too big''),
      frag_offset_try_from = (\<lambda>v. if v \<le> 0x1FFF then Some v else None),
      ipv4_write = (\<lambda>h. Inr ([0x45, 0] @ be16 (h4_payload_len h + 20) @ be16 (h4_identification h)
        @ be16 (flag_word (h4_dont_fragment h) (h4_more_fragments h) (h4_fragment_offset h))
        @ [h4_ttl h, h4_protocol h] @ [0, 0] @ h4_source h @ h4_destination h)),
      flow_label_try_new = (\<lambda>v. if v < 0x100000 then Some v else None),
      ipv6_write = (\<lambda>h. Inr (be32 (0x60000000 OR h6_flow_label h) @ be16 (h6_payload_length h)
        @ [h6_next_header h, h6_hop_limit h] @ h6_source h @ h6_destination h)),
      tcp_set_options_raw = (\<lambda>opts. if length opts \<le> 40 then Some opts else None),
      tcp_write = (\<lambda>h. Inr (be16 (ht_source_port h) @ be16 (ht_destination_port h) @ be32 (ht_sequence_number h)
        @ be32 (ht_acknowledgment_number h) @ [of_nat (16 * (5 + length (ht_options h) div 4)), 0]
        @ be16 (ht_window_size h) @ [0, 0, 0, 0] @ ht_options h)),
      udp_write = (\<lambda>s d l c. Inr (be16 s @ be16 d @ be16 l @ be16 c))\<rparr>"

lemma plain_wire_formats: "wire_formats plain_wire"
proof -
  have "\<exists>c. length c = 2 \<and> ipv4_write plain_wire h = Inr ([0x45, 0] @ be16 (h4_payload_len h + 20)
      @ be16 (h4_identification h) @ be16 (flag_word (h4_dont_fragment h) (h4_more_fragments h) (h4_fragment_offset h))
      @ [h4_ttl h, h4_protocol h] @ c @ h4_source h @ h4_destination h)" for h
    by (intro exI[of _ "[0, 0]"]) (simp add: plain_wire_def)
  moreover have "\<exists>a. length a = 4 \<and> ipv6_write plain_wire h = Inr (a @ be16 (h6_payload_length h)
      @ [h6_next_header h, h6_hop_limit h] @ h6_source h @ h6_destination h)" for h
    by (intro exI[of _ "be32 (0x60000000 OR h6_flow_label h)"]) (simp add: plain_wire_def)
  moreover have "\<exists>a. length a = 20 \<and> tcp_write plain_wire h = Inr (a @ ht_options h)" for h
    by (intro exI[of _ "be16 (ht_source_port h) @ be16 (ht_destination_port h) @ be32 (ht_sequence_number h)
      @ be32 (ht_acknowledgment_number h) @ [of_nat (16 * (5 + length (ht_options h) div 4)), 0]
      @ be16 (ht_window_size h) @ [0, 0, 0, 0]"]) (simp add: plain_wire_def)
  ultimately show ?thesis unfolding wire_formats_def by (simp add: plain_wire_def)
qed

section \<open>Fragments on the wire\<close>

text \<open>The IPv4 header behind \<open>k\<close> bytes of lower layers, read back: its offset, its more-fragments flag, and
  the payload its header length and total length announce.\<close>

definition wire_view :: "nat \<Rightarrow> bytes \<Rightarrow> fragment_view" where
  "wire_view k bs =
     (let h = drop k bs; w = of_be16 (h ! 6) (h ! 7)
      in (8 * unat (w AND 0x1FFF), bit w 13,
          drop (4 * unat (h ! 0 AND 0x0F)) (take (unat (of_be16 (h ! 2) (h ! 3))) h)))"

lemma wire_view_app:
  assumes "length h = k" and "length p = 20" and "of_be16 ((p @ c) ! 6) ((p @ c) ! 7) = w"
    and "unat (of_be16 ((p @ c) ! 2) ((p @ c) ! 3)) = length (p @ c)" and "(p @ c) ! 0 AND 0x0F = 5"
  shows "wire_view k (h @ p @ c) = (8 * unat (w AND 0x1FFF), bit w 13, c)"
proof -
  have "drop k (h @ p @ c) = p @ c" using assms(1) by simp
  then show ?thesis using assms(2) unfolding wire_view_def Let_def by (simp only: assms(3-5)) simp
qed

lemma flag_word_read:
  assumes "off \<le> 0x1FFF"
  shows "flag_word df mf off AND 0x1FFF = off" "bit (flag_word df mf off) 13 = mf"
proof -
  have t: "take_bit 13 off = off"
  proof -
    have "unat off < 2 ^ 13" using assms by (simp add: word_le_nat_alt)
    then have "unat (take_bit 13 off) = unat off" by (simp add: unsigned_take_bit_eq take_bit_nat_eq_self)
    then show ?thesis by (simp only: unsigned_word_eqI)
  qed
  have b: "bit off n \<Longrightarrow> n < 13" for n using t by (metis bit_take_bit_iff)
  have m: "(0x1FFF :: u16) = mask 13" by (simp add: mask_eq_exp_minus_1)
  have c: "bit (0x4000 :: int) n \<longleftrightarrow> n = 14" "bit (0x2000 :: int) n \<longleftrightarrow> n = 13" for n
    using bit_exp_iff[where ?'a = int, of 14 n] bit_exp_iff[where ?'a = int, of 13 n] by auto
  show "flag_word df mf off AND 0x1FFF = off"
    unfolding m by (rule bit_word_eqI) (auto simp: flag_word_def bit_simps c dest: b)
  show "bit (flag_word df mf off) 13 = mf" using b[of 13] by (auto simp: flag_word_def bit_simps c)
qed

lemma build_headers:
  assumes "wire_formats ep"
  shows "\<forall>l \<in> set ls. layer_wf l \<and> \<not> is_raw l \<Longrightarrow> build_layers ep rnd (idx + length ls) upper = Inr r \<Longrightarrow>
    length r + stack_size ls \<le> 65515 \<Longrightarrow>
    \<exists>h. build_layers ep rnd idx (ls @ upper) = Inr (h @ r) \<and> length h = stack_size ls"
proof (induction ls arbitrary: idx)
  case (Cons l ls)
  have s: "stack_size (l # ls) = layer_size l + stack_size ls" using Cons.prems(1) by (simp add: stack_size_Cons)
  obtain h where h: "build_layers ep rnd (Suc idx) (ls @ upper) = Inr (h @ r)" "length h = stack_size ls"
    using Cons.IH[of "Suc idx"] Cons.prems s by auto
  obtain g where "build_layers ep rnd idx (l # ls @ upper) = Inr (g @ h @ r)" "length g = layer_size l"
    using build_header[OF assms _ _ h(1)] Cons.prems h(2) s by auto
  then show ?case using h(2) s by (intro exI[of _ "g @ h"]) simp
qed simp

text \<open>What is read from the bytes of a datagram with a raw payload.\<close>

lemma wire_view_build:
  assumes "wire_formats ep" and "\<forall>l \<in> set ls. layer_wf l \<and> \<not> is_raw l" and "layer_wf (LIp ip)"
    and "stack_size ls + 20 + length c \<le> 65515"
  shows "\<exists>bs. build_packet ep rnd \<lparr>layers = ls @ [LIp ip, LRaw \<lparr>load = c\<rparr>]\<rparr> = Inr bs
    \<and> wire_view (stack_size ls) bs =
        (8 * unat (if fragment_offset ip \<le> 0x1FFF then fragment_offset ip else 0), more_fragments ip, c)"
proof -
  have "length c \<le> 65515" using assms(4) by simp
  then obtain x where x: "length x = 2"
    "ipv4_header ep ip [LRaw \<lparr>load = c\<rparr>] c = Inr (ipv4_bytes ip [LRaw \<lparr>load = c\<rparr>] (length c) x)"
    using ipv4_header_bytes[OF assms(1)] by blast
  let ?b = "ipv4_bytes ip [LRaw \<lparr>load = c\<rparr>] (length c) x" and ?i = "0 + length ls"
  let ?p = "patch_checksum 10 (ip_checksum ip) (rnd ?i) ?b"
  have "build_layers ep rnd ?i [LIp ip, LRaw \<lparr>load = c\<rparr>] = Inr (?p @ c)" using x by (simp add: and_then_def)
  from build_headers[OF assms(1,2) this] assms(4)
  obtain h where h: "build_layers ep rnd 0 (ls @ [LIp ip, LRaw \<lparr>load = c\<rparr>]) = Inr (h @ ?p @ c)" "length h = stack_size ls"
    using ipv4_bytes_length[OF x(1) assms(3)] by auto
  let ?o = "if fragment_offset ip \<le> 0x1FFF then fragment_offset ip else 0"
  let ?w = "flag_word (dont_fragment ip) (more_fragments ip) ?o"
  have l: "length ?p = 20" using ipv4_bytes_length[OF x(1) assms(3)] by simp
  have n: "(?p @ c) ! j = ?b ! j" if "j < 10" for j using that l by (simp add: nth_append nth_patch_checksum)
  have u: "unat (of_nat (length c + 20) :: u16) = length c + 20" using assms(4) by (simp add: unat_of_nat del: of_nat_add)
  have q: "(?p @ c) ! 6 = ?b ! 6" "(?p @ c) ! 7 = ?b ! 7" "(?p @ c) ! 2 = ?b ! 2" "(?p @ c) ! 3 = ?b ! 3" "(?p @ c) ! 0 = ?b ! 0"
    by (rule n, simp)+
  have b: "of_be16 (?b ! 6) (?b ! 7) = ?w" "of_be16 (?b ! 2) (?b ! 3) = of_nat (length c + 20)" "?b ! 0 AND 0x0F = 5"
    by (simp_all add: ipv4_bytes_def be16_def of_be16_be16 del: of_nat_add)
  have f: "of_be16 ((?p @ c) ! 6) ((?p @ c) ! 7) = ?w"
    "unat (of_be16 ((?p @ c) ! 2) ((?p @ c) ! 3)) = length (?p @ c)" "(?p @ c) ! 0 AND 0x0F = 5"
    unfolding q b u length_append l by simp_all
  have "?o \<le> 0x1FFF" by simp
  note r = flag_word_read[OF this, of "dont_fragment ip" "more_fragments ip"]
  have "wire_view (stack_size ls) (h @ ?p @ c) = (8 * unat ?o, more_fragments ip, c)"
    using wire_view_app[OF h(2) l f] unfolding r .
  then show ?thesis using h(1) by (simp add: build_packet_def)
qed

text \<open>A fragment read back from its bytes: an offset of 8192 units or more reads as zero or, where the cast to
  sixteen bits wrapped it, as something else.\<close>

definition written_units :: "nat \<Rightarrow> u16" where
  "written_units off = (let u = of_nat (off div 8) in if u \<le> 0x1FFF then u else 0)"

lemma written_units_small: "off < 65536 \<Longrightarrow> off mod 8 = 0 \<Longrightarrow> 8 * unat (written_units off) = off"
proof -
  assume a: "off < 65536" "off mod 8 = 0"
  then have "off div 8 < 8192" by (simp add: less_mult_imp_div_less)
  then have "unat (of_nat (off div 8) :: u16) = off div 8" by (simp add: unat_of_nat)
  with \<open>off div 8 < 8192\<close> have "unat (written_units off) = off div 8" by (simp add: written_units_def Let_def word_le_nat_alt)
  then show ?thesis using a by (simp add: mod_0_imp_dvd)
qed

lemma written_units_bound: "8 * unat (written_units off) < 65536"
  by (simp add: written_units_def Let_def word_le_nat_alt)

lemma wire_view_fragment:
  assumes "wire_formats ep" and "\<forall>l \<in> set ls. layer_wf l \<and> \<not> is_raw l" and "layer_wf (LIp ip)"
    and "stack_size ls + 20 + min n (length d) \<le> 65515" and "j * n < length d"
  shows "\<exists>bs. build_packet ep rnd (fragment_at ls ip hint d n (j * n)) = Inr bs
    \<and> wire_view (stack_size ls) bs
      = (8 * unat (written_units (j * n)), Suc j * n < length d, take n (drop (j * n) d))"
proof -
  let ?c = "take (min (j * n + n) (length d) - j * n) (drop (j * n) d)"
  let ?ip = "ip\<lparr>more_fragments := min (j * n + n) (length d) \<noteq> length d, fragment_offset := of_nat (j * n div 8),
              proto := (case hint of Some q \<Rightarrow> Some q | None \<Rightarrow> proto ip)\<rparr>"
  have p: "fragment_at ls ip hint d n (j * n) = \<lparr>layers = ls @ [LIp ?ip, LRaw \<lparr>load = ?c\<rparr>]\<rparr>"
    by (rule Packet.equality) (simp_all add: fragment_at_layers)
  have "length ?c \<le> min n (length d)" by auto
  then have "stack_size ls + 20 + length ?c \<le> 65515" using assms(4) by linarith
  moreover have e: "layer_wf (LIp ?ip)" "fragment_offset ?ip = of_nat (j * n div 8)"
    "more_fragments ?ip \<longleftrightarrow> min (j * n + n) (length d) \<noteq> length d"
    using assms(3) by (simp_all add: layer_wf_def)
  ultimately have "\<exists>bs. build_packet ep rnd (fragment_at ls ip hint d n (j * n)) = Inr bs
    \<and> wire_view (stack_size ls) bs = (8 * unat (written_units (j * n)), min (j * n + n) (length d) \<noteq> length d, ?c)"
    using wire_view_build[OF assms(1,2) e(1), of ?c rnd] unfolding p e(2,3) written_units_def Let_def by blast
  moreover have "?c = take n (drop (j * n) d)" by (simp add: min_def)
  moreover have "min (j * n + n) (length d) \<noteq> length d \<longleftrightarrow> Suc j * n < length d" by (auto simp: min_def algebra_simps)
  ultimately show ?thesis by simp
qed

text \<open>The bytes of a list of packets, each built with random numbers of its own.\<close>

definition built :: "Etherparse \<Rightarrow> Packet list \<Rightarrow> bytes list \<Rightarrow> bool" where
  "built ep = list_all2 (\<lambda>f bs. \<exists>rnd. build_packet ep rnd f = Inr bs)"

lemma fragments_built:
  assumes "wire_formats ep" and "\<forall>l \<in> set ls. layer_wf l \<and> \<not> is_raw l" and "layer_wf (LIp ip)"
    and "stack_size ls + 20 + min n (length d) \<le> 65515" and "\<forall>j \<in> set js. j * n < length d"
  shows "\<exists>bss. built ep (map (\<lambda>j. fragment_at ls ip hint d n (j * n)) js) bss"
    and "built ep (map (\<lambda>j. fragment_at ls ip hint d n (j * n)) js) bss \<Longrightarrow>
      map (wire_view (stack_size ls)) bss
        = map (\<lambda>j. (8 * unat (written_units (j * n)), Suc j * n < length d, take n (drop (j * n) d))) js"
proof -
  note v = wire_view_fragment[OF assms(1-4)]
  have "list_all2 (\<lambda>f bs. \<exists>rnd. build_packet ep rnd f = Inr bs) (map (\<lambda>j. fragment_at ls ip hint d n (j * n)) js)
      (map (\<lambda>j. projr (build_packet ep (\<lambda>_. 0) (fragment_at ls ip hint d n (j * n)))) js)"
    using v[of _ "\<lambda>_. 0" hint] assms(5) by (force simp: list_all2_map1 list_all2_map2 intro!: list.rel_refl_strong)
  then show "\<exists>bss. built ep (map (\<lambda>j. fragment_at ls ip hint d n (j * n)) js) bss" unfolding built_def by blast
  assume b: "built ep (map (\<lambda>j. fragment_at ls ip hint d n (j * n)) js) bss"
  then have l: "length bss = length js" by (simp add: built_def list_all2_lengthD[symmetric])
  show "map (wire_view (stack_size ls)) bss
      = map (\<lambda>j. (8 * unat (written_units (j * n)), Suc j * n < length d, take n (drop (j * n) d))) js"
  proof (rule nth_equalityI)
    fix m assume "m < length (map (wire_view (stack_size ls)) bss)"
    then have m: "m < length js" using l by simp
    with b obtain r where "build_packet ep r (fragment_at ls ip hint d n (js ! m * n)) = Inr (bss ! m)"
      by (auto simp: built_def list_all2_conv_all_nth)
    then show "map (wire_view (stack_size ls)) bss ! m
        = map (\<lambda>j. (8 * unat (written_units (j * n)), Suc j * n < length d, take n (drop (j * n) d))) js ! m"
      using v[of "js ! m" r hint] m l assms(5) by auto
  qed (simp add: l)
qed

section \<open>Properties\<close>

text \<open>C12: For a fragment size that is a positive multiple of eight, fragmenting a packet with an IP layer behind
  well-formed lower layers returns fragments that all serialize, provided that one of them with its headers has at most 65515
  bytes. Read back from the bytes written, over conforming header writers and whatever random numbers bad checksums draw,
  and received in any order, they reassemble to exactly the bytes of the upper layers when these are at most 65536; each
  carries at most the fragment size, the layers below IP and the IP header with only offset, flag and protocol
  changed. With upper layers of at least 65536 bytes and one fragment more they are lost: an offset of
  8192 units or more is written as zero or as its low bits, and no fragment reaches the end of the payload.\<close>

theorem fragment_reassembles:
  assumes "wire_formats ep" and "position is_ip (layers p) = Some i"
    and "\<forall>l \<in> set (take i (layers p)). layer_wf l \<and> \<not> is_raw l" and "layer_wf (layers p ! i)"
    and "build_layers ep rnd 0 (drop (Suc i) (layers p)) = Inr d" and "d \<noteq> []"
    and "0 < n" and "n mod 8 = 0" and "stack_size (take i (layers p)) + 20 + min n (length d) \<le> 65515"
  shows "\<exists>frs. fragment ep rnd p n = Some (Inr frs) \<and> (\<exists>bss. built ep frs bss)
    \<and> (\<forall>bss fs. built ep frs bss \<and> mset fs = mset (map (wire_view (stack_size (take i (layers p)))) bss) \<longrightarrow>
         (length d \<le> 65536 \<longrightarrow> reassemble fs = Some d)
         \<and> (65536 + n \<le> length d \<longrightarrow> (\<forall>(off, more, c) \<in> set fs. off + length c < length d)))
    \<and> (\<forall>f \<in> set frs. \<exists>mf off q c. length c \<le> n \<and> layers f = take i (layers p)
         @ [LIp ((the_ip (layers p ! i))\<lparr>more_fragments := mf, fragment_offset := off, proto := q\<rparr>), LRaw \<lparr>load = c\<rparr>])"
proof -
  let ?hint = "infer_proto_from_layers (drop (Suc i) (layers p))" and ?ip = "the_ip (layers p ! i)"
  let ?k = "stack_size (take i (layers p))" and ?js = "[0 ..< frag_count (length d) n]"
  let ?frag = "\<lambda>j. fragment_at (take i (layers p)) ?ip ?hint d n (j * n)"
  let ?v = "\<lambda>j. (8 * unat (written_units (j * n)), Suc j * n < length d, take n (drop (j * n) d))"
  have ip: "layer_wf (LIp ?ip)"
    using assms(2,4) position_Some_less[OF assms(2)] by (simp add: the_ip_def is_ip_def split: Layer.splits)
  have f: "fragment ep rnd p n = Some (Inr (map ?frag ?js))"
    using assms fragment_loop_eq[of n 0 0 d "take i (layers p)" ?ip ?hint "[]"] by (simp add: fragment_def)
  have js: "j * n < length d" if "j \<in> set ?js" for j using that frag_count_less[OF assms(7)] by simp
  then have "\<forall>j \<in> set ?js. j * n < length d" by blast
  note v = fragments_built[OF assms(1,3) ip assms(9) this, where hint = ?hint]
  have main: "(length d \<le> 65536 \<longrightarrow> reassemble fs = Some d)
      \<and> (65536 + n \<le> length d \<longrightarrow> (\<forall>(off, more, c) \<in> set fs. off + length c < length d))"
    if m: "mset fs = mset (map ?v ?js)" for fs
  proof (intro conjI impI)
    assume l: "length d \<le> 65536"
    have "?v j = chunk_view d n j" if "j \<in> set ?js" for j
      using js[OF that] l assms(8) written_units_small[of "j * n"] by (simp add: chunk_view_def mod_mult_eq[symmetric])
    then have "map ?v ?js = map (chunk_view d n) ?js" by (rule map_cong[OF refl])
    from m[unfolded this] show "reassemble fs = Some d" by (rule reassemble_chunks[OF assms(7,6)])
  next
    assume l: "65536 + n \<le> length d"
    have "8 * unat (written_units o') + length (take n x) < length d" for o' and x :: bytes
      using l written_units_bound[of o'] by (simp only: length_take)
    moreover have "set fs = set (map ?v ?js)" using m by (rule mset_eq_setD)
    ultimately show "\<forall>(off, more, c) \<in> set fs. off + length c < length d" by (simp add: image_iff del: length_take)
  qed
  have hdr: "\<exists>mf off q c. length c \<le> n \<and> layers (?frag j) = take i (layers p)
      @ [LIp (?ip\<lparr>more_fragments := mf, fragment_offset := off, proto := q\<rparr>), LRaw \<lparr>load = c\<rparr>]" for j
    unfolding fragment_at_layers by (intro exI conjI) (rule chunk_length, rule refl)
  have "(length d \<le> 65536 \<longrightarrow> reassemble fs = Some d)
      \<and> (65536 + n \<le> length d \<longrightarrow> (\<forall>(off, more, c) \<in> set fs. off + length c < length d))"
    if "built ep (map ?frag ?js) bss \<and> mset fs = mset (map (wire_view ?k) bss)" for bss fs
    using main[of fs] that unfolding v(2)[OF conjunct1[OF that]] by blast
  then show ?thesis using f v(1) hdr by (intro exI[of _ "map ?frag ?js"] conjI) auto
qed

theorem fragment_reassembles_witness:
  "\<exists>frs bss. fragment plain_wire (\<lambda>_. 0)
        \<lparr>layers = [LEther (ether_new (replicate 6 1) (replicate 6 2)), LIp (ip_new 7), LRaw \<lparr>load = [1, 2, 3, 4, 5, 6, 7, 8, 9, 10]\<rparr>]\<rparr> 8
      = Some (Inr frs)
     \<and> built plain_wire frs bss \<and> reassemble (rev (map (wire_view 14) bss)) = Some [1, 2, 3, 4, 5, 6, 7, 8, 9, 10]"
proof -
  let ?p = "\<lparr>layers = [LEther (ether_new (replicate 6 1) (replicate 6 2)), LIp (ip_new 7), LRaw \<lparr>load = [1, 2, 3, 4, 5, 6, 7, 8, 9, 10]\<rparr>]\<rparr>"
  have "position is_ip (layers ?p) = Some 1"
    and "\<forall>l \<in> set (take 1 (layers ?p)). layer_wf l \<and> \<not> is_raw l" and "layer_wf (layers ?p ! 1)"
    and "build_layers plain_wire (\<lambda>_. 0) 0 (drop (Suc 1) (layers ?p)) = Inr [1, 2, 3, 4, 5, 6, 7, 8, 9, 10]"
    by (simp_all add: is_ip_def layer_wf_def is_raw_def ether_new_def ip_new_def)
  from fragment_reassembles[OF plain_wire_formats this, of 8]
  obtain frs bss where "fragment plain_wire (\<lambda>_. 0) ?p 8 = Some (Inr frs)" "built plain_wire frs bss"
    "\<forall>fs. mset fs = mset (map (wire_view 14) bss) \<longrightarrow> reassemble fs = Some [1, 2, 3, 4, 5, 6, 7, 8, 9, 10]" by auto
  then show ?thesis by (intro exI[of _ frs] exI[of _ bss]) simp
qed

text \<open>C13: The fragmentation returns, with fragments or an error, except for a fragment size of zero and
  an IP packet with a payload: then its loop never ends.\<close>

theorem fragment_returns_iff:
  "fragment ep rnd p n = None \<longleftrightarrow>
     n = 0 \<and> (\<exists>i d. position is_ip (layers p) = Some i
       \<and> build_layers ep rnd 0 (drop (Suc i) (layers p)) = Inr d \<and> d \<noteq> [])"
proof (cases "n = 0")
  case True
  have "fragment_loop before ip hint d 0 0 [] = None" if "d \<noteq> []" for before ip hint d
    using that fragment_loop_zero[of before ip hint d 0 0 "[]"] by (cases "fragment_loop before ip hint d 0 0 []") auto
  then show ?thesis using True by (auto simp: fragment_def Let_def split: option.splits sum.splits)
next
  case False
  then show ?thesis
    using fragment_loop_eq[of n 0 0] by (auto simp: fragment_def Let_def split: option.splits sum.splits)
qed

text \<open>A list of TCP options, serialized and padded, reads back as the same options followed by at most
  three no-operations, in a whole number of 32-bit words.\<close>

theorem tcp_options_round_trip:
  "\<exists>k < 4. read_options (serialize_tcp_options opts) = Some (opts @ replicate k Nop)
     \<and> length (serialize_tcp_options opts) mod 4 = 0"
proof -
  let ?b = "concat (map option_bytes opts)" and ?k = "(4 - length (concat (map option_bytes opts)) mod 4) mod 4"
  have "serialize_tcp_options opts = ?b @ replicate ?k 1" by (simp add: serialize_tcp_options_def pad4_eq)
  moreover have "(length ?b + ?k) mod 4 = 0" by (rule pad_mod4)
  ultimately have "read_options (serialize_tcp_options opts) = Some (opts @ replicate ?k Nop)
      \<and> length (serialize_tcp_options opts) mod 4 = 0"
    by (simp add: read_options_concat read_nops)
  then show ?thesis by (intro exI[of _ ?k]) simp
qed

text \<open>Printed TCP flags read back: setting the flags of a header without flags from the printed form
  of any flags gives those flags.\<close>

theorem flags_round_trip: "flags (flags_str (tcp_new sport seq) (tcp_flags_to_str f)) = f"
  by (cases f) (simp add: flags_str_def tcp_new_def no_flags_def tcp_flags_to_str_def flag_char_def Let_def)

text \<open>On the documented wire formats, a stack of well-formed layers of at most 65515 bytes always
  serializes, to exactly the bytes of its layers up to the first raw payload.\<close>

theorem build_total:
  assumes "wire_formats ep" and "\<forall>l \<in> set (layers p). layer_wf l" and "stack_size (layers p) \<le> 65515"
  shows "\<exists>bs. build_packet ep rnd p = Inr bs \<and> length bs = stack_size (layers p)"
  unfolding build_packet_def by (rule build_stack[OF assms])

theorem build_total_witness:
  "\<exists>bs. build_packet plain_wire (\<lambda>_. 0) \<lparr>layers = [LIp (ip_new 7), LUdp (udp_new 4000), LRaw (raw_of_size 100 67)]\<rparr> = Inr bs
     \<and> length bs = 128"
  using build_total[OF plain_wire_formats,
      of "\<lparr>layers = [LIp (ip_new 7), LUdp (udp_new 4000), LRaw (raw_of_size 100 67)]\<rparr>" "\<lambda>_. 0"]
  by (auto simp: layer_wf_def ip_new_def raw_of_size_def)

text \<open>In such a stack the total length of an IPv4 header and the length of a UDP header are the
  number of bytes from there on, and the IPv4 header carries the flags and the fragment offset of its layer,
  an offset above 8191 being written as zero.\<close>

theorem length_fields:
  assumes "wire_formats ep" and "\<forall>l \<in> set upper. layer_wf l" and "layer_wf (LIp ip)" and "stack_size upper \<le> 65495"
  shows "\<exists>bs us. build_layers ep rnd idx (LIp ip # upper) = Inr bs
      \<and> take 2 (drop 2 bs) = be16 (of_nat (length bs))
      \<and> take 2 (drop 6 bs) = be16 (flag_word (dont_fragment ip) (more_fragments ip)
          (if fragment_offset ip \<le> 0x1FFF then fragment_offset ip else 0))
      \<and> build_layers ep rnd idx (LUdp u # upper) = Inr us
      \<and> take 2 (drop 4 us) = be16 (of_nat (length us))"
proof -
  obtain r where r: "build_layers ep rnd (Suc idx) upper = Inr r" "length r = stack_size upper"
    using build_stack[OF assms(1,2), of rnd "Suc idx"] assms(4) by auto
  obtain c where c: "length c = 2" "ipv4_header ep ip upper r = Inr (ipv4_bytes ip upper (length r) c)"
    using ipv4_header_bytes[OF assms(1), of r ip upper] r(2) assms(4) by auto
  let ?h = "patch_checksum 10 (ip_checksum ip) (rnd idx) (ipv4_bytes ip upper (length r) c)"
  have l: "length ?h = 20" using ipv4_bytes_length[OF c(1) assms(3)] by simp
  have b: "build_layers ep rnd idx (LIp ip # upper) = Inr (?h @ r)" using r(1) c(2) by (simp add: and_then_def)
  have t: "take 8 (?h @ r) = take 8 (ipv4_bytes ip upper (length r) c)" using l by (simp add: take_patch_checksum)
  have w: "take 2 (drop 2 x) = take 2 (drop 2 (take 8 x))" "take 2 (drop 6 x) = take 2 (drop 6 (take 8 x))" for x :: bytes
    by (simp_all add: drop_take)
  have f: "take 2 (drop 2 (?h @ r)) = be16 (of_nat (length (?h @ r)))"
    "take 2 (drop 6 (?h @ r)) = be16 (flag_word (dont_fragment ip) (more_fragments ip)
       (if fragment_offset ip \<le> 0x1FFF then fragment_offset ip else 0))"
    unfolding w[of "?h @ r"] t using l by (simp_all add: ipv4_bytes_def be16_def add.commute)
  let ?us = "be16 (udp_sport u) @ be16 (udp_dport u) @ be16 (udp_length r)
    @ be16 (case udp_checksum u of Fixed v \<Rightarrow> v | Bad \<Rightarrow> rnd idx | Auto \<Rightarrow> 0) @ r"
  have "build_layers ep rnd idx (LUdp u # upper) = Inr ?us"
    using r(1) by (simp add: wire_formatsD(8)[OF assms(1)] and_then_def map_err_def)
  moreover have "take 2 (drop 4 ?us) = be16 (of_nat (length ?us))" by (simp add: be16_def udp_length_def)
  ultimately show ?thesis using b f by blast
qed

theorem length_fields_witness:
  "\<exists>bs us. build_layers plain_wire (\<lambda>_. 0) 0 [LIp ((ip_new 7)\<lparr>fragment_offset := 8192\<rparr>), LRaw \<lparr>load = [1, 2, 3]\<rparr>] = Inr bs
     \<and> take 2 (drop 2 bs) = be16 (of_nat (length bs)) \<and> take 2 (drop 6 bs) = [0, 0]
     \<and> build_layers plain_wire (\<lambda>_. 0) 0 [LUdp (udp_new 4000), LRaw \<lparr>load = [1, 2, 3]\<rparr>] = Inr us
     \<and> take 2 (drop 4 us) = be16 (of_nat (length us))"
proof -
  have z: "be16 0 = [0, 0]" "flag_word False False 0 = 0" by (simp_all add: be16_def flag_word_def)
  show ?thesis
    using length_fields[OF plain_wire_formats, of "[LRaw \<lparr>load = [1, 2, 3]\<rparr>]" "(ip_new 7)\<lparr>fragment_offset := 8192\<rparr>"
        "\<lambda>_. 0" 0 "udp_new 4000"]
    by (simp add: layer_wf_def ip_new_def z)
qed

text \<open>Four places where a serialized packet is not the packet described: behind an Ethernet header
  the VLAN tag type is written twice, fragments of a datagram with an explicit protocol carry the inferred
  one, more than forty bytes of TCP options are left out without an error, and the length of an oversized
  UDP datagram wraps around.\<close>

theorem dsl_gaps:
  "map_sum id (\<lambda>bs. take 8 (drop 12 bs)) (build_packet plain_wire (\<lambda>_. 0)
       \<lparr>layers = [LEther (ether_new (replicate 6 0) (replicate 6 0)), LVlan (vlan_new 5), LIpv6 ipv6_new]\<rparr>)
     = Inr [0x81, 0, 0x81, 0, 0, 5, 0x86, 0xDD]
   \<and> map_option (map_sum id (map (\<lambda>f. proto (the_ip (layers f ! 0)))))
       (fragment plain_wire (\<lambda>_. 0) \<lparr>layers = [LIp (ip_set_proto (ip_new 7) 99), LUdp (udp_new 4000)]\<rparr> 8)
     = Some (Inr [Some 17])
   \<and> build_packet plain_wire (\<lambda>_. 0) \<lparr>layers = [LTcp (tcp_options (tcp_new 1 2) (replicate 11 (Mss 1460)))]\<rparr>
     = build_packet plain_wire (\<lambda>_. 0) \<lparr>layers = [LTcp (tcp_new 1 2)]\<rparr>
   \<and> udp_length (replicate 65530 0) = 2"
proof (intro conjI)
  show "udp_length (replicate 65530 0) = 2" by (simp add: udp_length_def)
qed (code_simp+)

end
