(* ===== verification/F64_Ext.thy ===== *)
theory F64_Ext
  imports F64
begin

text \<open>
  Further operations on \<open>f64\<close>: \<open>max\<close>, \<open>min\<close>, \<open>clamp\<close>, \<open>floor\<close>, \<open>ceil\<close>, \<open>powi\<close>, iterated sums and fixed
  precision formatting, and a total order on the type under which the sorting functions of the library
  sort lists without NaN as Rust's \<open>sort_by(partial_cmp)\<close> does. A computation that may panic has the type
  \<open>'a panics\<close>.
\<close>

datatype 'a panics = Panic | Ret 'a

section \<open>A total order\<close>

fun f64_rank :: "f64 \<Rightarrow> nat" where
  "f64_rank NInf = 0"
| "f64_rank (Fin _) = 1"
| "f64_rank PInf = 2"
| "f64_rank NaN = 3"

fun f64_fin :: "f64 \<Rightarrow> rat" where
  "f64_fin (Fin a) = a"
| "f64_fin _ = 0"

instantiation f64 :: linorder
begin

definition less_eq_f64 :: "f64 \<Rightarrow> f64 \<Rightarrow> bool" where
  "less_eq_f64 x y \<longleftrightarrow> f64_rank x < f64_rank y \<or> (f64_rank x = f64_rank y \<and> f64_fin x \<le> f64_fin y)"

definition less_f64 :: "f64 \<Rightarrow> f64 \<Rightarrow> bool" where
  "less_f64 x y \<longleftrightarrow> f64_rank x < f64_rank y \<or> (f64_rank x = f64_rank y \<and> f64_fin x < f64_fin y)"

instance
proof
  fix x y z :: f64
  show "x < y \<longleftrightarrow> x \<le> y \<and> \<not> y \<le> x" by (auto simp: less_eq_f64_def less_f64_def)
  show "x \<le> x" by (simp add: less_eq_f64_def)
  show "x \<le> y \<Longrightarrow> y \<le> z \<Longrightarrow> x \<le> z" by (auto simp: less_eq_f64_def)
  show "x \<le> y \<Longrightarrow> y \<le> x \<Longrightarrow> x = y" by (cases x; cases y) (auto simp: less_eq_f64_def)
  show "x \<le> y \<or> y \<le> x" by (auto simp: less_eq_f64_def)
qed

end

lemma f64_order_le: "x \<noteq> NaN \<Longrightarrow> y \<noteq> NaN \<Longrightarrow> x \<le> y \<longleftrightarrow> f64_le x y"
  by (cases x; cases y) (auto simp: less_eq_f64_def f64_le_def)

section \<open>Operations\<close>

text \<open>\<open>f64::max\<close> and \<open>f64::min\<close> ignore a NaN.\<close>

definition f64_max :: "f64 \<Rightarrow> f64 \<Rightarrow> f64" where
  "f64_max x y = (if x = NaN then y else if y = NaN then x else if f64_lt x y then y else x)"

definition f64_min :: "f64 \<Rightarrow> f64 \<Rightarrow> f64" where
  "f64_min x y = (if x = NaN then y else if y = NaN then x else if f64_lt y x then y else x)"

definition f64_clamp :: "f64 \<Rightarrow> f64 \<Rightarrow> f64 \<Rightarrow> f64" where
  "f64_clamp x lo hi = (if f64_lt x lo then lo else if f64_lt hi x then hi else x)"

definition f64_is_finite :: "f64 \<Rightarrow> bool" where
  "f64_is_finite x = (case x of Fin _ \<Rightarrow> True | _ \<Rightarrow> False)"

fun f64_floor :: "f64 \<Rightarrow> f64" where
  "f64_floor (Fin a) = Fin (of_int \<lfloor>a\<rfloor>)"
| "f64_floor x = x"

fun f64_ceil :: "f64 \<Rightarrow> f64" where
  "f64_ceil (Fin a) = Fin (of_int \<lceil>a\<rceil>)"
| "f64_ceil x = x"

text \<open>\<open>x as usize\<close> on a value far below \<open>2 ^ 64\<close>; NaN and negative values give zero.\<close>

fun f64_as_nat :: "f64 \<Rightarrow> nat" where
  "f64_as_nat (Fin a) = nat (min \<lfloor>a\<rfloor> (2 ^ 64 - 1))"
| "f64_as_nat PInf = 2 ^ 64 - 1"
| "f64_as_nat _ = 0"

definition f64_of_int :: "int \<Rightarrow> f64" where
  "f64_of_int n = f64_round (of_int n)"

definition f64_sum :: "f64 list \<Rightarrow> f64" where
  "f64_sum xs = foldl f64_add (Fin 0) xs"

text \<open>\<open>powi\<close> by squaring; a negative exponent takes the reciprocal at the end.\<close>

fun powi_loop :: "f64 \<Rightarrow> nat \<Rightarrow> f64 \<Rightarrow> f64" where
  "powi_loop a n r =
     (if n = 0 then r
      else let r' = (if odd n then f64_mul r a else r)
           in if n div 2 = 0 then r' else powi_loop (f64_mul a a) (n div 2) r')"

declare powi_loop.simps [simp del]

definition f64_powi :: "f64 \<Rightarrow> int \<Rightarrow> f64" where
  "f64_powi a e = (let r = powi_loop a (nat \<bar>e\<bar>) (Fin 1) in if e < 0 then f64_div (Fin 1) r else r)"

text \<open>\<open>format!("{:.p$}", x)\<close>\<close>

fun pad_zeros :: "nat \<Rightarrow> string \<Rightarrow> string" where
  "pad_zeros w s = replicate (w - length s) (CHR ''0'') @ s"

definition fmt_rat :: "nat \<Rightarrow> rat \<Rightarrow> string" where
  "fmt_rat p a =
     (let n = nat (round_half_even (\<bar>a\<bar> * 10 ^ p)) in
      (if a < 0 then ''-'' else []) @ show_nat (n div 10 ^ p)
      @ (if p = 0 then [] else ''.'' @ pad_zeros p (show_nat (n mod 10 ^ p))))"

fun fmt_prec :: "nat \<Rightarrow> f64 \<Rightarrow> string" where
  "fmt_prec p NaN = ''NaN''"
| "fmt_prec p PInf = ''inf''"
| "fmt_prec p NInf = ''-inf''"
| "fmt_prec p (Fin a) = fmt_rat p a"

section \<open>Representable values\<close>

text \<open>A value of the type that the arithmetic can produce: a finite one is its own rounding.\<close>

definition f64_repr :: "f64 \<Rightarrow> bool" where
  "f64_repr x = (case x of Fin a \<Rightarrow> f64_round a = Fin a | _ \<Rightarrow> True)"

lemma f64_repr_small: "\<bar>n\<bar> < 2 ^ 53 \<Longrightarrow> f64_repr (Fin (of_int n))"
  by (simp add: f64_repr_def f64_round_small_int)

lemma f64_add_zero: "f64_repr x \<Longrightarrow> f64_add (Fin 0) x = x"
  by (cases x) (auto simp: f64_repr_def)

lemma f64_div_one: "f64_repr x \<Longrightarrow> f64_div x (Fin 1) = x"
  by (cases x) (auto simp: f64_repr_def inf_of_sign_def)

lemma f64_le_nan: "f64_le x y \<Longrightarrow> x \<noteq> NaN \<and> y \<noteq> NaN"
  by (cases x; cases y) (auto simp: f64_le_def)

lemma f64_round_dyadic:
  assumes "0 < m" and "m < 2 ^ 53" and "k \<le> 1000"
  shows "f64_round (of_int m / 2 ^ k) = Fin (of_int m / 2 ^ k)"
proof -
  have e: "(of_int m / 2 ^ k :: rat) = of_int m * 2 powi (- int k)"
    by (simp add: power_int_minus divide_inverse)
  have r: "round_mag (of_int m / 2 ^ k) = of_int m / 2 ^ k"
    by (rule round_mag_exact[OF e]) (use assms in auto)
  have "(of_int m :: rat) < of_int (2 ^ 53)" using assms(2) by (simp only: of_int_less_iff)
  moreover have "(of_int m / 2 ^ k :: rat) \<le> of_int m" using assms(1) by (simp add: divide_le_eq mult_le_cancel_left1)
  ultimately have "(of_int m / 2 ^ k :: rat) < 2 ^ 1024" by simp
  with r assms(1) show ?thesis by (simp add: f64_round_def)
qed

text \<open>The constants that are fractions of one.\<close>

lemma f64_fraction:
  assumes "1 / 32 \<le> a" and "a \<le> 31 / 32"
  shows "\<exists>y. f64_round a = Fin y \<and> 1 / 32 \<le> y \<and> y \<le> 31 / 32"
  using ieee.rnd_mono[OF assms(1)] ieee.rnd_mono[OF assms(2)] f64_round_dyadic[of 1 5] f64_round_dyadic[of 31 5]
    f64_le_between_Fin[of "1 / 32" "f64_round a" "31 / 32"] by auto

text \<open>Two numbers with two dyadic rationals between them are told apart after rounding.\<close>

lemma f64_lt_separated:
  assumes "a \<le> of_int m / 2 ^ k" and "of_int n / 2 ^ k \<le> b" and "0 < m" "m < n" "n < 2 ^ 53" "k \<le> 1000"
  shows "f64_lt (f64_round a) (f64_round b)"
proof -
  have "f64_le (f64_round a) (Fin (of_int m / 2 ^ k))" "f64_le (Fin (of_int n / 2 ^ k)) (f64_round b)"
    using ieee.rnd_mono[OF assms(1)] ieee.rnd_mono[OF assms(2)] f64_round_dyadic[of m k] f64_round_dyadic[of n k] assms(3-) by simp_all
  moreover have "(of_int m / 2 ^ k :: rat) < of_int n / 2 ^ k" using assms(4) by (simp add: divide_strict_right_mono)
  ultimately show ?thesis by (cases "f64_round a"; cases "f64_round b") (auto simp: f64_le_def)
qed

lemma f64_not_lt: "b \<le> a \<Longrightarrow> \<not> f64_lt (f64_round a) (f64_round b)"
  using ieee.rnd_mono[of b a] by (cases "f64_round a"; cases "f64_round b") (auto simp: f64_le_def)

lemma ratio_of_nats:
  assumes "m < 2 ^ 53" "0 < n" "n < 2 ^ 53"
  shows "f64_div (f64_of_nat m) (f64_of_nat n) = f64_round (of_nat m / of_nat n)"
proof -
  have "f64_of_nat m = Fin (of_nat m)" "f64_of_nat n = Fin (of_nat n)"
    using f64_round_small_int[of "int m"] f64_round_small_int[of "int n"] assms by (simp_all add: f64_of_nat_def)
  then show ?thesis using assms(2) by simp
qed

text \<open>A value near a number of 53 bits rounds to it.\<close>

lemma ilog2_eqI:
  assumes "2 powi k \<le> r" "r < 2 powi (k + 1)"
  shows "ilog2 r = k"
proof -
  have r: "0 < r" using assms(1) by (meson less_le_trans zero_less_numeral zero_less_power_int)
  have "(2::rat) powi ilog2 r < 2 powi (k + 1)" "(2::rat) powi k < 2 powi (ilog2 r + 1)"
    using ilog2_bounds[OF r] assms by linarith+
  then show ?thesis by (simp add: powi_less_iff2)
qed

lemma round_half_even_near:
  assumes "2 * \<bar>x - of_int m\<bar> < (1::rat)"
  shows "round_half_even x = m"
proof -
  have b: "x < of_int m + 1 / 2" "of_int m - 1 / 2 < x" using assms by (simp_all add: abs_if split: if_splits)
  then have "x < of_int (m + 1)" "of_int (m - 1) \<le> x" by simp_all
  then have "\<lfloor>x\<rfloor> < m + 1" "m - 1 \<le> \<lfloor>x\<rfloor>" by (simp_all only: floor_less_iff le_floor_iff)
  then have "\<lfloor>x\<rfloor> = m \<or> \<lfloor>x\<rfloor> = m - 1" by linarith
  then show ?thesis using b by (auto simp: round_half_even_def Let_def)
qed

lemma f64_round_near:
  assumes "2 ^ 52 \<le> a * 2 ^ k" "a * 2 ^ k < 2 ^ 53" "2 * \<bar>a * 2 ^ k - of_int m\<bar> < 1" "k \<le> 1000"
  shows "f64_round a = Fin (of_int m / 2 ^ k)"
proof -
  have p: "(2::rat) powi (52 - int k) = 2 ^ 52 / 2 ^ k" "(2::rat) powi (52 - int k + 1) = 2 ^ 53 / 2 ^ k"
    by (simp_all add: power_int_diff power_int_add)
  have "ilog2 a = 52 - int k"
    by (rule ilog2_eqI) (use assms(1,2) in \<open>simp_all only: p divide_le_eq pos_less_divide_eq zero_less_power zero_less_numeral if_True\<close>)
  then have e: "ulp_exp a = - int k" using assms(4) by (simp add: ulp_exp_def)
  have "round_mag a = of_int m / 2 ^ k"
    using round_half_even_near[OF assms(3)] by (simp add: round_mag_def e power_int_minus divide_inverse)
  moreover have "0 < a" using assms(1) by (metis less_le_trans zero_less_mult_pos2 zero_less_numeral zero_less_power)
  moreover have "(of_int m / 2 ^ k :: rat) < 2 ^ 1024"
  proof -
    have "(of_int m :: rat) < a * 2 ^ k + 1" using assms(3) by (simp add: abs_if split: if_splits)
    moreover have "(2 ^ 53 :: rat) + 1 < 2 ^ 54" by simp
    ultimately have "(of_int m :: rat) < 2 ^ 54" using assms(2) by linarith
    moreover have "(2 ^ 54 :: rat) < 2 ^ 1024 * 1" by simp
    moreover have "(2 ^ 1024 * 1 :: rat) \<le> 2 ^ 1024 * 2 ^ k" by (rule mult_left_mono) simp_all
    ultimately have "(of_int m :: rat) < 2 ^ 1024 * 2 ^ k" by linarith
    then show ?thesis by (simp add: divide_less_eq)
  qed
  ultimately show ?thesis by (simp add: f64_round_def)
qed

text \<open>A percentage of counts against a whole threshold, for a threshold that survives being divided and multiplied by a hundred.\<close>

definition percent :: "nat \<Rightarrow> nat \<Rightarrow> f64" where
  "percent m n = f64_mul (f64_div (f64_of_nat m) (f64_of_nat n)) (Fin 100)"

lemma percent_cmp:
  assumes n: "0 < n" "n \<le> 2 ^ 20" "m \<le> n" and c: "0 < c" "c \<le> 100"
    and exact: "f64_mul (f64_round (of_nat c / 100)) (Fin 100) = Fin (of_nat c)"
  shows "f64_le (Fin (of_nat c)) (percent m n) \<longleftrightarrow> c * n \<le> 100 * m"
    and "f64_lt (Fin (of_nat c)) (percent m n) \<longleftrightarrow> c * n < 100 * m"
proof -
  have N: "0 < (of_nat n :: rat)" "(of_nat n :: rat) \<le> 2 ^ 20" "(of_nat m :: rat) \<le> of_nat n"
    using n by (simp_all add: of_nat_le_iff[of n "2 ^ 20", symmetric] del: of_nat_le_iff)
  have fin: "\<exists>r. f64_round x = Fin r" if "0 \<le> x" "x \<le> 1" for x
    using f64_le_between_Fin[of 0 "f64_round x" 1] f64_round_mono[OF that(1)] f64_round_mono[OF that(2)] by auto
  obtain r where r: "f64_round (of_nat m / of_nat n) = Fin r" using fin[of "of_nat m / of_nat n"] N by (auto simp: divide_le_eq)
  obtain q where q: "f64_round (of_nat c / 100) = Fin q" using fin[of "of_nat c / 100"] c by auto
  have p: "percent m n = f64_round (r * 100)" using n r by (simp add: percent_def ratio_of_nats)
  have e: "f64_round (q * 100) = Fin (of_nat c)" using exact q by simp
  have i: "(1 / (100 * 2 ^ 20) :: rat) \<le> 1 / (100 * of_nat n)" using N(1,2) by (intro frac_le) simp_all
  have R: "(of_nat (c * n) :: rat) = of_nat c * of_nat n" "(of_nat (100 * m) :: rat) = 100 * of_nat m" by simp_all
  have up: "f64_le (Fin (of_nat c)) (percent m n)" if "c * n \<le> 100 * m"
  proof -
    have "(of_nat c * of_nat n :: rat) \<le> 100 * of_nat m" using that by (simp only: of_nat_le_iff flip: R)
    then have "(of_nat c / 100 :: rat) \<le> of_nat m / of_nat n" using N(1) by (simp add: field_simps)
    then have "q \<le> r" using f64_round_mono[of "of_nat c / 100" "of_nat m / of_nat n"] r q by simp
    then show ?thesis using f64_round_mono[of "q * 100" "r * 100"] e p by simp
  qed
  have down: "f64_le (percent m n) (Fin (of_nat c))" if "100 * m \<le> c * n"
  proof -
    have "(100 * of_nat m :: rat) \<le> of_nat c * of_nat n" using that by (simp only: of_nat_le_iff flip: R)
    then have "of_nat m / of_nat n \<le> (of_nat c / 100 :: rat)" using N(1) by (simp add: field_simps)
    then have "r \<le> q" using f64_round_mono[of "of_nat m / of_nat n" "of_nat c / 100"] r q by simp
    then show ?thesis using f64_round_mono[of "r * 100" "q * 100"] e p by simp
  qed
  have below: "f64_lt (percent m n) (Fin (of_nat c))" if "100 * m < c * n"
  proof -
    define k where "k = (int c * 2 ^ 30 - 1) div 100"
    have k: "0 < k" "100 * k < int c * 2 ^ 30" "int c * 2 ^ 30 \<le> 100 * k + 100" "100 * k < 2 ^ 53" using c by (auto simp: k_def)
    have K: "(of_int (100 * k) :: rat) < of_int (int c * 2 ^ 30)" "(of_int (int c * 2 ^ 30) :: rat) \<le> of_int (100 * k + 100)"
      using k(2,3) by (simp_all only: of_int_less_iff of_int_le_iff)
    have "(of_nat (Suc (100 * m)) :: rat) \<le> of_nat (c * n)" using that by (simp only: of_nat_le_iff Suc_le_eq)
    then have "100 * of_nat m + 1 \<le> (of_nat c * of_nat n :: rat)" by simp
    then have "of_nat m / of_nat n \<le> (of_nat c / 100 - 1 / (100 * of_nat n) :: rat)" using N(1) by (simp add: field_simps)
    also have "\<dots> \<le> of_nat c / 100 - 1 / (100 * 2 ^ 20)" using i by simp
    also have "\<dots> \<le> of_int k / 2 ^ 30" using K(2) by (simp add: field_simps)
    finally have "r \<le> of_int k / 2 ^ 30"
      using f64_round_mono[of "of_nat m / of_nat n" "of_int k / 2 ^ 30"] f64_round_dyadic[of k 30] r k by simp
    then have "r * 100 \<le> of_int (100 * k) / 2 ^ 30" by simp
    then have "f64_le (percent m n) (Fin (of_int (100 * k) / 2 ^ 30))"
      using f64_round_mono[of "r * 100" "of_int (100 * k) / 2 ^ 30"] f64_round_dyadic[of "100 * k" 30] p k by simp
    moreover have "(of_int (100 * k) / 2 ^ 30 :: rat) < of_nat c" using K(1) by (simp add: field_simps)
    ultimately show ?thesis by (cases "percent m n") (auto simp: f64_le_def)
  qed
  have above: "f64_lt (Fin (of_nat c)) (percent m n)" if "c * n < 100 * m"
  proof -
    define k where "k = (int c * 2 ^ 30) div 100 + 1"
    have k: "0 < k" "int c * 2 ^ 30 < 100 * k" "100 * k \<le> int c * 2 ^ 30 + 100" "100 * k < 2 ^ 53" using c by (auto simp: k_def)
    have K: "(of_int (int c * 2 ^ 30) :: rat) < of_int (100 * k)" "(of_int (100 * k) :: rat) \<le> of_int (int c * 2 ^ 30 + 100)"
      using k(2,3) by (simp_all only: of_int_less_iff of_int_le_iff)
    have "(of_nat (Suc (c * n)) :: rat) \<le> of_nat (100 * m)" using that by (simp only: of_nat_le_iff Suc_le_eq)
    then have m: "(of_nat c * of_nat n :: rat) + 1 \<le> 100 * of_nat m" by simp
    have "of_int k / 2 ^ 30 \<le> (of_nat c / 100 + 1 / (100 * 2 ^ 20) :: rat)" using K(2) by (simp add: field_simps)
    also have "\<dots> \<le> of_nat c / 100 + 1 / (100 * of_nat n)" using i by simp
    also have "\<dots> = (of_nat c * of_nat n + 1) / (100 * of_nat n)" using N(1) by (simp add: field_simps)
    also have "\<dots> \<le> (100 * of_nat m) / (100 * of_nat n)" using N(1) m by (intro divide_right_mono) simp_all
    also have "\<dots> = of_nat m / of_nat n" by simp
    finally have "of_int k / 2 ^ 30 \<le> r"
      using f64_round_mono[of "of_int k / 2 ^ 30" "of_nat m / of_nat n"] f64_round_dyadic[of k 30] r k by simp
    then have "of_int (100 * k) / 2 ^ 30 \<le> r * 100" by simp
    then have "f64_le (Fin (of_int (100 * k) / 2 ^ 30)) (percent m n)"
      using f64_round_mono[of "of_int (100 * k) / 2 ^ 30" "r * 100"] f64_round_dyadic[of "100 * k" 30] p k by simp
    moreover have "of_nat c < (of_int (100 * k) / 2 ^ 30 :: rat)" using K(1) by (simp add: field_simps)
    ultimately show ?thesis by (cases "percent m n") (auto simp: f64_le_def)
  qed
  show "f64_le (Fin (of_nat c)) (percent m n) \<longleftrightarrow> c * n \<le> 100 * m"
    using up below by (cases "percent m n"; cases "c * n \<le> 100 * m") (auto simp: f64_le_def)
  show "f64_lt (Fin (of_nat c)) (percent m n) \<longleftrightarrow> c * n < 100 * m"
    using above down by (cases "percent m n"; cases "c * n < 100 * m") (auto simp: f64_le_def)
qed

text \<open>The thresholds in use.\<close>

lemma percent_exact:
  "f64_mul (f64_round (of_nat 1 / 100)) (Fin 100) = Fin (of_nat 1)"
  "f64_mul (f64_round (of_nat 5 / 100)) (Fin 100) = Fin (of_nat 5)"
  "f64_mul (f64_round (of_nat 10 / 100)) (Fin 100) = Fin (of_nat 10)"
  "f64_mul (f64_round (of_nat 50 / 100)) (Fin 100) = Fin (of_nat 50)"
  "f64_mul (f64_round (of_nat 80 / 100)) (Fin 100) = Fin (of_nat 80)"
  using f64_round_near[of "1 / 100" 59 5764607523034235] f64_round_near[of "5764607523034235 / 2 ^ 59 * 100" 52 4503599627370496]
    f64_round_near[of "1 / 20" 57 7205759403792794] f64_round_near[of "7205759403792794 / 2 ^ 57 * 100" 50 5629499534213120]
    f64_round_near[of "1 / 10" 56 7205759403792794] f64_round_near[of "7205759403792794 / 2 ^ 56 * 100" 49 5629499534213120]
    f64_round_dyadic[of 1 1] f64_round_small_int[of 50]
    f64_round_near[of "4 / 5" 53 7205759403792794] f64_round_near[of "7205759403792794 / 2 ^ 53 * 100" 46 5629499534213120]
  by simp_all

lemmas percent_cmps = percent_cmp[OF _ _ _ _ _ percent_exact(1)] percent_cmp[OF _ _ _ _ _ percent_exact(2)]
  percent_cmp[OF _ _ _ _ _ percent_exact(3)] percent_cmp[OF _ _ _ _ _ percent_exact(4)] percent_cmp[OF _ _ _ _ _ percent_exact(5)]

end
