(* ===== verification/Noc_Metrics.thy ===== *)
theory Noc_Metrics
  imports F64_Ext
begin

text \<open>
  \<open>noc_metrics\<close>: window functions over time-stamped samples (\<open>window.rs\<close>), threshold profiles with separate
  open and clear conditions and the hysteresis state (\<open>threshold.rs\<close>), scale ladders (\<open>scale.rs\<close>), units
  (\<open>units.rs\<close>) and the metric registry (\<open>metric_type.rs\<close>). A time stamp is an \<open>i64\<close>, kept as an integer; the
  one subtraction of time stamps wraps as in a release build. Sorting panics on a NaN, and an index out of
  range panics: both are branches of the model.
\<close>

type_synonym Sample = "int \<times> f64"

section \<open>Window functions\<close>

definition sorted_values :: "Sample list \<Rightarrow> Sample list" where
  "sorted_values w = sort_key fst w"

definition last_value :: "Sample list \<Rightarrow> f64 option" where
  "last_value w = (let s = sorted_values w in if s = [] then None else Some (snd (last s)))"

definition sum_value :: "Sample list \<Rightarrow> f64 option" where
  "sum_value w = (if w = [] then None else Some (f64_sum (map snd w)))"

definition avg :: "Sample list \<Rightarrow> f64 option" where
  "avg w = (if w = [] then None else Some (f64_div (f64_sum (map snd w)) (f64_of_nat (length w))))"

text \<open>\<open>sort_by(partial_cmp().unwrap())\<close> compares every element of a list of two or more.\<close>

definition sort_floats :: "f64 list \<Rightarrow> f64 list panics" where
  "sort_floats vs = (if 2 \<le> length vs \<and> NaN \<in> set vs then Panic else Ret (sort vs))"

definition percentile :: "Sample list \<Rightarrow> f64 \<Rightarrow> f64 option panics" where
  "percentile w q =
     (if w = [] then Ret None
      else case sort_floats (map snd w) of
        Panic \<Rightarrow> Panic
      | Ret vs \<Rightarrow>
          if length vs = 1 then Ret (Some (vs ! 0))
          else
            let rank = f64_mul (f64_div (f64_clamp q (Fin 0) (Fin 100)) (Fin 100)) (f64_of_nat (length vs - 1));
                lo = f64_as_nat (f64_floor rank);
                hi = f64_as_nat (f64_ceil rank)
            in if length vs \<le> lo \<or> length vs \<le> hi then Panic
               else if lo = hi then Ret (Some (vs ! lo))
               else Ret (Some (f64_add (vs ! lo) (f64_mul (f64_sub (vs ! hi) (vs ! lo)) (f64_sub rank (f64_of_nat lo))))))"

definition step_inc :: "Sample list \<Rightarrow> f64 option" where
  "step_inc w = (let s = sorted_values w in
     if s = [] then None
     else Some (f64_sum (map (\<lambda>(a, b). f64_max (f64_sub (snd b) (snd a)) (Fin 0)) (adjacent s))))"

definition step_dec :: "Sample list \<Rightarrow> f64 option" where
  "step_dec w = (let s = sorted_values w in
     if s = [] then None
     else Some (f64_sum (map (\<lambda>(a, b). f64_max (f64_sub (snd a) (snd b)) (Fin 0)) (adjacent s))))"

definition step_abs :: "Sample list \<Rightarrow> f64 option" where
  "step_abs w = (let s = sorted_values w in
     if s = [] then None
     else Some (f64_sum (map (\<lambda>(a, b). f64_abs (f64_sub (snd b) (snd a))) (adjacent s))))"

text \<open>The exponential function of the platform is an argument.\<close>

definition LN_2 :: f64 where
  "LN_2 = f64_round (6931471805599453 / 10 ^ 16)"

definition exp_decay :: "(f64 \<Rightarrow> f64) \<Rightarrow> Sample list \<Rightarrow> f64 \<Rightarrow> f64 option" where
  "exp_decay expf w half_life_secs =
     (let s = sorted_values w in
      if s = [] then None
      else if f64_le half_life_secs (Fin 0) then last_value w
      else
        let last_ts = fst (last s);
            lam = f64_div LN_2 half_life_secs;
            weight = (\<lambda>ts. expf (f64_mul (f64_neg lam) (f64_of_int (last_ts - ts))));
            (weighted_sum, weight_total) =
              foldl (\<lambda>(ws, wt) (ts, v). (f64_add ws (f64_mul (weight ts) v), f64_add wt (weight ts))) (Fin 0, Fin 0) s
        in if weight_total = Fin 0 then None else Some (f64_div weighted_sum weight_total))"

type_synonym window_result = "(string + f64 option) panics"

definition window_apply :: "string \<Rightarrow> Sample list \<Rightarrow> window_result" where
  "window_apply name w =
     (let q = (\<lambda>x. case percentile w x of Panic \<Rightarrow> Panic | Ret v \<Rightarrow> Ret (Inr v)) in
      if name = ''last'' then Ret (Inr (last_value w))
      else if name = ''sum'' then Ret (Inr (sum_value w))
      else if name = ''avg'' then Ret (Inr (avg w))
      else if name = ''q1'' then q (Fin 25)
      else if name = ''q2'' \<or> name = ''median'' then q (Fin 50)
      else if name = ''q3'' then q (Fin 75)
      else if name = ''p95'' then q (Fin 95)
      else if name = ''p99'' then q (Fin 99)
      else if name = ''step_inc'' then Ret (Inr (step_inc w))
      else if name = ''step_dec'' then Ret (Inr (step_dec w))
      else if name = ''step_abs'' then Ret (Inr (step_abs w))
      else Ret (Inl (''unknown window function '' @ [CHR 0x27] @ name @ [CHR 0x27])))"

section \<open>Threshold profiles\<close>

datatype CompareOp = Lt | Le | Ge | Gt

fun matches :: "CompareOp \<Rightarrow> f64 \<Rightarrow> f64 \<Rightarrow> bool" where
  "matches Lt v t = f64_lt v t"
| "matches Le v t = f64_le v t"
| "matches Ge v t = f64_le t v"
| "matches Gt v t = f64_lt t v"

record ThresholdConfig =
  tc_label :: string
  tc_op :: CompareOp
  tc_value :: f64
  clear_op :: CompareOp
  clear_value :: f64

definition is_open_match :: "ThresholdConfig \<Rightarrow> f64 \<Rightarrow> bool" where
  "is_open_match t v = matches (tc_op t) v (tc_value t)"

definition is_clear_match :: "ThresholdConfig \<Rightarrow> f64 \<Rightarrow> bool" where
  "is_clear_match t v = matches (clear_op t) v (clear_value t)"

datatype WindowType = Measurements | Time

record ThresholdProfile =
  tp_name :: string
  window_type :: WindowType
  tp_window :: int
  window_function :: string
  thresholds :: "ThresholdConfig list"

definition wrap_i64 :: "int \<Rightarrow> int" where
  "wrap_i64 n = signed_take_bit 63 n"

definition select_window :: "ThresholdProfile \<Rightarrow> Sample list \<Rightarrow> Sample list" where
  "select_window p samples =
     (let s = sort_key fst samples in
      case window_type p of
        Measurements \<Rightarrow> drop (length s - nat (max (tp_window p) 1)) s
      | Time \<Rightarrow>
          if s = [] then []
          else let floor = wrap_i64 (fst (last s) - max (tp_window p) 0) in filter (\<lambda>x. floor \<le> fst x) s)"

definition aggregate :: "ThresholdProfile \<Rightarrow> Sample list \<Rightarrow> window_result" where
  "aggregate p samples = window_apply (window_function p) (select_window p samples)"

type_synonym evaluation = "(string + (f64 \<times> ThresholdConfig) option) panics"

definition profile_evaluate :: "ThresholdProfile \<Rightarrow> Sample list \<Rightarrow> evaluation" where
  "profile_evaluate p samples =
     (case aggregate p samples of
        Panic \<Rightarrow> Panic
      | Ret (Inl e) \<Rightarrow> Ret (Inl e)
      | Ret (Inr None) \<Rightarrow> Ret (Inr None)
      | Ret (Inr (Some v)) \<Rightarrow> Ret (Inr (map_option (Pair v) (find (\<lambda>t. is_open_match t v) (thresholds p)))))"

text \<open>The hysteresis state: the index of the open rung.\<close>

record ThresholdState =
  open_index :: "nat option"

definition state_new :: ThresholdState where
  "state_new = \<lparr>open_index = None\<rparr>"

definition is_open :: "ThresholdState \<Rightarrow> bool" where
  "is_open st \<longleftrightarrow> open_index st \<noteq> None"

definition state_evaluate :: "ThresholdState \<Rightarrow> ThresholdProfile \<Rightarrow> Sample list \<Rightarrow> evaluation \<times> ThresholdState" where
  "state_evaluate st p samples =
     (case aggregate p samples of
        Panic \<Rightarrow> (Panic, st)
      | Ret (Inl e) \<Rightarrow> (Ret (Inl e), st)
      | Ret (Inr None) \<Rightarrow> (Ret (Inr None), st)
      | Ret (Inr (Some v)) \<Rightarrow>
          (case open_index st of
             Some idx \<Rightarrow>
               if length (thresholds p) \<le> idx then (Panic, st)
               else
                 let t = thresholds p ! idx
                 in if is_clear_match t v then (Ret (Inr None), st\<lparr>open_index := None\<rparr>)
                    else (Ret (Inr (Some (v, t))), st)
           | None \<Rightarrow>
               (case position (\<lambda>t. is_open_match t v) (thresholds p) of
                  Some idx \<Rightarrow> (Ret (Inr (Some (v, thresholds p ! idx))), st\<lparr>open_index := Some idx\<rparr>)
                | None \<Rightarrow> (Ret (Inr None), st))))"

section \<open>Scales, units and metrics\<close>

record Scale =
  sc_label :: string
  base :: f64
  exp10 :: int

definition scale_new :: "string \<Rightarrow> f64 \<Rightarrow> int \<Rightarrow> Scale" where
  "scale_new l b e = \<lparr>sc_label = l, base = b, exp10 = e\<rparr>"

definition divisor :: "Scale \<Rightarrow> f64" where
  "divisor s = f64_powi (base s) (exp10 s)"

definition SI_SCALES :: "Scale list" where
  "SI_SCALES = [scale_new ''n'' (Fin 10) (- 9), scale_new ''u'' (Fin 10) (- 6), scale_new ''m'' (Fin 10) (- 3),
     scale_new '''' (Fin 10) 0, scale_new ''k'' (Fin 10) 3, scale_new ''M'' (Fin 10) 6, scale_new ''G'' (Fin 10) 9,
     scale_new ''T'' (Fin 10) 12]"

definition BINARY_SCALES :: "Scale list" where
  "BINARY_SCALES = [scale_new '''' (Fin 2) 0, scale_new ''Ki'' (Fin 2) 10, scale_new ''Mi'' (Fin 2) 20,
     scale_new ''Gi'' (Fin 2) 30, scale_new ''Ti'' (Fin 2) 40]"

definition UNSCALED :: "Scale list" where
  "UNSCALED = [scale_new '''' (Fin 1) 0]"

fun choose_step :: "f64 \<Rightarrow> Scale \<Rightarrow> Scale list \<Rightarrow> Scale" where
  "choose_step mag chosen [] = chosen"
| "choose_step mag chosen (s # ss) = (if f64_le (divisor s) mag then choose_step mag s ss else chosen)"

definition humanize :: "f64 \<Rightarrow> Scale list \<Rightarrow> f64 \<times> Scale" where
  "humanize v ladder =
     (if ladder = [] then (v, scale_new '''' (Fin 1) 0)
      else if v = Fin 0 \<or> v \<in> {NaN, PInf, NInf}
      then (v, unwrap_or (find (\<lambda>s. exp10 s = 0) ladder) (ladder ! 0))
      else let chosen = choose_step (f64_abs v) (ladder ! 0) ladder in (f64_div v (divisor chosen), chosen))"

definition humanize_string :: "f64 \<Rightarrow> Scale list \<Rightarrow> nat \<Rightarrow> string" where
  "humanize_string v ladder precision =
     (case humanize v ladder of (scaled, s) \<Rightarrow> fmt_prec precision scaled @ sc_label s)"

datatype UnitLadder = Si | Binary | NoLadder

record MeasurementUnits =
  mu_code :: string
  suffix :: string
  unit_ladder :: UnitLadder

definition ladder_of :: "MeasurementUnits \<Rightarrow> Scale list" where
  "ladder_of u = (case unit_ladder u of Si \<Rightarrow> SI_SCALES | Binary \<Rightarrow> BINARY_SCALES | NoLadder \<Rightarrow> UNSCALED)"

definition units_humanize :: "MeasurementUnits \<Rightarrow> f64 \<Rightarrow> nat \<Rightarrow> string" where
  "units_humanize u v precision = humanize_string v (ladder_of u) precision @ suffix u"

definition unit_SCALAR :: MeasurementUnits where
  "unit_SCALAR = \<lparr>mu_code = ''scalar'', suffix = '''', unit_ladder = NoLadder\<rparr>"
definition unit_PERCENT :: MeasurementUnits where
  "unit_PERCENT = \<lparr>mu_code = ''percent'', suffix = [CHR 0x25], unit_ladder = NoLadder\<rparr>"
definition unit_MILLISECOND :: MeasurementUnits where
  "unit_MILLISECOND = \<lparr>mu_code = ''ms'', suffix = ''ms'', unit_ladder = NoLadder\<rparr>"
definition unit_BYTE :: MeasurementUnits where
  "unit_BYTE = \<lparr>mu_code = ''byte'', suffix = ''B'', unit_ladder = Binary\<rparr>"
definition unit_BITS_PER_SECOND :: MeasurementUnits where
  "unit_BITS_PER_SECOND = \<lparr>mu_code = ''bit/s'', suffix = ''bit/s'', unit_ladder = Si\<rparr>"

definition by_code :: "string \<Rightarrow> MeasurementUnits option" where
  "by_code c = find (\<lambda>u. mu_code u = c) [unit_SCALAR, unit_PERCENT, unit_MILLISECOND, unit_BYTE, unit_BITS_PER_SECOND]"

record MetricType =
  mt_name :: string
  mt_units :: MeasurementUnits
  is_counter :: bool
  mt_description :: string

definition metric_ALL :: "MetricType list" where
  "metric_ALL =
     [\<lparr>mt_name = ''Network | RTT'', mt_units = unit_MILLISECOND, is_counter = False,
       mt_description = ''Round-trip time to the target, as reported by ping'' @ [CHR 0x27] @ ''s avg_ms''\<rparr>,
      \<lparr>mt_name = ''Network | Packet Loss'', mt_units = unit_PERCENT, is_counter = False,
       mt_description = ''Share of probes that received no reply''\<rparr>,
      \<lparr>mt_name = ''Network | Jitter'', mt_units = unit_MILLISECOND, is_counter = False,
       mt_description = ''Variation in round-trip time between consecutive probes''\<rparr>,
      \<lparr>mt_name = ''Interface | MTU'', mt_units = unit_BYTE, is_counter = False,
       mt_description = ''Configured or measured interface MTU''\<rparr>,
      \<lparr>mt_name = ''TCP | Segment Limit'', mt_units = unit_BYTE, is_counter = False,
       mt_description = ''Largest TCP segment observed to pass a middlebox unmodified''\<rparr>,
      \<lparr>mt_name = ''DNS | Resolution Time'', mt_units = unit_MILLISECOND, is_counter = False,
       mt_description = ''Wall-clock time to resolve the target hostname''\<rparr>]"

definition by_name :: "string \<Rightarrow> MetricType option" where
  "by_name n = find (\<lambda>m. mt_name m = n) metric_ALL"

section \<open>The order of samples\<close>

lemma sort_by_time_unique:
  assumes "mset ss = mset ss'" and "distinct (map fst ss)"
  shows "sort_key fst ss = sort_key fst ss'"
proof -
  have "inj_on fst (set ss)" using assms(2) by (simp add: distinct_map)
  then show ?thesis using assms(1) by (intro sort_key_inj_key_eq) auto
qed

section \<open>Percentiles\<close>

lemma ratio_0_100: "f64_le (Fin 0) q \<Longrightarrow> f64_le q (Fin 100) \<Longrightarrow> \<exists>a. f64_div q (Fin 100) = Fin a \<and> 0 \<le> a \<and> a \<le> 1"
proof -
  assume "f64_le (Fin 0) q" "f64_le q (Fin 100)"
  then obtain c where "q = Fin c" "0 \<le> c" "c \<le> 100" using f64_le_between_Fin by blast
  then show ?thesis using ieee.rnd_ratio[of c 100] by simp
qed

lemma clamp_range: "q \<noteq> NaN \<Longrightarrow> f64_le (Fin 0) (f64_clamp q (Fin 0) (Fin 100)) \<and> f64_le (f64_clamp q (Fin 0) (Fin 100)) (Fin 100)"
  by (cases q) (auto simp: f64_clamp_def f64_le_def)

text \<open>The rank of a percentile lies between the first and the last index.\<close>

lemma rank_range:
  assumes "n < 2 ^ 53" and "q \<noteq> NaN"
  shows "\<exists>r. f64_mul (f64_div (f64_clamp q (Fin 0) (Fin 100)) (Fin 100)) (f64_of_nat n) = Fin r \<and> 0 \<le> r \<and> r \<le> of_nat n"
proof -
  obtain a where a: "f64_div (f64_clamp q (Fin 0) (Fin 100)) (Fin 100) = Fin a" "0 \<le> a" "a \<le> 1"
    using ratio_0_100 clamp_range[OF assms(2)] by blast
  have "a * of_nat n \<le> of_int (int n)" using a(2,3) mult_right_mono[of a 1 "of_nat n"] by simp
  then show ?thesis
    using a(1,2) assms(1) ieee.rnd_within_int[of "a * of_nat n" "int n"] by (simp add: f64_of_nat_small)
qed

lemma index_range:
  assumes "0 \<le> r" and "r \<le> of_nat n" and "n < 2 ^ 53"
  shows "f64_as_nat (f64_floor (Fin r)) \<le> n" and "f64_as_nat (f64_ceil (Fin r)) \<le> n"
proof -
  have "\<lfloor>r\<rfloor> \<le> int n" "\<lceil>r\<rceil> \<le> int n" using assms(2) by (simp_all add: floor_le_iff ceiling_le_iff)
  then have "min \<lfloor>r\<rfloor> (2 ^ 64 - 1) \<le> int n" "min \<lceil>r\<rceil> (2 ^ 64 - 1) \<le> int n" by linarith+
  then show "f64_as_nat (f64_floor (Fin r)) \<le> n" "f64_as_nat (f64_ceil (Fin r)) \<le> n" by (simp_all only: f64_floor.simps
    f64_ceil.simps f64_as_nat.simps floor_of_int nat_le_iff)
qed

lemma rank_indices:
  fixes q :: f64 and n :: nat
  assumes "n < 2 ^ 53"
  defines "rank \<equiv> f64_mul (f64_div (f64_clamp q (Fin 0) (Fin 100)) (Fin 100)) (f64_of_nat n)"
  shows "f64_as_nat (f64_floor rank) \<le> n \<and> f64_as_nat (f64_ceil rank) \<le> n"
proof (cases "q = NaN")
  case True
  then have "rank = NaN" by (simp add: rank_def f64_clamp_def)
  then show ?thesis by simp
next
  case False
  then obtain r where "rank = Fin r" "0 \<le> r" "r \<le> of_nat n" using rank_range[OF assms(1)] unfolding rank_def by blast
  then show ?thesis using index_range[OF _ _ assms(1)] by simp
qed

lemma sort_floats_eq: "mset vs = mset vs' \<Longrightarrow> sort_floats vs = sort_floats vs'"
proof -
  assume m: "mset vs = mset vs'"
  then have "length vs = length vs'" "set vs = set vs'" by (metis size_mset, metis set_mset_mset)
  moreover have "sort vs = sort vs'" using m by (metis properties_for_sort sorted_sort mset_sort)
  ultimately show ?thesis by (simp add: sort_floats_def)
qed

lemma percentile_not_panic:
  assumes "length w < 2 ^ 53" and "\<not> (2 \<le> length w \<and> NaN \<in> set (map snd w))"
  shows "\<exists>v. percentile w q = Ret v \<and> (v = None \<longleftrightarrow> w = [])"
proof (cases "length w \<le> 1")
  case True
  then show ?thesis using assms(2) by (cases w) (auto simp: percentile_def sort_floats_def)
next
  case False
  then have s: "sort_floats (map snd w) = Ret (sort (map snd w))" using assms(2) by (auto simp: sort_floats_def)
  have "length w - 1 < 2 ^ 53" using assms(1) by simp
  from rank_indices[OF this, of q] False show ?thesis
    by (auto simp: percentile_def s Let_def)
qed

section \<open>Hysteresis\<close>

text \<open>The value a window contributes, and the state of the rungs over a sequence of values.\<close>

definition window_value :: "ThresholdProfile \<Rightarrow> Sample list \<Rightarrow> f64 option" where
  "window_value p w = (case aggregate p w of Ret (Inr (Some v)) \<Rightarrow> Some v | _ \<Rightarrow> None)"

definition state_after :: "ThresholdProfile \<Rightarrow> Sample list list \<Rightarrow> ThresholdState" where
  "state_after p ws = foldl (\<lambda>st w. snd (state_evaluate st p w)) state_new ws"

lemma state_after_snoc: "state_after p (ws @ [w]) = snd (state_evaluate (state_after p ws) p w)"
  by (simp add: state_after_def)

lemma state_in_range: "open_index (state_after p ws) = Some i \<Longrightarrow> i < length (thresholds p)"
proof (induction ws rule: rev_induct)
  case Nil
  then show ?case by (simp add: state_after_def state_new_def)
next
  case (snoc w ws)
  then show ?case
    by (auto simp: state_after_snoc state_evaluate_def Let_def dest: position_Some_less
        split: panics.splits sum.splits option.splits if_splits)
qed

lemma state_step:
  "open_index (state_after p (ws @ [w])) =
     (case window_value p w of
        None \<Rightarrow> open_index (state_after p ws)
      | Some v \<Rightarrow>
          (case open_index (state_after p ws) of
             Some i \<Rightarrow> if is_clear_match (thresholds p ! i) v then None else Some i
           | None \<Rightarrow> position (\<lambda>t. is_open_match t v) (thresholds p)))"
  using state_in_range[of p ws]
  by (auto simp: state_after_snoc state_evaluate_def window_value_def Let_def
      split: panics.splits sum.splits option.splits)

definition cleared_in :: "ThresholdProfile \<Rightarrow> nat \<Rightarrow> Sample list list \<Rightarrow> bool" where
  "cleared_in p i ws \<longleftrightarrow> (\<exists>w v. w \<in> set ws \<and> window_value p w = Some v \<and> is_clear_match (thresholds p ! i) v)"

lemma stays_open:
  "open_index (state_after p ws) = Some i \<Longrightarrow> \<not> cleared_in p i post \<Longrightarrow> open_index (state_after p (ws @ post)) = Some i"
proof (induction post rule: rev_induct)
  case (snoc w post)
  then have "open_index (state_after p (ws @ post)) = Some i" by (auto simp: cleared_in_def)
  then show ?case using snoc.prems(2) state_step[of p "ws @ post" w]
    by (auto simp: cleared_in_def split: option.splits)
qed simp

lemma opened_before:
  "open_index (state_after p ws) = Some i \<Longrightarrow>
    \<exists>pre w v post. ws = pre @ w # post \<and> open_index (state_after p pre) = None \<and> window_value p w = Some v
      \<and> position (\<lambda>t. is_open_match t v) (thresholds p) = Some i \<and> \<not> cleared_in p i post"
proof (induction ws rule: rev_induct)
  case Nil
  then show ?case by (simp add: state_after_def state_new_def)
next
  case (snoc w ws)
  show ?case
  proof (cases "open_index (state_after p ws)")
    case None
    then obtain v where "window_value p w = Some v" "position (\<lambda>t. is_open_match t v) (thresholds p) = Some i"
      using snoc.prems state_step[of p ws w] by (auto split: option.splits)
    with None show ?thesis by (intro exI[of _ ws] exI[of _ w] exI[of _ v] exI[of _ "[]"]) (simp add: cleared_in_def)
  next
    case (Some j)
    then have j: "j = i" and c: "\<not> (\<exists>v. window_value p w = Some v \<and> is_clear_match (thresholds p ! i) v)"
      using snoc.prems state_step[of p ws w] by (auto split: option.splits if_splits)
    obtain pre x v post where "ws = pre @ x # post" "open_index (state_after p pre) = None" "window_value p x = Some v"
      "position (\<lambda>t. is_open_match t v) (thresholds p) = Some i" "\<not> cleared_in p i post"
      using snoc.IH Some j by blast
    then show ?thesis using c
      by (intro exI[of _ pre] exI[of _ x] exI[of _ v] exI[of _ "post @ [w]"]) (auto simp: cleared_in_def)
  qed
qed

section \<open>Properties\<close>

text \<open>C15: after any sequence of windows a rung is open exactly when at some window the state was closed, it
  was the first rung in order whose open condition the value met, and no later window met its clear
  condition; windows without a value change nothing.\<close>

theorem hysteresis_open_iff:
  "open_index (state_after p ws) = Some i \<longleftrightarrow>
     (\<exists>pre w v post. ws = pre @ w # post \<and> open_index (state_after p pre) = None \<and> window_value p w = Some v
        \<and> position (\<lambda>t. is_open_match t v) (thresholds p) = Some i \<and> \<not> cleared_in p i post)"
proof
  assume "\<exists>pre w v post. ws = pre @ w # post \<and> open_index (state_after p pre) = None \<and> window_value p w = Some v
      \<and> position (\<lambda>t. is_open_match t v) (thresholds p) = Some i \<and> \<not> cleared_in p i post"
  then obtain pre w v post where w: "ws = pre @ w # post" "open_index (state_after p pre) = None" "window_value p w = Some v"
    "position (\<lambda>t. is_open_match t v) (thresholds p) = Some i" "\<not> cleared_in p i post" by blast
  then have "open_index (state_after p (pre @ [w])) = Some i" using state_step[of p pre w] by simp
  from stays_open[OF this w(5)] show "open_index (state_after p ws) = Some i" by (simp add: w(1))
qed (rule opened_before)

text \<open>A percentile of fewer than \<open>2 ^ 53\<close> samples panics exactly when there are two or more and one of
  them is NaN; otherwise it has a value for every non-empty window, which for 0 is the smallest and for 100
  the largest sample, and the order of the samples does not matter.\<close>

theorem percentile_total:
  assumes "length w < 2 ^ 53"
  shows "(percentile w q = Panic \<longleftrightarrow> 2 \<le> length w \<and> NaN \<in> set (map snd w))
    \<and> (percentile w q \<noteq> Panic \<longrightarrow> (\<exists>v. percentile w q = Ret v \<and> (v = None \<longleftrightarrow> w = [])))
    \<and> (mset (map snd w') = mset (map snd w) \<longrightarrow> percentile w' q = percentile w q)
    \<and> (w \<noteq> [] \<and> NaN \<notin> set (map snd w) \<longrightarrow>
         percentile w (Fin 0) = Ret (Some (sort (map snd w) ! 0))
       \<and> percentile w (Fin 100) = Ret (Some (sort (map snd w) ! (length w - 1))))"
proof (intro conjI)
  show panic: "percentile w q = Panic \<longleftrightarrow> 2 \<le> length w \<and> NaN \<in> set (map snd w)"
  proof
    assume "percentile w q = Panic"
    then show "2 \<le> length w \<and> NaN \<in> set (map snd w)" using percentile_not_panic[OF assms, of q] by (metis panics.distinct(1))
  next
    assume "2 \<le> length w \<and> NaN \<in> set (map snd w)"
    then show "percentile w q = Panic" by (auto simp: percentile_def sort_floats_def)
  qed
  show "percentile w q \<noteq> Panic \<longrightarrow> (\<exists>v. percentile w q = Ret v \<and> (v = None \<longleftrightarrow> w = []))"
    using panic percentile_not_panic[OF assms] by blast
  show "mset (map snd w') = mset (map snd w) \<longrightarrow> percentile w' q = percentile w q"
  proof
    assume m: "mset (map snd w') = mset (map snd w)"
    then have "w' = [] \<longleftrightarrow> w = []" by (metis length_map length_0_conv size_mset)
    then show "percentile w' q = percentile w q" unfolding percentile_def sort_floats_eq[OF m] by simp
  qed
  show "w \<noteq> [] \<and> NaN \<notin> set (map snd w) \<longrightarrow>
      percentile w (Fin 0) = Ret (Some (sort (map snd w) ! 0))
    \<and> percentile w (Fin 100) = Ret (Some (sort (map snd w) ! (length w - 1)))"
  proof
    assume a: "w \<noteq> [] \<and> NaN \<notin> set (map snd w)"
    have s: "sort_floats (map snd w) = Ret (sort (map snd w))" using a by (auto simp: sort_floats_def)
    obtain n where len: "length w = Suc n" using a by (cases w) auto
    have n: "f64_of_nat n = Fin (of_nat n)" "n < 2 ^ 64 - 1" using assms len by (simp_all add: f64_of_nat_small)
    have r: "f64_round (of_nat n) = Fin (of_nat n)" using n(1) by (simp add: f64_of_nat_def)
    show "percentile w (Fin 0) = Ret (Some (sort (map snd w) ! 0))
      \<and> percentile w (Fin 100) = Ret (Some (sort (map snd w) ! (length w - 1)))"
      using a s n r len by (auto simp: percentile_def f64_clamp_def Let_def min_def)
  qed
qed

theorem percentile_total_witness:
  "percentile [(3, Fin 30), (1, Fin 10), (2, Fin 20)] (Fin 0) = Ret (Some (Fin 10))
   \<and> percentile [(3, Fin 30), (1, Fin 10), (2, Fin 20)] (Fin 100) = Ret (Some (Fin 30))
   \<and> percentile [(1, NaN), (2, Fin 20)] (Fin 50) = Panic"
proof -
  have "sort [Fin 30, Fin 10, Fin 20] ! 0 = Fin 10" "sort [Fin 30, Fin 10, Fin 20] ! 2 = Fin 30"
    by (simp_all add: less_eq_f64_def)
  then show ?thesis
    using percentile_total[of "[(3, Fin 30), (1, Fin 10), (2, Fin 20)]"] percentile_total[of "[(1, NaN), (2, Fin 20)]" "Fin 50"]
    by (simp add: less_eq_f64_def)
qed

text \<open>The value a profile aggregates, and so its evaluation, does not depend on the order in which
  samples with distinct time stamps are given, whatever the window function, floating-point sums included.\<close>

theorem aggregate_order_independent:
  assumes "mset ss = mset ss'" and "distinct (map fst ss)"
  shows "aggregate p ss = aggregate p ss' \<and> profile_evaluate p ss = profile_evaluate p ss'
    \<and> state_evaluate st p ss = state_evaluate st p ss'"
proof -
  have "aggregate p ss = aggregate p ss'"
    unfolding aggregate_def select_window_def sort_by_time_unique[OF assms] ..
  then show ?thesis by (simp add: profile_evaluate_def state_evaluate_def)
qed

theorem aggregate_order_independent_witness:
  "aggregate \<lparr>tp_name = ''loss'', window_type = Measurements, tp_window = 5, window_function = ''avg'', thresholds = []\<rparr>
       [(2, Fin 20), (1, Fin 10)]
   = aggregate \<lparr>tp_name = ''loss'', window_type = Measurements, tp_window = 5, window_function = ''avg'', thresholds = []\<rparr>
       [(1, Fin 10), (2, Fin 20)]"
  by (rule aggregate_order_independent[THEN conjunct1]) simp_all

end
