(* ===== verification/Diagnosis.thy ===== *)
theory Diagnosis
  imports Noc_Metrics
begin

text \<open>
  \<open>diagnosis/mod.rs\<close>: the rule engine that turns test results into ranked diagnoses, with the default
  threshold profiles of \<open>noc_metrics\<close>. A \<open>usize\<close> is a 64-bit word (\<open>m - 100\<close> wraps as in a release build).
  Severities are ordered as the derived \<open>Ord\<close> orders them, by declaration.
\<close>

section \<open>Evidence and diagnoses\<close>

datatype HttpsDiagnosis =
    Success | DnsFailed | TcpConnectFailed | TlsTimeout | TlsHandshakeFailed | HttpRequestFailed
  | HttpResponseTimeout | MtuBlackholeConfirmed

record CertInfo =
  subject :: string
  issuer :: string
  der_len :: u64

record HttpsTestResult =
  target :: string
  dns_time_ms :: "u64 option"
  dns_ips :: "string list"
  tcp_connect_time_ms :: "u64 option"
  tcp_success :: bool
  tls_handshake_time_ms :: "u64 option"
  tls_success :: bool
  http_request_time_ms :: "u64 option"
  http_response_time_ms :: "u64 option"
  ttfb_ms :: "u64 option"
  status_code :: "u16 option"
  total_time_ms :: u64
  diagnosis :: HttpsDiagnosis
  cert_chain :: "CertInfo list"
  negotiated_alpn :: "string option"

datatype DiagnosisIssue =
    MtuBlackhole | TcpSegmentationLimit | DnsFailure | PortBlocking | HighLatency | PacketLoss | PathMtuMismatch
  | BlackholeScore

datatype Severity = Critical | High | Medium | Low | Info

fun severity_rank :: "Severity \<Rightarrow> nat" where
  "severity_rank Critical = 0"
| "severity_rank High = 1"
| "severity_rank Medium = 2"
| "severity_rank Low = 3"
| "severity_rank Info = 4"

instantiation Severity :: linorder
begin

definition less_eq_Severity :: "Severity \<Rightarrow> Severity \<Rightarrow> bool" where
  "less_eq_Severity a b \<longleftrightarrow> severity_rank a \<le> severity_rank b"

definition less_Severity :: "Severity \<Rightarrow> Severity \<Rightarrow> bool" where
  "less_Severity a b \<longleftrightarrow> severity_rank a < severity_rank b"

instance
proof
  fix a b c :: Severity
  show "a < b \<longleftrightarrow> a \<le> b \<and> \<not> b \<le> a" by (auto simp: less_eq_Severity_def less_Severity_def)
  show "a \<le> a" by (simp add: less_eq_Severity_def)
  show "a \<le> b \<Longrightarrow> b \<le> c \<Longrightarrow> a \<le> c" by (simp add: less_eq_Severity_def)
  show "a \<le> b \<Longrightarrow> b \<le> a \<Longrightarrow> a = b" by (cases a; cases b) (auto simp: less_eq_Severity_def)
  show "a \<le> b \<or> b \<le> a" by (auto simp: less_eq_Severity_def)
qed

end

record Diagnosis =
  issue :: DiagnosisIssue
  severity :: Severity
  description :: string
  recommendation :: string
  related_tests :: "string list"

record DiagnosisEvidence =
  https_result :: "HttpsTestResult option"
  interface_mtu :: "u64 option"
  icmp_mtu :: "u64 option"
  tcp_mtu :: "u64 option"
  tcp_segment_limit :: "u64 option"
  ping_success :: "bool option"
  tcp_connect_success :: "bool option"
  dns_resolution_time_ms :: "f64 option"
  dns_success :: "bool option"
  packet_loss_percent :: "f64 option"
  rtt_ms :: "f64 option"
  packet_loss_samples :: "Sample list"
  rtt_samples :: "Sample list"
  upload_fail_sizes :: "u64 list"
  ssh_banner_ok :: "bool option"
  ssh_exec_ok :: "bool option"
  printer_fail_sizes :: "u64 list"
  icmp_frag_needed_received :: "bool option"

definition no_evidence :: DiagnosisEvidence where
  "no_evidence = \<lparr>https_result = None, interface_mtu = None, icmp_mtu = None, tcp_mtu = None,
     tcp_segment_limit = None, ping_success = None, tcp_connect_success = None, dns_resolution_time_ms = None,
     dns_success = None, packet_loss_percent = None, rtt_ms = None, packet_loss_samples = [], rtt_samples = [],
     upload_fail_sizes = [], ssh_banner_ok = None, ssh_exec_ok = None, printer_fail_sizes = [],
     icmp_frag_needed_received = None\<rparr>"

definition option_or :: "'a option \<Rightarrow> 'a option \<Rightarrow> 'a option" where
  "option_or x y = (case x of Some v \<Rightarrow> Some v | None \<Rightarrow> y)"

section \<open>Rules\<close>

definition mtu_blackhole_rule :: "DiagnosisEvidence \<Rightarrow> Diagnosis option" where
  "mtu_blackhole_rule ev =
     (case https_result ev of
        None \<Rightarrow> None
      | Some https \<Rightarrow>
          if tcp_success https \<and> diagnosis https = TlsTimeout \<and> 1500 \<le> unwrap_or (interface_mtu ev) 0
          then
            let suggested_mtu = unwrap_or (map_option (\<lambda>m. m - 100) (option_or (tcp_mtu ev) (icmp_mtu ev))) 1400
            in Some \<lparr>issue = MtuBlackhole, severity = Critical,
        description = ''MTU blackhole detected on '' @ target https
        @ ''. TCP connects but TLS times out. This occurs when intermediate routers drop large packets without sending ICMP ''
        @ [CHR 0x27] @ ''Packet Too Big'' @ [CHR 0x27] @ '' messages.'',
        recommendation = ''Lower interface MTU to '' @ show_word suggested_mtu @ '' bytes:'' @ [CHR 0x0A]
        @ ''Linux: sudo ip link set dev eth0 mtu '' @ show_word suggested_mtu @ [CHR 0x0A]
        @ ''Windows: netsh interface ipv4 set subinterface '' @ [CHR 0x22] @ ''Ethernet'' @ [CHR 0x22]
        @ '' mtu='' @ show_word suggested_mtu @ '' store=persistent'' @ [CHR 0x0A]
        @ ''macOS: sudo ifconfig en0 mtu '' @ show_word suggested_mtu,
        related_tests = [''HTTPS Test'', ''MTU Test'']\<rparr>
          else None)"

definition path_mtu_mismatch_rule :: "DiagnosisEvidence \<Rightarrow> Diagnosis option" where
  "path_mtu_mismatch_rule ev =
     (case (interface_mtu ev, icmp_mtu ev) of
        (Some ifmtu, Some icmp) \<Rightarrow>
          if icmp < ifmtu \<and> 50 < ifmtu - icmp
          then Some \<lparr>issue = PathMtuMismatch, severity = High,
        description = ''Path MTU ('' @ show_word icmp @ '' bytes) is lower than interface MTU ('' @ show_word ifmtu
        @ '' bytes). This can cause fragmentation or dropped packets.'',
        recommendation = ''Consider lowering interface MTU to '' @ show_word icmp @ '' bytes to match path MTU.'',
        related_tests = [''MTU Test'']\<rparr>
          else None
      | _ \<Rightarrow> None)"

definition port_blocking_rule :: "DiagnosisEvidence \<Rightarrow> Diagnosis option" where
  "port_blocking_rule ev =
     (case ping_success ev of
        None \<Rightarrow> None
      | Some ping_ok \<Rightarrow>
          if ping_ok \<and> \<not> unwrap_or (tcp_connect_success ev) True
          then Some \<lparr>issue = PortBlocking, severity = High,
        description = ''Port blocking detected. ICMP (ping) succeeds but TCP connection fails. This indicates a firewall is blocking TCP traffic while allowing ICMP.'',
        recommendation = ''Check firewall rules:'' @ [CHR 0x0A] @ ''- Verify target firewall allows TCP on the tested port''
        @ [CHR 0x0A] @ ''- Check intermediate firewalls/routers'' @ [CHR 0x0A]
        @ ''- Try different ports (80, 443, 8080)'' @ [CHR 0x0A]
        @ ''- Contact network administrator if persistent'',
        related_tests = [''Packet Loss Test'', ''TCP Health Test'']\<rparr>
          else None)"

definition dns_issues_rule :: "DiagnosisEvidence \<Rightarrow> Diagnosis option" where
  "dns_issues_rule ev =
     (if dns_success ev = Some False
      then Some \<lparr>issue = DnsFailure, severity = Critical,
        description = ''DNS resolution failed. Unable to resolve hostname to IP address.'',
        recommendation = ''DNS troubleshooting steps:'' @ [CHR 0x0A]
        @ ''- Check /etc/resolv.conf (Linux/macOS) or DNS settings (Windows)'' @ [CHR 0x0A]
        @ ''- Try alternative DNS servers: 1.1.1.1 (Cloudflare), 8.8.8.8 (Google)'' @ [CHR 0x0A]
        @ ''- Verify network connectivity'' @ [CHR 0x0A] @ ''- Check if hostname is correct'' @ [CHR 0x0A]
        @ ''- Test with: dig <hostname> or nslookup <hostname>'',
        related_tests = [''DNS Test'']\<rparr>
      else case dns_resolution_time_ms ev of
        None \<Rightarrow> None
      | Some t \<Rightarrow>
          if f64_lt (Fin 1000) t
          then Some \<lparr>issue = DnsFailure, severity = Medium,
        description = ''Slow DNS resolution detected ('' @ fmt_prec 0 t
        @ ''ms). This can significantly impact application performance.'',
        recommendation = ''Improve DNS performance:'' @ [CHR 0x0A] @ ''- Switch to faster DNS servers (current: ''
        @ fmt_prec 0 t @ ''ms)'' @ [CHR 0x0A] @ ''- Try 1.1.1.1 (Cloudflare) or 8.8.8.8 (Google)''
        @ [CHR 0x0A] @ ''- Check local DNS cache'' @ [CHR 0x0A] @ ''- Verify DNS server is not overloaded'',
        related_tests = [''DNS Test'']\<rparr>
          else None)"

definition tcp_segmentation_limit_rule :: "DiagnosisEvidence \<Rightarrow> Diagnosis option" where
  "tcp_segmentation_limit_rule ev =
     (case tcp_segment_limit ev of
        None \<Rightarrow> None
      | Some l \<Rightarrow>
          if l < 1000
          then Some \<lparr>issue = TcpSegmentationLimit, severity = High,
        description = ''Artificial TCP segment size limit detected ('' @ show_word l
        @ '' bytes). A firewall or middlebox is limiting TCP segment sizes, which severely impacts performance.'',
        recommendation = ''Address TCP segmentation restriction:'' @ [CHR 0x0A]
        @ ''- Check firewall rules for TCP segment size limits'' @ [CHR 0x0A]
        @ ''- Review DPI (Deep Packet Inspection) settings'' @ [CHR 0x0A]
        @ ''- Contact ISP if using VPN or proxy'' @ [CHR 0x0A] @ ''- Current limit: '' @ show_word l
        @ '' bytes (normal: ~1460 bytes)'',
        related_tests = [''TCP Segmentation Test'', ''TCP Health Test'']\<rparr>
          else None)"

definition threshold_new :: "string \<Rightarrow> CompareOp \<Rightarrow> f64 \<Rightarrow> CompareOp \<Rightarrow> f64 \<Rightarrow> ThresholdConfig" where
  "threshold_new l o1 v o2 c = \<lparr>tc_label = l, tc_op = o1, tc_value = v, clear_op = o2, clear_value = c\<rparr>"

definition packet_loss_profile :: ThresholdProfile where
  "packet_loss_profile = \<lparr>tp_name = ''packet_loss'', window_type = Measurements, tp_window = 5, window_function = ''avg'',
     thresholds = [threshold_new ''high'' Ge (Fin 10) Lt (Fin 8), threshold_new ''medium'' Ge (Fin 1) Lt (Fin (1 / 2))]\<rparr>"

definition latency_profile :: ThresholdProfile where
  "latency_profile = \<lparr>tp_name = ''latency'', window_type = Measurements, tp_window = 5, window_function = ''avg'',
     thresholds = [threshold_new ''medium'' Gt (Fin 200) Le (Fin 180)]\<rparr>"

text \<open>\<open>evaluate(..).ok().flatten()\<close>; the averages of the two profiles do not panic.\<close>

definition evaluate_ok :: "ThresholdProfile \<Rightarrow> Sample list \<Rightarrow> (f64 \<times> ThresholdConfig) option" where
  "evaluate_ok p samples = (case profile_evaluate p samples of Ret (Inr r) \<Rightarrow> r | _ \<Rightarrow> None)"

definition rule_samples :: "Sample list \<Rightarrow> f64 option \<Rightarrow> Sample list option" where
  "rule_samples samples scalar = (if samples \<noteq> [] then Some samples else map_option (\<lambda>v. [(0, v)]) scalar)"

definition high_packet_loss_rule :: "DiagnosisEvidence \<Rightarrow> Diagnosis option" where
  "high_packet_loss_rule ev =
     (case rule_samples (packet_loss_samples ev) (packet_loss_percent ev) of
        None \<Rightarrow> None
      | Some samples \<Rightarrow>
          (case evaluate_ok packet_loss_profile samples of
             None \<Rightarrow> None
           | Some (loss_percent, matched) \<Rightarrow>
               if tc_label matched = ''high''
               then Some \<lparr>issue = PacketLoss, severity = High,
        description = ''High packet loss detected ('' @ fmt_prec 1 loss_percent @ [CHR 0x25]
        @ ''). This will significantly impact application performance.'',
        recommendation = ''Investigate packet loss:'' @ [CHR 0x0A] @ ''- Check physical cable connections'' @ [CHR 0x0A]
        @ ''- Test with different network interfaces'' @ [CHR 0x0A] @ ''- Check for network congestion''
        @ [CHR 0x0A] @ ''- Run path analysis to identify problematic hop'' @ [CHR 0x0A]
        @ ''- Contact ISP if issue persists'',
        related_tests = [''Packet Loss Test'', ''Path Analysis Test'']\<rparr>
               else Some \<lparr>issue = PacketLoss, severity = Medium,
        description = ''Moderate packet loss detected ('' @ fmt_prec 1 loss_percent @ [CHR 0x25]
        @ ''). May affect real-time applications.'',
        recommendation = ''Monitor packet loss:'' @ [CHR 0x0A] @ ''- Continue monitoring'' @ [CHR 0x0A]
        @ ''- May affect VoIP, video conferencing'' @ [CHR 0x0A] @ ''- Consider running path analysis'',
        related_tests = [''Packet Loss Test'', ''Path Analysis Test'']\<rparr>))"

definition high_latency_rule :: "DiagnosisEvidence \<Rightarrow> Diagnosis option" where
  "high_latency_rule ev =
     (case rule_samples (rtt_samples ev) (rtt_ms ev) of
        None \<Rightarrow> None
      | Some samples \<Rightarrow>
          (case evaluate_ok latency_profile samples of
             None \<Rightarrow> None
           | Some (rtt, matched) \<Rightarrow>
               Some \<lparr>issue = HighLatency, severity = Medium,
        description = ''High latency detected ('' @ fmt_prec 1 rtt @ ''ms). This may impact interactive applications.'',
        recommendation = ''Reduce latency:'' @ [CHR 0x0A] @ ''- Check for network congestion'' @ [CHR 0x0A]
        @ ''- Use closer/faster DNS servers'' @ [CHR 0x0A] @ ''- Consider CDN for content delivery''
        @ [CHR 0x0A] @ ''- Run path analysis to find slow hops'' @ [CHR 0x0A] @ ''- Current RTT: ''
        @ fmt_prec 1 rtt @ ''ms (good: <50ms, acceptable: <150ms)'',
        related_tests = [''RTT Test'', ''Path Analysis Test'']\<rparr>))"

text \<open>\<open>{:?}\<close> of a vector of sizes\<close>

definition show_sizes :: "u64 list \<Rightarrow> string" where
  "show_sizes xs = ''['' @ join '', '' (map show_word xs) @ '']''"

definition score_step :: "bool \<Rightarrow> nat \<Rightarrow> string \<Rightarrow> nat \<times> string list \<Rightarrow> nat \<times> string list" where
  "score_step c n msg st = (if c then (fst st + n, snd st @ [msg]) else st)"

definition unhealthy_path :: "DiagnosisEvidence \<Rightarrow> bool" where
  "unhealthy_path ev =
     (case https_result ev of
        None \<Rightarrow> False
      | Some h \<Rightarrow> tcp_success h \<and> diagnosis h \<in> {TlsTimeout, HttpResponseTimeout, MtuBlackholeConfirmed})"

definition score :: "DiagnosisEvidence \<Rightarrow> nat \<times> string list" where
  "score ev =
     (let mtu = option_or (icmp_mtu ev) (tcp_mtu ev);
          below = (\<lambda>n. case mtu of Some m \<Rightarrow> m < n | None \<Rightarrow> False);
          s0 = (0, []);
          s1 = score_step (below 1500) 2 (''Observed path MTU appears reduced: ~'' @ show_word (unwrap_or mtu 0)) s0;
          s2 = score_step (below 1400) 2 ''Path MTU low enough to strongly suspect tunnel overhead'' s1;
          s3 = score_step (unhealthy_path ev) 3 ''TCP connect succeeded but TLS/HTTP path looked unhealthy'' s2;
          s4 = score_step (upload_fail_sizes ev \<noteq> []) 3
                 (''HTTP POST upload showed trouble at sizes: '' @ show_sizes (upload_fail_sizes ev)) s3;
          s5 = score_step (ssh_banner_ok ev = Some True \<and> ssh_exec_ok ev = Some False) 3
                 ''SSH banner reachable but authenticated data-path test did not complete'' s4;
          s6 = score_step (printer_fail_sizes ev \<noteq> []) 3
                 (''Raw printer bulk stream showed failures at sizes: '' @ show_sizes (printer_fail_sizes ev)) s5
      in score_step (icmp_frag_needed_received ev = Some True) 2 ''ICMP fragmentation-needed responses observed'' s6)"

definition severity_for_score :: "nat \<Rightarrow> Severity" where
  "severity_for_score n = (if 6 \<le> n then Critical else if 3 \<le> n then High else Info)"

definition bullet_lines :: "string list \<Rightarrow> string" where
  "bullet_lines fs = concat (map (\<lambda>f. ''- '' @ f @ [CHR 0x0A]) fs)"

definition blackhole_score_rule :: "DiagnosisEvidence \<Rightarrow> Diagnosis option" where
  "blackhole_score_rule ev =
     (case score ev of (n, findings) \<Rightarrow>
        if findings = [] \<and> n = 0 then None
        else
          let sev = severity_for_score n;
              verdict = (case sev of Critical \<Rightarrow> ''high'' | High \<Rightarrow> ''moderate'' | _ \<Rightarrow> ''low'')
          in Some \<lparr>issue = BlackholeScore, severity = sev,
        description = ''Aggregated blackhole score '' @ show_nat n @ '' ('' @ verdict @ '' likelihood). Findings:''
        @ [CHR 0x0A] @ bullet_lines findings,
        recommendation = ''Compare against MTU tests and upload sweep before changing MTU. For tunnels, clamp MSS conservatively (max(1200, MSS-20)).'',
        related_tests = [''HTTPS Test'', ''Upload Size Sweep'', ''SSH Data-Path'', ''Raw 9100 Bulk Sweep'', ''ICMP MTU Discovery'']\<rparr>)"

section \<open>The engine\<close>

definition engine_rules :: "(DiagnosisEvidence \<Rightarrow> Diagnosis option) list" where
  "engine_rules = [mtu_blackhole_rule, path_mtu_mismatch_rule, port_blocking_rule, dns_issues_rule,
     tcp_segmentation_limit_rule, high_packet_loss_rule, high_latency_rule, blackhole_score_rule]"

text \<open>\<open>sort_by(|a, b| b.severity.cmp(&a.severity))\<close>: a stable sort by descending severity value.\<close>

definition sort_diagnoses :: "Diagnosis list \<Rightarrow> Diagnosis list" where
  "sort_diagnoses ds = sort_key (\<lambda>d. 4 - severity_rank (severity d)) ds"

definition diagnose :: "DiagnosisEvidence \<Rightarrow> Diagnosis list" where
  "diagnose ev = sort_diagnoses (filter_map (\<lambda>r. r ev) engine_rules)"

fun show_severity :: "Severity \<Rightarrow> string" where
  "show_severity Critical = ''Critical''"
| "show_severity High = ''High''"
| "show_severity Medium = ''Medium''"
| "show_severity Low = ''Low''"
| "show_severity Info = ''Info''"

fun show_issue :: "DiagnosisIssue \<Rightarrow> string" where
  "show_issue MtuBlackhole = ''MtuBlackhole''"
| "show_issue TcpSegmentationLimit = ''TcpSegmentationLimit''"
| "show_issue DnsFailure = ''DnsFailure''"
| "show_issue PortBlocking = ''PortBlocking''"
| "show_issue HighLatency = ''HighLatency''"
| "show_issue PacketLoss = ''PacketLoss''"
| "show_issue PathMtuMismatch = ''PathMtuMismatch''"
| "show_issue BlackholeScore = ''BlackholeScore''"

definition saturating_sub :: "u64 \<Rightarrow> u64 \<Rightarrow> u64" where
  "saturating_sub a b = (if a < b then 0 else a - b)"

definition nl :: string where "nl = [CHR 0x0A]"

definition render_unified_report :: "Diagnosis list \<Rightarrow> DiagnosisEvidence \<Rightarrow> string" where
  "render_unified_report diagnoses ev =
     (case score ev of (n, findings) \<Rightarrow>
        ''=== Findings ==='' @ nl
        @ (if findings = [] then ''- No strong blackhole indicators found from these probes'' @ nl else bullet_lines findings)
        @ nl @ ''=== Interpretation ==='' @ nl
        @ (if 6 \<le> n then ''LIKELY_MTU_OR_MSS_BLACKHOLE=high''
           else if 3 \<le> n then ''LIKELY_MTU_OR_MSS_BLACKHOLE=moderate'' else ''LIKELY_MTU_OR_MSS_BLACKHOLE=low'') @ nl
        @ (case option_or (icmp_mtu ev) (tcp_mtu ev) of
             None \<Rightarrow> []
           | Some mtu \<Rightarrow>
               let mss_v4 = saturating_sub mtu 40;
                   conservative = max (saturating_sub mss_v4 20) 1200
               in ''SUGGESTED_BASE_MSS_IPV4='' @ show_word mss_v4 @ nl
                  @ ''SUGGESTED_CONSERVATIVE_CLAMP='' @ show_word conservative @ nl)
        @ (if diagnoses = [] then []
           else nl @ ''=== Ranked Diagnoses ==='' @ nl
             @ concat (map (\<lambda>d. ''- ['' @ show_severity (severity d) @ ''] '' @ show_issue (issue d) @ '': ''
                 @ (case lines (description d) of l # _ \<Rightarrow> l | [] \<Rightarrow> []) @ nl) diagnoses))
        @ nl @ ''=== Notes ==='' @ nl
        @ ''- This score is heuristic, not proof.'' @ nl
        @ ''- Strongest evidence: small/control traffic works but larger transfers stall.'' @ nl
        @ ''- If a VPN is involved, clamp slightly below the theoretical max.'' @ nl)"

section \<open>When each rule fires\<close>

lemma mtu_blackhole_iff:
  "(mtu_blackhole_rule ev \<noteq> None \<longleftrightarrow> (\<exists>h. https_result ev = Some h \<and> tcp_success h \<and> diagnosis h = TlsTimeout
      \<and> 1500 \<le> unwrap_or (interface_mtu ev) 0))
   \<and> (mtu_blackhole_rule ev = Some d \<longrightarrow> issue d = MtuBlackhole)"
  by (auto simp: mtu_blackhole_rule_def Let_def split: option.splits if_splits)

lemma path_mtu_mismatch_iff:
  "(path_mtu_mismatch_rule ev \<noteq> None \<longleftrightarrow> (\<exists>a b. interface_mtu ev = Some a \<and> icmp_mtu ev = Some b \<and> b < a \<and> 50 < a - b))
   \<and> (path_mtu_mismatch_rule ev = Some d \<longrightarrow> issue d = PathMtuMismatch)"
  by (auto simp: path_mtu_mismatch_rule_def split: option.splits if_splits)

lemma port_blocking_iff:
  "(port_blocking_rule ev \<noteq> None \<longleftrightarrow> ping_success ev = Some True \<and> tcp_connect_success ev = Some False)
   \<and> (port_blocking_rule ev = Some d \<longrightarrow> issue d = PortBlocking)"
  by (auto simp: port_blocking_rule_def unwrap_or_def split: option.splits if_splits)

lemma dns_issues_iff:
  "(dns_issues_rule ev \<noteq> None \<longleftrightarrow>
      dns_success ev = Some False \<or> (\<exists>t. dns_resolution_time_ms ev = Some t \<and> f64_lt (Fin 1000) t))
   \<and> (dns_issues_rule ev = Some d \<longrightarrow> issue d = DnsFailure)"
  by (auto simp: dns_issues_rule_def split: option.splits if_splits)

lemma tcp_segmentation_iff:
  "(tcp_segmentation_limit_rule ev \<noteq> None \<longleftrightarrow> (\<exists>l. tcp_segment_limit ev = Some l \<and> l < 1000))
   \<and> (tcp_segmentation_limit_rule ev = Some d \<longrightarrow> issue d = TcpSegmentationLimit)"
  by (auto simp: tcp_segmentation_limit_rule_def split: option.splits if_splits)

text \<open>The average of the last five samples of an average profile.\<close>

lemma avg_profile_value:
  assumes "window_function p = ''avg''"
  shows "aggregate p ss = Ret (Inr (avg (select_window p ss)))"
  using assms by (simp add: aggregate_def window_apply_def)

definition recent_average :: "Sample list \<Rightarrow> f64 option" where
  "recent_average ss = avg (drop (length ss - 5) (sort_key fst ss))"

lemma profile_average: "aggregate packet_loss_profile ss = Ret (Inr (recent_average ss))"
  "aggregate latency_profile ss = Ret (Inr (recent_average ss))"
  by (simp_all add: avg_profile_value packet_loss_profile_def latency_profile_def select_window_def recent_average_def)

lemma f64_le_weaken: "f64_le (Fin 10) v \<Longrightarrow> f64_le (Fin 1) v"
  by (erule f64_le_trans[rotated]) simp

lemma evaluate_packet_loss:
  "evaluate_ok packet_loss_profile ss =
     (case recent_average ss of
        None \<Rightarrow> None
      | Some v \<Rightarrow> if f64_le (Fin 10) v then Some (v, threshold_new ''high'' Ge (Fin 10) Lt (Fin 8))
                else if f64_le (Fin 1) v then Some (v, threshold_new ''medium'' Ge (Fin 1) Lt (Fin (1 / 2))) else None)"
  unfolding evaluate_ok_def profile_evaluate_def profile_average
  by (auto simp: packet_loss_profile_def is_open_match_def threshold_new_def split: option.splits)

lemma evaluate_latency:
  "evaluate_ok latency_profile ss =
     (case recent_average ss of
        None \<Rightarrow> None
      | Some v \<Rightarrow> if f64_lt (Fin 200) v then Some (v, threshold_new ''medium'' Gt (Fin 200) Le (Fin 180)) else None)"
  unfolding evaluate_ok_def profile_evaluate_def profile_average
  by (auto simp: latency_profile_def is_open_match_def threshold_new_def split: option.splits)

definition measured :: "Sample list \<Rightarrow> f64 option \<Rightarrow> f64 option" where
  "measured samples scalar = Option.bind (rule_samples samples scalar) recent_average"

lemma packet_loss_rule_eq:
  "map_option severity (high_packet_loss_rule ev) =
     (case measured (packet_loss_samples ev) (packet_loss_percent ev) of
        None \<Rightarrow> None
      | Some v \<Rightarrow> if f64_le (Fin 10) v then Some High else if f64_le (Fin 1) v then Some Medium else None)"
  by (auto simp: high_packet_loss_rule_def evaluate_packet_loss measured_def threshold_new_def split: option.splits)

lemma packet_loss_issue: "high_packet_loss_rule ev = Some d \<Longrightarrow> issue d = PacketLoss"
  by (auto simp: high_packet_loss_rule_def split: option.splits if_splits)

lemma latency_rule_eq:
  "map_option severity (high_latency_rule ev) =
     (case measured (rtt_samples ev) (rtt_ms ev) of None \<Rightarrow> None | Some v \<Rightarrow> if f64_lt (Fin 200) v then Some Medium else None)"
  by (auto simp: high_latency_rule_def evaluate_latency measured_def split: option.splits)

lemma latency_issue: "high_latency_rule ev = Some d \<Longrightarrow> issue d = HighLatency"
  by (auto simp: high_latency_rule_def split: option.splits if_splits)

lemma packet_loss_iff:
  "high_packet_loss_rule ev \<noteq> None \<longleftrightarrow>
     (\<exists>v. measured (packet_loss_samples ev) (packet_loss_percent ev) = Some v \<and> f64_le (Fin 1) v)"
  using packet_loss_rule_eq[of ev] f64_le_weaken by (cases "high_packet_loss_rule ev") (auto split: option.splits if_splits)

lemma latency_iff:
  "high_latency_rule ev \<noteq> None \<longleftrightarrow> (\<exists>v. measured (rtt_samples ev) (rtt_ms ev) = Some v \<and> f64_lt (Fin 200) v)"
  using latency_rule_eq[of ev] by (cases "high_latency_rule ev") (auto split: option.splits if_splits)

lemma score_step_ok:
  "(fst s = 0 \<longleftrightarrow> snd s = []) \<and> fst s \<le> k \<Longrightarrow> 0 < n
   \<Longrightarrow> (fst (score_step c n m s) = 0 \<longleftrightarrow> snd (score_step c n m s) = []) \<and> fst (score_step c n m s) \<le> k + n"
  by (simp add: score_step_def)

lemma score_findings: "(fst (score ev) = 0 \<longleftrightarrow> snd (score ev) = []) \<and> fst (score ev) \<le> 18"
proof -
  have "(fst (score ev) = 0 \<longleftrightarrow> snd (score ev) = []) \<and> fst (score ev) \<le> 0 + 2 + 2 + 3 + 3 + 3 + 3 + 2"
    unfolding score_def Let_def by (intro score_step_ok) simp_all
  then show ?thesis by simp
qed

lemma blackhole_score_iff:
  "(blackhole_score_rule ev \<noteq> None \<longleftrightarrow> fst (score ev) \<noteq> 0)
   \<and> (blackhole_score_rule ev = Some d \<longrightarrow> issue d = BlackholeScore \<and> severity d = severity_for_score (fst (score ev)))"
  using score_findings[of ev] by (auto simp: blackhole_score_rule_def Let_def split: prod.splits if_splits)

lemmas rule_iffs = mtu_blackhole_iff path_mtu_mismatch_iff port_blocking_iff dns_issues_iff tcp_segmentation_iff
  packet_loss_iff latency_iff blackhole_score_iff

lemma rule_issues:
  "mtu_blackhole_rule ev = Some d \<Longrightarrow> issue d = MtuBlackhole"
  "path_mtu_mismatch_rule ev = Some d \<Longrightarrow> issue d = PathMtuMismatch"
  "port_blocking_rule ev = Some d \<Longrightarrow> issue d = PortBlocking"
  "dns_issues_rule ev = Some d \<Longrightarrow> issue d = DnsFailure"
  "tcp_segmentation_limit_rule ev = Some d \<Longrightarrow> issue d = TcpSegmentationLimit"
  "blackhole_score_rule ev = Some d \<Longrightarrow> issue d = BlackholeScore"
  using rule_iffs by metis+

definition engine_issues :: "DiagnosisEvidence \<Rightarrow> DiagnosisIssue list" where
  "engine_issues ev =
     (if mtu_blackhole_rule ev = None then [] else [MtuBlackhole])
     @ (if path_mtu_mismatch_rule ev = None then [] else [PathMtuMismatch])
     @ (if port_blocking_rule ev = None then [] else [PortBlocking])
     @ (if dns_issues_rule ev = None then [] else [DnsFailure])
     @ (if tcp_segmentation_limit_rule ev = None then [] else [TcpSegmentationLimit])
     @ (if high_packet_loss_rule ev = None then [] else [PacketLoss])
     @ (if high_latency_rule ev = None then [] else [HighLatency])
     @ (if blackhole_score_rule ev = None then [] else [BlackholeScore])"

lemma engine_issues_eq: "map issue (filter_map (\<lambda>r. r ev) engine_rules) = engine_issues ev"
  unfolding engine_rules_def engine_issues_def
  by (simp only: filter_map.simps map_append list.map append_Nil append_Nil2 append_Cons split: option.split)
     (simp add: rule_issues packet_loss_issue latency_issue split: option.splits)

lemma diagnose_mset: "mset (map issue (diagnose ev)) = mset (engine_issues ev)"
  by (simp add: diagnose_def sort_diagnoses_def flip: engine_issues_eq)

lemma diagnose_issues: "set (map issue (diagnose ev)) = set (engine_issues ev)" "distinct (map issue (diagnose ev))"
proof -
  show "set (map issue (diagnose ev)) = set (engine_issues ev)" using diagnose_mset by (rule mset_eq_setD)
  have "distinct (engine_issues ev)" by (simp add: engine_issues_def)
  then show "distinct (map issue (diagnose ev))" using diagnose_mset mset_eq_imp_distinct_iff by metis
qed

lemma single_average: "f64_repr x \<Longrightarrow> recent_average [(t, x)] = Some x"
  by (simp add: recent_average_def avg_def f64_sum_def f64_add_zero f64_div_one f64_of_nat_def)

lemma repr_examples: "f64_repr (Fin 5)" "f64_repr (Fin 12)" "f64_repr (Fin 50)" "f64_repr (Fin 250)"
  using f64_repr_small[of 5] f64_repr_small[of 12] f64_repr_small[of 50] f64_repr_small[of 250] by simp_all

section \<open>Properties\<close>

text \<open>The engine reports each issue at most once, and exactly when its evidence is there: the
  conditions of the eight rules, with packet loss and latency read from the average of the five most recent
  samples, or from the single value when there are no samples.\<close>

theorem diagnose_exact:
  "distinct (map issue (diagnose ev))
   \<and> (MtuBlackhole \<in> issue ` set (diagnose ev) \<longleftrightarrow> (\<exists>h. https_result ev = Some h \<and> tcp_success h
        \<and> diagnosis h = TlsTimeout \<and> 1500 \<le> unwrap_or (interface_mtu ev) 0))
   \<and> (PathMtuMismatch \<in> issue ` set (diagnose ev) \<longleftrightarrow>
        (\<exists>a b. interface_mtu ev = Some a \<and> icmp_mtu ev = Some b \<and> b < a \<and> 50 < a - b))
   \<and> (PortBlocking \<in> issue ` set (diagnose ev) \<longleftrightarrow> ping_success ev = Some True \<and> tcp_connect_success ev = Some False)
   \<and> (DnsFailure \<in> issue ` set (diagnose ev) \<longleftrightarrow>
        dns_success ev = Some False \<or> (\<exists>t. dns_resolution_time_ms ev = Some t \<and> f64_lt (Fin 1000) t))
   \<and> (TcpSegmentationLimit \<in> issue ` set (diagnose ev) \<longleftrightarrow> (\<exists>l. tcp_segment_limit ev = Some l \<and> l < 1000))
   \<and> (PacketLoss \<in> issue ` set (diagnose ev) \<longleftrightarrow>
        (\<exists>v. measured (packet_loss_samples ev) (packet_loss_percent ev) = Some v \<and> f64_le (Fin 1) v))
   \<and> (HighLatency \<in> issue ` set (diagnose ev) \<longleftrightarrow>
        (\<exists>v. measured (rtt_samples ev) (rtt_ms ev) = Some v \<and> f64_lt (Fin 200) v))
   \<and> (BlackholeScore \<in> issue ` set (diagnose ev) \<longleftrightarrow> fst (score ev) \<noteq> 0)"
proof -
  have i: "x \<in> issue ` set (diagnose ev) \<longleftrightarrow> x \<in> set (engine_issues ev)" for x using diagnose_issues(1)[of ev] by simp
  have m: "(MtuBlackhole \<in> set (engine_issues ev)) = (mtu_blackhole_rule ev \<noteq> None)"
    "(PathMtuMismatch \<in> set (engine_issues ev)) = (path_mtu_mismatch_rule ev \<noteq> None)"
    "(PortBlocking \<in> set (engine_issues ev)) = (port_blocking_rule ev \<noteq> None)"
    "(DnsFailure \<in> set (engine_issues ev)) = (dns_issues_rule ev \<noteq> None)"
    "(TcpSegmentationLimit \<in> set (engine_issues ev)) = (tcp_segmentation_limit_rule ev \<noteq> None)"
    "(PacketLoss \<in> set (engine_issues ev)) = (high_packet_loss_rule ev \<noteq> None)"
    "(HighLatency \<in> set (engine_issues ev)) = (high_latency_rule ev \<noteq> None)"
    "(BlackholeScore \<in> set (engine_issues ev)) = (blackhole_score_rule ev \<noteq> None)"
    by (simp_all add: engine_issues_def)
  show ?thesis unfolding i m
    by (intro conjI diagnose_issues(2) mtu_blackhole_iff[THEN conjunct1] path_mtu_mismatch_iff[THEN conjunct1]
        port_blocking_iff[THEN conjunct1] dns_issues_iff[THEN conjunct1] tcp_segmentation_iff[THEN conjunct1]
        packet_loss_iff latency_iff blackhole_score_iff[THEN conjunct1])
qed

text \<open>A single packet-loss or latency value is judged exactly as by a comparison with the fixed
  thresholds: the average over a window of one sample is the sample, in binary64.\<close>

theorem single_sample_is_point_check:
  assumes "packet_loss_samples ev = []" and "packet_loss_percent ev = Some v" and "f64_repr v"
    and "rtt_samples ev = []" and "rtt_ms ev = Some r" and "f64_repr r"
  shows "map_option severity (high_packet_loss_rule ev) =
      (if f64_le (Fin 10) v then Some High else if f64_le (Fin 1) v then Some Medium else None)
    \<and> map_option severity (high_latency_rule ev) = (if f64_lt (Fin 200) r then Some Medium else None)"
  using assms by (simp add: packet_loss_rule_eq latency_rule_eq measured_def rule_samples_def single_average)

theorem single_sample_is_point_check_witness:
  "map_option severity (high_packet_loss_rule (no_evidence\<lparr>packet_loss_percent := Some (Fin 12), rtt_ms := Some (Fin 250)\<rparr>)) = Some High
   \<and> map_option severity (high_latency_rule (no_evidence\<lparr>packet_loss_percent := Some (Fin 12), rtt_ms := Some (Fin 250)\<rparr>)) = Some Medium"
  using single_sample_is_point_check[of "no_evidence\<lparr>packet_loss_percent := Some (Fin 12), rtt_ms := Some (Fin 250)\<rparr>" "Fin 12" "Fin 250"]
  by (simp add: no_evidence_def repr_examples)

text \<open>The diagnoses are the results of the rules, ordered with the least severe first: informational
  entries lead and critical ones come last.\<close>

theorem diagnoses_ranked_backwards:
  "mset (diagnose ev) = mset (filter_map (\<lambda>r. r ev) engine_rules)
   \<and> sorted_wrt (\<ge>) (map severity (diagnose ev))
   \<and> map severity (diagnose (no_evidence\<lparr>dns_success := Some False, rtt_ms := Some (Fin 250), icmp_mtu := Some 1450\<rparr>))
     = [Info, Medium, Critical]"
proof (intro conjI)
  show "mset (diagnose ev) = mset (filter_map (\<lambda>r. r ev) engine_rules)" by (simp add: diagnose_def sort_diagnoses_def)
  have le4: "severity_rank x \<le> 4" for x by (cases x) auto
  have "sorted (map (\<lambda>d. 4 - severity_rank (severity d)) (diagnose ev))" by (simp add: diagnose_def sort_diagnoses_def)
  then show "sorted_wrt (\<ge>) (map severity (diagnose ev))"
    unfolding sorted_wrt_map less_eq_Severity_def
    by (rule sorted_wrt_mono_rel[rotated]) (use le4 in \<open>simp add: le_diff_iff'\<close>)
  show "map severity (diagnose (no_evidence\<lparr>dns_success := Some False, rtt_ms := Some (Fin 250), icmp_mtu := Some 1450\<rparr>))
      = [Info, Medium, Critical]"
    by (simp add: diagnose_def sort_diagnoses_def engine_rules_def no_evidence_def mtu_blackhole_rule_def
        path_mtu_mismatch_rule_def port_blocking_rule_def dns_issues_rule_def tcp_segmentation_limit_rule_def
        high_packet_loss_rule_def high_latency_rule_def evaluate_latency rule_samples_def single_average repr_examples
        blackhole_score_rule_def score_def score_step_def option_or_def unhealthy_path_def severity_for_score_def)
qed

text \<open>The blackhole score is at most 18 and is zero exactly when there is no finding; the severity is
  critical from six points on, high from three, and informational below.\<close>

theorem blackhole_score_bounds:
  "fst (score ev) \<le> 18 \<and> (fst (score ev) = 0 \<longleftrightarrow> snd (score ev) = [])
   \<and> (blackhole_score_rule ev = Some d \<longrightarrow>
        (severity d = Critical \<longleftrightarrow> 6 \<le> fst (score ev)) \<and> (severity d = High \<longleftrightarrow> 3 \<le> fst (score ev) \<and> fst (score ev) < 6)
        \<and> (severity d = Info \<longleftrightarrow> fst (score ev) < 3))"
  using score_findings[of ev] blackhole_score_iff[of ev d] by (auto simp: severity_for_score_def)

theorem blackhole_score_bounds_witness:
  "map_option severity (blackhole_score_rule (no_evidence\<lparr>icmp_mtu := Some 1300, upload_fail_sizes := [1400]\<rparr>)) = Some Critical"
proof -
  let ?ev = "no_evidence\<lparr>icmp_mtu := Some 1300, upload_fail_sizes := [1400]\<rparr>"
  have s: "fst (score ?ev) = 7" by (simp add: score_def score_step_def no_evidence_def option_or_def unhealthy_path_def)
  then obtain d where d: "blackhole_score_rule ?ev = Some d" using blackhole_score_iff[of ?ev] by auto
  then show ?thesis using blackhole_score_bounds[of ?ev d] s by simp
qed

text \<open>An open rung is reported until it clears even when a more severe rung matches: after five percent
  of loss, fifty percent is still reported as medium, while a fresh evaluation reports it as high.\<close>

theorem open_rung_does_not_escalate:
  "map_option tc_label (map_option snd (evaluate_ok packet_loss_profile [(1, Fin 50)])) = Some ''high''
   \<and> fst (state_evaluate (state_after packet_loss_profile [[(0, Fin 5)]]) packet_loss_profile [(1, Fin 50)])
     = Ret (Inr (Some (Fin 50, threshold_new ''medium'' Ge (Fin 1) Lt (Fin (1 / 2)))))"
proof -
  have m: "matches Ge (Fin 5) (Fin 10) = False" "matches Ge (Fin 5) (Fin 1)" "matches Lt (Fin 50) (Fin (1 / 2)) = False"
    by (simp_all add: f64_le_def)
  have "open_index (state_after packet_loss_profile [[(0, Fin 5)]]) = Some 1"
    using state_step[of packet_loss_profile "[]" "[(0, Fin 5)]"] m
    by (simp add: window_value_def profile_average single_average repr_examples state_after_def state_new_def)
       (simp add: packet_loss_profile_def is_open_match_def threshold_new_def)
  then show ?thesis
    using m by (simp add: state_evaluate_def profile_average single_average repr_examples evaluate_packet_loss)
      (simp add: packet_loss_profile_def is_clear_match_def threshold_new_def Let_def)
qed

end
