(* ===== verification/Crypto_Min.thy ===== *)
theory Crypto_Min
  imports Bytes
begin

text \<open>
  \<open>network_tests/crypto_min.rs\<close>: MD5, SHA-1 and HMAC-SHA1 on 32-bit words. The loops are folds over the same
  index ranges, the arrays are lists updated by index. The second half states the functions as the standards
  do (RFC 1321, FIPS 180-4, RFC 2104) and proves that the code computes them.
\<close>

unbundle bit_operations_syntax

section \<open>The code\<close>

definition md5_S :: "nat list" where
  "md5_S =
    [7, 12, 17, 22, 7, 12, 17, 22, 7, 12, 17, 22, 7, 12, 17, 22,
     5, 9, 14, 20, 5, 9, 14, 20, 5, 9, 14, 20, 5, 9, 14, 20,
     4, 11, 16, 23, 4, 11, 16, 23, 4, 11, 16, 23, 4, 11, 16, 23,
     6, 10, 15, 21, 6, 10, 15, 21, 6, 10, 15, 21, 6, 10, 15, 21]"

definition md5_K :: "u32 list" where
  "md5_K =
    [0xd76aa478, 0xe8c7b756, 0x242070db, 0xc1bdceee, 0xf57c0faf, 0x4787c62a, 0xa8304613, 0xfd469501,
     0x698098d8, 0x8b44f7af, 0xffff5bb1, 0x895cd7be, 0x6b901122, 0xfd987193, 0xa679438e, 0x49b40821,
     0xf61e2562, 0xc040b340, 0x265e5a51, 0xe9b6c7aa, 0xd62f105d, 0x02441453, 0xd8a1e681, 0xe7d3fbc8,
     0x21e1cde6, 0xc33707d6, 0xf4d50d87, 0x455a14ed, 0xa9e3e905, 0xfcefa3f8, 0x676f02d9, 0x8d2a4c8a,
     0xfffa3942, 0x8771f681, 0x6d9d6122, 0xfde5380c, 0xa4beea44, 0x4bdecfa9, 0xf6bb4b60, 0xbebfbc70,
     0x289b7ec6, 0xeaa127fa, 0xd4ef3085, 0x04881d05, 0xd9d4d039, 0xe6db99e5, 0x1fa27cf8, 0xc4ac5665,
     0xf4292244, 0x432aff97, 0xab9423a7, 0xfc93a039, 0x655b59c3, 0x8f0ccc92, 0xffeff47d, 0x85845dd1,
     0x6fa87e4f, 0xfe2ce6e0, 0xa3014314, 0x4e0811a1, 0xf7537e82, 0xbd3af235, 0x2ad7d2bb, 0xeb86d391]"

text \<open>The number of zero bytes up to 56 modulo 64.\<close>

definition pad_need :: "nat \<Rightarrow> nat" where
  "pad_need r = (if r \<le> 56 then 56 - r else 120 - r)"

lemma pad_need_Suc: "r < 64 \<Longrightarrow> r \<noteq> 56 \<Longrightarrow> pad_need r = Suc (pad_need (if Suc r = 64 then 0 else Suc r))"
  by (auto simp: pad_need_def)

function pad_zero :: "bytes \<Rightarrow> bytes" where
  "pad_zero msg = (if length msg mod 64 \<noteq> 56 then pad_zero (msg @ [0]) else msg)"
  by pat_completeness auto
termination
proof (relation "measure (\<lambda>msg. pad_need (length msg mod 64))")
  fix msg :: bytes assume "length msg mod 64 \<noteq> 56"
  then show "(msg @ [0], msg) \<in> measure (\<lambda>msg. pad_need (length msg mod 64))"
    using pad_need_Suc[of "length msg mod 64"] by (simp add: mod_Suc)
qed simp

declare pad_zero.simps [simp del]

definition md5_padded :: "bytes \<Rightarrow> bytes" where
  "md5_padded input = pad_zero (input @ [0x80]) @ le64 (of_nat (length input) * 8)"

definition md5_words :: "bytes \<Rightarrow> u32 list" where
  "md5_words chunk = map (\<lambda>i. of_le32 (chunk ! (i * 4)) (chunk ! (i * 4 + 1)) (chunk ! (i * 4 + 2)) (chunk ! (i * 4 + 3))) [0 ..< 16]"

type_synonym md5_state = "u32 \<times> u32 \<times> u32 \<times> u32"

definition md5_round :: "u32 list \<Rightarrow> md5_state \<Rightarrow> nat \<Rightarrow> md5_state" where
  "md5_round m st i =
     (case st of (a, b, c, d) \<Rightarrow>
        let (f, g) = (if i < 16 then ((b AND c) OR (NOT b AND d), i)
                      else if i < 32 then ((d AND b) OR (NOT d AND c), (5 * i + 1) mod 16)
                      else if i < 48 then (b XOR c XOR d, (3 * i + 5) mod 16)
                      else (c XOR (b OR NOT d), (7 * i) mod 16));
            f' = f + a + md5_K ! i + m ! g
        in (d, b + word_rotl (md5_S ! i) f', b, c))"

definition md5_block :: "md5_state \<Rightarrow> bytes \<Rightarrow> md5_state" where
  "md5_block st chunk =
     (case st of (a0, b0, c0, d0) \<Rightarrow>
        case foldl (md5_round (md5_words chunk)) (a0, b0, c0, d0) [0 ..< 64] of
          (a, b, c, d) \<Rightarrow> (a0 + a, b0 + b, c0 + c, d0 + d))"

definition md5 :: "bytes \<Rightarrow> bytes" where
  "md5 input =
     (case foldl md5_block (0x67452301, 0xefcdab89, 0x98badcfe, 0x10325476) (chunks 64 (md5_padded input)) of
        (a0, b0, c0, d0) \<Rightarrow> le32 a0 @ le32 b0 @ le32 c0 @ le32 d0)"

definition sha1_padded :: "bytes \<Rightarrow> bytes" where
  "sha1_padded input = pad_zero (input @ [0x80]) @ be64 (of_nat (length input) * 8)"

definition sha1_load :: "bytes \<Rightarrow> u32 list" where
  "sha1_load chunk =
     foldl (\<lambda>w i. w[i := of_be32 (chunk ! (i * 4)) (chunk ! (i * 4 + 1)) (chunk ! (i * 4 + 2)) (chunk ! (i * 4 + 3))])
       (replicate 80 0) [0 ..< 16]"

definition sha1_schedule :: "bytes \<Rightarrow> u32 list" where
  "sha1_schedule chunk =
     foldl (\<lambda>w i. w[i := word_rotl 1 (w ! (i - 3) XOR w ! (i - 8) XOR w ! (i - 14) XOR w ! (i - 16))])
       (sha1_load chunk) [16 ..< 80]"

type_synonym sha1_state = "u32 \<times> u32 \<times> u32 \<times> u32 \<times> u32"

definition sha1_round :: "sha1_state \<Rightarrow> nat \<times> u32 \<Rightarrow> sha1_state" where
  "sha1_round st iw =
     (case (st, iw) of ((a, b, c, d, e), (i, wi)) \<Rightarrow>
        let (f, k) = (if i < 20 then ((b AND c) OR (NOT b AND d), 0x5A827999)
                      else if i < 40 then (b XOR c XOR d, 0x6ED9EBA1)
                      else if i < 60 then ((b AND c) OR (b AND d) OR (c AND d), 0x8F1BBCDC)
                      else (b XOR c XOR d, 0xCA62C1D6));
            temp = word_rotl 5 a + f + e + k + wi
        in (temp, a, word_rotl 30 b, c, d))"

definition sha1_block :: "sha1_state \<Rightarrow> bytes \<Rightarrow> sha1_state" where
  "sha1_block st chunk =
     (case st of (h0, h1, h2, h3, h4) \<Rightarrow>
        case foldl sha1_round (h0, h1, h2, h3, h4) (enumerate 0 (sha1_schedule chunk)) of
          (a, b, c, d, e) \<Rightarrow> (h0 + a, h1 + b, h2 + c, h3 + d, h4 + e))"

definition sha1 :: "bytes \<Rightarrow> bytes" where
  "sha1 input =
     (case foldl sha1_block (0x67452301, 0xEFCDAB89, 0x98BADCFE, 0x10325476, 0xC3D2E1F0) (chunks 64 (sha1_padded input)) of
        (h0, h1, h2, h3, h4) \<Rightarrow> be32 h0 @ be32 h1 @ be32 h2 @ be32 h3 @ be32 h4)"

definition copy_into :: "bytes \<Rightarrow> bytes \<Rightarrow> bytes" where
  "copy_into block xs = xs @ drop (length xs) block"

definition hmac_sha1 :: "bytes \<Rightarrow> bytes \<Rightarrow> bytes" where
  "hmac_sha1 key message =
     (let key_block = (if 64 < length key then copy_into (replicate 64 0) (sha1 key) else copy_into (replicate 64 0) key);
          ipad = map (\<lambda>i. replicate 64 0x36 ! i XOR key_block ! i) [0 ..< 64];
          opad = map (\<lambda>i. replicate 64 0x5c ! i XOR key_block ! i) [0 ..< 64];
          inner_hash = sha1 (ipad @ message)
      in sha1 (opad @ inner_hash))"

section \<open>Padding\<close>

lemma pad_zero_eq: "pad_zero msg = msg @ replicate (pad_need (length msg mod 64)) 0"
proof (induction msg rule: pad_zero.induct)
  case (1 msg)
  show ?case
  proof (cases "length msg mod 64 = 56")
    case True
    then show ?thesis by (simp add: pad_zero.simps[of msg] pad_need_def)
  next
    case False
    have "length (msg @ [0::u8]) mod 64 = (if Suc (length msg mod 64) = 64 then 0 else Suc (length msg mod 64))"
      by (simp add: mod_Suc)
    then have "pad_need (length msg mod 64) = Suc (pad_need (length (msg @ [0::u8]) mod 64))"
      using pad_need_Suc[of "length msg mod 64"] False by simp
    then show ?thesis using 1[OF False] False by (simp add: pad_zero.simps[of msg])
  qed
qed

text \<open>The least number of zeros after the single one bit, as the standards say.\<close>

definition std_zeros :: "nat \<Rightarrow> nat" where
  "std_zeros l = (LEAST k. (l + 1 + k) mod 64 = 56)"

lemma pad_need_mod: "(n + pad_need (n mod 64)) mod 64 = 56"
proof -
  have "n mod 64 < 64" by simp
  then have "(r + pad_need r) mod 64 = 56" if "r = n mod 64" for r using that by (auto simp: pad_need_def)
  then show ?thesis by (metis mod_add_left_eq)
qed

lemma pad_need_least:
  assumes "(n + k) mod 64 = 56"
  shows "pad_need (n mod 64) \<le> k"
proof (rule ccontr)
  assume "\<not> pad_need (n mod 64) \<le> k"
  moreover have "n mod 64 < 64" by simp
  moreover have "(n mod 64 + k) mod 64 = 56" using assms by (simp add: mod_simps)
  ultimately show "False"
    by (cases "n mod 64 + k < 64") (auto simp: pad_need_def le_mod_geq split: if_splits)
qed

lemma std_zeros_eq: "std_zeros l = pad_need (Suc l mod 64)"
  unfolding std_zeros_def by (rule Least_equality) (use pad_need_mod[of "Suc l"] pad_need_least[of "Suc l"] in auto)

section \<open>SHA-1 as in FIPS 180-4\<close>

definition Ch :: "u32 \<Rightarrow> u32 \<Rightarrow> u32 \<Rightarrow> u32" where "Ch x y z = (x AND y) XOR (NOT x AND z)"
definition Parity :: "u32 \<Rightarrow> u32 \<Rightarrow> u32 \<Rightarrow> u32" where "Parity x y z = x XOR y XOR z"
definition Maj :: "u32 \<Rightarrow> u32 \<Rightarrow> u32 \<Rightarrow> u32" where "Maj x y z = (x AND y) XOR (x AND z) XOR (y AND z)"

definition fips_f :: "nat \<Rightarrow> u32 \<Rightarrow> u32 \<Rightarrow> u32 \<Rightarrow> u32" where
  "fips_f t = (if t < 20 then Ch else if t < 40 then Parity else if t < 60 then Maj else Parity)"

definition fips_K :: "nat \<Rightarrow> u32" where
  "fips_K t = (if t < 20 then 0x5A827999 else if t < 40 then 0x6ED9EBA1 else if t < 60 then 0x8F1BBCDC else 0xCA62C1D6)"

fun fips_W :: "(nat \<Rightarrow> u32) \<Rightarrow> nat \<Rightarrow> u32" where
  "fips_W M t =
     (if t < 16 then M t
      else word_rotl 1 (fips_W M (t - 3) XOR fips_W M (t - 8) XOR fips_W M (t - 14) XOR fips_W M (t - 16)))"

declare fips_W.simps [simp del]

fun fips_rounds :: "(nat \<Rightarrow> u32) \<Rightarrow> sha1_state \<Rightarrow> nat \<Rightarrow> sha1_state" where
  "fips_rounds M H 0 = H"
| "fips_rounds M H (Suc t) =
     (case fips_rounds M H t of (a, b, c, d, e) \<Rightarrow>
        (word_rotl 5 a + fips_f t b c d + e + fips_K t + fips_W M t, a, word_rotl 30 b, c, d))"

definition block_word :: "bytes \<Rightarrow> nat \<Rightarrow> u32" where
  "block_word blk i = of_be32 (blk ! (4 * i)) (blk ! (4 * i + 1)) (blk ! (4 * i + 2)) (blk ! (4 * i + 3))"

definition fips_step :: "sha1_state \<Rightarrow> bytes \<Rightarrow> sha1_state" where
  "fips_step H blk =
     (case (H, fips_rounds (block_word blk) H 80) of ((h0, h1, h2, h3, h4), (a, b, c, d, e)) \<Rightarrow>
        (a + h0, b + h1, c + h2, d + h3, e + h4))"

definition fips_sha1 :: "bytes \<Rightarrow> bytes" where
  "fips_sha1 M =
     (let P = M @ [0x80] @ replicate (std_zeros (length M)) 0 @ be64 (of_nat (8 * length M))
      in case foldl fips_step (0x67452301, 0xEFCDAB89, 0x98BADCFE, 0x10325476, 0xC3D2E1F0) (chunks 64 P) of
           (h0, h1, h2, h3, h4) \<Rightarrow> be32 h0 @ be32 h1 @ be32 h2 @ be32 h3 @ be32 h4)"

lemma ch_eq: "(b AND c) OR (NOT b AND d) = Ch b c d"
  unfolding Ch_def by (rule bit_word_eqI) (auto simp: bit_simps)

lemma maj_eq: "(b AND c) OR (b AND d) OR (c AND d) = Maj b c d"
  unfolding Maj_def by (rule bit_word_eqI) (auto simp: bit_simps)

lemma load_prefix:
  "k \<le> 16 \<Longrightarrow> length (foldl (\<lambda>w i. w[i := g i]) (replicate 80 (0::u32)) [0 ..< k]) = 80
    \<and> (\<forall>t < k. foldl (\<lambda>w i. w[i := g i]) (replicate 80 0) [0 ..< k] ! t = g t)"
proof (induction k)
  case (Suc k)
  then show ?case by (auto simp: nth_list_update less_Suc_eq)
qed simp

lemma load_word: "length (sha1_load blk) = 80" "t < 16 \<Longrightarrow> sha1_load blk ! t = block_word blk t"
  using load_prefix[of 16 "\<lambda>i. of_be32 (blk ! (i * 4)) (blk ! (i * 4 + 1)) (blk ! (i * 4 + 2)) (blk ! (i * 4 + 3))"]
  unfolding sha1_load_def block_word_def mult.commute[of 4] by blast+

lemma schedule_prefix:
  fixes blk :: bytes
  assumes "16 \<le> k" and "k \<le> 80"
  defines "w \<equiv> foldl (\<lambda>w i. w[i := word_rotl 1 (w ! (i - 3) XOR w ! (i - 8) XOR w ! (i - 14) XOR w ! (i - 16))])
      (sha1_load blk) [16 ..< k]"
  shows "length w = 80 \<and> (\<forall>t < k. w ! t = fips_W (block_word blk) t)"
  unfolding w_def using assms(1,2)
proof (induction k rule: dec_induct)
  case base
  then show ?case by (simp add: load_word fips_W.simps)
next
  case (step k)
  then show ?case by (auto simp: nth_list_update less_Suc_eq upt_Suc fips_W.simps[of _ k])
qed

lemma schedule_word: "sha1_schedule blk = map (fips_W (block_word blk)) [0 ..< 80]"
proof (rule nth_equalityI)
  have p: "length (sha1_schedule blk) = 80 \<and> (\<forall>t < 80. sha1_schedule blk ! t = fips_W (block_word blk) t)"
    unfolding sha1_schedule_def by (rule schedule_prefix) simp_all
  then show "length (sha1_schedule blk) = length (map (fips_W (block_word blk)) [0 ..< 80])"
    by (simp only: length_map length_upt)
  show "sha1_schedule blk ! i = map (fips_W (block_word blk)) [0 ..< 80] ! i" if "i < length (sha1_schedule blk)" for i
    using p that by (simp only: nth_map length_upt nth_upt add_0)
qed

lemma sha1_rounds:
  "foldl sha1_round H (map (\<lambda>t. (t, fips_W M t)) [0 ..< n]) = fips_rounds M H n"
proof (induction n)
  case (Suc n)
  then show ?case
    by (cases "fips_rounds M H n")
       (auto simp: sha1_round_def fips_f_def fips_K_def ch_eq maj_eq Parity_def Let_def)
qed simp

lemma enumerate_map: "enumerate 0 (map f [0 ..< n]) = map (\<lambda>t. (t, f t)) [0 ..< n]"
  by (rule nth_equalityI) (simp_all add: nth_enumerate_eq)

lemma sha1_block_eq: "sha1_block H blk = fips_step H blk"
  by (cases H) (simp add: sha1_block_def fips_step_def schedule_word enumerate_map sha1_rounds add.commute
      split: prod.splits)

lemma sha1_length: "length (sha1 m) = 20"
  by (simp add: sha1_def split: prod.splits)

lemma sha1_fips: "sha1 m = fips_sha1 m"
proof -
  have "sha1_block = fips_step" by (intro ext) (rule sha1_block_eq)
  then show ?thesis
    by (simp add: sha1_def fips_sha1_def sha1_padded_def pad_zero_eq std_zeros_eq mult.commute)
qed

lemma copy_into_zeros: "length k \<le> 64 \<Longrightarrow> copy_into (replicate 64 0) k = k @ replicate (64 - length k) 0"
  by (simp only: copy_into_def drop_replicate)

lemma xor_block:
  fixes c :: u8
  assumes "length k0 = 64"
  shows "map (\<lambda>i. replicate 64 c ! i XOR k0 ! i) [0 ..< 64] = map ((XOR) c) k0"
proof (rule nth_equalityI)
  fix i assume "i < length (map (\<lambda>i. replicate 64 c ! i XOR k0 ! i) [0 ..< 64])"
  then have "i < 64" by (simp only: length_map length_upt diff_zero)
  then show "map (\<lambda>i. replicate 64 c ! i XOR k0 ! i) [0 ..< 64] ! i = map ((XOR) c) k0 ! i"
    using assms by (simp only: nth_map length_upt nth_upt add_0 diff_zero nth_replicate)
qed (simp only: length_map length_upt diff_zero assms)

section \<open>MD5 as in RFC 1321\<close>

definition rfc_F :: "u32 \<Rightarrow> u32 \<Rightarrow> u32 \<Rightarrow> u32" where "rfc_F X Y Z = (X AND Y) OR (NOT X AND Z)"
definition rfc_G :: "u32 \<Rightarrow> u32 \<Rightarrow> u32 \<Rightarrow> u32" where "rfc_G X Y Z = (X AND Z) OR (Y AND NOT Z)"
definition rfc_H :: "u32 \<Rightarrow> u32 \<Rightarrow> u32 \<Rightarrow> u32" where "rfc_H X Y Z = X XOR Y XOR Z"
definition rfc_I :: "u32 \<Rightarrow> u32 \<Rightarrow> u32 \<Rightarrow> u32" where "rfc_I X Y Z = Y XOR (X OR NOT Z)"

definition rfc_fun :: "nat \<Rightarrow> u32 \<Rightarrow> u32 \<Rightarrow> u32 \<Rightarrow> u32" where
  "rfc_fun i = (if i < 16 then rfc_F else if i < 32 then rfc_G else if i < 48 then rfc_H else rfc_I)"

text \<open>The message word each of the 64 operations uses, as listed in the standard.\<close>

definition rfc_k :: "nat list" where
  "rfc_k =
    [0, 1, 2, 3, 4, 5, 6, 7, 8, 9, 10, 11, 12, 13, 14, 15,
     1, 6, 11, 0, 5, 10, 15, 4, 9, 14, 3, 8, 13, 2, 7, 12,
     5, 8, 11, 14, 1, 4, 7, 10, 13, 0, 3, 6, 9, 12, 15, 2,
     0, 7, 14, 5, 12, 3, 10, 1, 8, 15, 6, 13, 4, 11, 2, 9]"

text \<open>The operation \<open>[abcd k s i]\<close> changes the first of four registers, whose names rotate: ABCD, DABC, CDAB,
  BCDA. The registers are a list of four words.\<close>

definition rfc_op :: "u32 list \<Rightarrow> u32 list \<Rightarrow> nat \<Rightarrow> u32 list" where
  "rfc_op X r i =
     (let a = (4 - i mod 4) mod 4; b = (a + 1) mod 4; c = (a + 2) mod 4; d = (a + 3) mod 4
      in r[a := r ! b + word_rotl (md5_S ! i) (r ! a + rfc_fun i (r ! b) (r ! c) (r ! d) + X ! (rfc_k ! i) + md5_K ! i)])"

definition rfc_block :: "u32 list \<Rightarrow> bytes \<Rightarrow> u32 list" where
  "rfc_block r blk = map2 (+) r (foldl (rfc_op (md5_words blk)) r [0 ..< 64])"

definition rfc_md5 :: "bytes \<Rightarrow> bytes" where
  "rfc_md5 M =
     (let P = M @ [0x80] @ replicate (std_zeros (length M)) 0 @ le64 (of_nat (8 * length M))
      in concat (map le32 (foldl rfc_block [0x67452301, 0xefcdab89, 0x98badcfe, 0x10325476] (chunks 64 P))))"

definition roles :: "u32 list \<Rightarrow> nat \<Rightarrow> md5_state" where
  "roles r i = (let a = (4 - i mod 4) mod 4 in (r ! a, r ! ((a + 1) mod 4), r ! ((a + 2) mod 4), r ! ((a + 3) mod 4)))"

lemma md5_fun:
  "(if i < 16 then (b AND c) OR (NOT b AND d) else if i < 32 then (d AND b) OR (NOT d AND c)
    else if i < 48 then b XOR c XOR d else c XOR (b OR NOT d)) = rfc_fun i b c d"
  by (auto simp: rfc_fun_def rfc_F_def rfc_G_def rfc_H_def rfc_I_def ac_simps)

lemma md5_index_table:
  "map (\<lambda>i. if i < 16 then i else if i < 32 then (5 * i + 1) mod 16 else if i < 48 then (3 * i + 5) mod 16 else (7 * i) mod 16)
     [0 ..< 64] = rfc_k"
  by code_simp

lemma md5_index:
  assumes "i < 64"
  shows "(if i < 16 then i else if i < 32 then (5 * i + 1) mod 16 else if i < 48 then (3 * i + 5) mod 16 else (7 * i) mod 16) = rfc_k ! i"
  unfolding md5_index_table[symmetric] using assms by (simp only: nth_map length_upt nth_upt add_0 diff_zero)

lemma md5_round_eq:
  assumes "i < 64"
  shows "md5_round m (a, b, c, d) i =
    (d, b + word_rotl (md5_S ! i) (a + rfc_fun i b c d + m ! (rfc_k ! i) + md5_K ! i), b, c)"
  unfolding md5_fun[symmetric] md5_index[OF assms, symmetric]
  by (simp add: md5_round_def ac_simps)

lemma rfc_op_length [simp]: "length (rfc_op X r i) = length r"
  by (simp add: rfc_op_def Let_def)

lemma roles_step:
  assumes "i < 64" and "length r = 4"
  shows "md5_round X (roles r i) i = roles (rfc_op X r i) (Suc i)"
proof -
  have "i mod 4 < 4" by simp
  then consider "i mod 4 = 0" | "i mod 4 = 1" | "i mod 4 = 2" | "i mod 4 = 3" by linarith
  then show ?thesis
    by cases (simp_all add: roles_def md5_round_eq[OF assms(1)] rfc_op_def Let_def mod_Suc assms(2) flip: numeral_2_eq_2)
qed

lemma roles_run:
  "n \<le> 64 \<Longrightarrow> length r = 4 \<Longrightarrow>
    foldl (md5_round X) (roles r 0) [0 ..< n] = roles (foldl (rfc_op X) r [0 ..< n]) n \<and> length (foldl (rfc_op X) r [0 ..< n]) = 4"
  by (induction n) (simp_all add: roles_step)

lemma roles_full: "length r = 4 \<Longrightarrow> roles r 0 = (r ! 0, r ! 1, r ! 2, r ! 3)" "roles r 64 = roles r 0"
  by (simp_all add: roles_def flip: numeral_2_eq_2)

lemma four_list: "length r = 4 \<Longrightarrow> r = [r ! 0, r ! 1, r ! 2, r ! 3]"
  by (rule nth_equalityI) (auto simp: nth_Cons' less_Suc_eq numeral_eq_Suc)

lemma md5_block_eq:
  assumes "length r = 4"
  shows "md5_block (roles r 0) blk = roles (rfc_block r blk) 0 \<and> length (rfc_block r blk) = 4"
proof -
  let ?f = "foldl (rfc_op (md5_words blk)) r [0 ..< 64]"
  have run: "foldl (md5_round (md5_words blk)) (roles r 0) [0 ..< 64] = roles ?f 0" "length ?f = 4"
    using roles_run[of 64 r "md5_words blk"] assms roles_full(2) by auto
  have "md5_block (roles r 0) blk = (r ! 0 + ?f ! 0, r ! 1 + ?f ! 1, r ! 2 + ?f ! 2, r ! 3 + ?f ! 3)"
    using run(1) unfolding md5_block_def roles_full(1)[OF assms] roles_full(1)[OF run(2)] by (simp only: prod.case)
  then show ?thesis using assms run(2) by (simp add: rfc_block_def roles_def flip: numeral_2_eq_2)
qed

lemma md5_blocks:
  "length r = 4 \<Longrightarrow> foldl md5_block (roles r 0) cs = roles (foldl rfc_block r cs) 0 \<and> length (foldl rfc_block r cs) = 4"
  by (induction cs arbitrary: r) (simp_all add: md5_block_eq)

lemma md5_length: "length (md5 m) = 16"
  by (simp add: md5_def split: prod.splits)

section \<open>Properties\<close>

text \<open>C16: the SHA-1 of the code is the SHA-1 of FIPS 180-4 on every message: the padding loop, the in-place
  message schedule and the disjunctive forms of the round functions compute the standard's padding, recursive
  schedule and functions; the digest has 20 bytes.\<close>

theorem sha1_is_fips_180: "sha1 m = fips_sha1 m \<and> length (sha1 m) = 20"
  using sha1_fips sha1_length by blast

text \<open>The MD5 of the code is the MD5 of RFC 1321 on every message: the rotating variables are the
  standard's registers with their listed operations, and the padding loop its padding; the digest has 16 bytes.\<close>

theorem md5_is_rfc_1321: "md5 m = rfc_md5 m \<and> length (md5 m) = 16"
proof -
  let ?r = "[0x67452301, 0xefcdab89, 0x98badcfe, 0x10325476] :: u32 list"
  let ?P = "m @ [0x80] @ replicate (std_zeros (length m)) 0 @ le64 (of_nat (8 * length m))"
  have P: "md5_padded m = ?P" by (simp add: md5_padded_def pad_zero_eq std_zeros_eq mult.commute)
  let ?f = "foldl rfc_block ?r (chunks 64 ?P)"
  have f: "foldl md5_block (roles ?r 0) (chunks 64 ?P) = roles ?f 0" "length ?f = 4"
    using md5_blocks[of ?r] by simp_all
  have r: "roles ?r 0 = (0x67452301, 0xefcdab89, 0x98badcfe, 0x10325476)" by (simp add: roles_def)
  have "md5 m = le32 (?f ! 0) @ le32 (?f ! 1) @ le32 (?f ! 2) @ le32 (?f ! 3)"
    unfolding md5_def P f(1)[unfolded r] roles_full(1)[OF f(2)] by (simp only: prod.case)
  also have "\<dots> = concat (map le32 ?f)" by (subst (5) four_list[OF f(2)]) simp
  finally have "md5 m = rfc_md5 m" unfolding rfc_md5_def Let_def .
  then show ?thesis using md5_length by blast
qed

text \<open>The message authentication code is that of RFC 2104 over SHA-1: keys longer than a block are
  hashed first, shorter ones are filled with zeros.\<close>

theorem hmac_is_rfc_2104:
  "hmac_sha1 key m =
     (let k = (if 64 < length key then fips_sha1 key else key); k0 = k @ replicate (64 - length k) 0
      in fips_sha1 (map ((XOR) 0x5c) k0 @ fips_sha1 (map ((XOR) 0x36) k0 @ m)))"
proof -
  let ?k = "if 64 < length key then fips_sha1 key else key"
  let ?kb = "?k @ replicate (64 - length ?k) 0"
  have l: "length ?k \<le> 64" using sha1_length[of key] by (simp add: sha1_fips)
  then have l0: "length ?kb = 64" by (simp only: length_append length_replicate)
  have "(if 64 < length key then copy_into (replicate 64 0) (sha1 key) else copy_into (replicate 64 0) key) = ?kb"
    using copy_into_zeros[of ?k] l unfolding sha1_fips by (cases "64 < length key") (simp_all only: if_True if_False)
  then show ?thesis unfolding hmac_sha1_def Let_def by (simp only: xor_block[OF l0] sha1_fips)
qed

end
