(* ===== verification/Stun.thy ===== *)
theory Stun
  imports Crypto_Min F64
begin

text \<open>
  \<open>network_tests/stun.rs\<close>: STUN binding (RFC 5389) and TURN allocation (RFC 5766). Messages are byte strings;
  texts (user name, realm, password) are their UTF-8 bytes. Sockets are observations: whether a send
  succeeded, the datagram received, or for a stream the bytes that can be read from it; random transaction
  identifiers are arguments. The functions that send return the messages they tried to send, in order.
\<close>

unbundle bit_operations_syntax

section \<open>Messages\<close>

definition MAGIC_COOKIE :: u32 where "MAGIC_COOKIE = 0x2112A442"

definition BINDING_REQUEST :: u16 where "BINDING_REQUEST = 0x0001"
definition BINDING_SUCCESS :: u16 where "BINDING_SUCCESS = 0x0101"
definition BINDING_ERROR :: u16 where "BINDING_ERROR = 0x0111"
definition ALLOCATE_REQUEST :: u16 where "ALLOCATE_REQUEST = 0x0003"
definition ALLOCATE_SUCCESS :: u16 where "ALLOCATE_SUCCESS = 0x0103"
definition ALLOCATE_ERROR :: u16 where "ALLOCATE_ERROR = 0x0113"

definition ATTR_MAPPED_ADDRESS :: u16 where "ATTR_MAPPED_ADDRESS = 0x0001"
definition ATTR_USERNAME :: u16 where "ATTR_USERNAME = 0x0006"
definition ATTR_MESSAGE_INTEGRITY :: u16 where "ATTR_MESSAGE_INTEGRITY = 0x0008"
definition ATTR_ERROR_CODE :: u16 where "ATTR_ERROR_CODE = 0x0009"
definition ATTR_REALM :: u16 where "ATTR_REALM = 0x0014"
definition ATTR_NONCE :: u16 where "ATTR_NONCE = 0x0015"
definition ATTR_XOR_RELAYED_ADDRESS :: u16 where "ATTR_XOR_RELAYED_ADDRESS = 0x0016"
definition ATTR_REQUESTED_TRANSPORT :: u16 where "ATTR_REQUESTED_TRANSPORT = 0x0019"
definition ATTR_LIFETIME :: u16 where "ATTR_LIFETIME = 0x000D"
definition ATTR_XOR_MAPPED_ADDRESS :: u16 where "ATTR_XOR_MAPPED_ADDRESS = 0x0020"

definition FAMILY_IPV4 :: u8 where "FAMILY_IPV4 = 0x01"
definition FAMILY_IPV6 :: u8 where "FAMILY_IPV6 = 0x02"

lemmas message_types = BINDING_REQUEST_def BINDING_SUCCESS_def BINDING_ERROR_def ALLOCATE_REQUEST_def
  ALLOCATE_SUCCESS_def ALLOCATE_ERROR_def

lemmas attribute_types = ATTR_MAPPED_ADDRESS_def ATTR_USERNAME_def ATTR_MESSAGE_INTEGRITY_def ATTR_ERROR_CODE_def
  ATTR_REALM_def ATTR_NONCE_def ATTR_XOR_RELAYED_ADDRESS_def ATTR_REQUESTED_TRANSPORT_def ATTR_LIFETIME_def
  ATTR_XOR_MAPPED_ADDRESS_def

definition attr_pad :: "nat \<Rightarrow> nat" where
  "attr_pad len = (4 - len mod 4) mod 4"

definition attr_push :: "bytes \<Rightarrow> u16 \<Rightarrow> bytes \<Rightarrow> bytes" where
  "attr_push out attr_type v = out @ be16 attr_type @ be16 (of_nat (length v)) @ v @ replicate (attr_pad (length v)) 0"

definition build_message :: "u16 \<Rightarrow> bytes \<Rightarrow> bytes \<Rightarrow> bytes" where
  "build_message msg_type transaction_id attrs =
     be16 msg_type @ be16 (of_nat (length attrs)) @ be32 MAGIC_COOKIE @ transaction_id @ attrs"

definition build_binding_request :: "bytes \<Rightarrow> bytes \<times> bytes" where
  "build_binding_request txn = (build_message BINDING_REQUEST txn [], txn)"

datatype StunError =
    TooShort | BadMagicCookie | TransactionIdMismatch | UnexpectedMessageType u16 | ErrorResponse u8 u8
  | MissingMappedAddress | MalformedAddressAttribute

definition hex_digit4 :: "nat \<Rightarrow> char" where
  "hex_digit4 d = (if d < 10 then char_of (48 + d) else char_of (87 + d))"

definition fmt_04x :: "u16 \<Rightarrow> string" where
  "fmt_04x w = map (\<lambda>i. hex_digit4 (unat w div 16 ^ i mod 16)) [3, 2, 1, 0]"

definition fmt_02 :: "u8 \<Rightarrow> string" where
  "fmt_02 w = (let s = show_word w in replicate (2 - length s) (CHR ''0'') @ s)"

fun stun_error_display :: "StunError \<Rightarrow> string" where
  "stun_error_display TooShort = ''response shorter than a STUN header''"
| "stun_error_display BadMagicCookie = ''response magic cookie does not match RFC 5389''"
| "stun_error_display TransactionIdMismatch = ''response transaction ID does not match the request''"
| "stun_error_display (UnexpectedMessageType t) = ''unexpected STUN message type 0x'' @ fmt_04x t"
| "stun_error_display (ErrorResponse class number) = ''STUN error response '' @ show_word class @ fmt_02 number"
| "stun_error_display MissingMappedAddress = ''success response carried no (XOR-)MAPPED-ADDRESS''"
| "stun_error_display MalformedAddressAttribute = ''(XOR-)MAPPED-ADDRESS attribute was malformed''"

record ParsedMessage =
  msg_type :: u16
  transaction_id :: bytes
  attrs :: "(u16 \<times> bytes) list"

function parse_attrs :: "bytes \<Rightarrow> nat \<Rightarrow> (u16 \<times> bytes) list" where
  "parse_attrs body i =
     (if i + 4 \<le> length body then
        let attr_type = of_be16 (body ! i) (body ! (i + 1));
            attr_len = unat (of_be16 (body ! (i + 2)) (body ! (i + 3)));
            val_start = i + 4;
            val_end = min (val_start + attr_len) (length body)
        in (attr_type, take (val_end - val_start) (drop val_start body)) # parse_attrs body (val_end + attr_pad attr_len)
      else [])"
  by pat_completeness auto
termination
  by (relation "measure (\<lambda>(body, i). length body - i)") (auto simp: min_def)

declare parse_attrs.simps [simp del]

definition parse_message :: "bytes \<Rightarrow> StunError + ParsedMessage" where
  "parse_message bs =
     (if length bs < 20 then Inl TooShort
      else
        let len = unat (of_be16 (bs ! 2) (bs ! 3));
            cookie = of_be32 (bs ! 4) (bs ! 5) (bs ! 6) (bs ! 7)
        in if cookie \<noteq> MAGIC_COOKIE then Inl BadMagicCookie
           else
             let body_end = min (20 + len) (length bs);
                 body = take (body_end - 20) (drop 20 bs)
             in Inr \<lparr>msg_type = of_be16 (bs ! 0) (bs ! 1), transaction_id = take 12 (drop 8 bs), attrs = parse_attrs body 0\<rparr>)"

section \<open>Addresses\<close>

datatype NetAddr = AddrV4 bytes | AddrV6 bytes

record SocketAddr =
  sock_ip :: NetAddr
  sock_port :: u16

definition decode_xor_mapped_address :: "bytes \<Rightarrow> bytes \<Rightarrow> StunError + SocketAddr" where
  "decode_xor_mapped_address v txn =
     (if length v < 4 then Inl MalformedAddressAttribute
      else
        let family = v ! 1;
            prt = of_be16 (v ! 2) (v ! 3) XOR ucast (drop_bit 16 MAGIC_COOKIE)
        in if family = FAMILY_IPV4 then
             (if length v < 8 then Inl MalformedAddressAttribute
              else Inr \<lparr>sock_ip = AddrV4 (be32 (of_be32 (v ! 4) (v ! 5) (v ! 6) (v ! 7) XOR MAGIC_COOKIE)), sock_port = prt\<rparr>)
           else if family = FAMILY_IPV6 then
             (if length v < 20 then Inl MalformedAddressAttribute
              else let mask = be32 MAGIC_COOKIE @ txn
                   in Inr \<lparr>sock_ip = AddrV6 (map (\<lambda>i. v ! (4 + i) XOR mask ! i) [0 ..< 16]), sock_port = prt\<rparr>)
           else Inl MalformedAddressAttribute)"

definition decode_mapped_address :: "bytes \<Rightarrow> StunError + SocketAddr" where
  "decode_mapped_address v =
     (if length v < 4 then Inl MalformedAddressAttribute
      else
        let family = v ! 1; prt = of_be16 (v ! 2) (v ! 3)
        in if family = FAMILY_IPV4 then
             (if length v < 8 then Inl MalformedAddressAttribute
              else Inr \<lparr>sock_ip = AddrV4 [v ! 4, v ! 5, v ! 6, v ! 7], sock_port = prt\<rparr>)
           else if family = FAMILY_IPV6 then
             (if length v < 20 then Inl MalformedAddressAttribute
              else Inr \<lparr>sock_ip = AddrV6 (take 16 (drop 4 v)), sock_port = prt\<rparr>)
           else Inl MalformedAddressAttribute)"

definition find_attr :: "u16 \<Rightarrow> (u16 \<times> bytes) list \<Rightarrow> bytes option" where
  "find_attr t as = map_option snd (find (\<lambda>a. fst a = t) as)"

definition extract_error_code :: "(u16 \<times> bytes) list \<Rightarrow> u8 \<times> u8" where
  "extract_error_code as =
     (case find (\<lambda>a. fst a = ATTR_ERROR_CODE \<and> 4 \<le> length (snd a)) as of
        Some a \<Rightarrow> (snd a ! 2 AND 0x07, snd a ! 3)
      | None \<Rightarrow> (0, 0))"

definition parse_binding_response :: "bytes \<Rightarrow> bytes \<Rightarrow> StunError + SocketAddr" where
  "parse_binding_response bs expected_txn =
     (case parse_message bs of
        Inl e \<Rightarrow> Inl e
      | Inr parsed \<Rightarrow>
          if transaction_id parsed \<noteq> expected_txn then Inl TransactionIdMismatch
          else if msg_type parsed = BINDING_SUCCESS then
            (case find_attr ATTR_XOR_MAPPED_ADDRESS (attrs parsed) of
               Some v \<Rightarrow> decode_xor_mapped_address v expected_txn
             | None \<Rightarrow>
                 (case find_attr ATTR_MAPPED_ADDRESS (attrs parsed) of
                    Some v \<Rightarrow> decode_mapped_address v
                  | None \<Rightarrow> Inl MissingMappedAddress))
          else if msg_type parsed = BINDING_ERROR then
            (case extract_error_code (attrs parsed) of (class, number) \<Rightarrow> Inl (ErrorResponse class number))
          else Inl (UnexpectedMessageType (msg_type parsed)))"

datatype BindingOutcome = Mapped SocketAddr | BindUnreachable | BindInvalid StunError

record BindingAttempt =
  bind_outcome :: BindingOutcome
  rtt :: "f64 option"

text \<open>One attempt: whether the send succeeds, what arrives before the timeout and after how many nanoseconds.\<close>

definition binding_request_once :: "bytes \<Rightarrow> bool \<Rightarrow> (bytes \<times> nat) option \<Rightarrow> BindingAttempt" where
  "binding_request_once txn send_ok received =
     (if \<not> send_ok then \<lparr>bind_outcome = BindUnreachable, rtt = None\<rparr>
      else case received of
        None \<Rightarrow> \<lparr>bind_outcome = BindUnreachable, rtt = None\<rparr>
      | Some (datagram, elapsed) \<Rightarrow>
          let rtt_ms = f64_mul (as_secs_f64 elapsed) (Fin 1000) in
          (case parse_binding_response (take 512 datagram) txn of
             Inr addr \<Rightarrow> \<lparr>bind_outcome = Mapped addr, rtt = Some rtt_ms\<rparr>
           | Inl e \<Rightarrow> \<lparr>bind_outcome = BindInvalid e, rtt = Some rtt_ms\<rparr>))"

section \<open>TURN allocation\<close>

record TurnCredentials =
  username :: bytes
  password :: bytes

datatype TurnOutcome =
    Allocated u32 SocketAddr | Unauthorized | CredentialsRejected | NoCredentialsSupplied | Unreachable
  | TurnInvalid string

definition build_allocate_request :: "bytes \<Rightarrow> bytes" where
  "build_allocate_request txn = build_message ALLOCATE_REQUEST txn (attr_push [] ATTR_REQUESTED_TRANSPORT [17, 0, 0, 0])"

definition long_term_key :: "bytes \<Rightarrow> bytes \<Rightarrow> bytes \<Rightarrow> bytes" where
  "long_term_key user realm pass = md5 (user @ [0x3A] @ realm @ [0x3A] @ pass)"

definition build_authenticated_allocate_request :: "bytes \<Rightarrow> bytes \<Rightarrow> bytes \<Rightarrow> bytes \<Rightarrow> bytes \<Rightarrow> bytes" where
  "build_authenticated_allocate_request txn user realm nonce key =
     (let as = attr_push (attr_push (attr_push (attr_push [] ATTR_REQUESTED_TRANSPORT [17, 0, 0, 0])
                 ATTR_USERNAME user) ATTR_REALM realm) ATTR_NONCE nonce;
          header_for_mi = be16 ALLOCATE_REQUEST @ be16 (of_nat (length as + 24)) @ be32 MAGIC_COOKIE @ txn @ as;
          mac = hmac_sha1 key header_for_mi
      in build_message ALLOCATE_REQUEST txn (attr_push as ATTR_MESSAGE_INTEGRITY mac))"

text \<open>\<open>String::from_utf8\<close>\<close>

definition cont :: "u8 \<Rightarrow> bool" where "cont b \<longleftrightarrow> 0x80 \<le> b \<and> b \<le> 0xBF"

fun utf8_valid :: "bytes \<Rightarrow> bool" where
  "utf8_valid [] = True"
| "utf8_valid (a # s) =
     (if a < 0x80 then utf8_valid s
      else case s of
        [] \<Rightarrow> False
      | b # s2 \<Rightarrow>
          if 0xC2 \<le> a \<and> a \<le> 0xDF then cont b \<and> utf8_valid s2
          else (case s2 of
            [] \<Rightarrow> False
          | c # s3 \<Rightarrow>
              if 0xE0 \<le> a \<and> a \<le> 0xEF
              then cont b \<and> (a = 0xE0 \<longrightarrow> 0xA0 \<le> b) \<and> (a = 0xED \<longrightarrow> b \<le> 0x9F) \<and> cont c \<and> utf8_valid s3
              else (case s3 of
                [] \<Rightarrow> False
              | d # s4 \<Rightarrow>
                  0xF0 \<le> a \<and> a \<le> 0xF4 \<and> cont b \<and> (a = 0xF0 \<longrightarrow> 0x90 \<le> b) \<and> (a = 0xF4 \<longrightarrow> b \<le> 0x8F)
                  \<and> cont c \<and> cont d \<and> utf8_valid s4)))"

definition extract_realm_nonce :: "(u16 \<times> bytes) list \<Rightarrow> bytes option \<times> bytes option" where
  "extract_realm_nonce as =
     foldl (\<lambda>(realm, nonce) (t, v).
        if t = ATTR_REALM then (if utf8_valid v then Some v else None, nonce)
        else if t = ATTR_NONCE then (realm, Some v) else (realm, nonce)) (None, None) as"

definition allocate_fields :: "(u16 \<times> bytes) list \<Rightarrow> bytes \<Rightarrow> u32 option \<times> SocketAddr option" where
  "allocate_fields as txn =
     foldl (\<lambda>(lifetime, relayed) (t, v).
        if t = ATTR_LIFETIME \<and> 4 \<le> length v then (Some (of_be32 (v ! 0) (v ! 1) (v ! 2) (v ! 3)), relayed)
        else if t = ATTR_XOR_RELAYED_ADDRESS then (lifetime, result_ok (decode_xor_mapped_address v txn))
        else (lifetime, relayed)) (None, None) as"

definition parse_allocate_response :: "bytes \<Rightarrow> bytes \<Rightarrow> string + TurnOutcome" where
  "parse_allocate_response bs expected_txn =
     (case parse_message bs of
        Inl e \<Rightarrow> Inl (stun_error_display e)
      | Inr parsed \<Rightarrow>
          if transaction_id parsed \<noteq> expected_txn then Inl ''TURN response transaction ID mismatch''
          else if msg_type parsed = ALLOCATE_SUCCESS then
            (case allocate_fields (attrs parsed) expected_txn of
               (Some l, Some r) \<Rightarrow> Inr (Allocated l r)
             | _ \<Rightarrow> Inl ''ALLOCATE success carried no LIFETIME/XOR-RELAYED-ADDRESS'')
          else if msg_type parsed = ALLOCATE_ERROR then
            (case extract_error_code (attrs parsed) of (class, number) \<Rightarrow>
               if class = 4 \<and> number = 1 then Inr Unauthorized
               else if class = 4 \<and> (number = 1 \<or> number = 41) then Inr CredentialsRejected
               else if class = 4 \<and> number = 38 then Inr CredentialsRejected
               else Inl (''TURN error response '' @ show_word class @ fmt_02 number))
          else Inl (''unexpected TURN message type 0x'' @ fmt_04x (msg_type parsed)))"

definition outcome_or_invalid :: "string + TurnOutcome \<Rightarrow> TurnOutcome" where
  "outcome_or_invalid r = (case r of Inr t \<Rightarrow> t | Inl e \<Rightarrow> TurnInvalid e)"

text \<open>The exchange over UDP.\<close>

record TurnUdp =
  udp_txn1 :: bytes
  udp_send1 :: bool
  udp_recv1 :: "bytes option"
  udp_txn2 :: bytes
  udp_send2 :: bool
  udp_recv2 :: "bytes option"

definition turn_allocate_udp :: "TurnUdp \<Rightarrow> TurnCredentials option \<Rightarrow> TurnOutcome \<times> bytes list" where
  "turn_allocate_udp w credentials =
     (case credentials of
        None \<Rightarrow> (NoCredentialsSupplied, [])
      | Some creds \<Rightarrow>
          let req1 = build_allocate_request (udp_txn1 w) in
          if \<not> udp_send1 w then (Unreachable, [req1])
          else (case udp_recv1 w of
            None \<Rightarrow> (Unreachable, [req1])
          | Some d1 \<Rightarrow>
              let b1 = take 1024 d1 in
              (case parse_message b1 of
                 Inl e \<Rightarrow> (TurnInvalid (stun_error_display e), [req1])
               | Inr parsed1 \<Rightarrow>
                   if msg_type parsed1 \<noteq> ALLOCATE_ERROR
                   then (outcome_or_invalid (parse_allocate_response b1 (udp_txn1 w)), [req1])
                   else
                     (case extract_realm_nonce (attrs parsed1) of
                        (Some realm, Some nonce) \<Rightarrow>
                          let key = long_term_key (username creds) realm (password creds);
                              req2 = build_authenticated_allocate_request (udp_txn2 w) (username creds) realm nonce key
                          in if \<not> udp_send2 w then (Unreachable, [req1, req2])
                             else (case udp_recv2 w of
                               None \<Rightarrow> (Unreachable, [req1, req2])
                             | Some d2 \<Rightarrow>
                                 (outcome_or_invalid (parse_allocate_response (take 1024 d2) (udp_txn2 w)), [req1, req2]))
                      | _ \<Rightarrow> (TurnInvalid ''401 challenge carried no REALM/NONCE'', [req1])))))"

text \<open>A message read from a stream: \<open>None\<close> when the stream ends or fails before it is complete.\<close>

definition read_one_stun_message :: "bytes \<Rightarrow> (bytes \<times> bytes) option" where
  "read_one_stun_message stream =
     (if length stream < 20 then None
      else
        let header = take 20 stream; len = unat (of_be16 (header ! 2) (header ! 3)); after = drop 20 stream
        in if length after < len then None else Some (header @ take len after, drop len after))"

record TurnTcp =
  tcp_txn1 :: bytes
  tcp_write1 :: bool
  tcp_txn2 :: bytes
  tcp_write2 :: bool
  tcp_stream :: bytes

definition turn_allocate_tcp :: "TurnTcp \<Rightarrow> TurnCredentials option \<Rightarrow> TurnOutcome \<times> bytes list" where
  "turn_allocate_tcp w credentials =
     (case credentials of
        None \<Rightarrow> (NoCredentialsSupplied, [])
      | Some creds \<Rightarrow>
          let req1 = build_allocate_request (tcp_txn1 w) in
          if \<not> tcp_write1 w then (Unreachable, [req1])
          else (case read_one_stun_message (tcp_stream w) of
            None \<Rightarrow> (Unreachable, [req1])
          | Some (b1, rest) \<Rightarrow>
              (case parse_message b1 of
                 Inl e \<Rightarrow> (TurnInvalid (stun_error_display e), [req1])
               | Inr parsed1 \<Rightarrow>
                   if msg_type parsed1 \<noteq> ALLOCATE_ERROR
                   then (outcome_or_invalid (parse_allocate_response b1 (tcp_txn1 w)), [req1])
                   else
                     (case extract_realm_nonce (attrs parsed1) of
                        (Some realm, Some nonce) \<Rightarrow>
                          let key = long_term_key (username creds) realm (password creds);
                              req2 = build_authenticated_allocate_request (tcp_txn2 w) (username creds) realm nonce key
                          in if \<not> tcp_write2 w then (Unreachable, [req1, req2])
                             else (case read_one_stun_message rest of
                               None \<Rightarrow> (Unreachable, [req1, req2])
                             | Some (b2, _) \<Rightarrow>
                                 (outcome_or_invalid (parse_allocate_response b2 (tcp_txn2 w)), [req1, req2]))
                      | _ \<Rightarrow> (TurnInvalid ''401 challenge carried no REALM/NONCE'', [req1])))))"

section \<open>Messages read back\<close>

definition attr_bytes :: "u16 \<times> bytes \<Rightarrow> bytes" where
  "attr_bytes a = attr_push [] (fst a) (snd a)"

lemma attr_push_eq: "attr_push out t v = out @ attr_bytes (t, v)"
  by (simp add: attr_push_def attr_bytes_def)

lemma attr_bytes_length: "length (attr_bytes (t, v)) = 4 + length v + attr_pad (length v)"
  by (simp add: attr_bytes_def attr_push_def)

lemma parse_attrs_step:
  assumes "of_be16 (body ! i) (body ! (i + 1)) = t" and "unat (of_be16 (body ! (i + 2)) (body ! (i + 3))) = n"
    and "i + 4 + n \<le> length body"
  shows "parse_attrs body i = (t, take n (drop (i + 4) body)) # parse_attrs body (i + 4 + n + attr_pad n)"
proof -
  have "i + 4 \<le> length body" using assms(3) by simp
  then show ?thesis
    unfolding parse_attrs.simps[of body i] Let_def assms(1,2) using assms(3) by (simp add: min_absorb1)
qed

lemma parse_attr:
  assumes "length v < 65536"
  shows "parse_attrs (pre @ attr_bytes (t, v) @ rest) (length pre) =
    (t, v) # parse_attrs (pre @ attr_bytes (t, v) @ rest) (length pre + length (attr_bytes (t, v)))"
proof -
  let ?z = "replicate (attr_pad (length v)) (0::u8)"
  let ?l = "of_nat (length v) :: u16"
  let ?body = "pre @ attr_bytes (t, v) @ rest"
  have b: "?body = pre @ be16 t @ be16 ?l @ v @ ?z @ rest" by (simp add: attr_bytes_def attr_push_def)
  have n: "?body ! length pre = ucast (drop_bit 8 t)" "?body ! (length pre + 1) = ucast t"
    "?body ! (length pre + 2) = ucast (drop_bit 8 ?l)" "?body ! (length pre + 3) = ucast ?l"
    unfolding b by (simp_all add: nth_append be16_def)
  have l: "unat ?l = length v" using assms by (simp add: unat_of_nat)
  have val: "take (length v) (drop (length pre + 4) ?body) = v" unfolding b by (simp add: be16_def)
  have len: "length pre + 4 + length v \<le> length ?body" unfolding b by simp
  have "parse_attrs ?body (length pre) =
      (t, take (length v) (drop (length pre + 4) ?body)) # parse_attrs ?body (length pre + 4 + length v + attr_pad (length v))"
    by (rule parse_attrs_step) (simp_all only: n of_be16_be16 l len)
  then show ?thesis unfolding val by (simp only: attr_bytes_length add.assoc)
qed

lemma parse_attrs_concat:
  "\<forall>a \<in> set as. length (snd a) < 65536 \<Longrightarrow>
    parse_attrs (pre @ concat (map attr_bytes as)) (length pre) = as"
proof (induction as arbitrary: pre)
  case Nil
  then show ?case by (simp add: parse_attrs.simps)
next
  case (Cons a as)
  obtain t v where a: "a = (t, v)" by (cases a)
  have "parse_attrs (pre @ attr_bytes (t, v) @ concat (map attr_bytes as)) (length pre) =
      (t, v) # parse_attrs ((pre @ attr_bytes (t, v)) @ concat (map attr_bytes as)) (length (pre @ attr_bytes (t, v)))"
    using parse_attr[of v pre t "concat (map attr_bytes as)"] Cons.prems a by simp
  then show ?case using Cons.IH[of "pre @ attr_bytes (t, v)"] Cons.prems a by simp
qed

lemma build_message_fields:
  fixes ty :: u16 and body :: bytes
  assumes "length txn = 12"
  defines "m \<equiv> build_message ty txn body"
  shows "length m = 20 + length body" and "m ! 0 = ucast (drop_bit 8 ty)" and "m ! 1 = ucast ty"
    and "of_be16 (m ! 2) (m ! 3) = of_nat (length body)"
    and "of_be32 (m ! 4) (m ! 5) (m ! 6) (m ! 7) = MAGIC_COOKIE"
    and "take 12 (drop 8 m) = txn" and "drop 20 m = body"
proof -
  have m: "m = be16 ty @ be16 (of_nat (length body)) @ be32 MAGIC_COOKIE @ txn @ body" by (simp add: m_def build_message_def)
  show "length m = 20 + length body" "m ! 0 = ucast (drop_bit 8 ty)" "m ! 1 = ucast ty"
    "take 12 (drop 8 m) = txn" "drop 20 m = body"
    using assms(1) unfolding m by (simp_all add: be16_def be32_def)
  have "m ! 2 = ucast (drop_bit 8 (of_nat (length body) :: u16))" "m ! 3 = ucast (of_nat (length body) :: u16)"
    unfolding m by (simp_all add: be16_def)
  then show "of_be16 (m ! 2) (m ! 3) = of_nat (length body)" by (simp only: of_be16_be16)
  have "m ! 4 = ucast (drop_bit 24 MAGIC_COOKIE)" "m ! 5 = ucast (drop_bit 16 MAGIC_COOKIE)"
    "m ! 6 = ucast (drop_bit 8 MAGIC_COOKIE)" "m ! 7 = ucast MAGIC_COOKIE"
    unfolding m by (simp_all add: be16_def be32_def)
  then show "of_be32 (m ! 4) (m ! 5) (m ! 6) (m ! 7) = MAGIC_COOKIE" by (simp only: of_be32_be32)
qed

lemma parse_build:
  assumes "length txn = 12" and "\<forall>a \<in> set as. length (snd a) < 65536" and "length (concat (map attr_bytes as)) < 65536"
  shows "parse_message (build_message ty txn (concat (map attr_bytes as))) = Inr \<lparr>msg_type = ty, transaction_id = txn, attrs = as\<rparr>"
proof -
  let ?b = "concat (map attr_bytes as)"
  note f = build_message_fields[OF assms(1), of ty ?b]
  have l: "unat (of_nat (length ?b) :: u16) = length ?b" using assms(3) by (simp only: unat_of_nat) simp
  show ?thesis
    unfolding parse_message_def Let_def f(1,2,3,4,5,6,7) l
    using parse_attrs_concat[OF assms(2), of "[]"] by (simp only: of_be16_be16) simp
qed

section \<open>Addresses read back\<close>

definition xor_address :: "SocketAddr \<Rightarrow> bytes \<Rightarrow> bytes" where
  "xor_address a txn =
     (case sock_ip a of
        AddrV4 ip \<Rightarrow> [0, FAMILY_IPV4] @ be16 (sock_port a XOR ucast (drop_bit 16 MAGIC_COOKIE)) @ map2 (XOR) ip (be32 MAGIC_COOKIE)
      | AddrV6 ip \<Rightarrow> [0, FAMILY_IPV6] @ be16 (sock_port a XOR ucast (drop_bit 16 MAGIC_COOKIE))
          @ map2 (XOR) ip (be32 MAGIC_COOKIE @ txn))"

definition addr_wf :: "SocketAddr \<Rightarrow> bool" where
  "addr_wf a = (case sock_ip a of AddrV4 ip \<Rightarrow> length ip = 4 | AddrV6 ip \<Rightarrow> length ip = 16)"

lemma xor_cancel: "(x XOR y) XOR y = (x :: 'a::len word)"
  by (simp add: xor.assoc)

lemma length4: "length xs = 4 \<Longrightarrow> \<exists>a b c d. xs = [a, b, c, d]"
  by (auto simp: numeral_eq_Suc length_Suc_conv)

lemma be32_of_be32: "be32 (of_be32 a b c d) = [a, b, c, d]"
proof -
  have "(ucast (drop_bit 24 (of_be32 a b c d)) :: u8) = a" by (rule bit_word_eqI) (auto simp: of_be32_def bit_simps dest: bit_imp_le_length)
  moreover have "(ucast (drop_bit 16 (of_be32 a b c d)) :: u8) = b" by (rule bit_word_eqI) (auto simp: of_be32_def bit_simps dest: bit_imp_le_length)
  moreover have "(ucast (drop_bit 8 (of_be32 a b c d)) :: u8) = c" by (rule bit_word_eqI) (auto simp: of_be32_def bit_simps dest: bit_imp_le_length)
  moreover have "(ucast (of_be32 a b c d) :: u8) = d" by (rule bit_word_eqI) (auto simp: of_be32_def bit_simps dest: bit_imp_le_length)
  ultimately show ?thesis by (simp only: be32_def)
qed

lemma ucast_xor: "ucast (x XOR y) = ucast x XOR (ucast y :: u8)" for x y :: u32
  by (rule bit_word_eqI) (auto simp: bit_simps)

lemma be32_xor: "be32 (x XOR y) = map2 (XOR) (be32 x) (be32 y)"
  by (simp add: be32_def ucast_xor)

lemma decode_xor_address:
  assumes "addr_wf a" and "length txn = 12"
  shows "decode_xor_mapped_address (xor_address a txn) txn = Inr a"
proof (cases "sock_ip a")
  case (AddrV4 ip)
  then obtain b0 b1 b2 b3 where ip: "ip = [b0, b1, b2, b3]" using assms(1) length4[of ip] by (auto simp: addr_wf_def)
  let ?m = "ucast (drop_bit 16 MAGIC_COOKIE) :: u16"
  let ?c = "be32 MAGIC_COOKIE"
  have v: "xor_address a txn = [0, FAMILY_IPV4, ucast (drop_bit 8 (sock_port a XOR ?m)), ucast (sock_port a XOR ?m),
      b0 XOR ?c ! 0, b1 XOR ?c ! 1, b2 XOR ?c ! 2, b3 XOR ?c ! 3]"
    using AddrV4 ip by (simp add: xor_address_def be16_def be32_def)
  have c: "?c = [?c ! 0, ?c ! 1, ?c ! 2, ?c ! 3]" by (rule four_list) simp
  have x: "be32 (of_be32 (b0 XOR ?c ! 0) (b1 XOR ?c ! 1) (b2 XOR ?c ! 2) (b3 XOR ?c ! 3) XOR MAGIC_COOKIE) = ip"
    unfolding be32_xor be32_of_be32 ip by (subst (5) c) (simp add: xor_cancel)
  have nth: "xor_address a txn ! 1 = FAMILY_IPV4" "xor_address a txn ! 2 = ucast (drop_bit 8 (sock_port a XOR ?m))"
    "xor_address a txn ! 3 = ucast (sock_port a XOR ?m)" "xor_address a txn ! 4 = b0 XOR ?c ! 0"
    "xor_address a txn ! 5 = b1 XOR ?c ! 1" "xor_address a txn ! 6 = b2 XOR ?c ! 2"
    "xor_address a txn ! 7 = b3 XOR ?c ! 3" "length (xor_address a txn) = 8"
    unfolding v by simp_all
  show ?thesis
    unfolding decode_xor_mapped_address_def Let_def nth of_be16_be16 xor_cancel x
    using AddrV4 by simp
next
  case (AddrV6 ip)
  then have l: "length ip = 16" using assms(1) by (simp add: addr_wf_def)
  let ?m = "ucast (drop_bit 16 MAGIC_COOKIE) :: u16"
  let ?k = "be32 MAGIC_COOKIE @ txn"
  have v: "xor_address a txn = [0, FAMILY_IPV6, ucast (drop_bit 8 (sock_port a XOR ?m)), ucast (sock_port a XOR ?m)] @ map2 (XOR) ip ?k"
    using AddrV6 by (simp add: xor_address_def be16_def)
  have nth: "xor_address a txn ! 1 = FAMILY_IPV6" "xor_address a txn ! 2 = ucast (drop_bit 8 (sock_port a XOR ?m))"
    "xor_address a txn ! 3 = ucast (sock_port a XOR ?m)" "length (xor_address a txn) = 20"
    unfolding v using l assms(2) by simp_all
  have "map (\<lambda>i. xor_address a txn ! (4 + i) XOR ?k ! i) [0 ..< 16] = ip"
    by (rule nth_equalityI) (use l assms(2) in \<open>simp_all add: v nth_append xor_cancel\<close>)
  then show ?thesis
    unfolding decode_xor_mapped_address_def Let_def nth of_be16_be16 xor_cancel
    using AddrV6 by (simp add: FAMILY_IPV4_def FAMILY_IPV6_def)
qed

definition attrs_built :: "(u16 \<times> bytes) list \<Rightarrow> bytes" where
  "attrs_built as = foldl (\<lambda>out (t, v). attr_push out t v) [] as"

lemma attrs_built_concat: "attrs_built as = concat (map attr_bytes as)"
proof -
  have "foldl (\<lambda>out (t, v). attr_push out t v) out as = out @ concat (map attr_bytes as)" for out
    by (induction as arbitrary: out) (auto simp: attr_push_eq)
  then show ?thesis by (simp add: attrs_built_def)
qed

section \<open>Streams\<close>

definition framed :: "bytes \<Rightarrow> bool" where
  "framed m \<longleftrightarrow> 20 \<le> length m \<and> length m = 20 + unat (of_be16 (m ! 2) (m ! 3))"

lemma read_framed: "framed m \<Longrightarrow> read_one_stun_message (m @ rest) = Some (m, rest)"
  by (auto simp: framed_def read_one_stun_message_def Let_def nth_append take_all_iff)

lemma build_framed: "length txn = 12 \<Longrightarrow> length body < 65536 \<Longrightarrow> framed (build_message ty txn body)"
  using build_message_fields[of txn ty body] by (simp add: framed_def unat_of_nat)

text \<open>C17: a message built from a list of attributes parses back to its type, transaction identifier and
  exactly these attributes, padding removed; on a stream it is read as one message, and the bytes after
  it are left for the next read.\<close>

theorem stun_message_round_trip:
  assumes "length txn = 12" and "\<forall>a \<in> set as. length (snd a) < 65536" and "length (attrs_built as) < 65536"
  shows "parse_message (build_message ty txn (attrs_built as)) = Inr \<lparr>msg_type = ty, transaction_id = txn, attrs = as\<rparr>
    \<and> read_one_stun_message (build_message ty txn (attrs_built as) @ rest) =
           Some (build_message ty txn (attrs_built as), rest)"
  using parse_build[of txn as] read_framed build_framed assms by (simp add: attrs_built_concat)

theorem stun_message_round_trip_witness:
  "parse_message (build_message BINDING_SUCCESS (replicate 12 7) (attrs_built [(ATTR_REALM, [1, 2, 3]), (ATTR_NONCE, [])])) =
     Inr \<lparr>msg_type = BINDING_SUCCESS, transaction_id = replicate 12 7, attrs = [(ATTR_REALM, [1, 2, 3]), (ATTR_NONCE, [])]\<rparr>"
  by (rule stun_message_round_trip[THEN conjunct1]) (simp_all add: attrs_built_def attr_push_def attr_pad_def)

section \<open>Binding responses\<close>

lemma find_attr_first: "find_attr t before = None \<Longrightarrow> find_attr t (before @ (t, v) # after) = Some v"
  by (induction before) (auto simp: find_attr_def split: if_splits)

lemma parse_binding_ok:
  assumes "parse_binding_response bs txn = Inr a"
  shows "\<exists>p. parse_message bs = Inr p \<and> transaction_id p = txn \<and> msg_type p = BINDING_SUCCESS"
  using assms unfolding parse_binding_response_def by (auto split: sum.splits if_splits prod.splits)

lemma parse_message_bytes:
  "parse_message bs = Inr p \<Longrightarrow>
     20 \<le> length bs \<and> of_be32 (bs ! 4) (bs ! 5) (bs ! 6) (bs ! 7) = MAGIC_COOKIE
     \<and> transaction_id p = take 12 (drop 8 bs) \<and> msg_type p = of_be16 (bs ! 0) (bs ! 1)"
  by (auto simp: parse_message_def Let_def split: if_splits)

text \<open>A binding is reported only for a response of at least a header's length with the RFC 5389
  cookie, the request's transaction identifier and the type of a success; and a server that answers
  the request with the reflexive address encoded as the RFC prescribes (exclusive or with the cookie, and for
  IPv6 with the transaction identifier), whatever the other attributes before and after it, is read
  back as exactly that address. The same response to any other request is refused.\<close>

theorem binding_response_validated:
  "(\<forall>a. parse_binding_response bs txn = Inr a \<longrightarrow>
      20 \<le> length bs \<and> of_be32 (bs ! 4) (bs ! 5) (bs ! 6) (bs ! 7) = MAGIC_COOKIE
      \<and> take 12 (drop 8 bs) = txn \<and> of_be16 (bs ! 0) (bs ! 1) = BINDING_SUCCESS)
   \<and> (length txn = 12 \<and> addr_wf a \<and> find_attr ATTR_XOR_MAPPED_ADDRESS before = None
       \<and> (\<forall>x \<in> set (before @ after). length (snd x) < 65536)
       \<and> length (attrs_built (before @ (ATTR_XOR_MAPPED_ADDRESS, xor_address a txn) # after)) < 65536 \<longrightarrow>
      (\<forall>expected. parse_binding_response
         (build_message BINDING_SUCCESS txn (attrs_built (before @ (ATTR_XOR_MAPPED_ADDRESS, xor_address a txn) # after)))
         expected = (if expected = txn then Inr a else Inl TransactionIdMismatch)))"
proof -
  have 1: "parse_binding_response bs txn = Inr b \<Longrightarrow>
      20 \<le> length bs \<and> of_be32 (bs ! 4) (bs ! 5) (bs ! 6) (bs ! 7) = MAGIC_COOKIE
      \<and> take 12 (drop 8 bs) = txn \<and> of_be16 (bs ! 0) (bs ! 1) = BINDING_SUCCESS" for b
    using parse_binding_ok[of bs txn b] parse_message_bytes[of bs] by auto
  let ?as = "before @ (ATTR_XOR_MAPPED_ADDRESS, xor_address a txn) # after"
  have 2: "parse_binding_response (build_message BINDING_SUCCESS txn (attrs_built ?as)) expected =
      (if expected = txn then Inr a else Inl TransactionIdMismatch)"
    if t: "length txn = 12" and w: "addr_wf a" and n: "find_attr ATTR_XOR_MAPPED_ADDRESS before = None"
      and l: "\<forall>x \<in> set (before @ after). length (snd x) < 65536" and b: "length (attrs_built ?as) < 65536" for expected
  proof -
    have "length (xor_address a txn) < 65536"
      by (cases "sock_ip a") (use w t in \<open>auto simp: xor_address_def addr_wf_def be16_def\<close>)
    then have "\<forall>x \<in> set ?as. length (snd x) < 65536" using l by auto
    then have p: "parse_message (build_message BINDING_SUCCESS txn (attrs_built ?as)) =
        Inr \<lparr>msg_type = BINDING_SUCCESS, transaction_id = txn, attrs = ?as\<rparr>"
      using parse_build[OF t] b unfolding attrs_built_concat by blast
    have "find_attr ATTR_XOR_MAPPED_ADDRESS ?as = Some (xor_address a txn)"
      using n by (rule find_attr_first)
    then show ?thesis
      unfolding parse_binding_response_def p using decode_xor_address[OF w t] by simp
  qed
  show ?thesis using 1 2 by blast
qed

theorem binding_response_validated_witness:
  "parse_binding_response
     (build_message BINDING_SUCCESS (replicate 12 7)
       (attrs_built [(ATTR_XOR_MAPPED_ADDRESS, xor_address \<lparr>sock_ip = AddrV4 [192, 0, 2, 1], sock_port = 5000\<rparr> (replicate 12 7))]))
     (replicate 12 7) = Inr \<lparr>sock_ip = AddrV4 [192, 0, 2, 1], sock_port = 5000\<rparr>"
  using binding_response_validated[of "[]" "replicate 12 7" "\<lparr>sock_ip = AddrV4 [192, 0, 2, 1], sock_port = 5000\<rparr>" "[]" "[]"]
  by (simp add: addr_wf_def find_attr_def attrs_built_def attr_push_def attr_pad_def xor_address_def be32_def)

section \<open>Message integrity\<close>

lemma hmac_length: "length (hmac_sha1 key m) = 20"
  by (simp add: hmac_sha1_def Let_def sha1_length)

definition auth_attrs :: "bytes \<Rightarrow> bytes \<Rightarrow> bytes \<Rightarrow> (u16 \<times> bytes) list" where
  "auth_attrs user realm nonce =
     [(ATTR_REQUESTED_TRANSPORT, [17, 0, 0, 0]), (ATTR_USERNAME, user), (ATTR_REALM, realm), (ATTR_NONCE, nonce)]"

lemma authenticated_request:
  fixes user realm nonce :: bytes
  defines "as \<equiv> attrs_built (auth_attrs user realm nonce)"
  shows "build_authenticated_allocate_request txn user realm nonce key =
    (let text = be16 ALLOCATE_REQUEST @ be16 (of_nat (length as + 24)) @ be32 MAGIC_COOKIE @ txn @ as
     in text @ attr_bytes (ATTR_MESSAGE_INTEGRITY, hmac_sha1 key text))"
  by (simp add: build_authenticated_allocate_request_def Let_def as_def attrs_built_def auth_attrs_def build_message_def
      attr_push_eq[of _ ATTR_MESSAGE_INTEGRITY] attr_bytes_length hmac_length attr_pad_def)

text \<open>C18: the authenticated request carries the transport, user name, realm and nonce and, last, a
  MESSAGE-INTEGRITY that a receiver computing RFC 5389 section 15.4 accepts: it is the HMAC-SHA1 under the key of
  the bytes before the attribute, whose length field already counts it.\<close>

theorem integrity_verifies:
  assumes "length txn = 12" and "length user < 20000" and "length realm < 20000" and "length nonce < 20000"
  shows "let req = build_authenticated_allocate_request txn user realm nonce key; text = take (length req - 24) req in
    parse_message req = Inr \<lparr>msg_type = ALLOCATE_REQUEST, transaction_id = txn,
        attrs = auth_attrs user realm nonce @ [(ATTR_MESSAGE_INTEGRITY, hmac_sha1 key text)]\<rparr>
    \<and> unat (of_be16 (text ! 2) (text ! 3)) = length req - 20"
proof -
  let ?as = "attrs_built (auth_attrs user realm nonce)"
  let ?text = "be16 ALLOCATE_REQUEST @ be16 (of_nat (length ?as + 24)) @ be32 MAGIC_COOKIE @ txn @ ?as"
  let ?mi = "(ATTR_MESSAGE_INTEGRITY, hmac_sha1 key ?text)"
  let ?req = "build_authenticated_allocate_request txn user realm nonce key"
  have req: "?req = ?text @ attr_bytes ?mi" by (simp add: authenticated_request Let_def)
  have mi: "length (attr_bytes ?mi) = 24" by (simp add: attr_bytes_length hmac_length attr_pad_def)
  have pad: "attr_pad n < 4" for n by (simp add: attr_pad_def)
  have as: "length ?as < 61000"
    using assms pad[of "length user"] pad[of "length realm"] pad[of "length nonce"] pad[of "Suc (Suc (Suc (Suc 0)))"]
    by (simp add: attrs_built_concat auth_attrs_def attr_bytes_length)
  have tx: "take (length ?req - 24) ?req = ?text" unfolding req length_append mi by simp
  have all: "concat (map attr_bytes (auth_attrs user realm nonce @ [?mi])) = ?as @ attr_bytes ?mi"
    by (simp add: attrs_built_concat)
  have bm: "?req = build_message ALLOCATE_REQUEST txn (concat (map attr_bytes (auth_attrs user realm nonce @ [?mi])))"
    unfolding all build_message_def req length_append mi by simp
  have "\<forall>a \<in> set (auth_attrs user realm nonce @ [?mi]). length (snd a) < 65536"
    using assms by (auto simp: auth_attrs_def hmac_length)
  moreover have "length (concat (map attr_bytes (auth_attrs user realm nonce @ [?mi]))) < 65536"
    unfolding all length_append mi using as by simp
  ultimately have p: "parse_message ?req = Inr \<lparr>msg_type = ALLOCATE_REQUEST, transaction_id = txn,
      attrs = auth_attrs user realm nonce @ [?mi]\<rparr>"
    unfolding bm by (rule parse_build[OF assms(1)])
  have f: "framed ?req" unfolding bm by (rule build_framed[OF assms(1)]) (use as in \<open>simp only: all length_append mi\<close>)
  have "?req ! i = ?text ! i" if "i < 20" for i unfolding req using that assms(1) by (simp add: nth_append)
  then have "?text ! 2 = ?req ! 2" "?text ! 3 = ?req ! 3" by simp_all
  then show ?thesis unfolding Let_def tx using p f by (simp only: framed_def) simp
qed

theorem integrity_verifies_witness:
  "let req = build_authenticated_allocate_request (replicate 12 7) [117] [114] [110] (replicate 16 9);
       text = take (length req - 24) req in
    parse_message req = Inr \<lparr>msg_type = ALLOCATE_REQUEST, transaction_id = replicate 12 7,
        attrs = auth_attrs [117] [114] [110] @ [(ATTR_MESSAGE_INTEGRITY, hmac_sha1 (replicate 16 9) text)]\<rparr>
    \<and> unat (of_be16 (text ! 2) (text ! 3)) = length req - 20"
  by (rule integrity_verifies) simp_all

section \<open>The allocation exchange\<close>

lemma allocated_answer:
  assumes "outcome_or_invalid (parse_allocate_response bs txn) = Allocated l r"
  shows "\<exists>p. parse_message bs = Inr p \<and> transaction_id p = txn \<and> msg_type p = ALLOCATE_SUCCESS
    \<and> allocate_fields (attrs p) txn = (Some l, Some r)"
  using assms unfolding parse_allocate_response_def outcome_or_invalid_def
  by (auto split: sum.splits if_splits prod.splits option.splits)

definition is_allocation :: "bytes \<Rightarrow> bytes \<Rightarrow> u32 \<Rightarrow> SocketAddr \<Rightarrow> bool" where
  "is_allocation bs txn l r =
     (case parse_message bs of
        Inl _ \<Rightarrow> False
      | Inr p \<Rightarrow> transaction_id p = txn \<and> msg_type p = ALLOCATE_SUCCESS \<and> allocate_fields (attrs p) txn = (Some l, Some r))"

lemma is_allocation_answer:
  "outcome_or_invalid (parse_allocate_response bs txn) = Allocated l r \<longleftrightarrow> is_allocation bs txn l r"
proof
  assume "outcome_or_invalid (parse_allocate_response bs txn) = Allocated l r"
  from allocated_answer[OF this] show "is_allocation bs txn l r" by (auto simp: is_allocation_def)
next
  assume "is_allocation bs txn l r"
  then show "outcome_or_invalid (parse_allocate_response bs txn) = Allocated l r"
    by (auto simp: is_allocation_def parse_allocate_response_def outcome_or_invalid_def split: sum.splits)
qed

text \<open>The challenge of a first answer: realm and nonce of an allocate error.\<close>

definition challenge :: "bytes \<Rightarrow> (bytes \<times> bytes) option" where
  "challenge bs =
     (case parse_message bs of
        Inl _ \<Rightarrow> None
      | Inr p \<Rightarrow> if msg_type p \<noteq> ALLOCATE_ERROR then None
          else (case extract_realm_nonce (attrs p) of (Some realm, Some nonce) \<Rightarrow> Some (realm, nonce) | _ \<Rightarrow> None))"

definition second_request :: "TurnCredentials \<Rightarrow> bytes \<Rightarrow> bytes \<times> bytes \<Rightarrow> bytes" where
  "second_request creds txn c =
     build_authenticated_allocate_request txn (username creds) (fst c) (snd c) (long_term_key (username creds) (fst c) (password creds))"

lemmas exchange_defs = turn_allocate_udp_def challenge_def second_request_def Let_def

lemma udp_no_challenge:
  assumes "udp_send1 w" and "udp_recv1 w = Some d" and "challenge (take 1024 d) = None"
  shows "snd (turn_allocate_udp w (Some creds)) = [build_allocate_request (udp_txn1 w)]"
    and "fst (turn_allocate_udp w (Some creds)) = Allocated l r \<longleftrightarrow> is_allocation (take 1024 d) (udp_txn1 w) l r"
  using assms
  by (auto simp: exchange_defs is_allocation_answer is_allocation_def message_types split: sum.splits prod.splits option.splits if_splits)

lemma udp_challenged:
  assumes "udp_send1 w" and "udp_recv1 w = Some d" and "challenge (take 1024 d) = Some c"
  shows "turn_allocate_udp w (Some creds) =
    (if udp_send2 w
     then (case udp_recv2 w of None \<Rightarrow> Unreachable | Some e \<Rightarrow> outcome_or_invalid (parse_allocate_response (take 1024 e) (udp_txn2 w)))
     else Unreachable, [build_allocate_request (udp_txn1 w), second_request creds (udp_txn2 w) c])"
  using assms
  by (auto simp: exchange_defs split: sum.splits prod.splits option.splits if_splits)

text \<open>Without credentials nothing is sent. With them the first message is the unauthenticated
  request, and a second is sent exactly when a challenge with realm and nonce arrived, signed for that realm and
  nonce. An allocation is reported exactly when an answer to one of the two requests is a success with that request's
  transaction identifier, a lifetime and a relayed address.\<close>

theorem turn_exchange:
  "turn_allocate_udp w None = (NoCredentialsSupplied, [])
   \<and> (let c = (if udp_send1 w then Option.bind (udp_recv1 w) (\<lambda>d. challenge (take 1024 d)) else None) in
      snd (turn_allocate_udp w (Some creds)) =
        build_allocate_request (udp_txn1 w) # (case c of None \<Rightarrow> [] | Some rn \<Rightarrow> [second_request creds (udp_txn2 w) rn])
      \<and> (fst (turn_allocate_udp w (Some creds)) = Allocated l r \<longleftrightarrow>
          (case c of
             None \<Rightarrow> udp_send1 w \<and> (case udp_recv1 w of None \<Rightarrow> False | Some d \<Rightarrow> is_allocation (take 1024 d) (udp_txn1 w) l r)
           | Some _ \<Rightarrow> udp_send2 w \<and> (case udp_recv2 w of None \<Rightarrow> False | Some d \<Rightarrow> is_allocation (take 1024 d) (udp_txn2 w) l r))))"
proof -
  have 1: "turn_allocate_udp w None = (NoCredentialsSupplied, [])" by (simp add: turn_allocate_udp_def)
  consider "\<not> udp_send1 w \<or> udp_recv1 w = None"
    | d where "udp_send1 w" "udp_recv1 w = Some d" "challenge (take 1024 d) = None"
    | d c where "udp_send1 w" "udp_recv1 w = Some d" "challenge (take 1024 d) = Some c"
    by (cases "udp_recv1 w"; cases "challenge (take 1024 (the (udp_recv1 w)))") auto
  then show ?thesis
  proof cases
    case 1
    then show ?thesis by (auto simp: turn_allocate_udp_def Let_def split: option.splits)
  next
    case 2
    then show ?thesis using 1 udp_no_challenge[OF 2] by (simp add: Let_def)
  next
    case 3
    then show ?thesis using 1 udp_challenged[OF 3] by (auto simp: Let_def is_allocation_answer split: option.splits)
  qed
qed

text \<open>The exchange over a stream is the exchange over datagrams: when the stream carries the two answers
  one after the other, each a complete message that fits the datagram buffer, the outcome and the requests
  written are those of the UDP exchange with these answers as datagrams, so the framing neither loses nor merges
  answers.\<close>

theorem turn_tcp_is_udp:
  assumes "framed m1" and "framed m2" and "length m1 \<le> 1024" and "length m2 \<le> 1024"
  shows "turn_allocate_tcp \<lparr>tcp_txn1 = t1, tcp_write1 = s1, tcp_txn2 = t2, tcp_write2 = s2, tcp_stream = m1 @ m2\<rparr> c =
    turn_allocate_udp \<lparr>udp_txn1 = t1, udp_send1 = s1, udp_recv1 = Some m1, udp_txn2 = t2, udp_send2 = s2, udp_recv2 = Some m2\<rparr> c"
proof -
  have "read_one_stun_message (m1 @ m2) = Some (m1, m2)" "read_one_stun_message m2 = Some (m2, [])"
    using read_framed[OF assms(1), of m2] read_framed[OF assms(2), of "[]"] by simp_all
  moreover have "take 1024 m1 = m1" "take 1024 m2 = m2" using assms(3,4) by simp_all
  ultimately show ?thesis unfolding turn_allocate_tcp_def turn_allocate_udp_def
    by (auto simp: Let_def split: option.splits sum.splits prod.splits)
qed

theorem turn_tcp_is_udp_witness:
  "turn_allocate_tcp \<lparr>tcp_txn1 = replicate 12 1, tcp_write1 = True, tcp_txn2 = replicate 12 2, tcp_write2 = True,
       tcp_stream = build_message ALLOCATE_ERROR (replicate 12 1) [] @ build_message ALLOCATE_ERROR (replicate 12 2) []\<rparr>
     (Some \<lparr>username = [117], password = [112]\<rparr>) =
   turn_allocate_udp \<lparr>udp_txn1 = replicate 12 1, udp_send1 = True, udp_recv1 = Some (build_message ALLOCATE_ERROR (replicate 12 1) []),
       udp_txn2 = replicate 12 2, udp_send2 = True, udp_recv2 = Some (build_message ALLOCATE_ERROR (replicate 12 2) [])\<rparr>
     (Some \<lparr>username = [117], password = [112]\<rparr>)"
  by (rule turn_tcp_is_udp) (simp_all add: build_framed build_message_fields(1))

text \<open>The transaction identifier of the challenge is never compared with that of the request: a challenge
  with any other identifier, from any sender that reaches the socket, makes the client send a request signed with
  the password's key for the realm and nonce of the challenge.\<close>

theorem challenge_transaction_unchecked:
  assumes "length forged = 12" and "length (udp_txn1 w) = 12" and "length (attrs_built as) < 1000"
    and "\<forall>a \<in> set as. length (snd a) < 65536" and "extract_realm_nonce as = (Some realm, Some nonce)"
    and "udp_send1 w" and "udp_recv1 w = Some (build_message ALLOCATE_ERROR forged (attrs_built as))"
  shows "second_request creds (udp_txn2 w) (realm, nonce) \<in> set (snd (turn_allocate_udp w (Some creds)))
    \<and> turn_allocate_udp w (Some creds) =
        turn_allocate_udp (w\<lparr>udp_recv1 := Some (build_message ALLOCATE_ERROR (udp_txn1 w) (attrs_built as))\<rparr>) (Some creds)"
proof -
  have p: "challenge (take 1024 (build_message ALLOCATE_ERROR t (attrs_built as))) = Some (realm, nonce)" if "length t = 12" for t
  proof -
    have "length (build_message ALLOCATE_ERROR t (attrs_built as)) \<le> 1024"
      using build_message_fields(1)[OF that] assms(3) by simp
    moreover have "parse_message (build_message ALLOCATE_ERROR t (attrs_built as)) =
        Inr \<lparr>msg_type = ALLOCATE_ERROR, transaction_id = t, attrs = as\<rparr>"
      unfolding attrs_built_concat by (rule parse_build[OF that]) (use assms(3,4) in \<open>simp_all add: attrs_built_concat\<close>)
    ultimately show ?thesis using assms(5) by (simp add: challenge_def)
  qed
  let ?w = "w\<lparr>udp_recv1 := Some (build_message ALLOCATE_ERROR (udp_txn1 w) (attrs_built as))\<rparr>"
  have 1: "turn_allocate_udp w (Some creds) = turn_allocate_udp ?w (Some creds)"
    unfolding udp_challenged[OF assms(6,7) p[OF assms(1)]]
    by (subst udp_challenged[of ?w, OF _ _ p[OF assms(2)]]) (use assms(6) in \<open>simp_all split: option.split\<close>)
  have "second_request creds (udp_txn2 w) (realm, nonce) \<in> set (snd (turn_allocate_udp w (Some creds)))"
    unfolding udp_challenged[OF assms(6,7) p[OF assms(1)]] by simp
  then show ?thesis using 1 by (rule conjI)
qed

theorem challenge_transaction_unchecked_witness:
  "second_request \<lparr>username = [117], password = [112]\<rparr> (replicate 12 2) ([114], [110]) \<in>
     set (snd (turn_allocate_udp \<lparr>udp_txn1 = replicate 12 1, udp_send1 = True,
       udp_recv1 = Some (build_message ALLOCATE_ERROR (replicate 12 9) (attrs_built [(ATTR_REALM, [114]), (ATTR_NONCE, [110])])),
       udp_txn2 = replicate 12 2, udp_send2 = True, udp_recv2 = None\<rparr> (Some \<lparr>username = [117], password = [112]\<rparr>)))"
  using challenge_transaction_unchecked[THEN conjunct1, of "replicate 12 9"
    "\<lparr>udp_txn1 = replicate 12 1, udp_send1 = True,
       udp_recv1 = Some (build_message ALLOCATE_ERROR (replicate 12 9) (attrs_built [(ATTR_REALM, [114]), (ATTR_NONCE, [110])])),
       udp_txn2 = replicate 12 2, udp_send2 = True, udp_recv2 = None\<rparr>" "[(ATTR_REALM, [114]), (ATTR_NONCE, [110])]" "[114]" "[110]"
    "\<lparr>username = [117], password = [112]\<rparr>"]
  by (simp add: attrs_built_def attr_push_def attr_pad_def extract_realm_nonce_def ATTR_REALM_def ATTR_NONCE_def)

end
