(* ===== verification/Capacity_Knee.thy ===== *)
theory Capacity_Knee
  imports F64_Ext
begin

text \<open>
  \<open>network_tests/capacity_knee.rs\<close>: a sweep over offered rates, the rate at which throughput stops following the
  load, its confirmation by a second method, and the claim an operator may make. Sorting by offered rate panics when a rate
  is not a number and at least two points are compared.
\<close>

section \<open>Points\<close>

datatype PointRejection =
    DurationInconsistent f64 f64
  | ProcessFailure string
  | SchemaIncomplete "string list"

fun rejection_reason :: "PointRejection \<Rightarrow> string" where
  "rejection_reason (DurationInconsistent requested_secs reported_secs) =
     ''reported a '' @ fmt_prec 2 (reported_secs) @ ''s interval for a '' @ fmt_prec 2 (requested_secs)
            @ ''s request, so the measurement window is not trustworthy''"
| "rejection_reason (ProcessFailure detail) = ''the runner failed before measuring: '' @ detail"
| "rejection_reason (SchemaIncomplete missing) = ''result schema lacked required field(s): '' @ join '', '' missing"

definition DURATION_TOLERANCE :: f64 where "DURATION_TOLERANCE = f64_round (20 / 100)"

record SweepPoint =
  offered_mbps :: f64
  up_mbps :: "f64 option"
  down_mbps :: "f64 option"
  loaded_latency_ms :: "f64 option"
  listener_label :: "string option"
  execution_index :: nat
  rejected :: "PointRejection option"

definition usable :: "SweepPoint \<Rightarrow> bool" where
  "usable p \<longleftrightarrow> rejected p = None \<and> up_mbps p \<noteq> None \<and> down_mbps p \<noteq> None"

definition combined_mbps :: "SweepPoint \<Rightarrow> f64 option" where
  "combined_mbps p =
     (case (up_mbps p, down_mbps p) of
        (Some u, Some d) \<Rightarrow> if rejected p = None then Some (f64_add u d) else None
      | _ \<Rightarrow> None)"

definition balance :: "SweepPoint \<Rightarrow> f64 option" where
  "balance p =
     (case (up_mbps p, down_mbps p) of
        (Some u, Some d) \<Rightarrow>
          if rejected p = None
          then let hi = f64_max u d in if f64_le hi (Fin 0) then None else Some (f64_div (f64_min u d) hi)
          else None
      | _ \<Rightarrow> None)"

definition reject_if_invalid :: "f64 \<Rightarrow> f64 option \<Rightarrow> string option \<Rightarrow> PointRejection option" where
  "reject_if_invalid requested_secs reported_secs err =
     (case (case err of Some e \<Rightarrow> if trim e \<noteq> [] then Some e else None | None \<Rightarrow> None) of
        Some e \<Rightarrow> Some (ProcessFailure e)
      | None \<Rightarrow>
          (case reported_secs of
             None \<Rightarrow> Some (SchemaIncomplete [''reported_interval_secs''])
           | Some r \<Rightarrow>
               if f64_lt (Fin 0) requested_secs
               then let dev = f64_abs (f64_div (f64_sub r requested_secs) requested_secs)
                    in if f64_lt DURATION_TOLERANCE dev then Some (DurationInconsistent requested_secs r) else None
               else None))"

section \<open>The knee\<close>

datatype KneeVerdict =
    is_CapacityPlateau: CapacityPlateau (knee_offered: f64) (plateau_combined: f64) (knee_detail: string)
  | is_DirectionalUnfairness: DirectionalUnfairness (knee_offered: f64) (weaker_direction: string) (knee_balance: f64) (knee_detail: string)
  | NoKneeWithinTestedRange f64
  | InsufficientPoints nat nat

definition UNFAIR_BALANCE :: f64 where "UNFAIR_BALANCE = f64_round (80 / 100)"
definition TRACKING_EFFICIENCY :: f64 where "TRACKING_EFFICIENCY = Fin (1 / 2)"
definition MIN_POINTS :: nat where "MIN_POINTS = 3"

definition knee_at :: "SweepPoint \<Rightarrow> SweepPoint \<Rightarrow> KneeVerdict option" where
  "knee_at lo hi =
     (let offered_gain = f64_mul (f64_sub (offered_mbps hi) (offered_mbps lo)) (Fin 2) in
      if f64_le offered_gain (Fin 0) then None
      else
        let lo_c = unwrap_or (combined_mbps lo) (Fin 0);
            hi_c = unwrap_or (combined_mbps hi) (Fin 0);
            tracking = f64_div (f64_sub hi_c lo_c) offered_gain
        in if \<not> f64_lt tracking TRACKING_EFFICIENCY then None
           else
             let bal = unwrap_or (balance hi) (Fin 1) in
             if f64_le bal UNFAIR_BALANCE then
               let weaker = (case (up_mbps hi, down_mbps hi) of
                     (Some u, Some d) \<Rightarrow> if f64_lt u d then ''upload'' else ''download''
                   | _ \<Rightarrow> ''download'')
               in Some (DirectionalUnfairness (offered_mbps hi) weaker bal
                    (''at '' @ fmt_prec 0 (offered_mbps hi) @ '' Mbps per direction '' @ weaker @ '' fell to ''
            @ fmt_prec 1 (f64_min (unwrap_or (up_mbps hi) (Fin 0)) (unwrap_or (down_mbps hi) (Fin 0)))
            @ '' Mbps while the other held at ''
            @ fmt_prec 1 (f64_max (unwrap_or (up_mbps hi) (Fin 0)) (unwrap_or (down_mbps hi) (Fin 0)))
            @ '' Mbps (balance '' @ fmt_prec 2 bal
            @ ''); one direction collapsed rather than both sharing a ceiling''))
             else Some (CapacityPlateau (offered_mbps lo) hi_c
                    (''combined throughput tracked offered load through '' @ fmt_prec 0 (offered_mbps lo)
            @ '' Mbps per direction then flattened near '' @ fmt_prec 1 hi_c
            @ '' Mbps combined while the split stayed balanced (balance '' @ fmt_prec 2 bal
            @ ''); this is a shared capacity ceiling, not one direction losing'')))"

fun first_knee :: "(SweepPoint \<times> SweepPoint) list \<Rightarrow> KneeVerdict option" where
  "first_knee [] = None"
| "first_knee ((lo, hi) # ws) = (case knee_at lo hi of Some v \<Rightarrow> Some v | None \<Rightarrow> first_knee ws)"

definition detect_knee :: "SweepPoint list \<Rightarrow> KneeVerdict panics" where
  "detect_knee points =
     (let us = filter usable points in
      if length us < MIN_POINTS then Ret (InsufficientPoints (length us) MIN_POINTS)
      else if NaN \<in> offered_mbps ` set us then Panic
      else
        let us = sort_key offered_mbps us in
        Ret (case first_knee (adjacent us) of
               Some v \<Rightarrow> v
             | None \<Rightarrow> NoKneeWithinTestedRange (if us = [] then Fin 0 else offered_mbps (last us))))"

section \<open>Confirmation by a second method\<close>

datatype CrossValidation =
    Reproduced f64 f64
  | NotReproduced string
  | NotAttempted string

definition permits_established_claim :: "CrossValidation \<Rightarrow> bool" where
  "permits_established_claim c = (case c of Reproduced _ _ \<Rightarrow> True | _ \<Rightarrow> False)"

definition KNEE_AGREEMENT :: f64 where "KNEE_AGREEMENT = f64_round (35 / 100)"

fun knee_of :: "KneeVerdict \<Rightarrow> f64 option" where
  "knee_of (CapacityPlateau k _ _) = Some k"
| "knee_of (DirectionalUnfairness k _ _ _) = Some k"
| "knee_of _ = None"

definition cross_validate :: "KneeVerdict \<Rightarrow> KneeVerdict option \<Rightarrow> CrossValidation" where
  "cross_validate native application =
     (case application of
        None \<Rightarrow> NotAttempted ''no application-method sweep was supplied''
      | Some app \<Rightarrow>
          (case (knee_of native, knee_of app) of
             (Some n, Some a) \<Rightarrow>
               let hi = f64_max n a in
               if f64_lt (Fin 0) hi \<and> f64_le (f64_div (f64_abs (f64_sub n a)) hi) KNEE_AGREEMENT
               then Reproduced n a
               else NotReproduced
                 (''native found a knee at '' @ fmt_prec 0 n @ '' Mbps but the application method found one at ''
            @ fmt_prec 0 a @ '' Mbps, too far apart to be the same effect'')
           | (Some n, None) \<Rightarrow> NotReproduced
                 (''native found a knee at '' @ fmt_prec 0 n
            @ '' Mbps per direction but the application method found none; a single-method knee may be a load-generator artifact rather than a network limit (see GAP-069) and is therefore unconfirmed'')
           | (None, Some a) \<Rightarrow> NotReproduced
                 (''the application method found a knee at '' @ fmt_prec 0 a
            @ '' Mbps that native traffic did not reproduce'')
           | (None, None) \<Rightarrow> NotAttempted ''neither method found a knee to cross-validate''))"

section \<open>Drift and the report\<close>

record DriftBracket =
  opening_combined_mbps :: "f64 option"
  closing_combined_mbps :: "f64 option"

definition DRIFT_TOLERANCE :: f64 where "DRIFT_TOLERANCE = f64_round (15 / 100)"

definition drift_fraction :: "DriftBracket \<Rightarrow> f64 option" where
  "drift_fraction b =
     (case (opening_combined_mbps b, closing_combined_mbps b) of
        (Some o1, Some c) \<Rightarrow> if f64_lt (Fin 0) o1 then Some (f64_abs (f64_div (f64_sub c o1) o1)) else None
      | _ \<Rightarrow> None)"

definition exceeds_tolerance :: "DriftBracket \<Rightarrow> bool option" where
  "exceeds_tolerance b = map_option (\<lambda>d. f64_lt DRIFT_TOLERANCE d) (drift_fraction b)"

definition statement :: "DriftBracket \<Rightarrow> string" where
  "statement b =
     (case drift_fraction b of
        None \<Rightarrow> ''endpoint drift unavailable: both an opening and a closing control are required, and one is missing''
      | Some d \<Rightarrow>
          if f64_lt DRIFT_TOLERANCE d
          then ''endpoint drifted '' @ fmt_prec 1 (f64_mul d (Fin 100)) @ [CHR 0x25]
            @ '' between the opening and closing controls, above the ''
            @ fmt_prec 0 (f64_mul DRIFT_TOLERANCE (Fin 100)) @ [CHR 0x25]
            @ '' tolerance; sweep points are not comparable across that drift''
          else ''endpoint drift '' @ fmt_prec 1 (f64_mul d (Fin 100)) @ [CHR 0x25] @ '', within the ''
            @ fmt_prec 0 (f64_mul DRIFT_TOLERANCE (Fin 100)) @ [CHR 0x25] @ '' tolerance'')"

record KneeReport =
  kr_interface :: string
  native_points :: "SweepPoint list"
  application_points :: "SweepPoint list"
  native_verdict :: KneeVerdict
  application_verdict :: "KneeVerdict option"
  cross_validation :: CrossValidation
  drift :: DriftBracket
  idle_latency_ms :: "f64 option"
  rejected_points :: "(f64 \<times> string) list"
  established_claim :: "string option"

definition build_report :: "string \<Rightarrow> SweepPoint list \<Rightarrow> SweepPoint list \<Rightarrow> DriftBracket \<Rightarrow> f64 option \<Rightarrow> KneeReport panics" where
  "build_report interface native application dr idle =
     (case detect_knee native of
        Panic \<Rightarrow> Panic
      | Ret nv \<Rightarrow>
          (case (if application = [] then Ret None
                 else (case detect_knee application of Panic \<Rightarrow> Panic | Ret v \<Rightarrow> Ret (Some v))) of
             Panic \<Rightarrow> Panic
           | Ret av \<Rightarrow>
               let cv = cross_validate nv av in
               Ret \<lparr>kr_interface = interface, native_points = native, application_points = application,
                 native_verdict = nv, application_verdict = av, cross_validation = cv, drift = dr, idle_latency_ms = idle,
                 rejected_points = filter_map (\<lambda>p. map_option (\<lambda>r. (offered_mbps p, rejection_reason r)) (rejected p)) (native @ application),
                 established_claim =
                   (if permits_established_claim cv \<and> exceeds_tolerance dr = Some False
                    then (case nv of
                            CapacityPlateau _ _ d \<Rightarrow> Some d
                          | DirectionalUnfairness _ _ _ d \<Rightarrow> Some d
                          | _ \<Rightarrow> None)
                    else None)\<rparr>))"

section \<open>What the verdict depends on\<close>

lemma sort_key_mset:
  assumes "mset xs = mset ys" and "distinct (map f xs)"
  shows "sort_key f xs = sort_key f ys"
proof (rule sort_key_inj_key_eq)
  show "mset xs = mset (sort_key f ys)" using assms(1) by simp
  show "inj_on f (set xs)" using assms(2) by (simp add: distinct_map)
  show "sorted (map f (sort_key f ys))" by (rule sorted_sort_key)
qed

lemma detect_knee_usable: "detect_knee ps = detect_knee (filter usable ps)"
  by (simp add: detect_knee_def)

text \<open>A sweep whose usable points have distinct offered rates has the same verdict in every execution order, and
  points that were rejected or failed to measure never take part in it.\<close>

theorem knee_order_independent:
  assumes "distinct (map offered_mbps (filter usable ps))" and "mset (filter usable ps) = mset (filter usable qs)"
  shows "detect_knee ps = detect_knee qs"
  using sort_key_mset[OF assms(2,1)] mset_eq_length[OF assms(2)] mset_eq_setD[OF assms(2)]
  by (simp add: detect_knee_def Let_def)

definition sweep_point :: "rat \<Rightarrow> rat \<Rightarrow> nat \<Rightarrow> SweepPoint" where
  "sweep_point r c i = \<lparr>offered_mbps = Fin r, up_mbps = Some (Fin c), down_mbps = Some (Fin c), loaded_latency_ms = None,
     listener_label = None, execution_index = i, rejected = None\<rparr>"

theorem knee_order_independent_witness:
  "detect_knee [sweep_point 30 20 0, sweep_point 10 10 1, sweep_point 20 20 2] =
   detect_knee [sweep_point 10 10 1, sweep_point 20 20 2, sweep_point 30 20 0]"
  by (rule knee_order_independent) (simp_all add: sweep_point_def usable_def)

lemma f64_le_order [simp]: "Fin a \<le> Fin b \<longleftrightarrow> a \<le> b" "Fin a < Fin b \<longleftrightarrow> a < b"
  by (simp_all add: less_eq_f64_def less_f64_def)

lemma sweep_knees:
  "knee_at (sweep_point 10 10 0) (sweep_point 20 20 3) = None"
  "knee_at (sweep_point 20 20 3) (sweep_point 20 10 2) = None"
  "\<exists>d. knee_at (sweep_point 10 10 0) (sweep_point 20 10 2) = Some (CapacityPlateau (Fin 10) (Fin 20) d)"
proof -
  have r: "f64_round (numeral k) = Fin (numeral k)" if "numeral k < (2::int) ^ 53" for k using that by (rule ieee.rnd_numeral)
  have u: "\<not> f64_le (Fin 1) UNFAIR_BALANCE" using f64_fraction[of "80 / 100"] by (auto simp: UNFAIR_BALANCE_def)
  show "knee_at (sweep_point 10 10 0) (sweep_point 20 20 3) = None"
    by (simp add: knee_at_def sweep_point_def combined_mbps_def unwrap_or_def f64_sub_def TRACKING_EFFICIENCY_def r f64_le_def)
  show "knee_at (sweep_point 20 20 3) (sweep_point 20 10 2) = None"
    by (simp add: knee_at_def sweep_point_def f64_sub_def f64_le_def)
  show "\<exists>d. knee_at (sweep_point 10 10 0) (sweep_point 20 10 2) = Some (CapacityPlateau (Fin 10) (Fin 20) d)"
    using u by (auto simp: knee_at_def sweep_point_def combined_mbps_def balance_def unwrap_or_def f64_sub_def f64_max_def f64_min_def
        TRACKING_EFFICIENCY_def r Let_def)
qed

lemma sweep_detect:
  "detect_knee [sweep_point 10 10 0, sweep_point 20 20 3, sweep_point 20 10 2] = Ret (NoKneeWithinTestedRange (Fin 20))"
  "\<exists>d. detect_knee [sweep_point 10 10 0, sweep_point 20 10 2, sweep_point 20 20 3] = Ret (CapacityPlateau (Fin 10) (Fin 20) d)"
proof -
  have o: "offered_mbps (sweep_point r c i) = Fin r" "usable (sweep_point r c i)" for r c i
    by (simp_all add: sweep_point_def usable_def)
  have s: "sort_key offered_mbps [sweep_point 10 10 0, sweep_point 20 20 3, sweep_point 20 10 2] =
      [sweep_point 10 10 0, sweep_point 20 20 3, sweep_point 20 10 2]"
    "sort_key offered_mbps [sweep_point 10 10 0, sweep_point 20 10 2, sweep_point 20 20 3] =
      [sweep_point 10 10 0, sweep_point 20 10 2, sweep_point 20 20 3]"
    by (simp_all add: sort_key_def o)
  show "detect_knee [sweep_point 10 10 0, sweep_point 20 20 3, sweep_point 20 10 2] = Ret (NoKneeWithinTestedRange (Fin 20))"
    unfolding detect_knee_def Let_def by (simp add: o s MIN_POINTS_def adjacent_def sweep_knees(1,2) del: sort_key_simps)
  show "\<exists>d. detect_knee [sweep_point 10 10 0, sweep_point 20 10 2, sweep_point 20 20 3] = Ret (CapacityPlateau (Fin 10) (Fin 20) d)"
    unfolding detect_knee_def Let_def using sweep_knees(3) by (auto simp: o s MIN_POINTS_def adjacent_def simp del: sort_key_simps)
qed

text \<open>With two usable points at the same offered rate the verdict depends on the order in which they were executed:
  the same three points, one order apart, show no knee or a capacity plateau.\<close>

theorem knee_depends_on_order:
  "detect_knee [sweep_point 10 10 0, sweep_point 20 20 3, sweep_point 20 10 2] = Ret (NoKneeWithinTestedRange (Fin 20))
   \<and> (\<exists>d. detect_knee [sweep_point 10 10 0, sweep_point 20 10 2, sweep_point 20 20 3] = Ret (CapacityPlateau (Fin 10) (Fin 20) d))"
  using sweep_detect by blast

section \<open>What the verdict means\<close>

text \<open>Two points at rising rates between which the throughput gains less than half of the added load.\<close>

definition breaks :: "SweepPoint \<Rightarrow> SweepPoint \<Rightarrow> bool" where
  "breaks lo hi \<longleftrightarrow>
     (let g = f64_mul (f64_sub (offered_mbps hi) (offered_mbps lo)) (Fin 2) in
      \<not> f64_le g (Fin 0)
      \<and> f64_lt (f64_div (f64_sub (unwrap_or (combined_mbps hi) (Fin 0)) (unwrap_or (combined_mbps lo) (Fin 0))) g) TRACKING_EFFICIENCY)"

definition one_sided :: "SweepPoint \<Rightarrow> bool" where
  "one_sided p \<longleftrightarrow> f64_le (unwrap_or (balance p) (Fin 1)) UNFAIR_BALANCE"

lemma knee_at_None: "knee_at lo hi = None \<longleftrightarrow> \<not> breaks lo hi"
  by (simp add: knee_at_def breaks_def Let_def)

lemma knee_at_Some:
  "knee_at lo hi = Some v \<Longrightarrow>
     breaks lo hi
     \<and> (if one_sided hi
        then knee_of v = Some (offered_mbps hi) \<and> is_DirectionalUnfairness v
        else knee_of v = Some (offered_mbps lo) \<and> is_CapacityPlateau v)"
  by (auto simp: knee_at_def breaks_def one_sided_def Let_def split: if_splits)

lemma first_knee_None: "first_knee ws = None \<longleftrightarrow> (\<forall>w \<in> set ws. \<not> breaks (fst w) (snd w))"
  by (induction ws rule: first_knee.induct) (auto simp: knee_at_None dest: knee_at_Some split: option.splits)

lemma first_knee_Some:
  "first_knee ws = Some v \<Longrightarrow>
     \<exists>i < length ws. knee_at (fst (ws ! i)) (snd (ws ! i)) = Some v \<and> (\<forall>j < i. \<not> breaks (fst (ws ! j)) (snd (ws ! j)))"
proof (induction ws rule: first_knee.induct)
  case (2 lo hi ws)
  show ?case
  proof (cases "knee_at lo hi")
    case None
    then obtain i where "i < length ws" "knee_at (fst (ws ! i)) (snd (ws ! i)) = Some v"
      "\<forall>j < i. \<not> breaks (fst (ws ! j)) (snd (ws ! j))"
      using 2 by auto
    then show ?thesis using None by (intro exI[of _ "Suc i"]) (auto simp: knee_at_None less_Suc_eq_0_disj)
  qed (use 2 in auto)
qed simp

lemma adjacent_nth: "i < length (adjacent xs) \<Longrightarrow> adjacent xs ! i = (xs ! i, xs ! Suc i)"
  by (auto simp: adjacent_def nth_tl)

lemma adjacent_length: "length (adjacent xs) = length xs - 1"
  by (simp add: adjacent_def)

text \<open>C19: on at least three usable points the verdict is about the first pair of neighbouring rates between which throughput
  stops following the load: one direction collapsed, at the higher rate, when the weaker direction there is at most
  four fifths of the stronger, and otherwise a ceiling shared by both, at the lower rate. No knee is reported exactly when no pair
  breaks, and then with the highest rate tested.\<close>

theorem knee_is_first_break:
  fixes ps :: "SweepPoint list"
  defines "us \<equiv> sort_key offered_mbps (filter usable ps)"
  assumes "3 \<le> length us" and "\<forall>p \<in> set us. offered_mbps p \<noteq> NaN"
  shows "(\<exists>i v. Suc i < length us \<and> breaks (us ! i) (us ! Suc i) \<and> (\<forall>j < i. \<not> breaks (us ! j) (us ! Suc j))
            \<and> detect_knee ps = Ret v
            \<and> (if one_sided (us ! Suc i)
               then knee_of v = Some (offered_mbps (us ! Suc i)) \<and> is_DirectionalUnfairness v
               else knee_of v = Some (offered_mbps (us ! i)) \<and> is_CapacityPlateau v))
       \<or> ((\<forall>i. Suc i < length us \<longrightarrow> \<not> breaks (us ! i) (us ! Suc i))
          \<and> (\<exists>p \<in> set us. (\<forall>q \<in> set us. offered_mbps q \<le> offered_mbps p)
               \<and> detect_knee ps = Ret (NoKneeWithinTestedRange (offered_mbps p))))"
proof -
  have l: "length (filter usable ps) = length us" "set (filter usable ps) = set us" by (simp_all add: us_def)
  have ne: "us \<noteq> []" using assms(2) by auto
  have d: "detect_knee ps = Ret (case first_knee (adjacent us) of Some v \<Rightarrow> v | None \<Rightarrow> NoKneeWithinTestedRange (offered_mbps (last us)))"
    using assms(2,3) ne unfolding detect_knee_def Let_def l us_def[symmetric] by (auto simp: MIN_POINTS_def)
  show ?thesis
  proof (cases "first_knee (adjacent us)")
    case (Some v)
    then obtain i where i: "i < length (adjacent us)" "knee_at (us ! i) (us ! Suc i) = Some v"
      "\<forall>j < i. \<not> breaks (us ! j) (us ! Suc j)"
      using first_knee_Some[OF Some] by (auto simp: adjacent_nth)
    then show ?thesis using knee_at_Some[OF i(2)] d Some by (intro disjI1 exI[of _ i] exI[of _ v]) (auto simp: adjacent_length)
  next
    case None
    have "\<not> breaks (us ! i) (us ! Suc i)" if "Suc i < length us" for i
    proof -
      have "i < length (adjacent us)" using that by (simp add: adjacent_length)
      then have "(us ! i, us ! Suc i) \<in> set (adjacent us)" using nth_mem[of i "adjacent us"] by (simp add: adjacent_nth)
      then show ?thesis using None by (fastforce simp: first_knee_None)
    qed
    moreover have "offered_mbps q \<le> offered_mbps (last us)" if q: "q \<in> set us" for q
    proof -
      have s: "sorted (map offered_mbps us)" unfolding us_def by (rule sorted_sort_key)
      obtain i where i: "i < length us" "q = us ! i" using q unfolding in_set_conv_nth by blast
      then have "map offered_mbps us ! i \<le> map offered_mbps us ! (length us - 1)" by (intro sorted_nth_mono[OF s]) simp_all
      then show ?thesis using i ne by (simp only: last_conv_nth[OF ne] nth_map diff_less length_greater_0_conv zero_less_one)
    qed
    moreover have "detect_knee ps = Ret (NoKneeWithinTestedRange (offered_mbps (last us)))" using d None by simp
    ultimately show ?thesis using last_in_set[OF ne] by blast
  qed
qed

theorem knee_is_first_break_witness:
  "\<exists>p \<in> set [sweep_point 10 10 0, sweep_point 20 20 3, sweep_point 20 10 2].
     detect_knee [sweep_point 10 10 0, sweep_point 20 20 3, sweep_point 20 10 2] = Ret (NoKneeWithinTestedRange (offered_mbps p))"
proof -
  let ?ps = "[sweep_point 10 10 0, sweep_point 20 20 3, sweep_point 20 10 2]"
  have o: "offered_mbps (sweep_point r c i) = Fin r" "usable (sweep_point r c i)" for r c i
    by (simp_all add: sweep_point_def usable_def)
  have s: "sort_key offered_mbps (filter usable ?ps) = ?ps" by (simp add: sort_key_def o)
  have b: "\<not> breaks (?ps ! i) (?ps ! Suc i)" if "Suc i < length ?ps" for i
  proof -
    have "i = 0 \<or> i = 1" using that by auto
    then show ?thesis using sweep_knees(1,2) by (auto simp: knee_at_None)
  qed
  have "\<exists>p \<in> set ?ps. (\<forall>q \<in> set ?ps. offered_mbps q \<le> offered_mbps p) \<and> detect_knee ?ps = Ret (NoKneeWithinTestedRange (offered_mbps p))"
    using knee_is_first_break[of ?ps] b unfolding s by (simp add: o) blast
  then show ?thesis by blast
qed

section \<open>The claim\<close>

text \<open>An established claim is made exactly when both methods found a knee, at rates that agree within the tolerance, and the
  opening and the closing control were both measured and the endpoint drifted by no more than the tolerance; the claim is
  then the wording of the native verdict. In particular a sweep of one method alone establishes nothing.\<close>

theorem established_claim_iff:
  assumes "build_report interface native application dr idle = Ret rep"
  shows "established_claim rep = Some c \<longleftrightarrow>
    (\<exists>nv av n a f. detect_knee native = Ret nv \<and> detect_knee application = Ret av \<and> application \<noteq> []
       \<and> knee_of nv = Some n \<and> knee_of av = Some a
       \<and> f64_lt (Fin 0) (f64_max n a) \<and> f64_le (f64_div (f64_abs (f64_sub n a)) (f64_max n a)) KNEE_AGREEMENT
       \<and> drift_fraction dr = Some f \<and> \<not> f64_lt DRIFT_TOLERANCE f
       \<and> c = knee_detail nv)"
proof -
  obtain nv where nv: "detect_knee native = Ret nv" using assms by (auto simp: build_report_def split: panics.splits)
  show ?thesis
  proof (cases "application = []")
    case True
    then show ?thesis using assms nv
      by (auto simp: build_report_def cross_validate_def permits_established_claim_def)
  next
    case False
    then obtain av where av: "detect_knee application = Ret av" using assms nv by (auto simp: build_report_def split: panics.splits)
    have cv: "permits_established_claim (cross_validate nv (Some av)) \<longleftrightarrow>
        (\<exists>n a. knee_of nv = Some n \<and> knee_of av = Some a \<and> f64_lt (Fin 0) (f64_max n a)
           \<and> f64_le (f64_div (f64_abs (f64_sub n a)) (f64_max n a)) KNEE_AGREEMENT)"
      by (auto simp: cross_validate_def permits_established_claim_def Let_def split: option.splits)
    have dr: "exceeds_tolerance dr = Some False \<longleftrightarrow> (\<exists>f. drift_fraction dr = Some f \<and> \<not> f64_lt DRIFT_TOLERANCE f)"
      by (auto simp: exceeds_tolerance_def)
    have e: "established_claim rep =
        (if permits_established_claim (cross_validate nv (Some av)) \<and> exceeds_tolerance dr = Some False
         then (if knee_of nv = None then None else Some (knee_detail nv)) else None)"
      using assms nv av False by (cases nv) (auto simp: build_report_def Let_def)
    show ?thesis unfolding e cv dr using nv av False by auto
  qed
qed

theorem established_claim_iff_witness:
  "\<exists>rep c. build_report ''en0'' [sweep_point 10 10 0, sweep_point 20 10 2, sweep_point 20 20 3]
       [sweep_point 10 10 0, sweep_point 20 10 2, sweep_point 20 20 3]
       \<lparr>opening_combined_mbps = Some (Fin 100), closing_combined_mbps = Some (Fin 100)\<rparr> None = Ret rep
     \<and> established_claim rep = Some c"
proof -
  let ?ps = "[sweep_point 10 10 0, sweep_point 20 10 2, sweep_point 20 20 3]"
  let ?dr = "\<lparr>opening_combined_mbps = Some (Fin 100), closing_combined_mbps = Some (Fin 100)\<rparr>"
  obtain d where d: "detect_knee ?ps = Ret (CapacityPlateau (Fin 10) (Fin 20) d)" using sweep_detect(2) by blast
  then obtain rep where rep: "build_report ''en0'' ?ps ?ps ?dr None = Ret rep" by (simp add: build_report_def Let_def)
  have "\<not> f64_lt DRIFT_TOLERANCE (Fin 0)" "f64_le (Fin 0) KNEE_AGREEMENT"
    using f64_fraction[of "15 / 100"] f64_fraction[of "35 / 100"] by (auto simp: DRIFT_TOLERANCE_def KNEE_AGREEMENT_def)
  then have "established_claim rep = Some d"
    using established_claim_iff[OF rep, of d] d by (simp add: f64_max_def f64_sub_def drift_fraction_def)
  then show ?thesis using rep by blast
qed

end
