(* ===== verification/Evidence_Gates.thy ===== *)
theory Evidence_Gates
  imports F64_Ext
begin

text \<open>
  The gates between an observation and a figure derived from it: \<open>network_tests/freshness.rs\<close> (an input must not have
  aged out), \<open>corroboration.rs\<close> (two sources of one property must not contradict each other), \<open>dependency_health.rs\<close>
  and \<open>clock_guard.rs\<close> (a one-way timing needs a measured clock offset). Clock readings, connection results and the output of
  \<open>sntp\<close> are arguments.
\<close>

section \<open>Freshness\<close>

definition RADIO_SECS :: f64 where "RADIO_SECS = Fin 30"
definition LINK_SECS :: f64 where "LINK_SECS = Fin 60"
definition ADDRESSING_SECS :: f64 where "ADDRESSING_SECS = Fin 120"
definition RESOLUTION_SECS :: f64 where "RESOLUTION_SECS = Fin 60"

record 'v Observation =
  obs_value :: 'v
  taken_at_elapsed_secs :: f64
  valid_for_secs :: f64

definition age_secs :: "'v Observation \<Rightarrow> f64 \<Rightarrow> f64" where
  "age_secs ob now = f64_max (f64_sub now (taken_at_elapsed_secs ob)) (Fin 0)"

definition is_fresh_at :: "'v Observation \<Rightarrow> f64 \<Rightarrow> bool" where
  "is_fresh_at ob now \<longleftrightarrow>
     \<not> (\<not> f64_is_finite (taken_at_elapsed_secs ob) \<or> \<not> f64_is_finite (valid_for_secs ob) \<or> \<not> f64_is_finite now
        \<or> f64_lt (valid_for_secs ob) (Fin 0))
     \<and> f64_le (age_secs ob now) (valid_for_secs ob)"

definition fresh_value_at :: "'v Observation \<Rightarrow> f64 \<Rightarrow> 'v option" where
  "fresh_value_at ob now = (if is_fresh_at ob now then Some (obs_value ob) else None)"

datatype Freshness = Fresh | Stale "string list" f64 f64

definition permits_derived_figure :: "Freshness \<Rightarrow> bool" where
  "permits_derived_figure f = (case f of Fresh \<Rightarrow> True | _ \<Rightarrow> False)"

record InputTiming =
  it_name :: string
  it_taken :: f64
  it_valid :: f64

definition obs_of :: "InputTiming \<Rightarrow> unit Observation" where
  "obs_of i = \<lparr>obs_value = (), taken_at_elapsed_secs = it_taken i, valid_for_secs = it_valid i\<rparr>"

definition freshness_step :: "f64 \<Rightarrow> string list \<times> f64 \<times> f64 \<Rightarrow> InputTiming \<Rightarrow> string list \<times> f64 \<times> f64" where
  "freshness_step now st i =
     (case st of (stale_inputs, worst_age, worst_horizon) \<Rightarrow>
        if \<not> is_fresh_at (obs_of i) now then
          let age = age_secs (obs_of i) now in
          if f64_lt (f64_sub worst_age worst_horizon) (f64_sub age (it_valid i))
          then (stale_inputs @ [it_name i], age, it_valid i)
          else (stale_inputs @ [it_name i], worst_age, worst_horizon)
        else st)"

definition check_freshness :: "InputTiming list \<Rightarrow> f64 \<Rightarrow> Freshness" where
  "check_freshness inputs now =
     (case foldl (freshness_step now) ([], Fin 0, Fin 0) inputs of
        (stale_inputs, worst_age, worst_horizon) \<Rightarrow>
          if stale_inputs = [] then Fresh else Stale stale_inputs worst_age worst_horizon)"

definition staleness_note :: "string \<Rightarrow> Freshness \<Rightarrow> string option" where
  "staleness_note figure f =
     (case f of
        Fresh \<Rightarrow> None
      | Stale stale_inputs worst_age horizon \<Rightarrow> Some
          (figure @ '': withheld -- '' @ join '', '' stale_inputs @ '' went stale ('' @ fmt_prec 0 worst_age
            @ ''s old, valid for '' @ fmt_prec 0 horizon
            @ ''s). The underlying state may have changed since it was sampled, so this figure is not known now rather than being the last known value.''))"

section \<open>Corroboration\<close>

datatype Provenance = Measured | OperatorSupplied | PeerReported

fun provenance_label :: "Provenance \<Rightarrow> string" where
  "provenance_label Measured = ''measured here''"
| "provenance_label OperatorSupplied = ''operator-supplied''"
| "provenance_label PeerReported = ''peer-reported''"

record Claim =
  claim_value :: f64
  claim_provenance :: Provenance

datatype Corroboration =
    Corroborated f64 nat
  | Uncorroborated f64 Provenance
  | Contradicted Claim Claim f64
  | CorrUnknown

fun usable_value :: "Corroboration \<Rightarrow> f64 option" where
  "usable_value (Corroborated v _) = Some v"
| "usable_value (Uncorroborated v _) = Some v"
| "usable_value _ = None"

fun is_contradicted :: "Corroboration \<Rightarrow> bool" where
  "is_contradicted (Contradicted _ _ _) = True"
| "is_contradicted _ = False"

definition supports_derived_figure :: "Corroboration \<Rightarrow> bool" where
  "supports_derived_figure c \<longleftrightarrow> usable_value c \<noteq> None"

definition DEFAULT_RELATIVE_TOLERANCE :: f64 where "DEFAULT_RELATIVE_TOLERANCE = f64_round (5 / 100)"

definition tolerance_of :: "f64 \<Rightarrow> f64" where
  "tolerance_of t = (if f64_is_finite t \<and> f64_le (Fin 0) t then t else DEFAULT_RELATIVE_TOLERANCE)"

definition single_claim :: "Claim \<Rightarrow> Corroboration" where
  "single_claim c = (if \<not> f64_is_finite (claim_value c) then CorrUnknown else Uncorroborated (claim_value c) (claim_provenance c))"

definition corroborate :: "Claim option \<Rightarrow> Claim option \<Rightarrow> f64 \<Rightarrow> Corroboration" where
  "corroborate a b relative_tolerance =
     (let tol = tolerance_of relative_tolerance in
      case (a, b) of
        (None, None) \<Rightarrow> CorrUnknown
      | (Some c, None) \<Rightarrow> single_claim c
      | (None, Some c) \<Rightarrow> single_claim c
      | (Some ca, Some cb) \<Rightarrow>
          let va = claim_value ca; vb = claim_value cb in
          if \<not> f64_is_finite va \<and> \<not> f64_is_finite vb then CorrUnknown
          else if \<not> f64_is_finite va then Uncorroborated vb (claim_provenance cb)
          else if \<not> f64_is_finite vb then Uncorroborated va (claim_provenance ca)
          else
            let diff = f64_abs (f64_sub va vb); scale = f64_max (f64_abs va) (f64_abs vb) in
            if scale = Fin 0 then Corroborated (Fin 0) 2
            else
              let rel = f64_div diff scale in
              if f64_le rel tol then Corroborated (f64_min va vb) 2 else Contradicted ca cb rel)"

section \<open>Dependencies\<close>

datatype DetailKind = ConnectionRefused | ConnectionReset | TimedOut | TlsHandshakeFailed | OtherDetail

datatype Verdict = Healthy | Unhealthy DetailKind | BlockedByPolicy DetailKind | NotApplicable

text \<open>\<open>io::ErrorKind\<close>, as far as the code distinguishes it.\<close>

datatype IoKind = IoRefused | IoReset | IoTimedOut | IoOther

fun detail_kind :: "IoKind \<Rightarrow> DetailKind" where
  "detail_kind IoRefused = ConnectionRefused"
| "detail_kind IoReset = ConnectionReset"
| "detail_kind IoTimedOut = TimedOut"
| "detail_kind IoOther = OtherDetail"

definition classify_dependency_error :: "IoKind \<Rightarrow> Verdict" where
  "classify_dependency_error e =
     (case detail_kind e of
        ConnectionRefused \<Rightarrow> BlockedByPolicy (detail_kind e)
      | ConnectionReset \<Rightarrow> BlockedByPolicy (detail_kind e)
      | _ \<Rightarrow> Unhealthy (detail_kind e))"

record DependencyCheck =
  dc_label :: string
  dc_verdict :: Verdict
  dc_elapsed_ms :: nat

text \<open>The result of name resolution and, for its first address, of the connection attempt.\<close>

datatype DepObs = ResolveError | NoAddress | Connected | ConnectError IoKind

definition check_tcp_dependency :: "string \<Rightarrow> DepObs \<Rightarrow> nat \<Rightarrow> DependencyCheck" where
  "check_tcp_dependency label ob elapsed_ms =
     \<lparr>dc_label = label,
      dc_verdict = (case ob of
          Connected \<Rightarrow> Healthy
        | ConnectError e \<Rightarrow> classify_dependency_error e
        | _ \<Rightarrow> Unhealthy OtherDetail),
      dc_elapsed_ms = elapsed_ms\<rparr>"

record NtpOffsetResult =
  ntp_server_name :: string
  ntp_offset_ms :: "f64 option"
  round_trip_delay_ms :: "f64 option"
  ntp_verdict :: Verdict

definition sntp_line :: "string \<Rightarrow> (f64 \<times> f64) option option" where
  "sntp_line l =
     (let line = trim l in
      if \<not> (starts_with line ''+'' \<or> starts_with line ''-'') then None
      else (case split_whitespace line of
              offset_str # pm # delay_str # _ \<Rightarrow>
                if pm \<noteq> ''+/-'' then None
                else Some (case (parse_f64 offset_str, parse_f64 delay_str) of
                       (Some offset_s, Some delay_s) \<Rightarrow> Some (f64_mul offset_s (Fin 1000), f64_mul delay_s (Fin 1000))
                     | _ \<Rightarrow> None)
            | _ \<Rightarrow> Some None))"

text \<open>The loop over the lines: \<^const>\<open>None\<close> of the inner result means \<open>continue\<close>.\<close>

fun sntp_lines :: "string list \<Rightarrow> (f64 \<times> f64) option" where
  "sntp_lines [] = None"
| "sntp_lines (l # ls) = (case sntp_line l of None \<Rightarrow> sntp_lines ls | Some r \<Rightarrow> r)"

definition parse_sntp_output :: "string \<Rightarrow> (f64 \<times> f64) option" where
  "parse_sntp_output text = sntp_lines (lines text)"

text \<open>The second argument is the output of \<open>sntp\<close>, or \<open>None\<close> when it could not be run.\<close>

definition measure_ntp_offset :: "string \<Rightarrow> string option \<Rightarrow> NtpOffsetResult" where
  "measure_ntp_offset server output =
     (case Option.bind output parse_sntp_output of
        Some (offset, delay) \<Rightarrow>
          \<lparr>ntp_server_name = server, ntp_offset_ms = Some offset, round_trip_delay_ms = Some delay, ntp_verdict = Healthy\<rparr>
      | None \<Rightarrow>
          \<lparr>ntp_server_name = server, ntp_offset_ms = None, round_trip_delay_ms = None, ntp_verdict = Unhealthy OtherDetail\<rparr>)"

record DependencyBundle =
  dns_checks :: "DependencyCheck list"
  ntp :: "NtpOffsetResult list"
  cert_checks :: "DependencyCheck list"
  ocsp_checks :: "DependencyCheck list"
  portal_checks :: "DependencyCheck list"
  controller_checks :: "DependencyCheck list"

definition all_checks :: "DependencyBundle \<Rightarrow> DependencyCheck list" where
  "all_checks b = dns_checks b @ cert_checks b @ ocsp_checks b @ portal_checks b @ controller_checks b"

definition blocked_by_policy_count :: "DependencyBundle \<Rightarrow> nat" where
  "blocked_by_policy_count b = length (filter (\<lambda>c. case dc_verdict c of BlockedByPolicy _ \<Rightarrow> True | _ \<Rightarrow> False) (all_checks b))"

definition unhealthy_count :: "DependencyBundle \<Rightarrow> nat" where
  "unhealthy_count b = length (filter (\<lambda>c. case dc_verdict c of Unhealthy _ \<Rightarrow> True | _ \<Rightarrow> False) (all_checks b))"

section \<open>Clocks\<close>

definition DEFAULT_MAX_SKEW_MS :: f64 where "DEFAULT_MAX_SKEW_MS = Fin 50"

record DualTimestamp =
  wall_clock_unix_ms :: nat
  monotonic_nanos_since_process_start :: nat
  monotonic :: "nat option"

record OffsetWithBound =
  offset_ms :: f64
  uncertainty_ms :: f64

datatype SkewOutcome = WithinTolerance | ExceedsTolerance

record ClockVerdict =
  node_label :: string
  ntp_server :: string
  clock_offset :: "OffsetWithBound option"
  max_skew_ms :: f64
  skew_outcome :: SkewOutcome
  cv_timestamp :: DualTimestamp
  cv_explanation :: string

definition permits_one_way_claim :: "ClockVerdict \<Rightarrow> bool" where
  "permits_one_way_claim v \<longleftrightarrow> clock_offset v \<noteq> None \<and> skew_outcome v = WithinTolerance"

definition skew_of :: "NtpOffsetResult \<Rightarrow> f64 \<Rightarrow> OffsetWithBound option \<Rightarrow> SkewOutcome \<times> string" where
  "skew_of r max_skew off =
     (case off of
        None \<Rightarrow> (ExceedsTolerance,
            ''NTP query to '' @ ntp_server_name r @ '' did not produce a usable offset ('' @ [CHR 0x22]
            @ (case ntp_verdict r of BlockedByPolicy _ \<Rightarrow> ''blocked by policy'' | Unhealthy _ \<Rightarrow> ''unhealthy/unreachable'' | _ \<Rightarrow> ''no result'')
            @ [CHR 0x22] @ ''); a one-way claim cannot be gated by an unmeasured skew, so it is refused'')
      | Some ob \<Rightarrow>
          let bound = f64_add (f64_abs (offset_ms ob)) (uncertainty_ms ob) in
          if f64_le bound max_skew
          then (WithinTolerance,
            ''offset '' @ fmt_prec 3 (offset_ms ob) @ ''ms +/- '' @ fmt_prec 3 (uncertainty_ms ob)
            @ ''ms against '' @ ntp_server_name r @ '' is within the '' @ fmt_prec 1 max_skew
            @ ''ms configured skew threshold'')
          else (ExceedsTolerance,
            ''offset '' @ fmt_prec 3 (offset_ms ob) @ ''ms +/- '' @ fmt_prec 3 (uncertainty_ms ob)
            @ ''ms against '' @ ntp_server_name r @ '' exceeds the '' @ fmt_prec 1 max_skew
            @ ''ms configured skew threshold; refusing the one-way claim rather than correcting for an imprecisely measured offset''))"

definition from_ntp_result :: "string \<Rightarrow> f64 \<Rightarrow> NtpOffsetResult \<Rightarrow> DualTimestamp \<Rightarrow> ClockVerdict" where
  "from_ntp_result node max_skew r timestamp =
     (let off = (case (ntp_offset_ms r, round_trip_delay_ms r) of
            (Some offset, Some delay) \<Rightarrow> Some \<lparr>offset_ms = offset, uncertainty_ms = delay\<rparr>
          | _ \<Rightarrow> None)
      in case skew_of r max_skew off of (oc, ex) \<Rightarrow>
        \<lparr>node_label = node, ntp_server = ntp_server_name r, clock_offset = off, max_skew_ms = max_skew, skew_outcome = oc,
         cv_timestamp = timestamp, cv_explanation = ex\<rparr>)"

definition verify :: "string \<Rightarrow> string \<Rightarrow> f64 \<Rightarrow> string option \<Rightarrow> DualTimestamp \<Rightarrow> ClockVerdict" where
  "verify node server max_skew output timestamp = from_ntp_result node max_skew (measure_ntp_offset server output) timestamp"

record CorrelatedEvent =
  source_label :: string
  ce_description :: string
  ce_timestamp :: DualTimestamp

datatype CorrelationConfidence = SameNodeMonotonic | CrossNodeVerified f64 | CrossNodeUnverified

record MergedEvents =
  events :: "CorrelatedEvent list"
  confidence :: CorrelationConfidence

definition uncertainty_or_inf :: "ClockVerdict \<Rightarrow> f64" where
  "uncertainty_or_inf v = (case clock_offset v of Some ob \<Rightarrow> uncertainty_ms ob | None \<Rightarrow> PInf)"

definition merge_events :: "CorrelatedEvent list \<Rightarrow> CorrelatedEvent list \<Rightarrow> ClockVerdict option \<Rightarrow> ClockVerdict option \<Rightarrow> MergedEvents" where
  "merge_events events_a events_b verdict_a verdict_b =
     \<lparr>events = events_a @ events_b,
      confidence =
        (if verdict_a = None \<and> verdict_b = None then SameNodeMonotonic
         else (case (verdict_a, verdict_b) of
                 (Some a, Some b) \<Rightarrow>
                   if permits_one_way_claim a \<and> permits_one_way_claim b
                   then CrossNodeVerified (f64_add (uncertainty_or_inf a) (uncertainty_or_inf b))
                   else CrossNodeUnverified
               | _ \<Rightarrow> CrossNodeUnverified))\<rparr>"

section \<open>What the freshness check reports\<close>

definition stale :: "f64 \<Rightarrow> InputTiming \<Rightarrow> bool" where
  "stale now i \<longleftrightarrow> \<not> is_fresh_at (obs_of i) now"

definition overrun :: "f64 \<Rightarrow> InputTiming \<Rightarrow> f64" where
  "overrun now i = f64_sub (age_secs (obs_of i) now) (it_valid i)"

lemma f64_lt_trans: "f64_lt x y \<Longrightarrow> f64_lt y z \<Longrightarrow> f64_lt x z"
  by (cases x; cases y; cases z) auto

lemma f64_lt_irrefl [simp]: "\<not> f64_lt x x"
  by (cases x) auto

text \<open>The state of the loop: the stale names so far, and a pair that no stale input so far overruns by more.\<close>

definition freshness_inv :: "f64 \<Rightarrow> InputTiming list \<Rightarrow> string list \<times> f64 \<times> f64 \<Rightarrow> bool" where
  "freshness_inv now seen st \<longleftrightarrow>
     (case st of (names, wa, wh) \<Rightarrow>
        names = map it_name (filter (stale now) seen)
        \<and> (\<forall>i \<in> set (filter (stale now) seen). \<not> f64_lt (f64_sub wa wh) (overrun now i))
        \<and> ((wa, wh) = (Fin 0, Fin 0)
            \<or> (\<exists>i \<in> set (filter (stale now) seen). wa = age_secs (obs_of i) now \<and> wh = it_valid i)))"

lemma freshness_step_inv: "freshness_inv now seen st \<Longrightarrow> freshness_inv now (seen @ [i]) (freshness_step now st i)"
  by (cases st) (auto simp: freshness_inv_def freshness_step_def stale_def overrun_def Let_def dest: f64_lt_trans)

lemma freshness_fold_inv:
  "freshness_inv now seen st \<Longrightarrow> freshness_inv now (seen @ is) (foldl (freshness_step now) st is)"
proof (induction "is" arbitrary: seen st)
  case (Cons i "is")
  then show ?case using Cons.IH[OF freshness_step_inv[OF Cons.prems, of i]] by simp
qed simp

text \<open>A figure is passed as fresh exactly when every input is within its horizon. Otherwise the stale inputs are
  named in order, and the reported age and horizon belong to one of them (or are zero when no overrun is positive), none of them
  overrunning its horizon by more, in binary64 arithmetic.\<close>

theorem freshness_check_exact:
  "case check_freshness inputs now of
     Fresh \<Rightarrow> filter (stale now) inputs = []
   | Stale names wa wh \<Rightarrow>
       names \<noteq> [] \<and> names = map it_name (filter (stale now) inputs)
       \<and> list_all (\<lambda>i. \<not> f64_lt (f64_sub wa wh) (overrun now i)) (filter (stale now) inputs)
       \<and> ((wa, wh) = (Fin 0, Fin 0)
          \<or> list_ex (\<lambda>i. wa = age_secs (obs_of i) now \<and> wh = it_valid i) (filter (stale now) inputs))"
proof -
  have "freshness_inv now [] ([], Fin 0, Fin 0)" by (simp add: freshness_inv_def)
  from freshness_fold_inv[OF this, of inputs]
  show ?thesis
    by (cases "foldl (freshness_step now) ([], Fin 0, Fin 0) inputs")
       (auto simp: freshness_inv_def check_freshness_def list_all_iff list_ex_iff filter_empty_conv)
qed

text \<open>An observation stamped later than the figure it supports is always fresh, however far in the future its stamp
  lies: the age is clamped to zero.\<close>

theorem future_stamp_is_fresh:
  assumes "t \<ge> n" and "0 \<le> h"
  shows "is_fresh_at \<lparr>obs_value = v, taken_at_elapsed_secs = Fin t, valid_for_secs = Fin h\<rparr> (Fin n)"
proof -
  have "f64_le (f64_round (n - t)) (f64_round 0)" by (rule ieee.rnd_mono) (use assms(1) in simp)
  then have "f64_le (f64_max (f64_round (n - t)) (Fin 0)) (Fin 0)"
    by (cases "f64_round (n - t)") (auto simp: f64_max_def f64_le_def)
  moreover have "f64_le (Fin 0) (Fin h)" using assms(2) by simp
  ultimately have "f64_le (f64_max (f64_round (n - t)) (Fin 0)) (Fin h)" by (rule f64_le_trans)
  then show ?thesis using assms(2) by (simp add: is_fresh_at_def age_secs_def f64_is_finite_def f64_sub_def)
qed

theorem future_stamp_is_fresh_witness:
  "is_fresh_at \<lparr>obs_value = (), taken_at_elapsed_secs = Fin 100000, valid_for_secs = Fin 30\<rparr> (Fin 10)"
  by (rule future_stamp_is_fresh) simp_all

section \<open>What corroboration yields\<close>

lemma f64_round_neg: "f64_round (- a) = f64_neg (f64_round a)"
  by (cases "0 < a"; cases "a = 0") (auto simp: f64_round_def)

lemma abs_diff_sym: "f64_abs (f64_sub (Fin a) (Fin b)) = f64_abs (f64_sub (Fin b) (Fin a))"
proof -
  have "f64_abs (f64_neg x) = f64_abs x" for x by (cases x) auto
  then show ?thesis using f64_round_neg[of "a - b"] by (simp add: f64_sub_def)
qed

lemma f64_max_sym: "f64_max (Fin a) (Fin b) = f64_max (Fin b) (Fin a)"
  by (auto simp: f64_max_def)

lemma f64_min_sym: "f64_min (Fin a) (Fin b) = f64_min (Fin b) (Fin a)"
  by (auto simp: f64_min_def)

definition finite_claim :: "Claim option \<Rightarrow> bool" where
  "finite_claim c = (case c of Some k \<Rightarrow> f64_is_finite (claim_value k) | None \<Rightarrow> False)"

text \<open>The outcome does not depend on which source comes first. A contradiction is reported exactly when both sources
  gave finite values, not both zero, whose difference relative to the larger magnitude exceeds the tolerance; there is a usable value
  exactly when at least one source gave a finite value and there is no contradiction, and this value is never above a
  finite value that was claimed.\<close>

theorem corroboration_sound:
  "usable_value (corroborate a b tol) = usable_value (corroborate b a tol)
   \<and> is_contradicted (corroborate a b tol) = is_contradicted (corroborate b a tol)
   \<and> (is_contradicted (corroborate a b tol) \<longleftrightarrow>
       (case (a, b) of
          (Some ca, Some cb) \<Rightarrow>
            (case (claim_value ca, claim_value cb) of
               (Fin x, Fin y) \<Rightarrow>
                 (x \<noteq> 0 \<or> y \<noteq> 0)
                 \<and> \<not> f64_le (f64_div (f64_abs (f64_sub (Fin x) (Fin y))) (f64_max (f64_abs (Fin x)) (f64_abs (Fin y)))) (tolerance_of tol)
             | _ \<Rightarrow> False)
        | _ \<Rightarrow> False))
   \<and> (usable_value (corroborate a b tol) \<noteq> None \<longleftrightarrow>
       (finite_claim a \<or> finite_claim b) \<and> \<not> is_contradicted (corroborate a b tol))
   \<and> (case usable_value (corroborate a b tol) of
        None \<Rightarrow> True
      | Some v \<Rightarrow>
          f64_is_finite v
          \<and> (case a of Some ca \<Rightarrow> finite_claim a \<longrightarrow> f64_le v (claim_value ca) | None \<Rightarrow> True)
          \<and> (case b of Some cb \<Rightarrow> finite_claim b \<longrightarrow> f64_le v (claim_value cb) | None \<Rightarrow> True))"
proof (cases "\<exists>ca cb x y. a = Some ca \<and> b = Some cb \<and> claim_value ca = Fin x \<and> claim_value cb = Fin y")
  case True
  then obtain ca cb x y where e: "a = Some ca" "b = Some cb" "claim_value ca = Fin x" "claim_value cb = Fin y" by blast
  define D where "D = f64_abs (f64_sub (Fin x) (Fin y))"
  define M where "M = f64_max (Fin \<bar>x\<bar>) (Fin \<bar>y\<bar>)"
  define N where "N = f64_min (Fin x) (Fin y)"
  have sym: "f64_abs (f64_sub (Fin x) (Fin y)) = D" "f64_abs (f64_sub (Fin y) (Fin x)) = D"
    "f64_max (Fin \<bar>x\<bar>) (Fin \<bar>y\<bar>) = M" "f64_max (Fin \<bar>y\<bar>) (Fin \<bar>x\<bar>) = M" "f64_min (Fin x) (Fin y) = N" "f64_min (Fin y) (Fin x) = N"
    by (simp_all add: D_def M_def N_def abs_diff_sym[of y x] f64_max_sym[of "\<bar>y\<bar>"] f64_min_sym[of y])
  have z: "M = Fin 0 \<longleftrightarrow> x = 0 \<and> y = 0" by (auto simp: M_def f64_max_def)
  have m: "case N of Fin _ \<Rightarrow> True | _ \<Rightarrow> False" "f64_le N (Fin x)" "f64_le N (Fin y)" by (auto simp: N_def f64_min_def)
  show ?thesis
    using m z unfolding corroborate_def e(1,2) Let_def
    by (simp add: e(3,4) f64_is_finite_def finite_claim_def sym)
next
  case nf: False
  show ?thesis
  proof (cases "a = None \<or> b = None")
    case True
    then show ?thesis
      by (cases a; cases b)
         (auto simp: corroborate_def single_claim_def finite_claim_def f64_is_finite_def Let_def split: f64.splits)
  next
    case False
    then obtain ca cb where c: "a = Some ca" "b = Some cb" by auto
    have "\<not> (\<exists>x y. claim_value ca = Fin x \<and> claim_value cb = Fin y)" using nf c by blast
    then show ?thesis
      unfolding c corroborate_def
      by (cases "claim_value ca"; cases "claim_value cb") (simp_all add: finite_claim_def f64_is_finite_def)
  qed
qed

theorem corroboration_sound_witness:
  "is_contradicted (corroborate (Some \<lparr>claim_value = Fin 1000, claim_provenance = OperatorSupplied\<rparr>)
     (Some \<lparr>claim_value = Fin 5000, claim_provenance = Measured\<rparr>) DEFAULT_RELATIVE_TOLERANCE)"
proof -
  let ?a = "Some \<lparr>claim_value = Fin 1000, claim_provenance = OperatorSupplied\<rparr>"
  let ?b = "Some \<lparr>claim_value = Fin 5000, claim_provenance = Measured\<rparr>"
  obtain y where y: "f64_round (5 / 100) = Fin y" "y \<le> 31 / 32" "1 / 32 \<le> y" using f64_fraction[of "5 / 100"] by auto
  have d: "f64_round (- 4000) = Fin (- 4000)" using f64_round_small_int[of "- 4000"] by simp
  obtain z where z: "f64_round (4 / 5) = Fin z" "3 / 4 \<le> z"
    using ieee.rnd_mono[of "3 / 4" "4 / 5"] f64_round_dyadic[of 3 2] f64_fraction[of "4 / 5"] by auto
  have u: "y \<le> 1 / 4" using ieee.rnd_mono[of "5 / 100" "1 / 4"] f64_round_dyadic[of 1 2] y(1) by auto
  have "\<not> f64_le (f64_div (f64_abs (f64_sub (Fin 1000) (Fin 5000))) (f64_max (f64_abs (Fin 1000)) (f64_abs (Fin 5000))))
      (tolerance_of DEFAULT_RELATIVE_TOLERANCE)"
    using y z u by (simp add: f64_sub_def d f64_max_def tolerance_of_def DEFAULT_RELATIVE_TOLERANCE_def f64_is_finite_def)
  then show ?thesis using corroboration_sound[of ?a ?b DEFAULT_RELATIVE_TOLERANCE, THEN conjunct2, THEN conjunct2, THEN conjunct1] by simp
qed

section \<open>The clock gate\<close>

text \<open>A one-way timing is permitted exactly when \<open>sntp\<close> ran and the first of its lines that starts with a sign and either
  is too short or has the form of a result is a result with two numbers, and the magnitude of the offset plus the reported bound is within the
  allowed skew. Any failure to run, reach or parse refuses it, never an assumed offset of zero; and two nodes' events are called verified
  across nodes exactly when both nodes' timings are permitted.\<close>

theorem clock_gate_exact:
  "(permits_one_way_claim (verify node server max_skew output ts) \<longleftrightarrow>
     (case Option.bind output parse_sntp_output of
        None \<Rightarrow> False
      | Some (offset, delay) \<Rightarrow> f64_le (f64_add (f64_abs offset) delay) max_skew))
   \<and> ((\<exists>u. confidence (merge_events ea eb (Some va) (Some vb)) = CrossNodeVerified u) \<longleftrightarrow>
       permits_one_way_claim va \<and> permits_one_way_claim vb)"
  by (auto simp: permits_one_way_claim_def verify_def from_ntp_result_def measure_ntp_offset_def skew_of_def merge_events_def
      Let_def split: option.splits prod.splits if_splits)

lemma sixteenth: "parse_f64 ''+0.0625'' = Some (Fin (1 / 16))" "parse_f64 ''-0.03125'' = Some (Fin (- 1 / 32))"
proof -
  have "(625 / 10000 :: rat) = of_int 1 / 2 ^ 4" "(3125 / 100000 :: rat) = of_int 1 / 2 ^ 5" by simp_all
  then have r: "f64_round (625 / 10000) = Fin (1 / 16)" "f64_round (3125 / 100000) = Fin (1 / 32)"
    using f64_round_dyadic[of 1 4] f64_round_dyadic[of 1 5] by simp_all
  have d: "parse_decimal ''0.0625'' = Some (625 / 10000)" "parse_decimal ''0.03125'' = Some (3125 / 100000)"
    by (simp_all add: parse_decimal_def is_digit_def digit_val_def parse_exp_def Let_def power_int_minus)
  show "parse_f64 ''+0.0625'' = Some (Fin (1 / 16))"
    using r d by (simp add: parse_f64_def to_lowercase_def to_lower_char_def Let_def)
  show "parse_f64 ''-0.03125'' = Some (Fin (- 1 / 32))"
    using r d f64_round_neg[of "3125 / 100000"] by (simp add: parse_f64_def to_lowercase_def to_lower_char_def Let_def)
qed

text \<open>The bound that \<open>sntp\<close> reports is not checked to be positive: a line with a negative bound narrows the gate, so that a clock
  off by 62.5 milliseconds is permitted under the default skew of 50; a bound of zero is accepted too.\<close>

theorem negative_bound_permits_skew:
  "permits_one_way_claim (verify node server DEFAULT_MAX_SKEW_MS (Some ''+0.0625 +/- -0.03125 a'') ts)"
proof -
  have l: "lines ''+0.0625 +/- -0.03125 a'' = [''+0.0625 +/- -0.03125 a'']" by code_simp
  have w: "split_whitespace (trim ''+0.0625 +/- -0.03125 a'') = [''+0.0625'', ''+/-'', ''-0.03125'', ''a'']" by code_simp
  have s: "starts_with (trim ''+0.0625 +/- -0.03125 a'') ''+''" by code_simp
  have r: "f64_round (125 / 2) = Fin (125 / 2)" "f64_round (125 / 4) = Fin (125 / 4)"
    using f64_round_dyadic[of 125 1] f64_round_dyadic[of 125 2] by simp_all
  have "f64_round (- (125 / 4)) = Fin (- (125 / 4))" using f64_round_neg[of "125 / 4"] r(2) by simp
  then have "parse_sntp_output ''+0.0625 +/- -0.03125 a'' = Some (Fin (125 / 2), Fin (- (125 / 4)))"
    unfolding parse_sntp_output_def l using w s r by (simp add: sntp_line_def sixteenth Let_def)
  then show ?thesis using r
    by (simp add: permits_one_way_claim_def verify_def from_ntp_result_def measure_ntp_offset_def skew_of_def DEFAULT_MAX_SKEW_MS_def)
qed

end
