(* ===== verification/Phy_Normalized.thy ===== *)
theory Phy_Normalized
  imports Evidence_Gates Radio "HOL-Library.Product_Lexorder" "HOL-Library.List_Lexorder" "HOL-Library.Char_ord"
begin

text \<open>
  \<open>network_tests/phy_normalized.rs\<close>: offered load as a fraction of each client's own link capacity, cohorts of clients,
  and when a difference between two cohorts may be attributed to the access point. A \<open>BTreeMap\<close> is an association list
  sorted by its keys; strings are compared byte by byte.
\<close>

section \<open>Measurements\<close>

datatype PhyGeneration = Ht | Vht | He | Eht | PhyUnknown

fun show_generation :: "PhyGeneration \<Rightarrow> string" where
  "show_generation Ht = ''Ht''"
| "show_generation Vht = ''Vht''"
| "show_generation He = ''He''"
| "show_generation Eht = ''Eht''"
| "show_generation PhyUnknown = ''Unknown''"

record NodeProfile =
  node_id :: string
  phy_generation :: PhyGeneration
  driver :: string
  kernel :: string
  phy_capacity_mbps :: f64
  rf_quality :: RfQuality
  directional_control :: bool

record PhaseMeasurement =
  pm_node :: NodeProfile
  pm_offered_mbps :: f64
  pm_loss_percent :: f64
  phy_sampled_at_elapsed_secs :: "f64 option"
  measured_at_elapsed_secs :: "f64 option"

record NormalizedMeasurement =
  nm_node_id :: string
  nm_phy_generation :: PhyGeneration
  nm_driver :: string
  nm_kernel :: string
  nm_offered_mbps :: f64
  nm_phy_capacity_mbps :: f64
  offered_phy_fraction :: "f64 option"
  nm_loss_percent :: f64
  nm_rf_quality :: RfQuality
  nm_directional_control :: bool
  nm_freshness :: Freshness

definition phy_freshness :: "PhaseMeasurement \<Rightarrow> Freshness" where
  "phy_freshness m =
     (case (phy_sampled_at_elapsed_secs m, measured_at_elapsed_secs m) of
        (Some sampled, Some now) \<Rightarrow>
          check_freshness [\<lparr>it_name = ''phy_capacity_mbps'', it_taken = sampled, it_valid = RADIO_SECS\<rparr>] now
      | _ \<Rightarrow> Fresh)"

definition normalize :: "PhaseMeasurement \<Rightarrow> NormalizedMeasurement" where
  "normalize m =
     (let freshness = phy_freshness m;
          fraction = (if \<not> permits_derived_figure freshness then None
                      else if f64_lt (Fin 0) (phy_capacity_mbps (pm_node m))
                      then Some (f64_div (pm_offered_mbps m) (phy_capacity_mbps (pm_node m)))
                      else None)
      in \<lparr>nm_node_id = node_id (pm_node m), nm_phy_generation = phy_generation (pm_node m), nm_driver = driver (pm_node m),
          nm_kernel = kernel (pm_node m), nm_offered_mbps = pm_offered_mbps m, nm_phy_capacity_mbps = phy_capacity_mbps (pm_node m),
          offered_phy_fraction = fraction, nm_loss_percent = pm_loss_percent m, nm_rf_quality = rf_quality (pm_node m),
          nm_directional_control = directional_control (pm_node m), nm_freshness = freshness\<rparr>)"

definition COMPARABLE_FRACTION_TOLERANCE :: f64 where "COMPARABLE_FRACTION_TOLERANCE = f64_round (15 / 100)"

definition comparable_targets :: "NormalizedMeasurement \<Rightarrow> NormalizedMeasurement \<Rightarrow> bool" where
  "comparable_targets a b =
     (case (offered_phy_fraction a, offered_phy_fraction b) of
        (Some fa, Some fb) \<Rightarrow>
          f64_is_finite fa \<and> f64_is_finite fb \<and> f64_le (f64_abs (f64_sub fa fb)) COMPARABLE_FRACTION_TOLERANCE
      | _ \<Rightarrow> False)"

section \<open>Cohorts\<close>

record CohortStratum =
  cs_phy_generation :: PhyGeneration
  cs_driver :: string
  cs_kernel :: string
  mean_offered_phy_fraction :: "f64 option"
  mean_loss_percent :: f64
  sample_count :: nat
  fraction_sample_count :: nat

text \<open>\<open>entry(key).or_default().push(m)\<close> on a \<open>BTreeMap\<close>\<close>

fun entry_push :: "'k::linorder \<Rightarrow> 'v \<Rightarrow> ('k \<times> 'v list) list \<Rightarrow> ('k \<times> 'v list) list" where
  "entry_push k v [] = [(k, [v])]"
| "entry_push k v ((j, vs) # g) =
     (if k < j then (k, [v]) # (j, vs) # g
      else if k = j then (j, vs @ [v]) # g
      else (j, vs) # entry_push k v g)"

type_synonym stratum_key = "string \<times> string \<times> string"

definition stratum_key :: "NormalizedMeasurement \<Rightarrow> stratum_key" where
  "stratum_key m = (show_generation (nm_phy_generation m), nm_driver m, nm_kernel m)"

definition usable_fractions :: "NormalizedMeasurement list \<Rightarrow> f64 list" where
  "usable_fractions items = filter f64_is_finite (filter_map offered_phy_fraction items)"

definition stratum_of :: "stratum_key \<times> NormalizedMeasurement list \<Rightarrow> CohortStratum" where
  "stratum_of g =
     (case g of ((gen_str, drv, krn), items) \<Rightarrow>
        let n = f64_of_nat (length items);
            us = usable_fractions items
        in \<lparr>cs_phy_generation = nm_phy_generation (items ! 0), cs_driver = drv, cs_kernel = krn,
            mean_offered_phy_fraction = (if us = [] then None else Some (f64_div (f64_sum us) (f64_of_nat (length us)))),
            mean_loss_percent = f64_div (f64_sum (map nm_loss_percent items)) n,
            sample_count = length items, fraction_sample_count = length us\<rparr>)"

definition stratify :: "NormalizedMeasurement list \<Rightarrow> CohortStratum list" where
  "stratify ms = map stratum_of (foldl (\<lambda>g m. entry_push (stratum_key m) m g) [] ms)"

section \<open>Attribution\<close>

datatype AttributionVerdict = Attributable | WithheldMissingControls | WithheldIncomparableTargets

record CohortAttribution =
  cohort_a :: CohortStratum
  cohort_b :: CohortStratum
  attribution :: AttributionVerdict
  at_explanation :: string

definition attribute_cohort_difference :: "CohortStratum \<Rightarrow> CohortStratum \<Rightarrow> bool \<Rightarrow> bool \<Rightarrow> CohortAttribution" where
  "attribute_cohort_difference a b a_all_strong_directional b_all_strong_directional =
     (if \<not> a_all_strong_directional \<or> \<not> b_all_strong_directional
      then \<lparr>cohort_a = a, cohort_b = b, attribution = WithheldMissingControls, at_explanation =
            ''at least one cohort includes a sample without strong RF or without directional-only load; a compatibility attribution requires both, since weak RF and simultaneous-load airtime pressure produce the same loss symptom as a real AP defect''\<rparr>
      else case (mean_offered_phy_fraction a, mean_offered_phy_fraction b) of
        (Some frac_a, Some frac_b) \<Rightarrow>
          if f64_lt COMPARABLE_FRACTION_TOLERANCE (f64_abs (f64_sub frac_a frac_b))
          then \<lparr>cohort_a = a, cohort_b = b, attribution = WithheldIncomparableTargets, at_explanation =
            ''cohorts were measured at different offered PHY fractions ('' @ fmt_prec 2 frac_a @ '' vs ''
            @ fmt_prec 2 frac_b
            @ ''); a loss difference at incomparable fractions cannot be attributed to AP generation handling rather than capacity/airtime saturation''\<rparr>
          else \<lparr>cohort_a = a, cohort_b = b, attribution = Attributable, at_explanation =
            ''both cohorts have strong-RF directional-control evidence and comparable offered PHY fractions; the residual loss difference is attributable to AP/generation handling rather than capacity or RF confounds''\<rparr>
      | _ \<Rightarrow> \<lparr>cohort_a = a, cohort_b = b, attribution = WithheldIncomparableTargets, at_explanation =
            ''at least one cohort has no usable mean offered PHY fraction (the PHY capacity behind it was stale or unavailable), so the cohorts cannot be shown to have been measured at comparable load''\<rparr>)"

section \<open>The map of cohorts\<close>

lemma entry_push_keys: "set (map fst (entry_push k v g)) = insert k (set (map fst g))"
  by (induction k v g rule: entry_push.induct) auto

lemma entry_push_sorted: "sorted_wrt (<) (map fst g) \<Longrightarrow> sorted_wrt (<) (map fst (entry_push k v g))"
proof (induction k v g rule: entry_push.induct)
  case (2 k v j vs g)
  then show ?case using entry_push_keys[of k v g] by (auto simp del: set_map)
qed simp

lemma entry_push_lookup:
  "sorted_wrt (<) (map fst g) \<Longrightarrow>
     map_of (entry_push k v g) j = (if j = k then Some (unwrap_or (map_of g k) [] @ [v]) else map_of g j)"
proof (induction k v g rule: entry_push.induct)
  case (2 k v i vs g)
  have "map_of g k = None" if "k < i" using 2(2) that by (fastforce simp: map_of_eq_None_iff)
  then show ?case using 2 by (auto simp: unwrap_or_def)
qed (simp add: unwrap_or_def)

definition cohorts :: "NormalizedMeasurement list \<Rightarrow> (stratum_key \<times> NormalizedMeasurement list) list" where
  "cohorts ms = foldl (\<lambda>g m. entry_push (stratum_key m) m g) [] ms"

lemma cohorts_snoc: "cohorts (ms @ [m]) = entry_push (stratum_key m) m (cohorts ms)"
  by (simp add: cohorts_def)

lemma cohorts_sorted: "sorted_wrt (<) (map fst (cohorts ms))"
  by (induction ms rule: rev_induct) (auto simp: cohorts_def entry_push_sorted)

lemma cohorts_lookup:
  "map_of (cohorts ms) k = (let items = filter (\<lambda>m. stratum_key m = k) ms in if items = [] then None else Some items)"
proof (induction ms arbitrary: k rule: rev_induct)
  case (snoc m ms)
  then show ?case unfolding cohorts_snoc entry_push_lookup[OF cohorts_sorted] by (auto simp: unwrap_or_def Let_def)
qed (simp add: cohorts_def)

lemma cohorts_mem: "(k, items) \<in> set (cohorts ms) \<longleftrightarrow> items = filter (\<lambda>m. stratum_key m = k) ms \<and> items \<noteq> []"
proof -
  have "distinct (map fst (cohorts ms))" using cohorts_sorted[of ms] strict_sorted_iff by blast
  then have "(k, items) \<in> set (cohorts ms) \<longleftrightarrow> map_of (cohorts ms) k = Some items" by (simp add: eq_commute)
  then show ?thesis unfolding cohorts_lookup by (auto simp: Let_def)
qed

lemma stratify_cohorts: "stratify ms = map stratum_of (cohorts ms)"
  by (simp add: stratify_def cohorts_def)

lemma entry_push_count: "sum_list (map (length \<circ> snd) (entry_push k v g)) = Suc (sum_list (map (length \<circ> snd) g))"
  by (induction k v g rule: entry_push.induct) auto

lemma cohorts_count: "sum_list (map (length \<circ> snd) (cohorts ms)) = length ms"
proof (induction ms rule: rev_induct)
  case (snoc m ms)
  then show ?case unfolding cohorts_snoc entry_push_count by (simp add: comp_def)
qed (simp add: cohorts_def)

definition stratum_id :: "CohortStratum \<Rightarrow> PhyGeneration \<times> string \<times> string" where
  "stratum_id s = (cs_phy_generation s, cs_driver s, cs_kernel s)"

definition measurement_id :: "NormalizedMeasurement \<Rightarrow> PhyGeneration \<times> string \<times> string" where
  "measurement_id m = (nm_phy_generation m, nm_driver m, nm_kernel m)"

lemma show_generation_inj: "show_generation a = show_generation b \<longleftrightarrow> a = b"
  by (cases a; cases b) auto

lemma stratum_key_id: "stratum_key m = stratum_key m' \<longleftrightarrow> measurement_id m = measurement_id m'"
  by (auto simp: stratum_key_def measurement_id_def show_generation_inj)

lemma stratum_members:
  assumes "c \<in> set (cohorts ms)"
  shows "snd c = filter (\<lambda>m. measurement_id m = stratum_id (stratum_of c)) ms"
    and "fst c = map_prod show_generation id (stratum_id (stratum_of c))"
proof -
  obtain g d k items where c: "c = ((g, d, k), items)" by (metis prod.exhaust)
  have items: "items = filter (\<lambda>m. stratum_key m = (g, d, k)) ms" "items \<noteq> []" using assms c by (auto simp: cohorts_mem)
  let ?m = "items ! 0"
  have m: "stratum_key ?m = (g, d, k)" using nth_mem[of 0 items] items(2) unfolding items(1) by auto
  have id: "stratum_id (stratum_of c) = measurement_id ?m"
    using m by (simp add: c stratum_of_def stratum_id_def measurement_id_def stratum_key_def Let_def)
  show "snd c = filter (\<lambda>m. measurement_id m = stratum_id (stratum_of c)) ms"
    unfolding id stratum_key_id[symmetric] m using items(1) c by simp
  show "fst c = map_prod show_generation id (stratum_id (stratum_of c))"
    unfolding id using m c by (simp add: measurement_id_def stratum_key_def)
qed

text \<open>The strata partition the measurements by generation, driver and kernel: no two strata share all three, their sample counts
  add up to the number of measurements, and each stratum's figures are those of exactly the measurements with its three labels, the mean
  fraction over those that have a finite fraction and absent when none has.\<close>

theorem stratify_exact:
  "distinct (map stratum_id (stratify ms))
   \<and> sum_list (map sample_count (stratify ms)) = length ms
   \<and> list_all (\<lambda>s.
        let items = filter (\<lambda>m. measurement_id m = stratum_id s) ms; us = usable_fractions items in
        sample_count s = length items \<and> items \<noteq> [] \<and> fraction_sample_count s = length us
        \<and> mean_offered_phy_fraction s = (if us = [] then None else Some (f64_div (f64_sum us) (f64_of_nat (length us)))))
      (stratify ms)"
proof -
  have fst_id: "map fst (cohorts ms) = map (map_prod show_generation id) (map stratum_id (stratify ms))"
    by (auto simp: stratify_cohorts stratum_members(2))
  have "distinct (map fst (cohorts ms))" using cohorts_sorted[of ms] strict_sorted_iff by blast
  then have 1: "distinct (map stratum_id (stratify ms))" unfolding fst_id by (metis distinct_map)
  have "map sample_count (stratify ms) = map (length \<circ> snd) (cohorts ms)"
    by (auto simp: stratify_cohorts stratum_of_def Let_def split: prod.splits)
  then have 2: "sum_list (map sample_count (stratify ms)) = length ms" by (simp add: cohorts_count)
  have 3: "let items = filter (\<lambda>m. measurement_id m = stratum_id (stratum_of c)) ms; us = usable_fractions items in
        sample_count (stratum_of c) = length items \<and> items \<noteq> [] \<and> fraction_sample_count (stratum_of c) = length us
        \<and> mean_offered_phy_fraction (stratum_of c) = (if us = [] then None else Some (f64_div (f64_sum us) (f64_of_nat (length us))))"
    if c: "c \<in> set (cohorts ms)" for c
  proof -
    have "snd c \<noteq> []" using c cohorts_mem[of "fst c" "snd c" ms] by (metis prod.collapse)
    then show ?thesis unfolding Let_def stratum_members(1)[OF c, symmetric] by (cases c) (auto simp: stratum_of_def Let_def)
  qed
  show ?thesis using 1 2 3 by (auto simp: list_all_iff stratify_cohorts)
qed

text \<open>A fraction is reported exactly when the link capacity is positive and, where both times were recorded, the capacity was sampled
  at most thirty seconds before the measurement; when a time is missing the fraction is reported and called fresh.\<close>

theorem fraction_reported_iff:
  "offered_phy_fraction (normalize m) = Some f \<longleftrightarrow>
     f64_lt (Fin 0) (phy_capacity_mbps (pm_node m)) \<and> f = f64_div (pm_offered_mbps m) (phy_capacity_mbps (pm_node m))
     \<and> (case (phy_sampled_at_elapsed_secs m, measured_at_elapsed_secs m) of
          (Some sampled, Some now) \<Rightarrow>
            f64_is_finite sampled \<and> f64_is_finite now \<and> f64_le (f64_max (f64_sub now sampled) (Fin 0)) (Fin 30)
        | _ \<Rightarrow> nm_freshness (normalize m) = Fresh)"
  by (auto simp: normalize_def phy_freshness_def check_freshness_def freshness_step_def is_fresh_at_def age_secs_def obs_of_def
      permits_derived_figure_def RADIO_SECS_def f64_is_finite_def Let_def split: option.splits if_splits)

end
