(* ===== verification/Dns_Steering.thy ===== *)
theory Dns_Steering
  imports Fraggle_Prelude
begin

text \<open>
  \<open>network_tests/dns_steering.rs\<close>: the answers of several resolvers for one name, and whether they steer a client to
  different endpoints. What \<open>dig\<close> prints for a resolver and a record type, and how long it took, are arguments.
\<close>

section \<open>Answers\<close>

datatype RecordType = A | Aaaa | Https | Svcb

fun dig_arg :: "RecordType \<Rightarrow> string" where
  "dig_arg A = ''A''"
| "dig_arg Aaaa = ''AAAA''"
| "dig_arg Https = ''HTTPS''"
| "dig_arg Svcb = ''SVCB''"

record AnswerRecord =
  record_type :: RecordType
  answer_value :: string
  ttl_secs :: "u32 option"

record ResolverResult =
  resolver :: string
  query_time_ms :: "nat option"
  answers :: "AnswerRecord list"
  rr_error :: "string option"

definition answered :: "ResolverResult \<Rightarrow> bool" where
  "answered r \<longleftrightarrow> rr_error r = None"

definition endpoint_addresses :: "ResolverResult \<Rightarrow> string set" where
  "endpoint_addresses r = set (map answer_value (filter (\<lambda>a. record_type a = A \<or> record_type a = Aaaa) (answers r)))"

definition parse_dig_answers :: "string \<Rightarrow> RecordType \<Rightarrow> AnswerRecord list" where
  "parse_dig_answers text requested =
     filter_map (\<lambda>line.
       let fields = split_whitespace line in
       if length fields < 5 then None
       else Some \<lparr>record_type = requested, answer_value = join '' '' (drop 4 fields), ttl_secs = parse_uint (fields ! 1)\<rparr>)
     (lines text)"

text \<open>What running \<open>dig\<close> gives: an error, or whether it succeeded and what it wrote to its outputs.\<close>

datatype DigObs = DigFailed string | DigRan bool string string

definition dig_args :: "string \<Rightarrow> string \<Rightarrow> RecordType \<Rightarrow> nat \<Rightarrow> string list" where
  "dig_args rslv nm rt timeout_secs =
     [CHR ''@'' # rslv, nm, dig_arg rt, ''+noall'', ''+answer'', ''+time='' @ show_nat timeout_secs, ''+tries=1'']"

definition run_dig :: "(string list \<Rightarrow> DigObs \<times> nat) \<Rightarrow> string \<Rightarrow> string \<Rightarrow> RecordType \<Rightarrow> nat \<Rightarrow> ResolverResult" where
  "run_dig dig rslv nm rt timeout_secs =
     (case dig (dig_args rslv nm rt timeout_secs) of
        (DigFailed e, elapsed) \<Rightarrow>
          \<lparr>resolver = rslv, query_time_ms = None, answers = [], rr_error = Some (''failed to run dig: '' @ e)\<rparr>
      | (DigRan success out err, elapsed) \<Rightarrow>
          if \<not> success
          then let stderr = trim err in
               \<lparr>resolver = rslv, query_time_ms = Some elapsed, answers = [],
                rr_error = Some (if stderr = [] then ''dig exited with an error'' else stderr)\<rparr>
          else \<lparr>resolver = rslv, query_time_ms = Some elapsed, answers = parse_dig_answers out rt, rr_error = None\<rparr>)"

definition query_resolver :: "(string list \<Rightarrow> DigObs \<times> nat) \<Rightarrow> string \<Rightarrow> string \<Rightarrow> nat \<Rightarrow> ResolverResult list" where
  "query_resolver dig rslv nm timeout_secs = map (\<lambda>rt. run_dig dig rslv nm rt timeout_secs) [A, Aaaa, Https, Svcb]"

section \<open>The verdict\<close>

datatype SteeringVerdict = Consistent | Diverges | Inconclusive

record SteeringComparison =
  sc_name :: string
  per_resolver :: "ResolverResult list list"
  sc_verdict :: SteeringVerdict
  sc_explanation :: string

definition has_endpoints :: "ResolverResult list \<Rightarrow> bool" where
  "has_endpoints results \<longleftrightarrow> (\<exists>r \<in> set results. answered r \<and> endpoint_addresses r \<noteq> {})"

definition endpoint_set :: "ResolverResult list \<Rightarrow> string set" where
  "endpoint_set results = \<Union> (set (map endpoint_addresses (filter answered results)))"

definition decide_verdict :: "ResolverResult list list \<Rightarrow> nat \<Rightarrow> SteeringVerdict \<times> string" where
  "decide_verdict prs resolver_count =
     (let answered = filter has_endpoints prs in
      if length answered < 2
      then (Inconclusive,
            ''only '' @ show_nat (length answered) @ '' of '' @ show_nat resolver_count
            @ '' resolvers returned endpoint addresses; steering divergence requires at least two answering resolvers to compare'')
      else
        let endpoint_sets = map endpoint_set answered; first = endpoint_sets ! 0 in
        if list_all (\<lambda>s. s = first) endpoint_sets
        then (Consistent, ''all answering resolvers returned the same endpoint address set'')
        else (Diverges,
            ''resolvers returned different endpoint address sets for the same name -- this is steering divergence, not a fault in either resolver; any performance comparison spanning these resolvers measured different endpoints''))"

definition compare_steering :: "(string list \<Rightarrow> DigObs \<times> nat) \<Rightarrow> string \<Rightarrow> string list \<Rightarrow> nat \<Rightarrow> SteeringComparison" where
  "compare_steering dig nm resolvers timeout_secs =
     (let prs = map (\<lambda>r. query_resolver dig r nm timeout_secs) resolvers in
      case decide_verdict prs (length resolvers) of (v, ex) \<Rightarrow>
        \<lparr>sc_name = nm, per_resolver = prs, sc_verdict = v, sc_explanation = ex\<rparr>)"

definition resolver_mismatch_warning :: "string list \<Rightarrow> string option" where
  "resolver_mismatch_warning leg_resolvers =
     (if 1 < length (remdups leg_resolvers)
      then Some (''comparison legs used different resolvers ('' @ join '', '' leg_resolvers
            @ ''); any performance delta may reflect resolver steering, not the condition under test'')
      else None)"

section \<open>What the verdict means\<close>

lemma endpoint_set_empty: "endpoint_set rs = {} \<longleftrightarrow> \<not> has_endpoints rs"
  by (auto simp: endpoint_set_def has_endpoints_def)

lemma decide_verdict_cases:
  "fst (decide_verdict prs n) =
     (let sets = filter (\<lambda>s. s \<noteq> {}) (map endpoint_set prs) in
      if length sets < 2 then Inconclusive else if card (set sets) = 1 then Consistent else Diverges)"
proof -
  let ?sets = "map endpoint_set (filter has_endpoints prs)"
  have f: "filter (\<lambda>s. s \<noteq> {}) (map endpoint_set prs) = ?sets"
    by (simp add: filter_map comp_def endpoint_set_empty)
  have "list_all (\<lambda>s. s = ?sets ! 0) ?sets \<longleftrightarrow> card (set ?sets) = 1" if "2 \<le> length ?sets"
  proof -
    have "xs ! 0 \<in> set xs \<Longrightarrow> list_all (\<lambda>s. s = xs ! 0) xs \<longleftrightarrow> card (set xs) = 1" for xs :: "string set list"
    proof -
      assume m: "xs ! 0 \<in> set xs"
      have "list_all (\<lambda>s. s = xs ! 0) xs \<longleftrightarrow> set xs = {xs ! 0}" using m unfolding list_all_iff by blast
      also have "\<dots> \<longleftrightarrow> card (set xs) = 1" using m by (metis card_1_singletonE is_singletonI is_singleton_altdef singletonD)
      finally show ?thesis .
    qed
    moreover have "?sets ! 0 \<in> set ?sets" by (rule nth_mem) (use that in linarith)
    ultimately show ?thesis by blast
  qed
  then show ?thesis unfolding f by (auto simp: decide_verdict_def Let_def not_less)
qed

definition endpoint_sets :: "ResolverResult list list \<Rightarrow> string set list" where
  "endpoint_sets prs = filter (\<lambda>s. s \<noteq> {}) (map endpoint_set prs)"

text \<open>The verdict compares the address sets of the resolvers that returned any address: divergence exactly when two of them returned different
  sets, consistency exactly when at least two answered and all sets agree, and no conclusion from fewer than two. It does not
  depend on the order of the resolvers, and a resolver without addresses never changes it.\<close>

theorem steering_verdict_exact:
  "(fst (decide_verdict prs n) = Diverges \<longleftrightarrow> (\<exists>s \<in> set (endpoint_sets prs). \<exists>t \<in> set (endpoint_sets prs). s \<noteq> t))
   \<and> (fst (decide_verdict prs n) = Consistent \<longleftrightarrow> 2 \<le> length (endpoint_sets prs) \<and> card (set (endpoint_sets prs)) = 1)
   \<and> (fst (decide_verdict prs n) = Inconclusive \<longleftrightarrow> length (endpoint_sets prs) < 2)
   \<and> fst (decide_verdict (rev prs) n) = fst (decide_verdict prs n)
   \<and> fst (decide_verdict (filter has_endpoints prs) m) = fst (decide_verdict prs n)"
proof -
  have d: "(\<exists>s \<in> S. \<exists>t \<in> S. s \<noteq> t) \<longleftrightarrow> card S \<noteq> 1 \<and> S \<noteq> {}" if "finite S" for S :: "string set set"
  proof (cases "S = {}")
    case False
    then obtain s where s: "s \<in> S" by blast
    have "card S = 1 \<longleftrightarrow> S = {s}" using s by (metis card_1_singletonE is_singletonI is_singleton_altdef singletonD)
    then show ?thesis using s by blast
  qed simp
  have e: "endpoint_sets prs \<noteq> [] \<and> length (endpoint_sets prs) < 2 \<Longrightarrow> card (set (endpoint_sets prs)) = 1"
    by (cases "endpoint_sets prs" rule: remdups_adj.cases) auto
  have r: "endpoint_sets (rev prs) = rev (endpoint_sets prs)" "endpoint_sets (filter has_endpoints prs) = endpoint_sets prs"
    by (simp_all add: endpoint_sets_def rev_map rev_filter filter_map comp_def endpoint_set_empty)
  have v: "fst (decide_verdict qs k) = (if length (endpoint_sets qs) < 2 then Inconclusive
      else if card (set (endpoint_sets qs)) = 1 then Consistent else Diverges)" for qs k
    by (simp add: decide_verdict_cases endpoint_sets_def Let_def)
  show ?thesis
    unfolding v r length_rev set_rev using d[of "set (endpoint_sets prs)"] e by auto
qed

text \<open>Answers of a resolver to the four queries, from the texts \<open>dig\<close> printed; \<open>None\<close> for a query that failed.\<close>

definition answers_from :: "string option list \<Rightarrow> ResolverResult list" where
  "answers_from texts = map (\<lambda>(rt, t). case t of
       None \<Rightarrow> \<lparr>resolver = [], query_time_ms = None, answers = [], rr_error = Some ''timeout''\<rparr>
     | Some x \<Rightarrow> \<lparr>resolver = [], query_time_ms = None, answers = parse_dig_answers x rt, rr_error = None\<rparr>)
     (zip [A, Aaaa, Https, Svcb] texts)"

text \<open>The requested type is only copied into the records.\<close>

lemma parse_any_type: "parse_dig_answers t rt = map (record_type_update (\<lambda>_. rt)) (parse_dig_answers t A)"
proof -
  have "filter_map (\<lambda>l. let fields = split_whitespace l in if length fields < 5 then None
       else Some \<lparr>record_type = rt, answer_value = join '' '' (drop 4 fields), ttl_secs = parse_uint (fields ! 1)\<rparr>) ls
     = map (record_type_update (\<lambda>_. rt)) (filter_map (\<lambda>l. let fields = split_whitespace l in if length fields < 5 then None
       else Some \<lparr>record_type = A, answer_value = join '' '' (drop 4 fields), ttl_secs = parse_uint (fields ! 1)\<rparr>) ls)" for ls
    by (induction ls) (simp_all add: Let_def)
  then show ?thesis by (simp only: parse_dig_answers_def)
qed

text \<open>Three readings of the answers that are not about steering: two resolvers with the same addresses are said to diverge when the query of
  one of them for a second address family failed, or when one of them lists an alias before the address, since the type of an answer line
  is not read; and resolvers whose service records differ are called consistent.\<close>

theorem steering_gaps:
  "fst (decide_verdict [answers_from [Some ''x. 60 IN A 192.0.2.1'', Some ''x. 60 IN AAAA 2001:db8::1'', Some [], Some []],
       answers_from [Some ''x. 60 IN A 192.0.2.1'', None, Some [], Some []]] 2) = Diverges
   \<and> fst (decide_verdict [answers_from [Some ''x. 60 IN A 192.0.2.1'', Some [], Some [], Some []],
       answers_from [Some (''x. 60 IN CNAME y.'' @ [CHR 0x0A] @ ''y. 60 IN A 192.0.2.1''), Some [], Some [], Some []]] 2) = Diverges
   \<and> fst (decide_verdict [answers_from [Some ''x. 60 IN A 192.0.2.1'', Some [], Some ''x. 60 IN HTTPS 1 . alpn=h3'', Some []],
       answers_from [Some ''x. 60 IN A 192.0.2.1'', Some [], Some ''x. 60 IN HTTPS 1 . alpn=h2'', Some []]] 2) = Consistent"
proof -
  have w: "parse_dig_answers ''x. 60 IN A 192.0.2.1'' A = [\<lparr>record_type = A, answer_value = ''192.0.2.1'', ttl_secs = Some 60\<rparr>]"
    "parse_dig_answers ''x. 60 IN AAAA 2001:db8::1'' A = [\<lparr>record_type = A, answer_value = ''2001:db8::1'', ttl_secs = Some 60\<rparr>]"
    "parse_dig_answers (''x. 60 IN CNAME y.'' @ [CHR 0x0A] @ ''y. 60 IN A 192.0.2.1'') A =
       [\<lparr>record_type = A, answer_value = ''y.'', ttl_secs = Some 60\<rparr>, \<lparr>record_type = A, answer_value = ''192.0.2.1'', ttl_secs = Some 60\<rparr>]"
    "parse_dig_answers ''x. 60 IN HTTPS 1 . alpn=h3'' A = [\<lparr>record_type = A, answer_value = ''1 . alpn=h3'', ttl_secs = Some 60\<rparr>]"
    "parse_dig_answers ''x. 60 IN HTTPS 1 . alpn=h2'' A = [\<lparr>record_type = A, answer_value = ''1 . alpn=h2'', ttl_secs = Some 60\<rparr>]"
    "parse_dig_answers [] A = []"
    by code_simp+
  show ?thesis
    by (simp add: answers_from_def w parse_any_type[of _ Aaaa] parse_any_type[of _ Https] parse_any_type[of _ Svcb]
        decide_verdict_cases endpoint_set_def endpoint_addresses_def answered_def del: append.simps)
qed

end
