(* ===== verification/Nat_Capacity.thy ===== *)
theory Nat_Capacity
  imports Load_Guard
begin

text \<open>
  \<open>network_tests/nat_capacity.rs\<close>: the authorization gate of the disruptive modes, the session-rate probe as a phase of
  the load guard, and what its counters may be read as. The results of the connection attempts, in order, the clock, the moments
  at which the watcher thread's cancellation becomes visible and the error numbers of the platform are arguments.
\<close>

section \<open>Authorization\<close>

definition require_authorization_for :: "string option \<Rightarrow> string \<Rightarrow> string + string" where
  "require_authorization_for statement consequence =
     (case map_option trim statement of
        Some s \<Rightarrow> if s \<noteq> [] then Inr s else Inl (''this mode requires --authorized '' @ [CHR 0x22] @ ''<description of the approved window>''
            @ [CHR 0x22] @ ''; refusing to '' @ consequence @ '' without an explicit authorization statement'')
      | None \<Rightarrow> Inl (''this mode requires --authorized '' @ [CHR 0x22] @ ''<description of the approved window>''
            @ [CHR 0x22] @ ''; refusing to '' @ consequence @ '' without an explicit authorization statement''))"

definition require_authorization :: "string option \<Rightarrow> string + string" where
  "require_authorization statement = require_authorization_for statement ''create firewall/NAT session-table load''"

section \<open>Connection attempts\<close>

datatype SessionOutcome =
    Created | RemoteRefused | RemoteTimedOut | LocalResourceExhausted string | OtherLocalError string

text \<open>The parts of an \<open>io::Error\<close> the code reads, and the error numbers of \<open>libc\<close> for an exhausted descriptor table or buffer.\<close>

datatype ErrorKind = KindRefused | KindTimedOut | KindWouldBlock | KindOther

record IoError =
  io_kind :: ErrorKind
  raw_os_error :: "int option"
  io_text :: string

record Errnos =
  EMFILE :: int
  ENFILE :: int
  ENOBUFS :: int

definition classify_session_error :: "Errnos \<Rightarrow> IoError \<Rightarrow> SessionOutcome" where
  "classify_session_error libc e =
     (case io_kind e of
        KindRefused \<Rightarrow> RemoteRefused
      | KindTimedOut \<Rightarrow> RemoteTimedOut
      | _ \<Rightarrow>
          let is_local_exhaustion = (case raw_os_error e of
                Some code \<Rightarrow> code = EMFILE libc \<or> code = ENFILE libc \<or> code = ENOBUFS libc
              | None \<Rightarrow> False)
          in if is_local_exhaustion then LocalResourceExhausted (io_text e) else OtherLocalError (io_text e))"

record SessionRateResult =
  attempted :: u32
  created :: u32
  remote_refused :: u32
  remote_timed_out :: u32
  local_resource_exhausted :: u32
  other_local_error :: u32
  sr_elapsed_secs :: f64

definition remote_ceiling_evidence :: "SessionRateResult \<Rightarrow> u32 option" where
  "remote_ceiling_evidence r =
     (if 0 < local_resource_exhausted r then None
      else if remote_refused r = 0 \<and> remote_timed_out r = 0 then None
      else Some (created r))"

text \<open>The phase: its counters, the stop flag and how many sessions it holds open.\<close>

record SessionCreationPhase =
  ph_result :: SessionRateResult
  ph_stop :: bool
  ph_open :: nat

definition default_tick :: PhaseTick where
  "default_tick = \<lparr>gateway_latency_ms = None, loss_pct = None, endpoint_error = None, bytes_sent_delta = 0\<rparr>"

type_synonym connect = "IoError option" \<comment> \<open>\<^const>\<open>None\<close>: the connection was established\<close>

definition session_tick :: "Errnos \<Rightarrow> SessionCreationPhase \<Rightarrow> connect \<Rightarrow> SessionCreationPhase \<times> PhaseTick" where
  "session_tick libc ph c =
     (let r = (ph_result ph)\<lparr>attempted := attempted (ph_result ph) + 1\<rparr> in
      case c of
        None \<Rightarrow> (ph\<lparr>ph_result := r\<lparr>created := created r + 1\<rparr>, ph_open := Suc (ph_open ph)\<rparr>, default_tick\<lparr>bytes_sent_delta := 1\<rparr>)
      | Some e \<Rightarrow>
          ((case classify_session_error libc e of
              RemoteRefused \<Rightarrow> ph\<lparr>ph_result := r\<lparr>remote_refused := remote_refused r + 1\<rparr>, ph_stop := True\<rparr>
            | RemoteTimedOut \<Rightarrow> ph\<lparr>ph_result := r\<lparr>remote_timed_out := remote_timed_out r + 1\<rparr>, ph_stop := True\<rparr>
            | LocalResourceExhausted _ \<Rightarrow>
                ph\<lparr>ph_result := r\<lparr>local_resource_exhausted := local_resource_exhausted r + 1\<rparr>, ph_stop := True\<rparr>
            | OtherLocalError _ \<Rightarrow> ph\<lparr>ph_result := r\<lparr>other_local_error := other_local_error r + 1\<rparr>\<rparr>
            | Created \<Rightarrow> ph), default_tick))"

definition phase_new :: SessionCreationPhase where
  "phase_new = \<lparr>ph_result = \<lparr>attempted = 0, created = 0, remote_refused = 0, remote_timed_out = 0,
     local_resource_exhausted = 0, other_local_error = 0, sr_elapsed_secs = Fin 0\<rparr>, ph_stop = False, ph_open = 0\<rparr>"

text \<open>The phase after the given attempts.\<close>

definition phase_after :: "Errnos \<Rightarrow> connect list \<Rightarrow> SessionCreationPhase" where
  "phase_after libc cs = foldl (\<lambda>ph c. fst (session_tick libc ph c)) phase_new cs"

section \<open>The probe\<close>

text \<open>
  One round of the guard's loop: the clock at its condition, the cancel flag, how many snapshots have been pushed, the clock at its end. The
  phase is called in exactly the rounds that are neither over time nor cancelled, and its k-th call makes the k-th attempt.
\<close>

record ProbeRound =
  pr_elapsed :: nat
  pr_cancel :: bool
  pr_pushed :: nat
  pr_elapsed_end :: nat

fun probe_iters :: "nat \<Rightarrow> Errnos \<Rightarrow> (nat \<Rightarrow> connect) \<Rightarrow> nat \<Rightarrow> ProbeRound list \<Rightarrow> IterObs list" where
  "probe_iters step_ns libc conns k [] = []"
| "probe_iters step_ns libc conns k (r # rs) =
     (let called = (pr_elapsed r < step_ns \<and> \<not> pr_cancel r) in
      \<lparr>ob_elapsed = pr_elapsed r, ob_cancel = pr_cancel r,
       ob_tick = (if called then snd (session_tick libc phase_new (conns k)) else default_tick),
       ob_pushed = pr_pushed r, ob_elapsed_end = pr_elapsed_end r\<rparr>
      # probe_iters step_ns libc conns (if called then Suc k else k) rs)"

record ProbeEnv =
  pe_libc :: Errnos
  pe_conns :: "nat \<Rightarrow> connect"
  pe_rounds :: "ProbeRound list"
  pe_samples :: nat \<comment> \<open>snapshots taken by the sampling thread\<close>
  pe_run_ns :: nat
  pe_elapsed_ns :: nat

definition probe_run_env :: "LoadBudget \<Rightarrow> ProbeEnv \<Rightarrow> RunEnv" where
  "probe_run_env b e =
     \<lparr>env_before = Inr unavailable, env_counters_before = Inr zero, env_during = replicate (pe_samples e) (Inr unavailable),
      env_iters = probe_iters (step_duration_ns b) (pe_libc e) (pe_conns e) 0 (pe_rounds e),
      env_elapsed_ns = pe_run_ns e, env_after = Inr unavailable, env_counters_after = Inr zero\<rparr>"

fun show_mode :: "RunMode \<Rightarrow> string" where
  "show_mode LiveEvent = ''LiveEvent''"
| "show_mode Maintenance = ''Maintenance''"

fun budget_error_display :: "BudgetError \<Rightarrow> string" where
  "budget_error_display (RateExceedsCap requested cap m) = ''target rate '' @ requested @ '' Mbps exceeds '' @ show_mode m @ '' cap of '' @ cap @ '' Mbps''"
| "budget_error_display (DurationExceedsCap requested cap m) = ''max duration '' @ show_word requested @ ''s exceeds '' @ show_mode m @ '' cap of ''
            @ show_word cap @ ''s''"
| "budget_error_display (ConcurrencyExceedsCap requested cap m) = ''max concurrency '' @ show_word requested @ '' exceeds '' @ show_mode m @ '' cap of ''
            @ show_word cap"
| "budget_error_display ZeroRamp = ''ramp_steps must be >= 1 (no starting at full rate)''"

text \<open>\<^const>\<open>None\<close> under \<^const>\<open>Inr\<close>: the guard's run has not returned.\<close>

definition run_session_rate_probe :: "LoadBudget \<Rightarrow> string \<Rightarrow> ProbeEnv \<Rightarrow> string + SessionCreationPhase option" where
  "run_session_rate_probe b iface e =
     (case validate b of
        Inl err \<Rightarrow> Inl (budget_error_display err)
      | Inr _ \<Rightarrow>
          (case guard_new b iface False of
             Inl err \<Rightarrow> Inl (budget_error_display err)
           | Inr g \<Rightarrow>
               Inr (map_option (\<lambda>rep.
                  let ph = phase_after (pe_libc e) (map (pe_conns e) [0 ..< length (gr_calls rep)])
                  in ph\<lparr>ph_result := (ph_result ph)\<lparr>sr_elapsed_secs := as_secs_f64 (pe_elapsed_ns e)\<rparr>\<rparr>)
                (run g (probe_run_env b e)))))"

section \<open>Idle mappings and telemetry\<close>

record IdleMappingResult =
  idle_secs_attempted :: u64
  still_responsive_after_idle :: "bool option"
  keepalive_sent :: bool

text \<open>What the socket did: binding, setting the timeout, the first send, and the receive after the idle time.\<close>

record IdleEnv =
  ie_bind :: "string option" \<comment> \<open>the error, if any\<close>
  ie_set_timeout :: "string option"
  ie_send :: "string option"
  ie_recv :: "ErrorKind option"

text \<open>The result, and the seconds the code sleeps before it listens.\<close>

definition observe_idle_mapping_survival :: "IdleEnv \<Rightarrow> u64 \<Rightarrow> bool \<Rightarrow> (string + IdleMappingResult) \<times> u64" where
  "observe_idle_mapping_survival e idle_secs send_keepalive =
     (case ie_bind e of
        Some err \<Rightarrow> (Inl err, 0)
      | None \<Rightarrow>
          (case ie_set_timeout e of
             Some err \<Rightarrow> (Inl err, 0)
           | None \<Rightarrow>
               (case ie_send e of
                  Some err \<Rightarrow> (Inl err, 0)
                | None \<Rightarrow>
                    (Inr \<lparr>idle_secs_attempted = idle_secs,
                       still_responsive_after_idle = (case ie_recv e of
                           None \<Rightarrow> Some True
                         | Some k \<Rightarrow> if k = KindWouldBlock \<or> k = KindTimedOut then None else Some False),
                       keepalive_sent = send_keepalive\<rparr>, min idle_secs 5))))"

record FirewallTelemetry =
  owner_label :: "string option"
  table_usage_pct :: "f64 option"
  drops :: "u64 option"
  policer_drops :: "u64 option"
  state_sync_lag_ms :: "f64 option"

datatype CorrelationVerdict = Correlated f64 | TelemetryAbsent "string list"

definition correlate_with_telemetry :: "SessionRateResult \<Rightarrow> FirewallTelemetry option \<Rightarrow> CorrelationVerdict" where
  "correlate_with_telemetry session_result telemetry =
     (case telemetry of
        None \<Rightarrow> TelemetryAbsent [''firewall/NAT telemetry was not supplied at all'']
      | Some t \<Rightarrow>
          let missing = (if table_usage_pct t = None then [''table_usage_pct''] else [])
                @ (if owner_label t = None then [''owner_label''] else [])
          in if missing \<noteq> [] then TelemetryAbsent missing else Correlated (the (table_usage_pct t)))"

section \<open>The command\<close>

text \<open>\<open>cli/commands/nat_capacity.rs\<close>: the session-rate part of the command. It exits with the refusal when the statement is missing.\<close>

record NatCapacityArgs =
  nc_target :: string
  nc_port :: u16
  nc_interface :: "string option"
  probe_session_rate :: bool
  authorized :: "string option"
  rate_mbps :: f64
  nc_max_duration_secs :: u64
  nc_max_concurrency :: u32
  nc_maintenance :: bool
  nc_idle_secs :: u64
  nc_keepalive :: bool
  nc_telemetry :: "string option"
  nc_json :: bool

datatype SessionRun = NotRequested | Refused string | ProbeRan "string + SessionCreationPhase option"

definition nat_session_part :: "NatCapacityArgs \<Rightarrow> ProbeEnv \<Rightarrow> SessionRun" where
  "nat_session_part args e =
     (if probe_session_rate args then
        (case require_authorization (authorized args) of
           Inr _ \<Rightarrow>
             let b = (if nc_maintenance args
                   then maintenance (rate_mbps args) (nc_max_duration_secs args) (nc_max_concurrency args)
                   else live_event (rate_mbps args) (nc_max_duration_secs args) (nc_max_concurrency args))
             in ProbeRan (run_session_rate_probe b (unwrap_or (nc_interface args) ''unspecified'') e)
         | Inl err \<Rightarrow> Refused err)
      else NotRequested)"

section \<open>The calls of the phase are the attempts\<close>

lemma session_tick_phase: "snd (session_tick libc ph c) = snd (session_tick libc ph' c)"
  by (simp add: session_tick_def Let_def split: option.split)

definition attempt_tick :: "Errnos \<Rightarrow> connect \<Rightarrow> PhaseTick" where
  "attempt_tick libc c = snd (session_tick libc phase_new c)"

lemma attempt_tick_quiet: "tick_abort a (attempt_tick libc c) = None"
  by (simp add: attempt_tick_def session_tick_def tick_abort_def default_tick_def Let_def split: option.split)

lemma probe_step:
  assumes "step_loop a bef dur step_ns rate (probe_iters step_ns libc conns k rs) st = Some (brk, st', obs')"
  shows "\<exists>k' rs'. obs' = probe_iters step_ns libc conns k' rs' \<and> k \<le> k'
    \<and> map snd (ls_calls st') = map snd (ls_calls st) @ map (attempt_tick libc \<circ> conns) [k ..< k']"
  using assms
proof (induction rs arbitrary: k st)
  case (Cons r rs)
  let ?t = "attempt_tick libc (conns k)"
  let ?st1 = "st\<lparr>ls_bytes := ls_bytes st + bytes_sent_delta ?t, ls_calls := ls_calls st @ [(rate, ?t)]\<rparr>"
  show ?case
  proof (cases "pr_elapsed r < step_ns \<and> \<not> pr_cancel r")
    case False
    then show ?thesis using Cons.prems by (auto simp: Let_def split: if_splits intro!: exI[of _ k] exI[of _ rs])
  next
    case True
    have m: "map snd (ls_calls ?st1) = map snd (ls_calls st) @ map (attempt_tick libc \<circ> conns) [k ..< Suc k]" by simp
    consider "obs' = probe_iters step_ns libc conns (Suc k) rs" "ls_calls st' = ls_calls ?st1"
      | "step_loop a bef dur step_ns rate (probe_iters step_ns libc conns (Suc k) rs) ?st1 = Some (brk, st', obs')"
      using Cons.prems True attempt_tick_quiet[of a libc "conns k"]
      by (auto simp: Let_def attempt_tick_def[symmetric] split: if_splits)
    then show ?thesis
    proof cases
      case 1
      then show ?thesis using m by (metis le_SucI order_refl)
    next
      case 2
      from Cons.IH[OF 2] obtain k' rs' where k: "obs' = probe_iters step_ns libc conns k' rs'" "Suc k \<le> k'"
        "map snd (ls_calls st') = map snd (ls_calls ?st1) @ map (attempt_tick libc \<circ> conns) [Suc k ..< k']" by blast
      have "[k ..< k'] = [k ..< Suc k] @ [Suc k ..< k']" using k(2) by (simp add: upt_conv_Cons)
      then show ?thesis using k m by (intro exI[of _ k'] exI[of _ rs']) simp
    qed
  qed
qed simp

lemma probe_ramp:
  "ramp_loop a bef dur step_ns rates (probe_iters step_ns libc conns k rs) st = Some st' \<Longrightarrow>
     \<exists>k'. k \<le> k' \<and> map snd (ls_calls st') = map snd (ls_calls st) @ map (attempt_tick libc \<circ> conns) [k ..< k']"
proof (induction rates arbitrary: k rs st)
  case Nil
  then show ?case by (auto intro!: exI[of _ k])
next
  case (Cons rate rates)
  then obtain brk st1 obs1 where s: "step_loop a bef dur step_ns rate (probe_iters step_ns libc conns k rs) st = Some (brk, st1, obs1)"
    by (auto split: option.splits)
  from probe_step[OF s] obtain k1 rs1 where k1: "obs1 = probe_iters step_ns libc conns k1 rs1" "k \<le> k1"
    "map snd (ls_calls st1) = map snd (ls_calls st) @ map (attempt_tick libc \<circ> conns) [k ..< k1]" by blast
  show ?case
  proof (cases brk)
    case True
    then show ?thesis using Cons.prems s k1 by auto
  next
    case False
    then have "ramp_loop a bef dur step_ns rates (probe_iters step_ns libc conns k1 rs1) st1 = Some st'" using Cons.prems s k1 by simp
    from Cons.IH[OF this] obtain k' where "k1 \<le> k'"
      "map snd (ls_calls st') = map snd (ls_calls st1) @ map (attempt_tick libc \<circ> conns) [k1 ..< k']" by blast
    moreover have "[k ..< k'] = [k ..< k1] @ [k1 ..< k']" using k1(2) calculation(1) by (metis le_Suc_ex upt_add_eq_append)
    ultimately show ?thesis using k1 by (intro exI[of _ k']) simp
  qed
qed

lemma probe_calls:
  assumes "run g (probe_run_env (budget g) e) = Some rep"
  shows "map snd (gr_calls rep) = map (attempt_tick (pe_libc e) \<circ> pe_conns e) [0 ..< length (gr_calls rep)]"
proof -
  from run_elim[OF assms] obtain st where st: "rep = finish_report g (probe_run_env (budget g) e) st"
    "ramp_loop (abort (budget g)) (radio_sample (Inr unavailable)) (map radio_sample (replicate (pe_samples e) (Inr unavailable)))
      (step_duration_ns (budget g)) (ramp_schedule (budget g))
      (probe_iters (step_duration_ns (budget g)) (pe_libc e) (pe_conns e) 0 (pe_rounds e))
      \<lparr>ls_bytes = 0, ls_stop = Completed, ls_calls = []\<rparr> = Some st"
    unfolding probe_run_env_def by auto
  from probe_ramp[OF st(2)] obtain k where k: "map snd (ls_calls st) = map (attempt_tick (pe_libc e) \<circ> pe_conns e) [0 ..< k]" by auto
  moreover have "gr_calls rep = ls_calls st" by (simp add: st(1) report_defs)
  moreover have "length (ls_calls st) = k" using arg_cong[OF k, of length] by simp
  ultimately show ?thesis by simp
qed

section \<open>What the counters count\<close>

definition session_outcome :: "Errnos \<Rightarrow> connect \<Rightarrow> SessionOutcome" where
  "session_outcome libc c = (case c of None \<Rightarrow> Created | Some e \<Rightarrow> classify_session_error libc e)"

fun is_local_exhaustion :: "SessionOutcome \<Rightarrow> bool" where
  "is_local_exhaustion (LocalResourceExhausted _) = True"
| "is_local_exhaustion _ = False"

fun is_other_local :: "SessionOutcome \<Rightarrow> bool" where
  "is_other_local (OtherLocalError _) = True"
| "is_other_local _ = False"

definition tally :: "Errnos \<Rightarrow> (SessionOutcome \<Rightarrow> bool) \<Rightarrow> connect list \<Rightarrow> nat" where
  "tally libc P cs = length (filter (P \<circ> session_outcome libc) cs)"

lemma tally_snoc: "tally libc P (cs @ [c]) = tally libc P cs + (if P (session_outcome libc c) then 1 else 0)"
  by (simp add: tally_def)

lemma not_created: "classify_session_error libc e \<noteq> Created"
  by (auto simp: classify_session_error_def Let_def split: ErrorKind.splits)

text \<open>The counters after the given attempts, as numbers modulo \<open>2 ^ 32\<close>.\<close>

lemma phase_after_counts:
  fixes libc :: Errnos and cs :: "connect list"
  defines "ph \<equiv> phase_after libc cs"
  shows "attempted (ph_result ph) = of_nat (length cs)"
    and "created (ph_result ph) = of_nat (tally libc (\<lambda>oc. oc = Created) cs)"
    and "remote_refused (ph_result ph) = of_nat (tally libc (\<lambda>oc. oc = RemoteRefused) cs)"
    and "remote_timed_out (ph_result ph) = of_nat (tally libc (\<lambda>oc. oc = RemoteTimedOut) cs)"
    and "local_resource_exhausted (ph_result ph) = of_nat (tally libc is_local_exhaustion cs)"
    and "other_local_error (ph_result ph) = of_nat (tally libc is_other_local cs)"
    and "ph_open ph = tally libc (\<lambda>oc. oc = Created) cs"
proof -
  have "attempted (ph_result ph) = of_nat (length cs)
    \<and> created (ph_result ph) = of_nat (tally libc (\<lambda>oc. oc = Created) cs)
    \<and> remote_refused (ph_result ph) = of_nat (tally libc (\<lambda>oc. oc = RemoteRefused) cs)
    \<and> remote_timed_out (ph_result ph) = of_nat (tally libc (\<lambda>oc. oc = RemoteTimedOut) cs)
    \<and> local_resource_exhausted (ph_result ph) = of_nat (tally libc is_local_exhaustion cs)
    \<and> other_local_error (ph_result ph) = of_nat (tally libc is_other_local cs)
    \<and> ph_open ph = tally libc (\<lambda>oc. oc = Created) cs"
    unfolding ph_def
  proof (induction cs rule: rev_induct)
    case Nil
    then show ?case by (simp add: phase_after_def phase_new_def tally_def)
  next
    case (snoc c cs)
    have s: "phase_after libc (cs @ [c]) = fst (session_tick libc (phase_after libc cs) c)" by (simp add: phase_after_def)
    show ?case
    proof (cases c)
      case None
      then show ?thesis using snoc unfolding s tally_snoc by (simp add: session_tick_def session_outcome_def Let_def)
    next
      case (Some e)
      then show ?thesis using snoc not_created[of libc e] unfolding s tally_snoc
        by (cases "classify_session_error libc e") (simp_all add: session_tick_def session_outcome_def Let_def)
    qed
  qed
  then show "attempted (ph_result ph) = of_nat (length cs)"
    "created (ph_result ph) = of_nat (tally libc (\<lambda>oc. oc = Created) cs)"
    "remote_refused (ph_result ph) = of_nat (tally libc (\<lambda>oc. oc = RemoteRefused) cs)"
    "remote_timed_out (ph_result ph) = of_nat (tally libc (\<lambda>oc. oc = RemoteTimedOut) cs)"
    "local_resource_exhausted (ph_result ph) = of_nat (tally libc is_local_exhaustion cs)"
    "other_local_error (ph_result ph) = of_nat (tally libc is_other_local cs)"
    "ph_open ph = tally libc (\<lambda>oc. oc = Created) cs"
    by blast+
qed

lemma tally_le: "tally libc P cs \<le> length cs"
  by (simp add: tally_def)

lemma of_nat_u32_zero: "n < 2 ^ 32 \<Longrightarrow> (of_nat n :: u32) = 0 \<longleftrightarrow> n = 0"
  by (auto simp: word_of_nat_eq_0_iff dest: dvd_imp_le)

lemma tally_zero: "tally libc P cs = 0 \<longleftrightarrow> (\<forall>c \<in> set cs. \<not> P (session_outcome libc c))"
  by (simp add: tally_def filter_empty_conv)

lemma ceiling_after:
  assumes "length cs < 2 ^ 32"
  shows "remote_ceiling_evidence (ph_result (phase_after libc cs)) = Some n \<longleftrightarrow>
    (\<forall>c \<in> set cs. \<not> is_local_exhaustion (session_outcome libc c))
    \<and> (\<exists>c \<in> set cs. session_outcome libc c \<in> {RemoteRefused, RemoteTimedOut})
    \<and> n = of_nat (tally libc (\<lambda>oc. oc = Created) cs)"
proof -
  have z: "(of_nat (tally libc P cs) :: u32) = 0 \<longleftrightarrow> tally libc P cs = 0" for P
    by (rule of_nat_u32_zero) (use tally_le[of libc P cs] assms in linarith)
  show ?thesis
    unfolding remote_ceiling_evidence_def phase_after_counts word_gt_0 by (auto simp: z tally_zero)
qed

text \<open>What a finished session-rate probe may be read as. Its phase was called once per attempt; the counters are the numbers of attempts of
  each outcome; and a ceiling is attributed to the remote side exactly when no attempt failed for lack of local resources and at least one was
  refused or timed out, and it is then the number of sessions that were created.\<close>

theorem ceiling_is_remote:
  assumes "run_session_rate_probe b iface e = Inr (Some ph)"
  shows "\<exists>g rep. guard_new b iface False = Inr g \<and> run g (probe_run_env b e) = Some rep \<and>
    (let cs = map (pe_conns e) [0 ..< length (gr_calls rep)]; t = tally (pe_libc e); r = ph_result ph in
      map snd (gr_calls rep) = map (attempt_tick (pe_libc e)) cs
      \<and> attempted r = of_nat (length cs)
      \<and> created r = of_nat (t (\<lambda>oc. oc = Created) cs)
      \<and> local_resource_exhausted r = of_nat (t is_local_exhaustion cs)
      \<and> (length cs < 2 ^ 32 \<longrightarrow>
          (remote_ceiling_evidence r = Some n \<longleftrightarrow>
            t is_local_exhaustion cs = 0 \<and> 0 < t (\<lambda>oc. oc \<in> {RemoteRefused, RemoteTimedOut}) cs
            \<and> n = of_nat (t (\<lambda>oc. oc = Created) cs))))"
proof -
  obtain g rep where g: "guard_new b iface False = Inr g" "run g (probe_run_env b e) = Some rep"
    and ph: "ph = (let ph = phase_after (pe_libc e) (map (pe_conns e) [0 ..< length (gr_calls rep)])
         in ph\<lparr>ph_result := (ph_result ph)\<lparr>sr_elapsed_secs := as_secs_f64 (pe_elapsed_ns e)\<rparr>\<rparr>)"
    using assms by (auto simp: run_session_rate_probe_def split: sum.splits)
  let ?cs = "map (pe_conns e) [0 ..< length (gr_calls rep)]"
  let ?r = "ph_result (phase_after (pe_libc e) ?cs)"
  have b: "budget g = b" using g(1) by (auto simp: guard_new_def split: sum.splits)
  have calls: "map snd (gr_calls rep) = map (attempt_tick (pe_libc e)) ?cs" using probe_calls[of g e rep] g(2) b by simp
  have r: "attempted (ph_result ph) = attempted ?r" "created (ph_result ph) = created ?r"
    "local_resource_exhausted (ph_result ph) = local_resource_exhausted ?r" "remote_ceiling_evidence (ph_result ph) = remote_ceiling_evidence ?r"
    by (simp_all add: ph Let_def remote_ceiling_evidence_def)
  have t: "0 < tally (pe_libc e) P ?cs \<longleftrightarrow> (\<exists>c \<in> set ?cs. P (session_outcome (pe_libc e) c))" for P
    using tally_zero[of "pe_libc e" P ?cs] by auto
  have "remote_ceiling_evidence ?r = Some n \<longleftrightarrow>
      tally (pe_libc e) is_local_exhaustion ?cs = 0 \<and> 0 < tally (pe_libc e) (\<lambda>oc. oc \<in> {RemoteRefused, RemoteTimedOut}) ?cs
      \<and> n = of_nat (tally (pe_libc e) (\<lambda>oc. oc = Created) ?cs)" if "length ?cs < 2 ^ 32"
    unfolding ceiling_after[OF that] t tally_zero ..
  then show ?thesis unfolding Let_def r phase_after_counts using g calls by blast
qed

text \<open>A probe of five seconds whose third attempt is refused.\<close>

definition ex_refusal :: IoError where
  "ex_refusal = \<lparr>io_kind = KindRefused, raw_os_error = None, io_text = ''connection refused''\<rparr>"

definition ex_probe :: ProbeEnv where
  "ex_probe = \<lparr>pe_libc = \<lparr>EMFILE = 24, ENFILE = 23, ENOBUFS = 55\<rparr>, pe_conns = (\<lambda>k. if k < 2 then None else Some ex_refusal),
     pe_rounds = [\<lparr>pr_elapsed = 0, pr_cancel = False, pr_pushed = 0, pr_elapsed_end = 10\<rparr>,
       \<lparr>pr_elapsed = 20, pr_cancel = False, pr_pushed = 0, pr_elapsed_end = 30\<rparr>,
       \<lparr>pr_elapsed = 40, pr_cancel = False, pr_pushed = 0, pr_elapsed_end = 50\<rparr>,
       \<lparr>pr_elapsed = 60, pr_cancel = True, pr_pushed = 0, pr_elapsed_end = 70\<rparr>],
     pe_samples = 0, pe_run_ns = 70, pe_elapsed_ns = 80\<rparr>"

lemma ceiling_elapsed: "remote_ceiling_evidence (r\<lparr>sr_elapsed_secs := x\<rparr>) = remote_ceiling_evidence r"
  by (simp add: remote_ceiling_evidence_def)

lemma ex_probe_phase:
  "\<exists>ph. run_session_rate_probe ex_budget ''en0'' ex_probe = Inr (Some ph) \<and> ph_open ph = 2 \<and> created (ph_result ph) = 2
     \<and> remote_ceiling_evidence (ph_result ph) = Some 2"
proof -
  have sd: "step_duration_ns ex_budget = 5000000000"
    unfolding step_duration_ns_def ex_schedule by (simp add: ex_budget_def live_event_def)
  have it: "probe_iters 5000000000 (pe_libc ex_probe) (pe_conns ex_probe) 0 (pe_rounds ex_probe) =
      [\<lparr>ob_elapsed = 0, ob_cancel = False, ob_tick = attempt_tick (pe_libc ex_probe) (pe_conns ex_probe 0), ob_pushed = 0, ob_elapsed_end = 10\<rparr>,
       \<lparr>ob_elapsed = 20, ob_cancel = False, ob_tick = attempt_tick (pe_libc ex_probe) (pe_conns ex_probe 1), ob_pushed = 0, ob_elapsed_end = 30\<rparr>,
       \<lparr>ob_elapsed = 40, ob_cancel = False, ob_tick = attempt_tick (pe_libc ex_probe) (pe_conns ex_probe 2), ob_pushed = 0, ob_elapsed_end = 50\<rparr>,
       \<lparr>ob_elapsed = 60, ob_cancel = True, ob_tick = default_tick, ob_pushed = 0, ob_elapsed_end = 70\<rparr>]"
    by (simp add: ex_probe_def attempt_tick_def Let_def numeral_2_eq_2)
  have "\<exists>rep. run ex_guard (probe_run_env ex_budget ex_probe) = Some rep \<and> length (gr_calls rep) = 3"
    unfolding run_def probe_run_env_def
    by (simp add: ex_guard_def ex_schedule sd it attempt_tick_quiet association_changed_def report_defs Let_def)
  then obtain rep where rep: "run ex_guard (probe_run_env ex_budget ex_probe) = Some rep" "length (gr_calls rep) = 3" by blast
  have v: "validate ex_budget = Inr ()" using ex_guard_new by (auto simp: guard_new_def split: sum.splits)
  have cs: "map (pe_conns ex_probe) [0 ..< 3] = [None, None, Some ex_refusal]" by (simp add: ex_probe_def upt_rec)
  have ph: "ph_open (phase_after libc [None, None, Some ex_refusal]) = 2" "created (ph_result (phase_after libc [None, None, Some ex_refusal])) = 2"
    "remote_ceiling_evidence (ph_result (phase_after libc [None, None, Some ex_refusal])) = Some 2" for libc
    by (simp_all add: phase_after_def session_tick_def phase_new_def ex_refusal_def classify_session_error_def remote_ceiling_evidence_def Let_def)
  show ?thesis using v rep ph[of "pe_libc ex_probe"] unfolding run_session_rate_probe_def ex_guard_new
    by (simp add: cs Let_def ceiling_elapsed)
qed

theorem ceiling_is_remote_witness:
  "\<exists>ph. run_session_rate_probe ex_budget ''en0'' ex_probe = Inr (Some ph)
     \<and> (\<exists>n. created (ph_result ph) = of_nat (tally (pe_libc ex_probe) (\<lambda>oc. oc = Created) (map (pe_conns ex_probe) [0 ..< n])))"
proof -
  obtain ph where ph: "run_session_rate_probe ex_budget ''en0'' ex_probe = Inr (Some ph)" using ex_probe_phase by blast
  from ceiling_is_remote[OF ph] show ?thesis using ph unfolding Let_def by blast
qed

text \<open>The probe is never bounded by the concurrency of its budget: under a budget of one concurrent session a run holds two open at once.\<close>

theorem concurrency_not_enforced:
  "\<exists>ph. run_session_rate_probe ex_budget ''en0'' ex_probe = Inr (Some ph) \<and> unat (max_concurrency ex_budget) < ph_open ph"
proof -
  have "unat (max_concurrency ex_budget) = 1" by (simp add: ex_budget_def live_event_def)
  then show ?thesis using ex_probe_phase by auto
qed

section \<open>The gate\<close>

lemma dropWhile_empty: "dropWhile P s = [] \<longleftrightarrow> (\<forall>c \<in> set s. P c)"
  by (induction s) auto

lemma trim_empty_iff: "trim s = [] \<longleftrightarrow> (\<forall>c \<in> set s. is_space c)"
proof -
  have "(\<forall>c \<in> set (dropWhile is_space s). is_space c) \<longleftrightarrow> (\<forall>c \<in> set s. is_space c)" by (induction s) auto
  then show ?thesis by (simp add: trim_def trim_matches_def trim_start_matches_def trim_end_matches_def dropWhile_empty)
qed

lemma authorization_iff:
  "require_authorization_for statement consequence = Inr t \<longleftrightarrow>
     (\<exists>s. statement = Some s \<and> t = trim s \<and> \<not> list_all is_space s)"
  by (auto simp: require_authorization_for_def trim_empty_iff list_all_iff split: option.splits)

text \<open>The disruptive probe of the command runs exactly when it was asked for together with an authorization statement that has some
  character other than white space; without such a statement the command refuses and opens no session.\<close>

theorem session_probe_gate:
  "(\<exists>r. nat_session_part args e = ProbeRan r) \<longleftrightarrow>
     probe_session_rate args \<and> (case authorized args of None \<Rightarrow> False | Some s \<Rightarrow> \<not> list_all is_space s)"
proof -
  have "(\<exists>t. require_authorization (authorized args) = Inr t) \<longleftrightarrow> (case authorized args of None \<Rightarrow> False | Some s \<Rightarrow> \<not> list_all is_space s)"
    unfolding require_authorization_def authorization_iff by (auto split: option.splits)
  moreover have "(\<exists>r. nat_session_part args e = ProbeRan r) \<longleftrightarrow> probe_session_rate args \<and> (\<exists>t. require_authorization (authorized args) = Inr t)"
    by (auto simp: nat_session_part_def Let_def split: sum.splits)
  ultimately show ?thesis by simp
qed

text \<open>An idle time above five seconds is reported as attempted although the mapping was left idle for five seconds only.\<close>

theorem idle_time_overstated:
  assumes "5 < secs" and "observe_idle_mapping_survival e secs ka = (Inr r, slept)"
  shows "idle_secs_attempted r = secs \<and> slept = 5"
  using assms by (auto simp: observe_idle_mapping_survival_def min_def split: option.splits)

end
