(* ===== verification/Dhcp_Lifecycle.thy ===== *)
theory Dhcp_Lifecycle
  imports Nat_Capacity
begin

text \<open>
  \<open>network_tests/dhcp_lifecycle.rs\<close>: reading the current lease, requesting a fresh one behind the authorization gate, pool
  headroom and the countdown of a lease. The results of the \<open>ipconfig\<close> commands and the clock are arguments; the function that
  runs commands returns the ones it ran, in order.
\<close>

section \<open>The lease\<close>

datatype DhcpMessageType = Offer | Ack | Nak | UnknownMessage

record DhcpLease =
  message_type :: "DhcpMessageType option"
  lease_seconds :: "u32 option"
  server_identifier :: "string option"
  router :: "string option"
  domain_name_servers :: "string list"
  domain_name :: "string option"

definition default_lease :: DhcpLease where
  "default_lease = \<lparr>message_type = None, lease_seconds = None, server_identifier = None, router = None, domain_name_servers = [], domain_name = None\<rparr>"

definition parse_ip_list :: "string \<Rightarrow> string list" where
  "parse_ip_list v =
     filter (\<lambda>s. s \<noteq> []) (map trim (split_on (CHR '','') (trim_matches (\<lambda>c. c = CHR ''{'' \<or> c = CHR ''}'') v)))"

text \<open>\<open>rest.split(':').nth(1)\<close>\<close>

definition after_colon :: "string \<Rightarrow> string option" where
  "after_colon rest = (let parts = split_on (CHR '':'') rest in if 1 < length parts then Some (parts ! 1) else None)"

definition message_type_of :: "string \<Rightarrow> DhcpMessageType" where
  "message_type_of v =
     (if starts_with v ''OFFER'' then Offer else if starts_with v ''ACK'' then Ack else if starts_with v ''NAK'' then Nak else UnknownMessage)"

definition lease_time_of :: "string \<Rightarrow> u32 option" where
  "lease_time_of v =
     (let ws = split_whitespace v; hex = (if ws = [] then [] else last ws)
      in Option.bind (strip_prefix hex ''0x'') parse_hex)"

definition getpacket_line :: "DhcpLease \<Rightarrow> string \<Rightarrow> DhcpLease" where
  "getpacket_line lease l =
     (let line = trim l in
      case strip_prefix line ''dhcp_message_type'' of
        Some rest \<Rightarrow> (case after_colon rest of Some v \<Rightarrow> lease\<lparr>message_type := Some (message_type_of (trim v))\<rparr> | None \<Rightarrow> lease)
      | None \<Rightarrow>
      (case strip_prefix line ''lease_time'' of
        Some rest \<Rightarrow> (case after_colon rest of Some v \<Rightarrow> lease\<lparr>lease_seconds := lease_time_of (trim v)\<rparr> | None \<Rightarrow> lease)
      | None \<Rightarrow>
      (case strip_prefix line ''server_identifier'' of
        Some rest \<Rightarrow> (case after_colon rest of Some v \<Rightarrow> lease\<lparr>server_identifier := Some (trim v)\<rparr> | None \<Rightarrow> lease)
      | None \<Rightarrow>
      (case strip_prefix line ''router'' of
        Some rest \<Rightarrow>
          (case after_colon rest of
             Some v \<Rightarrow> lease\<lparr>router := (case parse_ip_list (trim v) of [] \<Rightarrow> None | ip # _ \<Rightarrow> Some ip)\<rparr>
           | None \<Rightarrow> lease)
      | None \<Rightarrow>
      (case strip_prefix line ''domain_name_server'' of
        Some rest \<Rightarrow> (case after_colon rest of Some v \<Rightarrow> lease\<lparr>domain_name_servers := parse_ip_list (trim v)\<rparr> | None \<Rightarrow> lease)
      | None \<Rightarrow>
      (case strip_prefix line ''domain_name '' of
        Some rest \<Rightarrow>
          (case after_colon rest of
             Some v \<Rightarrow> if trim v \<noteq> [] then lease\<lparr>domain_name := Some (trim v)\<rparr> else lease
           | None \<Rightarrow> lease)
      | None \<Rightarrow> lease))))))"

definition parse_getpacket :: "string \<Rightarrow> DhcpLease" where
  "parse_getpacket text = foldl getpacket_line default_lease (lines text)"

datatype DhcpReadError = CommandFailed string | NoLease string

text \<open>The result of running a command: an error, or whether it succeeded, its output and its error output.\<close>

datatype CommandObs = CommandError string | CommandRan bool string string

definition read_existing_lease :: "string \<Rightarrow> CommandObs \<Rightarrow> DhcpReadError + DhcpLease" where
  "read_existing_lease iface out =
     (case out of
        CommandError e \<Rightarrow> Inl (CommandFailed e)
      | CommandRan success text _ \<Rightarrow>
          if \<not> success \<or> trim text = [] then Inl (NoLease iface) else Inr (parse_getpacket text))"

section \<open>A fresh lease\<close>

record FreshLeaseTiming =
  discover_to_address_ms :: nat
  fresh_lease :: DhcpLease

text \<open>\<open>{:?}\<close> of a \<open>Duration\<close> in nanoseconds\<close>

definition strip_zeros :: "string \<Rightarrow> string" where
  "strip_zeros s = rev (dropWhile (\<lambda>c. c = CHR ''0'') (rev s))"

definition fmt_decimal :: "nat \<Rightarrow> nat \<Rightarrow> nat \<Rightarrow> string \<Rightarrow> string" where
  "fmt_decimal whole fr width suffix =
     show_nat whole @ (if fr = 0 then [] else ''.'' @ strip_zeros (replicate (width - length (show_nat fr)) (CHR ''0'') @ show_nat fr)) @ suffix"

definition duration_debug :: "nat \<Rightarrow> string" where
  "duration_debug ns =
     (let secs = ns div 1000000000; nanos = ns mod 1000000000 in
      if 0 < secs then fmt_decimal secs nanos 9 ''s''
      else if 1000000 \<le> nanos then fmt_decimal (nanos div 1000000) (nanos mod 1000000) 6 ''ms''
      else if 1000 \<le> nanos then fmt_decimal (nanos div 1000) (nanos mod 1000) 3 ([CHR 0xC2, CHR 0xB5] @ ''s'')
      else fmt_decimal nanos 0 1 ''ns'')"

text \<open>One round of the polling loop: what \<open>ipconfig getpacket\<close> gave, the milliseconds since the start, whether the deadline has passed.\<close>

record Poll =
  poll_out :: CommandObs
  poll_ms :: nat
  poll_late :: bool

record FreshEnv =
  fe_release :: CommandObs
  fe_renew :: CommandObs
  fe_polls :: "Poll list"

text \<open>The loop; \<^const>\<open>None\<close> when it is still polling. The number counts the polls made.\<close>

fun poll_loop :: "string \<Rightarrow> nat \<Rightarrow> Poll list \<Rightarrow> nat \<Rightarrow> ((string + FreshLeaseTiming) \<times> nat) option" where
  "poll_loop iface timeout_ns [] n = None"
| "poll_loop iface timeout_ns (p # ps) n =
     (case read_existing_lease iface (poll_out p) of
        Inr lease \<Rightarrow>
          if message_type lease = Some Ack
          then Some (Inr \<lparr>discover_to_address_ms = poll_ms p, fresh_lease = lease\<rparr>, Suc n)
          else if poll_late p then Some (Inl (''no ACK observed on '' @ iface @ '' within '' @ duration_debug timeout_ns), Suc n)
          else poll_loop iface timeout_ns ps (Suc n)
      | Inl _ \<Rightarrow>
          if poll_late p then Some (Inl (''no ACK observed on '' @ iface @ '' within '' @ duration_debug timeout_ns), Suc n)
          else poll_loop iface timeout_ns ps (Suc n))"

definition cmd_release :: "string \<Rightarrow> string list" where "cmd_release iface = [''ipconfig'', ''set'', iface, ''NONE'']"
definition cmd_renew :: "string \<Rightarrow> string list" where "cmd_renew iface = [''ipconfig'', ''set'', iface, ''DHCP'']"
definition cmd_read :: "string \<Rightarrow> string list" where "cmd_read iface = [''ipconfig'', ''getpacket'', iface]"

definition request_fresh_lease :: "FreshEnv \<Rightarrow> string \<Rightarrow> string option \<Rightarrow> nat \<Rightarrow> ((string + FreshLeaseTiming) \<times> string list list) option" where
  "request_fresh_lease e iface authorization timeout_ns =
     (case require_authorization_for authorization (''release this host'' @ [CHR 0x27] @ ''s lease and consume a fresh address from the DHCP pool'') of
        Inl err \<Rightarrow> Some (Inl err, [])
      | Inr _ \<Rightarrow>
          (case fe_release e of
             CommandError err \<Rightarrow> Some (Inl (''failed to release lease: '' @ err), [cmd_release iface])
           | CommandRan ok1 _ err1 \<Rightarrow>
               if \<not> ok1 then Some (Inl (''ipconfig set '' @ iface @ '' NONE failed: '' @ err1), [cmd_release iface])
               else (case fe_renew e of
                  CommandError err \<Rightarrow> Some (Inl (''failed to request new lease: '' @ err), [cmd_release iface, cmd_renew iface])
                | CommandRan ok2 _ err2 \<Rightarrow>
                    if \<not> ok2 then Some (Inl (''ipconfig set '' @ iface @ '' DHCP failed: '' @ err2), [cmd_release iface, cmd_renew iface])
                    else map_option (\<lambda>(r, n). (r, [cmd_release iface, cmd_renew iface] @ replicate n (cmd_read iface)))
                           (poll_loop iface timeout_ns (fe_polls e) 0))))"

section \<open>The pool and the countdown\<close>

record PoolTelemetry =
  scope_label :: "string option"
  addresses_total :: "u32 option"
  addresses_in_use :: "u32 option"

datatype PoolHeadroomVerdict = Headroom u32 u32 | HeadroomUnavailable string

definition saturating_sub32 :: "u32 \<Rightarrow> u32 \<Rightarrow> u32" where
  "saturating_sub32 a b = (if a < b then 0 else a - b)"

definition evaluate_pool_headroom :: "PoolTelemetry option \<Rightarrow> PoolHeadroomVerdict" where
  "evaluate_pool_headroom telemetry =
     (case telemetry of
        None \<Rightarrow> HeadroomUnavailable (''no pool telemetry supplied; headroom cannot be inferred from a single client'' @ [CHR 0x27]
            @ ''s lease'')
      | Some t \<Rightarrow>
          (case (addresses_total t, addresses_in_use t) of
             (Some tot, Some in_use) \<Rightarrow> Headroom (saturating_sub32 tot in_use) tot
           | _ \<Rightarrow> HeadroomUnavailable ''pool telemetry supplied but missing addresses_total/addresses_in_use''))"

definition appears_counting_down :: "u32 list \<Rightarrow> bool option" where
  "appears_counting_down samples =
     (if length samples < 2 then None else Some (list_ex (\<lambda>(a, b). a \<noteq> b) (adjacent samples)))"

section \<open>What is read of a packet\<close>

definition lease_keys :: "string list" where
  "lease_keys = [''dhcp_message_type'', ''lease_time'', ''server_identifier'', ''router'', ''domain_name_server'', ''domain_name '']"

definition lease_line :: "string \<Rightarrow> bool" where
  "lease_line l = list_ex (starts_with (trim l)) lease_keys"

lemma strip_prefix_None: "strip_prefix s p = None \<longleftrightarrow> \<not> starts_with s p"
  by (simp add: strip_prefix_def)

lemma other_line: "\<not> lease_line l \<Longrightarrow> getpacket_line lease l = lease"
  by (simp add: lease_line_def lease_keys_def getpacket_line_def strip_prefix_None[THEN iffD2] Let_def)

lemma foldl_irrelevant: "(\<And>s x. \<not> P x \<Longrightarrow> f s x = s) \<Longrightarrow> foldl f s xs = foldl f s (filter P xs)"
  by (induction xs arbitrary: s) auto

text \<open>What is read of a lease depends on the lines with one of six keys only: the hardware address, the host and file names and every
  other line of the packet have no influence on any field.\<close>

theorem getpacket_allowlist:
  "parse_getpacket text = foldl getpacket_line default_lease (filter lease_line (lines text))
   \<and> \<not> lease_line (''chaddr = '' @ a) \<and> \<not> lease_line (''sname = '' @ a) \<and> \<not> lease_line (''file = '' @ a)"
proof -
  have h: "\<exists>r. trim (c # d # a) = c # d # r" if "\<not> is_space c" "\<not> is_space d" for c d a
  proof -
    have "\<exists>r. rev (dropWhile is_space (rev a @ [d, c])) = c # d # r"
      using that by (cases "dropWhile is_space (rev a) = []") (auto simp: dropWhile_append dropWhile_empty intro: rev_rev_ident[symmetric])
    then show ?thesis using that by (simp add: trim_def trim_matches_def trim_start_matches_def trim_end_matches_def)
  qed
  have n: "\<not> lease_line (c # d # a)" if "\<not> is_space c" "\<not> is_space d" "list_all (\<lambda>k. take 2 k \<noteq> [c, d]) lease_keys" for c d a
  proof -
    from h[OF that(1,2)] obtain r where "trim (c # d # a) = c # d # r" by blast
    then show ?thesis using that(3) by (auto simp: lease_line_def lease_keys_def starts_with_def)
  qed
  have "\<not> lease_line (''chaddr = '' @ a)" "\<not> lease_line (''sname = '' @ a)" "\<not> lease_line (''file = '' @ a)"
    using n[of "CHR ''c''" "CHR ''h''"] n[of "CHR ''s''" "CHR ''n''"] n[of "CHR ''f''" "CHR ''i''"]
    by (simp_all add: is_space_def lease_keys_def)
  then show ?thesis
    unfolding parse_getpacket_def using foldl_irrelevant[of lease_line getpacket_line, OF other_line] by blast
qed

section \<open>What a fresh lease takes\<close>

lemma poll_loop_Some:
  "poll_loop iface t ps n = Some (r, m) \<Longrightarrow> n < m \<and> (\<forall>x. r = Inr x \<longrightarrow> message_type (fresh_lease x) = Some Ack)"
  by (induction iface t ps n rule: poll_loop.induct) (auto split: sum.splits if_splits)

lemma poll_loop_returns: "list_ex poll_late ps \<Longrightarrow> \<exists>r. poll_loop iface t ps n = Some r"
  by (induction iface t ps n rule: poll_loop.induct) (auto split: sum.splits)

text \<open>C20: no command is run without an authorization statement that says something. With one, the lease is released first and renewed only
  if that succeeded, and the lease is only read after that; a lease is returned only when a read showed an acknowledgement. The function
  returns as soon as the deadline has passed at some poll.\<close>

theorem fresh_lease_gated:
  "(\<forall>r cmds. request_fresh_lease e iface auth t = Some (r, cmds) \<longrightarrow>
      (cmds \<noteq> [] \<longleftrightarrow> (case auth of None \<Rightarrow> False | Some s \<Rightarrow> \<not> list_all is_space s))
      \<and> (\<exists>n. cmds = take n [cmd_release iface, cmd_renew iface] @ replicate (n - 2) (cmd_read iface)
          \<and> (\<forall>x. r = Inr x \<longrightarrow> 2 < n \<and> message_type (fresh_lease x) = Some Ack)))
   \<and> (list_ex poll_late (fe_polls e) \<longrightarrow> request_fresh_lease e iface auth t \<noteq> None)"
proof -
  let ?why = "''release this host'' @ [CHR 0x27] @ ''s lease and consume a fresh address from the DHCP pool''"
  have a: "(\<exists>t. require_authorization_for auth c = Inr t) \<longleftrightarrow> (case auth of None \<Rightarrow> False | Some s \<Rightarrow> \<not> list_all is_space s)" for c
    unfolding authorization_iff by (auto split: option.splits)
  have 1: "(cmds \<noteq> [] \<longleftrightarrow> (case auth of None \<Rightarrow> False | Some s \<Rightarrow> \<not> list_all is_space s))
      \<and> (\<exists>n. cmds = take n [cmd_release iface, cmd_renew iface] @ replicate (n - 2) (cmd_read iface)
          \<and> (\<forall>x. r = Inr x \<longrightarrow> 2 < n \<and> message_type (fresh_lease x) = Some Ack))"
    if r: "request_fresh_lease e iface auth t = Some (r, cmds)" for r cmds
  proof -
    let ?P = "\<lambda>n. cmds = take n [cmd_release iface, cmd_renew iface] @ replicate (n - 2) (cmd_read iface)
        \<and> (\<forall>x. r = Inr x \<longrightarrow> 2 < n \<and> message_type (fresh_lease x) = Some Ack)"
    show ?thesis
    proof (cases "require_authorization_for auth ?why")
      case (Inl err)
      then have "cmds = []" "r = Inl err" using r by (auto simp: request_fresh_lease_def)
      moreover from this have "?P 0" by simp
      ultimately show ?thesis using a[of ?why] Inl by (metis sum.distinct(1))
    next
      case (Inr s)
      then have "cmds \<noteq> [] \<and> (?P 1 \<or> ?P 2 \<or> (\<exists>k. ?P (k + 2)))"
        using r poll_loop_Some[of iface t "fe_polls e" 0]
        by (auto simp: request_fresh_lease_def split: CommandObs.splits if_splits)
      then show ?thesis using a[of ?why] Inr by blast
    qed
  qed
  have 2: "request_fresh_lease e iface auth t \<noteq> None" if "list_ex poll_late (fe_polls e)"
    using poll_loop_returns[OF that, of iface t 0] by (auto simp: request_fresh_lease_def split: sum.splits CommandObs.splits)
  show ?thesis using 1 2 by blast
qed

definition ex_fresh :: FreshEnv where
  "ex_fresh = \<lparr>fe_release = CommandRan True [] [], fe_renew = CommandRan True [] [],
     fe_polls = [\<lparr>poll_out = CommandRan True ''dhcp_message_type (uint8): ACK 0x5'' [], poll_ms = 40, poll_late = False\<rparr>]\<rparr>"

theorem fresh_lease_gated_witness:
  "\<exists>x cmds. request_fresh_lease ex_fresh ''en0'' (Some ''approved'') 5000000000 = Some (Inr x, cmds)
     \<and> message_type (fresh_lease x) = Some Ack \<and> cmds \<noteq> []"
proof -
  have "case request_fresh_lease ex_fresh ''en0'' (Some ''approved'') 5000000000 of Some (Inr _, _) \<Rightarrow> True | _ \<Rightarrow> False" by code_simp
  then obtain x cmds where r: "request_fresh_lease ex_fresh ''en0'' (Some ''approved'') 5000000000 = Some (Inr x, cmds)"
    by (auto split: option.splits sum.splits)
  have "\<not> list_all is_space ''approved''" by code_simp
  then show ?thesis using fresh_lease_gated[of ex_fresh "''en0''" "Some ''approved''" 5000000000] r by auto
qed

end
