(* ===== verification/Counter_Liveness.thy ===== *)
theory Counter_Liveness
  imports F64_Ext Counters
begin

text \<open>
  \<open>network_tests/counter_liveness.rs\<close>: whether a counter moved by roughly a known stimulus, and when a reading of zero drops may
  be reported. The output of \<open>netstat\<close>, the sockets' results and the outcome of each datagram are arguments; differences are
  taken in 128 bits by the code, so they are integers here.
\<close>

section \<open>Reading the counter\<close>

text \<open>One row: the value it gives, or \<open>None\<close> when the loop goes on.\<close>

definition rx_packets_row :: "string \<Rightarrow> string \<Rightarrow> u64 option" where
  "rx_packets_row interface line =
     (let fields = split_whitespace line in
      if fields = [] \<or> hd fields \<noteq> interface then None
      else if length fields < 7 then None
      else parse_uint (fields ! (length fields - 7)))"

definition parse_rx_packets_right_anchored :: "string \<Rightarrow> string \<Rightarrow> u64 option" where
  "parse_rx_packets_right_anchored txt interface =
     (case filter_map (rx_packets_row interface) (drop 1 (lines txt)) of [] \<Rightarrow> None | v # _ \<Rightarrow> Some v)"

record NetstatOutput =
  status_success :: bool
  status_code :: "int option"
  out_text :: string

fun show_code :: "int option \<Rightarrow> string" where
  "show_code None = ''None''"
| "show_code (Some c) = ''Some('' @ show_int c @ '')''"

definition read_rx_packets :: "string + NetstatOutput \<Rightarrow> string \<Rightarrow> string + u64" where
  "read_rx_packets netstat interface =
     (case netstat of
        Inl e \<Rightarrow> Inl (''failed to run netstat: '' @ e)
      | Inr out \<Rightarrow>
          if \<not> status_success out then Inl (''netstat exited with '' @ show_code (status_code out))
          else (case parse_rx_packets_right_anchored (out_text out) interface of
                  Some v \<Rightarrow> Inr v
                | None \<Rightarrow> Inl (''no netstat row for interface '' @ interface)))"

section \<open>Classification of a bracket\<close>

datatype LivenessVerdict = Live | Frozen | Reset | Wrapped | Unattributable

definition is_usable :: "LivenessVerdict \<Rightarrow> bool" where
  "is_usable v \<longleftrightarrow> v = Live"

fun show_verdict :: "LivenessVerdict \<Rightarrow> string" where
  "show_verdict Live = ''Live''"
| "show_verdict Frozen = ''Frozen''"
| "show_verdict Reset = ''Reset''"
| "show_verdict Wrapped = ''Wrapped''"
| "show_verdict Unattributable = ''Unattributable''"

record LivenessBracket =
  source_name :: string
  stimulus_packets_sent :: u64
  counter_before :: u64
  counter_after :: u64
  lb_verdict :: LivenessVerdict
  lb_detail :: string

definition U32_BOUNDARY :: int where "U32_BOUNDARY = 2 ^ 32"

definition U64_BOUNDARY :: int where "U64_BOUNDARY = 2 ^ 64"

definition LIVE_MIN_FRACTION :: f64 where "LIVE_MIN_FRACTION = f64_round (5 / 10)"

definition LIVE_MAX_FRACTION :: f64 where "LIVE_MAX_FRACTION = Fin 20"

definition RESET_MAX_MAGNITUDE_VS_STIMULUS :: f64 where "RESET_MAX_MAGNITUDE_VS_STIMULUS = Fin 50"

definition WRAP_TOLERANCE_PACKETS :: int where "WRAP_TOLERANCE_PACKETS = 10000"

definition matches_stimulus :: "int \<Rightarrow> int \<Rightarrow> bool" where
  "matches_stimulus stimulus reconstructed \<longleftrightarrow> 0 < reconstructed \<and> \<bar>reconstructed - stimulus\<bar> \<le> WRAP_TOLERANCE_PACKETS"

definition delta_verdict :: "int \<Rightarrow> int \<Rightarrow> LivenessVerdict" where
  "delta_verdict stimulus delta =
     (if stimulus = 0 then Unattributable
      else if delta = 0 then Frozen
      else if 0 < delta then
        let frac = f64_div (f64_of_int delta) (f64_of_int stimulus) in
        if f64_le LIVE_MIN_FRACTION frac \<and> f64_le frac LIVE_MAX_FRACTION then Live else Unattributable
      else
        let magnitude = - delta in
        if f64_le (f64_of_int magnitude) (f64_mul (f64_of_int stimulus) RESET_MAX_MAGNITUDE_VS_STIMULUS) then Reset
        else
          let reconstructed_32 = U32_BOUNDARY - magnitude;
              reconstructed_64 = U64_BOUNDARY - magnitude
          in if matches_stimulus stimulus reconstructed_32 \<or> matches_stimulus stimulus reconstructed_64 then Wrapped
             else Unattributable)"

definition magnitude_or_zero :: "int \<Rightarrow> int" where
  "magnitude_or_zero delta = (if delta < 0 then - delta else delta)"

definition delta_detail :: "LivenessVerdict \<Rightarrow> int \<Rightarrow> u64 \<Rightarrow> u64 \<Rightarrow> u64 \<Rightarrow> string" where
  "delta_detail v delta sent before after =
     (case v of
        Live \<Rightarrow>
          ''counter advanced by '' @ show_int delta @ '' against a stimulus of '' @ show_word sent
            @ '' packets -- within the '' @ fmt_prec 0 LIVE_MIN_FRACTION @ ''x-'' @ fmt_prec 0 LIVE_MAX_FRACTION
            @ ''x expected range''
      | Frozen \<Rightarrow>
          ''counter did not move at all ('' @ show_word before @ '' -> '' @ show_word after @ '') despite a ''
            @ show_word sent @ ''-packet stimulus -- this source is not usable as evidence''
      | Reset \<Rightarrow>
          ''counter went backwards by '' @ show_int (magnitude_or_zero delta) @ '' ('' @ show_word before
            @ '' -> '' @ show_word after
            @ ''), a small jump relative to the stimulus -- consistent with a counter reset, not real traffic''
      | Wrapped \<Rightarrow>
          ''counter went backwards by '' @ show_int (magnitude_or_zero delta) @ '' ('' @ show_word before
            @ '' -> '' @ show_word after @ ''), consistent with wraparound past a register boundary''
      | Unattributable \<Rightarrow>
          ''counter changed by '' @ show_int delta @ '' against a stimulus of '' @ show_word sent
            @ '', outside the range attributable to this bracket alone'')"

definition classify_delta :: "string \<Rightarrow> u64 \<Rightarrow> u64 \<Rightarrow> u64 \<Rightarrow> LivenessBracket" where
  "classify_delta name sent before after =
     (let delta = uint after - uint before;
          v = delta_verdict (uint sent) delta
      in \<lparr>source_name = name, stimulus_packets_sent = sent, counter_before = before, counter_after = after,
          lb_verdict = v, lb_detail = delta_detail v delta sent before after\<rparr>)"

section \<open>The stimulus\<close>

text \<open>The result is what was handed to the socket layer; the draining loop after it changes nothing.\<close>

definition send_loopback_stimulus :: "string + unit \<Rightarrow> string + unit \<Rightarrow> string + unit \<Rightarrow> (nat \<Rightarrow> bool) \<Rightarrow> nat \<Rightarrow> string + nat" where
  "send_loopback_stimulus bind_receiver receiver_addr bind_sender send_ok packet_count =
     (case bind_receiver of Inl e \<Rightarrow> Inl (''bind receiver: '' @ e)
      | Inr _ \<Rightarrow>
      case receiver_addr of Inl e \<Rightarrow> Inl (''receiver addr: '' @ e)
      | Inr _ \<Rightarrow>
      case bind_sender of Inl e \<Rightarrow> Inl (''bind sender: '' @ e)
      | Inr _ \<Rightarrow> Inr (fold (\<lambda>i sent. if send_ok i then sent + 1 else sent) [0..<packet_count] 0))"

section \<open>Zero drops\<close>

record ZeroDropVerdict =
  primary_source :: string
  primary_live :: bool
  corroborating_sources :: "string list"
  zd_verdict :: "bool option"
  explanation :: string

definition qualify_zero_drop_claim :: "string \<Rightarrow> LivenessBracket \<Rightarrow> u64 \<Rightarrow> (string \<times> u64) list \<Rightarrow> ZeroDropVerdict" where
  "qualify_zero_drop_claim primary bracket primary_drops_observed sources =
     (if \<not> is_usable (lb_verdict bracket) then
        \<lparr>primary_source = primary, primary_live = False, corroborating_sources = map fst sources, zd_verdict = None,
         explanation =
           ''primary source '' @ [CHR 0x27] @ primary @ [CHR 0x27] @ '' failed liveness bracketing (''
            @ show_verdict (lb_verdict bracket)
            @ ''); a zero-drop reading from an unproven-live counter is withheld, not reported''\<rparr>
      else if sources = [] then
        \<lparr>primary_source = primary, primary_live = True, corroborating_sources = [], zd_verdict = None,
         explanation =
           ''primary source is live, but no corroborating source was supplied; a zero-drop verdict requires at least one independent corroborating source (AP/controller telemetry or capture)''\<rparr>
      else
        let all_agree_zero = (primary_drops_observed = 0 \<and> list_all (\<lambda>(_, d). d = 0) sources) in
        \<lparr>primary_source = primary, primary_live = True, corroborating_sources = map fst sources, zd_verdict = Some all_agree_zero,
         explanation =
           (if all_agree_zero then
              ''primary source live and reports 0 drops, corroborated by '' @ show_nat (length sources)
            @ '' independent source(s) also reporting 0''
            else
              ''primary and corroborating sources disagree, or a nonzero drop count was observed by at least one source'')\<rparr>)"

section \<open>The verdict in integers\<close>

text \<open>Stimuli below \<open>2 ^ 40\<close> packets leave the three floating-point comparisons exact.\<close>

lemma f64_of_int_exact: "\<bar>n\<bar> < 2 ^ 53 \<Longrightarrow> f64_of_int n = Fin (of_int n)"
  by (simp add: f64_of_int_def f64_round_small_int)

lemma f64_le_lt: "f64_le x y \<Longrightarrow> f64_lt y z \<Longrightarrow> f64_lt x z"
  by (cases x; cases y; cases z) (auto simp: f64_le_def)

lemma of_int_le_bound:
  assumes "\<bar>b\<bar> < 2 ^ 50"
  shows "f64_le (f64_of_int n) (Fin (of_int b)) \<longleftrightarrow> n \<le> b"
proof (cases "n \<le> b")
  case True
  then show ?thesis using ieee.rnd_le_int[of "of_int n" b] assms by (simp add: f64_of_int_def)
next
  case False
  then have "(of_int (b + 1) :: rat) \<le> of_int n" by (simp only: of_int_le_iff)
  then have "f64_le (Fin (of_int (b + 1))) (f64_of_int n)"
    using ieee.rnd_mono[of "of_int (b + 1)" "of_int n"] f64_round_small_int[of "b + 1"] assms
    by (simp add: f64_of_int_def abs_less_iff)
  then show ?thesis using False by (cases "f64_of_int n") (auto simp: f64_le_def)
qed

lemma of_int_lower: "0 \<le> b \<Longrightarrow> b < 2 ^ 50 \<Longrightarrow> b \<le> n \<Longrightarrow> (\<exists>x. f64_of_int n = Fin x \<and> of_int b \<le> x) \<or> f64_of_int n = PInf"
  using ieee.rnd_mono[of "of_int b" "of_int n"] f64_round_small_int[of b]
  by (cases "f64_of_int n") (auto simp: f64_of_int_def f64_le_def)

lemma live_upper:
  assumes "0 < s" "s < 2 ^ 40" "0 < n"
  shows "f64_le (f64_div (f64_of_int n) (f64_of_int s)) (Fin 20) \<longleftrightarrow> n \<le> 20 * s"
proof (cases "n \<le> 20 * s")
  case True
  then have "(of_int n :: rat) \<le> of_int (20 * s)" by (simp only: of_int_le_iff)
  then have "(of_int n / of_int s :: rat) \<le> of_int 20"
    using assms by (simp add: divide_le_eq)
  moreover have "f64_of_int n = Fin (of_int n)" "f64_of_int s = Fin (of_int s)"
    using True assms by (simp_all add: f64_of_int_exact)
  ultimately show ?thesis using True assms ieee.rnd_le_int[of "of_int n / of_int s" 20] by simp
next
  case False
  have s: "f64_of_int s = Fin (of_int s)" using assms by (simp add: f64_of_int_exact)
  have "(\<exists>x. f64_of_int n = Fin x \<and> of_int (20 * s + 1) \<le> x) \<or> f64_of_int n = PInf"
    using of_int_lower[of "20 * s + 1" n] False assms by simp
  then have "\<not> f64_le (f64_div (f64_of_int n) (Fin (of_int s))) (Fin 20)"
  proof (elim disjE exE conjE)
    fix x assume x: "f64_of_int n = Fin x" "of_int (20 * s + 1) \<le> x"
    have "(of_int s :: rat) < of_int (2 ^ 40)" using assms(2) by (simp only: of_int_less_iff)
    then have "(of_int (20 * 2 ^ 40 + 1) / 2 ^ 40 :: rat) \<le> x / of_int s" using x(2) assms(1) by (simp add: field_simps)
    then have "f64_le (f64_round (of_int (20 * 2 ^ 40 + 1) / 2 ^ 40)) (f64_round (x / of_int s))"
      by (rule ieee.rnd_mono)
    moreover have "f64_round (of_int (20 * 2 ^ 40 + 1) / 2 ^ 40) = Fin (of_int (20 * 2 ^ 40 + 1) / 2 ^ 40)"
      by (rule f64_round_dyadic) auto
    ultimately show ?thesis using x(1) assms(1) by (cases "f64_round (x / of_int s)") (auto simp: f64_le_def)
  next
    assume "f64_of_int n = PInf"
    then show ?thesis using assms(1) by (simp add: f64_le_def inf_of_sign_def)
  qed
  then show ?thesis using False s by simp
qed

lemma live_lower:
  assumes "0 < s" "s < 2 ^ 40" "0 < n"
  shows "f64_le (f64_round (5 / 10)) (f64_div (f64_of_int n) (f64_of_int s)) \<longleftrightarrow> s \<le> 2 * n"
proof -
  have h: "f64_round (5 / 10) = Fin (1 / 2)" using f64_round_dyadic[of 1 1] by simp
  have s: "f64_of_int s = Fin (of_int s)" using assms by (simp add: f64_of_int_exact)
  have half: "f64_le (Fin (1 / 2)) (f64_round q)" if "1 / 2 \<le> q" for q
    using ieee.rnd_mono[OF that] h by simp
  consider "s \<le> 2 * n" "n < 2 ^ 45" | "2 ^ 45 \<le> n" | "2 * n < s" by linarith
  then show ?thesis
  proof cases
    case 1
    then have "(of_int s :: rat) \<le> of_int (2 * n)" by (simp only: of_int_le_iff)
    then have "1 / 2 \<le> (of_int n / of_int s :: rat)" using assms(1) by (simp add: field_simps)
    then show ?thesis using 1 half s h assms f64_of_int_exact[of n] by simp
  next
    case 2
    have "(\<exists>x. f64_of_int n = Fin x \<and> of_int (2 ^ 45) \<le> x) \<or> f64_of_int n = PInf"
      by (rule of_int_lower) (use 2 in auto)
    moreover have "(of_int s :: rat) < of_int (2 ^ 40)" using assms(2) by (simp only: of_int_less_iff)
    ultimately have "f64_le (Fin (1 / 2)) (f64_div (f64_of_int n) (Fin (of_int s)))"
    proof (elim disjE exE conjE)
      fix x assume "f64_of_int n = Fin x" "of_int (2 ^ 45) \<le> x" "(of_int s :: rat) < of_int (2 ^ 40)"
      then show ?thesis using half[of "x / of_int s"] assms(1) by (simp add: field_simps)
    next
      assume "f64_of_int n = PInf"
      then show ?thesis using assms(1) by (simp add: f64_le_def inf_of_sign_def)
    qed
    then show ?thesis using 2 assms s h by simp
  next
    case 3
    then have "(of_int (2 * n + 1) :: rat) \<le> of_int s" by (simp only: of_int_le_iff)
    moreover have "(of_int s :: rat) < of_int (2 ^ 40)" using assms(2) by (simp only: of_int_less_iff)
    ultimately have "(of_int n / of_int s :: rat) \<le> of_int (2 ^ 40 - 1) / 2 ^ 41" using assms(1) by (simp add: field_simps)
    then have "f64_le (f64_round (of_int n / of_int s)) (f64_round (of_int (2 ^ 40 - 1) / 2 ^ 41))" by (rule ieee.rnd_mono)
    moreover have "f64_round (of_int (2 ^ 40 - 1) / 2 ^ 41) = Fin (of_int (2 ^ 40 - 1) / 2 ^ 41)"
      by (rule f64_round_dyadic) auto
    ultimately have "\<not> f64_le (Fin (1 / 2)) (f64_round (of_int n / of_int s))"
      by (cases "f64_round (of_int n / of_int s)") (auto simp: f64_le_def)
    then show ?thesis using 3 assms s h f64_of_int_exact[of n] by simp
  qed
qed

lemma reset_bound:
  assumes "0 < s" "s < 2 ^ 40"
  shows "f64_le (f64_of_int m) (f64_mul (f64_of_int s) (Fin 50)) \<longleftrightarrow> m \<le> 50 * s"
proof -
  have "f64_mul (f64_of_int s) (Fin 50) = Fin (of_int (50 * s))"
    using assms f64_of_int_exact[of s] f64_round_small_int[of "50 * s"] by (simp add: mult.commute)
  then show ?thesis using of_int_le_bound[of "50 * s" m] assms by simp
qed

lemma delta_verdict_integers:
  assumes "0 < s" "s < 2 ^ 40"
  shows "delta_verdict s d =
     (if d = 0 then Frozen
      else if 0 < d then if s \<le> 2 * d \<and> d \<le> 20 * s then Live else Unattributable
      else if - d \<le> 50 * s then Reset
      else if matches_stimulus s (2 ^ 32 + d) \<or> matches_stimulus s (2 ^ 64 + d) then Wrapped else Unattributable)"
  using assms live_lower[of s d] live_upper[of s d] reset_bound[of s "- d"]
  by (simp add: delta_verdict_def Let_def LIVE_MIN_FRACTION_def LIVE_MAX_FRACTION_def RESET_MAX_MAGNITUDE_VS_STIMULUS_def
      U32_BOUNDARY_def U64_BOUNDARY_def)

section \<open>Properties\<close>

text \<open>C24: for every stimulus of fewer than \<open>2 ^ 40\<close> packets the verdict on a bracket is the one in exact integers: live between
  half and twenty times the stimulus, frozen at no movement, reset for a backwards jump of at most fifty times the stimulus
  and wrapped when the jump, taken modulo a register, comes within 10000 packets of the stimulus.\<close>

theorem liveness_exact:
  assumes "0 < uint sent" "uint sent < 2 ^ 40"
  shows "lb_verdict (classify_delta name sent before after) =
     (let s = uint sent; d = uint after - uint before in
      if d = 0 then Frozen
      else if 0 < d then if s \<le> 2 * d \<and> d \<le> 20 * s then Live else Unattributable
      else if - d \<le> 50 * s then Reset
      else if \<bar>2 ^ 32 + d - s\<bar> \<le> 10000 \<and> 0 < 2 ^ 32 + d \<or> \<bar>2 ^ 64 + d - s\<bar> \<le> 10000 then Wrapped else Unattributable)"
proof -
  have "uint before < 2 ^ 64" "0 \<le> uint after" using uint_lt2p[of before] by simp_all
  then have "0 < 2 ^ 64 + (uint after - uint before)" by linarith
  then show ?thesis
    using delta_verdict_integers[OF assms, of "uint after - uint before"]
    by (auto simp: classify_delta_def Let_def matches_stimulus_def WRAP_TOLERANCE_PACKETS_def)
qed

theorem liveness_exact_witness:
  "lb_verdict (classify_delta ''lo0'' 1000 (- 100) 900) = Wrapped"
  using liveness_exact[of 1000 "''lo0''" "- 100" 900] by simp

text \<open>A claim of zero drops is reported exactly when the primary counter moved by half to twenty times a stimulus that was
  really sent, at least one corroborating source was given, and the primary and every corroborating source read zero; it is
  withheld, not denied, when the counter is not live or nothing corroborates it.\<close>

theorem zero_drop_claim_exact:
  assumes "uint sent < 2 ^ 40"
  shows "zd_verdict (qualify_zero_drop_claim src (classify_delta name sent before after) drops others) =
     (let d = uint after - uint before in
      if 0 < uint sent \<and> 0 < d \<and> uint sent \<le> 2 * d \<and> d \<le> 20 * uint sent \<and> others \<noteq> []
      then Some (drops = 0 \<and> list_all (\<lambda>(_, n). n = 0) others) else None)"
proof (cases "uint sent = 0")
  case True
  then show ?thesis
    by (simp add: qualify_zero_drop_claim_def classify_delta_def delta_verdict_def is_usable_def Let_def)
next
  case False
  then have "0 < uint sent" using uint_ge_0[of sent] by linarith
  then show ?thesis
    using delta_verdict_integers[OF _ assms, of "uint after - uint before"]
    by (auto simp: qualify_zero_drop_claim_def classify_delta_def is_usable_def Let_def)
qed

theorem zero_drop_claim_exact_witness:
  "zd_verdict (qualify_zero_drop_claim ''drv'' (classify_delta ''lo0'' 1000 0 990) 0 [(''ap'', 0)]) = Some True"
  using zero_drop_claim_exact[of 1000 "''drv''" "''lo0''" 0 990 0 "[(''ap'', 0)]"] by simp

text \<open>A counter far above the stimulus that was zeroed is not a reset: it is unattributable, or wrapped when it stood near a boundary.\<close>

lemma zeroed_counter_not_reset:
  "lb_verdict (classify_delta ''lo0'' 1000 1000000 0) = Unattributable"
  "lb_verdict (classify_delta ''lo0'' 1000 4294966000 0) = Wrapped"
  using delta_verdict_integers[of 1000 "- 1000000"] delta_verdict_integers[of 1000 "- 4294966000"]
  by (simp_all add: classify_delta_def Let_def matches_stimulus_def WRAP_TOLERANCE_PACKETS_def)

lemma stimulus_sent_bounded:
  "send_loopback_stimulus r a s ok n = Inr k \<Longrightarrow> k = length (filter ok [0..<n])"
proof -
  have "fold (\<lambda>i sent. if ok i then sent + 1 else sent) xs b = b + length (filter ok xs)" for xs b
    by (induction xs arbitrary: b) auto
  then show "send_loopback_stimulus r a s ok n = Inr k \<Longrightarrow> k = length (filter ok [0..<n])"
    by (auto simp: send_loopback_stimulus_def split: sum.splits)
qed

text \<open>
  A row without a hardware address is one column short: the header-indexed parser of \<open>load_guard/counters.rs\<close> reads the error
  column as packets, the parser anchored at the right end does not.
\<close>

definition loopback_netstat :: string where
  "loopback_netstat = ''Name Mtu Network Address Ipkts Ierrs Ibytes Opkts Oerrs Obytes Coll'' @ [CHR 0x0A] @
     ''lo0 16384 <Link#1> 100 0 5000 90 0 4000 0'' @ [CHR 0x0A]"

lemma loopback_row_misread:
  "parse_rx_packets_right_anchored loopback_netstat ''lo0'' = Some 100"
  "map_option rx_packets (parse_netstat_ib loopback_netstat ''lo0'') = Some 0"
  by code_simp+


end
