(* ===== verification/Process_Model.thy ===== *)
theory Process_Model
  imports F64_Ext
begin

text \<open>
  \<open>load_guard/process_model.rs\<close>: receive-path and host-resource counters whose absence is never a zero, and the verdict that
  keeps a directional collapse from being blamed on the network unless two process models show it. The outputs of \<open>sysctl\<close> and
  \<open>netstat\<close> and the platform the code is compiled for are arguments.
\<close>

section \<open>Metrics\<close>

datatype Obtainability = Measured | PlatformLimited | OperatorSupplied

record 'a Metric =
  metric_value :: "'a option"
  obtainability :: Obtainability

definition metric_measured :: "'a \<Rightarrow> 'a Metric" where
  "metric_measured v = \<lparr>metric_value = Some v, obtainability = Measured\<rparr>"

definition metric_platform_limited :: "'a Metric" where
  "metric_platform_limited = \<lparr>metric_value = None, obtainability = PlatformLimited\<rparr>"

definition metric_operator_supplied :: "'a \<Rightarrow> 'a Metric" where
  "metric_operator_supplied v = \<lparr>metric_value = Some v, obtainability = OperatorSupplied\<rparr>"

datatype ProcessModel = NativeBidir | PairedProcess | ApplicationRepresentative

record ReceivePathCounters =
  tcp_rcv_collapsed :: "u64 Metric"
  softnet_drops :: "u64 Metric"
  qdisc_drops :: "u64 Metric"

record HostResourceCounters =
  socket_recv_buffer_bytes :: "u64 Metric"
  socket_send_buffer_bytes :: "u64 Metric"
  max_socket_buffer_bytes :: "u64 Metric"
  cpu_core_count :: "u64 Metric"
  softirq_net_rx_events :: "u64 Metric"

section \<open>Host resources\<close>

text \<open>The output of \<open>sysctl -n key\<close>: \<open>None\<close> when it cannot be run or fails.\<close>

definition sysctl_u64 :: "(string \<Rightarrow> string option) \<Rightarrow> string \<Rightarrow> u64 option" where
  "sysctl_u64 sysctl key = (case sysctl key of None \<Rightarrow> None | Some out \<Rightarrow> parse_uint (trim out))"

definition measured_or_limited :: "u64 option \<Rightarrow> u64 Metric" where
  "measured_or_limited v = (case v of Some x \<Rightarrow> metric_measured x | None \<Rightarrow> metric_platform_limited)"

definition supplied_or_limited :: "u64 option \<Rightarrow> u64 Metric" where
  "supplied_or_limited v = (case v of Some x \<Rightarrow> metric_operator_supplied x | None \<Rightarrow> metric_platform_limited)"

definition host_sample_live :: "bool \<Rightarrow> (string \<Rightarrow> string option) \<Rightarrow> HostResourceCounters" where
  "host_sample_live linux sysctl =
     (let recv = sysctl_u64 sysctl (if linux then ''net.core.rmem_default'' else ''net.inet.tcp.recvspace'');
          send = sysctl_u64 sysctl (if linux then ''net.core.wmem_default'' else ''net.inet.tcp.sendspace'');
          maxbuf = sysctl_u64 sysctl (if linux then ''net.core.rmem_max'' else ''kern.ipc.maxsockbuf'');
          cores = sysctl_u64 sysctl (if linux then ''kernel.sched_domain.cpu0.name'' else ''hw.ncpu'')
      in \<lparr>socket_recv_buffer_bytes = measured_or_limited recv, socket_send_buffer_bytes = measured_or_limited send,
          max_socket_buffer_bytes = measured_or_limited maxbuf, cpu_core_count = measured_or_limited cores,
          softirq_net_rx_events = metric_platform_limited\<rparr>)"

definition host_platform_limited :: HostResourceCounters where
  "host_platform_limited = \<lparr>socket_recv_buffer_bytes = metric_platform_limited, socket_send_buffer_bytes = metric_platform_limited,
     max_socket_buffer_bytes = metric_platform_limited, cpu_core_count = metric_platform_limited,
     softirq_net_rx_events = metric_platform_limited\<rparr>"

record ExternalHostResources =
  ext_recv_buffer :: "u64 option"
  ext_send_buffer :: "u64 option"
  ext_max_buffer :: "u64 option"
  ext_core_count :: "u64 option"
  ext_softirq :: "u64 option"

definition host_from_external :: "ExternalHostResources \<Rightarrow> HostResourceCounters" where
  "host_from_external e = \<lparr>socket_recv_buffer_bytes = supplied_or_limited (ext_recv_buffer e),
     socket_send_buffer_bytes = supplied_or_limited (ext_send_buffer e),
     max_socket_buffer_bytes = supplied_or_limited (ext_max_buffer e),
     cpu_core_count = supplied_or_limited (ext_core_count e), softirq_net_rx_events = supplied_or_limited (ext_softirq e)\<rparr>"

section \<open>Receive path\<close>

definition receive_platform_limited :: ReceivePathCounters where
  "receive_platform_limited = \<lparr>tcp_rcv_collapsed = metric_platform_limited, softnet_drops = metric_platform_limited,
     qdisc_drops = metric_platform_limited\<rparr>"

definition is_fully_platform_limited :: "ReceivePathCounters \<Rightarrow> bool" where
  "is_fully_platform_limited c \<longleftrightarrow>
     obtainability (tcp_rcv_collapsed c) = PlatformLimited \<and> metric_value (tcp_rcv_collapsed c) = None
     \<and> obtainability (softnet_drops c) = PlatformLimited \<and> metric_value (softnet_drops c) = None
     \<and> obtainability (qdisc_drops c) = PlatformLimited \<and> metric_value (qdisc_drops c) = None"

text \<open>One line: \<open>Some\<close> the value returned, \<open>None\<close> when the loop goes on.\<close>

definition collapsed_line :: "string \<Rightarrow> u64 option option" where
  "collapsed_line line =
     (let trimmed = trim line in
      case strip_prefix trimmed ''TcpExtTCPRcvCollapsed'' of
        Some rest \<Rightarrow> Some (case split_whitespace rest of [] \<Rightarrow> None | w # _ \<Rightarrow> parse_uint w)
      | None \<Rightarrow>
          if contains (to_lowercase trimmed) ''collapsed in receive queue'' then
            (case parse_uint (takeWhile is_digit trimmed) of Some v \<Rightarrow> Some (Some v) | None \<Rightarrow> None)
          else None)"

fun collapsed_lines :: "string list \<Rightarrow> u64 option" where
  "collapsed_lines [] = None"
| "collapsed_lines (l # ls) = (case collapsed_line l of Some r \<Rightarrow> r | None \<Rightarrow> collapsed_lines ls)"

definition parse_linux_tcp_rcv_collapsed :: "string \<Rightarrow> u64 option" where
  "parse_linux_tcp_rcv_collapsed netstat_s_output = collapsed_lines (lines netstat_s_output)"

text \<open>The output of \<open>netstat -s\<close>: \<open>None\<close> when it cannot be run or fails.\<close>

definition receive_sample_live :: "bool \<Rightarrow> string option \<Rightarrow> ReceivePathCounters" where
  "receive_sample_live linux netstat_s =
     (if linux then
        (case netstat_s of
           None \<Rightarrow> receive_platform_limited
         | Some txt \<Rightarrow> (case parse_linux_tcp_rcv_collapsed txt of
               Some v \<Rightarrow> \<lparr>tcp_rcv_collapsed = metric_measured v, softnet_drops = metric_platform_limited,
                          qdisc_drops = metric_platform_limited\<rparr>
             | None \<Rightarrow> receive_platform_limited))
      else receive_platform_limited)"

record ExternalReceivePathTelemetry =
  ext_tcp_rcv_collapsed :: "u64 option"
  ext_softnet_drops :: "u64 option"
  ext_qdisc_drops :: "u64 option"

definition receive_from_external :: "ExternalReceivePathTelemetry \<Rightarrow> ReceivePathCounters" where
  "receive_from_external ext = \<lparr>tcp_rcv_collapsed = supplied_or_limited (ext_tcp_rcv_collapsed ext),
     softnet_drops = supplied_or_limited (ext_softnet_drops ext), qdisc_drops = supplied_or_limited (ext_qdisc_drops ext)\<rparr>"

section \<open>The collapse verdict\<close>

record ProcessModelTrial =
  pm_model :: ProcessModel
  target_mbps_per_direction :: f64
  upload_mbps :: "f64 option"
  download_mbps :: "f64 option"
  receive_path :: ReceivePathCounters
  host_resources :: HostResourceCounters

definition combined_mbps :: "ProcessModelTrial \<Rightarrow> f64 option" where
  "combined_mbps t = (case (upload_mbps t, download_mbps t) of (Some u, Some d) \<Rightarrow> Some (f64_add u d) | _ \<Rightarrow> None)"

definition directional_balance :: "ProcessModelTrial \<Rightarrow> f64 option" where
  "directional_balance t =
     (case (upload_mbps t, download_mbps t) of
        (Some u, Some d) \<Rightarrow>
          let (lo, hi) = (if f64_le u d then (u, d) else (d, u)) in
          if f64_le hi (Fin 0) then None else Some (f64_div lo hi)
      | _ \<Rightarrow> None)"

definition IMBALANCE_MATERIAL_THRESHOLD :: f64 where "IMBALANCE_MATERIAL_THRESHOLD = f64_round (85 / 100)"

definition SHARED_CAPACITY_TOLERANCE_FRACTION :: f64 where "SHARED_CAPACITY_TOLERANCE_FRACTION = f64_round (15 / 100)"

datatype CollapseVerdict =
    Withheld "string list"
  | MethodSpecificUnfairness string
  | ReproducesAcrossProcessModels string
  | NoCollapseObserved

definition combined_note :: "ProcessModelTrial \<Rightarrow> ProcessModelTrial \<Rightarrow> string option" where
  "combined_note native paired =
     (case (combined_mbps native, combined_mbps paired) of
        (Some n, Some p) \<Rightarrow>
          if f64_lt (Fin 0) n then
            let rel_diff = f64_div (f64_abs (f64_sub p n)) n in
            if f64_le rel_diff SHARED_CAPACITY_TOLERANCE_FRACTION then
              Some (''combined throughput was similar across models ('' @ fmt_prec 1 n @ '' vs '' @ fmt_prec 1 p
            @ '' Mbps, '' @ fmt_prec 1 (f64_mul rel_diff (Fin 100)) @ [CHR 0x25]
            @ '' apart), consistent with shared-capacity saturation rather than a model-specific effect on total capacity'')
            else None
          else None
      | _ \<Rightarrow> None)"

definition with_note :: "string \<Rightarrow> string option \<Rightarrow> string" where
  "with_note detail n = (case n of Some x \<Rightarrow> detail @ ''; '' @ x | None \<Rightarrow> detail)"

definition judge_collapse :: "ProcessModelTrial option \<Rightarrow> ProcessModelTrial option \<Rightarrow> CollapseVerdict" where
  "judge_collapse native_trial paired_trial =
     (case (native_trial, paired_trial) of
        (Some native, Some paired) \<Rightarrow>
          (case (directional_balance native, directional_balance paired) of
             (Some native_balance, Some paired_balance) \<Rightarrow>
               let native_collapsed = f64_lt native_balance IMBALANCE_MATERIAL_THRESHOLD;
                   paired_collapsed = f64_lt paired_balance IMBALANCE_MATERIAL_THRESHOLD
               in if \<not> native_collapsed \<and> \<not> paired_collapsed then NoCollapseObserved
                  else if native_collapsed \<and> paired_collapsed then
                    ReproducesAcrossProcessModels (with_note
                      (''directional imbalance reproduced in both process models (native balance=''
            @ fmt_prec 2 native_balance @ '', paired balance='' @ fmt_prec 2 paired_balance @ '')'')
                      (combined_note native paired))
                  else
                    let (collapsed_model, collapsed_balance, clean_model, clean_balance) =
                      (if paired_collapsed then (''paired_process'', paired_balance, ''native_bidir'', native_balance)
                       else (''native_bidir'', native_balance, ''paired_process'', paired_balance))
                    in MethodSpecificUnfairness (with_note
                      (collapsed_model @ '' showed a directional collapse (balance='' @ fmt_prec 2 collapsed_balance
            @ '') that did not reproduce in '' @ clean_model @ '' (balance='' @ fmt_prec 2 clean_balance
            @ '') at the same target rate; the harness'' @ [CHR 0x27]
            @ ''s process model is the better explanation, not the network'')
                      (combined_note native paired))
           | _ \<Rightarrow> Withheld [''both directions must be measured in both process models to compute balance''])
      | _ \<Rightarrow> Withheld
          ((if native_trial = None then [''process_model:native_bidir''] else []) @
           (if paired_trial = None then [''process_model:paired_process''] else [])))"

section \<open>Rates and balances\<close>

text \<open>For whole rates the balance is below the threshold exactly when the slower direction stays under 85 percent of the faster one.\<close>

definition whole_rates :: "ProcessModelTrial \<Rightarrow> nat \<Rightarrow> nat \<Rightarrow> bool" where
  "whole_rates t u d \<longleftrightarrow> upload_mbps t = Some (Fin (of_nat u)) \<and> download_mbps t = Some (Fin (of_nat d)) \<and> u \<le> 1000000 \<and> d \<le> 1000000"

lemma directional_balance_whole:
  assumes "whole_rates t u d"
  shows "directional_balance t =
     (if max u d = 0 then None else Some (f64_round (of_nat (min u d) / of_nat (max u d))))"
  using assms by (auto simp: directional_balance_def whole_rates_def f64_le_def min_def max_def)

lemma below_threshold:
  assumes "0 < h" "h \<le> 1000000" "l \<le> h"
  shows "f64_lt (f64_round (of_nat l / of_nat h)) (f64_round (85 / 100)) \<longleftrightarrow> 20 * l < 17 * h"
proof (cases "20 * l < 17 * h")
  case True
  then have "Suc (20 * l) \<le> 17 * h" by simp
  then have "(of_nat (Suc (20 * l)) :: rat) \<le> of_nat (17 * h)" by (simp only: of_nat_le_iff)
  moreover have "0 < (of_nat h :: rat)" "(of_nat h :: rat) \<le> of_nat 1000000"
    using assms by (simp, simp only: of_nat_le_iff)
  ultimately have "(of_nat l / of_nat h :: rat) \<le> of_int 912680549 / 2 ^ 30" by (simp add: field_simps)
  then have "f64_le (f64_round (of_nat l / of_nat h)) (f64_round (of_int 912680549 / 2 ^ 30))" by (rule ieee.rnd_mono)
  moreover have "f64_le (f64_round (of_int 912680550 / 2 ^ 30)) (f64_round (85 / 100))" by (rule ieee.rnd_mono) simp
  moreover have "f64_round (of_int 912680549 / 2 ^ 30) = Fin (of_int 912680549 / 2 ^ 30)"
    "f64_round (of_int 912680550 / 2 ^ 30) = Fin (of_int 912680550 / 2 ^ 30)"
    by (rule f64_round_dyadic; simp)+
  ultimately show ?thesis using True
    by (cases "f64_round (of_nat l / of_nat h)"; cases "f64_round (85 / 100)") (auto simp: f64_le_def)
next
  case False
  then have "(of_nat (17 * h) :: rat) \<le> of_nat (20 * l)" by (simp only: of_nat_le_iff)
  then have "85 / 100 \<le> (of_nat l / of_nat h :: rat)" using assms(1) by (simp add: field_simps)
  then have "f64_le (f64_round (85 / 100)) (f64_round (of_nat l / of_nat h))" by (rule ieee.rnd_mono)
  then show ?thesis using False by (cases "f64_round (of_nat l / of_nat h)"; cases "f64_round (85 / 100)") (auto simp: f64_le_def)
qed

definition lopsided :: "nat \<Rightarrow> nat \<Rightarrow> bool" where
  "lopsided u d \<longleftrightarrow> 20 * min u d < 17 * max u d"

lemma balance_below_threshold:
  assumes "whole_rates t u d" "max u d \<noteq> 0"
  shows "\<exists>b. directional_balance t = Some b \<and> (f64_lt b IMBALANCE_MATERIAL_THRESHOLD \<longleftrightarrow> lopsided u d)"
proof -
  have "0 < max u d" "max u d \<le> 1000000" "min u d \<le> max u d" using assms by (auto simp: whole_rates_def)
  from below_threshold[OF this] assms(2) show ?thesis
    by (simp add: directional_balance_whole[OF assms(1)] IMBALANCE_MATERIAL_THRESHOLD_def lopsided_def)
qed

fun verdict_kind :: "CollapseVerdict \<Rightarrow> nat" where
  "verdict_kind (Withheld _) = 0"
| "verdict_kind (MethodSpecificUnfairness _) = 1"
| "verdict_kind (ReproducesAcrossProcessModels _) = 2"
| "verdict_kind NoCollapseObserved = 3"

text \<open>The two roles are interchangeable.\<close>

lemma judge_collapse_symmetric: "verdict_kind (judge_collapse a b) = verdict_kind (judge_collapse b a)"
  by (cases a; cases b) (auto simp: judge_collapse_def Let_def split: option.splits)

section \<open>Properties\<close>

text \<open>For measured whole rates, a collapse is blamed on the network exactly when in both process models the slower direction
  stays under 85 percent of the faster; one model alone gives a finding about the harness, and a model that moved nothing in
  either direction withholds the verdict.\<close>

theorem collapse_needs_both_models:
  assumes "whole_rates native u d" "whole_rates paired u' d'"
  shows "verdict_kind (judge_collapse (Some native) (Some paired)) =
     (if max u d = 0 \<or> max u' d' = 0 then 0
      else if lopsided u d \<and> lopsided u' d' then 2 else if lopsided u d \<or> lopsided u' d' then 1 else 3)
    \<and> verdict_kind (judge_collapse (Some native) None) = 0 \<and> verdict_kind (judge_collapse None (Some paired)) = 0"
proof -
  have z: "max a b = 0 \<Longrightarrow> whole_rates t a b \<Longrightarrow> directional_balance t = None" for a b t
    using directional_balance_whole by simp
  have w: "verdict_kind (judge_collapse (Some native) None) = 0 \<and> verdict_kind (judge_collapse None (Some paired)) = 0"
    by (simp add: judge_collapse_def)
  show ?thesis
  proof (cases "max u d = 0 \<or> max u' d' = 0")
    case True
    then have "directional_balance native = None \<or> directional_balance paired = None"
      by (elim disjE) (simp_all only: z[OF _ assms(1)] z[OF _ assms(2)] simp_thms)
    then show ?thesis using True w by (auto simp: judge_collapse_def split: option.split)
  next
    case False
    then have m: "max u d \<noteq> 0" "max u' d' \<noteq> 0" by (simp_all only: de_Morgan_disj simp_thms)
    from balance_below_threshold[OF assms(1) m(1)] balance_below_threshold[OF assms(2) m(2)]
    obtain b b' where "directional_balance native = Some b" "f64_lt b IMBALANCE_MATERIAL_THRESHOLD \<longleftrightarrow> lopsided u d"
      "directional_balance paired = Some b'" "f64_lt b' IMBALANCE_MATERIAL_THRESHOLD \<longleftrightarrow> lopsided u' d'" by blast
    then show ?thesis using False w by (simp add: judge_collapse_def Let_def split: prod.split)
  qed
qed

definition demo_trial :: "nat \<Rightarrow> nat \<Rightarrow> ProcessModelTrial" where
  "demo_trial u d = \<lparr>pm_model = PairedProcess, target_mbps_per_direction = Fin 250, upload_mbps = Some (Fin (of_nat u)),
     download_mbps = Some (Fin (of_nat d)), receive_path = receive_platform_limited, host_resources = host_platform_limited\<rparr>"

theorem collapse_needs_both_models_witness:
  "verdict_kind (judge_collapse (Some (demo_trial 150 160)) (Some (demo_trial 250 60))) = 1"
  using collapse_needs_both_models[of "demo_trial 150 160" 150 160 "demo_trial 250 60" 250 60]
  by (simp add: whole_rates_def demo_trial_def lopsided_def)

text \<open>A rate that is not a number counts as balanced.\<close>

lemma nan_rate_is_balanced:
  "directional_balance (demo_trial u d\<lparr>upload_mbps := Some NaN\<rparr>) = Some NaN"
  by (simp add: directional_balance_def demo_trial_def f64_le_def)

text \<open>Absence is never a number: a field has a value exactly when its source gave one.\<close>

lemma supplied_value [simp]: "metric_value (supplied_or_limited v) = v" "metric_value (measured_or_limited v) = v"
  by (simp_all add: supplied_or_limited_def measured_or_limited_def metric_operator_supplied_def metric_platform_limited_def
      metric_measured_def split: option.split)

lemma off_linux_fully_limited: "is_fully_platform_limited (receive_sample_live False out)"
  by (simp add: is_fully_platform_limited_def receive_sample_live_def receive_platform_limited_def metric_platform_limited_def)


end
