(* ===== verification/Pcap_Report.thy ===== *)
theory Pcap_Report
  imports F64_Ext "HOL-Library.AList" "HOL-Library.Product_Lexorder" "HOL-Library.List_Lexorder"
begin

text \<open>
  \<open>network_tests/pcap_report.rs\<close>: the report of a capture file. The readers of the \<open>pcap-file\<close> crate and the slicer of the
  \<open>etherparse\<close> crate are arguments; the two reading loops, the per-packet accumulator with its flow table, the classification
  of the vantage point and the comparison of reports are definitions. Counts of packets are naturals, byte and drop totals and
  everything else a file's own fields feed are 64 bit words. A \<open>HashMap\<close> is an association list with distinct keys, a
  \<open>HashSet\<close> a set, a \<open>Duration\<close> a number of nanoseconds, an array of bytes a list.
\<close>

unbundle bit_operations_syntax

section \<open>What the capture readers and the packet slicer deliver\<close>

record TcpSlice =
  tcp_source_port :: u16
  tcp_destination_port :: u16
  sequence_number :: u32
  acknowledgment_number :: u32
  ack_flag :: bool
  checksum :: u16
  tcp_payload :: "u8 list"
  calc_checksum_ipv4 :: "u8 list \<Rightarrow> u8 list \<Rightarrow> u16 option"

record UdpSlice =
  udp_source_port :: u16
  udp_destination_port :: u16
  udp_payload :: "u8 list"

datatype LaxNetSlice = Ipv4 "u8 list" "u8 list" | Ipv6 "u8 list" "u8 list"

datatype TransportSlice = Tcp TcpSlice | Udp UdpSlice | Icmpv4 | Icmpv6

record LaxSlicedPacket =
  net :: "LaxNetSlice option"
  transport :: "TransportSlice option"

type_synonym slicer = "u8 list \<Rightarrow> LaxSlicedPacket option"

section \<open>Reports\<close>

definition ETHERNET_HEADER_LEN :: nat where "ETHERNET_HEADER_LEN = 14"

definition DEFAULT_LINK_MTU :: nat where "DEFAULT_LINK_MTU = 1500"

definition oversize_threshold :: "nat \<Rightarrow> nat" where
  "oversize_threshold link_mtu = link_mtu + ETHERNET_HEADER_LEN"

datatype Vantage = HostOffloadSuspect | OnWireMirrorOrTap | UnknownVantage

datatype Confidence = LowConfidence | MediumConfidence | HighConfidence

record VantageClassification =
  vantage :: Vantage
  vc_confidence :: Confidence
  vc_evidence :: "string list"

record CaptureHealth =
  file_format :: string
  ch_link_type :: string
  ch_interface_name :: "string option"
  ch_snaplen :: u32
  ch_truncated :: bool
  ch_packet_count :: nat
  ch_byte_count :: u64
  duration_secs :: "f64 option"
  drops_known :: "u64 option"

record FrameSizeAnalysis =
  link_mtu_assumed :: nat
  fs_oversize_threshold :: nat
  observed_over_threshold :: nat
  max_observed_frame_len :: u64
  oversize_is_host_segment_artifact :: bool

record ChecksumOffloadSignal =
  tcp_checksum_zero_or_invalid :: nat
  co_tcp_checksum_checked :: nat

record TcpAnomalyCounts =
  sampled_packets :: nat
  ta_retransmissions :: nat
  ta_out_of_order :: nat
  ta_duplicate_acks :: nat
  qualification_required :: bool

record DirectionsSeen =
  src_ips_seen :: nat
  dst_ips_seen :: nat
  bidirectional_tcp_flows :: nat
  total_tcp_flows :: nat

record ProtocolBreakdown =
  pb_tcp_packets :: nat
  pb_tcp_bytes :: u64
  pb_udp_packets :: nat
  pb_udp_bytes :: u64
  pb_udp_flows :: nat
  pb_quic_candidate_packets :: nat
  pb_quic_candidate_bytes :: u64
  pb_icmp_packets :: nat
  pb_other_packets :: nat

record PcapReport =
  path :: string
  health :: CaptureHealth
  vantage_classification :: VantageClassification
  frame_size :: FrameSizeAnalysis
  checksum_offload :: ChecksumOffloadSignal
  tcp_anomalies :: TcpAnomalyCounts
  directions_seen :: DirectionsSeen
  protocol_breakdown :: ProtocolBreakdown
  payload_analysis_suppressed :: bool
  pr_notes :: "string list"

datatype PcapReportError = Io string | UnrecognizedFormat | Pcap string

section \<open>The flow table\<close>

record FlowKey =
  a_ip :: "u8 list"
  a_port :: u16
  b_ip :: "u8 list"
  b_port :: u16

definition normalized :: "u8 list \<Rightarrow> u16 \<Rightarrow> u8 list \<Rightarrow> u16 \<Rightarrow> FlowKey" where
  "normalized src_ip src_port dst_ip dst_port =
     (if (src_ip, src_port) \<le> (dst_ip, dst_port)
      then \<lparr>a_ip = src_ip, a_port = src_port, b_ip = dst_ip, b_port = dst_port\<rparr>
      else \<lparr>a_ip = dst_ip, a_port = dst_port, b_ip = src_ip, b_port = src_port\<rparr>)"

type_synonym flow_id = "128 word \<times> u16 \<times> 128 word \<times> u16"

text \<open>\<open>u128::from_be_bytes\<close>\<close>

definition of_be128 :: "u8 list \<Rightarrow> 128 word" where
  "of_be128 bs = word_rcat bs"

definition flow_key_id :: "FlowKey \<Rightarrow> flow_id" where
  "flow_key_id k = (of_be128 (a_ip k), a_port k, of_be128 (b_ip k), b_port k)"

record FlowState =
  seen_from_a :: bool
  seen_from_b :: bool
  a_max_seq_end :: "nat option"
  b_max_seq_end :: "nat option"
  a_last_ack :: "u32 option"
  b_last_ack :: "u32 option"
  a_dup_ack_run :: nat
  b_dup_ack_run :: nat

definition flow_default :: FlowState where
  "flow_default = \<lparr>seen_from_a = False, seen_from_b = False, a_max_seq_end = None, b_max_seq_end = None,
     a_last_ack = None, b_last_ack = None, a_dup_ack_run = 0, b_dup_ack_run = 0\<rparr>"

definition MAX_TRACKED_FLOWS :: nat where "MAX_TRACKED_FLOWS = 200000"

definition MAX_TCP_SAMPLE_PACKETS :: nat where "MAX_TCP_SAMPLE_PACKETS = 2000000"

record Accumulator =
  snaplen :: u32
  link_type :: string
  packet_count :: nat
  byte_count :: u64
  truncated :: bool
  max_frame_len :: u64
  oversize_count :: nat
  first_ts_seen :: bool
  tcp_checksum_zero :: nat
  tcp_checksum_checked :: nat
  src_ips :: "u8 list set"
  dst_ips :: "u8 list set"
  flows :: "(flow_id \<times> FlowState) list"
  retransmissions :: nat
  out_of_order :: nat
  duplicate_acks :: nat
  tcp_sampled :: nat
  tcp_packets :: nat
  tcp_bytes :: u64
  udp_packets :: nat
  udp_bytes :: u64
  quic_candidate_packets :: nat
  quic_candidate_bytes :: u64
  icmp_packets :: nat
  other_packets :: nat
  udp_flows :: "flow_id set"
  min_ts :: "nat option"
  max_ts :: "nat option"

definition accumulator_new :: "u32 \<Rightarrow> string \<Rightarrow> Accumulator" where
  "accumulator_new len lt = \<lparr>snaplen = len, link_type = lt, packet_count = 0, byte_count = 0, truncated = False,
     max_frame_len = 0, oversize_count = 0, first_ts_seen = False, tcp_checksum_zero = 0, tcp_checksum_checked = 0,
     src_ips = {}, dst_ips = {}, flows = [], retransmissions = 0, out_of_order = 0, duplicate_acks = 0, tcp_sampled = 0,
     tcp_packets = 0, tcp_bytes = 0, udp_packets = 0, udp_bytes = 0, quic_candidate_packets = 0, quic_candidate_bytes = 0,
     icmp_packets = 0, other_packets = 0, udp_flows = {}, min_ts = None, max_ts = None\<rparr>"

section \<open>One packet\<close>

text \<open>The addresses of a packet, padded to 16 bytes as both passes pad them, and the IPv4 pair where there is one.\<close>

fun net_addresses :: "LaxNetSlice \<Rightarrow> u8 list \<times> u8 list \<times> (u8 list \<times> u8 list) option" where
  "net_addresses (Ipv4 s d) = (s @ replicate 12 0, d @ replicate 12 0, Some (s, d))"
| "net_addresses (Ipv6 s d) = (s, d, None)"

definition classify_protocol :: "slicer \<Rightarrow> u8 list \<Rightarrow> u64 \<Rightarrow> Accumulator \<Rightarrow> Accumulator" where
  "classify_protocol from_ethernet captured orig_len acc =
     (let other = acc\<lparr>other_packets := other_packets acc + 1\<rparr> in
      case from_ethernet captured of None \<Rightarrow> other
      | Some parsed \<Rightarrow>
      case net parsed of None \<Rightarrow> other
      | Some n \<Rightarrow>
      let (src16, dst16, _) = net_addresses n in
      case transport parsed of
        Some (Tcp tcp) \<Rightarrow> acc\<lparr>tcp_packets := tcp_packets acc + 1, tcp_bytes := tcp_bytes acc + orig_len\<rparr>
      | Some (Udp udp) \<Rightarrow>
          let sp = udp_source_port udp;
              dp = udp_destination_port udp;
              acc = acc\<lparr>udp_packets := udp_packets acc + 1, udp_bytes := udp_bytes acc + orig_len,
                udp_flows := insert (flow_key_id (normalized src16 sp dst16 dp)) (udp_flows acc)\<rparr>;
              looks_like_quic_first_byte = (case udp_payload udp of [] \<Rightarrow> False | b # _ \<Rightarrow> b AND 0x80 \<noteq> 0)
          in if sp = 443 \<or> dp = 443 \<or> looks_like_quic_first_byte
             then acc\<lparr>quic_candidate_packets := quic_candidate_packets acc + 1,
                      quic_candidate_bytes := quic_candidate_bytes acc + orig_len\<rparr>
             else acc
      | Some Icmpv4 \<Rightarrow> acc\<lparr>icmp_packets := icmp_packets acc + 1\<rparr>
      | Some Icmpv6 \<Rightarrow> acc\<lparr>icmp_packets := icmp_packets acc + 1\<rparr>
      | None \<Rightarrow> other)"

definition checksum_bad :: "TcpSlice \<Rightarrow> bool \<Rightarrow> (u8 list \<times> u8 list) option \<Rightarrow> bool" where
  "checksum_bad tcp frame_complete v4_addrs \<longleftrightarrow>
     checksum tcp = 0 \<or>
     (frame_complete \<and>
      (case v4_addrs of None \<Rightarrow> False
       | Some (s, d) \<Rightarrow> (case calc_checksum_ipv4 tcp s d of None \<Rightarrow> False | Some c \<Rightarrow> c \<noteq> checksum tcp)))"

text \<open>
  The two statements on a flow's direction. The sequence number is widened to 64 bits before anything is added to it, so the
  sums are exact; \<open>saturating_sub\<close> is the subtraction of naturals. The results are the new state and what is added to the
  retransmissions, the out-of-order segments and the duplicate acknowledgments.
\<close>

definition data_step :: "nat \<Rightarrow> nat \<Rightarrow> nat option \<Rightarrow> nat option \<times> nat \<times> nat" where
  "data_step payload_len seq max_seq_end =
     (let seq_end = seq + max payload_len 1 in
      if 0 < payload_len then
        (Some (max (unwrap_or max_seq_end 0) seq_end),
         (case max_seq_end of
            Some prev_max \<Rightarrow>
              if seq_end \<le> prev_max then (1, 0)
              else if seq < prev_max - payload_len then (0, 1) else (0, 0)
          | None \<Rightarrow> (0, 0)))
      else (max_seq_end, 0, 0))"

definition ack_step :: "bool \<Rightarrow> nat \<Rightarrow> u32 \<Rightarrow> u32 option \<Rightarrow> nat \<Rightarrow> u32 option \<times> nat \<times> nat" where
  "ack_step is_ack payload_len ack last_ack dup_run =
     (if is_ack \<and> payload_len = 0 then
        if last_ack = Some ack then (Some ack, dup_run + 1, if 2 \<le> dup_run + 1 then 1 else 0)
        else (Some ack, 0, 0)
      else (last_ack, dup_run, 0))"

definition flow_step :: "bool \<Rightarrow> TcpSlice \<Rightarrow> FlowState \<Rightarrow> FlowState \<times> nat \<times> nat \<times> nat" where
  "flow_step a_side tcp state =
     (let seq = unat (sequence_number tcp); payload_len = length (tcp_payload tcp) in
      if a_side then
        let (m, r, ooo) = data_step payload_len seq (a_max_seq_end state);
            (l, run, d) = ack_step (ack_flag tcp) payload_len (acknowledgment_number tcp) (a_last_ack state) (a_dup_ack_run state)
        in (state\<lparr>seen_from_a := True, a_max_seq_end := m, a_last_ack := l, a_dup_ack_run := run\<rparr>, r, ooo, d)
      else
        let (m, r, ooo) = data_step payload_len seq (b_max_seq_end state);
            (l, run, d) = ack_step (ack_flag tcp) payload_len (acknowledgment_number tcp) (b_last_ack state) (b_dup_ack_run state)
        in (state\<lparr>seen_from_b := True, b_max_seq_end := m, b_last_ack := l, b_dup_ack_run := run\<rparr>, r, ooo, d))"

definition inspect_packet :: "slicer \<Rightarrow> u8 list \<Rightarrow> bool \<Rightarrow> Accumulator \<Rightarrow> Accumulator" where
  "inspect_packet from_ethernet captured frame_complete acc =
     (case from_ethernet captured of None \<Rightarrow> acc
      | Some parsed \<Rightarrow>
      case net parsed of None \<Rightarrow> acc
      | Some n \<Rightarrow>
      let (src16, dst16, v4_addrs) = net_addresses n;
          acc = acc\<lparr>src_ips := insert src16 (src_ips acc), dst_ips := insert dst16 (dst_ips acc)\<rparr>
      in case transport parsed of
        Some (Tcp tcp) \<Rightarrow>
          let acc = acc\<lparr>tcp_sampled := tcp_sampled acc + 1, tcp_checksum_checked := tcp_checksum_checked acc + 1,
                tcp_checksum_zero := tcp_checksum_zero acc + (if checksum_bad tcp frame_complete v4_addrs then 1 else 0)\<rparr>;
              src_port = tcp_source_port tcp;
              dst_port = tcp_destination_port tcp;
              key = flow_key_id (normalized src16 src_port dst16 dst_port);
              a_side = (src16, src_port) \<le> (dst16, dst_port)
          in if length (flows acc) < MAX_TRACKED_FLOWS \<or> map_of (flows acc) key \<noteq> None then
               let (st, r, ooo, d) = flow_step a_side tcp (unwrap_or (map_of (flows acc) key) flow_default)
               in acc\<lparr>flows := AList.update key st (flows acc), retransmissions := retransmissions acc + r,
                      out_of_order := out_of_order acc + ooo, duplicate_acks := duplicate_acks acc + d\<rparr>
             else acc
      | _ \<Rightarrow> acc)"

definition tally_timestamp :: "nat option \<Rightarrow> Accumulator \<Rightarrow> Accumulator" where
  "tally_timestamp ts acc =
     (case ts of None \<Rightarrow> acc
      | Some t \<Rightarrow> acc\<lparr>min_ts := Some (case min_ts acc of None \<Rightarrow> t | Some m \<Rightarrow> min m t),
                      max_ts := Some (case max_ts acc of None \<Rightarrow> t | Some m \<Rightarrow> max m t)\<rparr>)"

definition tally_lengths :: "u64 \<Rightarrow> u64 \<Rightarrow> Accumulator \<Rightarrow> Accumulator" where
  "tally_lengths caplen len acc =
     (let acc = (if caplen < len then acc\<lparr>truncated := True\<rparr> else acc);
          acc = (if max_frame_len acc < caplen then acc\<lparr>max_frame_len := caplen\<rparr> else acc);
          acc = (if max_frame_len acc < len then acc\<lparr>max_frame_len := len\<rparr> else acc)
      in if of_nat (oversize_threshold DEFAULT_LINK_MTU) < len
         then acc\<lparr>oversize_count := oversize_count acc + 1\<rparr> else acc)"

definition tallied :: "slicer \<Rightarrow> u64 \<Rightarrow> u8 list \<Rightarrow> nat option \<Rightarrow> Accumulator \<Rightarrow> Accumulator" where
  "tallied from_ethernet len captured ts acc =
     classify_protocol from_ethernet captured len
       (tally_lengths (of_nat (length captured)) len
         (tally_timestamp ts
           (acc\<lparr>packet_count := packet_count acc + 1, byte_count := byte_count acc + len, first_ts_seen := True\<rparr>)))"

definition observe :: "slicer \<Rightarrow> u64 \<Rightarrow> u8 list \<Rightarrow> nat option \<Rightarrow> Accumulator \<Rightarrow> Accumulator" where
  "observe from_ethernet len captured ts acc =
     (let acc = tallied from_ethernet len captured ts acc
      in if MAX_TCP_SAMPLE_PACKETS \<le> tcp_sampled acc then acc
         else inspect_packet from_ethernet captured (of_nat (length captured) = len) acc)"

section \<open>The report\<close>

text \<open>The evidence, the two scores and the verdict on the vantage point.\<close>

definition host_interface_name :: "string \<Rightarrow> bool" where
  "host_interface_name name =
     (let lname = to_lowercase name in
      starts_with lname ''en'' \<or> starts_with lname ''eth'' \<or> contains lname ''wl'' \<or> starts_with lname ''utun'')"

type_synonym scored = "string list \<times> int \<times> int"

definition score_oversize :: "nat \<Rightarrow> scored" where
  "score_oversize n =
     (if 0 < n then
        ([show_nat n @ '' frames exceed link MTU+L2 ('' @ show_nat (oversize_threshold DEFAULT_LINK_MTU)
            @ '' bytes) '' @ [CHR 0xE2, CHR 0x80, CHR 0x94] @ '' strong TSO/GSO/GRO signal''], 3, 0)
      else ([''no frames exceed link MTU+L2 ('' @ show_nat (oversize_threshold DEFAULT_LINK_MTU) @ '' bytes)''], 0, 0))"

definition score_checksums :: "nat \<Rightarrow> nat \<Rightarrow> scored \<Rightarrow> scored" where
  "score_checksums zero checked acc =
     (case acc of (evidence, score_host, score_wire) \<Rightarrow>
      if 0 < checked then
        if f64_lt (f64_round (5 / 100)) (f64_div (f64_of_nat zero) (f64_of_nat checked)) then
          (evidence @ [show_nat zero @ ''/'' @ show_nat checked
            @ '' sampled TCP segments carry zero/placeholder checksums '' @ [CHR 0xE2, CHR 0x80, CHR 0x94]
            @ '' checksum-offload artifact typical of host-side capture of transmitted packets''], score_host + 2, score_wire)
        else
          (evidence @ [show_nat zero @ ''/'' @ show_nat checked @ '' sampled TCP segments show non-zero checksums''], score_host, score_wire)
      else acc)"

definition score_directions :: "nat \<Rightarrow> nat \<Rightarrow> scored \<Rightarrow> scored" where
  "score_directions bidir_flows total_flows acc =
     (case acc of (evidence, score_host, score_wire) \<Rightarrow>
      if 0 < total_flows then
        if f64_lt (f64_round (4 / 10)) (f64_div (f64_of_nat bidir_flows) (f64_of_nat total_flows)) then
          (evidence @ [show_nat bidir_flows @ ''/'' @ show_nat total_flows
            @ '' TCP flows show both directions in the file '' @ [CHR 0xE2, CHR 0x80, CHR 0x94]
            @ '' consistent with a host endpoint'' @ [CHR 0x27] @ ''s own send+receive path''], score_host + 1, score_wire)
        else
          (evidence @ [show_nat bidir_flows @ ''/'' @ show_nat total_flows @ '' TCP flows show only one direction ''
            @ [CHR 0xE2, CHR 0x80, CHR 0x94] @ '' consistent with an on-path mirror/tap seeing partial traffic''], score_host, score_wire + 1)
      else acc)"

definition score_interface :: "string option \<Rightarrow> scored \<Rightarrow> scored" where
  "score_interface if_name acc =
     (case acc of (evidence, score_host, score_wire) \<Rightarrow>
      case if_name of
        Some name \<Rightarrow>
          if host_interface_name name then
            (evidence @ [''interface name '' @ [CHR 0x27] @ name @ [CHR 0x27] @ '' matches a host NIC naming convention''],
             score_host + 1, score_wire)
          else acc
      | None \<Rightarrow> (evidence @ [''interface name not recorded in file''], score_host, score_wire))"

definition verdict_of_scores :: "int \<Rightarrow> int \<Rightarrow> Vantage \<times> Confidence" where
  "verdict_of_scores score_host score_wire =
     (if 3 \<le> score_host then (HostOffloadSuspect, if 5 \<le> score_host then HighConfidence else MediumConfidence)
      else if score_host < score_wire then (OnWireMirrorOrTap, LowConfidence)
      else if 0 < score_host then (HostOffloadSuspect, LowConfidence)
      else (UnknownVantage, LowConfidence))"

definition classify_vantage :: "nat \<Rightarrow> nat \<Rightarrow> nat \<Rightarrow> nat \<Rightarrow> nat \<Rightarrow> string option \<Rightarrow> VantageClassification" where
  "classify_vantage oversize zero checked bidir_flows total_flows if_name =
     (let (evidence, score_host, score_wire) =
        score_interface if_name (score_directions bidir_flows total_flows (score_checksums zero checked (score_oversize oversize)));
        (v, c) = verdict_of_scores score_host score_wire
      in \<lparr>vantage = v, vc_confidence = c, vc_evidence = evidence\<rparr>)"

definition report_notes :: "bool \<Rightarrow> u32 \<Rightarrow> u64 option \<Rightarrow> bool \<Rightarrow> nat \<Rightarrow> string list" where
  "report_notes trunc effective_snaplen drops host_side oversize =
     (if trunc then
        [''snaplen truncation detected: at least one packet'' @ [CHR 0x27]
            @ ''s captured length is shorter than its original length (file/interface snaplen ''
            @ show_word effective_snaplen @ ''). Payload-dependent verdicts are suppressed.'']
      else []) @
     (case drops of
        None \<Rightarrow>
          [''capture drop count is unknown: this file format/section carries no drop-count record (classic pcap never does; this pcapng section had no Interface Statistics Block). This is reported as unknown, not zero.'']
      | Some d \<Rightarrow>
          if 0 < d then
            [''capture reports '' @ show_word d @ '' interface drops (isb_ifdrop) ''
            @ [CHR 0xE2, CHR 0x80, CHR 0x94] @ '' captured packets may undercount what actually arrived.'']
          else []) @
     (if host_side then
        [''vantage classified as host-side/offload-suspect: retransmission/out-of-order/duplicate-ACK counts below are NOT usable as on-wire network-fault evidence. TSO/GSO/GRO on a host capture reconstruct segments that were never sent/received as observed; capture drops can also manufacture phantom retransmissions.'']
      else []) @
     (if 0 < oversize \<and> host_side then
        [show_nat oversize
            @ '' frames over link MTU+L2 are pre-segmentation host segments (TSO/GRO), not on-wire oversize frames ''
            @ [CHR 0xE2, CHR 0x80, CHR 0x94] @ '' no MTU conclusion can be drawn from them.'']
      else [])"

definition finish :: "string \<Rightarrow> string \<Rightarrow> string option \<Rightarrow> u64 option \<Rightarrow> Accumulator \<Rightarrow> PcapReport" where
  "finish p format if_name drops acc =
     (let threshold = oversize_threshold DEFAULT_LINK_MTU;
          total_flows = length (flows acc);
          bidir_flows = length (filter (\<lambda>(_, st). seen_from_a st \<and> seen_from_b st) (flows acc));
          vc = classify_vantage (oversize_count acc) (tcp_checksum_zero acc) (tcp_checksum_checked acc) bidir_flows total_flows if_name;
          host_side = (vantage vc = HostOffloadSuspect)
      in \<lparr>path = p,
          health = \<lparr>file_format = format, ch_link_type = link_type acc, ch_interface_name = if_name, ch_snaplen = snaplen acc,
            ch_truncated = truncated acc, ch_packet_count = packet_count acc, ch_byte_count = byte_count acc,
            duration_secs = (case (min_ts acc, max_ts acc) of
                (Some mn, Some mx) \<Rightarrow> if mn \<le> mx then Some (as_secs_f64 (mx - mn)) else None
              | _ \<Rightarrow> None),
            drops_known = drops\<rparr>,
          vantage_classification = vc,
          frame_size = \<lparr>link_mtu_assumed = DEFAULT_LINK_MTU, fs_oversize_threshold = threshold,
            observed_over_threshold = oversize_count acc, max_observed_frame_len = max_frame_len acc,
            oversize_is_host_segment_artifact = (0 < oversize_count acc \<and> host_side)\<rparr>,
          checksum_offload = \<lparr>tcp_checksum_zero_or_invalid = tcp_checksum_zero acc,
            co_tcp_checksum_checked = tcp_checksum_checked acc\<rparr>,
          tcp_anomalies = \<lparr>sampled_packets = tcp_sampled acc, ta_retransmissions = retransmissions acc,
            ta_out_of_order = out_of_order acc, ta_duplicate_acks = duplicate_acks acc, qualification_required = host_side\<rparr>,
          directions_seen = \<lparr>src_ips_seen = card (src_ips acc), dst_ips_seen = card (dst_ips acc),
            bidirectional_tcp_flows = bidir_flows, total_tcp_flows = total_flows\<rparr>,
          protocol_breakdown = \<lparr>pb_tcp_packets = tcp_packets acc, pb_tcp_bytes = tcp_bytes acc,
            pb_udp_packets = udp_packets acc, pb_udp_bytes = udp_bytes acc, pb_udp_flows = card (udp_flows acc),
            pb_quic_candidate_packets = quic_candidate_packets acc, pb_quic_candidate_bytes = quic_candidate_bytes acc,
            pb_icmp_packets = icmp_packets acc, pb_other_packets = other_packets acc\<rparr>,
          payload_analysis_suppressed = truncated acc,
          pr_notes = report_notes (truncated acc) (snaplen acc) drops host_side (oversize_count acc)\<rparr>)"

section \<open>Reading a file\<close>

text \<open>Classic files: the header, then the packets, each delivered or refused by the reader.\<close>

record PcapPacket =
  orig_len :: u32
  pkt_data :: "u8 list"
  timestamp :: nat

record PcapHeader =
  hdr_snaplen :: u32
  datalink :: string

fun classic_loop :: "slicer \<Rightarrow> (string + PcapPacket) list \<Rightarrow> Accumulator \<Rightarrow> PcapReportError + Accumulator" where
  "classic_loop from_ethernet [] acc = Inr acc"
| "classic_loop from_ethernet (Inl e # _) acc = Inl (Pcap e)"
| "classic_loop from_ethernet (Inr pkt # rest) acc =
     classic_loop from_ethernet rest (observe from_ethernet (ucast (orig_len pkt)) (pkt_data pkt) (Some (timestamp pkt)) acc)"

definition analyze_pcap_classic ::
    "slicer \<Rightarrow> (u8 list \<Rightarrow> string + PcapHeader \<times> (string + PcapPacket) list) \<Rightarrow> string \<Rightarrow> u8 list \<Rightarrow> PcapReportError + PcapReport" where
  "analyze_pcap_classic from_ethernet pcap_reader p bytes =
     (case pcap_reader bytes of
        Inl e \<Rightarrow> Inl (Pcap e)
      | Inr (header, packets) \<Rightarrow>
          (case classic_loop from_ethernet packets (accumulator_new (hdr_snaplen header) (datalink header)) of
             Inl e \<Rightarrow> Inl e
           | Inr acc \<Rightarrow> Inr (finish p ''pcap'' None None acc)))"

datatype IdbOption = IfName string | OtherIdbOption

datatype IsbOption = IsbIfDrop u64 | OtherIsbOption

datatype Block =
    InterfaceDescription u32 string "IdbOption list"
  | InterfaceStatistics "IsbOption list"
  | EnhancedPacket u32 "u8 list" nat
  | SimplePacket u32 "u8 list"
  | OtherBlock

record PcapngState =
  ng_acc :: "Accumulator option"
  isb_drop :: "u64 option"
  saw_isb :: bool
  if_name :: "string option"

definition pcapng_init :: PcapngState where
  "pcapng_init = \<lparr>ng_acc = None, isb_drop = None, saw_isb = False, if_name = None\<rparr>"

fun idb_option :: "IdbOption \<Rightarrow> PcapngState \<Rightarrow> PcapngState" where
  "idb_option (IfName name) st = st\<lparr>if_name := Some name\<rparr>"
| "idb_option OtherIdbOption st = st"

fun isb_option :: "IsbOption \<Rightarrow> PcapngState \<Rightarrow> PcapngState" where
  "isb_option (IsbIfDrop n) st = st\<lparr>isb_drop := Some (unwrap_or (isb_drop st) 0 + n)\<rparr>"
| "isb_option OtherIsbOption st = st"

fun pcapng_block :: "slicer \<Rightarrow> Block \<Rightarrow> PcapngState \<Rightarrow> PcapngState" where
  "pcapng_block from_ethernet (InterfaceDescription len lt opts) st =
     fold idb_option opts
       (case ng_acc st of
          None \<Rightarrow> st\<lparr>ng_acc := Some (accumulator_new (if len = 0 then - 1 else len) lt)\<rparr>
        | Some _ \<Rightarrow> st)"
| "pcapng_block from_ethernet (InterfaceStatistics opts) st = fold isb_option opts (st\<lparr>saw_isb := True\<rparr>)"
| "pcapng_block from_ethernet (EnhancedPacket len bytes ts) st =
     st\<lparr>ng_acc := Some (observe from_ethernet (ucast len) bytes (Some ts)
          (unwrap_or (ng_acc st) (accumulator_new (- 1) ''Unknown'')))\<rparr>"
| "pcapng_block from_ethernet (SimplePacket len bytes) st =
     st\<lparr>ng_acc := Some (observe from_ethernet (ucast len) bytes None
          (unwrap_or (ng_acc st) (accumulator_new (- 1) ''Unknown'')))\<rparr>"
| "pcapng_block from_ethernet OtherBlock st = st"

fun pcapng_loop :: "slicer \<Rightarrow> (string + Block) list \<Rightarrow> PcapngState \<Rightarrow> PcapReportError + PcapngState" where
  "pcapng_loop from_ethernet [] st = Inr st"
| "pcapng_loop from_ethernet (Inl e # _) st = Inl (Pcap e)"
| "pcapng_loop from_ethernet (Inr b # rest) st = pcapng_loop from_ethernet rest (pcapng_block from_ethernet b st)"

definition analyze_pcapng ::
    "slicer \<Rightarrow> (u8 list \<Rightarrow> string + (string + Block) list) \<Rightarrow> string \<Rightarrow> u8 list \<Rightarrow> PcapReportError + PcapReport" where
  "analyze_pcapng from_ethernet pcapng_reader p bytes =
     (case pcapng_reader bytes of
        Inl e \<Rightarrow> Inl (Pcap e)
      | Inr blocks \<Rightarrow>
          (case pcapng_loop from_ethernet blocks pcapng_init of
             Inl e \<Rightarrow> Inl e
           | Inr st \<Rightarrow>
               let acc = unwrap_or (ng_acc st) (accumulator_new (- 1) ''Unknown'');
                   drops = (if saw_isb st then Some (unwrap_or (isb_drop st) 0) else None)
               in Inr (finish p ''pcapng'' (if_name st) drops acc)))"

text \<open>The file is what \<open>File::open\<close> gives: an error or its bytes.\<close>

definition analyze_pcap ::
    "slicer \<Rightarrow> (u8 list \<Rightarrow> string + PcapHeader \<times> (string + PcapPacket) list) \<Rightarrow> (u8 list \<Rightarrow> string + (string + Block) list)
       \<Rightarrow> string \<Rightarrow> string + u8 list \<Rightarrow> PcapReportError + PcapReport" where
  "analyze_pcap from_ethernet pcap_reader pcapng_reader p file =
     (case file of
        Inl e \<Rightarrow> Inl (Io e)
      | Inr bytes \<Rightarrow>
          if length bytes < 4 then Inl (Io ''failed to fill whole buffer'')
          else
            let magic = take 4 bytes;
                is_pcapng = (magic = [0x0A, 0x0D, 0x0D, 0x0A]);
                is_pcap_be = (magic = [0xA1, 0xB2, 0xC3, 0xD4] \<or> magic = [0xA1, 0xB2, 0x3C, 0x4D]);
                is_pcap_le = (magic = [0xD4, 0xC3, 0xB2, 0xA1] \<or> magic = [0x4D, 0x3C, 0xB2, 0xA1])
            in if is_pcapng then analyze_pcapng from_ethernet pcapng_reader p bytes
               else if is_pcap_be \<or> is_pcap_le then analyze_pcap_classic from_ethernet pcap_reader p bytes
               else Inl UnrecognizedFormat)"

section \<open>Comparing reports\<close>

record PcapComparison =
  reports :: "PcapReport list"
  any_offload_suspect :: bool
  pc_notes :: "string list"

definition compare_reports :: "PcapReport list \<Rightarrow> PcapComparison" where
  "compare_reports rs =
     (let suspect = list_ex (\<lambda>r. vantage (vantage_classification r) = HostOffloadSuspect) rs
      in \<lparr>reports = rs, any_offload_suspect = suspect,
          pc_notes =
            (if suspect then [''at least one compared capture is classified host-side/offload-suspect: retransmission/out-of-order/duplicate-ACK counts and TCP byte totals for that capture are NOT usable as on-wire network-fault evidence, and any comparison built from them inherits that limitation''] else []) @
            (if list_ex (\<lambda>r. ch_truncated (health r)) rs then [''at least one compared capture is snaplen-truncated: payload-dependent comparisons for that capture are suppressed''] else []) @
            (if list_ex (\<lambda>r. drops_known (health r) = None) rs then [''at least one compared capture has an unknown drop count: apparent differences in packet/flow counts between captures may reflect capture loss, not real traffic differences''] else [])\<rparr>)"

section \<open>Facts on one packet\<close>

type_synonym frame = "u64 \<times> u8 list \<times> nat option"

definition observe_all :: "slicer \<Rightarrow> frame list \<Rightarrow> Accumulator \<Rightarrow> Accumulator" where
  "observe_all from_ethernet fs acc = fold (\<lambda>(len, bytes, ts). observe from_ethernet len bytes ts) fs acc"

lemma observe_all_simps [simp]:
  "observe_all sl [] acc = acc"
  "observe_all sl (fs @ [(len, bytes, ts)]) acc = observe sl len bytes ts (observe_all sl fs acc)"
  "observe_all sl (f # fs) acc = observe_all sl fs (observe sl (fst f) (fst (snd f)) (snd (snd f)) acc)"
  by (simp_all add: observe_all_def split: prod.splits)

text \<open>The branch for segments behind the highest byte seen cannot be taken: \<open>seq < prev_max - payload_len\<close> contradicts \<open>seq_end > prev_max\<close>.\<close>

lemma data_step_no_reordering [simp]: "snd (snd (data_step p s m)) = 0"
  by (auto simp: data_step_def Let_def split: option.splits)

lemma data_step_eq:
  "data_step p s m =
     (if 0 < p then (Some (max (unwrap_or m 0) (s + p)), (case m of Some q \<Rightarrow> if s + p \<le> q then 1 else 0 | None \<Rightarrow> 0), 0)
      else (m, 0, 0))"
  by (auto simp: data_step_def Let_def max_def split: option.splits)

lemma flow_step_no_reordering [simp]: "fst (snd (snd (flow_step a tcp st))) = 0"
  using data_step_no_reordering by (simp add: flow_step_def Let_def case_prod_beta)

lemma flow_step_seen [simp]:
  "seen_from_a (fst (flow_step a tcp st)) \<longleftrightarrow> a \<or> seen_from_a st"
  "seen_from_b (fst (flow_step a tcp st)) \<longleftrightarrow> \<not> a \<or> seen_from_b st"
  by (simp_all add: flow_step_def Let_def case_prod_beta)

text \<open>The fields the per-packet tally leaves alone, and the result of the tally.\<close>

lemma classify_protocol_frame [simp]:
  "flows (classify_protocol sl bs n acc) = flows acc"
  "retransmissions (classify_protocol sl bs n acc) = retransmissions acc"
  "out_of_order (classify_protocol sl bs n acc) = out_of_order acc"
  "duplicate_acks (classify_protocol sl bs n acc) = duplicate_acks acc"
  "tcp_sampled (classify_protocol sl bs n acc) = tcp_sampled acc"
  "tcp_checksum_checked (classify_protocol sl bs n acc) = tcp_checksum_checked acc"
  "tcp_checksum_zero (classify_protocol sl bs n acc) = tcp_checksum_zero acc"
  "packet_count (classify_protocol sl bs n acc) = packet_count acc"
  "byte_count (classify_protocol sl bs n acc) = byte_count acc"
  "truncated (classify_protocol sl bs n acc) = truncated acc"
  "min_ts (classify_protocol sl bs n acc) = min_ts acc"
  "max_ts (classify_protocol sl bs n acc) = max_ts acc"
  "oversize_count (classify_protocol sl bs n acc) = oversize_count acc"
  "max_frame_len (classify_protocol sl bs n acc) = max_frame_len acc"
  by (simp_all add: classify_protocol_def Let_def case_prod_beta split: option.split TransportSlice.split)

lemma inspect_packet_frame [simp]:
  "packet_count (inspect_packet sl bs c acc) = packet_count acc"
  "byte_count (inspect_packet sl bs c acc) = byte_count acc"
  "truncated (inspect_packet sl bs c acc) = truncated acc"
  "min_ts (inspect_packet sl bs c acc) = min_ts acc"
  "max_ts (inspect_packet sl bs c acc) = max_ts acc"
  "oversize_count (inspect_packet sl bs c acc) = oversize_count acc"
  "max_frame_len (inspect_packet sl bs c acc) = max_frame_len acc"
  "tcp_packets (inspect_packet sl bs c acc) = tcp_packets acc"
  "udp_packets (inspect_packet sl bs c acc) = udp_packets acc"
  "icmp_packets (inspect_packet sl bs c acc) = icmp_packets acc"
  "other_packets (inspect_packet sl bs c acc) = other_packets acc"
  "quic_candidate_packets (inspect_packet sl bs c acc) = quic_candidate_packets acc"
  by (simp_all add: inspect_packet_def Let_def case_prod_beta split: option.split TransportSlice.split)

lemma inspect_packet_no_reordering [simp]: "out_of_order (inspect_packet sl bs c acc) = out_of_order acc"
  by (simp add: inspect_packet_def Let_def case_prod_beta split: option.split TransportSlice.split)

lemma tally_timestamp_frame [simp]:
  "flows (tally_timestamp ts acc) = flows acc"
  "retransmissions (tally_timestamp ts acc) = retransmissions acc"
  "out_of_order (tally_timestamp ts acc) = out_of_order acc"
  "duplicate_acks (tally_timestamp ts acc) = duplicate_acks acc"
  "tcp_sampled (tally_timestamp ts acc) = tcp_sampled acc"
  "tcp_checksum_checked (tally_timestamp ts acc) = tcp_checksum_checked acc"
  "tcp_checksum_zero (tally_timestamp ts acc) = tcp_checksum_zero acc"
  "packet_count (tally_timestamp ts acc) = packet_count acc"
  "byte_count (tally_timestamp ts acc) = byte_count acc"
  "tcp_packets (tally_timestamp ts acc) = tcp_packets acc"
  "udp_packets (tally_timestamp ts acc) = udp_packets acc"
  "icmp_packets (tally_timestamp ts acc) = icmp_packets acc"
  "other_packets (tally_timestamp ts acc) = other_packets acc"
  "quic_candidate_packets (tally_timestamp ts acc) = quic_candidate_packets acc"
  "truncated (tally_timestamp ts acc) = truncated acc"
  "oversize_count (tally_timestamp ts acc) = oversize_count acc"
  by (simp_all add: tally_timestamp_def split: option.split)

lemma tally_lengths_frame [simp]:
  "flows (tally_lengths n m acc) = flows acc"
  "retransmissions (tally_lengths n m acc) = retransmissions acc"
  "out_of_order (tally_lengths n m acc) = out_of_order acc"
  "duplicate_acks (tally_lengths n m acc) = duplicate_acks acc"
  "tcp_sampled (tally_lengths n m acc) = tcp_sampled acc"
  "tcp_checksum_checked (tally_lengths n m acc) = tcp_checksum_checked acc"
  "tcp_checksum_zero (tally_lengths n m acc) = tcp_checksum_zero acc"
  "packet_count (tally_lengths n m acc) = packet_count acc"
  "byte_count (tally_lengths n m acc) = byte_count acc"
  "tcp_packets (tally_lengths n m acc) = tcp_packets acc"
  "udp_packets (tally_lengths n m acc) = udp_packets acc"
  "icmp_packets (tally_lengths n m acc) = icmp_packets acc"
  "other_packets (tally_lengths n m acc) = other_packets acc"
  "quic_candidate_packets (tally_lengths n m acc) = quic_candidate_packets acc"
  "truncated (tally_lengths n m acc) \<longleftrightarrow> truncated acc \<or> n < m"
  "oversize_count (tally_lengths n m acc) = oversize_count acc + (if of_nat (oversize_threshold DEFAULT_LINK_MTU) < m then 1 else 0)"
  by (simp_all add: tally_lengths_def Let_def)

lemma tallied_frame [simp]:
  "flows (tallied sl len bytes ts acc) = flows acc"
  "retransmissions (tallied sl len bytes ts acc) = retransmissions acc"
  "out_of_order (tallied sl len bytes ts acc) = out_of_order acc"
  "duplicate_acks (tallied sl len bytes ts acc) = duplicate_acks acc"
  "tcp_sampled (tallied sl len bytes ts acc) = tcp_sampled acc"
  "tcp_checksum_checked (tallied sl len bytes ts acc) = tcp_checksum_checked acc"
  "tcp_checksum_zero (tallied sl len bytes ts acc) = tcp_checksum_zero acc"
  "packet_count (tallied sl len bytes ts acc) = Suc (packet_count acc)"
  "byte_count (tallied sl len bytes ts acc) = byte_count acc + len"
  by (simp_all add: tallied_def)

lemma observe_no_reordering [simp]: "out_of_order (observe sl len bytes ts acc) = out_of_order acc"
  by (simp add: observe_def Let_def)

section \<open>Segments and directed flows\<close>

record Segment =
  seg_dir :: "flow_id \<times> bool"
  seg_seq :: nat
  seg_len :: nat
  seg_is_ack :: bool
  seg_ack :: u32

definition segment_of :: "slicer \<Rightarrow> u8 list \<Rightarrow> Segment option" where
  "segment_of sl bytes =
     (case sl bytes of None \<Rightarrow> None
      | Some p \<Rightarrow> (case (net p, transport p) of
          (Some n, Some (Tcp tcp)) \<Rightarrow>
            (case net_addresses n of (s, d, _) \<Rightarrow> Some
              \<lparr>seg_dir = (flow_key_id (normalized s (tcp_source_port tcp) d (tcp_destination_port tcp)),
                          (s, tcp_source_port tcp) \<le> (d, tcp_destination_port tcp)),
               seg_seq = unat (sequence_number tcp), seg_len = length (tcp_payload tcp),
               seg_is_ack = ack_flag tcp, seg_ack = acknowledgment_number tcp\<rparr>)
        | _ \<Rightarrow> None))"

type_synonym direction = "nat option \<times> u32 option \<times> nat"

definition direction_of :: "bool \<Rightarrow> FlowState \<Rightarrow> direction" where
  "direction_of a st = (if a then (a_max_seq_end st, a_last_ack st, a_dup_ack_run st)
                        else (b_max_seq_end st, b_last_ack st, b_dup_ack_run st))"

definition view :: "Accumulator \<Rightarrow> flow_id \<times> bool \<Rightarrow> direction" where
  "view acc k = direction_of (snd k) (unwrap_or (map_of (flows acc) (fst k)) flow_default)"

definition seg_step :: "Segment \<Rightarrow> direction \<Rightarrow> direction \<times> nat \<times> nat" where
  "seg_step e v =
     (case v of (m, l, run) \<Rightarrow>
      case data_step (seg_len e) (seg_seq e) m of (m', r, _) \<Rightarrow>
      case ack_step (seg_is_ack e) (seg_len e) (seg_ack e) l run of (l', run', d) \<Rightarrow> ((m', l', run'), r, d))"

lemma inspect_packet_None:
  assumes "segment_of sl bytes = None"
  shows "flows (inspect_packet sl bytes c acc) = flows acc"
    "retransmissions (inspect_packet sl bytes c acc) = retransmissions acc"
    "duplicate_acks (inspect_packet sl bytes c acc) = duplicate_acks acc"
    "tcp_sampled (inspect_packet sl bytes c acc) = tcp_sampled acc"
    "tcp_checksum_checked (inspect_packet sl bytes c acc) = tcp_checksum_checked acc"
    "tcp_checksum_zero (inspect_packet sl bytes c acc) = tcp_checksum_zero acc"
  using assms
  by (auto simp: inspect_packet_def segment_of_def Let_def split: option.splits prod.splits TransportSlice.splits)

lemma direction_flow_step:
  "direction_of b (fst (flow_step a tcp st)) =
     (if a = b then fst (seg_step \<lparr>seg_dir = k, seg_seq = unat (sequence_number tcp), seg_len = length (tcp_payload tcp),
        seg_is_ack = ack_flag tcp, seg_ack = acknowledgment_number tcp\<rparr> (direction_of a st)) else direction_of b st)"
  "fst (snd (flow_step a tcp st)) =
     fst (snd (seg_step \<lparr>seg_dir = k, seg_seq = unat (sequence_number tcp), seg_len = length (tcp_payload tcp),
        seg_is_ack = ack_flag tcp, seg_ack = acknowledgment_number tcp\<rparr> (direction_of a st)))"
  "snd (snd (snd (flow_step a tcp st))) =
     snd (snd (seg_step \<lparr>seg_dir = k, seg_seq = unat (sequence_number tcp), seg_len = length (tcp_payload tcp),
        seg_is_ack = ack_flag tcp, seg_ack = acknowledgment_number tcp\<rparr> (direction_of a st)))"
  by (simp_all add: flow_step_def seg_step_def direction_of_def Let_def case_prod_beta)

lemma inspect_packet_Some:
  assumes e: "segment_of sl bytes = Some e"
    and room: "length (flows acc) < MAX_TRACKED_FLOWS \<or> map_of (flows acc) (fst (seg_dir e)) \<noteq> None"
  shows "view (inspect_packet sl bytes c acc) k =
           (if k = seg_dir e then fst (seg_step e (view acc k)) else view acc k)"
    "retransmissions (inspect_packet sl bytes c acc) = retransmissions acc + fst (snd (seg_step e (view acc (seg_dir e))))"
    "duplicate_acks (inspect_packet sl bytes c acc) = duplicate_acks acc + snd (snd (seg_step e (view acc (seg_dir e))))"
    "\<exists>st. flows (inspect_packet sl bytes c acc) = AList.update (fst (seg_dir e)) st (flows acc)
       \<and> (seen_from_a st \<longleftrightarrow> snd (seg_dir e) \<or> seen_from_a (unwrap_or (map_of (flows acc) (fst (seg_dir e))) flow_default))
       \<and> (seen_from_b st \<longleftrightarrow> \<not> snd (seg_dir e) \<or> seen_from_b (unwrap_or (map_of (flows acc) (fst (seg_dir e))) flow_default))"
proof -
  obtain p n tcp s d v where p: "sl bytes = Some p" "net p = Some n" "transport p = Some (Tcp tcp)" "net_addresses n = (s, d, v)"
    and eq: "e = \<lparr>seg_dir = (flow_key_id (normalized s (tcp_source_port tcp) d (tcp_destination_port tcp)),
                          (s, tcp_source_port tcp) \<le> (d, tcp_destination_port tcp)),
               seg_seq = unat (sequence_number tcp), seg_len = length (tcp_payload tcp),
               seg_is_ack = ack_flag tcp, seg_ack = acknowledgment_number tcp\<rparr>"
    using e by (auto simp: segment_of_def split: option.splits prod.splits TransportSlice.splits)
  let ?key = "flow_key_id (normalized s (tcp_source_port tcp) d (tcp_destination_port tcp))"
  let ?a = "(s, tcp_source_port tcp) \<le> (d, tcp_destination_port tcp)"
  let ?st = "unwrap_or (map_of (flows acc) ?key) flow_default"
  have fl: "flows (inspect_packet sl bytes c acc) = AList.update ?key (fst (flow_step ?a tcp ?st)) (flows acc)"
    and rt: "retransmissions (inspect_packet sl bytes c acc) = retransmissions acc + fst (snd (flow_step ?a tcp ?st))"
    and da: "duplicate_acks (inspect_packet sl bytes c acc) = duplicate_acks acc + snd (snd (snd (flow_step ?a tcp ?st)))"
    using room by (simp_all add: inspect_packet_def p eq Let_def case_prod_beta)
  show "view (inspect_packet sl bytes c acc) k =
           (if k = seg_dir e then fst (seg_step e (view acc k)) else view acc k)"
    by (cases k) (auto simp: view_def fl eq update_conv' unwrap_or_def direction_flow_step(1)[where k = "(?key, ?a)"])
  show "retransmissions (inspect_packet sl bytes c acc) = retransmissions acc + fst (snd (seg_step e (view acc (seg_dir e))))"
    "duplicate_acks (inspect_packet sl bytes c acc) = duplicate_acks acc + snd (snd (seg_step e (view acc (seg_dir e))))"
    by (simp_all add: rt da view_def eq direction_flow_step(2,3)[where k = "(?key, ?a)"])
  show "\<exists>st. flows (inspect_packet sl bytes c acc) = AList.update (fst (seg_dir e)) st (flows acc)
       \<and> (seen_from_a st \<longleftrightarrow> snd (seg_dir e) \<or> seen_from_a (unwrap_or (map_of (flows acc) (fst (seg_dir e))) flow_default))
       \<and> (seen_from_b st \<longleftrightarrow> \<not> snd (seg_dir e) \<or> seen_from_b (unwrap_or (map_of (flows acc) (fst (seg_dir e))) flow_default))"
    by (rule exI[of _ "fst (flow_step ?a tcp ?st)"]) (simp add: fl eq)
qed


section \<open>Growth of the table\<close>

lemma length_update_le: "length al \<le> length (AList.update k v al)"
  by (induction al) auto

lemma length_update_new: "map_of al k \<noteq> None \<Longrightarrow> length (AList.update k v al) = length al"
  by (induction al) (auto split: if_splits)

lemma length_update_Suc: "length (AList.update k v al) \<le> Suc (length al)"
  by (induction al) auto

lemma inspect_packet_grows:
  "length (flows acc) \<le> length (flows (inspect_packet sl bs c acc))"
  "tcp_sampled acc \<le> tcp_sampled (inspect_packet sl bs c acc)"
  by (simp_all add: inspect_packet_def Let_def case_prod_beta length_update_le split: option.split TransportSlice.split)

lemma observe_grows:
  "length (flows acc) \<le> length (flows (observe sl len bytes ts acc))"
  "tcp_sampled acc \<le> tcp_sampled (observe sl len bytes ts acc)"
  using inspect_packet_grows[of "tallied sl len bytes ts acc"] by (simp_all add: observe_def Let_def)

lemma observe_untracked [simp]: "view (tallied sl len bytes ts acc) k = view acc k"
  by (simp add: view_def)

section \<open>The anomaly counters as a specification on the list of segments\<close>

text \<open>
  A data segment is \<open>covered\<close> if an earlier data segment of its directed flow reached at least as far; a pure acknowledgment is
  a \<open>third_repeat\<close> if the two pure acknowledgments before it in its directed flow carry its number.
\<close>

definition seg_end :: "Segment \<Rightarrow> nat" where
  "seg_end e = seg_seq e + seg_len e"

definition data_in :: "flow_id \<times> bool \<Rightarrow> Segment \<Rightarrow> bool" where
  "data_in k e \<longleftrightarrow> seg_dir e = k \<and> 0 < seg_len e"

definition pure_ack_in :: "flow_id \<times> bool \<Rightarrow> Segment \<Rightarrow> bool" where
  "pure_ack_in k e \<longleftrightarrow> seg_dir e = k \<and> seg_is_ack e \<and> seg_len e = 0"

definition covered :: "Segment list \<Rightarrow> Segment \<Rightarrow> bool" where
  "covered before e \<longleftrightarrow> 0 < seg_len e \<and> list_ex (\<lambda>x. data_in (seg_dir e) x \<and> seg_end e \<le> seg_end x) before"

definition third_repeat :: "Segment list \<Rightarrow> Segment \<Rightarrow> bool" where
  "third_repeat before e \<longleftrightarrow> pure_ack_in (seg_dir e) e \<and>
     (case rev (filter (pure_ack_in (seg_dir e)) before) of
        x # y # _ \<Rightarrow> seg_ack x = seg_ack e \<and> seg_ack y = seg_ack e
      | _ \<Rightarrow> False)"

definition count_by :: "('a list \<Rightarrow> 'a \<Rightarrow> bool) \<Rightarrow> 'a list \<Rightarrow> nat" where
  "count_by P es = length (filter (\<lambda>i. P (take i es) (es ! i)) [0..<length es])"

lemma count_by_Nil [simp]: "count_by P [] = 0"
  by (simp add: count_by_def)

lemma count_by_snoc [simp]: "count_by P (es @ [e]) = count_by P es + (if P es e then 1 else 0)"
proof -
  have "filter (\<lambda>i. P (take i (es @ [e])) ((es @ [e]) ! i)) [0..<length es] = filter (\<lambda>i. P (take i es) (es ! i)) [0..<length es]"
    by (rule filter_cong) (auto simp: nth_append)
  then show ?thesis by (simp add: count_by_def)
qed

definition direction_inv :: "Segment list \<Rightarrow> flow_id \<times> bool \<Rightarrow> direction \<Rightarrow> bool" where
  "direction_inv es k v \<longleftrightarrow>
     (case v of (m, l, run) \<Rightarrow>
       (case m of None \<Rightarrow> \<not> list_ex (data_in k) es
        | Some p \<Rightarrow> \<forall>x. x \<le> p \<longleftrightarrow> list_ex (\<lambda>e. data_in k e \<and> x \<le> seg_end e) es) \<and>
       l = (case rev (filter (pure_ack_in k) es) of [] \<Rightarrow> None | x # _ \<Rightarrow> Some (seg_ack x)) \<and>
       (1 \<le> run \<longleftrightarrow> (case rev (filter (pure_ack_in k) es) of x # y # _ \<Rightarrow> seg_ack x = seg_ack y | _ \<Rightarrow> False)))"

lemma data_step_inv:
  assumes "case m of None \<Rightarrow> \<not> list_ex (data_in (seg_dir e)) es
        | Some p \<Rightarrow> \<forall>x. x \<le> p \<longleftrightarrow> list_ex (\<lambda>s. data_in (seg_dir e) s \<and> x \<le> seg_end s) es"
  shows "fst (snd (data_step (seg_len e) (seg_seq e) m)) = (if covered es e then 1 else 0)"
    and "case fst (data_step (seg_len e) (seg_seq e) m) of None \<Rightarrow> \<not> list_ex (data_in (seg_dir e)) (es @ [e])
        | Some p \<Rightarrow> \<forall>x. x \<le> p \<longleftrightarrow> list_ex (\<lambda>s. data_in (seg_dir e) s \<and> x \<le> seg_end s) (es @ [e])"
  using assms
  by (auto simp: data_step_eq covered_def seg_end_def data_in_def list_ex_iff le_max_iff_disj unwrap_or_def split: option.splits)

lemma ack_step_inv:
  assumes "l = (case rev (filter (pure_ack_in (seg_dir e)) es) of [] \<Rightarrow> None | x # _ \<Rightarrow> Some (seg_ack x))"
    and "1 \<le> run \<longleftrightarrow> (case rev (filter (pure_ack_in (seg_dir e)) es) of x # y # _ \<Rightarrow> seg_ack x = seg_ack y | _ \<Rightarrow> False)"
  shows "snd (snd (ack_step (seg_is_ack e) (seg_len e) (seg_ack e) l run)) = (if third_repeat es e then 1 else 0)"
    and "fst (ack_step (seg_is_ack e) (seg_len e) (seg_ack e) l run)
           = (case rev (filter (pure_ack_in (seg_dir e)) (es @ [e])) of [] \<Rightarrow> None | x # _ \<Rightarrow> Some (seg_ack x))"
    and "1 \<le> fst (snd (ack_step (seg_is_ack e) (seg_len e) (seg_ack e) l run))
           \<longleftrightarrow> (case rev (filter (pure_ack_in (seg_dir e)) (es @ [e])) of x # y # _ \<Rightarrow> seg_ack x = seg_ack y | _ \<Rightarrow> False)"
  using assms by (auto simp: ack_step_def third_repeat_def pure_ack_in_def split: list.splits)

lemma direction_inv_step:
  assumes "direction_inv es (seg_dir e) v"
  shows "direction_inv (es @ [e]) (seg_dir e) (fst (seg_step e v))"
    and "fst (snd (seg_step e v)) = (if covered es e then 1 else 0)"
    and "snd (snd (seg_step e v)) = (if third_repeat es e then 1 else 0)"
proof -
  obtain m l run where v: "v = (m, l, run)" by (cases v) auto
  note d = assms[unfolded direction_inv_def v, simplified]
  note a = data_step_inv[where m = m and e = e and es = es] and b = ack_step_inv[where l = l and e = e and es = es and run = run]
  show "direction_inv (es @ [e]) (seg_dir e) (fst (seg_step e v))"
    using a(2) b(2,3) d by (simp add: direction_inv_def v seg_step_def case_prod_beta)
  show "fst (snd (seg_step e v)) = (if covered es e then 1 else 0)"
    using a(1) d by (simp add: v seg_step_def case_prod_beta)
  show "snd (snd (seg_step e v)) = (if third_repeat es e then 1 else 0)"
    using b(1) d by (simp add: v seg_step_def case_prod_beta)
qed

lemma direction_inv_other:
  "direction_inv es k v \<Longrightarrow> k \<noteq> seg_dir e \<Longrightarrow> direction_inv (es @ [e]) k v"
  by (auto simp: direction_inv_def data_in_def pure_ack_in_def split: option.splits)

definition segments :: "slicer \<Rightarrow> frame list \<Rightarrow> Segment list" where
  "segments sl fs = filter_map (\<lambda>(_, bytes, _). segment_of sl bytes) fs"

lemma anomaly_counters_inv:
  assumes "length (flows (observe_all sl fs (accumulator_new sn lt))) < MAX_TRACKED_FLOWS"
    and "tcp_sampled (observe_all sl fs (accumulator_new sn lt)) < MAX_TCP_SAMPLE_PACKETS"
  shows "retransmissions (observe_all sl fs (accumulator_new sn lt)) = count_by covered (segments sl fs)
    \<and> duplicate_acks (observe_all sl fs (accumulator_new sn lt)) = count_by third_repeat (segments sl fs)
    \<and> (\<forall>k. direction_inv (segments sl fs) k (view (observe_all sl fs (accumulator_new sn lt)) k))"
  using assms
proof (induction fs rule: rev_induct)
  case Nil
  show ?case
    by (simp add: segments_def accumulator_new_def view_def direction_of_def direction_inv_def unwrap_or_def flow_default_def)
next
  case (snoc f fs)
  obtain len bytes ts where f: "f = (len, bytes, ts)" by (cases f) auto
  define acc where "acc = observe_all sl fs (accumulator_new sn lt)"
  define acc1 where "acc1 = tallied sl len bytes ts acc"
  have le: "length (flows acc) < MAX_TRACKED_FLOWS" "tcp_sampled acc < MAX_TCP_SAMPLE_PACKETS"
    using snoc.prems observe_grows[of acc sl len bytes ts] by (simp_all add: f acc_def)
  note IH = snoc.IH[folded acc_def, OF le]
  have ob: "observe sl len bytes ts acc = inspect_packet sl bytes (of_nat (length bytes) = len) acc1"
    using le by (simp add: observe_def Let_def acc1_def)
  have un: "flows acc1 = flows acc" "retransmissions acc1 = retransmissions acc" "duplicate_acks acc1 = duplicate_acks acc"
    "view acc1 k = view acc k" for k
    by (simp_all add: acc1_def)
  show ?case
  proof (cases "segment_of sl bytes")
    case None
    show ?thesis
      using IH by (simp add: f ob acc_def[symmetric] segments_def None un inspect_packet_None[OF None] view_def)
  next
    case (Some e)
    have room: "length (flows acc1) < MAX_TRACKED_FLOWS \<or> map_of (flows acc1) (fst (seg_dir e)) \<noteq> None"
      using le by (simp add: un)
    note i = inspect_packet_Some[OF Some room, of "of_nat (length bytes) = len"]
    have d: "direction_inv (segments sl fs) k (view acc k)" for k using IH by blast
    note s = direction_inv_step[OF d]
    show ?thesis
      using IH direction_inv_other[OF d]
      by (auto simp: f ob acc_def[symmetric] segments_def[of sl "_ @ _"] Some i un s segments_def[of sl fs, symmetric])
  qed
qed


section \<open>The flow table\<close>

definition flow_inv :: "Segment list \<Rightarrow> (flow_id \<times> FlowState) list \<Rightarrow> bool" where
  "flow_inv es fl \<longleftrightarrow> distinct (map fst fl) \<and>
     (\<forall>id. case map_of fl id of
        None \<Rightarrow> id \<notin> fst ` seg_dir ` set es
      | Some st \<Rightarrow> id \<in> fst ` seg_dir ` set es \<and> (seen_from_a st \<longleftrightarrow> (id, True) \<in> seg_dir ` set es)
                   \<and> (seen_from_b st \<longleftrightarrow> (id, False) \<in> seg_dir ` set es))"

lemma flow_inv_update:
  assumes "flow_inv es fl"
    and "seen_from_a st \<longleftrightarrow> snd (seg_dir e) \<or> seen_from_a (unwrap_or (map_of fl (fst (seg_dir e))) flow_default)"
    and "seen_from_b st \<longleftrightarrow> \<not> snd (seg_dir e) \<or> seen_from_b (unwrap_or (map_of fl (fst (seg_dir e))) flow_default)"
  shows "flow_inv (es @ [e]) (AList.update (fst (seg_dir e)) st fl)"
proof -
  obtain id a where k: "seg_dir e = (id, a)" by (cases "seg_dir e") auto
  have img: "(x, b) \<in> seg_dir ` set es \<Longrightarrow> x \<in> fst ` seg_dir ` set es" for x b
    using image_eqI[of x fst "(x, b)"] by simp
  have "case map_of (AList.update id st fl) x of
        None \<Rightarrow> x \<notin> fst ` seg_dir ` set (es @ [e])
      | Some st \<Rightarrow> x \<in> fst ` seg_dir ` set (es @ [e]) \<and> (seen_from_a st \<longleftrightarrow> (x, True) \<in> seg_dir ` set (es @ [e]))
                   \<and> (seen_from_b st \<longleftrightarrow> (x, False) \<in> seg_dir ` set (es @ [e]))" for x
  proof -
    have old: "case map_of fl x of
        None \<Rightarrow> x \<notin> fst ` seg_dir ` set es
      | Some st \<Rightarrow> x \<in> fst ` seg_dir ` set es \<and> (seen_from_a st \<longleftrightarrow> (x, True) \<in> seg_dir ` set es)
                   \<and> (seen_from_b st \<longleftrightarrow> (x, False) \<in> seg_dir ` set es)"
      using assms(1) unfolding flow_inv_def by blast
    show ?thesis
    proof (cases "x = id")
      case True
      show ?thesis
        using old assms(2,3) img[of id True] img[of id False]
        by (cases "map_of fl id") (auto simp: True k update_conv' unwrap_or_def flow_default_def)
    next
      case False
      show ?thesis using old False by (cases "map_of fl x") (auto simp: k update_conv')
    qed
  qed
  moreover have "distinct (map fst (AList.update id st fl))"
    using assms(1) by (simp add: flow_inv_def distinct_update)
  ultimately show ?thesis unfolding flow_inv_def k fst_conv by blast
qed

lemma flow_table_inv:
  assumes "length (flows (observe_all sl fs (accumulator_new sn lt))) < MAX_TRACKED_FLOWS"
    and "tcp_sampled (observe_all sl fs (accumulator_new sn lt)) < MAX_TCP_SAMPLE_PACKETS"
  shows "flow_inv (segments sl fs) (flows (observe_all sl fs (accumulator_new sn lt)))"
  using assms
proof (induction fs rule: rev_induct)
  case Nil
  show ?case by (simp add: segments_def accumulator_new_def flow_inv_def)
next
  case (snoc f fs)
  obtain len bytes ts where f: "f = (len, bytes, ts)" by (cases f) auto
  define acc where "acc = observe_all sl fs (accumulator_new sn lt)"
  define acc1 where "acc1 = tallied sl len bytes ts acc"
  have le: "length (flows acc) < MAX_TRACKED_FLOWS" "tcp_sampled acc < MAX_TCP_SAMPLE_PACKETS"
    using snoc.prems observe_grows[of acc sl len bytes ts] by (simp_all add: f acc_def)
  note IH = snoc.IH[folded acc_def, OF le]
  have ob: "observe sl len bytes ts acc = inspect_packet sl bytes (of_nat (length bytes) = len) acc1"
    using le by (simp add: observe_def Let_def acc1_def)
  have un: "flows acc1 = flows acc" by (simp add: acc1_def)
  show ?case
  proof (cases "segment_of sl bytes")
    case None
    show ?thesis using IH by (simp add: f ob acc_def[symmetric] segments_def None un inspect_packet_None[OF None])
  next
    case (Some e)
    have room: "length (flows acc1) < MAX_TRACKED_FLOWS \<or> map_of (flows acc1) (fst (seg_dir e)) \<noteq> None"
      using le by (simp add: un)
    obtain st where st: "flows (inspect_packet sl bytes (of_nat (length bytes) = len) acc1) = AList.update (fst (seg_dir e)) st (flows acc)"
      "seen_from_a st \<longleftrightarrow> snd (seg_dir e) \<or> seen_from_a (unwrap_or (map_of (flows acc) (fst (seg_dir e))) flow_default)"
      "seen_from_b st \<longleftrightarrow> \<not> snd (seg_dir e) \<or> seen_from_b (unwrap_or (map_of (flows acc) (fst (seg_dir e))) flow_default)"
      using inspect_packet_Some(4)[OF Some room, of "of_nat (length bytes) = len"] unfolding un by blast
    have "segments sl (fs @ [f]) = segments sl fs @ [e]" by (simp add: segments_def f Some)
    then show ?thesis using flow_inv_update[OF IH st(2,3)] by (simp add: f ob acc_def[symmetric] st(1))
  qed
qed

lemma filtered_key_iff:
  "distinct (map fst al) \<Longrightarrow> k \<in> fst ` set (filter (\<lambda>(_, v). P v) al) \<longleftrightarrow> (\<exists>v. map_of al k = Some v \<and> P v)"
  by (auto simp: map_of_eq_Some_iff image_iff)

lemma flow_inv_counts:
  assumes "flow_inv es fl"
  shows "length fl = card (fst ` seg_dir ` set es)"
    and "length (filter (\<lambda>(_, st). seen_from_a st \<and> seen_from_b st) fl)
           = card {id. (id, True) \<in> seg_dir ` set es \<and> (id, False) \<in> seg_dir ` set es}"
proof -
  have d: "distinct (map fst fl)" using assms by (simp add: flow_inv_def)
  have c: "case map_of fl id of
        None \<Rightarrow> id \<notin> fst ` seg_dir ` set es
      | Some st \<Rightarrow> id \<in> fst ` seg_dir ` set es \<and> (seen_from_a st \<longleftrightarrow> (id, True) \<in> seg_dir ` set es)
                   \<and> (seen_from_b st \<longleftrightarrow> (id, False) \<in> seg_dir ` set es)" for id
    using assms unfolding flow_inv_def by blast
  have keys: "set (map fst fl) = fst ` seg_dir ` set es"
  proof (rule set_eqI)
    fix id
    have "id \<in> set (map fst fl) \<longleftrightarrow> map_of fl id \<noteq> None" by (simp add: map_of_eq_None_iff)
    then show "id \<in> set (map fst fl) \<longleftrightarrow> id \<in> fst ` seg_dir ` set es" using c[of id] by (cases "map_of fl id") simp_all
  qed
  show "length fl = card (fst ` seg_dir ` set es)"
    using distinct_card[OF d] keys by simp
  have both: "set (map fst (filter (\<lambda>(_, st). seen_from_a st \<and> seen_from_b st) fl))
      = {id. (id, True) \<in> seg_dir ` set es \<and> (id, False) \<in> seg_dir ` set es}"
  proof (rule set_eqI)
    fix id
    have "id \<in> set (map fst (filter (\<lambda>(_, st). seen_from_a st \<and> seen_from_b st) fl))
        \<longleftrightarrow> (\<exists>st. map_of fl id = Some st \<and> seen_from_a st \<and> seen_from_b st)"
      using d by (simp only: set_map filtered_key_iff)
    also have "\<dots> \<longleftrightarrow> (id, True) \<in> seg_dir ` set es \<and> (id, False) \<in> seg_dir ` set es"
      using c[of id] image_eqI[of id fst "(id, True)"] by (cases "map_of fl id") auto
    finally show "id \<in> set (map fst (filter (\<lambda>(_, st). seen_from_a st \<and> seen_from_b st) fl))
        \<longleftrightarrow> id \<in> {id. (id, True) \<in> seg_dir ` set es \<and> (id, False) \<in> seg_dir ` set es}" by simp
  qed
  have "distinct (map fst (filter (\<lambda>(_, st). seen_from_a st \<and> seen_from_b st) fl))"
    using d by (rule distinct_map_filter)
  from distinct_card[OF this] both
  show "length (filter (\<lambda>(_, st). seen_from_a st \<and> seen_from_b st) fl)
           = card {id. (id, True) \<in> seg_dir ` set es \<and> (id, False) \<in> seg_dir ` set es}" by simp
qed

section \<open>Well-formed accumulators\<close>

text \<open>The file's 32 bit counters \<open>a_dup_ack_run\<close> and \<open>b_dup_ack_run\<close> are bounded by the sample, so they do not wrap.\<close>

definition wf_accumulator :: "Accumulator \<Rightarrow> bool" where
  "wf_accumulator acc \<longleftrightarrow>
     tcp_packets acc + udp_packets acc + icmp_packets acc + other_packets acc = packet_count acc
     \<and> quic_candidate_packets acc \<le> udp_packets acc
     \<and> tcp_checksum_zero acc \<le> tcp_checksum_checked acc
     \<and> tcp_checksum_checked acc = tcp_sampled acc
     \<and> tcp_sampled acc \<le> tcp_packets acc
     \<and> tcp_sampled acc \<le> MAX_TCP_SAMPLE_PACKETS
     \<and> retransmissions acc + duplicate_acks acc \<le> tcp_sampled acc
     \<and> out_of_order acc = 0
     \<and> distinct (map fst (flows acc))
     \<and> length (flows acc) \<le> MAX_TRACKED_FLOWS
     \<and> length (flows acc) \<le> tcp_sampled acc
     \<and> oversize_count acc \<le> packet_count acc
     \<and> list_all (\<lambda>(_, st). a_dup_ack_run st \<le> tcp_sampled acc \<and> b_dup_ack_run st \<le> tcp_sampled acc) (flows acc)"

lemma wf_accumulator_new: "wf_accumulator (accumulator_new sn lt)"
  by (simp add: wf_accumulator_def accumulator_new_def)

text \<open>The tally counts a packet in exactly one of four classes, TCP exactly when the slicer finds a TCP segment.\<close>

lemma tallied_classes:
  "tcp_packets (tallied sl len bytes ts acc) = tcp_packets acc + (if segment_of sl bytes = None then 0 else 1)"
  "tcp_packets (tallied sl len bytes ts acc) + udp_packets (tallied sl len bytes ts acc) + icmp_packets (tallied sl len bytes ts acc)
     + other_packets (tallied sl len bytes ts acc)
   = Suc (tcp_packets acc + udp_packets acc + icmp_packets acc + other_packets acc)"
  "quic_candidate_packets acc \<le> udp_packets acc \<Longrightarrow>
     quic_candidate_packets (tallied sl len bytes ts acc) \<le> udp_packets (tallied sl len bytes ts acc)"
  "oversize_count (tallied sl len bytes ts acc) \<le> Suc (oversize_count acc)"
  by (simp_all add: tallied_def)
    (simp_all add: classify_protocol_def segment_of_def Let_def case_prod_beta split: option.split TransportSlice.split)

lemma flow_step_counts:
  "fst (snd (flow_step a tcp st)) + snd (snd (snd (flow_step a tcp st))) \<le> 1"
  "a_dup_ack_run (fst (flow_step a tcp st)) \<le> Suc (a_dup_ack_run st)"
  "b_dup_ack_run (fst (flow_step a tcp st)) \<le> Suc (b_dup_ack_run st)"
  by (auto simp: flow_step_def Let_def case_prod_beta data_step_eq ack_step_def split: option.split)

lemma inspect_packet_checksums:
  assumes "segment_of sl bytes = Some e"
  shows "tcp_sampled (inspect_packet sl bytes c acc) = Suc (tcp_sampled acc)"
    "tcp_checksum_checked (inspect_packet sl bytes c acc) = Suc (tcp_checksum_checked acc)"
    "tcp_checksum_zero (inspect_packet sl bytes c acc) \<le> Suc (tcp_checksum_zero acc)"
    "retransmissions (inspect_packet sl bytes c acc) + duplicate_acks (inspect_packet sl bytes c acc)
       \<le> Suc (retransmissions acc + duplicate_acks acc)"
    "flows (inspect_packet sl bytes c acc) = flows acc \<or>
     (\<exists>k a tcp. (length (flows acc) < MAX_TRACKED_FLOWS \<or> map_of (flows acc) k \<noteq> None) \<and>
        flows (inspect_packet sl bytes c acc)
          = AList.update k (fst (flow_step a tcp (unwrap_or (map_of (flows acc) k) flow_default))) (flows acc))"
proof -
  obtain p n tcp where p: "sl bytes = Some p" "net p = Some n" "transport p = Some (Tcp tcp)"
    using assms by (auto simp: segment_of_def split: option.splits prod.splits TransportSlice.splits)
  show "tcp_sampled (inspect_packet sl bytes c acc) = Suc (tcp_sampled acc)"
    "tcp_checksum_checked (inspect_packet sl bytes c acc) = Suc (tcp_checksum_checked acc)"
    "tcp_checksum_zero (inspect_packet sl bytes c acc) \<le> Suc (tcp_checksum_zero acc)"
    by (simp_all add: inspect_packet_def p Let_def case_prod_beta)
  obtain s d v where nd: "net_addresses n = (s, d, v)" by (cases "net_addresses n") auto
  let ?k = "flow_key_id (normalized s (tcp_source_port tcp) d (tcp_destination_port tcp))"
  let ?st = "unwrap_or (map_of (flows acc) ?k) flow_default"
  have fl: "flows (inspect_packet sl bytes c acc) =
      (if length (flows acc) < MAX_TRACKED_FLOWS \<or> map_of (flows acc) ?k \<noteq> None
       then AList.update ?k (fst (flow_step ((s, tcp_source_port tcp) \<le> (d, tcp_destination_port tcp)) tcp ?st)) (flows acc)
       else flows acc)"
    by (simp add: inspect_packet_def p nd Let_def case_prod_beta)
  show "flows (inspect_packet sl bytes c acc) = flows acc \<or>
     (\<exists>k a tcp. (length (flows acc) < MAX_TRACKED_FLOWS \<or> map_of (flows acc) k \<noteq> None) \<and>
        flows (inspect_packet sl bytes c acc)
          = AList.update k (fst (flow_step a tcp (unwrap_or (map_of (flows acc) k) flow_default))) (flows acc))"
    using fl by metis
  show "retransmissions (inspect_packet sl bytes c acc) + duplicate_acks (inspect_packet sl bytes c acc)
       \<le> Suc (retransmissions acc + duplicate_acks acc)"
    using flow_step_counts(1)[of "(s, tcp_source_port tcp) \<le> (d, tcp_destination_port tcp)" tcp ?st]
    by (simp add: inspect_packet_def p nd Let_def case_prod_beta)
qed

lemma list_all_update:
  "list_all P al \<Longrightarrow> P (k, v) \<Longrightarrow> list_all P (AList.update k v al)"
  by (induction al) auto

lemma runs_update:
  assumes "list_all (\<lambda>(_, st). a_dup_ack_run st \<le> n \<and> b_dup_ack_run st \<le> n) al"
  shows "list_all (\<lambda>(_, st). a_dup_ack_run st \<le> Suc n \<and> b_dup_ack_run st \<le> Suc n)
     (AList.update k (fst (flow_step a tcp (unwrap_or (map_of al k) flow_default))) al)"
proof (rule list_all_update)
  show "list_all (\<lambda>(_, st). a_dup_ack_run st \<le> Suc n \<and> b_dup_ack_run st \<le> Suc n) al"
    using assms by (auto simp: list_all_iff intro: le_SucI)
  have "a_dup_ack_run (unwrap_or (map_of al k) flow_default) \<le> n \<and> b_dup_ack_run (unwrap_or (map_of al k) flow_default) \<le> n"
    using assms by (cases "map_of al k") (auto simp: list_all_iff unwrap_or_def flow_default_def dest: map_of_SomeD)
  then show "case (k, fst (flow_step a tcp (unwrap_or (map_of al k) flow_default))) of
      (_, st) \<Rightarrow> a_dup_ack_run st \<le> Suc n \<and> b_dup_ack_run st \<le> Suc n"
    using flow_step_counts(2,3)[of a tcp "unwrap_or (map_of al k) flow_default"] by simp
qed

lemma wf_tallied_inspected:
  assumes wf: "wf_accumulator acc"
  shows "wf_accumulator (observe sl len bytes ts acc)"
proof -
  let ?t = "tallied sl len bytes ts acc"
  let ?i = "inspect_packet sl bytes (of_nat (length bytes) = len) ?t"
  note w = wf[unfolded wf_accumulator_def]
  note t = tallied_classes[where sl = sl and len = len and bytes = bytes and ts = ts and acc = acc]
  show ?thesis
  proof (cases "MAX_TCP_SAMPLE_PACKETS \<le> tcp_sampled acc \<or> segment_of sl bytes = None")
    case True
    have "wf_accumulator ?t" using w t unfolding wf_accumulator_def by simp
    moreover have "wf_accumulator ?i" if n: "segment_of sl bytes = None"
      using w t unfolding wf_accumulator_def by (simp add: inspect_packet_None[OF n])
    ultimately show ?thesis using True by (auto simp: observe_def Let_def)
  next
    case False
    then obtain e where e: "segment_of sl bytes = Some e" by auto
    note i = inspect_packet_checksums[OF e, where c = "of_nat (length bytes) = len" and acc = ?t, simplified]
    have table: "distinct (map fst (flows ?i)) \<and> length (flows ?i) \<le> MAX_TRACKED_FLOWS \<and> length (flows ?i) \<le> Suc (tcp_sampled acc)
        \<and> list_all (\<lambda>(_, st). a_dup_ack_run st \<le> Suc (tcp_sampled acc) \<and> b_dup_ack_run st \<le> Suc (tcp_sampled acc)) (flows ?i)"
      using inspect_packet_checksums(5)[OF e, where c = "of_nat (length bytes) = len" and acc = ?t, unfolded tallied_frame]
    proof (elim disjE exE conjE)
      assume "flows ?i = flows acc"
      then show ?thesis using w by (auto simp: list_all_iff intro: le_SucI)
    next
      fix k a tcp
      assume u: "flows ?i = AList.update k (fst (flow_step a tcp (unwrap_or (map_of (flows acc) k) flow_default))) (flows acc)"
        and room: "length (flows acc) < MAX_TRACKED_FLOWS"
      show ?thesis using w runs_update[of "tcp_sampled acc" "flows acc"] room
          length_update_Suc[of k "fst (flow_step a tcp (unwrap_or (map_of (flows acc) k) flow_default))" "flows acc"]
        unfolding u by (simp add: distinct_update)
    next
      fix k a tcp
      assume u: "flows ?i = AList.update k (fst (flow_step a tcp (unwrap_or (map_of (flows acc) k) flow_default))) (flows acc)"
        and old: "map_of (flows acc) k \<noteq> None"
      show ?thesis using w runs_update[of "tcp_sampled acc" "flows acc"]
        unfolding u by (simp add: distinct_update length_update_new[OF old])
    qed
    have "wf_accumulator ?i"
      using w t e i(1-4) table False unfolding wf_accumulator_def by simp
    then show ?thesis using False by (simp add: observe_def Let_def)
  qed
qed

lemma wf_observe_all: "wf_accumulator acc \<Longrightarrow> wf_accumulator (observe_all sl fs acc)"
  by (induction fs arbitrary: acc) (simp_all add: wf_tallied_inspected)

section \<open>The two readers feed the accumulator\<close>

fun classic_frames :: "(string + PcapPacket) list \<Rightarrow> frame list" where
  "classic_frames (Inr pkt # rest) = (ucast (orig_len pkt), pkt_data pkt, Some (timestamp pkt)) # classic_frames rest"
| "classic_frames _ = []"

fun block_frame :: "string + Block \<Rightarrow> frame option" where
  "block_frame (Inr (EnhancedPacket len bytes ts)) = Some (ucast len, bytes, Some ts)"
| "block_frame (Inr (SimplePacket len bytes)) = Some (ucast len, bytes, None)"
| "block_frame _ = None"

fun block_drops :: "string + Block \<Rightarrow> u64 list" where
  "block_drops (Inr (InterfaceStatistics opts)) = filter_map (\<lambda>x. case x of IsbIfDrop n \<Rightarrow> Some n | _ \<Rightarrow> None) opts"
| "block_drops _ = []"

fun is_isb :: "string + Block \<Rightarrow> bool" where
  "is_isb (Inr (InterfaceStatistics _)) = True"
| "is_isb _ = False"

lemma classic_loop_frames: "classic_loop sl pkts acc = Inr acc' \<Longrightarrow> acc' = observe_all sl (classic_frames pkts) acc"
  by (induction sl pkts acc rule: classic_loop.induct) auto

lemma fold_idb_option [simp]:
  "ng_acc (fold idb_option opts st) = ng_acc st" "isb_drop (fold idb_option opts st) = isb_drop st"
  "saw_isb (fold idb_option opts st) = saw_isb st"
proof (induction opts arbitrary: st)
  case (Cons o' opts)
  { case 1 show ?case using Cons by (cases o') auto }
  { case 2 show ?case using Cons by (cases o') auto }
  { case 3 show ?case using Cons by (cases o') auto }
qed simp_all

lemma fold_isb_option:
  "ng_acc (fold isb_option opts st) = ng_acc st"
  "saw_isb (fold isb_option opts st) = saw_isb st"
  "unwrap_or (isb_drop (fold isb_option opts st)) 0
     = unwrap_or (isb_drop st) 0 + sum_list (filter_map (\<lambda>x. case x of IsbIfDrop n \<Rightarrow> Some n | _ \<Rightarrow> None) opts)"
proof (induction opts arbitrary: st)
  case (Cons o' opts)
  { case 1 show ?case using Cons by (cases o') auto }
  { case 2 show ?case using Cons by (cases o') auto }
  { case 3 show ?case using Cons by (cases o') (auto simp: unwrap_or_def) }
qed simp_all

text \<open>After any blocks the accumulator is one the frames seen so far were fed to, and the drop count is the sum over the statistics blocks.\<close>

definition fed :: "slicer \<Rightarrow> frame list \<Rightarrow> Accumulator option \<Rightarrow> bool" where
  "fed sl fs a \<longleftrightarrow> (case a of None \<Rightarrow> fs = [] | Some acc \<Rightarrow> \<exists>sn lt. acc = observe_all sl fs (accumulator_new sn lt))"

lemma fed_observe:
  "fed sl fs a \<Longrightarrow> fed sl (fs @ [(len, bytes, ts)])
     (Some (observe sl len bytes ts (unwrap_or a (accumulator_new (- 1) ''Unknown''))))"
  by (auto simp: fed_def unwrap_or_def split: option.splits intro: exI[of _ "- 1"] exI[of _ "''Unknown''"])

lemma pcapng_block_fed:
  "fed sl fs (ng_acc st) \<Longrightarrow> fed sl (fs @ (case block_frame (Inr b) of None \<Rightarrow> [] | Some f \<Rightarrow> [f])) (ng_acc (pcapng_block sl b st))"
proof (cases b)
  case (InterfaceDescription len lt opts)
  assume f: "fed sl fs (ng_acc st)"
  have "fed sl [] (Some (accumulator_new sn lt'))" for sn lt' unfolding fed_def by (auto intro!: exI[of _ sn] exI[of _ lt'])
  then show ?thesis using f by (cases "ng_acc st") (auto simp: InterfaceDescription fed_def)
qed (auto simp: fold_isb_option intro: fed_observe)

lemma pcapng_block_drops:
  "saw_isb (pcapng_block sl b st) \<longleftrightarrow> saw_isb st \<or> is_isb (Inr b)"
  "unwrap_or (isb_drop (pcapng_block sl b st)) 0 = unwrap_or (isb_drop st) 0 + sum_list (block_drops (Inr b))"
  by (cases b; simp add: fold_isb_option split: option.split)+

lemma pcapng_loop_inv:
  "pcapng_loop sl bs st = Inr st' \<Longrightarrow> fed sl fs (ng_acc st) \<Longrightarrow>
     fed sl (fs @ filter_map block_frame bs) (ng_acc st')
     \<and> (saw_isb st' \<longleftrightarrow> saw_isb st \<or> list_ex is_isb bs)
     \<and> unwrap_or (isb_drop st') 0 = unwrap_or (isb_drop st) 0 + sum_list (concat (map block_drops bs))"
proof (induction sl bs st arbitrary: fs rule: pcapng_loop.induct)
  case (3 sl b rest st)
  have "pcapng_loop sl rest (pcapng_block sl b st) = Inr st'" using "3.prems"(1) by simp
  from "3.IH"[OF this pcapng_block_fed[OF "3.prems"(2)]]
  show ?case by (auto simp: pcapng_block_drops add.assoc split: option.splits)
qed auto

section \<open>What a report says of the file\<close>

definition pcapng_magic :: "u8 list \<Rightarrow> bool" where
  "pcapng_magic bytes \<longleftrightarrow> take 4 bytes = [0x0A, 0x0D, 0x0D, 0x0A]"

definition capture_frames :: "(u8 list \<Rightarrow> string + PcapHeader \<times> (string + PcapPacket) list) \<Rightarrow> (u8 list \<Rightarrow> string + (string + Block) list)
    \<Rightarrow> u8 list \<Rightarrow> frame list" where
  "capture_frames pcap_reader pcapng_reader bytes =
     (if pcapng_magic bytes then (case pcapng_reader bytes of Inr bs \<Rightarrow> filter_map block_frame bs | Inl _ \<Rightarrow> [])
      else (case pcap_reader bytes of Inr (_, pkts) \<Rightarrow> classic_frames pkts | Inl _ \<Rightarrow> []))"

definition capture_drops :: "(u8 list \<Rightarrow> string + (string + Block) list) \<Rightarrow> u8 list \<Rightarrow> u64 option" where
  "capture_drops pcapng_reader bytes =
     (if pcapng_magic bytes then
        (case pcapng_reader bytes of
           Inr bs \<Rightarrow> if list_ex is_isb bs then Some (sum_list (concat (map block_drops bs))) else None
         | Inl _ \<Rightarrow> None)
      else None)"

lemma analyze_pcap_report:
  assumes "analyze_pcap sl rd ng p file = Inr r"
  shows "\<exists>bytes fmt ifn sn lt. file = Inr bytes \<and>
    r = finish p fmt ifn (capture_drops ng bytes) (observe_all sl (capture_frames rd ng bytes) (accumulator_new sn lt))"
proof -
  obtain bytes where fl: "file = Inr bytes" using assms by (auto simp: analyze_pcap_def split: sum.splits)
  show ?thesis
  proof (cases "pcapng_magic bytes")
    case True
    then have a: "analyze_pcapng sl ng p bytes = Inr r"
      using assms by (auto simp: analyze_pcap_def fl pcapng_magic_def Let_def split: if_splits)
    then obtain bs st where b: "ng bytes = Inr bs" "pcapng_loop sl bs pcapng_init = Inr st"
      and r: "r = finish p ''pcapng'' (if_name st) (if saw_isb st then Some (unwrap_or (isb_drop st) 0) else None)
                    (unwrap_or (ng_acc st) (accumulator_new (- 1) ''Unknown''))"
      by (auto simp: analyze_pcapng_def Let_def split: sum.splits)
    have i: "fed sl (filter_map block_frame bs) (ng_acc st)" "saw_isb st \<longleftrightarrow> list_ex is_isb bs"
        "unwrap_or (isb_drop st) 0 = sum_list (concat (map block_drops bs))"
      using pcapng_loop_inv[OF b(2), of "[]"] by (simp_all add: fed_def pcapng_init_def unwrap_or_def)
    have "\<exists>sn lt. unwrap_or (ng_acc st) (accumulator_new (- 1) ''Unknown'') = observe_all sl (filter_map block_frame bs) (accumulator_new sn lt)"
      using i(1) by (auto simp: fed_def unwrap_or_def split: option.splits)
    then obtain sn lt where "unwrap_or (ng_acc st) (accumulator_new (- 1) ''Unknown'') = observe_all sl (filter_map block_frame bs) (accumulator_new sn lt)"
      by blast
    then have "r = finish p ''pcapng'' (if_name st) (capture_drops ng bytes) (observe_all sl (capture_frames rd ng bytes) (accumulator_new sn lt))"
      by (simp add: r i capture_drops_def capture_frames_def True b)
    then show ?thesis using fl by blast
  next
    case False
    then have a: "analyze_pcap_classic sl rd p bytes = Inr r"
      using assms by (auto simp: analyze_pcap_def fl pcapng_magic_def Let_def split: if_splits)
    then obtain h pkts acc where b: "rd bytes = Inr (h, pkts)"
      "classic_loop sl pkts (accumulator_new (hdr_snaplen h) (datalink h)) = Inr acc" "r = finish p ''pcap'' None None acc"
      by (auto simp: analyze_pcap_classic_def split: sum.splits)
    from classic_loop_frames[OF b(2)] b
    have "r = finish p ''pcap'' None (capture_drops ng bytes)
        (observe_all sl (capture_frames rd ng bytes) (accumulator_new (hdr_snaplen h) (datalink h)))"
      by (simp add: capture_drops_def capture_frames_def False)
    then show ?thesis using fl by blast
  qed
qed

lemma finish_fields:
  "ta_retransmissions (tcp_anomalies (finish p fmt ifn d acc)) = retransmissions acc"
  "ta_duplicate_acks (tcp_anomalies (finish p fmt ifn d acc)) = duplicate_acks acc"
  "ta_out_of_order (tcp_anomalies (finish p fmt ifn d acc)) = out_of_order acc"
  "sampled_packets (tcp_anomalies (finish p fmt ifn d acc)) = tcp_sampled acc"
  "total_tcp_flows (directions_seen (finish p fmt ifn d acc)) = length (flows acc)"
  "bidirectional_tcp_flows (directions_seen (finish p fmt ifn d acc))
     = length (filter (\<lambda>(_, st). seen_from_a st \<and> seen_from_b st) (flows acc))"
  "ch_packet_count (health (finish p fmt ifn d acc)) = packet_count acc"
  "ch_byte_count (health (finish p fmt ifn d acc)) = byte_count acc"
  "ch_truncated (health (finish p fmt ifn d acc)) = truncated acc"
  "drops_known (health (finish p fmt ifn d acc)) = d"
  "pb_tcp_packets (protocol_breakdown (finish p fmt ifn d acc)) = tcp_packets acc"
  "pb_udp_packets (protocol_breakdown (finish p fmt ifn d acc)) = udp_packets acc"
  "pb_icmp_packets (protocol_breakdown (finish p fmt ifn d acc)) = icmp_packets acc"
  "pb_other_packets (protocol_breakdown (finish p fmt ifn d acc)) = other_packets acc"
  "observed_over_threshold (frame_size (finish p fmt ifn d acc)) = oversize_count acc"
  "tcp_checksum_zero_or_invalid (checksum_offload (finish p fmt ifn d acc)) = tcp_checksum_zero acc"
  "co_tcp_checksum_checked (checksum_offload (finish p fmt ifn d acc)) = tcp_checksum_checked acc"
  by (simp_all add: finish_def Let_def)

lemma tcp_sampled_segments:
  assumes "tcp_sampled (observe_all sl fs (accumulator_new sn lt)) < MAX_TCP_SAMPLE_PACKETS"
  shows "tcp_sampled (observe_all sl fs (accumulator_new sn lt)) = length (segments sl fs)"
  using assms
proof (induction fs rule: rev_induct)
  case Nil
  show ?case by (simp add: segments_def accumulator_new_def)
next
  case (snoc f fs)
  obtain len bytes ts where f: "f = (len, bytes, ts)" by (cases f) auto
  define acc where "acc = observe_all sl fs (accumulator_new sn lt)"
  have le: "tcp_sampled acc < MAX_TCP_SAMPLE_PACKETS"
    using snoc.prems observe_grows(2)[of acc sl len bytes ts] by (simp add: f acc_def)
  show ?case
    using snoc.IH[folded acc_def] le
    by (cases "segment_of sl bytes")
      (simp_all add: f acc_def[symmetric] observe_def Let_def segments_def inspect_packet_None(4) inspect_packet_checksums(1))
qed

lemma packets_segments:
  "tcp_packets (observe_all sl fs (accumulator_new sn lt)) = length (segments sl fs)"
  "packet_count (observe_all sl fs (accumulator_new sn lt)) = length fs"
  "byte_count (observe_all sl fs (accumulator_new sn lt)) = sum_list (map fst fs)"
  "truncated (observe_all sl fs (accumulator_new sn lt)) \<longleftrightarrow> list_ex (\<lambda>(len, bytes, _). of_nat (length bytes) < len) fs"
  "oversize_count (observe_all sl fs (accumulator_new sn lt)) = length (filter (\<lambda>(len, _). 1514 < len) fs)"
proof (induction fs rule: rev_induct)
  case Nil
  { case 1 show ?case by (simp add: segments_def accumulator_new_def) }
  { case 2 show ?case by (simp add: accumulator_new_def) }
  { case 3 show ?case by (simp add: accumulator_new_def) }
  { case 4 show ?case by (simp add: accumulator_new_def) }
  { case 5 show ?case by (simp add: accumulator_new_def) }
next
  case (snoc f fs)
  obtain len bytes ts where f: "f = (len, bytes, ts)" by (cases f) auto
  { case 1 show ?case using snoc.IH(1) tallied_classes(1)[of sl len bytes ts "observe_all sl fs (accumulator_new sn lt)"]
      by (simp add: f observe_def Let_def segments_def split: option.split) }
  { case 2 show ?case using snoc.IH(2) by (simp add: f observe_def Let_def) }
  { case 3 show ?case using snoc.IH(3) by (simp add: f observe_def Let_def) }
  { case 4 show ?case using snoc.IH(4) by (simp add: f observe_def Let_def tallied_def) }
  { case 5 show ?case using snoc.IH(5)
      by (simp add: f observe_def Let_def tallied_def oversize_threshold_def DEFAULT_LINK_MTU_def ETHERNET_HEADER_LEN_def) }
qed

section \<open>Properties of reports\<close>

text \<open>C21: below the two caps, the counters of a report are exact over the TCP segments of the file in their order: a
  retransmission is a data segment that an earlier data segment of its directed flow already covered, a duplicate acknowledgment
  is a pure acknowledgment repeating the number of the two before it, and a flow counts as bidirectional exactly when segments
  of both its directions were seen.\<close>

theorem anomaly_counts_exact:
  assumes "analyze_pcap sl rd ng p (Inr bytes) = Inr r"
    and "total_tcp_flows (directions_seen r) < MAX_TRACKED_FLOWS"
    and "sampled_packets (tcp_anomalies r) < MAX_TCP_SAMPLE_PACKETS"
  shows "let es = segments sl (capture_frames rd ng bytes) in
      sampled_packets (tcp_anomalies r) = length es
    \<and> ta_retransmissions (tcp_anomalies r) = count_by covered es
    \<and> ta_duplicate_acks (tcp_anomalies r) = count_by third_repeat es
    \<and> total_tcp_flows (directions_seen r) = card (fst ` seg_dir ` set es)
    \<and> bidirectional_tcp_flows (directions_seen r)
        = card {id. (id, True) \<in> seg_dir ` set es \<and> (id, False) \<in> seg_dir ` set es}"
proof -
  obtain fmt ifn sn lt where r: "r = finish p fmt ifn (capture_drops ng bytes)
      (observe_all sl (capture_frames rd ng bytes) (accumulator_new sn lt))"
    using analyze_pcap_report[OF assms(1)] by auto
  have caps: "length (flows (observe_all sl (capture_frames rd ng bytes) (accumulator_new sn lt))) < MAX_TRACKED_FLOWS"
    "tcp_sampled (observe_all sl (capture_frames rd ng bytes) (accumulator_new sn lt)) < MAX_TCP_SAMPLE_PACKETS"
    using assms(2,3) by (simp_all add: r finish_fields)
  show ?thesis
    using anomaly_counters_inv[OF caps] flow_inv_counts[OF flow_table_inv[OF caps]] tcp_sampled_segments[OF caps(2)]
    by (simp add: r finish_fields Let_def)
qed

text \<open>C22: a report accounts for every frame of the file: the four protocol classes partition the packets, TCP being what
  the slicer finds to be TCP, bytes are the sum of the original lengths, truncation and the oversize count are those of the
  frames, and the drop count is present exactly when a statistics block is, as the sum of its drop options: zero when none of
  them carries that option.\<close>

theorem report_accounts_for_every_frame:
  "case analyze_pcap sl rd ng p (Inr bytes) of Inl _ \<Rightarrow> True | Inr r \<Rightarrow>
     let fs = capture_frames rd ng bytes in
     ch_packet_count (health r) = length fs
     \<and> ch_byte_count (health r) = sum_list (map fst fs)
     \<and> ch_truncated (health r) = list_ex (\<lambda>(len, bs, _). of_nat (length bs) < len) fs
     \<and> observed_over_threshold (frame_size r) = length (filter (\<lambda>(len, _). 1514 < len) fs)
     \<and> pb_tcp_packets (protocol_breakdown r) = length (segments sl fs)
     \<and> pb_tcp_packets (protocol_breakdown r) + pb_udp_packets (protocol_breakdown r)
         + pb_icmp_packets (protocol_breakdown r) + pb_other_packets (protocol_breakdown r) = length fs
     \<and> drops_known (health r) = capture_drops ng bytes"
proof (cases "analyze_pcap sl rd ng p (Inr bytes)")
  case (Inr r)
  then obtain fmt ifn sn lt where r: "r = finish p fmt ifn (capture_drops ng bytes)
      (observe_all sl (capture_frames rd ng bytes) (accumulator_new sn lt))"
    using analyze_pcap_report by blast
  have "wf_accumulator (observe_all sl (capture_frames rd ng bytes) (accumulator_new sn lt))"
    by (rule wf_observe_all[OF wf_accumulator_new])
  then show ?thesis by (simp add: Inr r finish_fields packets_segments Let_def wf_accumulator_def)
qed simp

text \<open>C23: Whatever the frames, the accumulator stays well typed: its four packet classes add up, its flow table has distinct keys
  and at most as many flows as the cap allows, its anomaly counters and the 32 bit runs of repeated acknowledgments are bounded
  by the sampled segments, and the sample by its own cap.\<close>

theorem accumulator_well_formed:
  "wf_accumulator (observe_all sl fs (accumulator_new sn lt))"
  by (rule wf_observe_all[OF wf_accumulator_new])

text \<open>Whatever the file, a report has no out-of-order segment: the branch that would count one contradicts the guard
  before it, and a segment that was overtaken is counted as a retransmission instead. The counters stay within the sample and
  within both caps.\<close>

theorem reordering_never_reported:
  "case analyze_pcap sl rd ng p file of Inl _ \<Rightarrow> True | Inr r \<Rightarrow>
     ta_out_of_order (tcp_anomalies r) = 0
     \<and> ta_retransmissions (tcp_anomalies r) + ta_duplicate_acks (tcp_anomalies r) \<le> sampled_packets (tcp_anomalies r)
     \<and> sampled_packets (tcp_anomalies r) \<le> min MAX_TCP_SAMPLE_PACKETS (pb_tcp_packets (protocol_breakdown r))
     \<and> total_tcp_flows (directions_seen r) \<le> min MAX_TRACKED_FLOWS (sampled_packets (tcp_anomalies r))
     \<and> bidirectional_tcp_flows (directions_seen r) \<le> total_tcp_flows (directions_seen r)
     \<and> tcp_checksum_zero_or_invalid (checksum_offload r) \<le> co_tcp_checksum_checked (checksum_offload r)
     \<and> co_tcp_checksum_checked (checksum_offload r) = sampled_packets (tcp_anomalies r)"
proof (cases "analyze_pcap sl rd ng p file")
  case (Inr r)
  then obtain bytes fmt ifn sn lt where r: "r = finish p fmt ifn (capture_drops ng bytes)
      (observe_all sl (capture_frames rd ng bytes) (accumulator_new sn lt))"
    using analyze_pcap_report by blast
  have "wf_accumulator (observe_all sl (capture_frames rd ng bytes) (accumulator_new sn lt))"
    by (rule wf_observe_all[OF wf_accumulator_new])
  then show ?thesis by (simp add: Inr r finish_fields wf_accumulator_def)
qed simp

section \<open>The verdict on the vantage point\<close>

lemma five_percent:
  assumes "0 < n" "n \<le> 2000000" "m \<le> n"
  shows "f64_lt (f64_round (5 / 100)) (f64_div (f64_of_nat m) (f64_of_nat n)) \<longleftrightarrow> n < 20 * m"
proof -
  have d: "f64_div (f64_of_nat m) (f64_of_nat n) = f64_round (of_nat m / of_nat n)"
    using assms by (intro ratio_of_nats) auto
  show ?thesis
  proof (cases "n < 20 * m")
    case True
    then have "of_nat n + 1 \<le> (20 * of_nat m :: rat)" by (metis Suc_leI add.commute of_nat_Suc of_nat_le_iff of_nat_mult of_nat_numeral)
    moreover have n: "0 < (of_nat n :: rat)" "(of_nat n :: rat) \<le> 2000000" using assms by (simp_all add: of_nat_le_iff[of n 2000000, symmetric] del: of_nat_le_iff)
    ultimately have "(of_int 53687093 / 2 ^ 30 :: rat) \<le> of_nat m / of_nat n"
      by (simp add: field_simps)
    then have "f64_lt (f64_round (5 / 100)) (f64_round (of_nat m / of_nat n))"
      by (intro f64_lt_separated[where m = 53687092 and n = 53687093 and k = 30]) auto
    then show ?thesis using True d by simp
  next
    case False
    then have "(20 * of_nat m :: rat) \<le> of_nat n" by (metis not_less of_nat_le_iff of_nat_mult of_nat_numeral)
    then have "of_nat m / of_nat n \<le> (5 / 100 :: rat)" using assms(1) by (simp add: field_simps)
    then show ?thesis using False d f64_not_lt by auto
  qed
qed

lemma forty_percent:
  assumes "0 < n" "n \<le> 200000" "m \<le> n"
  shows "f64_lt (f64_round (4 / 10)) (f64_div (f64_of_nat m) (f64_of_nat n)) \<longleftrightarrow> 2 * n < 5 * m"
proof -
  have d: "f64_div (f64_of_nat m) (f64_of_nat n) = f64_round (of_nat m / of_nat n)"
    using assms by (intro ratio_of_nats) auto
  show ?thesis
  proof (cases "2 * n < 5 * m")
    case True
    then have "Suc (2 * n) \<le> 5 * m" by simp
    then have "(of_nat (Suc (2 * n)) :: rat) \<le> of_nat (5 * m)" by (simp only: of_nat_le_iff)
    then have "2 * of_nat n + 1 \<le> (5 * of_nat m :: rat)" by simp
    moreover have n: "0 < (of_nat n :: rat)" "(of_nat n :: rat) \<le> 200000" using assms by (simp_all add: of_nat_le_iff[of n 200000, symmetric] del: of_nat_le_iff)
    ultimately have "(of_int 429496731 / 2 ^ 30 :: rat) \<le> of_nat m / of_nat n"
      by (simp add: field_simps)
    then have "f64_lt (f64_round (4 / 10)) (f64_round (of_nat m / of_nat n))"
      by (intro f64_lt_separated[where m = 429496730 and n = 429496731 and k = 30]) auto
    then show ?thesis using True d by simp
  next
    case False
    then have "(of_nat (5 * m) :: rat) \<le> of_nat (2 * n)" by (simp only: of_nat_le_iff)
    then have "of_nat m / of_nat n \<le> (4 / 10 :: rat)" using assms(1) by (simp add: field_simps)
    then show ?thesis using False d f64_not_lt by auto
  qed
qed

lemma score_snd:
  "snd (score_oversize n) = (if 0 < n then 3 else 0, 0)"
  "zero \<le> checked \<Longrightarrow> checked \<le> 2000000 \<Longrightarrow>
     snd (score_checksums zero checked a) = (fst (snd a) + (if checked < 20 * zero then 2 else 0), snd (snd a))"
  "bidir \<le> flws \<Longrightarrow> flws \<le> 200000 \<Longrightarrow>
     snd (score_directions bidir flws a) = (fst (snd a) + (if 2 * flws < 5 * bidir then 1 else 0),
       snd (snd a) + (if 0 < flws \<and> \<not> 2 * flws < 5 * bidir then 1 else 0))"
  "snd (score_interface ifn a) = (fst (snd a) + (if case ifn of None \<Rightarrow> False | Some n \<Rightarrow> host_interface_name n then 1 else 0), snd (snd a))"
     apply (simp add: score_oversize_def)
    apply (simp add: score_checksums_def five_percent[simplified] case_prod_beta)
   apply (simp add: score_directions_def forty_percent[simplified] case_prod_beta)
  apply (simp add: score_interface_def case_prod_beta split: option.split)
  done

lemma classify_vantage_eq:
  "vantage (classify_vantage o' z c b t ifn) = fst (case snd (score_interface ifn (score_directions b t (score_checksums z c (score_oversize o'))))
      of (h, w) \<Rightarrow> verdict_of_scores h w)"
  "vc_confidence (classify_vantage o' z c b t ifn) = snd (case snd (score_interface ifn (score_directions b t (score_checksums z c (score_oversize o'))))
      of (h, w) \<Rightarrow> verdict_of_scores h w)"
  by (simp_all add: classify_vantage_def Let_def case_prod_beta)

lemma verdict_table:
  fixes big bad both nic one :: bool
  assumes "one \<longrightarrow> \<not> both"
  shows "verdict_of_scores ((if big then 3 else 0) + (if bad then 2 else 0) + (if both then 1 else 0) + (if nic then 1 else 0))
     (if one then 1 else 0)
   = (if big \<or> bad \<or> both \<or> nic then HostOffloadSuspect else if one then OnWireMirrorOrTap else UnknownVantage,
      if big \<and> (bad \<or> both \<and> nic) then HighConfidence else if big \<or> bad \<and> (both \<or> nic) then MediumConfidence else LowConfidence)"
  using assms by (cases big; cases bad; cases both; cases nic; cases one) (simp_all add: verdict_of_scores_def)

lemma classify_vantage_exact:
  assumes "zero \<le> checked" "checked \<le> 2000000" "bidir \<le> flws" "flws \<le> 200000"
  shows "(vantage (classify_vantage oversize zero checked bidir flws ifn), vc_confidence (classify_vantage oversize zero checked bidir flws ifn)) =
      (let big = 0 < oversize; bad = checked < 20 * zero; both = 2 * flws < 5 * bidir;
           nic = (case ifn of None \<Rightarrow> False | Some n \<Rightarrow> host_interface_name n)
       in (if big \<or> bad \<or> both \<or> nic then HostOffloadSuspect else if 0 < flws then OnWireMirrorOrTap else UnknownVantage,
           if big \<and> (bad \<or> both \<and> nic) then HighConfidence else if big \<or> bad \<and> (both \<or> nic) then MediumConfidence else LowConfidence))"
  using assms verdict_table[of "0 < flws \<and> \<not> 2 * flws < 5 * bidir" "2 * flws < 5 * bidir" "0 < oversize" "checked < 20 * zero"
      "case ifn of None \<Rightarrow> False | Some n \<Rightarrow> host_interface_name n"]
  by (simp add: classify_vantage_eq score_snd Let_def)

text \<open>The vantage verdict of every report, over the report's own counts with the floating-point thresholds resolved to
  integers: any single one of four signs makes the capture host-side, on-wire is claimed only with low confidence and only when
  none of them is there, and the anomaly counters are qualified exactly for host-side captures.\<close>

theorem vantage_verdict_exact:
  "case analyze_pcap sl rd ng p file of Inl _ \<Rightarrow> True | Inr r \<Rightarrow>
     let v = vantage_classification r;
         big = 0 < observed_over_threshold (frame_size r);
         bad = co_tcp_checksum_checked (checksum_offload r) < 20 * tcp_checksum_zero_or_invalid (checksum_offload r);
         both = 2 * total_tcp_flows (directions_seen r) < 5 * bidirectional_tcp_flows (directions_seen r);
         nic = (case ch_interface_name (health r) of None \<Rightarrow> False | Some n \<Rightarrow> host_interface_name n)
     in vantage v = (if big \<or> bad \<or> both \<or> nic then HostOffloadSuspect
                     else if 0 < total_tcp_flows (directions_seen r) then OnWireMirrorOrTap else UnknownVantage)
      \<and> vc_confidence v = (if big \<and> (bad \<or> both \<and> nic) then HighConfidence
                     else if big \<or> bad \<and> (both \<or> nic) then MediumConfidence else LowConfidence)
      \<and> qualification_required (tcp_anomalies r) = (vantage v = HostOffloadSuspect)"
proof (cases "analyze_pcap sl rd ng p file")
  case (Inr r)
  then obtain bytes fmt ifn sn lt where r: "r = finish p fmt ifn (capture_drops ng bytes)
      (observe_all sl (capture_frames rd ng bytes) (accumulator_new sn lt))"
    using analyze_pcap_report by blast
  define acc where "acc = observe_all sl (capture_frames rd ng bytes) (accumulator_new sn lt)"
  have wf: "wf_accumulator acc" unfolding acc_def by (rule wf_observe_all[OF wf_accumulator_new])
  have l: "tcp_checksum_zero acc \<le> tcp_checksum_checked acc" "tcp_checksum_checked acc \<le> 2000000" "length (flows acc) \<le> 200000"
    using wf by (simp_all add: wf_accumulator_def MAX_TCP_SAMPLE_PACKETS_def MAX_TRACKED_FLOWS_def)
  note x = classify_vantage_exact[OF l(1,2) length_filter_le l(3), unfolded Let_def prod.inject]
  show ?thesis
    unfolding Inr r acc_def[symmetric] by (simp add: finish_def Let_def x)
qed simp

section \<open>Witness\<close>

text \<open>Four segments of one connection: two in order, one that was overtaken, and an acknowledgment from the other side.\<close>

definition demo_slicer :: slicer where
  "demo_slicer bs = (case bs of
     [fwd, seq, len] \<Rightarrow> Some \<lparr>net = Some (if fwd = 1 then Ipv4 [10, 0, 0, 1] [10, 0, 0, 2] else Ipv4 [10, 0, 0, 2] [10, 0, 0, 1]),
        transport = Some (Tcp \<lparr>tcp_source_port = 9, tcp_destination_port = 9, sequence_number = ucast seq,
          acknowledgment_number = 7, ack_flag = True, checksum = 1, tcp_payload = replicate (unat len) 0,
          calc_checksum_ipv4 = (\<lambda>_ _. None)\<rparr>)\<rparr>
   | _ \<Rightarrow> None)"

definition demo_reader :: "u8 list \<Rightarrow> string + PcapHeader \<times> (string + PcapPacket) list" where
  "demo_reader _ = Inr (\<lparr>hdr_snaplen = 65535, datalink = ''ETHERNET''\<rparr>,
     [Inr \<lparr>orig_len = 3, pkt_data = [1, 0, 10], timestamp = 1\<rparr>, Inr \<lparr>orig_len = 3, pkt_data = [1, 20, 10], timestamp = 2\<rparr>,
      Inr \<lparr>orig_len = 3, pkt_data = [1, 10, 10], timestamp = 3\<rparr>, Inr \<lparr>orig_len = 3, pkt_data = [0, 0, 0], timestamp = 4\<rparr>])"

lemma demo_returns: "\<exists>r. analyze_pcap demo_slicer demo_reader (\<lambda>_. Inl []) ''c'' (Inr [0xD4, 0xC3, 0xB2, 0xA1]) = Inr r"
  by (simp add: analyze_pcap_def analyze_pcap_classic_def demo_reader_def)

lemma demo_frames: "capture_frames demo_reader (\<lambda>_. Inl []) [0xD4, 0xC3, 0xB2, 0xA1]
    = [(3, [1, 0, 10], Some 1), (3, [1, 20, 10], Some 2), (3, [1, 10, 10], Some 3), (3, [0, 0, 0], Some 4)]"
  by (simp add: capture_frames_def pcapng_magic_def demo_reader_def)

lemma demo_segments:
  "\<exists>k. segments demo_slicer [(3, [1, 0, 10], Some 1), (3, [1, 20, 10], Some 2), (3, [1, 10, 10], Some 3), (3, [0, 0, 0], Some 4)]
   = [\<lparr>seg_dir = (k, True), seg_seq = 0, seg_len = 10, seg_is_ack = True, seg_ack = 7\<rparr>,
      \<lparr>seg_dir = (k, True), seg_seq = 20, seg_len = 10, seg_is_ack = True, seg_ack = 7\<rparr>,
      \<lparr>seg_dir = (k, True), seg_seq = 10, seg_len = 10, seg_is_ack = True, seg_ack = 7\<rparr>,
      \<lparr>seg_dir = (k, False), seg_seq = 0, seg_len = 0, seg_is_ack = True, seg_ack = 7\<rparr>]"
  by (rule exI[of _ "flow_key_id (normalized ([10, 0, 0, 1] @ replicate 12 0) 9 ([10, 0, 0, 2] @ replicate 12 0) 9)"])
    (simp add: segments_def segment_of_def demo_slicer_def normalized_def)

theorem anomaly_counts_exact_witness:
  "\<exists>r. analyze_pcap demo_slicer demo_reader (\<lambda>_. Inl []) ''c'' (Inr [0xD4, 0xC3, 0xB2, 0xA1]) = Inr r
     \<and> ta_retransmissions (tcp_anomalies r) = 1 \<and> sampled_packets (tcp_anomalies r) = 4"
proof -
  obtain r where r: "analyze_pcap demo_slicer demo_reader (\<lambda>_. Inl []) ''c'' (Inr [0xD4, 0xC3, 0xB2, 0xA1]) = Inr r"
    using demo_returns by blast
  then obtain fmt ifn sn lt where f: "r = finish ''c'' fmt ifn (capture_drops (\<lambda>_. Inl []) [0xD4, 0xC3, 0xB2, 0xA1])
      (observe_all demo_slicer (capture_frames demo_reader (\<lambda>_. Inl []) [0xD4, 0xC3, 0xB2, 0xA1]) (accumulator_new sn lt))"
    using analyze_pcap_report by blast
  define acc where "acc = observe_all demo_slicer (capture_frames demo_reader (\<lambda>_. Inl []) [0xD4, 0xC3, 0xB2, 0xA1]) (accumulator_new sn lt)"
  have wf: "wf_accumulator acc" unfolding acc_def by (rule wf_observe_all[OF wf_accumulator_new])
  have "packet_count acc = 4" unfolding acc_def packets_segments demo_frames by simp
  then have caps: "total_tcp_flows (directions_seen r) < MAX_TRACKED_FLOWS" "sampled_packets (tcp_anomalies r) < MAX_TCP_SAMPLE_PACKETS"
    using wf by (simp_all add: f acc_def[symmetric] finish_fields wf_accumulator_def MAX_TRACKED_FLOWS_def MAX_TCP_SAMPLE_PACKETS_def)
  obtain k where k: "segments demo_slicer (capture_frames demo_reader (\<lambda>_. Inl []) [0xD4, 0xC3, 0xB2, 0xA1])
   = [\<lparr>seg_dir = (k, True), seg_seq = 0, seg_len = 10, seg_is_ack = True, seg_ack = 7\<rparr>,
      \<lparr>seg_dir = (k, True), seg_seq = 20, seg_len = 10, seg_is_ack = True, seg_ack = 7\<rparr>,
      \<lparr>seg_dir = (k, True), seg_seq = 10, seg_len = 10, seg_is_ack = True, seg_ack = 7\<rparr>,
      \<lparr>seg_dir = (k, False), seg_seq = 0, seg_len = 0, seg_is_ack = True, seg_ack = 7\<rparr>]"
    unfolding demo_frames using demo_segments by blast
  have "count_by covered (segments demo_slicer (capture_frames demo_reader (\<lambda>_. Inl []) [0xD4, 0xC3, 0xB2, 0xA1])) = 1"
    unfolding k by (simp add: count_by_def covered_def data_in_def seg_end_def upt_rec)
  with r anomaly_counts_exact[OF r caps] show ?thesis
    unfolding Let_def by (intro exI[of _ r]) (simp only: k list.size, simp)
qed


end
