(* ===== verification/Protocol_Compare.thy ===== *)
theory Protocol_Compare
  imports Preflight Pcap_Report "HOL-Library.Char_ord"
begin

text \<open>
  \<open>network_tests/protocol_compare.rs\<close>: transfers over HTTP/1, HTTP/2 and HTTP/3, each direction alone and both at once, what a
  leg may report of its rate, and the two warnings that legs did not measure the same endpoint. The runs of \<open>curl\<close> and the
  preflight's observations are arguments; the preflight itself is the one of \<^theory_text>\<open>Preflight\<close>. Host names are ASCII.
\<close>

section \<open>Protocols and curl\<close>

datatype HttpProtocol = H1 | H2 | H3

fun http_as_str :: "HttpProtocol \<Rightarrow> string" where
  "http_as_str H1 = ''http1''"
| "http_as_str H2 = ''http2''"
| "http_as_str H3 = ''http3''"

fun curl_flag :: "HttpProtocol \<Rightarrow> string" where
  "curl_flag H1 = ''--http1.1''"
| "curl_flag H2 = ''--http2''"
| "curl_flag H3 = ''--http3-only''"

definition requires_h3_capable_curl :: "HttpProtocol \<Rightarrow> bool" where
  "requires_h3_capable_curl p \<longleftrightarrow> p = H3"

definition CURL_CANDIDATES :: "string list" where
  "CURL_CANDIDATES = [''curl'', ''/opt/homebrew/opt/curl/bin/curl'', ''/usr/local/opt/curl/bin/curl'']"

record CurlBinary =
  cb_path :: string
  supports_h3 :: bool

text \<open>What \<open>path --version\<close> prints; \<open>None\<close> when it cannot be run or fails.\<close>

definition probe_curl_binary :: "(string \<Rightarrow> string option) \<Rightarrow> string \<Rightarrow> CurlBinary option" where
  "probe_curl_binary curl_version p =
     (case curl_version p of None \<Rightarrow> None
      | Some txt \<Rightarrow> Some \<lparr>cb_path = p, supports_h3 = (lines txt \<noteq> [] \<and> contains txt ''HTTP3'')\<rparr>)"

fun select_loop :: "(string \<Rightarrow> string option) \<Rightarrow> HttpProtocol \<Rightarrow> string list \<Rightarrow> CurlBinary option \<Rightarrow> CurlBinary option" where
  "select_loop curl_version protocol [] first_working = (if requires_h3_capable_curl protocol then None else first_working)"
| "select_loop curl_version protocol (c # cs) first_working =
     (case probe_curl_binary curl_version c of
        None \<Rightarrow> select_loop curl_version protocol cs first_working
      | Some bin \<Rightarrow>
          if \<not> requires_h3_capable_curl protocol then Some bin
          else if supports_h3 bin then Some bin
          else select_loop curl_version protocol cs (case first_working of None \<Rightarrow> Some bin | Some b \<Rightarrow> Some b))"

definition select_curl_for :: "(string \<Rightarrow> string option) \<Rightarrow> HttpProtocol \<Rightarrow> CurlBinary option" where
  "select_curl_for curl_version protocol = select_loop curl_version protocol CURL_CANDIDATES None"

datatype LossIndicator = Clean | BodyTooSmall | NonSuccessStatus | TransferFailed

datatype Direction = DownloadOnly | UploadOnly | Simultaneous

fun direction_as_str :: "Direction \<Rightarrow> string" where
  "direction_as_str DownloadOnly = ''download-only''"
| "direction_as_str UploadOnly = ''upload-only''"
| "direction_as_str Simultaneous = ''simultaneous''"

record LegResult =
  lr_protocol :: string
  lr_direction :: string
  lr_host :: string
  connected_ip :: "string option"
  http_status :: "u32 option"
  throughput_bps :: "f64 option"
  lr_bytes_transferred :: "u64 option"
  time_total_secs :: "f64 option"
  loss_indicator :: LossIndicator
  lr_error :: "string option"
  final_url :: "string option"
  redirect_count :: u32

record CurlOutput =
  co_success :: bool
  co_code :: "int option"
  co_stdout :: string
  co_stderr :: string

text \<open>How the watchdog's polling loop ends: the child could not be started, it exited and its output was collected or not, the
  deadline passed, or polling failed.\<close>

datatype WatchEnd = SpawnFailed string | Exited "string + CurlOutput" | DeadlinePassed | PollFailed string

definition KILL_GRACE_SECS :: nat where "KILL_GRACE_SECS = 5"

definition run_curl_watched :: "WatchEnd \<Rightarrow> nat \<Rightarrow> string + CurlOutput" where
  "run_curl_watched w timeout_secs =
     (case w of
        SpawnFailed e \<Rightarrow> Inl (''failed to spawn curl: '' @ e)
      | DeadlinePassed \<Rightarrow> Inl (''curl exceeded watchdog deadline ('' @ show_nat (timeout_secs + KILL_GRACE_SECS) @ ''s) and was killed'')
      | PollFailed e \<Rightarrow> Inl (''failed to poll curl: '' @ e)
      | Exited (Inl e) \<Rightarrow> Inl (''failed to collect curl output: '' @ e)
      | Exited (Inr out) \<Rightarrow> Inr out)"

definition WRITE_OUT_FIELDS :: "string list" where
  "WRITE_OUT_FIELDS = [''code'', ''proto'', ''speed_dl'', ''speed_up'', ''size_dl'', ''size_up'', ''time_total'', ''remote_ip'',
     ''url_effective'', ''num_redirects'']"

definition WRITE_OUT_FORMAT :: string where
  "WRITE_OUT_FORMAT =
            [CHR 0x25] @ ''{http_code}'' @ [CHR 0x1F] @ [CHR 0x25] @ ''{http_version}'' @ [CHR 0x1F]
            @ [CHR 0x25] @ ''{speed_download}'' @ [CHR 0x1F] @ [CHR 0x25] @ ''{speed_upload}'' @ [CHR 0x1F]
            @ [CHR 0x25] @ ''{size_download}'' @ [CHR 0x1F] @ [CHR 0x25] @ ''{size_upload}'' @ [CHR 0x1F]
            @ [CHR 0x25] @ ''{time_total}'' @ [CHR 0x1F] @ [CHR 0x25] @ ''{remote_ip}'' @ [CHR 0x1F]
            @ [CHR 0x25] @ ''{url_effective}'' @ [CHR 0x1F] @ [CHR 0x25] @ ''{num_redirects}''"

text \<open>The map of the fields: the keys are distinct, so the zipped list is it.\<close>

definition parse_write_out :: "string \<Rightarrow> (string \<times> string) list" where
  "parse_write_out txt =
     zip WRITE_OUT_FIELDS (split_on (CHR 0x1F) (trim_end_matches (\<lambda>c. c = CHR 0x0A \<or> c = CHR 0x0D) txt))"

section \<open>One leg\<close>

record LegConfig =
  lc_host :: string
  lc_port :: u16
  lc_path :: string
  lc_interface :: "string option"
  lc_forced_ip :: "string option"
  lc_timeout_secs :: nat
  lc_upload_bytes :: nat

definition MIN_VALID_TRANSFER_BYTES :: u64 where "MIN_VALID_TRANSFER_BYTES = 16384"

definition MAX_REDIRECTS :: nat where "MAX_REDIRECTS = 10"

definition failed_leg :: "HttpProtocol \<Rightarrow> Direction \<Rightarrow> string \<Rightarrow> string \<Rightarrow> LegResult" where
  "failed_leg protocol direction host e =
     \<lparr>lr_protocol = http_as_str protocol, lr_direction = direction_as_str direction, lr_host = host, connected_ip = None,
      http_status = None, throughput_bps = None, lr_bytes_transferred = None, time_total_secs = None,
      loss_indicator = TransferFailed, lr_error = Some e, final_url = None, redirect_count = 0\<rparr>"

definition leg_url :: "LegConfig \<Rightarrow> string" where
  "leg_url cfg = ''https://'' @ lc_host cfg @ '':'' @ show_word (lc_port cfg) @ lc_path cfg"

definition leg_args :: "HttpProtocol \<Rightarrow> LegConfig \<Rightarrow> string option \<Rightarrow> string list" where
  "leg_args protocol cfg upload_body =
     [curl_flag protocol, ''-sS'', ''-L'', ''--max-redirs'', show_nat MAX_REDIRECTS, ''-o'', ''/dev/null'', ''-w'',
      WRITE_OUT_FORMAT, ''-m'', show_nat (lc_timeout_secs cfg)]
     @ (case lc_forced_ip cfg of None \<Rightarrow> []
        | Some ip \<Rightarrow> [''--resolve'', lc_host cfg @ '':'' @ show_word (lc_port cfg) @ '':'' @ ip])
     @ (case lc_interface cfg of None \<Rightarrow> [] | Some iface \<Rightarrow> [''--interface'', iface])
     @ (case upload_body of None \<Rightarrow> [] | Some p \<Rightarrow> [''-X'', ''POST'', ''--data-binary'', ''@'' @ p])
     @ [leg_url cfg]"

definition show_exit :: "int option \<Rightarrow> string" where
  "show_exit c = (case c of None \<Rightarrow> ''None'' | Some n \<Rightarrow> ''Some('' @ show_int n @ '')'')"

definition success_status :: "u32 \<Rightarrow> bool" where
  "success_status s \<longleftrightarrow> 200 \<le> s \<and> s < 300"

definition and_then :: "'a option \<Rightarrow> ('a \<Rightarrow> 'b option) \<Rightarrow> 'b option" where
  "and_then x f = (case x of None \<Rightarrow> None | Some a \<Rightarrow> f a)"

text \<open>The result of a transfer \<open>curl\<close> completed, from what it wrote out.\<close>

definition leg_of_output :: "HttpProtocol \<Rightarrow> Direction \<Rightarrow> LegConfig \<Rightarrow> string \<Rightarrow> LegResult" where
  "leg_of_output protocol direction cfg stdout =
     (let fields = map_of (parse_write_out stdout);
          status = (and_then (fields ''code'') parse_uint :: u32 option);
          speed_dl = and_then (fields ''speed_dl'') parse_f64;
          speed_up = and_then (fields ''speed_up'') parse_f64;
          size_dl = (and_then (fields ''size_dl'') parse_uint :: u64 option);
          size_up = (and_then (fields ''size_up'') parse_uint :: u64 option);
          time_total = and_then (fields ''time_total'') parse_f64;
          remote_ip = and_then (fields ''remote_ip'') (\<lambda>s. if s \<noteq> [] then Some s else None);
          redirects = (unwrap_or (and_then (fields ''num_redirects'') parse_uint) 0 :: u32);
          furl = and_then (fields ''url_effective'') (\<lambda>u. if u \<noteq> [] \<and> u \<noteq> leg_url cfg then Some u else None);
          transferred_bytes = (if direction = UploadOnly then size_up else size_dl);
          is_success_status = (case status of None \<Rightarrow> False | Some s \<Rightarrow> success_status s);
          body_large_enough = (case transferred_bytes of None \<Rightarrow> False | Some b \<Rightarrow> MIN_VALID_TRANSFER_BYTES \<le> b);
          is_real_transfer = (is_success_status \<and> body_large_enough);
          (rate, bytes) =
            (if is_real_transfer then
               if direction = UploadOnly then (map_option (\<lambda>b. f64_mul b (Fin 8)) speed_up, size_up)
               else (map_option (\<lambda>b. f64_mul b (Fin 8)) speed_dl, size_dl)
             else (None, None));
          loss = (case status of
                    Some s \<Rightarrow> if success_status s \<and> body_large_enough then Clean
                              else if success_status s then BodyTooSmall else NonSuccessStatus
                  | None \<Rightarrow> TransferFailed)
      in \<lparr>lr_protocol = http_as_str protocol, lr_direction = direction_as_str direction, lr_host = lc_host cfg,
          connected_ip = remote_ip, http_status = status, throughput_bps = rate, lr_bytes_transferred = bytes,
          time_total_secs = time_total, loss_indicator = loss, lr_error = None, final_url = furl, redirect_count = redirects\<rparr>)"

definition run_leg ::
    "(string \<Rightarrow> string option) \<Rightarrow> (string \<Rightarrow> string list \<Rightarrow> WatchEnd) \<Rightarrow> HttpProtocol \<Rightarrow> Direction \<Rightarrow> LegConfig \<Rightarrow> string option \<Rightarrow> LegResult" where
  "run_leg curl_version curl_run protocol direction cfg upload_body =
     (case select_curl_for curl_version protocol of
        None \<Rightarrow> failed_leg protocol direction (lc_host cfg)
          (''no curl binary on this system supports '' @ http_as_str protocol
            @ ''; measurement unavailable, not substituted'')
      | Some curl \<Rightarrow>
          (case run_curl_watched (curl_run (cb_path curl) (leg_args protocol cfg upload_body)) (lc_timeout_secs cfg) of
             Inl e \<Rightarrow> failed_leg protocol direction (lc_host cfg) e
           | Inr out \<Rightarrow>
               if \<not> co_success out then
                 let stderr = trim (co_stderr out) in
                 failed_leg protocol direction (lc_host cfg)
                   (if stderr = [] then ''curl exited with '' @ show_exit (co_code out) else stderr)
               else leg_of_output protocol direction cfg (co_stdout out)))"

section \<open>The comparison\<close>

record ProtocolComparisonResult =
  pc_protocol :: string
  pc_preflight_verdict :: "string option"
  download_only :: "LegResult option"
  upload_only :: "LegResult option"
  simultaneous_download :: "LegResult option"
  simultaneous_upload :: "LegResult option"
  pc_confidence :: Confidence
  confidence_reasons :: "string list"

record ComparisonReport =
  cr_host :: string
  cr_interface :: "string option"
  protocols :: "ProtocolComparisonResult list"
  endpoint_mismatch :: bool
  endpoint_mismatch_detail :: "string option"
  redirected_to_different_host :: bool
  redirect_detail :: "string option"

definition confidence_for :: "LegResult option list \<Rightarrow> Confidence \<times> string list" where
  "confidence_for legs =
     (let present = filter_map id legs in
      if present = [] then (LowConfidence, [''no legs completed''])
      else
        let clean_count = length (filter (\<lambda>l. loss_indicator l = Clean) present);
            n = length present
        in (if clean_count = n then MediumConfidence else LowConfidence,
            (if clean_count < n then [show_nat (n - clean_count) @ ''/'' @ show_nat n @ '' legs did not complete cleanly''] else [])
            @ [''single sample per leg; repeat runs for statistical confidence'']))"

record CompareConfig =
  cc_host :: string
  cc_port :: u16
  cc_path :: string
  cc_interface :: "string option"
  cc_forced_ip :: "string option"
  cc_timeout_secs :: nat
  cc_upload_bytes :: nat
  cc_protocols :: "HttpProtocol list"
  run_simultaneous :: bool

definition url_host :: "string \<Rightarrow> string option" where
  "url_host url =
     (case (case strip_prefix url ''https://'' of Some r \<Rightarrow> Some r | None \<Rightarrow> strip_prefix url ''http://'') of
        None \<Rightarrow> None
      | Some rest \<Rightarrow>
          let host = takeWhile (\<lambda>c. c \<noteq> CHR ''/'' \<and> c \<noteq> CHR '':'') rest
          in if host = [] then None else Some host)"

definition detect_redirect_host_drift :: "string \<Rightarrow> string list \<Rightarrow> bool \<times> string option" where
  "detect_redirect_host_drift requested_host final_urls =
     (let drifted = filter (\<lambda>h. to_lowercase h \<noteq> to_lowercase requested_host) (filter_map url_host final_urls) in
      if drifted = [] then (False, None)
      else (True, Some
        (''requested host '' @ [CHR 0x27] @ requested_host @ [CHR 0x27] @ '' redirected to ''
            @ join '', '' (sort (remdups drifted))
            @ ''; the measured resource lives at a different hostname, which may itself resolve to a different edge'')))"

definition detect_endpoint_mismatch :: "(string \<times> string) list \<Rightarrow> bool \<times> string option" where
  "detect_endpoint_mismatch ips =
     (if length ips < 2 then (False, None)
      else
        let baseline_ip = snd (hd ips);
            mismatched = map (\<lambda>(label, ip). label @ ''='' @ ip) (filter (\<lambda>(_, ip). ip \<noteq> baseline_ip) ips)
        in if mismatched = [] then (False, None)
           else (True, Some
             (''legs resolved to different endpoint IPs (baseline '' @ fst (hd ips) @ ''='' @ baseline_ip
            @ ''): '' @ join '', '' mismatched
            @ '' -- cross-protocol comparison may be measuring different CDN edges, not the same path'')))"

text \<open>What the run of one protocol observes: a run of \<open>curl\<close> per leg, and the preflight's observations.\<close>

datatype Leg = DownLeg | UpLeg | SimDownLeg | SimUpLeg

record RunObs =
  ro_curl_version :: "string \<Rightarrow> string option"
  ro_curl :: "HttpProtocol \<Rightarrow> Leg \<Rightarrow> string \<Rightarrow> string list \<Rightarrow> WatchEnd"
  ro_resolve :: "string \<Rightarrow> string + string"
  ro_preflight :: PreflightObs

definition leg_config :: "CompareConfig \<Rightarrow> LegConfig" where
  "leg_config cfg = \<lparr>lc_host = cc_host cfg, lc_port = cc_port cfg, lc_path = cc_path cfg, lc_interface = cc_interface cfg,
     lc_forced_ip = cc_forced_ip cfg, lc_timeout_secs = cc_timeout_secs cfg, lc_upload_bytes = cc_upload_bytes cfg\<rparr>"

definition legs_of :: "ProtocolComparisonResult \<Rightarrow> (string \<times> LegResult option) list" where
  "legs_of r = [(''download_only'', download_only r), (''upload_only'', upload_only r),
     (''simultaneous_download'', simultaneous_download r), (''simultaneous_upload'', simultaneous_upload r)]"

definition run_protocol :: "RunObs \<Rightarrow> CompareConfig \<Rightarrow> string option \<Rightarrow> HttpProtocol \<Rightarrow> ProtocolComparisonResult" where
  "run_protocol ob cfg upload_body protocol =
     (let lcfg = leg_config cfg;
          preflight_verdict =
            (if protocol = H3 then
               Some (preflight_one (ro_resolve ob) (cc_host cfg) (resolve_for_preflight (ro_resolve ob) (cc_host cfg) (cc_forced_ip cfg))
                 Http3 (ro_preflight ob))
             else None);
          leg = (\<lambda>which direction body. run_leg (ro_curl_version ob) (ro_curl ob protocol which) protocol direction lcfg body);
          measured =
            (let down = Some (leg DownLeg DownloadOnly None);
                 up = map_option (\<lambda>b. leg UpLeg UploadOnly (Some b)) upload_body;
                 sim_down = (if run_simultaneous cfg then Some (leg SimDownLeg Simultaneous None) else None);
                 sim_up = (if run_simultaneous cfg then map_option (\<lambda>b. leg SimUpLeg Simultaneous (Some b)) upload_body else None);
                 (conf, reasons) = confidence_for [down, up, sim_down, sim_up]
             in \<lparr>pc_protocol = http_as_str protocol,
                 pc_preflight_verdict = map_option (\<lambda>p. verdict_as_str (er_verdict p)) preflight_verdict,
                 download_only = down, upload_only = up, simultaneous_download = sim_down, simultaneous_upload = sim_up,
                 pc_confidence = conf, confidence_reasons = reasons\<rparr>)
      in case preflight_verdict of
           Some pf \<Rightarrow>
             if er_verdict pf = Unsupported then
               \<lparr>pc_protocol = http_as_str protocol, pc_preflight_verdict = Some (verdict_as_str (er_verdict pf)),
                download_only = None, upload_only = None, simultaneous_download = None, simultaneous_upload = None,
                pc_confidence = LowConfidence,
                confidence_reasons = [''endpoint does not support '' @ http_as_str protocol @ '': '' @ er_detail pf]\<rparr>
             else measured
         | None \<Rightarrow> measured)"

definition result_ips :: "ProtocolComparisonResult \<Rightarrow> (string \<times> string) list" where
  "result_ips r = filter_map (\<lambda>(label, leg). case leg of None \<Rightarrow> None
     | Some l \<Rightarrow> map_option (\<lambda>ip. (pc_protocol r @ '':'' @ label, ip)) (connected_ip l)) (legs_of r)"

definition result_urls :: "ProtocolComparisonResult \<Rightarrow> string list" where
  "result_urls r = filter_map (\<lambda>(_, leg). case leg of None \<Rightarrow> None | Some l \<Rightarrow> final_url l) (legs_of r)"

definition run_comparison :: "RunObs \<Rightarrow> CompareConfig \<Rightarrow> string option \<Rightarrow> ComparisonReport" where
  "run_comparison ob cfg upload_body =
     (let results = map (run_protocol ob cfg upload_body) (cc_protocols cfg);
          all_ips = concat (map result_ips results);
          final_urls = concat (map result_urls results);
          (mismatch, mismatch_detail) = detect_endpoint_mismatch all_ips;
          (redirected, redir_detail) = detect_redirect_host_drift (cc_host cfg) final_urls
      in \<lparr>cr_host = cc_host cfg, cr_interface = cc_interface cfg, protocols = results, endpoint_mismatch = mismatch,
          endpoint_mismatch_detail = mismatch_detail, redirected_to_different_host = redirected, redirect_detail = redir_detail\<rparr>)"

section \<open>Legs\<close>

lemma leg_of_output_measured:
  "throughput_bps (leg_of_output p d cfg out) \<noteq> None \<Longrightarrow> loss_indicator (leg_of_output p d cfg out) = Clean"
  "lr_bytes_transferred (leg_of_output p d cfg out) \<noteq> None \<longleftrightarrow> loss_indicator (leg_of_output p d cfg out) = Clean"
  "loss_indicator (leg_of_output p d cfg out) = Clean \<Longrightarrow>
     (\<exists>s. http_status (leg_of_output p d cfg out) = Some s \<and> success_status s)
     \<and> (\<exists>b. lr_bytes_transferred (leg_of_output p d cfg out) = Some b \<and> 16384 \<le> b)"
  by (auto simp: leg_of_output_def Let_def MIN_VALID_TRANSFER_BYTES_def split: option.splits if_splits)

text \<open>A leg that measured something.\<close>

definition leg_sound :: "LegResult \<Rightarrow> bool" where
  "leg_sound l \<longleftrightarrow>
     (if loss_indicator l = Clean
      then list_ex success_status (filter_map id [http_status l]) \<and> list_ex ((\<le>) 16384) (filter_map id [lr_bytes_transferred l])
        \<and> lr_error l = None
      else throughput_bps l = None \<and> lr_bytes_transferred l = None)"

lemma run_leg_sound: "leg_sound (run_leg v c p d cfg b)"
proof -
  have f: "leg_sound (failed_leg p d h e)" for h e by (simp add: leg_sound_def failed_leg_def)
  have e: "lr_error (leg_of_output p d cfg out) = None" for out by (simp add: leg_of_output_def Let_def case_prod_beta)
  have "leg_sound (leg_of_output p d cfg out)" for out
    using leg_of_output_measured[of p d cfg out] e[of out]
    by (cases "loss_indicator (leg_of_output p d cfg out) = Clean"; cases "throughput_bps (leg_of_output p d cfg out)")
      (auto simp: leg_sound_def)
  with f show ?thesis by (simp add: run_leg_def Let_def split: option.split sum.split)
qed

lemma run_leg_label: "lr_protocol (run_leg v c p d cfg b) = http_as_str p"
  by (simp add: run_leg_def leg_of_output_def failed_leg_def Let_def case_prod_beta split: option.split sum.split)

text \<open>What \<open>curl --http2\<close> writes out when the server settled for HTTP/1.1.\<close>

definition http11_output :: string where
  "http11_output = join [CHR 0x1F] [''200'', ''1.1'', ''2000'', ''0'', ''20000'', ''0'', ''1'', ''192.0.2.1'', [], ''0'']"

lemma http11_fields:
  "map_of (parse_write_out http11_output) ''code'' = Some ''200''"
  "map_of (parse_write_out http11_output) ''size_dl'' = Some ''20000''"
  "map_of (parse_write_out http11_output) ''proto'' = Some ''1.1''"
  by code_simp+

lemma http11_numbers: "(parse_uint ''200'' :: u32 option) = Some 200" "(parse_uint ''20000'' :: u64 option) = Some 20000"
  by code_simp+

lemma http11_clean: "loss_indicator (leg_of_output H2 DownloadOnly cfg http11_output) = Clean"
  by (simp add: leg_of_output_def Let_def case_prod_beta http11_fields http11_numbers and_then_def success_status_def
      MIN_VALID_TRANSFER_BYTES_def)

section \<open>Properties\<close>

text \<open>C25: what a leg of a comparison vouches for. Every leg carries the name of the protocol that was asked for; one that is
  clean ended with a success status, with at least 16384 bytes in its counted direction and without an error, and only a
  clean leg reports a rate or a byte count. An HTTP/3 endpoint the preflight found
  unsupported has no leg at all, confidence is never high, and it is medium exactly when some leg ran and every leg that ran was
  clean. The version \<open>curl\<close> writes out is not read: a leg over HTTP/2 that the server answered with HTTP/1.1 is clean.\<close>

theorem comparison_rates_are_real:
  "list_all (\<lambda>r. list_all (\<lambda>l. leg_sound l \<and> lr_protocol l = pc_protocol r) (filter_map snd (legs_of r))
     \<and> pc_confidence r \<noteq> HighConfidence
     \<and> (pc_confidence r = MediumConfidence) = (filter_map snd (legs_of r) \<noteq> []
          \<and> list_all (\<lambda>l. loss_indicator l = Clean) (filter_map snd (legs_of r)))
     \<and> (pc_preflight_verdict r = Some (verdict_as_str Unsupported)) = (filter_map snd (legs_of r) = []))
   (protocols (run_comparison ob cfg body))
   \<and> map_of (parse_write_out http11_output) ''proto'' = Some ''1.1''
   \<and> loss_indicator (leg_of_output H2 DownloadOnly cfg' http11_output) = Clean"
proof -
  let ?ok = "\<lambda>r l. leg_sound l \<and> lr_protocol l = pc_protocol r"
  have conf: "fst (confidence_for legs) \<noteq> HighConfidence
      \<and> (fst (confidence_for legs) = MediumConfidence) = (filter_map id legs \<noteq> []
          \<and> list_all (\<lambda>l. loss_indicator l = Clean) (filter_map id legs))" for legs
    by (auto simp: confidence_for_def Let_def list_all_iff length_filter_eq_iff)
  have vs: "verdict_as_str v = verdict_as_str Unsupported \<longleftrightarrow> v = Unsupported" for v
    by (cases v) (simp_all add: verdict_as_str_def)
  have legs: "filter_map snd [(a, w), (b, x), (c, y), (d, z)] = filter_map id [w, x, y, z]"
    for a b c d :: string and w x y z :: "LegResult option" by (simp split: option.split)
  have "list_all (?ok r) (filter_map snd (legs_of r))
     \<and> pc_confidence r \<noteq> HighConfidence
     \<and> (pc_confidence r = MediumConfidence) = (filter_map snd (legs_of r) \<noteq> []
          \<and> list_all (\<lambda>l. loss_indicator l = Clean) (filter_map snd (legs_of r)))
     \<and> (pc_preflight_verdict r = Some (verdict_as_str Unsupported)) = (filter_map snd (legs_of r) = [])"
    if r: "r = run_protocol ob cfg body p" for r p
  proof -
    define measured where "measured \<longleftrightarrow> \<not> (p = H3 \<and> er_verdict (preflight_one (ro_resolve ob) (cc_host cfg)
        (resolve_for_preflight (ro_resolve ob) (cc_host cfg) (cc_forced_ip cfg)) Http3 (ro_preflight ob)) = Unsupported)"
    show ?thesis
    proof (cases measured)
      case False
      then show ?thesis by (simp add: r measured_def run_protocol_def legs_of_def Let_def)
    next
      case True
      then have c: "pc_confidence r = fst (confidence_for [download_only r, upload_only r, simultaneous_download r, simultaneous_upload r])"
        and v: "pc_preflight_verdict r \<noteq> Some (verdict_as_str Unsupported)"
        and d: "download_only r \<noteq> None"
        and s: "list_all (?ok r) (filter_map id [download_only r, upload_only r, simultaneous_download r, simultaneous_upload r])"
        by (auto simp: r measured_def run_protocol_def Let_def case_prod_beta vs run_leg_sound run_leg_label split: option.split)
      from d have "filter_map id [download_only r, upload_only r, simultaneous_download r, simultaneous_upload r] \<noteq> []" by auto
      then show ?thesis
        unfolding legs_of_def legs using conf[of "[download_only r, upload_only r, simultaneous_download r, simultaneous_upload r]"] c v s
        by metis
    qed
  qed
  then show ?thesis by (simp add: run_comparison_def Let_def case_prod_beta list_all_iff http11_fields http11_clean)
qed

text \<open>The leg that uploads during the simultaneous phase is judged by its download counters: whatever it uploaded, a
  response body below 16384 bytes leaves it without a rate, and a larger one reports the download rate as its own.\<close>

theorem simultaneous_upload_reads_download:
  assumes "and_then (map_of (parse_write_out out) ''size_dl'') parse_uint = Some (n :: u64)"
  shows "(if n < 16384 then throughput_bps (leg_of_output p Simultaneous cfg out) = None
             \<and> loss_indicator (leg_of_output p Simultaneous cfg out) \<noteq> Clean
          else throughput_bps (leg_of_output p Simultaneous cfg out) = None
             \<or> throughput_bps (leg_of_output p Simultaneous cfg out)
                 = map_option (\<lambda>b. f64_mul b (Fin 8)) (and_then (map_of (parse_write_out out) ''speed_dl'') parse_f64))"
  using assms by (auto simp: leg_of_output_def Let_def MIN_VALID_TRANSFER_BYTES_def not_le split: option.split)

definition demo_write_out :: string where
  "demo_write_out = join [CHR 0x1F] [''200'', ''2'', ''50'', ''9000000'', ''12'', ''2000000'', ''0.2'', ''192.0.2.1'', ''https://h:443/'', ''0'']"

theorem simultaneous_upload_reads_download_witness:
  "loss_indicator (leg_of_output H2 Simultaneous
     \<lparr>lc_host = ''h'', lc_port = 443, lc_path = ''/'', lc_interface = None, lc_forced_ip = None, lc_timeout_secs = 9,
       lc_upload_bytes = 2000000\<rparr> demo_write_out) \<noteq> Clean"
proof -
  have "and_then (map_of (parse_write_out demo_write_out) ''size_dl'') parse_uint = Some (12 :: u64)" by code_simp
  from simultaneous_upload_reads_download[OF this] show ?thesis by simp
qed

lemma mismatch_iff: "fst (detect_endpoint_mismatch ips) \<longleftrightarrow> (\<exists>a \<in> set ips. \<exists>b \<in> set ips. snd a \<noteq> snd b)"
proof (cases ips)
  case (Cons x xs)
  have "fst (detect_endpoint_mismatch ips) \<longleftrightarrow> (\<exists>a \<in> set ips. snd a \<noteq> snd x)"
    by (cases xs) (force simp: Cons detect_endpoint_mismatch_def Let_def filter_empty_conv)+
  also have "\<dots> \<longleftrightarrow> (\<exists>a \<in> set ips. \<exists>b \<in> set ips. snd a \<noteq> snd b)" using Cons by (metis list.set_intros(1))
  finally show ?thesis .
qed (simp add: detect_endpoint_mismatch_def)

lemma drift_iff: "fst (detect_redirect_host_drift h urls) \<longleftrightarrow>
    (\<exists>u \<in> set urls. \<exists>x. url_host u = Some x \<and> to_lowercase x \<noteq> to_lowercase h)"
  by (auto simp: detect_redirect_host_drift_def Let_def filter_empty_conv set_filter_map)

text \<open>The report warns of an endpoint mismatch exactly when two legs of the run, of one protocol or of two, connected to
  different addresses, and of a redirect exactly when some leg ended at another host name than the one requested.\<close>

theorem endpoint_warnings_exact:
  "(let legs = concat (map (\<lambda>r. filter_map snd (legs_of r)) (protocols (run_comparison ob cfg body)));
        ips = filter_map connected_ip legs;
        hosts = filter_map url_host (filter_map final_url legs)
    in endpoint_mismatch (run_comparison ob cfg body) = list_ex (\<lambda>a. list_ex (\<lambda>b. a \<noteq> b) ips) ips
     \<and> redirected_to_different_host (run_comparison ob cfg body)
         = list_ex (\<lambda>x. to_lowercase x \<noteq> to_lowercase (cc_host cfg)) hosts)"
proof -
  have "map snd (filter_map (\<lambda>(label, leg). case leg of None \<Rightarrow> None
     | Some l \<Rightarrow> map_option (\<lambda>ip. (p @ '':'' @ label, ip)) (connected_ip l)) xs) = filter_map connected_ip (filter_map snd xs)" for p xs
    by (induction xs) (auto split: option.split)
  then have ips: "map snd (result_ips r) = filter_map connected_ip (filter_map snd (legs_of r))" for r
    by (simp only: result_ips_def)
  have "filter_map (\<lambda>(_, leg). case leg of None \<Rightarrow> None | Some l \<Rightarrow> final_url l) xs = filter_map final_url (filter_map snd xs)"
    for xs :: "(string \<times> LegResult option) list"
    by (induction xs) (auto split: option.split)
  then have urls: "result_urls r = filter_map final_url (filter_map snd (legs_of r))" for r
    by (simp only: result_urls_def)
  have cat: "filter_map f (concat xss) = concat (map (filter_map f) xss)" for f :: "LegResult \<Rightarrow> 'b option" and xss
    by (induction xss) (auto simp: filter_map_eq)
  define rs where "rs = map (run_protocol ob cfg body) (cc_protocols cfg)"
  have m: "endpoint_mismatch (run_comparison ob cfg body) = fst (detect_endpoint_mismatch (concat (map result_ips rs)))"
    and d: "redirected_to_different_host (run_comparison ob cfg body)
        = fst (detect_redirect_host_drift (cc_host cfg) (concat (map result_urls rs)))"
    and p: "protocols (run_comparison ob cfg body) = rs"
    by (simp_all add: run_comparison_def Let_def case_prod_beta rs_def)
  have si: "filter_map connected_ip (concat (map (\<lambda>r. filter_map snd (legs_of r)) rs)) = map snd (concat (map result_ips rs))"
    by (simp add: cat ips[symmetric] map_concat o_def)
  have su: "filter_map final_url (concat (map (\<lambda>r. filter_map snd (legs_of r)) rs)) = concat (map result_urls rs)"
    by (simp add: cat urls[symmetric] o_def)
  show ?thesis
    unfolding p m d Let_def si su mismatch_iff drift_iff
    by (auto simp: list_ex_iff set_filter_map)
qed


end
