(* ===== verification/Burst_Analysis.thy ===== *)
theory Burst_Analysis
  imports F64_Ext
begin

text \<open>
  \<open>network_tests/burst_analysis.rs\<close>: burst loss, reordering, duplication and jitter of a bounded sample. Sequence numbers and
  counts, which are \<open>u64\<close>, are naturals; the one subtraction that can wrap is written out modulo \<open>2 ^ 64\<close>. A \<open>HashSet\<close> is a
  set, a \<open>HashMap\<close> a map.
\<close>

section \<open>Square roots\<close>

text \<open>\<open>f64::sqrt\<close> is correctly rounded: an integer root of at least 55 bits with a sticky bit below it is rounded once.\<close>

fun isqrt :: "nat \<Rightarrow> nat" where
  "isqrt n = (if n = 0 then 0 else let s = 2 * isqrt (n div 4) in if (s + 1) * (s + 1) \<le> n then s + 1 else s)"

declare isqrt.simps [simp del]

definition sqrt_shift :: "rat \<Rightarrow> nat" where
  "sqrt_shift a = nat ((111 - ilog2 a) div 2 + 1)"

definition sqrt_approx :: "rat \<Rightarrow> rat" where
  "sqrt_approx a =
     (let k = sqrt_shift a;
          x = a * 4 ^ k;
          r = isqrt (nat \<lfloor>x\<rfloor>)
      in of_nat (2 * r + (if of_nat r * of_nat r = x then 0 else 1)) / 2 ^ (k + 1))"

fun f64_sqrt :: "f64 \<Rightarrow> f64" where
  "f64_sqrt (Fin a) = (if a < 0 then NaN else if a = 0 then Fin 0 else f64_round (sqrt_approx a))"
| "f64_sqrt PInf = PInf"
| "f64_sqrt _ = NaN"

section \<open>Samples and reports\<close>

record Arrival =
  arr_seq :: nat
  sent_at_ms :: f64
  received_at_ms :: f64

definition one_way_delay_ms :: "Arrival \<Rightarrow> f64" where
  "one_way_delay_ms a = f64_sub (received_at_ms a) (sent_at_ms a)"

record BoundedSample =
  sent_count :: nat
  arrivals :: "Arrival list"

record LossBurst =
  start_seq :: nat
  run_length :: nat
  gap_duration_ms :: "f64 option"

record BurstDistribution =
  bursts :: "LossBurst list"
  total_lost :: nat
  burst_count :: nat
  max_run_length :: nat
  mean_run_length :: "f64 option"

record ReorderEvent =
  re_seq :: nat
  depth :: nat

record JitterStats =
  mean_ms :: "f64 option"
  stddev_ms :: "f64 option"
  max_ms :: "f64 option"

record QueueDelayCorrelation =
  burst_start_seq :: nat
  delay_rising_before_burst :: "bool option"
  pre_burst_mean_delay_ms :: "f64 option"
  baseline_mean_delay_ms :: "f64 option"

record BurstAnalysisReport =
  br_sent_count :: nat
  received_count :: nat
  loss_percent :: f64
  burst :: BurstDistribution
  reordering :: "ReorderEvent list"
  max_reorder_depth :: nat
  duplicate_count :: nat
  jitter :: JitterStats
  queue_delay_correlation :: "QueueDelayCorrelation list"
  capture_qualification :: "string option"
  br_notes :: "string list"

definition PRE_BURST_WINDOW_MS :: f64 where "PRE_BURST_WINDOW_MS = Fin 15"

section \<open>Duplicates and reordering\<close>

definition dup_step :: "Arrival \<Rightarrow> nat set \<times> Arrival list \<times> nat \<Rightarrow> nat set \<times> Arrival list \<times> nat" where
  "dup_step a st = (case st of (seen, distinct_arr, duplicates) \<Rightarrow>
     if arr_seq a \<notin> seen then (insert (arr_seq a) seen, distinct_arr @ [a], duplicates)
     else (seen, distinct_arr, duplicates + 1))"

definition split_duplicates :: "Arrival list \<Rightarrow> Arrival list \<times> nat" where
  "split_duplicates xs = snd (fold dup_step xs ({}, [], 0))"

definition reorder_step :: "Arrival \<Rightarrow> ReorderEvent list \<times> nat option \<times> nat list \<Rightarrow> ReorderEvent list \<times> nat option \<times> nat list" where
  "reorder_step a st = (case st of (events, highest, seen) \<Rightarrow>
     (case highest of
        Some h \<Rightarrow> if arr_seq a < h
                  then events @ [\<lparr>re_seq = arr_seq a, depth = length (filter (\<lambda>s. arr_seq a < s) seen)\<rparr>] else events
      | None \<Rightarrow> events,
      Some (case highest of None \<Rightarrow> arr_seq a | Some h \<Rightarrow> max h (arr_seq a)),
      seen @ [arr_seq a]))"

definition compute_reordering :: "Arrival list \<Rightarrow> ReorderEvent list" where
  "compute_reordering xs = fst (fold reorder_step xs ([], None, []))"

section \<open>Loss bursts\<close>

definition close_run :: "(nat \<Rightarrow> f64 option) \<Rightarrow> nat option \<Rightarrow> nat \<Rightarrow> LossBurst list \<Rightarrow> LossBurst list" where
  "close_run seq_send_time start len bs =
     (case start of
        None \<Rightarrow> bs
      | Some s \<Rightarrow>
          if 0 < len then
            bs @ [\<lparr>start_seq = s, run_length = len,
                   gap_duration_ms = (case (seq_send_time s, seq_send_time (s + len - 1)) of
                       (Some t0, Some t1) \<Rightarrow> Some (f64_max (f64_sub t1 t0) (Fin 0))
                     | _ \<Rightarrow> None)\<rparr>]
          else bs)"

definition run_step :: "(nat \<Rightarrow> f64 option) \<Rightarrow> nat set \<Rightarrow> nat \<Rightarrow> LossBurst list \<times> nat option \<times> nat \<Rightarrow> LossBurst list \<times> nat option \<times> nat" where
  "run_step seq_send_time present seq st = (case st of (bs, run_start, run_len) \<Rightarrow>
     if seq \<in> present then (close_run seq_send_time run_start run_len bs, None, 0)
     else (bs, Some (case run_start of None \<Rightarrow> seq | Some s \<Rightarrow> s), run_len + 1))"

definition burst_runs :: "nat \<Rightarrow> nat set \<Rightarrow> (nat \<Rightarrow> f64 option) \<Rightarrow> LossBurst list" where
  "burst_runs n present seq_send_time =
     (case fold (run_step seq_send_time present) [0..<n] ([], None, 0) of
        (bs, run_start, run_len) \<Rightarrow> close_run seq_send_time run_start run_len bs)"

definition compute_burst_distribution :: "nat \<Rightarrow> nat set \<Rightarrow> (nat \<Rightarrow> f64 option) \<Rightarrow> BurstDistribution" where
  "compute_burst_distribution n present seq_send_time =
     (let bs = burst_runs n present seq_send_time;
          lost = sum_list (map run_length bs)
      in \<lparr>bursts = bs, total_lost = lost, burst_count = length bs,
          max_run_length = fold max (map run_length bs) 0,
          mean_run_length = (if bs = [] then None else Some (f64_div (f64_of_nat lost) (f64_of_nat (length bs))))\<rparr>)"

section \<open>Jitter and queue delay\<close>

definition f64_mean :: "f64 list \<Rightarrow> f64" where
  "f64_mean xs = f64_div (f64_sum xs) (f64_of_nat (length xs))"

definition compute_jitter :: "Arrival list \<Rightarrow> JitterStats" where
  "compute_jitter xs =
     (let delays = map one_way_delay_ms xs in
      if length delays < 2 then \<lparr>mean_ms = None, stddev_ms = None, max_ms = None\<rparr>
      else
        let deltas = map (\<lambda>i. f64_abs (f64_sub (delays ! i) (delays ! (i - 1)))) [1..<length delays];
            mean = f64_mean deltas;
            variance = f64_div (f64_sum (map (\<lambda>d. f64_powi (f64_sub d mean) 2) deltas)) (f64_of_nat (length deltas))
        in \<lparr>mean_ms = Some mean, stddev_ms = Some (f64_sqrt variance),
            max_ms = fold (\<lambda>d acc. Some (case acc of None \<Rightarrow> d | Some m \<Rightarrow> f64_max m d)) deltas None\<rparr>)"

definition burst_correlation :: "BoundedSample \<Rightarrow> f64 option \<Rightarrow> (nat \<Rightarrow> Arrival option) \<Rightarrow> LossBurst \<Rightarrow> QueueDelayCorrelation" where
  "burst_correlation sample baseline_mean by_seq b =
     (let burst_send_time =
            (case by_seq (start_seq b - 1) of
               Some a \<Rightarrow> Some (sent_at_ms a)
             | None \<Rightarrow> (case filter_map (\<lambda>s. map_option sent_at_ms (by_seq s)) (rev [0..<start_seq b]) of
                 [] \<Rightarrow> None | t # _ \<Rightarrow> Some t));
          pre_burst_delays =
            (case burst_send_time of
               Some t \<Rightarrow> map one_way_delay_ms (filter (\<lambda>a. f64_le (sent_at_ms a) t
                   \<and> f64_le (f64_sub t PRE_BURST_WINDOW_MS) (sent_at_ms a)) (arrivals sample))
             | None \<Rightarrow> []);
          pre_burst_mean = (if 2 \<le> length pre_burst_delays then Some (f64_mean pre_burst_delays) else None)
      in \<lparr>burst_start_seq = start_seq b,
          delay_rising_before_burst =
            (case (pre_burst_mean, baseline_mean) of
               (Some pre, Some base) \<Rightarrow> Some (f64_lt (f64_mul base (Fin (5 / 4))) pre)
             | _ \<Rightarrow> None),
          pre_burst_mean_delay_ms = pre_burst_mean, baseline_mean_delay_ms = baseline_mean\<rparr>)"

definition compute_queue_delay_correlation :: "BoundedSample \<Rightarrow> LossBurst list \<Rightarrow> QueueDelayCorrelation list" where
  "compute_queue_delay_correlation sample bs =
     (if bs = [] then []
      else
        let by_seq = map_of (rev (map (\<lambda>a. (arr_seq a, a)) (arrivals sample)));
            all_delays = map one_way_delay_ms (arrivals sample);
            baseline_mean = (if all_delays = [] then None else Some (f64_mean all_delays))
        in map (burst_correlation sample baseline_mean by_seq) bs)"

section \<open>The analysis\<close>

definition analyze :: "BoundedSample \<Rightarrow> string option \<Rightarrow> BurstAnalysisReport" where
  "analyze sample qualification =
     (let (distinct_arr, duplicates) = split_duplicates (arrivals sample);
          present = set (map arr_seq distinct_arr);
          received = card present;
          lost_u64 = nat ((int (sent_count sample) - int received) mod 2 ^ 64);
          loss = (if sent_count sample = 0 then Fin 0
                  else f64_mul (f64_div (f64_of_nat lost_u64) (f64_of_nat (sent_count sample))) (Fin 100));
          send_time_by_seq = map_of (rev (map (\<lambda>a. (arr_seq a, sent_at_ms a)) distinct_arr));
          dist = compute_burst_distribution (sent_count sample) present send_time_by_seq;
          events = compute_reordering distinct_arr;
          max_depth = fold max (map depth events) 0;
          correlation = compute_queue_delay_correlation (sample\<lparr>arrivals := distinct_arr\<rparr>) (bursts dist);
          rising = length (filter (\<lambda>c. delay_rising_before_burst c = Some True) correlation)
      in \<lparr>br_sent_count = sent_count sample, received_count = received, loss_percent = loss, burst = dist,
          reordering = events, max_reorder_depth = max_depth, duplicate_count = duplicates,
          jitter = compute_jitter distinct_arr, queue_delay_correlation = correlation,
          capture_qualification = qualification,
          br_notes =
            (if 0 < duplicates then
               [show_nat duplicates
            @ '' duplicate arrival(s) observed; counted separately, not folded into loss or reordering''] else []) @
            (if events \<noteq> [] then
               [show_nat (length events) @ '' reordering event(s), max depth '' @ show_nat max_depth
            @ ''; reordering is arrival-order displacement, not loss''] else []) @
            (if 0 < rising then
               [show_nat rising @ ''/'' @ show_nat (length correlation)
            @ '' loss burst(s) preceded by rising one-way delay -- consistent with queueing pressure rather than a hard drop policy''] else []) @
            (case qualification of Some q \<Rightarrow> [''capture-derived figures inherit qualification: '' @ q] | None \<Rightarrow> [])\<rparr>)"

section \<open>Integer roots\<close>

lemma isqrt_bounds: "isqrt n * isqrt n \<le> n \<and> n < (isqrt n + 1) * (isqrt n + 1)"
proof (induction n rule: isqrt.induct)
  case (1 n)
  show ?case
  proof (cases "n = 0")
    case False
    define r where "r = isqrt (n div 4)"
    have r: "r * r \<le> n div 4" "n div 4 < (r + 1) * (r + 1)" using "1" False by (simp_all add: r_def)
    from r(1) have lo: "(2 * r) * (2 * r) \<le> n" by simp
    from r(2) have "n div 4 + 1 \<le> (r + 1) * (r + 1)" by simp
    then have "4 * (n div 4) + 4 \<le> (2 * r + 2) * (2 * r + 2)" by simp
    then have hi: "n < (2 * r + 2) * (2 * r + 2)" by linarith
    show ?thesis
      using lo hi False by (subst (1 2 3 4) isqrt.simps) (simp add: Let_def r_def[symmetric] del: mult_Suc mult_Suc_right add_mult_distrib)
  qed (simp add: isqrt.simps)
qed

section \<open>Duplicates and reordering\<close>

lemma split_duplicates_inv:
  "fold dup_step xs ({}, [], 0) = (s, d, k) \<Longrightarrow>
     s = set (map arr_seq xs) \<and> set (map arr_seq d) = s \<and> distinct (map arr_seq d) \<and> length d + k = length xs"
  by (induction xs arbitrary: s d k rule: rev_induct) (auto simp: dup_step_def split: prod.splits if_splits)

lemma split_duplicates_facts:
  "set (map arr_seq (fst (split_duplicates xs))) = set (map arr_seq xs)"
  "distinct (map arr_seq (fst (split_duplicates xs)))"
  "length (fst (split_duplicates xs)) + snd (split_duplicates xs) = length xs"
proof -
  obtain s d k where f: "fold dup_step xs ({}, [], 0) = (s, d, k)" by (cases "fold dup_step xs ({}, [], 0)") auto
  show "set (map arr_seq (fst (split_duplicates xs))) = set (map arr_seq xs)"
    "distinct (map arr_seq (fst (split_duplicates xs)))"
    "length (fst (split_duplicates xs)) + snd (split_duplicates xs) = length xs"
    using split_duplicates_inv[OF f] by (simp_all add: split_duplicates_def f)
qed

text \<open>The events, as a list comprehension on positions: an arrival is an event exactly when a larger number came before it.\<close>

definition overtaken_by :: "Arrival list \<Rightarrow> nat \<Rightarrow> nat" where
  "overtaken_by xs i = length (filter (\<lambda>a. arr_seq (xs ! i) < arr_seq a) (take i xs))"

definition reorder_spec :: "Arrival list \<Rightarrow> ReorderEvent list" where
  "reorder_spec xs = map (\<lambda>i. \<lparr>re_seq = arr_seq (xs ! i), depth = overtaken_by xs i\<rparr>)
     (filter (\<lambda>i. 0 < overtaken_by xs i) [0..<length xs])"

lemma reorder_spec_snoc:
  "reorder_spec (xs @ [a]) = reorder_spec xs @
     (let d = length (filter (\<lambda>b. arr_seq a < arr_seq b) xs) in if 0 < d then [\<lparr>re_seq = arr_seq a, depth = d\<rparr>] else [])"
proof -
  have o1: "overtaken_by (xs @ [a]) i = overtaken_by xs i" if "i < length xs" for i
    using that by (simp add: overtaken_by_def nth_append)
  have "filter (\<lambda>i. 0 < overtaken_by (xs @ [a]) i) [0..<length xs] = filter (\<lambda>i. 0 < overtaken_by xs i) [0..<length xs]"
    by (rule filter_cong) (auto simp: o1)
  then show ?thesis
    by (simp add: reorder_spec_def Let_def o1 overtaken_by_def[of "xs @ [a]" "length xs"] cong: map_cong)
      (auto simp: o1 nth_append)
qed

lemma reorder_step_Some:
  "reorder_step a (es, Some h, ss) =
     (if arr_seq a < h then es @ [\<lparr>re_seq = arr_seq a, depth = length (filter (\<lambda>s. arr_seq a < s) ss)\<rparr>] else es,
      Some (max h (arr_seq a)), ss @ [arr_seq a])"
  by (simp add: reorder_step_def)

lemma reorder_fold:
  "fold reorder_step xs ([], None, []) =
     (reorder_spec xs, if xs = [] then None else Some (Max (set (map arr_seq xs))), map arr_seq xs)"
proof (induction xs rule: rev_induct)
  case (snoc a xs)
  have d: "0 < length (filter (\<lambda>b. arr_seq a < arr_seq b) xs) \<longleftrightarrow> arr_seq a < Max (set (map arr_seq xs))" if "xs \<noteq> []"
    using that Max_gr_iff[of "set (map arr_seq xs)" "arr_seq a"] by (auto simp: filter_empty_conv)
  have m: "Max (insert (arr_seq a) (arr_seq ` set xs)) = max (Max (arr_seq ` set xs)) (arr_seq a)" if "xs \<noteq> []"
    using that by (simp add: max.commute)
  have f: "filter ((<) (arr_seq a) \<circ> arr_seq) xs = filter (\<lambda>b. arr_seq a < arr_seq b) xs"
    by (simp add: o_def)
  show ?case
  proof (cases "xs = []")
    case True
    then show ?thesis by (simp add: reorder_step_def reorder_spec_def overtaken_by_def)
  next
    case False
    then show ?thesis
      using d[OF False] m[OF False] by (simp add: snoc reorder_step_Some reorder_spec_snoc Let_def f)
  qed
qed (simp add: reorder_spec_def)

lemma compute_reordering_spec: "compute_reordering xs = reorder_spec xs"
  by (simp add: compute_reordering_def reorder_fold)

section \<open>Loss bursts\<close>

definition burst_seqs :: "LossBurst \<Rightarrow> nat list" where
  "burst_seqs b = [start_seq b..<start_seq b + run_length b]"

text \<open>The state after the first \<open>n\<close> sequence numbers.\<close>

definition run_inv :: "nat set \<Rightarrow> nat \<Rightarrow> LossBurst list \<times> nat option \<times> nat \<Rightarrow> bool" where
  "run_inv present n st \<longleftrightarrow>
     (case st of (bs, rs, rl) \<Rightarrow>
        rs = (if rl = 0 then None else Some (n - rl)) \<and> rl \<le> n
        \<and> concat (map burst_seqs bs) @ [n - rl..<n] = filter (\<lambda>i. i \<notin> present) [0..<n]
        \<and> list_all (\<lambda>b. 0 < run_length b \<and> start_seq b + run_length b < n - rl) bs
        \<and> sorted_wrt (\<lambda>a b. start_seq a + run_length a < start_seq b) bs)"

lemma run_inv_step:
  assumes "run_inv present n (bs, rs, rl)"
  shows "run_inv present (Suc n) (run_step t present n (bs, rs, rl))"
proof (cases "n \<in> present")
  case True
  show ?thesis
  proof (cases "rl = 0")
    case True': True
    show ?thesis using assms True True' by (auto simp: run_inv_def run_step_def close_run_def list_all_iff)
  next
    case False
    with assms True show ?thesis
      by (auto simp: run_inv_def run_step_def close_run_def list_all_iff sorted_wrt_append burst_seqs_def)
  qed
next
  case False
  have "[n - rl..<Suc n] = [n - rl..<n] @ [n]" if "rl \<le> n" using that by simp
  then show ?thesis
    using assms False by (auto simp: run_inv_def run_step_def Suc_diff_le list_all_iff)
qed

lemma run_inv_all: "run_inv present n (fold (run_step t present) [0..<n] ([], None, 0))"
proof (induction n)
  case (Suc n)
  obtain bs rs rl where st: "fold (run_step t present) [0..<n] ([], None, 0) = (bs, rs, rl)" by (cases "fold (run_step t present) [0..<n] ([], None, 0)") auto
  from run_inv_step[OF Suc[unfolded st]] show ?case by (simp add: st)
qed (simp add: run_inv_def)

lemma burst_runs_partition:
  "concat (map burst_seqs (burst_runs n present t)) = filter (\<lambda>i. i \<notin> present) [0..<n]"
  "list_all (\<lambda>b. 0 < run_length b) (burst_runs n present t)"
  "sorted_wrt (\<lambda>a b. start_seq a + run_length a < start_seq b) (burst_runs n present t)"
proof -
  obtain bs rs rl where st: "fold (run_step t present) [0..<n] ([], None, 0) = (bs, rs, rl)" by (cases "fold (run_step t present) [0..<n] ([], None, 0)") auto
  from run_inv_all[of present n t] have i: "run_inv present n (bs, rs, rl)" unfolding st .
  show "concat (map burst_seqs (burst_runs n present t)) = filter (\<lambda>i. i \<notin> present) [0..<n]"
    "list_all (\<lambda>b. 0 < run_length b) (burst_runs n present t)"
    "sorted_wrt (\<lambda>a b. start_seq a + run_length a < start_seq b) (burst_runs n present t)"
    using i by (auto simp: burst_runs_def st run_inv_def close_run_def burst_seqs_def list_all_iff sorted_wrt_append split: if_splits)
qed

definition gap_free :: "nat set \<Rightarrow> LossBurst list \<times> nat option \<times> nat \<Rightarrow> bool" where
  "gap_free present st \<longleftrightarrow> (case st of (bs, rs, rl) \<Rightarrow>
     list_all (\<lambda>b. gap_duration_ms b = None) bs \<and> (case rs of None \<Rightarrow> True | Some s \<Rightarrow> s \<notin> present))"

lemma gap_free_close:
  "gap_free present (bs, rs, rl) \<Longrightarrow> (\<And>i. i \<notin> present \<Longrightarrow> t i = None) \<Longrightarrow>
     list_all (\<lambda>b. gap_duration_ms b = None) (close_run t rs rl bs)"
  by (auto simp: gap_free_def close_run_def split: option.splits)

lemma gap_free_all:
  assumes "\<And>i. i \<notin> present \<Longrightarrow> t i = None"
  shows "gap_free present (fold (run_step t present) [0..<n] ([], None, 0))"
proof (induction n)
  case (Suc n)
  obtain bs rs rl where st: "fold (run_step t present) [0..<n] ([], None, 0) = (bs, rs, rl)" by (cases "fold (run_step t present) [0..<n] ([], None, 0)") auto
  have "gap_free present (run_step t present n (bs, rs, rl))"
    using Suc[unfolded st] gap_free_close[OF Suc[unfolded st] assms]
    by (auto simp: run_step_def gap_free_def split: option.splits)
  then show ?case by (simp add: st)
qed (simp add: gap_free_def)

lemma burst_runs_gap:
  assumes "\<And>i. i \<notin> present \<Longrightarrow> t i = None"
  shows "list_all (\<lambda>b. gap_duration_ms b = None) (burst_runs n present t)"
proof -
  obtain bs rs rl where st: "fold (run_step t present) [0..<n] ([], None, 0) = (bs, rs, rl)" by (cases "fold (run_step t present) [0..<n] ([], None, 0)") auto
  show ?thesis using gap_free_close[OF gap_free_all[of present t n, OF assms, unfolded st] assms] by (simp add: burst_runs_def st)
qed

lemma reorder_spec_Nil_iff: "reorder_spec xs = [] \<longleftrightarrow> sorted (map arr_seq xs)"
proof -
  have o: "0 < overtaken_by xs i \<longleftrightarrow> (\<exists>j<i. arr_seq (xs ! i) < arr_seq (xs ! j))" if "i < length xs" for i
  proof -
    have "set (take i xs) = (!) xs ` {0..<i}" using that nth_image[of i xs] by simp
    then have "set (take i xs) = {xs ! j |j. j < i}" by auto
    then show ?thesis by (simp only: overtaken_by_def length_greater_0_conv filter_empty_conv) auto
  qed
  have "reorder_spec xs = [] \<longleftrightarrow> (\<forall>i<length xs. \<forall>j<i. \<not> arr_seq (xs ! i) < arr_seq (xs ! j))"
    using o by (auto simp: reorder_spec_def filter_empty_conv)
  also have "\<dots> \<longleftrightarrow> sorted (map arr_seq xs)"
    by (auto simp: sorted_iff_nth_mono_less not_less)
  finally show ?thesis .
qed

section \<open>Properties\<close>

text \<open>C26: the bursts of a report are exactly the maximal runs of sequence numbers below the number sent that never arrived, in
  order, so the total lost is their count; duplicates are counted apart, and every gap duration is absent because the send
  times are looked up under the numbers that were lost.\<close>

theorem bursts_partition_losses:
  "let r = analyze sample q;
       missing = filter (\<lambda>i. i \<notin> set (map arr_seq (arrivals sample))) [0..<sent_count sample]
   in concat (map burst_seqs (bursts (burst r))) = missing
    \<and> list_all (\<lambda>b. 0 < run_length b) (bursts (burst r))
    \<and> sorted_wrt (\<lambda>a b. start_seq a + run_length a < start_seq b) (bursts (burst r))
    \<and> total_lost (burst r) = length missing
    \<and> burst_count (burst r) = length (bursts (burst r))
    \<and> received_count r + duplicate_count r = length (arrivals sample)
    \<and> list_all (\<lambda>b. gap_duration_ms b = None) (bursts (burst r))"
proof -
  obtain d k where sd: "split_duplicates (arrivals sample) = (d, k)" by (cases "split_duplicates (arrivals sample)") auto
  note sf = split_duplicates_facts[of "arrivals sample", unfolded sd fst_conv snd_conv]
  let ?t = "map_of (rev (map (\<lambda>a. (arr_seq a, sent_at_ms a)) d))"
  let ?bs = "burst_runs (sent_count sample) (set (map arr_seq d)) ?t"
  note p = burst_runs_partition[of "sent_count sample" "set (map arr_seq d)" ?t]
  have len: "sum_list (map run_length ?bs) = length (concat (map burst_seqs ?bs))"
    by (simp add: length_concat burst_seqs_def o_def)
  have g: "list_all (\<lambda>b. gap_duration_ms b = None) ?bs"
    by (rule burst_runs_gap) (auto simp: map_of_eq_None_iff image_image)
  have c: "card (set (map arr_seq d)) + k = length (arrivals sample)"
    using distinct_card[OF sf(2)] sf(3) by simp
  have an: "burst (analyze sample q) = compute_burst_distribution (sent_count sample) (set (map arr_seq d)) ?t"
    "received_count (analyze sample q) = card (set (map arr_seq d))" "duplicate_count (analyze sample q) = k"
    by (simp_all add: analyze_def sd Let_def)
  show ?thesis
    unfolding Let_def an using p len g c sf(1) by (simp add: compute_burst_distribution_def Let_def)
qed

text \<open>The reordering events are exactly the distinct arrivals that a larger sequence number preceded, each with the number of
  those as its depth, whatever was lost; there are none exactly when the arrivals are in order.\<close>

theorem reordering_exact:
  "let d = fst (split_duplicates (arrivals sample)) in
     reordering (analyze sample q) = reorder_spec d
     \<and> (reordering (analyze sample q) = []) = sorted (map arr_seq d)
     \<and> set (map arr_seq d) = set (map arr_seq (arrivals sample)) \<and> distinct (map arr_seq d)"
  using split_duplicates_facts[of "arrivals sample"]
  by (simp add: analyze_def Let_def case_prod_beta compute_reordering_spec reorder_spec_Nil_iff)

text \<open>The loss percentage is the share of the number sent that the bursts count when every arrival carries a number that was
  sent; with more distinct numbers than were sent the difference wraps to a loss beyond 100 percent.\<close>

theorem loss_percent_exact:
  assumes "0 < sent_count sample" "length (arrivals sample) < 2 ^ 64" "sent_count sample < 2 ^ 64"
  shows "let r = analyze sample q; n = sent_count sample in
     loss_percent r = f64_mul (f64_div (f64_of_nat (if received_count r \<le> n then n - received_count r else 2 ^ 64 + n - received_count r))
         (f64_of_nat n)) (Fin 100)
     \<and> (list_all (\<lambda>a. arr_seq a < n) (arrivals sample) \<longrightarrow> n - received_count r = total_lost (burst r) \<and> received_count r \<le> n)"
proof -
  obtain d k where sd: "split_duplicates (arrivals sample) = (d, k)" by (cases "split_duplicates (arrivals sample)") auto
  note sf = split_duplicates_facts[of "arrivals sample", unfolded sd fst_conv snd_conv]
  let ?S = "set (map arr_seq d)"
  let ?n = "sent_count sample"
  have small: "card ?S < 2 ^ 64" using distinct_card[OF sf(2)] sf(3) assms(2) by simp
  have w: "nat ((int ?n - int (card ?S)) mod 2 ^ 64) = (if card ?S \<le> ?n then ?n - card ?S else 2 ^ 64 + ?n - card ?S)"
  proof (cases "card ?S \<le> ?n")
    case True
    then have "(int ?n - int (card ?S)) mod 2 ^ 64 = int ?n - int (card ?S)" using assms(3) by simp
    with True show ?thesis by simp
  next
    case False
    have "(int ?n - int (card ?S)) mod 2 ^ 64 = (int ?n - int (card ?S) + 2 ^ 64) mod 2 ^ 64" by simp
    also have "\<dots> = int ?n - int (card ?S) + 2 ^ 64" using False small by (intro mod_pos_pos_trivial) auto
    finally show ?thesis using False small by simp
  qed
  have an: "received_count (analyze sample q) = card ?S"
    "loss_percent (analyze sample q) = f64_mul (f64_div (f64_of_nat (nat ((int ?n - int (card ?S)) mod 2 ^ 64))) (f64_of_nat ?n)) (Fin 100)"
    "total_lost (burst (analyze sample q)) = length (filter (\<lambda>i. i \<notin> ?S) [0..<?n])"
    using assms(1) arg_cong[OF burst_runs_partition(1)[of ?n ?S "map_of (rev (map (\<lambda>a. (arr_seq a, sent_at_ms a)) d))"], of length]
    by (simp_all add: analyze_def sd Let_def compute_burst_distribution_def length_concat burst_seqs_def o_def)
  have "?n - card ?S = length (filter (\<lambda>i. i \<notin> ?S) [0..<?n]) \<and> card ?S \<le> ?n" if r: "list_all (\<lambda>a. arr_seq a < ?n) (arrivals sample)"
  proof -
    have sub: "?S \<subseteq> {0..<?n}" using r sf(1) by (auto simp: list_all_iff)
    have "length (filter (\<lambda>i. i \<notin> ?S) [0..<?n]) = card (set (filter (\<lambda>i. i \<notin> ?S) [0..<?n]))"
      by (rule distinct_card[symmetric]) simp
    also have "set (filter (\<lambda>i. i \<notin> ?S) [0..<?n]) = {0..<?n} - ?S" by auto
    also have "card \<dots> = ?n - card ?S" using sub card_Diff_subset[of ?S "{0..<?n}"] by simp
    finally show ?thesis using card_mono[OF _ sub] by simp
  qed
  then show ?thesis unfolding Let_def an w by blast
qed

definition demo_sample :: BoundedSample where
  "demo_sample = \<lparr>sent_count = 1, arrivals = [\<lparr>arr_seq = 0, sent_at_ms = Fin 0, received_at_ms = Fin 1\<rparr>,
     \<lparr>arr_seq = 5, sent_at_ms = Fin 1, received_at_ms = Fin 2\<rparr>]\<rparr>"

theorem loss_percent_exact_witness:
  "loss_percent (analyze demo_sample None) = f64_mul (f64_div (f64_of_nat 18446744073709551615) (f64_of_nat 1)) (Fin 100)"
proof -
  have "received_count (analyze demo_sample None) = 2"
    by (simp add: analyze_def demo_sample_def split_duplicates_def dup_step_def Let_def)
  then show ?thesis using loss_percent_exact[of demo_sample None] by (simp add: demo_sample_def Let_def)
qed


end
