(* ===== verification/Replay.thy ===== *)
theory Replay
  imports Bytes F64_Ext
begin

text \<open>
  \<open>fuzzing/replay.rs\<close>: replaying the packets of a capture with rewritten addresses. The capture reader, the system calls and
  the clock are arguments; the rewriting of a frame, the checksum that follows it, the sending loop with its counters and the
  checks of the two senders are definitions. Frames and addresses are lists of bytes.
\<close>

unbundle bit_operations_syntax

section \<open>Options and results\<close>

record ReplayOptions =
  iface :: "string option"
  pps :: "u32 option"
  loop_count :: u32
  rewrite_src_mac :: "bytes option"
  rewrite_dst_mac :: "bytes option"
  rewrite_src_ip :: "bytes option"
  rewrite_dst_ip :: "bytes option"
  preserve_timing :: bool

definition replay_options_default :: ReplayOptions where
  "replay_options_default = \<lparr>iface = None, pps = None, loop_count = 0, rewrite_src_mac = None, rewrite_dst_mac = None,
     rewrite_src_ip = None, rewrite_dst_ip = None, preserve_timing = False\<rparr>"

definition replay_options_new :: ReplayOptions where
  "replay_options_new = replay_options_default\<lparr>loop_count := 1\<rparr>"

definition set_loop_count :: "u32 \<Rightarrow> ReplayOptions \<Rightarrow> ReplayOptions" where
  "set_loop_count n o' = o'\<lparr>loop_count := max n 1\<rparr>"

definition set_rewrite_src_ip :: "bytes \<Rightarrow> ReplayOptions \<Rightarrow> ReplayOptions" where
  "set_rewrite_src_ip ip o' = o'\<lparr>rewrite_src_ip := Some ip\<rparr>"

definition set_rewrite_dst_ip :: "bytes \<Rightarrow> ReplayOptions \<Rightarrow> ReplayOptions" where
  "set_rewrite_dst_ip ip o' = o'\<lparr>rewrite_dst_ip := Some ip\<rparr>"

record ReplayReport =
  packets_sent :: nat
  bytes_sent :: nat
  packets_dropped :: nat
  duration_ms :: nat

definition replay_report_default :: ReplayReport where
  "replay_report_default = \<lparr>packets_sent = 0, bytes_sent = 0, packets_dropped = 0, duration_ms = 0\<rparr>"

datatype ReplayError =
    IoError string | PcapError string | NeedsRoot | InterfaceNotFound string | Unsupported | SendError string | MissingInterface

section \<open>The header checksum\<close>

text \<open>\<open>bytes[at..at + n].copy_from_slice(src)\<close>\<close>

definition overwrite :: "nat \<Rightarrow> 'a list \<Rightarrow> 'a list \<Rightarrow> 'a list" where
  "overwrite k src bs = take k bs @ src @ drop (k + length src) bs"

text \<open>The carry loop ends: above \<open>2 ^ 16\<close> a step makes the sum smaller.\<close>

lemma low16: "unat ((s::u32) AND 0xFFFF) = unat s mod 65536"
proof -
  have "s AND 0xFFFF = take_bit 16 s" by (simp add: take_bit_eq_mask mask_eq_exp_minus_1)
  then have "unat (s AND 0xFFFF) = take_bit 16 (unat s)" by (simp only: unsigned_take_bit_eq)
  then show ?thesis by (simp only: take_bit_eq_mod) simp
qed

lemma high16: "unat (drop_bit 16 (s::u32)) = unat s div 65536"
  unfolding unat_drop_bit_eq by (simp only: drop_bit_eq_div) simp

lemma carry_step: "unat (((s::u32) AND 0xFFFF) + drop_bit 16 s) = unat s mod 65536 + unat s div 65536"
proof -
  have "unat s < 2 ^ LENGTH(32)" by (rule unsigned_less)
  then have "unat s div 65536 < 65536" by simp
  moreover have "unat s mod 65536 < 65536" by simp
  ultimately have "unat (s AND 0xFFFF) + unat (drop_bit 16 s) < 2 ^ LENGTH(32)" unfolding low16 high16 by simp
  then show ?thesis by (simp only: unat_plus_if' low16 high16 if_True)
qed

lemma carry_less:
  assumes "drop_bit 16 (s::u32) \<noteq> 0" shows "unat s mod 65536 + unat s div 65536 < unat s"
proof -
  have "unat s div 65536 \<noteq> 0" using assms high16[of s] by (metis unat_eq_zero)
  then have "1 \<le> unat s div 65536" by linarith
  moreover have "unat s = 65536 * (unat s div 65536) + unat s mod 65536" by simp
  ultimately show ?thesis by linarith
qed

lemma ucast32: "unat (ucast (a::u8) :: u32) = unat a"
proof -
  have "unat a < 2 ^ LENGTH(8)" by (rule unsigned_less)
  then have "unat a < 2 ^ LENGTH(32)" by simp
  then show ?thesis by (simp only: unsigned_ucast_eq take_bit_nat_eq_self)
qed

lemma word16: "unat ((push_bit 8 (ucast (a::u8)) :: u32) OR ucast b) = 256 * unat a + unat (b::u8)"
proof -
  have "(push_bit 8 (ucast a) :: u32) OR ucast b = push_bit 8 (ucast a) + ucast b"
    by (rule disjunctive_add[symmetric]) (auto simp: bit_simps dest: bit_imp_le_length)
  moreover have "unat a < 2 ^ LENGTH(8)" "unat b < 2 ^ LENGTH(8)" by (rule unsigned_less)+
  moreover have "unat (push_bit 8 (ucast a) :: u32) = 256 * unat a"
  proof -
        have "unat (push_bit 8 (ucast a) :: u32) = (256 * unat a) mod 2 ^ 32"
      by (simp only: push_bit_eq_mult unat_word_ariths ucast32) (simp add: mult.commute)
    then show ?thesis using calculation(2) by simp
  qed
  moreover have "unat (ucast b :: u32) = unat b" by (rule ucast32)
  ultimately show ?thesis by (simp add: unat_plus_if')
qed

function fold_carries :: "u32 \<Rightarrow> u32" where
  "fold_carries s = (if drop_bit 16 s \<noteq> 0 then fold_carries ((s AND 0xFFFF) + drop_bit 16 s) else s)"
  by pat_completeness auto
termination
  by (relation "measure unat") (auto simp only: in_measure wf_measure carry_step intro: carry_less)

declare fold_carries.simps [simp del]

definition header_sum :: "bytes \<Rightarrow> nat \<Rightarrow> u32" where
  "header_sum hdr ihl = fold (\<lambda>k sum. sum + (push_bit 8 (ucast (hdr ! (2 * k))) OR ucast (hdr ! (2 * k + 1)))) [0..<ihl div 2] 0"

definition header_length :: "bytes \<Rightarrow> nat" where
  "header_length ip = unat (ip ! 0 AND 0x0F) * 4"

definition recompute_ipv4_checksum :: "bytes \<Rightarrow> bytes" where
  "recompute_ipv4_checksum ip_bytes =
     (if length ip_bytes < 20 then ip_bytes
      else
        let ihl = header_length ip_bytes in
        if length ip_bytes < ihl then ip_bytes
        else
          let z = ip_bytes[10 := 0, 11 := 0];
              cs = (NOT (ucast (fold_carries (header_sum z ihl))) :: u16)
          in z[10 := ucast (drop_bit 8 cs), 11 := ucast (cs AND 0xFF)])"

section \<open>Rewriting a frame\<close>

definition apply_rewrites :: "ReplayOptions \<Rightarrow> bytes \<Rightarrow> bytes" where
  "apply_rewrites opts bs =
     (if length bs < 14 then bs
      else
        let bs = (case rewrite_dst_mac opts of Some mac \<Rightarrow> overwrite 0 mac bs | None \<Rightarrow> bs);
            bs = (case rewrite_src_mac opts of Some mac \<Rightarrow> overwrite 6 mac bs | None \<Rightarrow> bs)
        in if of_be16 (bs ! 12) (bs ! 13) \<noteq> 0x0800 then bs
           else if length bs < 34 then bs
           else
             let bs = (case rewrite_src_ip opts of Some ip \<Rightarrow> overwrite 26 ip bs | None \<Rightarrow> bs);
                 bs = (case rewrite_dst_ip opts of Some ip \<Rightarrow> overwrite 30 ip bs | None \<Rightarrow> bs)
             in if rewrite_src_ip opts \<noteq> None \<or> rewrite_dst_ip opts \<noteq> None
                then take 14 bs @ recompute_ipv4_checksum (drop 14 bs) else bs)"

section \<open>Senders\<close>

text \<open>The sends are numbered, as a sender may answer each call differently.\<close>

type_synonym sender = "nat \<Rightarrow> bytes \<Rightarrow> ReplayError + nat"

text \<open>What the system calls of the Linux sender return: the socket, or its error and whether it is \<open>EPERM\<close>; the interface
  index; the result of binding; and what each \<open>send\<close> on the socket returns.\<close>

record LinuxObs =
  lo_socket :: "(string \<times> bool) + int"
  lo_ifindex :: "string \<Rightarrow> int"
  lo_bind :: "string + unit"
  lo_send :: "int \<Rightarrow> nat \<Rightarrow> bytes \<Rightarrow> string + nat"

text \<open>\<open>CString::new(iface).unwrap()\<close> panics on a name that contains a zero byte; it is reached once the socket is open.\<close>

definition build_sender_linux :: "LinuxObs \<Rightarrow> ReplayOptions \<Rightarrow> (ReplayError + int) panics" where
  "build_sender_linux ob opts =
     (case iface opts of None \<Rightarrow> Ret (Inl MissingInterface)
      | Some i \<Rightarrow>
      case lo_socket ob of Inl (e, eperm) \<Rightarrow> Ret (Inl (if eperm then NeedsRoot else IoError e))
      | Inr fd \<Rightarrow>
      if CHR 0x00 \<in> set i then Panic
      else if lo_ifindex ob i = 0 then Ret (Inl (InterfaceNotFound i))
      else (case lo_bind ob of Inl e \<Rightarrow> Ret (Inl (IoError e)) | Inr _ \<Rightarrow> Ret (Inr fd)))"

definition linux_send :: "(nat \<Rightarrow> bytes \<Rightarrow> string + nat) \<Rightarrow> sender" where
  "linux_send sys_send k frame = (case sys_send k frame of Inl e \<Rightarrow> Inl (SendError e) | Inr n \<Rightarrow> Inr n)"

record BsdObs =
  bo_socket :: "(string \<times> bool) + int"
  bo_setsockopt :: "string + unit"
  bo_sendto :: "int \<Rightarrow> nat \<Rightarrow> bytes \<Rightarrow> bytes \<Rightarrow> string + nat"

definition build_sender_bsd :: "BsdObs \<Rightarrow> ReplayError + int" where
  "build_sender_bsd ob =
     (case bo_socket ob of Inl (e, eperm) \<Rightarrow> Inl (if eperm then NeedsRoot else IoError e)
      | Inr fd \<Rightarrow> (case bo_setsockopt ob of Inl e \<Rightarrow> Inl (IoError e) | Inr _ \<Rightarrow> Inr fd))"

text \<open>The BSD sender hands the datagram after the Ethernet header to \<open>sendto\<close>, addressed to its destination.\<close>

definition bsd_send :: "(bytes \<Rightarrow> bytes \<Rightarrow> string + nat) \<Rightarrow> bytes \<Rightarrow> ReplayError + nat" where
  "bsd_send sendto frame =
     (if length frame < 14 then Inl (SendError ''frame too short'')
      else if of_be16 (frame ! 12) (frame ! 13) \<noteq> 0x0800 then Inl (SendError ''BSD raw send only supports IPv4 frames'')
      else
        let ip = drop 14 frame in
        if length ip < 20 then Inl (SendError ''ip header too short'')
        else (case sendto (take 4 (drop 16 ip)) ip of Inl e \<Rightarrow> Inl (SendError e) | Inr n \<Rightarrow> Inr n))"

text \<open>The three versions of \<open>build_sender\<close>, one per target.\<close>

datatype ReplayTarget = LinuxTarget LinuxObs | BsdTarget BsdObs | OtherTarget

definition build_sender :: "ReplayTarget \<Rightarrow> ReplayOptions \<Rightarrow> (ReplayError + sender) panics" where
  "build_sender target opts =
     (case target of
        LinuxTarget ob \<Rightarrow>
          (case build_sender_linux ob opts of
             Panic \<Rightarrow> Panic
           | Ret (Inl e) \<Rightarrow> Ret (Inl e)
           | Ret (Inr fd) \<Rightarrow> Ret (Inr (linux_send (lo_send ob fd))))
      | BsdTarget ob \<Rightarrow>
          (case build_sender_bsd ob of
             Inl e \<Rightarrow> Ret (Inl e)
           | Inr fd \<Rightarrow> Ret (Inr (\<lambda>k. bsd_send (bo_sendto ob fd k))))
      | OtherTarget \<Rightarrow> Ret (Inl Unsupported))"

section \<open>Replaying a file\<close>

fun replay_loop :: "ReplayOptions \<Rightarrow> sender \<Rightarrow> nat \<Rightarrow> bytes list \<Rightarrow> ReplayReport \<Rightarrow> ReplayReport" where
  "replay_loop opts send k [] report = report"
| "replay_loop opts send k (d # ds) report =
     replay_loop opts send (Suc k) ds
       (case send k (apply_rewrites opts d) of
          Inr n \<Rightarrow> report\<lparr>packets_sent := packets_sent report + 1, bytes_sent := bytes_sent report + n\<rparr>
        | Inl _ \<Rightarrow> report\<lparr>packets_dropped := packets_dropped report + 1\<rparr>)"

fun read_packets :: "(string + nat \<times> bytes) list \<Rightarrow> bytes list \<Rightarrow> ReplayError + bytes list" where
  "read_packets [] acc = Inr acc"
| "read_packets (Inl e # _) acc = Inl (PcapError e)"
| "read_packets (Inr (_, d) # rest) acc = read_packets rest (acc @ [d])"

text \<open>\<open>Duration::from_secs_f64\<close> panics on a value that is not finite.\<close>

definition pacing_interval :: "u32 option \<Rightarrow> f64 panics" where
  "pacing_interval p =
     (case p of None \<Rightarrow> Ret (Fin 0)
      | Some r \<Rightarrow> let secs = f64_div (Fin 1) (f64_of_nat (unat r)) in if f64_is_finite secs then Ret secs else Panic)"

text \<open>\<open>replay_pcap\<close>, first what follows the reading of the file.\<close>

definition replay_packets :: "ReplayTarget \<Rightarrow> bytes list \<Rightarrow> nat \<Rightarrow> ReplayOptions \<Rightarrow> (ReplayError + ReplayReport) panics" where
  "replay_packets target packets elapsed_ms opts =
     (if packets = [] then Ret (Inr (replay_report_default\<lparr>duration_ms := elapsed_ms\<rparr>))
      else
        case build_sender target opts of Panic \<Rightarrow> Panic
        | Ret (Inl e) \<Rightarrow> Ret (Inl e)
        | Ret (Inr send) \<Rightarrow>
        case pacing_interval (pps opts) of Panic \<Rightarrow> Panic
        | Ret _ \<Rightarrow>
          Ret (Inr ((replay_loop opts send 0 (concat (replicate (unat (loop_count opts)) packets)) replay_report_default)
            \<lparr>duration_ms := elapsed_ms\<rparr>)))"

definition replay_pcap ::
    "ReplayTarget \<Rightarrow> string + bytes \<Rightarrow> (bytes \<Rightarrow> string + (string + nat \<times> bytes) list) \<Rightarrow> nat
       \<Rightarrow> ReplayOptions \<Rightarrow> (ReplayError + ReplayReport) panics" where
  "replay_pcap target contents pcap_reader elapsed_ms opts =
     (case contents of Inl e \<Rightarrow> Ret (Inl (IoError e))
      | Inr raw_file \<Rightarrow>
      case pcap_reader raw_file of Inl e \<Rightarrow> Ret (Inl (PcapError e))
      | Inr records \<Rightarrow>
      case read_packets records [] of Inl e \<Rightarrow> Ret (Inl e)
      | Inr packets \<Rightarrow> replay_packets target packets elapsed_ms opts)"

section \<open>The carry loop\<close>

lemma fold_carries_facts:
  "unat (fold_carries s) mod 65535 = unat s mod 65535 \<and> unat (fold_carries s) < 65536 \<and> (s \<noteq> 0 \<longrightarrow> fold_carries s \<noteq> 0)"
proof (induction s rule: fold_carries.induct)
  case (1 s)
  show ?case
  proof (cases "drop_bit 16 s \<noteq> 0")
    case True
    let ?t = "(s AND 0xFFFF) + drop_bit 16 s"
    have m: "unat ?t mod 65535 = unat s mod 65535"
    proof -
      have "unat s = 65535 * (unat s div 65536) + (unat s mod 65536 + unat s div 65536)" 
        using mult_div_mod_eq[of 65536 "unat s"] by linarith
      then show ?thesis unfolding carry_step by (metis mod_mult_self4)
    qed
    have "0 < unat s div 65536" using True high16[of s] by (metis gr0I unat_eq_zero)
    then have "0 < unat ?t" unfolding carry_step by simp
    then have "?t \<noteq> 0" by auto
    then show ?thesis using "1"[OF True] m True by (subst (1 2 3) fold_carries.simps) simp
  next
    case False
    then have "unat s div 65536 = 0" using high16[of s] by simp
    then have "unat s < 65536" by (simp add: div_eq_0_iff)
    then show ?thesis using False by (subst (1 2 3) fold_carries.simps) simp
  qed
qed

lemma fold_carries_ones:
  assumes "unat s mod 65535 = 0" "s \<noteq> 0"
  shows "fold_carries s = 0xFFFF"
proof -
  have f: "unat (fold_carries s) mod 65535 = 0" "unat (fold_carries s) < 65536" "0 < unat (fold_carries s)"
    using fold_carries_facts[of s] assms by (auto simp: unat_gt_0)
  then obtain k where k: "unat (fold_carries s) = 65535 * k" by (metis dvdE mod_eq_0_iff_dvd)
  with f have "0 < k" "k < 2" by simp_all
  then have "unat (fold_carries s) = 65535" using k by simp
  then have "unat (fold_carries s) = unat (0xFFFF :: u32)" by simp
  then show ?thesis by (simp only: word_unat_eq_iff)
qed

section \<open>The sum of a header\<close>

definition words_sum :: "bytes \<Rightarrow> nat \<Rightarrow> nat" where
  "words_sum hdr n = (\<Sum>k<n. 256 * unat (hdr ! (2 * k)) + unat (hdr ! (2 * k + 1)))"

lemma byte_less: "unat (b :: u8) < 256"
  using unsigned_less[of b] by simp

lemma words_sum_bound: "words_sum hdr n \<le> 65535 * n"
proof (induction n)
  case (Suc n)
  have "256 * unat (hdr ! (2 * n)) + unat (hdr ! (2 * n + 1)) \<le> 65535"
    using byte_less[of "hdr ! (2 * n)"] byte_less[of "hdr ! (2 * n + 1)"] by linarith
  with Suc show ?case by (simp add: words_sum_def)
qed (simp add: words_sum_def)

lemma header_sum_words: "n \<le> 30 \<Longrightarrow> unat (header_sum hdr (2 * n)) = words_sum hdr n"
proof (induction n)
  case (Suc n)
  let ?w = "push_bit 8 (ucast (hdr ! (2 * n))) OR ucast (hdr ! (2 * n + 1)) :: u32"
  have s: "header_sum hdr (2 * Suc n) = header_sum hdr (2 * n) + ?w" by (simp add: header_sum_def)
  have "unat (header_sum hdr (2 * n)) + unat ?w = words_sum hdr (Suc n)"
    using Suc by (simp only: word16) (simp add: words_sum_def)
  moreover have "words_sum hdr (Suc n) < 2 ^ LENGTH(32)" using words_sum_bound[of hdr "Suc n"] Suc.prems by simp
  ultimately show ?case unfolding s by (simp only: unat_plus_if' if_True)
qed (simp add: header_sum_def words_sum_def)

lemma words_sum_split:
  assumes "5 < n" "12 \<le> length hdr"
  shows "words_sum (hdr[10 := a, 11 := b]) n = words_sum (hdr[10 := 0, 11 := 0]) n + (256 * unat a + unat b)"
proof -
  let ?f = "\<lambda>h k. 256 * unat (h ! (2 * k)) + unat (h ! (2 * k + 1) :: u8)"
  have o: "?f (hdr[10 := a, 11 := b]) k = ?f (hdr[10 := 0, 11 := 0]) k" if "k \<noteq> 5" for k
  proof -
    have "2 * k \<noteq> 10" "2 * k \<noteq> 11" "2 * k + 1 \<noteq> 10" "2 * k + 1 \<noteq> 11" using that by presburger+
    then show ?thesis by (simp add: nth_list_update_neq)
  qed
  have five: "{..<n} = insert 5 ({..<n} - {5})" using assms(1) by auto
  have "(\<Sum>k\<in>{..<n} - {5}. ?f (hdr[10 := a, 11 := b]) k) = (\<Sum>k\<in>{..<n} - {5}. ?f (hdr[10 := 0, 11 := 0]) k)"
    by (rule sum.cong) (auto simp: o)
  moreover have "?f (hdr[10 := a, 11 := b]) 5 = 256 * unat a + unat b" "?f (hdr[10 := 0, 11 := 0]) 5 = 0"
    using assms(2) by simp_all
  ultimately show ?thesis
    unfolding words_sum_def by (subst (1 2) five) (simp add: sum.insert_remove)
qed

lemma checksum_bytes:
  fixes cs :: u16
  shows "256 * unat (ucast (drop_bit 8 cs) :: u8) + unat (ucast (cs AND 0xFF) :: u8) = unat cs"
proof -
  have l: "unat cs < 65536" using unsigned_less[of cs] by simp
  have "unat (drop_bit 8 cs) = unat cs div 256" unfolding unat_drop_bit_eq by (simp only: drop_bit_eq_div) simp
  then have a: "unat (ucast (drop_bit 8 cs) :: u8) = unat cs div 256"
    unfolding unsigned_ucast_eq using l by (simp add: take_bit_eq_mod)
  have "cs AND 0xFF = take_bit 8 cs" by (simp add: take_bit_eq_mask mask_eq_exp_minus_1)
  then have "unat (cs AND 0xFF) = take_bit 8 (unat cs)" by (simp only: unsigned_take_bit_eq)
  then have "unat (cs AND 0xFF) = unat cs mod 256" by (simp only: take_bit_eq_mod) simp
  then have b: "unat (ucast (cs AND 0xFF) :: u8) = unat cs mod 256"
    unfolding unsigned_ucast_eq by (simp add: take_bit_eq_mod)
  show ?thesis unfolding a b by simp
qed

lemma unat_not16: "unat (NOT (w :: u16)) = 65535 - unat w"
proof -
  have "unat w < 65536" using unsigned_less[of w] by simp
  have "w + NOT w = - 1" by (simp add: not_eq_complement)
  then have "NOT w = - 1 - w" by (simp add: algebra_simps)
  moreover have "w \<le> - 1" by simp
  ultimately have "unat (NOT w) = unat (- 1 :: u16) - unat w" by (simp add: unat_sub)
  then show ?thesis by (simp add: unsigned_minus_1_eq_mask mask_eq_exp_minus_1)
qed

lemma update_twice: "i \<noteq> j \<Longrightarrow> xs[i := x, j := y, i := a, j := b] = xs[i := a, j := b]"
  by (metis list_update_overwrite list_update_swap)

lemma header_length_bounds: "header_length ip \<le> 60" "\<exists>n. header_length ip = 2 * n \<and> n \<le> 30"
proof -
  have "ip ! 0 AND 0x0F = take_bit 4 (ip ! 0)" by (simp add: take_bit_eq_mask mask_eq_exp_minus_1)
  then have "unat (ip ! 0 AND 0x0F) = take_bit 4 (unat (ip ! 0))" by (simp only: unsigned_take_bit_eq)
  then have "unat (ip ! 0 AND 0x0F) = unat (ip ! 0) mod 16" by (simp only: take_bit_eq_mod) simp
  then have l: "unat (ip ! 0 AND 0x0F) < 16" by simp
  then show "header_length ip \<le> 60" unfolding header_length_def by linarith
  show "\<exists>n. header_length ip = 2 * n \<and> n \<le> 30"
    using l by (intro exI[of _ "2 * unat (ip ! 0 AND 0x0F)"]) (simp add: header_length_def)
qed

lemma length_recompute [simp]: "length (recompute_ipv4_checksum ip) = length ip"
  by (simp add: recompute_ipv4_checksum_def Let_def)

lemma recompute_other: "i \<noteq> 10 \<Longrightarrow> i \<noteq> 11 \<Longrightarrow> recompute_ipv4_checksum ip ! i = ip ! i"
  by (simp add: recompute_ipv4_checksum_def Let_def)

lemma recompute_header_length [simp]: "header_length (recompute_ipv4_checksum ip) = header_length ip"
  by (simp add: header_length_def recompute_other)

lemma recompute_verifies:
  assumes "20 \<le> header_length ip" "header_length ip \<le> length ip"
  shows "fold_carries (header_sum (recompute_ipv4_checksum ip) (header_length ip)) = 0xFFFF"
proof -
  obtain n where n: "header_length ip = 2 * n" "n \<le> 30" using header_length_bounds(2) by blast
  have n5: "5 < n" using assms(1) n(1) by simp
  let ?z = "ip[10 := 0, 11 := 0]"
  define F where "F = fold_carries (header_sum ?z (2 * n))"
  define cs where "cs = (NOT (ucast F) :: u16)"
  have F: "unat F mod 65535 = words_sum ?z n mod 65535" "unat F < 65536"
    using fold_carries_facts[of "header_sum ?z (2 * n)"] header_sum_words[OF n(2)] by (simp_all add: F_def)
  have uF: "unat (ucast F :: u16) = unat F" unfolding unsigned_ucast_eq using F(2) by (simp add: take_bit_eq_mod)
  have r: "recompute_ipv4_checksum ip = ip[10 := ucast (drop_bit 8 cs), 11 := ucast (cs AND 0xFF)]"
    using assms n by (simp add: recompute_ipv4_checksum_def Let_def cs_def F_def update_twice)
  have len: "12 \<le> length ip" using assms by linarith
  have "unat (header_sum (recompute_ipv4_checksum ip) (2 * n)) = words_sum ?z n + unat cs"
    using header_sum_words[OF n(2), of "recompute_ipv4_checksum ip"]
      words_sum_split[OF n5 len, of "ucast (drop_bit 8 cs)" "ucast (cs AND 0xFF)"] checksum_bytes[of cs] r by simp
  moreover have "unat cs = 65535 - unat F" by (simp add: cs_def unat_not16 uF)
  ultimately have t: "unat (header_sum (recompute_ipv4_checksum ip) (2 * n)) = words_sum ?z n + (65535 - unat F)" by simp
  have "(words_sum ?z n + (65535 - unat F)) mod 65535 = 0"
  proof -
    have "(words_sum ?z n + (65535 - unat F)) mod 65535 = (unat F + (65535 - unat F)) mod 65535"
      using F(1) by (metis mod_add_left_eq)
    then show ?thesis using F(2) by simp
  qed
  moreover have "words_sum ?z n + (65535 - unat F) \<noteq> 0"
  proof
    assume "words_sum ?z n + (65535 - unat F) = 0"
    then have "words_sum ?z n = 0" "65535 \<le> unat F" by simp_all
    then have "header_sum ?z (2 * n) = 0" using header_sum_words[OF n(2), of ?z] by (metis unat_eq_zero)
    then have "F = 0" by (simp add: F_def fold_carries.simps[of 0])
    then show False using \<open>65535 \<le> unat F\<close> by simp
  qed
  ultimately show ?thesis unfolding n(1)
    using t by (intro fold_carries_ones) (simp only:, metis unat_0)
qed

section \<open>Frames\<close>

lemma length_overwrite [simp]: "k + length src \<le> length bs \<Longrightarrow> length (overwrite k src bs) = length bs"
  by (simp add: overwrite_def)

lemma nth_overwrite:
  "k + length src \<le> length bs \<Longrightarrow> i < length bs \<Longrightarrow>
     overwrite k src bs ! i = (if k \<le> i \<and> i < k + length src then src ! (i - k) else bs ! i)"
  by (auto simp: overwrite_def nth_append)

text \<open>Options as the types of the code allow them: a MAC address has six bytes, an IPv4 address four.\<close>

definition wf_options :: "ReplayOptions \<Rightarrow> bool" where
  "wf_options opts \<longleftrightarrow> list_all (\<lambda>m. length m = 6) (filter_map id [rewrite_src_mac opts, rewrite_dst_mac opts])
     \<and> list_all (\<lambda>a. length a = 4) (filter_map id [rewrite_src_ip opts, rewrite_dst_ip opts])"

definition opt_at :: "nat \<Rightarrow> bytes option \<Rightarrow> bytes \<Rightarrow> bytes" where
  "opt_at k src bs = (case src of Some x \<Rightarrow> overwrite k x bs | None \<Rightarrow> bs)"

lemma length_opt_at [simp]:
  "(\<And>x. src = Some x \<Longrightarrow> k + length x \<le> length bs) \<Longrightarrow> length (opt_at k src bs) = length bs"
  by (simp add: opt_at_def split: option.split)

lemma nth_opt_at:
  "(\<And>x. src = Some x \<Longrightarrow> length x = n) \<Longrightarrow> k + n \<le> length bs \<Longrightarrow> i < length bs \<Longrightarrow>
     opt_at k src bs ! i = (case src of Some x \<Rightarrow> if k \<le> i \<and> i < k + n then x ! (i - k) else bs ! i | None \<Rightarrow> bs ! i)"
  by (simp add: opt_at_def nth_overwrite split: option.split)

definition macs_rewritten :: "ReplayOptions \<Rightarrow> bytes \<Rightarrow> bytes" where
  "macs_rewritten opts bs = opt_at 6 (rewrite_src_mac opts) (opt_at 0 (rewrite_dst_mac opts) bs)"

definition ips_rewritten :: "ReplayOptions \<Rightarrow> bytes \<Rightarrow> bytes" where
  "ips_rewritten opts bs = opt_at 30 (rewrite_dst_ip opts) (opt_at 26 (rewrite_src_ip opts) bs)"

lemma apply_rewrites_eq:
  "apply_rewrites opts bs =
     (if length bs < 14 then bs
      else if of_be16 (macs_rewritten opts bs ! 12) (macs_rewritten opts bs ! 13) \<noteq> 0x0800 \<or> length (macs_rewritten opts bs) < 34
        then macs_rewritten opts bs
      else if rewrite_src_ip opts \<noteq> None \<or> rewrite_dst_ip opts \<noteq> None
        then take 14 (ips_rewritten opts (macs_rewritten opts bs))
             @ recompute_ipv4_checksum (drop 14 (ips_rewritten opts (macs_rewritten opts bs)))
      else macs_rewritten opts bs)"
  by (simp add: apply_rewrites_def Let_def macs_rewritten_def ips_rewritten_def opt_at_def split: option.split)

lemma macs_rewritten_facts:
  assumes "wf_options opts" "14 \<le> length bs"
  shows "length (macs_rewritten opts bs) = length bs"
    and "i < length bs \<Longrightarrow> macs_rewritten opts bs ! i =
      (if i < 6 then (case rewrite_dst_mac opts of Some m \<Rightarrow> m ! i | None \<Rightarrow> bs ! i)
       else if i < 12 then (case rewrite_src_mac opts of Some m \<Rightarrow> m ! (i - 6) | None \<Rightarrow> bs ! i) else bs ! i)"
proof -
  have l: "rewrite_src_mac opts = Some x \<Longrightarrow> length x = 6" "rewrite_dst_mac opts = Some x \<Longrightarrow> length x = 6" for x
    using assms(1) by (auto simp: wf_options_def list_all_iff split: option.splits)
  have d: "length (opt_at 0 (rewrite_dst_mac opts) bs) = length bs" using assms(2) l by (auto intro!: length_opt_at)
  show "length (macs_rewritten opts bs) = length bs"
    unfolding macs_rewritten_def using assms(2) l d by (subst length_opt_at) auto
  show "macs_rewritten opts bs ! i =
      (if i < 6 then (case rewrite_dst_mac opts of Some m \<Rightarrow> m ! i | None \<Rightarrow> bs ! i)
       else if i < 12 then (case rewrite_src_mac opts of Some m \<Rightarrow> m ! (i - 6) | None \<Rightarrow> bs ! i) else bs ! i)" if i: "i < length bs"
  proof -
    have 1: "opt_at 0 (rewrite_dst_mac opts) bs ! i = (case rewrite_dst_mac opts of Some x \<Rightarrow> if 0 \<le> i \<and> i < 0 + 6 then x ! (i - 0) else bs ! i | None \<Rightarrow> bs ! i)"
      by (rule nth_opt_at) (use assms(2) i l in auto)
    have 2: "macs_rewritten opts bs ! i = (case rewrite_src_mac opts of
          Some x \<Rightarrow> if 6 \<le> i \<and> i < 6 + 6 then x ! (i - 6) else opt_at 0 (rewrite_dst_mac opts) bs ! i
        | None \<Rightarrow> opt_at 0 (rewrite_dst_mac opts) bs ! i)"
      unfolding macs_rewritten_def by (rule nth_opt_at) (use assms(2) i l d in auto)
    show ?thesis unfolding 2 1 by (auto split: option.split)
  qed
qed

lemma ips_rewritten_facts:
  assumes "wf_options opts" "34 \<le> length bs"
  shows "length (ips_rewritten opts bs) = length bs"
    and "i < length bs \<Longrightarrow> ips_rewritten opts bs ! i =
      (if 26 \<le> i \<and> i < 30 then (case rewrite_src_ip opts of Some m \<Rightarrow> m ! (i - 26) | None \<Rightarrow> bs ! i)
       else if 30 \<le> i \<and> i < 34 then (case rewrite_dst_ip opts of Some m \<Rightarrow> m ! (i - 30) | None \<Rightarrow> bs ! i) else bs ! i)"
proof -
  have l: "rewrite_src_ip opts = Some x \<Longrightarrow> length x = 4" "rewrite_dst_ip opts = Some x \<Longrightarrow> length x = 4" for x
    using assms(1) by (auto simp: wf_options_def list_all_iff split: option.splits)
  have d: "length (opt_at 26 (rewrite_src_ip opts) bs) = length bs" using assms(2) l by (auto intro!: length_opt_at)
  show "length (ips_rewritten opts bs) = length bs"
    unfolding ips_rewritten_def using assms(2) l d by (subst length_opt_at) auto
  show "ips_rewritten opts bs ! i =
      (if 26 \<le> i \<and> i < 30 then (case rewrite_src_ip opts of Some m \<Rightarrow> m ! (i - 26) | None \<Rightarrow> bs ! i)
       else if 30 \<le> i \<and> i < 34 then (case rewrite_dst_ip opts of Some m \<Rightarrow> m ! (i - 30) | None \<Rightarrow> bs ! i) else bs ! i)" if i: "i < length bs"
  proof -
    have 1: "opt_at 26 (rewrite_src_ip opts) bs ! i = (case rewrite_src_ip opts of Some x \<Rightarrow> if 26 \<le> i \<and> i < 26 + 4 then x ! (i - 26) else bs ! i | None \<Rightarrow> bs ! i)"
      by (rule nth_opt_at) (use assms(2) i l in auto)
    have 2: "ips_rewritten opts bs ! i = (case rewrite_dst_ip opts of
          Some x \<Rightarrow> if 30 \<le> i \<and> i < 30 + 4 then x ! (i - 30) else opt_at 26 (rewrite_src_ip opts) bs ! i
        | None \<Rightarrow> opt_at 26 (rewrite_src_ip opts) bs ! i)"
      unfolding ips_rewritten_def by (rule nth_opt_at) (use assms(2) i l d in auto)
    show ?thesis unfolding 2 1 by (auto split: option.split)
  qed
qed

lemma nth_checksummed:
  "i < length bs \<Longrightarrow> i \<noteq> 24 \<Longrightarrow> i \<noteq> 25 \<Longrightarrow> (take 14 bs @ recompute_ipv4_checksum (drop 14 bs)) ! i = bs ! i"
  by (auto simp: nth_append recompute_other)

section \<open>Properties\<close>

text \<open>C27: rewriting the addresses of an IPv4 frame puts the wanted addresses in their places, changes no other byte than those and
  the header checksum, so nothing after the first 34 bytes, and leaves a header whose checksum verifies: its words, the
  checksum among them, fold to ones.\<close>

theorem rewrite_verifies:
  assumes "wf_options opts" "34 \<le> length frame" "of_be16 (frame ! 12) (frame ! 13) = 0x0800"
    and "20 \<le> header_length (drop 14 frame)" "header_length (drop 14 frame) \<le> length (drop 14 frame)"
    and "rewrite_src_ip opts \<noteq> None \<or> rewrite_dst_ip opts \<noteq> None"
  shows "length (apply_rewrites opts frame) = length frame
    \<and> fold_carries (header_sum (drop 14 (apply_rewrites opts frame)) (header_length (drop 14 (apply_rewrites opts frame)))) = 0xFFFF
    \<and> list_all (\<lambda>i. i = 24 \<or> i = 25 \<or> apply_rewrites opts frame ! i =
        (if i < 6 then (case rewrite_dst_mac opts of Some m \<Rightarrow> m ! i | None \<Rightarrow> frame ! i)
         else if i < 12 then (case rewrite_src_mac opts of Some m \<Rightarrow> m ! (i - 6) | None \<Rightarrow> frame ! i)
         else if 26 \<le> i \<and> i < 30 then (case rewrite_src_ip opts of Some a \<Rightarrow> a ! (i - 26) | None \<Rightarrow> frame ! i)
         else if 30 \<le> i \<and> i < 34 then (case rewrite_dst_ip opts of Some a \<Rightarrow> a ! (i - 30) | None \<Rightarrow> frame ! i)
         else frame ! i)) [0..<length frame]"
proof -
  define m where "m = macs_rewritten opts frame"
  define b where "b = ips_rewritten opts m"
  have 14: "14 \<le> length frame" using assms(2) by simp
  have lm: "length m = length frame" using macs_rewritten_facts(1)[OF assms(1) 14] by (simp add: m_def)
  have m34: "34 \<le> length m" using lm assms(2) by simp
  have lb: "length b = length frame" using ips_rewritten_facts(1)[OF assms(1) m34] lm by (simp add: b_def)
  note nm = macs_rewritten_facts(2)[OF assms(1) 14, folded m_def]
  note nb = ips_rewritten_facts(2)[OF assms(1) m34, folded b_def, unfolded lm]
  have e: "of_be16 (m ! 12) (m ! 13) = 0x0800" using nm[of 12] nm[of 13] assms(2,3) by simp
  have a: "apply_rewrites opts frame = take 14 b @ recompute_ipv4_checksum (drop 14 b)"
    using assms(2,6) e lm by (simp add: apply_rewrites_eq m_def[symmetric] b_def[symmetric])
  have h0: "b ! 14 = frame ! 14" using nb[of 14] nm[of 14] assms(2) by simp
  have h: "header_length (drop 14 b) = header_length (drop 14 frame)"
    using h0 assms(2) lb by (simp add: header_length_def)
  have d: "drop 14 (apply_rewrites opts frame) = recompute_ipv4_checksum (drop 14 b)"
    unfolding a using lb assms(2) by simp
  have v: "fold_carries (header_sum (recompute_ipv4_checksum (drop 14 b)) (header_length (drop 14 b))) = 0xFFFF"
    by (rule recompute_verifies) (use assms(4,5) h lb in simp_all)
  have n: "apply_rewrites opts frame ! i =
        (if i < 6 then (case rewrite_dst_mac opts of Some m \<Rightarrow> m ! i | None \<Rightarrow> frame ! i)
         else if i < 12 then (case rewrite_src_mac opts of Some m \<Rightarrow> m ! (i - 6) | None \<Rightarrow> frame ! i)
         else if 26 \<le> i \<and> i < 30 then (case rewrite_src_ip opts of Some a \<Rightarrow> a ! (i - 26) | None \<Rightarrow> frame ! i)
         else if 30 \<le> i \<and> i < 34 then (case rewrite_dst_ip opts of Some a \<Rightarrow> a ! (i - 30) | None \<Rightarrow> frame ! i)
         else frame ! i)" if "i < length frame" "i \<noteq> 24" "i \<noteq> 25" for i
    unfolding a using nth_checksummed[of i b] nb[of i] nm[of i] that lb by (simp split: option.split)
  have n': "i = 24 \<or> i = 25 \<or> apply_rewrites opts frame ! i =
        (if i < 6 then (case rewrite_dst_mac opts of Some m \<Rightarrow> m ! i | None \<Rightarrow> frame ! i)
         else if i < 12 then (case rewrite_src_mac opts of Some m \<Rightarrow> m ! (i - 6) | None \<Rightarrow> frame ! i)
         else if 26 \<le> i \<and> i < 30 then (case rewrite_src_ip opts of Some a \<Rightarrow> a ! (i - 26) | None \<Rightarrow> frame ! i)
         else if 30 \<le> i \<and> i < 34 then (case rewrite_dst_ip opts of Some a \<Rightarrow> a ! (i - 30) | None \<Rightarrow> frame ! i)
         else frame ! i)" if "i \<in> set [0..<length frame]" for i
    using n[of i] that by (simp only: set_upt atLeastLessThan_iff) blast
  have l: "length (apply_rewrites opts frame) = length frame" unfolding a using lb assms(2) by simp
  show ?thesis
    unfolding list_all_iff using l v n' by (simp only: d recompute_header_length) blast
qed

definition demo_frame :: bytes where
  "demo_frame = replicate 12 1 @ [0x08, 0x00, 0x45, 0, 0, 20, 0, 0, 0, 0, 64, 6, 0, 0, 10, 0, 0, 1, 10, 0, 0, 2]"

definition demo_options :: ReplayOptions where
  "demo_options = set_rewrite_dst_ip [192, 0, 2, 7] replay_options_new"

theorem rewrite_verifies_witness:
  "apply_rewrites demo_options demo_frame ! 30 = 192
   \<and> fold_carries (header_sum (drop 14 (apply_rewrites demo_options demo_frame)) (header_length (drop 14 (apply_rewrites demo_options demo_frame)))) = 0xFFFF"
proof -
  have w: "wf_options demo_options" "34 \<le> length demo_frame" "of_be16 (demo_frame ! 12) (demo_frame ! 13) = 0x0800"
    "20 \<le> header_length (drop 14 demo_frame)" "header_length (drop 14 demo_frame) \<le> length (drop 14 demo_frame)"
    "rewrite_src_ip demo_options \<noteq> None \<or> rewrite_dst_ip demo_options \<noteq> None"
    by code_simp+
  note r = rewrite_verifies[OF w]
  have "30 \<in> set [0..<length demo_frame]" by (simp add: demo_frame_def)
  then have "apply_rewrites demo_options demo_frame ! 30 = [192, 0, 2, 7] ! (30 - 30)"
    using r[THEN conjunct2, THEN conjunct2, unfolded list_all_iff, rule_format, of 30]
    by (simp add: demo_options_def set_rewrite_dst_ip_def replay_options_new_def replay_options_default_def)
  then show ?thesis using r by simp
qed

text \<open>What the sends of a list of frames return, from the \<open>k\<close>-th send on, and the report they leave.\<close>

definition outcomes :: "ReplayOptions \<Rightarrow> sender \<Rightarrow> nat \<Rightarrow> bytes list \<Rightarrow> (ReplayError + nat) list" where
  "outcomes opts send k ds = map (\<lambda>j. send (k + j) (apply_rewrites opts (ds ! j))) [0..<length ds]"

lemma outcomes_Cons: "outcomes opts send k (d # ds) = send k (apply_rewrites opts d) # outcomes opts send (Suc k) ds"
  by (simp add: outcomes_def upt_conv_Cons map_Suc_upt[symmetric] del: upt_Suc)

definition sent_of :: "(ReplayError + nat) list \<Rightarrow> nat list" where
  "sent_of outs = filter_map (\<lambda>x. case x of Inl _ \<Rightarrow> None | Inr n \<Rightarrow> Some n) outs"

definition failed_of :: "(ReplayError + nat) list \<Rightarrow> ReplayError list" where
  "failed_of outs = filter_map (\<lambda>x. case x of Inl e \<Rightarrow> Some e | Inr _ \<Rightarrow> None) outs"

lemma sent_plus_failed: "length (sent_of outs) + length (failed_of outs) = length outs"
  by (induction outs) (auto simp: sent_of_def failed_of_def split: sum.split)

lemma replay_loop_report:
  "replay_loop opts send k ds r =
     r\<lparr>packets_sent := packets_sent r + length (sent_of (outcomes opts send k ds)),
       bytes_sent := bytes_sent r + sum_list (sent_of (outcomes opts send k ds)),
       packets_dropped := packets_dropped r + length (failed_of (outcomes opts send k ds))\<rparr>"
  by (induction opts send k ds r rule: replay_loop.induct)
    (simp_all add: outcomes_Cons sent_of_def failed_of_def outcomes_def[of _ _ _ "[]"] split: sum.split)

lemma read_packets_acc: "read_packets rs acc = Inr ps \<longleftrightarrow> (\<exists>recs. rs = map Inr recs \<and> ps = acc @ map snd recs)"
proof (induction rs acc rule: read_packets.induct)
  case (3 t d rest acc)
  have "(\<exists>recs. Inr (t, d) # rest = map Inr recs \<and> ps = acc @ map snd recs)
      \<longleftrightarrow> (\<exists>recs. rest = map Inr recs \<and> ps = (acc @ [d]) @ map snd recs)"
    by (auto simp: Cons_eq_map_conv)
  then show ?case using 3 by simp
qed auto

lemma read_packets_records: "read_packets (map Inr recs) [] = Inr (map snd recs)"
  by (auto simp: read_packets_acc)

lemma finite_reciprocal:
  assumes "1 \<le> n" "n < 2 ^ 53"
  shows "f64_is_finite (f64_div (Fin 1) (f64_of_nat n))"
proof -
  have "0 \<le> (1 / of_nat n :: rat)" "(1 / of_nat n :: rat) \<le> of_int 1" using assms(1) by (auto simp: divide_le_eq)
  then obtain c where "f64_round (1 / of_nat n) = Fin c" using ieee.rnd_within_int[of "1 / of_nat n" 1] by auto
  then show ?thesis using assms by (simp add: f64_of_nat_small f64_is_finite_def)
qed

lemma pacing_panics: "pacing_interval q = Panic \<longleftrightarrow> q = Some 0"
proof (cases q)
  case (Some w)
  show ?thesis
  proof (cases "w = 0")
    case True
    then show ?thesis using Some by (simp add: pacing_interval_def f64_is_finite_def inf_of_sign_def)
  next
    case False
    then have n: "1 \<le> unat w" by (metis One_nat_def Suc_leI unat_gt_0)
    have "unat w < 2 ^ LENGTH(32)" by (rule unsigned_less)
    then have "unat w < 2 ^ 53" by simp
    with False show ?thesis using finite_reciprocal[OF n] Some by (simp add: pacing_interval_def Let_def)
  qed
qed (simp add: pacing_interval_def)

lemma pacing_zero: "pacing_interval (Some 0) = Panic"
  by (simp add: pacing_panics)

lemma build_sender_panics:
  "build_sender target opts = Panic \<longleftrightarrow>
     (\<exists>ob i fd. target = LinuxTarget ob \<and> iface opts = Some i \<and> lo_socket ob = Inr fd \<and> CHR 0x00 \<in> set i)"
  by (auto simp: build_sender_def build_sender_linux_def split: ReplayTarget.split option.split sum.split panics.split)

lemma replay_packets_panics:
  "replay_packets target packets ms opts = Panic \<longleftrightarrow>
     packets \<noteq> [] \<and> (build_sender target opts = Panic
       \<or> (\<exists>send. build_sender target opts = Ret (Inr send)) \<and> pps opts = Some 0)"
  by (auto simp: replay_packets_def pacing_zero pacing_panics split: panics.split sum.split)

lemma outcomes_count:
  "length (sent_of (outcomes opts send 0 (concat (replicate m packets))))
     + length (failed_of (outcomes opts send 0 (concat (replicate m packets)))) = m * length packets"
  by (simp add: sent_plus_failed outcomes_def length_concat sum_list_replicate)

lemma replay_packets_report:
  "replay_packets target packets ms opts = Ret (Inr r) \<longleftrightarrow>
     (if packets = [] then r = \<lparr>packets_sent = 0, bytes_sent = 0, packets_dropped = 0, duration_ms = ms\<rparr>
      else \<exists>send outs. build_sender target opts = Ret (Inr send) \<and> pps opts \<noteq> Some 0
        \<and> outs = outcomes opts send 0 (concat (replicate (unat (loop_count opts)) packets))
        \<and> r = \<lparr>packets_sent = length (sent_of outs), bytes_sent = sum_list (sent_of outs),
                packets_dropped = length (failed_of outs), duration_ms = ms\<rparr>
        \<and> packets_sent r + packets_dropped r = unat (loop_count opts) * length packets)"
  by (auto simp: replay_packets_def replay_report_default_def replay_loop_report pacing_zero pacing_panics outcomes_count
      split: panics.split sum.split)

lemma replay_pcap_reads:
  assumes "\<And>e. x \<noteq> Ret (Inl e)"
  shows "replay_pcap target contents rd ms opts = x \<longleftrightarrow>
    (\<exists>raw_file recs. contents = Inr raw_file \<and> rd raw_file = Inr (map Inr recs)
      \<and> replay_packets target (map snd recs) ms opts = x)"
proof (cases "\<exists>raw_file recs. contents = Inr raw_file \<and> rd raw_file = Inr (map Inr recs)")
  case True
  then obtain raw_file recs where "contents = Inr raw_file" "rd raw_file = Inr (map Inr recs)" by blast
  moreover have "map Inr recs' = (map Inr recs :: (string + nat \<times> bytes) list) \<longleftrightarrow> recs' = recs" for recs'
    by (metis inj_map_eq_map inj_Inr)
  ultimately show ?thesis by (auto simp: replay_pcap_def read_packets_records)
next
  case False
  then show ?thesis using assms read_packets_acc
    by (auto simp: replay_pcap_def split: sum.split)
qed

text \<open>C28: what a replay reports and when it dies. A report comes from a file all of whose records read, and counts each packet
  once per loop: as sent when the send of its rewritten frame succeeded, with the bytes that send returned, and as
  dropped when it failed; an empty file is reported as nothing sent without opening a socket. No report and no error
  comes back exactly by one of two panics, both with a packet to send: on Linux, with the socket open, an interface name
  with a zero byte, and with any sender that could be built, a pacing rate of zero.\<close>

theorem replay_accounts:
  "(replay_pcap target contents rd ms opts = Panic \<longleftrightarrow>
      (\<exists>raw_file recs. contents = Inr raw_file \<and> rd raw_file = Inr (map Inr recs) \<and> recs \<noteq> []
        \<and> ((\<exists>ob i fd. target = LinuxTarget ob \<and> iface opts = Some i \<and> lo_socket ob = Inr fd \<and> CHR 0x00 \<in> set i)
           \<or> (\<exists>send. build_sender target opts = Ret (Inr send)) \<and> pps opts = Some 0)))
   \<and> (replay_pcap target contents rd ms opts = Ret (Inr r) \<longleftrightarrow>
      (\<exists>raw_file recs. contents = Inr raw_file \<and> rd raw_file = Inr (map Inr recs)
        \<and> (if recs = [] then r = \<lparr>packets_sent = 0, bytes_sent = 0, packets_dropped = 0, duration_ms = ms\<rparr>
           else (\<exists>send outs. build_sender target opts = Ret (Inr send) \<and> pps opts \<noteq> Some 0
             \<and> outs = outcomes opts send 0 (concat (replicate (unat (loop_count opts)) (map snd recs)))
             \<and> r = \<lparr>packets_sent = length (sent_of outs), bytes_sent = sum_list (sent_of outs),
                     packets_dropped = length (failed_of outs), duration_ms = ms\<rparr>
             \<and> packets_sent r + packets_dropped r = unat (loop_count opts) * length recs))))"
proof -
  have p: "replay_pcap target contents rd ms opts = Panic \<longleftrightarrow> (\<exists>raw_file recs. contents = Inr raw_file
      \<and> rd raw_file = Inr (map Inr recs) \<and> replay_packets target (map snd recs) ms opts = Panic)"
    by (rule replay_pcap_reads) simp
  have r: "replay_pcap target contents rd ms opts = Ret (Inr r) \<longleftrightarrow> (\<exists>raw_file recs. contents = Inr raw_file
      \<and> rd raw_file = Inr (map Inr recs) \<and> replay_packets target (map snd recs) ms opts = Ret (Inr r))"
    by (rule replay_pcap_reads) simp
  show ?thesis
    unfolding p r replay_packets_panics build_sender_panics replay_packets_report length_map map_is_Nil_conv
    by (rule conjI[OF refl refl])
qed

end
