(* ===== verification/Fuzz_Campaigns.thy ===== *)
theory Fuzz_Campaigns
  imports Packet_Dsl Replay Redact
begin

text \<open>
  The generator of malformed packets, \<open>fuzzing/mod.rs\<close>, \<open>context.rs\<close>, \<open>builder.rs\<close>, \<open>writer.rs\<close> and the five
  \<open>fuzzing/fuzzers\<close>. The header writers of \<open>etherparse\<close> are the argument \<open>Etherparse\<close> of \<open>Packet_Dsl\<close>, the capture
  writer and the file system are observations, and every value drawn from the random generator is an argument: the payload
  of the n-th call of \<open>build_base_layers\<close>, the drawn checksum bytes and the drawn sizes. A campaign is the list of what each
  of its packets is built to, in the order in which they are written; an error ends it at that packet.
\<close>

unbundle bit_operations_syntax

section \<open>The packet context\<close>

record PacketContext =
  cx_src_ip :: bytes
  cx_dst_ip :: bytes
  cx_src_mac :: bytes
  cx_dst_mac :: bytes
  cx_src_port :: u16
  cx_dst_port :: u16

definition ADDR_PARSE_ERROR :: string where
  "ADDR_PARSE_ERROR = ''invalid IPv4 address syntax''"

text \<open>The hardware addresses take ten random bytes behind their fixed first byte, the source port is drawn from the
  ephemeral range.\<close>

definition context_new :: "string \<Rightarrow> string \<Rightarrow> (nat \<Rightarrow> u8) \<Rightarrow> u16 \<Rightarrow> string + PacketContext" where
  "context_new src_ip dst_ip rng port =
     (case parse_ipv4 src_ip of None \<Rightarrow> Inl ADDR_PARSE_ERROR
      | Some src \<Rightarrow> (case parse_ipv4 dst_ip of None \<Rightarrow> Inl ADDR_PARSE_ERROR
      | Some dst \<Rightarrow> Inr \<lparr>cx_src_ip = map of_nat src, cx_dst_ip = map of_nat dst, cx_src_mac = 2 # map rng [0..<5],
          cx_dst_mac = 2 # map rng [5..<10], cx_src_port = port, cx_dst_port = 443\<rparr>))"

definition ipv4_to_string :: "nat list \<Rightarrow> string" where
  "ipv4_to_string os = join ''.'' (map show_nat os)"

definition for_target ::
    "(string \<Rightarrow> string + IpAddr list) \<Rightarrow> string \<Rightarrow> (nat \<Rightarrow> u8) \<Rightarrow> u16 \<Rightarrow> string + PacketContext" where
  "for_target to_socket_addrs target rng port =
     (let dst_ip = (case parse_ipv4 target of Some addr \<Rightarrow> Inr addr
        | None \<Rightarrow> (case to_socket_addrs (target @ '':443'') of Inl e \<Rightarrow> Inl e
            | Inr addrs \<Rightarrow> (case List.find (\<lambda>a. case a of V4 _ \<Rightarrow> True | V6 _ \<Rightarrow> False) addrs of
                None \<Rightarrow> Inl ''No IPv4 address found''
              | Some (V4 ip) \<Rightarrow> Inr ip
              | Some (V6 _) \<Rightarrow> Inl ''Expected IPv4 address'')))
      in case dst_ip of Inl e \<Rightarrow> Inl e
         | Inr d \<Rightarrow> context_new (ipv4_to_string [192, 168, 1, 100]) (ipv4_to_string d) rng port)"

definition with_dst_port :: "PacketContext \<Rightarrow> u16 \<Rightarrow> PacketContext" where
  "with_dst_port cx p = cx\<lparr>cx_dst_port := p\<rparr>"

type_synonym base_layers = "bytes \<times> bytes \<times> bytes \<times> bytes"

text \<open>The first argument of \<open>Ipv4Header::new\<close> is the length of the payload, to which the writer adds the header; the code
  passes the length of header and payload.\<close>

definition build_base_layers :: "Etherparse \<Rightarrow> PacketContext \<Rightarrow> nat \<Rightarrow> (nat \<Rightarrow> u8) \<Rightarrow> string + base_layers" where
  "build_base_layers ep cx payload_len rng =
     (let content = map rng [0..<payload_len] in
      case ethernet2_write ep (cx_src_mac cx) (cx_dst_mac cx) 0x0800 of Inl e \<Rightarrow> Inl e
      | Inr eth_bytes \<Rightarrow>
      let total_len = 20 + 20 + payload_len in
      case ipv4_new ep (of_nat total_len) of Some e \<Rightarrow> Inl e
      | None \<Rightarrow>
      case ipv4_write ep \<lparr>h4_payload_len = of_nat total_len, h4_ttl = 64, h4_protocol = 6, h4_source = cx_src_ip cx,
             h4_destination = cx_dst_ip cx, h4_identification = 0, h4_dont_fragment = True, h4_more_fragments = False,
             h4_fragment_offset = 0\<rparr> of Inl e \<Rightarrow> Inl e
      | Inr ip_bytes \<Rightarrow>
      case tcp_write ep \<lparr>ht_source_port = cx_src_port cx, ht_destination_port = cx_dst_port cx, ht_sequence_number = 0,
             ht_window_size = 65535, ht_acknowledgment_number = 0, ht_flags = no_flags\<lparr>syn := True\<rparr>, ht_options = []\<rparr> of Inl e \<Rightarrow> Inl e
      | Inr tcp_bytes \<Rightarrow> Inr (eth_bytes, ip_bytes, tcp_bytes, content))"

definition context_build_packet :: "Etherparse \<Rightarrow> PacketContext \<Rightarrow> nat \<Rightarrow> (nat \<Rightarrow> u8) \<Rightarrow> string + bytes" where
  "context_build_packet ep cx payload_len rng =
     (case build_base_layers ep cx payload_len rng of Inl e \<Rightarrow> Inl e
      | Inr (eth, ip, tcp, content) \<Rightarrow> Inr (eth @ ip @ tcp @ content))"

section \<open>Building utilities\<close>

definition serialize_packet :: "Etherparse \<Rightarrow> bytes \<times> bytes \<times> u16 \<Rightarrow> Ipv4Header \<Rightarrow> TcpHeader \<Rightarrow> bytes \<Rightarrow> string + bytes" where
  "serialize_packet ep eth ip tcp content =
     (case eth of (s, d, t) \<Rightarrow>
      case ethernet2_write ep s d t of Inl e \<Rightarrow> Inl e | Inr a \<Rightarrow>
      case ipv4_write ep ip of Inl e \<Rightarrow> Inl e | Inr b \<Rightarrow>
      case tcp_write ep tcp of Inl e \<Rightarrow> Inl e | Inr c \<Rightarrow> Inr (a @ b @ c @ content))"

text \<open>The sum is a \<open>u32\<close>; a last odd byte is the high byte of a word.\<close>

definition calculate_ip_checksum :: "bytes \<Rightarrow> u16" where
  "calculate_ip_checksum header =
     (let sum = fold (\<lambda>k sum.
            if 2 * k + 1 < length header
            then sum + (push_bit 8 (ucast (header ! (2 * k))) OR ucast (header ! (2 * k + 1)))
            else sum + push_bit 8 (ucast (header ! (2 * k)))) [0..<(length header + 1) div 2] (0 :: u32)
      in ucast (NOT (fold_carries sum)))"

definition corrupt_checksum :: "u16 \<Rightarrow> u16 \<Rightarrow> u16" where
  "corrupt_checksum original drawn = drawn"

section \<open>Modes and errors\<close>

datatype FuzzMode = SegmentSize | LengthMismatch | TcpOptions | Fragmentation | Checksum

datatype FuzzError = InvalidMode string | FuzzIo string | PcapWrite string | PacketBuild string | AddrParse string

definition mode_from_str :: "string \<Rightarrow> FuzzError + FuzzMode" where
  "mode_from_str s =
     (let l = to_lowercase s in
      if l = ''segment-size'' \<or> l = ''segment'' then Inr SegmentSize
      else if l = ''length-mismatch'' \<or> l = ''length'' then Inr LengthMismatch
      else if l = ''tcp-options'' \<or> l = ''options'' then Inr TcpOptions
      else if l = ''fragmentation'' \<or> l = ''frag'' then Inr Fragmentation
      else if l = ''checksum'' then Inr Checksum
      else Inl (InvalidMode s))"

fun mode_name :: "FuzzMode \<Rightarrow> string" where
  "mode_name SegmentSize = ''Segment Size Fuzzing''"
| "mode_name LengthMismatch = ''Length Mismatch''"
| "mode_name TcpOptions = ''TCP Options Corruption''"
| "mode_name Fragmentation = ''IP Fragmentation''"
| "mode_name Checksum = ''Checksum Validation''"

section \<open>Writing the capture\<close>

text \<open>A packet of the file: its time, its recorded original length and its bytes. The capture writer may refuse the n-th
  packet; the clock gives the time of the n-th.\<close>

record PcapWriter =
  file_packets :: "(nat \<times> u32 \<times> bytes) list"
  packets_written :: nat

record CampaignObs =
  co_create_dir :: "string option"
  co_create_file :: "string option"
  co_header :: "string option"
  co_now :: "nat \<Rightarrow> nat"
  co_write :: "nat \<Rightarrow> bytes \<Rightarrow> string option"
  co_file_size :: "string + u64"
  co_elapsed_ms :: u64

definition has_parent :: "string \<Rightarrow> bool" where
  "has_parent path = (case split_on (CHR ''/'') path of [] \<Rightarrow> False
     | c # cs \<Rightarrow> c \<noteq> [] \<or> list_ex (\<lambda>x. x \<noteq> [] \<and> x \<noteq> ''.'') cs)"

definition writer_new :: "CampaignObs \<Rightarrow> string \<Rightarrow> FuzzError + PcapWriter" where
  "writer_new ob path =
     (case (if has_parent path then co_create_dir ob else None) of Some e \<Rightarrow> Inl (FuzzIo e)
      | None \<Rightarrow> (case co_create_file ob of Some e \<Rightarrow> Inl (FuzzIo e)
      | None \<Rightarrow> (case co_header ob of Some e \<Rightarrow> Inl (PcapWrite e)
      | None \<Rightarrow> Inr \<lparr>file_packets = [], packets_written = 0\<rparr>)))"

definition write_packet :: "CampaignObs \<Rightarrow> PcapWriter \<Rightarrow> bytes \<Rightarrow> FuzzError + PcapWriter" where
  "write_packet ob w content =
     (let packet = (co_now ob (packets_written w), of_nat (length content), content) in
      case co_write ob (packets_written w) content of Some e \<Rightarrow> Inl (PcapWrite e)
      | None \<Rightarrow> Inr (w\<lparr>file_packets := file_packets w @ [packet], packets_written := packets_written w + 1\<rparr>))"

text \<open>The body all fuzzers share: build a packet, write it, count it; the first error is returned.\<close>

fun write_frames :: "CampaignObs \<Rightarrow> (string + bytes) list \<Rightarrow> PcapWriter \<Rightarrow> nat \<Rightarrow> PcapWriter \<times> (FuzzError + nat)" where
  "write_frames ob [] w n = (w, Inr n)"
| "write_frames ob (Inl e # fs) w n = (w, Inl (PacketBuild e))"
| "write_frames ob (Inr packet # fs) w n =
     (case write_packet ob w packet of Inl e \<Rightarrow> (w, Inl e) | Inr w' \<Rightarrow> write_frames ob fs w' (n + 1))"

section \<open>The fuzzers\<close>

definition and_build :: "string + 'a \<Rightarrow> ('a \<Rightarrow> string + 'b) \<Rightarrow> string + 'b" where
  "and_build r f = (case r of Inl e \<Rightarrow> Inl e | Inr x \<Rightarrow> f x)"

text \<open>The layers of a packet put together, with the IPv4 header changed in place before.\<close>

definition patched :: "(bytes \<Rightarrow> bytes) \<Rightarrow> base_layers \<Rightarrow> bytes" where
  "patched f b = (case b of (eth_bytes, ip_bytes, tcp_bytes, content) \<Rightarrow> eth_bytes @ f ip_bytes @ tcp_bytes @ content)"

subsection \<open>Segment sizes\<close>

definition segment_sizes :: "nat list" where
  "segment_sizes = [1, 2, 3, 4, 5, 6, 7, 8, 9, 10, 536, 1460, 1500, 4096]"

definition segment_size_frames :: "Etherparse \<Rightarrow> PacketContext \<Rightarrow> (nat \<Rightarrow> nat \<Rightarrow> u8) \<Rightarrow> (string + bytes) list" where
  "segment_size_frames ep cx rng =
     map (\<lambda>(k, n). context_build_packet ep cx n (rng k)) (enumerate 0 segment_sizes)"

subsection \<open>Length mismatch\<close>

text \<open>A claimed total length, with the checksum set to zero.\<close>

definition claim_length :: "u16 \<Rightarrow> bytes \<Rightarrow> bytes" where
  "claim_length v ip = ip[2 := ucast (drop_bit 8 v), 3 := ucast (v AND 0xFF), 10 := 0, 11 := 0]"

definition length_mismatch_frames :: "Etherparse \<Rightarrow> PacketContext \<Rightarrow> (nat \<Rightarrow> nat \<Rightarrow> u8) \<Rightarrow> (string + bytes) list" where
  "length_mismatch_frames ep cx rng =
     [context_build_packet ep cx 100 (rng 0),
      and_build (build_base_layers ep cx 100 (rng 1)) (\<lambda>b. Inr (patched (\<lambda>ip. ip[2 := 0, 3 := 50, 10 := 0, 11 := 0]) b)),
      and_build (build_base_layers ep cx 100 (rng 2)) (\<lambda>b. Inr (patched (\<lambda>ip. ip[2 := 0, 3 := 200, 10 := 0, 11 := 0]) b))]
     @ map (\<lambda>(k, actual_size, claimed_size).
          and_build (build_base_layers ep cx actual_size (rng k))
            (\<lambda>b. Inr (patched (claim_length (of_nat (20 + 20 + claimed_size))) b)))
         (enumerate 3 [(50, 25), (50, 100), (200, 100), (200, 300 :: nat)])"

subsection \<open>TCP options\<close>

function pad_zero :: "bytes \<Rightarrow> bytes" where
  "pad_zero packet = (if length packet mod 4 \<noteq> 0 then pad_zero (packet @ [0]) else packet)"
  by pat_completeness auto
termination
  by (relation "measure (\<lambda>packet. (4 - length packet mod 4) mod 4)") (auto simp: mod_Suc)

declare pad_zero.simps [simp del]

text \<open>The option bytes are pushed behind a TCP header that was written without options.\<close>

definition with_options :: "bytes \<Rightarrow> base_layers \<Rightarrow> bytes" where
  "with_options opts b = (case b of (eth_bytes, ip_bytes, tcp_bytes, content) \<Rightarrow>
     eth_bytes @ ip_bytes @ tcp_bytes @ opts @ content)"

definition tcp_options_frames :: "Etherparse \<Rightarrow> PacketContext \<Rightarrow> (nat \<Rightarrow> nat \<Rightarrow> u8) \<Rightarrow> (string + bytes) list" where
  "tcp_options_frames ep cx rng =
     [and_build (build_base_layers ep cx 0 (rng 0)) (\<lambda>(eth_bytes, ip_bytes, tcp_bytes, content).
        Inr (pad_zero (eth_bytes @ ip_bytes @ tcp_bytes @ [2, 4, ucast (drop_bit 8 (1460 :: u16)), ucast (1460 AND 0xFF :: u16), 0]) @ content))]
     @ map (\<lambda>(k, opts). and_build (build_base_layers ep cx 0 (rng k)) (\<lambda>b. Inr (with_options opts b)))
         (enumerate 1 ([[2, 4, 0, 0, 0], [2, 4, 0xFF, 0xFF, 0], [2, 2, 0], [3, 1, 4, 5, 0]]
            @ map (\<lambda>kind. [kind, 4, 0, 0, 0]) [255, 254, 200, 150, 100]))"

subsection \<open>Fragmentation\<close>

definition fragment_header :: "u8 \<Rightarrow> u8 \<Rightarrow> bytes \<Rightarrow> bytes" where
  "fragment_header fl off ip = ip[6 := fl, 7 := off]"

text \<open>A first fragment carries the TCP header and the start of the payload; a later one carries a part of the payload of the
  packet that was built before it.\<close>

definition first_fragment :: "nat \<Rightarrow> base_layers \<Rightarrow> bytes" where
  "first_fragment hi b = (case b of (eth, ip, tcp, content) \<Rightarrow> eth @ fragment_header 0x20 0 ip @ tcp @ take hi content)"

definition later_fragment :: "u8 \<Rightarrow> u8 \<Rightarrow> bytes \<Rightarrow> base_layers \<Rightarrow> bytes" where
  "later_fragment fl off part b = (case b of (eth, ip, _, _) \<Rightarrow> eth @ fragment_header fl off ip @ part)"

text \<open>The first three scenarios send a first and a last fragment of two builds.\<close>

definition two_fragments ::
    "Etherparse \<Rightarrow> PacketContext \<Rightarrow> (nat \<Rightarrow> nat \<Rightarrow> u8) \<Rightarrow> nat \<Rightarrow> nat \<Rightarrow> nat \<Rightarrow> u8 \<Rightarrow> nat \<Rightarrow> (string + bytes) list" where
  "two_fragments ep cx rng k payload_len hi off lo =
     (let b = build_base_layers ep cx payload_len (rng k) in
      [and_build b (\<lambda>b. Inr (first_fragment hi b)),
       and_build b (\<lambda>(_, _, _, content). and_build (build_base_layers ep cx payload_len (rng (k + 1)))
         (\<lambda>b'. Inr (later_fragment 0 off (drop lo content) b')))])"

text \<open>Out of order: the payload is that of the build before, the headers are those of a build of their own; so is the first
  fragment's TCP header.\<close>

definition out_of_order_fragments :: "Etherparse \<Rightarrow> PacketContext \<Rightarrow> (nat \<Rightarrow> nat \<Rightarrow> u8) \<Rightarrow> nat \<Rightarrow> (string + bytes) list" where
  "out_of_order_fragments ep cx rng k =
     (let b = build_base_layers ep cx 90 (rng k);
          with = (\<lambda>j f. and_build b (\<lambda>(_, _, _, content). and_build (build_base_layers ep cx 90 (rng (k + j))) (\<lambda>b'. Inr (f content b'))))
      in [with 1 (\<lambda>content. later_fragment 0x20 5 (take 40 (drop 40 content))),
          with 2 (\<lambda>content (eth, ip, tcp, _). first_fragment 40 (eth, ip, tcp, content)),
          with 3 (\<lambda>content. later_fragment 0 0x0A (drop 80 content))])"

definition tiny_fragments :: "Etherparse \<Rightarrow> PacketContext \<Rightarrow> (nat \<Rightarrow> nat \<Rightarrow> u8) \<Rightarrow> nat \<Rightarrow> (string + bytes) list" where
  "tiny_fragments ep cx rng k =
     (let b = build_base_layers ep cx 32 (rng k) in
      map (\<lambda>i. and_build b (\<lambda>(_, _, _, content). and_build (build_base_layers ep cx 32 (rng (k + 1 + i)))
             (\<lambda>(eth, ip, tcp, _). Inr (eth @ fragment_header (if i < 3 then 0x20 else 0) (of_nat i) ip
                @ (if i = 0 then tcp else []) @ take 8 (drop (i * 8) content))))) [0, 1, 2, 3])"

definition fragmentation_frames :: "Etherparse \<Rightarrow> PacketContext \<Rightarrow> (nat \<Rightarrow> nat \<Rightarrow> u8) \<Rightarrow> (string + bytes) list" where
  "fragmentation_frames ep cx rng =
     two_fragments ep cx rng 0 100 50 6 50
     @ two_fragments ep cx rng 2 100 60 6 50
     @ two_fragments ep cx rng 4 120 40 0x0A 80
     @ out_of_order_fragments ep cx rng 6
     @ tiny_fragments ep cx rng 10"

subsection \<open>Checksums\<close>

definition set_checksum :: "u8 \<Rightarrow> u8 \<Rightarrow> bytes \<Rightarrow> bytes" where
  "set_checksum a b ip = ip[10 := a, 11 := b]"

definition off_by_one :: "bytes \<Rightarrow> bytes" where
  "off_by_one ip =
     (let bad_checksum = of_be16 (ip ! 10) (ip ! 11) + 1
      in set_checksum (ucast (drop_bit 8 bad_checksum)) (ucast (bad_checksum AND 0xFF)) ip)"

text \<open>The drawn checksum bytes of the third and the last five packets are numbered from zero, the drawn sizes of the last five too.\<close>

definition checksum_frames ::
    "Etherparse \<Rightarrow> PacketContext \<Rightarrow> (nat \<Rightarrow> nat \<Rightarrow> u8) \<Rightarrow> (nat \<Rightarrow> u8 \<times> u8) \<Rightarrow> (nat \<Rightarrow> nat) \<Rightarrow> (string + bytes) list" where
  "checksum_frames ep cx rng drawn sizes =
     (let put = (\<lambda>k n f. and_build (build_base_layers ep cx n (rng k)) (\<lambda>b. Inr (patched f b)));
          random = (\<lambda>j. set_checksum (fst (drawn j)) (snd (drawn j)))
      in [context_build_packet ep cx 100 (rng 0), put 1 100 (set_checksum 0 0), put 2 100 (random 0), put 3 100 off_by_one,
          put 4 100 (set_checksum 0xFF 0xFF)]
         @ map (\<lambda>j. put (5 + j) (sizes j) (random (j + 1))) [0..<5])"

section \<open>A campaign\<close>

record Draws =
  dr_bytes :: "nat \<Rightarrow> nat \<Rightarrow> u8"
  dr_checksums :: "nat \<Rightarrow> u8 \<times> u8"
  dr_sizes :: "nat \<Rightarrow> nat"

definition mode_frames :: "Etherparse \<Rightarrow> PacketContext \<Rightarrow> Draws \<Rightarrow> FuzzMode \<Rightarrow> (string + bytes) list" where
  "mode_frames ep cx dr mode =
     (case mode of SegmentSize \<Rightarrow> segment_size_frames ep cx (dr_bytes dr)
      | LengthMismatch \<Rightarrow> length_mismatch_frames ep cx (dr_bytes dr)
      | TcpOptions \<Rightarrow> tcp_options_frames ep cx (dr_bytes dr)
      | Fragmentation \<Rightarrow> fragmentation_frames ep cx (dr_bytes dr)
      | Checksum \<Rightarrow> checksum_frames ep cx (dr_bytes dr) (dr_checksums dr) (dr_sizes dr))"

record FuzzResult =
  packets_generated :: nat
  pcap_path :: string
  file_size_bytes :: u64
  fz_mode :: FuzzMode
  fz_duration_ms :: u64

text \<open>The file stays as the writer left it, also when the campaign fails.\<close>

definition run_campaign ::
    "Etherparse \<Rightarrow> CampaignObs \<Rightarrow> Draws \<Rightarrow> PacketContext \<Rightarrow> FuzzMode \<Rightarrow> string \<Rightarrow> (FuzzError + FuzzResult) \<times> (nat \<times> u32 \<times> bytes) list" where
  "run_campaign ep ob dr cx mode output_path =
     (case writer_new ob output_path of Inl e \<Rightarrow> (Inl e, [])
      | Inr w \<Rightarrow> (case write_frames ob (mode_frames ep cx dr mode) w 0 of
          (w', Inl e) \<Rightarrow> (Inl e, file_packets w')
        | (w', Inr packets) \<Rightarrow> ((case co_file_size ob of Inl e \<Rightarrow> Inl (FuzzIo e)
            | Inr sz \<Rightarrow> Inr \<lparr>packets_generated = packets, pcap_path = output_path, file_size_bytes = sz, fz_mode = mode,
                fz_duration_ms = co_elapsed_ms ob\<rparr>), file_packets w')))"

text \<open>The five strategies as the trait \<open>Fuzzer\<close> names them; each hands the writer to the fuzzer of its mode.\<close>

datatype Fuzzer = SegmentSizeFuzzer | LengthMismatchFuzzer | TcpOptionsFuzzer | FragmentationFuzzer | ChecksumFuzzer

fun fuzzer_name :: "Fuzzer \<Rightarrow> string" where
  "fuzzer_name SegmentSizeFuzzer = ''Segment Size Fuzzing''"
| "fuzzer_name LengthMismatchFuzzer = ''Length Mismatch''"
| "fuzzer_name TcpOptionsFuzzer = ''TCP Options Corruption''"
| "fuzzer_name FragmentationFuzzer = ''IP Fragmentation''"
| "fuzzer_name ChecksumFuzzer = ''Checksum Validation''"

fun fuzzer_description :: "Fuzzer \<Rightarrow> string" where
  "fuzzer_description SegmentSizeFuzzer = ''Tests TCP segment sizes from 0 to jumbo frames (9000+ bytes)''"
| "fuzzer_description LengthMismatchFuzzer = ''IP header length field doesn'' @ [CHR 0x27] @ ''t match actual packet size (Heartbleed-style)''"
| "fuzzer_description TcpOptionsFuzzer = ''Malformed TCP options (MSS, SACK, Window Scale)''"
| "fuzzer_description FragmentationFuzzer = ''Overlapping fragments, missing fragments, out-of-order reassembly''"
| "fuzzer_description ChecksumFuzzer = ''Valid and invalid checksums to test validation bypass''"

fun fuzzer_mode :: "Fuzzer \<Rightarrow> FuzzMode" where
  "fuzzer_mode SegmentSizeFuzzer = SegmentSize"
| "fuzzer_mode LengthMismatchFuzzer = LengthMismatch"
| "fuzzer_mode TcpOptionsFuzzer = TcpOptions"
| "fuzzer_mode FragmentationFuzzer = Fragmentation"
| "fuzzer_mode ChecksumFuzzer = Checksum"

definition fuzzer_fuzz :: "Etherparse \<Rightarrow> CampaignObs \<Rightarrow> Draws \<Rightarrow> Fuzzer \<Rightarrow> PacketContext \<Rightarrow> PcapWriter \<Rightarrow> PcapWriter \<times> (FuzzError + nat)" where
  "fuzzer_fuzz ep ob dr f cx w = write_frames ob (mode_frames ep cx dr (fuzzer_mode f)) w 0"

text \<open>The command: the mode, then the target, then the campaign.\<close>

definition handle_fuzz_command ::
    "Etherparse \<Rightarrow> CampaignObs \<Rightarrow> Draws \<Rightarrow> (string \<Rightarrow> string + IpAddr list) \<Rightarrow> (nat \<Rightarrow> u8) \<Rightarrow> u16 \<Rightarrow> string \<Rightarrow> string \<Rightarrow> string
       \<Rightarrow> FuzzError + FuzzResult" where
  "handle_fuzz_command ep ob dr to_socket_addrs rng port target output mode_str =
     (case mode_from_str mode_str of Inl e \<Rightarrow> Inl e
      | Inr mode \<Rightarrow> (case for_target to_socket_addrs target rng port of Inl e \<Rightarrow> Inl (PacketBuild e)
      | Inr cx \<Rightarrow> fst (run_campaign ep ob dr cx mode output)))"

section \<open>What a receiver reads\<close>

text \<open>The documented formats once more, with the checksum the IPv4 writer puts in and the fixed part of the TCP header.\<close>

definition right_checksum :: "bytes \<Rightarrow> u16" where
  "right_checksum ip = NOT (ucast (fold_carries (header_sum (ip[10 := 0, 11 := 0]) 20)))"

definition header_formats :: "Etherparse \<Rightarrow> bool" where
  "header_formats ep \<longleftrightarrow> wire_formats ep
   \<and> (\<forall>h bs. ipv4_write ep h = Inr bs \<and> length (h4_source h) = 4 \<and> length (h4_destination h) = 4
        \<longrightarrow> [bs ! 10, bs ! 11] = be16 (right_checksum bs))
   \<and> (\<forall>h. \<exists>fl ck. length ck = 4 \<and> tcp_write ep h = Inr (be16 (ht_source_port h) @ be16 (ht_destination_port h)
        @ be32 (ht_sequence_number h) @ be32 (ht_acknowledgment_number h)
        @ [of_nat (16 * (5 + length (ht_options h) div 4)), fl] @ be16 (ht_window_size h) @ ck @ ht_options h))"

definition wf_context :: "PacketContext \<Rightarrow> bool" where
  "wf_context cx \<longleftrightarrow> length (cx_src_ip cx) = 4 \<and> length (cx_dst_ip cx) = 4 \<and> length (cx_src_mac cx) = 6 \<and> length (cx_dst_mac cx) = 6"

definition ip_verifies :: "bytes \<Rightarrow> bool" where
  "ip_verifies frame \<longleftrightarrow> fold_carries (header_sum (drop 14 frame) 20) = 0xFFFF"

definition ip_total :: "bytes \<Rightarrow> nat" where
  "ip_total frame = unat (of_be16 (frame ! 16) (frame ! 17))"

definition frame_fragment :: "bytes \<Rightarrow> fragment_view" where
  "frame_fragment frame =
     (let w = of_be16 (frame ! 20) (frame ! 21) in (8 * unat (w AND 0x1FFF), bit w 13, drop 34 frame))"

section \<open>The checksum of a header\<close>

lemma words_sum_update:
  assumes "j < n" "2 * j + 1 < length h"
  shows "words_sum (h[2 * j := a, 2 * j + 1 := b]) n + (256 * unat (h ! (2 * j)) + unat (h ! (2 * j + 1)))
    = words_sum h n + (256 * unat a + unat b)"
proof -
  let ?f = "\<lambda>h k. 256 * unat (h ! (2 * k)) + unat (h ! (2 * k + 1) :: u8)"
  let ?h = "h[2 * j := a, 2 * j + 1 := b]"
  have o: "?f ?h k = ?f h k" if "k \<noteq> j" for k
  proof -
    have "2 * k \<noteq> 2 * j" "2 * k \<noteq> 2 * j + 1" "2 * k + 1 \<noteq> 2 * j" "2 * k + 1 \<noteq> 2 * j + 1" using that by presburger+
    then show ?thesis by (simp add: nth_list_update_neq)
  qed
  have j: "{..<n} = insert j ({..<n} - {j})" using assms(1) by auto
  have "(\<Sum>k\<in>{..<n} - {j}. ?f ?h k) = (\<Sum>k\<in>{..<n} - {j}. ?f h k)" by (rule sum.cong) (auto simp: o)
  moreover have "?f ?h j = 256 * unat a + unat b" using assms(2) by (simp add: nth_list_update)
  ultimately show ?thesis unfolding words_sum_def by (subst (1 2) j) (simp add: sum.insert_remove)
qed

lemma verifies_words: "ip_verifies frame \<longleftrightarrow> words_sum (drop 14 frame) 10 mod 65535 = 0 \<and> words_sum (drop 14 frame) 10 \<noteq> 0"
proof -
  let ?s = "header_sum (drop 14 frame) 20"
  have w: "unat ?s = words_sum (drop 14 frame) 10" using header_sum_words[of 10 "drop 14 frame"] by simp
  have f: "unat (fold_carries ?s) mod 65535 = unat ?s mod 65535" using fold_carries_facts[of ?s] by blast
  have z: "fold_carries 0 = 0" by (simp add: fold_carries.simps[of 0])
  show ?thesis
  proof
    assume v: "ip_verifies frame"
    then have "unat ?s mod 65535 = 0" using f by (simp add: ip_verifies_def)
    moreover have "?s \<noteq> 0" using v z by (auto simp: ip_verifies_def)
    ultimately show "words_sum (drop 14 frame) 10 mod 65535 = 0 \<and> words_sum (drop 14 frame) 10 \<noteq> 0"
      using w by (metis unat_eq_zero)
  next
    assume a: "words_sum (drop 14 frame) 10 mod 65535 = 0 \<and> words_sum (drop 14 frame) 10 \<noteq> 0"
    then have "?s \<noteq> 0" using w by (metis unat_0)
    then show "ip_verifies frame" unfolding ip_verifies_def using a w by (intro fold_carries_ones) simp_all
  qed
qed

lemma unat_of_be16: "unat (of_be16 a b) = 256 * unat a + unat b"
proof -
  obtain v where v: "a = ucast (drop_bit 8 (v :: u16))" "b = ucast v"
  proof
    show "a = ucast (drop_bit 8 (of_be16 a b))" "b = ucast (of_be16 a b)"
      by (rule bit_word_eqI; auto simp: of_be16_def bit_simps dest: bit_imp_le_length)+
  qed
  have "v AND 0xFF = take_bit 8 v" by (simp add: take_bit_eq_mask mask_eq_exp_minus_1)
  then have m: "ucast (v AND 0xFF) = (ucast v :: u8)" by (simp only:) (rule bit_word_eqI, auto simp: bit_simps)
  show ?thesis using checksum_bytes[of v] of_be16_be16[of v] m by (simp add: v)
qed

text \<open>The right checksum is \<open>65535 - F\<close> for a nonzero fold of the sum without it.\<close>

lemma checksum_verifies:
  assumes "length ip = 20" "drop 14 frame = ip[10 := a, 11 := b]" "words_sum (ip[10 := 0, 11 := 0]) 10 \<noteq> 0"
  shows "ip_verifies frame \<longleftrightarrow> of_be16 a b = right_checksum ip \<or> right_checksum ip = 0 \<and> of_be16 a b = 0xFFFF"
    and "right_checksum ip \<noteq> 0xFFFF"
proof -
  define S where "S = words_sum (ip[10 := 0, 11 := 0]) 10"
  define F where "F = unat (fold_carries (header_sum (ip[10 := 0, 11 := 0]) 20))"
  define v where "v = unat (of_be16 a b)"
  have hs: "unat (header_sum (ip[10 := 0, 11 := 0]) 20) = S" using header_sum_words[of 10] by (simp add: S_def)
  have F: "F mod 65535 = S mod 65535" "F < 65536" "F \<noteq> 0"
  proof -
    note f = fold_carries_facts[of "header_sum (ip[10 := 0, 11 := 0]) 20"]
    show "F mod 65535 = S mod 65535" "F < 65536" using f hs by (simp_all add: F_def)
    have "header_sum (ip[10 := 0, 11 := 0]) 20 \<noteq> 0" using hs assms(3) S_def by (metis unat_0)
    then show "F \<noteq> 0" using f by (simp add: F_def unat_eq_zero)
  qed
  have c: "unat (right_checksum ip) = 65535 - F"
  proof -
    have "unat (ucast (fold_carries (header_sum (ip[10 := 0, 11 := 0]) 20)) :: u16) = F"
      unfolding unsigned_ucast_eq using F(2) by (simp add: take_bit_eq_mod F_def)
    then show ?thesis by (simp add: right_checksum_def unat_not16)
  qed
  have v: "v < 65536" using unsigned_less[of "of_be16 a b"] by (simp add: v_def)
  have "words_sum (drop 14 frame) 10 = S + v"
    using words_sum_split[of 10 ip a b] assms(1,2) by (simp add: S_def v_def unat_of_be16)
  then have "ip_verifies frame \<longleftrightarrow> (S + v) mod 65535 = 0" using assms(3) by (simp add: verifies_words S_def)
  also have "\<dots> \<longleftrightarrow> (F + v) mod 65535 = 0" using F(1) by (metis mod_add_left_eq)
  also have "\<dots> \<longleftrightarrow> F + v = 65535 \<or> F + v = 131070"
  proof -
    have b: "0 < F + v" "F + v < 3 * 65535" using F v by linarith+
    have "F + v = 65535 \<or> F + v = 131070" if "(F + v) mod 65535 = 0"
    proof -
      have "65535 dvd F + v" using that by (simp only: mod_eq_0_iff_dvd)
      then obtain k where k: "F + v = 65535 * k" by (rule dvdE)
      with b have "k \<noteq> 0" "k < 3" by simp_all
      then have "k = 1 \<or> k = 2" by linarith
      then show ?thesis using k by auto
    qed
    then show ?thesis by auto
  qed
  also have "\<dots> \<longleftrightarrow> v = unat (right_checksum ip) \<or> unat (right_checksum ip) = 0 \<and> v = 65535"
    unfolding c using F(2,3) v by presburger
  also have "\<dots> \<longleftrightarrow> of_be16 a b = right_checksum ip \<or> right_checksum ip = 0 \<and> of_be16 a b = 0xFFFF"
  proof -
    have "v = 65535 \<longleftrightarrow> of_be16 a b = 0xFFFF" unfolding v_def using word_unat_eq_iff[of "of_be16 a b" "0xFFFF"] by simp
    moreover have "unat (right_checksum ip) = 0 \<longleftrightarrow> right_checksum ip = 0" by (simp add: unat_eq_zero)
    ultimately show ?thesis unfolding v_def by (simp add: word_unat_eq_iff[symmetric])
  qed
  finally show "ip_verifies frame \<longleftrightarrow> of_be16 a b = right_checksum ip \<or> right_checksum ip = 0 \<and> of_be16 a b = 0xFFFF" .
  show "right_checksum ip \<noteq> 0xFFFF"
  proof
    assume "right_checksum ip = 0xFFFF"
    then have "unat (right_checksum ip) = 65535" by simp
    then show False using c F(3) by linarith
  qed
qed

section \<open>The layers of a context\<close>

definition base_header :: "PacketContext \<Rightarrow> nat \<Rightarrow> bytes \<Rightarrow> bytes" where
  "base_header cx n c = [0x45, 0] @ be16 (of_nat (n + 60)) @ [0, 0, 0x40, 0, 64, 6] @ c @ cx_src_ip cx @ cx_dst_ip cx"

definition base_ethernet :: "PacketContext \<Rightarrow> bytes" where
  "base_ethernet cx = cx_dst_mac cx @ cx_src_mac cx @ [8, 0]"

text \<open>The header the writer produces, with its checksum.\<close>

definition written_header :: "PacketContext \<Rightarrow> nat \<Rightarrow> bytes" where
  "written_header cx n = base_header cx n (be16 (right_checksum (base_header cx n [0, 0])))"

lemma base_header_length [simp]: "wf_context cx \<Longrightarrow> length c = 2 \<Longrightarrow> length (base_header cx n c) = 20"
  by (simp add: base_header_def wf_context_def)

lemma base_header_put:
  assumes "length c = 2"
  shows "(base_header cx n c)[10 := a, 11 := b] = base_header cx n [a, b]"
proof -
  obtain x y where "c = [x, y]" using assms by (metis (no_types, lifting) One_nat_def Suc_1 length_0_conv length_Suc_conv)
  then show ?thesis by (simp add: base_header_def be16_def)
qed

lemma right_checksum_put: "length c = 2 \<Longrightarrow> right_checksum (base_header cx n c) = right_checksum (base_header cx n [0, 0])"
  by (simp add: right_checksum_def base_header_put)

lemma base_ethernet_length [simp]: "wf_context cx \<Longrightarrow> length (base_ethernet cx) = 14"
  by (simp add: base_ethernet_def wf_context_def)

lemma base_layers:
  assumes "header_formats ep" "wf_context cx"
  obtains tcp where "length tcp = 20" "tcp ! 12 = 0x50"
    "\<And>n rng. n \<le> 65475 \<Longrightarrow> build_base_layers ep cx n rng = Inr (base_ethernet cx, written_header cx n, tcp, map rng [0..<n])"
proof -
  note w = wire_formatsD[of ep] and hf = assms(1)[unfolded header_formats_def]
  let ?t = "\<lparr>ht_source_port = cx_src_port cx, ht_destination_port = cx_dst_port cx, ht_sequence_number = 0, ht_window_size = 65535,
    ht_acknowledgment_number = 0, ht_flags = no_flags\<lparr>syn := True\<rparr>, ht_options = []\<rparr>"
  obtain fl ck where t: "length ck = 4" "tcp_write ep ?t = Inr (be16 (cx_src_port cx) @ be16 (cx_dst_port cx) @ be32 0 @ be32 0
      @ [of_nat (16 * 5), fl] @ be16 65535 @ ck)"
    using hf by (metis (no_types, lifting) TcpHeader.simps(1-7) append_Nil2 div_0 list.size(3) add_0_right)
  define tcp where "tcp = be16 (cx_src_port cx) @ be16 (cx_dst_port cx) @ be32 0 @ be32 0 @ [of_nat (16 * 5), fl] @ be16 65535 @ ck"
  have "build_base_layers ep cx n rng = Inr (base_ethernet cx, written_header cx n, tcp, map rng [0..<n])" if n: "n \<le> 65475" for n rng
  proof -
    let ?h = "\<lparr>h4_payload_len = of_nat (20 + 20 + n), h4_ttl = 64, h4_protocol = 6, h4_source = cx_src_ip cx,
      h4_destination = cx_dst_ip cx, h4_identification = 0, h4_dont_fragment = True, h4_more_fragments = False, h4_fragment_offset = 0\<rparr>"
    have e: "ethernet2_write ep (cx_src_mac cx) (cx_dst_mac cx) 0x0800 = Inr (base_ethernet cx)"
      using w(1)[of "cx_src_mac cx" "cx_dst_mac cx" "0x0800"] hf by (simp add: base_ethernet_def be16_def)
    have "unat (of_nat (20 + 20 + n) :: u16) \<le> 65515" using n by (simp only: unat_of_nat) simp
    then have l: "ipv4_new ep (of_nat (20 + 20 + n)) = None" by (simp only: w(2)[OF hf[THEN conjunct1]])
    have f: "be16 0 = [0, 0]" "be16 (flag_word True False 0) = [0x40, 0]" "(of_nat (20 + 20 + n) :: u16) + 20 = of_nat (n + 60)"
      by (code_simp, code_simp, simp)
    obtain c where c: "length c = 2" "ipv4_write ep ?h = Inr ([0x45, 0] @ be16 (of_nat (20 + 20 + n) + 20) @ be16 0
        @ be16 (flag_word True False 0) @ [64, 6] @ c @ cx_src_ip cx @ cx_dst_ip cx)"
      using w(4)[OF hf[THEN conjunct1], of ?h] unfolding Ipv4Header.simps by blast
    then have c: "length c = 2" "ipv4_write ep ?h = Inr (base_header cx n c)"
      unfolding f base_header_def by simp_all
    have "[base_header cx n c ! 10, base_header cx n c ! 11] = be16 (right_checksum (base_header cx n c))"
      using hf[THEN conjunct2, THEN conjunct1, rule_format, of ?h] c(2) assms(2) by (simp add: wf_context_def)
    moreover have "[base_header cx n c ! 10, base_header cx n c ! 11] = c"
    proof -
      obtain x y where "c = [x, y]" using c(1) by (metis (no_types, lifting) One_nat_def Suc_1 length_0_conv length_Suc_conv)
      then show ?thesis by (simp add: base_header_def be16_def)
    qed
    ultimately have "base_header cx n c = written_header cx n" using right_checksum_put[OF c(1)] by (simp add: written_header_def)
    then show ?thesis using e l c(2) t(2) by (simp add: build_base_layers_def Let_def tcp_def)
  qed
  moreover have "length tcp = 20" "tcp ! 12 = 0x50" using t(1) by (simp_all add: tcp_def be16_def be32_def)
  ultimately show ?thesis using that by blast
qed

lemma base_header_sum_pos: "words_sum ((base_header cx n c)[10 := 0, 11 := 0]) 10 \<noteq> 0"
proof -
  have "256 * unat (0x45 :: u8) \<le> words_sum ((base_header cx n c)[10 := 0, 11 := 0]) 10"
    unfolding words_sum_def by (rule order_trans[OF _ member_le_sum[of 0]]) (simp_all add: base_header_def)
  then show ?thesis by simp
qed

text \<open>A frame with the base header verifies exactly when its checksum field is right.\<close>

lemma base_verifies:
  assumes "wf_context cx" "drop 14 frame = base_header cx n [a, b] @ rest"
  shows "ip_verifies frame \<longleftrightarrow> of_be16 a b = right_checksum (base_header cx n [0, 0])
     \<or> right_checksum (base_header cx n [0, 0]) = 0 \<and> of_be16 a b = 0xFFFF"
proof -
  have s: "words_sum (base_header cx n [a, b] @ rest) 10 = words_sum (base_header cx n [a, b]) 10"
    unfolding words_sum_def by (rule sum.cong) (auto simp: nth_append assms(1))
  define f where "f = replicate 14 (0::u8) @ base_header cx n [a, b]"
  have d: "drop 14 f = base_header cx n [a, b]" by (simp add: f_def)
  have "ip_verifies frame = ip_verifies f" using s by (simp add: verifies_words d assms(2))
  moreover have "base_header cx n [a, b] = (base_header cx n [0, 0])[10 := a, 11 := b]" by (simp add: base_header_put)
  ultimately show ?thesis
    using checksum_verifies(1)[of "base_header cx n [0, 0]" f a b] assms(1) base_header_sum_pos d by simp
qed

lemma right_checksum_bound: "wf_context cx \<Longrightarrow> right_checksum (base_header cx n [0, 0]) \<noteq> 0xFFFF"
  using checksum_verifies(2)[of "base_header cx n [0, 0]" "replicate 14 0 @ base_header cx n [0, 0]" 0 0] base_header_sum_pos[of cx n "[0, 0]"]
  by (simp add: base_header_put)

section \<open>A campaign writes what it built\<close>

definition contents_of :: "(nat \<times> u32 \<times> bytes) list \<Rightarrow> bytes list" where
  "contents_of written = map (\<lambda>(_, _, content). content) written"

lemma contents_of_simps [simp]: "contents_of [] = []" "contents_of (xs @ ys) = contents_of xs @ contents_of ys"
  "length (contents_of xs) = length xs"
  by (simp_all add: contents_of_def)

lemma write_packet_contents:
  "write_packet ob w packet = Inr w1 \<Longrightarrow> contents_of (file_packets w1) = contents_of (file_packets w) @ [packet]"
  by (auto simp: write_packet_def Let_def contents_of_def split: option.splits)

lemma result_ok_simps [simp]: "result_ok (Inr x) = Some x" "result_ok (Inl e) = None"
  by (simp_all add: result_ok_def)

lemma write_frames_ok:
  assumes "write_frames ob fs w n = (w', Inr k)"
  shows "\<exists>ps. fs = map Inr ps \<and> k = n + length ps \<and> contents_of (file_packets w') = contents_of (file_packets w) @ ps"
  using assms
proof (induction ob fs w n rule: write_frames.induct)
  case (3 ob packet fs w n)
  then obtain w1 where w1: "write_packet ob w packet = Inr w1" "write_frames ob fs w1 (n + 1) = (w', Inr k)"
    by (auto split: sum.splits)
  then obtain ps where "fs = map Inr ps" "k = n + 1 + length ps"
    "contents_of (file_packets w') = contents_of (file_packets w1) @ ps" using "3.IH" by blast
  moreover have "contents_of (file_packets w1) = contents_of (file_packets w) @ [packet]"
    using w1(1) by (rule write_packet_contents)
  ultimately show ?case by (intro exI[of _ "packet # ps"]) simp
qed auto

lemma write_frames_prefix:
  "\<exists>m. contents_of (file_packets (fst (write_frames ob fs w n))) = contents_of (file_packets w) @ filter_map result_ok (take m fs)
     \<and> list_all (\<lambda>r. result_ok r \<noteq> None) (take m fs)"
proof (induction ob fs w n rule: write_frames.induct)
  case (3 ob packet fs w n)
  show ?case
  proof (cases "write_packet ob w packet")
    case (Inl e)
    then show ?thesis by (intro exI[of _ 0]) simp
  next
    case (Inr w1)
    then obtain m where m: "contents_of (file_packets (fst (write_frames ob fs w1 (n + 1))))
        = contents_of (file_packets w1) @ filter_map result_ok (take m fs)" "list_all (\<lambda>r. result_ok r \<noteq> None) (take m fs)"
      using "3.IH" by blast
    have "contents_of (file_packets w1) = contents_of (file_packets w) @ [packet]"
      using Inr by (rule write_packet_contents)
    then show ?thesis using m Inr by (intro exI[of _ "Suc m"]) simp
  qed
qed (auto intro!: exI[of _ 0])

text \<open>A campaign that succeeds reports exactly the number of packets it generated and the file holds exactly those, in
  order; one that fails leaves a prefix of them. A successful campaign never had a packet that could not be built.\<close>

theorem campaign_accounts:
  "case run_campaign ep ob dr cx mode path of
     (Inr r, written) \<Rightarrow> map Inr (contents_of written) = mode_frames ep cx dr mode \<and> packets_generated r = length written
   | (Inl _, written) \<Rightarrow> \<exists>m. contents_of written = filter_map result_ok (take m (mode_frames ep cx dr mode))
       \<and> list_all (\<lambda>r. result_ok r \<noteq> None) (take m (mode_frames ep cx dr mode))"
proof (cases "writer_new ob path")
  case (Inl e)
  then show ?thesis by (auto simp: run_campaign_def intro!: exI[of _ 0])
next
  case (Inr w)
  have e: "file_packets w = []" using Inr by (auto simp: writer_new_def split: option.splits if_splits)
  obtain w' r where wf: "write_frames ob (mode_frames ep cx dr mode) w 0 = (w', r)" by fastforce
  have pre: "\<exists>m. contents_of (file_packets w') = filter_map result_ok (take m (mode_frames ep cx dr mode))
      \<and> list_all (\<lambda>r. result_ok r \<noteq> None) (take m (mode_frames ep cx dr mode))"
    using write_frames_prefix[of ob "mode_frames ep cx dr mode" w 0] wf e by simp
  show ?thesis
  proof (cases r)
    case (Inl er)
    then show ?thesis using Inr wf pre by (simp add: run_campaign_def)
  next
    case (Inr k)
    obtain ps where ps: "mode_frames ep cx dr mode = map Inr ps" "k = length ps" "contents_of (file_packets w') = ps"
      using write_frames_ok wf Inr e by fastforce
    then have "length (file_packets w') = k" by (metis contents_of_simps(3))
    then show ?thesis using \<open>writer_new ob path = Inr w\<close> wf Inr ps pre
      by (cases "co_file_size ob") (auto simp: run_campaign_def)
  qed
qed

section \<open>What the campaigns put into their packets\<close>

lemma of_be16_be16_nth: "of_be16 (be16 v ! 0) (be16 v ! Suc 0) = v"
  by (simp add: be16_def of_be16_be16)

lemma unat_small: "n < 65536 \<Longrightarrow> unat (of_nat n :: u16) = n"
  by (simp only: unat_of_nat) simp

text \<open>A fragment made from the base header.\<close>

definition fragment_frame :: "PacketContext \<Rightarrow> nat \<Rightarrow> u8 \<Rightarrow> u8 \<Rightarrow> bytes \<Rightarrow> bytes" where
  "fragment_frame cx n fl off part = base_ethernet cx @ fragment_header fl off (written_header cx n) @ part"

lemma written_header_length [simp]: "wf_context cx \<Longrightarrow> length (written_header cx n) = 20"
  by (simp add: written_header_def)

lemma written_header_bytes:
  "written_header cx n ! 2 = be16 (of_nat (n + 60)) ! 0" "written_header cx n ! 3 = be16 (of_nat (n + 60)) ! Suc 0"
  "written_header cx n ! 6 = 0x40" "written_header cx n ! 7 = 0"
  by (simp_all add: written_header_def base_header_def be16_def)

lemma fragment_frame_view:
  assumes "wf_context cx"
  shows "frame_fragment (fragment_frame cx n fl off part)
      = (8 * unat (of_be16 fl off AND 0x1FFF), bit (of_be16 fl off) 13, part)"
    and "n + 60 < 65536 \<Longrightarrow> ip_total (fragment_frame cx n fl off part) = n + 60"
    and "length (fragment_frame cx n fl off part) = 34 + length part"
  using assms written_header_bytes[of cx n]
  by (simp_all add: frame_fragment_def Let_def ip_total_def fragment_frame_def fragment_header_def nth_append of_be16_be16_nth unat_small
      del: of_nat_add)

lemma written_header_verifies:
  assumes "wf_context cx"
  shows "words_sum (written_header cx n) 10 mod 65535 = 0"
proof -
  let ?f = "base_ethernet cx @ written_header cx n"
  let ?c = "right_checksum (base_header cx n [0, 0])"
  have "ip_verifies ?f"
    using base_verifies[OF assms, of ?f n "ucast (drop_bit 8 ?c)" "ucast ?c" "[]"] assms
    by (simp add: written_header_def be16_def of_be16_be16)
  then show ?thesis using assms by (simp add: verifies_words)
qed

lemma mod_of_shifted: "s + a = h + (b :: nat) \<Longrightarrow> s mod m = 0 \<Longrightarrow> h mod m = 0 \<Longrightarrow> a mod m = b mod m"
  by (metis add.left_neutral mod_add_left_eq)

text \<open>Flag and offset change the sum, the checksum stays: only the original value of that word verifies.\<close>

lemma fragment_frame_broken:
  assumes "wf_context cx" "of_be16 fl off \<noteq> 0x4000"
  shows "\<not> ip_verifies (fragment_frame cx n fl off part)"
proof
  assume v: "ip_verifies (fragment_frame cx n fl off part)"
  let ?h = "written_header cx n"
  have d: "drop 14 (fragment_frame cx n fl off part) = ?h[6 := fl, 7 := off] @ part"
    using assms(1) by (simp add: fragment_frame_def fragment_header_def)
  have "words_sum (?h[6 := fl, 7 := off] @ part) 10 = words_sum (?h[6 := fl, 7 := off]) 10"
    unfolding words_sum_def using assms(1) by (intro sum.cong) (auto simp: nth_append)
  then have m: "words_sum (?h[6 := fl, 7 := off]) 10 mod 65535 = 0" using v by (simp add: verifies_words d)
  have e: "words_sum (?h[6 := fl, 7 := off]) 10 + 0x4000 = words_sum ?h 10 + unat (of_be16 fl off)"
    using words_sum_update[of 3 10 ?h fl off] assms(1) by (simp add: written_header_bytes unat_of_be16)
  have "(0x4000 :: nat) mod 65535 = unat (of_be16 fl off) mod 65535"
    by (rule mod_of_shifted[OF e m written_header_verifies[OF assms(1), of n]])
  moreover have "unat (of_be16 fl off) < 65536" using unsigned_less[of "of_be16 fl off"] by simp
  ultimately have "unat (of_be16 fl off) = 0x4000" by (cases "unat (of_be16 fl off) = 65535") auto
  then have "of_be16 fl off = 0x4000" by (simp add: word_unat_eq_iff)
  with assms(2) show False by simp
qed

lemma fragment_words:
  "of_be16 0x20 0 AND 0x1FFF = 0" "of_be16 0 6 AND 0x1FFF = 6" "of_be16 0 10 AND 0x1FFF = 10" "of_be16 0x20 5 AND 0x1FFF = 5"
  "of_be16 0x20 1 AND 0x1FFF = 1" "of_be16 0x20 2 AND 0x1FFF = 2" "of_be16 0 3 AND 0x1FFF = 3"
  "bit (of_be16 0x20 0) 13" "\<not> bit (of_be16 0 6) 13" "\<not> bit (of_be16 0 10) 13" "bit (of_be16 0x20 5) 13"
  "bit (of_be16 0x20 1) 13" "bit (of_be16 0x20 2) 13" "\<not> bit (of_be16 0 3) 13"
  "of_be16 0x20 0 \<noteq> 0x4000" "of_be16 0 6 \<noteq> 0x4000" "of_be16 0 10 \<noteq> 0x4000" "of_be16 0x20 5 \<noteq> 0x4000"
  "of_be16 0x20 1 \<noteq> 0x4000" "of_be16 0x20 2 \<noteq> 0x4000" "of_be16 0 3 \<noteq> 0x4000"
  by (simp_all add: of_be16_def)

lemma fragmentation_frames_eq:
  assumes "header_formats ep" "wf_context cx"
  shows "\<exists>tcp. length tcp = 20 \<and> fragmentation_frames ep cx rng = map Inr
    [fragment_frame cx 100 0x20 0 (tcp @ map (rng 0) [0..<50]), fragment_frame cx 100 0 6 (map (rng 0) [50..<100]),
     fragment_frame cx 100 0x20 0 (tcp @ map (rng 2) [0..<60]), fragment_frame cx 100 0 6 (map (rng 2) [50..<100]),
     fragment_frame cx 120 0x20 0 (tcp @ map (rng 4) [0..<40]), fragment_frame cx 120 0 10 (map (rng 4) [80..<120]),
     fragment_frame cx 90 0x20 5 (map (rng 6) [40..<80]), fragment_frame cx 90 0x20 0 (tcp @ map (rng 6) [0..<40]),
     fragment_frame cx 90 0 10 (map (rng 6) [80..<90]),
     fragment_frame cx 32 0x20 0 (tcp @ map (rng 10) [0..<8]), fragment_frame cx 32 0x20 1 (map (rng 10) [8..<16]),
     fragment_frame cx 32 0x20 2 (map (rng 10) [16..<24]), fragment_frame cx 32 0 3 (map (rng 10) [24..<32])]"
proof -
  obtain tcp where t: "length tcp = 20"
    and b: "\<And>n rng. n \<le> 65475 \<Longrightarrow> build_base_layers ep cx n rng = Inr (base_ethernet cx, written_header cx n, tcp, map rng [0..<n])"
    using base_layers[OF assms] by metis
  show ?thesis
    by (intro exI[of _ tcp] conjI t)
      (simp add: fragmentation_frames_def two_fragments_def out_of_order_fragments_def tiny_fragments_def b and_build_def Let_def
        first_fragment_def later_fragment_def fragment_frame_def take_map drop_map del: upt_rec_numeral)
qed

text \<open>C29: nothing the fragmentation campaign writes reassembles except by losing data: over conforming header writers it writes
  thirteen frames whose offsets count the payload without the TCP header in front of it, so that the fragments of the
  baseline, of the out-of-order and of the tiny scenario overlap; no frame has a valid header checksum, and none the total length of
  what it carries.\<close>

theorem fragmentation_campaign:
  assumes "header_formats ep" "wf_context cx"
  shows "\<exists>fs. fragmentation_frames ep cx rng = map Inr fs
    \<and> map (\<lambda>(off, more, part). (off, more, length part)) (map frame_fragment fs)
      = [(0, True, 70), (48, False, 50), (0, True, 80), (48, False, 50), (0, True, 60), (80, False, 40),
         (40, True, 40), (0, True, 60), (80, False, 10), (0, True, 28), (8, True, 8), (16, True, 8), (24, False, 8)]
    \<and> map (\<lambda>xs. reassemble (map frame_fragment xs)) [take 2 fs, take 2 (drop 2 fs), take 2 (drop 4 fs), take 3 (drop 6 fs), drop 9 fs]
      = [None, None, None, None, None]
    \<and> map (\<lambda>f. (ip_total f, length f - 14)) fs
      = [(160, 90), (160, 70), (160, 100), (160, 70), (180, 80), (180, 60), (150, 60), (150, 80), (150, 30),
         (92, 48), (92, 28), (92, 28), (92, 28)]
    \<and> list_all (\<lambda>f. \<not> ip_verifies f) fs"
proof -
  obtain tcp where t: "length tcp = 20" "fragmentation_frames ep cx rng = map Inr
    [fragment_frame cx 100 0x20 0 (tcp @ map (rng 0) [0..<50]), fragment_frame cx 100 0 6 (map (rng 0) [50..<100]),
     fragment_frame cx 100 0x20 0 (tcp @ map (rng 2) [0..<60]), fragment_frame cx 100 0 6 (map (rng 2) [50..<100]),
     fragment_frame cx 120 0x20 0 (tcp @ map (rng 4) [0..<40]), fragment_frame cx 120 0 10 (map (rng 4) [80..<120]),
     fragment_frame cx 90 0x20 5 (map (rng 6) [40..<80]), fragment_frame cx 90 0x20 0 (tcp @ map (rng 6) [0..<40]),
     fragment_frame cx 90 0 10 (map (rng 6) [80..<90]),
     fragment_frame cx 32 0x20 0 (tcp @ map (rng 10) [0..<8]), fragment_frame cx 32 0x20 1 (map (rng 10) [8..<16]),
     fragment_frame cx 32 0x20 2 (map (rng 10) [16..<24]), fragment_frame cx 32 0 3 (map (rng 10) [24..<32])]" (is "_ = map Inr ?fs")
    using fragmentation_frames_eq[OF assms] by blast
  note v = fragment_frame_view[OF assms(2)] fragment_words
  show ?thesis
    by (intro exI[of _ ?fs] conjI t(2))
      (simp_all add: v fragment_frame_broken[OF assms(2)] t(1) reassemble_def Let_def del: upt_rec_numeral)
qed

text \<open>A packet with the base header and given checksum bytes.\<close>

definition packet_frame :: "PacketContext \<Rightarrow> nat \<Rightarrow> bytes \<Rightarrow> bytes \<Rightarrow> bytes" where
  "packet_frame cx n c rest = base_ethernet cx @ base_header cx n c @ rest"

lemma packet_frame_view:
  assumes "wf_context cx" "length c = 2"
  shows "n + 60 < 65536 \<Longrightarrow> ip_total (packet_frame cx n c rest) = n + 60"
    and "length (packet_frame cx n c rest) = 34 + length rest"
    and "drop 14 (packet_frame cx n c rest) = base_header cx n c @ rest"
  using assms
  by (simp_all add: ip_total_def packet_frame_def nth_append base_header_def be16_def of_be16_be16 unat_small wf_context_def
      del: of_nat_add)

lemma set_checksum_frame:
  "base_ethernet cx @ set_checksum a b (written_header cx n) @ rest = packet_frame cx n [a, b] rest"
  by (simp add: set_checksum_def packet_frame_def written_header_def base_header_put)

lemma written_packet:
  "base_ethernet cx @ written_header cx n @ rest = packet_frame cx n (be16 (right_checksum (base_header cx n [0, 0]))) rest"
  by (simp add: packet_frame_def written_header_def)

lemma packet_frame_verifies:
  assumes "wf_context cx"
  shows "ip_verifies (packet_frame cx n [a, b] rest) \<longleftrightarrow> of_be16 a b = right_checksum (base_header cx n [0, 0])
     \<or> right_checksum (base_header cx n [0, 0]) = 0 \<and> of_be16 a b = 0xFFFF"
  by (rule base_verifies[OF assms packet_frame_view(3)[OF assms]]) simp

lemma of_be16_split [simp]: "of_be16 (ucast (drop_bit 8 v)) (ucast (v AND 0xFF)) = v"
proof -
  have "v AND 0xFF = take_bit 8 v" by (simp add: take_bit_eq_mask mask_eq_exp_minus_1)
  then have "ucast (v AND 0xFF) = (ucast v :: u8)" by (simp only:) (rule bit_word_eqI, auto simp: bit_simps)
  then show ?thesis by (simp add: of_be16_be16)
qed

lemma off_by_one_written:
  "off_by_one (written_header cx n) = set_checksum (ucast (drop_bit 8 (right_checksum (base_header cx n [0, 0]) + 1)))
     (ucast ((right_checksum (base_header cx n [0, 0]) + 1) AND 0xFF)) (written_header cx n)"
  by (simp add: off_by_one_def Let_def written_header_def base_header_def be16_def of_be16_be16)

text \<open>Which packets of the checksum campaign have a valid header checksum: the baseline has; the one incremented by one has
  not; the zeroed one and the one set to 0xFFFF have exactly when the right checksum is zero; a drawn one has exactly when the right
  value, or 0xFFFF for a right value of zero, was drawn.\<close>

theorem checksum_campaign:
  assumes "header_formats ep" "wf_context cx" "\<And>j. 50 \<le> sizes j \<and> sizes j < 500"
  shows "\<exists>fs. checksum_frames ep cx rng drawn sizes = map Inr fs
    \<and> map ip_verifies fs =
        (let right = (\<lambda>n. right_checksum (base_header cx n [0, 0]));
             hit = (\<lambda>n (a, b). of_be16 a b = right n \<or> right n = 0 \<and> of_be16 a b = 0xFFFF)
         in [True, right 100 = 0, hit 100 (drawn 0), False, right 100 = 0] @ map (\<lambda>j. hit (sizes j) (drawn (j + 1))) [0..<5])"
proof -
  obtain tcp where t: "length tcp = 20"
    and b: "\<And>n rng. n \<le> 65475 \<Longrightarrow> build_base_layers ep cx n rng = Inr (base_ethernet cx, written_header cx n, tcp, map rng [0..<n])"
    using base_layers[OF assms(1,2)] by metis
  have sz: "sizes j \<le> 65475" for j using assms(3)[of j] by linarith
  let ?right = "\<lambda>n. right_checksum (base_header cx n [0, 0])"
  let ?bad = "?right 100 + 1"
  let ?p = "\<lambda>k n c. packet_frame cx n c (tcp @ map (rng k) [0..<n])"
  let ?fs = "[?p 0 100 (be16 (?right 100)), ?p 1 100 [0, 0], ?p 2 100 [fst (drawn 0), snd (drawn 0)],
      ?p 3 100 [ucast (drop_bit 8 ?bad), ucast (?bad AND 0xFF)], ?p 4 100 [0xFF, 0xFF]]
    @ map (\<lambda>j. ?p (5 + j) (sizes j) [fst (drawn (j + 1)), snd (drawn (j + 1))]) [0..<5]"
  have f: "checksum_frames ep cx rng drawn sizes = map Inr ?fs"
    by (simp add: checksum_frames_def context_build_packet_def b sz and_build_def written_packet patched_def
        off_by_one_written set_checksum_frame Let_def del: upt_rec_numeral)
  have k: "of_be16 0 0 = 0" "of_be16 0xFF 0xFF = 0xFFFF" by code_simp+
  have n: "?right 100 \<noteq> 0xFFFF" by (rule right_checksum_bound[OF assms(2)])
  note v = packet_frame_verifies[OF assms(2)]
  have base: "ip_verifies (?p 0 100 (be16 (?right 100)))" unfolding be16_def v of_be16_be16 by simp
  have zero: "ip_verifies (?p 1 100 [0, 0]) \<longleftrightarrow> ?right 100 = 0" unfolding v k by auto
  have off: "\<not> ip_verifies (?p 3 100 [ucast (drop_bit 8 ?bad), ucast (?bad AND 0xFF)])" unfolding v of_be16_split by auto
  have ones: "ip_verifies (?p 4 100 [0xFF, 0xFF]) \<longleftrightarrow> ?right 100 = 0" unfolding v k using n by auto
  have "map ip_verifies ?fs = [True, ?right 100 = 0, of_be16 (fst (drawn 0)) (snd (drawn 0)) = ?right 100
      \<or> ?right 100 = 0 \<and> of_be16 (fst (drawn 0)) (snd (drawn 0)) = 0xFFFF, False, ?right 100 = 0]
    @ map (\<lambda>j. of_be16 (fst (drawn (j + 1))) (snd (drawn (j + 1))) = ?right (sizes j)
        \<or> ?right (sizes j) = 0 \<and> of_be16 (fst (drawn (j + 1))) (snd (drawn (j + 1))) = 0xFFFF) [0..<5]"
    using base off by (simp only: list.map map_append map_map comp_def zero ones v[of 100 "fst (drawn 0)"] v[of "sizes _"] simp_thms)
  then show ?thesis by (intro exI[of _ ?fs] conjI f) (simp add: Let_def case_prod_beta)
qed

text \<open>A packet that claims a total length.\<close>

definition claimed_frame :: "PacketContext \<Rightarrow> nat \<Rightarrow> u16 \<Rightarrow> bytes \<Rightarrow> bytes" where
  "claimed_frame cx n v rest = base_ethernet cx @ claim_length v (written_header cx n) @ rest"

lemma claimed_frame_view:
  assumes "wf_context cx"
  shows "ip_total (claimed_frame cx n v rest) = unat v" and "length (claimed_frame cx n v rest) = 34 + length rest"
  using assms by (simp_all add: ip_total_def claimed_frame_def claim_length_def nth_append)

lemma claim_length_frame: "base_ethernet cx @ claim_length v (written_header cx n) @ rest = claimed_frame cx n v rest"
  by (simp add: claimed_frame_def)

lemma claim_small_frame:
  "base_ethernet cx @ (written_header cx n)[2 := 0, 3 := 50, 10 := 0, 11 := 0] @ rest = claimed_frame cx n 50 rest"
  "base_ethernet cx @ (written_header cx n)[2 := 0, 3 := 200, 10 := 0, 11 := 0] @ rest = claimed_frame cx n 200 rest"
proof -
  have "ucast (drop_bit 8 (50 :: u16)) = (0 :: u8)" "ucast (50 AND 0xFF :: u16) = (50 :: u8)"
    "ucast (drop_bit 8 (200 :: u16)) = (0 :: u8)" "ucast (200 AND 0xFF :: u16) = (200 :: u8)" by code_simp+
  then show "base_ethernet cx @ (written_header cx n)[2 := 0, 3 := 50, 10 := 0, 11 := 0] @ rest = claimed_frame cx n 50 rest"
    "base_ethernet cx @ (written_header cx n)[2 := 0, 3 := 200, 10 := 0, 11 := 0] @ rest = claimed_frame cx n 200 rest"
    by (simp_all only: claimed_frame_def claim_length_def)
qed

text \<open>What the packets of the length campaign claim against what they carry. No claim is right, the baseline's neither: the
  length handed to the header writer already includes the header the writer adds, and so does that of every packet of every
  campaign.\<close>

theorem length_campaign:
  assumes "header_formats ep" "wf_context cx"
  shows "(\<exists>fs. length_mismatch_frames ep cx rng = map Inr fs
      \<and> map (\<lambda>f. (ip_total f, length f - 14)) fs = [(160, 140), (50, 140), (200, 140), (65, 90), (140, 90), (140, 240), (340, 240)])
    \<and> (\<exists>fs. segment_size_frames ep cx rng = map Inr fs
      \<and> map (\<lambda>f. (ip_total f, length f - 14)) fs = map (\<lambda>n. (n + 60, n + 40)) segment_sizes)"
proof -
  obtain tcp where t: "length tcp = 20"
    and b: "\<And>n rng. n \<le> 65475 \<Longrightarrow> build_base_layers ep cx n rng = Inr (base_ethernet cx, written_header cx n, tcp, map rng [0..<n])"
    using base_layers[OF assms] by metis
  let ?s = "\<lambda>k n. packet_frame cx n (be16 (right_checksum (base_header cx n [0, 0]))) (tcp @ map (rng k) [0..<n])"
  let ?m = "\<lambda>k n v. claimed_frame cx n v (tcp @ map (rng k) [0..<n])"
  let ?ms = "[?s 0 100, ?m 1 100 50, ?m 2 100 200, ?m 3 50 65, ?m 4 50 140, ?m 5 200 140, ?m 6 200 340]"
  have m: "length_mismatch_frames ep cx rng = map Inr ?ms"
    by (simp add: length_mismatch_frames_def context_build_packet_def b and_build_def patched_def written_packet
        claim_length_frame claim_small_frame del: upt_rec_numeral)
  have s: "segment_size_frames ep cx rng = map Inr (map (\<lambda>(k, n). ?s k n) (enumerate 0 segment_sizes))"
    by (simp add: segment_size_frames_def context_build_packet_def segment_sizes_def b written_packet del: upt_rec_numeral)
  have mv: "map (\<lambda>f. (ip_total f, length f - 14)) ?ms = [(160, 140), (50, 140), (200, 140), (65, 90), (140, 90), (140, 240), (340, 240)]"
    by (simp add: packet_frame_view[OF assms(2)] claimed_frame_view[OF assms(2)] t del: upt_rec_numeral)
  have sv: "map (\<lambda>f. (ip_total f, length f - 14)) (map (\<lambda>(k, n). ?s k n) (enumerate 0 segment_sizes))
      = map (\<lambda>n. (n + 60, n + 40)) segment_sizes"
    by (simp add: packet_frame_view[OF assms(2)] segment_sizes_def t del: upt_rec_numeral)
  show ?thesis by (rule conjI; rule exI, rule conjI) (rule m, rule mv, rule s, rule sv)
qed

text \<open>The option bytes of the options campaign are payload: every packet has a TCP header of twenty bytes, and what was meant as its
  options follows that header. Its total length says sixty bytes, of which it has between forty-three and forty-six.\<close>

theorem options_are_payload:
  assumes "header_formats ep" "wf_context cx"
  shows "\<exists>fs. tcp_options_frames ep cx rng = map Inr fs
    \<and> map (\<lambda>f. (f ! 46, drop 54 f)) fs = map (Pair 0x50) ([[2, 4, 5, 0xB4, 0, 0], [2, 4, 0, 0, 0], [2, 4, 0xFF, 0xFF, 0], [2, 2, 0],
        [3, 1, 4, 5, 0]] @ map (\<lambda>kind. [kind, 4, 0, 0, 0]) [255, 254, 200, 150, 100])
    \<and> list_all (\<lambda>f. ip_total f = 60 \<and> length f - 14 \<le> 46 \<and> ip_verifies f) fs"
proof -
  obtain tcp where t: "length tcp = 20" "tcp ! 12 = 0x50"
    and b: "\<And>n rng. n \<le> 65475 \<Longrightarrow> build_base_layers ep cx n rng = Inr (base_ethernet cx, written_header cx n, tcp, map rng [0..<n])"
    using base_layers[OF assms] by metis
  let ?c = "right_checksum (base_header cx 0 [0, 0])"
  let ?o = "\<lambda>opts. packet_frame cx 0 (be16 ?c) (tcp @ opts)"
  let ?opts = "[[2, 4, 5, 0xB4, 0, 0], [2, 4, 0, 0, 0], [2, 4, 0xFF, 0xFF, 0], [2, 2, 0], [3, 1, 4, 5, 0]]
    @ map (\<lambda>kind. [kind, 4, 0, 0, 0]) [255, 254, 200, 150, 100]"
  have mss: "ucast (drop_bit 8 (1460 :: u16)) = (5 :: u8)" "ucast (1460 AND 0xFF :: u16) = (0xB4 :: u8)" by code_simp+
  have len: "length (packet_frame cx 0 (be16 ?c) (tcp @ xs)) = 54 + length xs" for xs
    using packet_frame_view(2)[OF assms(2), of "be16 ?c"] t(1) by simp
  have pad: "pad_zero (?o [2, 4, 5, 0xB4, 0]) = ?o [2, 4, 5, 0xB4, 0, 0]"
  proof -
    have s: "?o [2, 4, 5, 0xB4, 0] @ [0] = ?o [2, 4, 5, 0xB4, 0, 0]" by (simp add: packet_frame_def)
    have "pad_zero (?o [2, 4, 5, 0xB4, 0]) = pad_zero (?o [2, 4, 5, 0xB4, 0] @ [0])"
      by (subst pad_zero.simps) (simp add: len)
    also have "\<dots> = ?o [2, 4, 5, 0xB4, 0, 0]" unfolding s by (subst pad_zero.simps) (simp add: len)
    finally show ?thesis .
  qed
  have f: "tcp_options_frames ep cx rng = map Inr (map ?o ?opts)"
    using pad by (simp add: tcp_options_frames_def b and_build_def with_options_def written_packet mss)
  have v: "?o xs ! 46 = 0x50 \<and> drop 54 (?o xs) = xs \<and> ip_total (?o xs) = 60 \<and> ip_verifies (?o xs)" for xs
  proof -
    have "?o xs ! 46 = 0x50" using assms(2) t by (simp add: packet_frame_def nth_append)
    moreover have "drop 54 (?o xs) = xs" using assms(2) t by (simp add: packet_frame_def)
    moreover have "ip_total (?o xs) = 60" using packet_frame_view(1)[OF assms(2), of "be16 ?c" 0] by simp
    moreover have "ip_verifies (?o xs)" unfolding be16_def packet_frame_verifies[OF assms(2)] of_be16_be16 by simp
    ultimately show ?thesis by blast
  qed
  have "map (\<lambda>f. (f ! 46, drop 54 f)) (map ?o ?opts) = map (Pair 0x50) ?opts" by (simp only: map_map comp_def v)
  moreover have "list_all (\<lambda>f. ip_total f = 60 \<and> length f - 14 \<le> 46 \<and> ip_verifies f) (map ?o ?opts)"
    by (simp add: v len)
  ultimately show ?thesis by (intro exI[of _ "map ?o ?opts"] conjI f)
qed

section \<open>The two checksum routines\<close>

text \<open>C30: the checksum of the packet builder is the checksum the replay writes: recomputing a header's checksum stores exactly the
  builder's result on the header with that field zeroed.\<close>

theorem checksum_routines_agree:
  assumes "20 \<le> header_length ip" "header_length ip \<le> length ip"
  shows "recompute_ipv4_checksum ip =
     (let z = ip[10 := 0, 11 := 0]; cs = calculate_ip_checksum (take (header_length ip) z)
      in z[10 := ucast (drop_bit 8 cs), 11 := ucast (cs AND 0xFF)])"
proof -
  let ?z = "ip[10 := 0, 11 := 0]" and ?l = "header_length ip"
  obtain n where n: "?l = 2 * n" using header_length_bounds(2) by blast
  have "calculate_ip_checksum (take ?l ?z) = ucast (NOT (fold_carries (header_sum ?z ?l)))"
  proof -
    have "fold (\<lambda>k sum. if 2 * k + 1 < length (take ?l ?z)
            then sum + (push_bit 8 (ucast (take ?l ?z ! (2 * k))) OR ucast (take ?l ?z ! (2 * k + 1)))
            else sum + push_bit 8 (ucast (take ?l ?z ! (2 * k)))) [0..<(length (take ?l ?z) + 1) div 2] (0 :: u32) = header_sum ?z ?l"
      unfolding header_sum_def
    proof (rule fold_cong)
      show e: "[0..<(length (take ?l ?z) + 1) div 2] = [0..<?l div 2]" using assms n by simp
      fix k assume "k \<in> set [0..<(length (take ?l ?z) + 1) div 2]"
      then have "2 * k + 1 < ?l" unfolding e using n by auto
      then show "(\<lambda>sum. if 2 * k + 1 < length (take ?l ?z)
            then sum + (push_bit 8 (ucast (take ?l ?z ! (2 * k))) OR ucast (take ?l ?z ! (2 * k + 1)))
            else sum + push_bit 8 (ucast (take ?l ?z ! (2 * k))))
          = (\<lambda>sum. sum + (push_bit 8 (ucast (?z ! (2 * k))) OR ucast (?z ! (2 * k + 1)) :: u32))"
        using assms by auto
    qed simp
    then show ?thesis by (simp add: calculate_ip_checksum_def Let_def)
  qed
  moreover have "(ucast (NOT w) :: u16) = NOT (ucast w)" for w :: u32
    by (rule bit_word_eqI) (auto simp: bit_simps)
  ultimately show ?thesis using assms by (simp add: recompute_ipv4_checksum_def Let_def)
qed

section \<open>Targets\<close>

lemma split_on_join:
  assumes "xs \<noteq> []" "\<forall>x \<in> set xs. d \<notin> set x"
  shows "split_on d (join [d] xs) = xs"
  using assms
proof (induction xs)
  case (Cons x xs)
  then show ?case by (cases xs) (simp_all add: split_on_absent split_on_append)
qed simp

lemma digit_char_not_zero: "0 < k \<Longrightarrow> k < 10 \<Longrightarrow> digit_char k \<noteq> CHR ''0''"
proof
  assume "0 < k" "k < 10" "digit_char k = CHR ''0''"
  then have "digit_val (CHR ''0'') = Some k" using digit_val_digit_char[of k] by simp
  moreover have "digit_val (CHR ''0'') = Some 0" by code_simp
  ultimately show False using \<open>0 < k\<close> by simp
qed

lemma parse_octet_show:
  assumes "n \<le> 255" shows "parse_octet (show_nat n) = Some n"
proof -
  consider "n < 10" | "10 \<le> n" "n < 100" | "100 \<le> n" "n < 1000" using assms by linarith
  then have "length (show_nat n) \<le> 3 \<and> (1 < length (show_nat n) \<longrightarrow> hd (show_nat n) \<noteq> CHR ''0'')"
  proof cases
    case 1 then show ?thesis by (simp add: show_nat.simps[of n])
  next
    case 2
    then have "show_nat n = [digit_char (n div 10), digit_char (n mod 10)]"
      by (simp add: show_nat.simps[of n] show_nat.simps[of "n div 10"])
    moreover have "digit_char (n div 10) \<noteq> CHR ''0''" using 2 by (intro digit_char_not_zero) simp_all
    ultimately show ?thesis by simp
  next
    case 3
    then have "show_nat n = [digit_char (n div 10 div 10), digit_char (n div 10 mod 10), digit_char (n mod 10)]"
    proof -
      have "\<not> n div 10 < 10" "n div 10 div 10 < 10" using 3 by (simp_all add: not_less less_mult_imp_div_less)
      then show ?thesis using 3
        by (simp only: show_nat.simps[of n] show_nat.simps[of "n div 10"] show_nat.simps[of "n div 10 div 10"] if_False if_True) simp
    qed
    moreover have "digit_char (n div 10 div 10) \<noteq> CHR ''0''" using 3 by (intro digit_char_not_zero) simp_all
    ultimately show ?thesis by simp
  qed
  then show ?thesis using assms by (auto simp: parse_octet_def read_radix_show_nat)
qed

lemma parse_ipv4_to_string:
  assumes "length os = 4" "list_all (\<lambda>n. n \<le> 255) os"
  shows "parse_ipv4 (ipv4_to_string os) = Some os"
proof -
  have "split_on (CHR ''.'') (ipv4_to_string os) = map show_nat os"
    unfolding ipv4_to_string_def
  proof (rule split_on_join)
    show "\<forall>x \<in> set (map show_nat os). CHR ''.'' \<notin> set x"
      using show_nat_digits[of "CHR ''.''"] by (auto simp: is_digit_def)
  qed (use assms(1) in auto)
  moreover have "map parse_octet (map show_nat os) = map Some os"
    using assms(2) by (auto simp: list_all_iff parse_octet_show)
  ultimately have "parse_ipv4 (ipv4_to_string os)
      = (if length (map Some os) = 4 \<and> None \<notin> set (map Some os) then Some (map the (map Some os)) else None)"
    by (simp only: parse_ipv4_def Let_def)
  then show ?thesis using assms(1) by (auto simp: comp_def)
qed

text \<open>A target given as an address is the destination of the context, and the source is 192.168.1.100; a host name gets its
  first IPv4 address. The address is printed and read again on the way, which loses nothing.\<close>

theorem target_address_kept:
  assumes "length os = 4" "list_all (\<lambda>n. n \<le> 255) os"
    and "parse_ipv4 target = Some os \<or> parse_ipv4 target = None
      \<and> (\<exists>xs ys. to_socket_addrs (target @ '':443'') = Inr (map V6 xs @ V4 os # ys))"
  shows "for_target to_socket_addrs target rng port = Inr \<lparr>cx_src_ip = [192, 168, 1, 100], cx_dst_ip = map of_nat os,
    cx_src_mac = 2 # map rng [0..<5], cx_dst_mac = 2 # map rng [5..<10], cx_src_port = port, cx_dst_port = 443\<rparr>"
proof -
  have "List.find (\<lambda>a. case a of V4 _ \<Rightarrow> True | V6 _ \<Rightarrow> False) (map V6 xs @ V4 os # ys) = Some (V4 os)" for xs ys
    by (induction xs) simp_all
  then have "for_target to_socket_addrs target rng port
      = context_new (ipv4_to_string [192, 168, 1, 100]) (ipv4_to_string os) rng port"
    using assms(3) by (auto simp: for_target_def Let_def)
  then show ?thesis
    using parse_ipv4_to_string[of "[192, 168, 1, 100]"] parse_ipv4_to_string[OF assms(1,2)] by (simp add: context_new_def)
qed

section \<open>A writer and a context\<close>

text \<open>A writer of these formats: the plain one with the checksum put in.\<close>

definition checked_wire :: Etherparse where
  "checked_wire = plain_wire\<lparr>ipv4_write := (\<lambda>h. map_sum id (\<lambda>bs. let c = be16 (right_checksum bs) in bs[10 := c ! 0, 11 := c ! 1]) (ipv4_write plain_wire h))\<rparr>"

definition demo_context :: PacketContext where
  "demo_context = \<lparr>cx_src_ip = [192, 168, 1, 100], cx_dst_ip = [8, 8, 8, 8], cx_src_mac = [2, 1, 1, 1, 1, 1], cx_dst_mac = [2, 2, 2, 2, 2, 2],
     cx_src_port = 50000, cx_dst_port = 443\<rparr>"

lemma demo_context_wf: "wf_context demo_context"
  by (simp add: wf_context_def demo_context_def)

lemma checked_wire_formats: "header_formats checked_wire"
proof -
  let ?pre = "\<lambda>h. [0x45, 0] @ be16 (h4_payload_len h + 20) @ be16 (h4_identification h)
    @ be16 (flag_word (h4_dont_fragment h) (h4_more_fragments h) (h4_fragment_offset h)) @ [h4_ttl h, h4_protocol h]"
  have w: "ipv4_write checked_wire h = Inr (?pre h @ be16 (right_checksum (?pre h @ [0, 0] @ h4_source h @ h4_destination h))
      @ h4_source h @ h4_destination h)" for h
    by (simp add: checked_wire_def plain_wire_def Let_def be16_def)
  have r: "right_checksum (?pre h @ [a, b] @ rest) = right_checksum (?pre h @ [0, 0] @ rest)" for h a b rest
    by (simp add: right_checksum_def be16_def)
  have "wire_formats checked_wire"
    unfolding wire_formats_def
  proof (intro conjI allI)
    fix h
    show "\<exists>c. length c = 2 \<and> ipv4_write checked_wire h = Inr ([0x45, 0] @ be16 (h4_payload_len h + 20)
          @ be16 (h4_identification h) @ be16 (flag_word (h4_dont_fragment h) (h4_more_fragments h) (h4_fragment_offset h))
          @ [h4_ttl h, h4_protocol h] @ c @ h4_source h @ h4_destination h)"
      unfolding w by (intro exI conjI) (rule be16_length, simp)
  qed (use plain_wire_formats in \<open>auto simp: checked_wire_def wire_formats_def\<close>)
  moreover have "[bs ! 10, bs ! 11] = be16 (right_checksum bs)" if "ipv4_write checked_wire h = Inr bs" for h bs
  proof -
    have "bs = ?pre h @ be16 (right_checksum (?pre h @ [0, 0] @ h4_source h @ h4_destination h)) @ h4_source h @ h4_destination h"
      using that w by simp
    moreover define c where "c = right_checksum (?pre h @ [0, 0] @ h4_source h @ h4_destination h)"
    moreover define pre where "pre = ?pre h"
    ultimately have b: "bs = pre @ [ucast (drop_bit 8 c), ucast c] @ h4_source h @ h4_destination h" by (simp add: be16_def)
    have "right_checksum bs = c" unfolding b pre_def c_def by (rule r)
    moreover have "length pre = 10" by (simp add: pre_def)
    ultimately show ?thesis by (simp add: b be16_def nth_append)
  qed
  moreover have "\<exists>fl ck. length ck = 4 \<and> tcp_write checked_wire h = Inr (be16 (ht_source_port h) @ be16 (ht_destination_port h)
        @ be32 (ht_sequence_number h) @ be32 (ht_acknowledgment_number h)
        @ [of_nat (16 * (5 + length (ht_options h) div 4)), fl] @ be16 (ht_window_size h) @ ck @ ht_options h)" for h
    by (intro exI[of _ 0] exI[of _ "[0, 0, 0, 0]"]) (simp add: checked_wire_def plain_wire_def)
  ultimately show ?thesis unfolding header_formats_def by blast
qed

theorem fragmentation_campaign_witness:
  "\<exists>fs. fragmentation_frames checked_wire demo_context (\<lambda>_ _. 0) = map Inr fs \<and> length fs = 13"
proof -
  obtain fs where f: "fragmentation_frames checked_wire demo_context (\<lambda>_ _. 0) = map Inr fs"
    and l: "map (\<lambda>f. (ip_total f, length f - 14)) fs
      = [(160, 90), (160, 70), (160, 100), (160, 70), (180, 80), (180, 60), (150, 60), (150, 80), (150, 30),
         (92, 48), (92, 28), (92, 28), (92, 28)]"
    using fragmentation_campaign[OF checked_wire_formats demo_context_wf, of "\<lambda>_ _. 0"] by (elim exE conjE) (rule that)
  from l have "length (map (\<lambda>f. (ip_total f, length f - 14)) fs) = 13" by simp
  then show ?thesis using f by auto
qed

theorem checksum_campaign_witness:
  "\<exists>fs. checksum_frames checked_wire demo_context (\<lambda>_ _. 0) (\<lambda>_. (0, 0)) (\<lambda>_. 50) = map Inr fs
     \<and> take 1 (map ip_verifies fs) = [True] \<and> take 1 (drop 3 (map ip_verifies fs)) = [False]"
proof -
  have s: "50 \<le> (\<lambda>_ :: nat. 50 :: nat) j \<and> (\<lambda>_ :: nat. 50 :: nat) j < 500" for j by simp
  show ?thesis
    using checksum_campaign[OF checked_wire_formats demo_context_wf s, of "\<lambda>_ _. 0" "\<lambda>_. (0, 0)"]
    by (elim exE conjE) (rule exI, rule conjI, assumption, simp add: Let_def)
qed

theorem length_campaign_witness:
  "\<exists>fs. length_mismatch_frames checked_wire demo_context (\<lambda>_ _. 0) = map Inr fs
     \<and> map (\<lambda>f. (ip_total f, length f - 14)) fs = [(160, 140), (50, 140), (200, 140), (65, 90), (140, 90), (140, 240), (340, 240)]"
  by (rule length_campaign[OF checked_wire_formats demo_context_wf, THEN conjunct1])

theorem options_are_payload_witness:
  "\<exists>fs. tcp_options_frames checked_wire demo_context (\<lambda>_ _. 0) = map Inr fs
     \<and> map (\<lambda>f. (f ! 46, drop 54 f)) (take 1 fs) = [(0x50, [2, 4, 5, 0xB4, 0, 0])]"
proof -
  obtain fs where f: "tcp_options_frames checked_wire demo_context (\<lambda>_ _. 0) = map Inr fs"
    and m: "map (\<lambda>f. (f ! 46, drop 54 f)) fs = map (Pair 0x50) ([[2, 4, 5, 0xB4, 0, 0], [2, 4, 0, 0, 0], [2, 4, 0xFF, 0xFF, 0], [2, 2, 0],
        [3, 1, 4, 5, 0]] @ map (\<lambda>kind. [kind, 4, 0, 0, 0]) [255, 254, 200, 150, 100])"
    using options_are_payload[OF checked_wire_formats demo_context_wf, of "\<lambda>_ _. 0"] by (elim exE conjE) (rule that)
  have "map (\<lambda>f. (f ! 46, drop 54 f)) (take 1 fs) = take 1 (map (\<lambda>f. (f ! 46, drop 54 f)) fs)" by (simp add: take_map)
  then show ?thesis using f unfolding m by (intro exI[of _ fs] conjI f) simp
qed

theorem checksum_routines_agree_witness:
  "recompute_ipv4_checksum (0x45 # replicate 19 0) ! 10 = 0xBA"
proof -
  let ?ip = "0x45 # replicate 19 0 :: bytes"
  have h: "20 \<le> header_length ?ip" "header_length ?ip \<le> length ?ip" by code_simp+
  have "calculate_ip_checksum (take (header_length ?ip) (?ip[10 := 0, 11 := 0])) = 0xBAFF" by code_simp
  moreover have "ucast (drop_bit 8 (0xBAFF :: u16)) = (0xBA :: u8)" by code_simp
  ultimately show ?thesis using checksum_routines_agree[OF h] by (simp add: Let_def)
qed

theorem target_address_kept_witness:
  "\<exists>cx. for_target (\<lambda>_. Inr [V6 [], V4 [8, 8, 4, 4]]) ''dns.example'' (\<lambda>_. 7) 50000 = Inr cx \<and> cx_dst_ip cx = [8, 8, 4, 4]"
proof -
  have "parse_ipv4 ''dns.example'' = None" by code_simp
  moreover have "\<exists>xs ys. (\<lambda>_. Inr [V6 [], V4 [8, 8, 4, 4]]) (''dns.example'' @ '':443'') = Inr (map V6 xs @ V4 [8, 8, 4, 4] # ys)"
    by (intro exI[of _ "[[]]"] exI[of _ "[]"]) simp
  ultimately show ?thesis
    using target_address_kept[of "[8, 8, 4, 4]" "''dns.example''" "\<lambda>_. Inr [V6 [], V4 [8, 8, 4, 4]]" "\<lambda>_. 7" 50000] by simp
qed

end
