(* ===== verification/Test_Framework.thy ===== *)
theory Test_Framework
  imports F64_Ext "HOL-Library.AList"
begin

text \<open>
  The test framework of the desktop: \<open>framework/result.rs\<close>, \<open>test_trait.rs\<close>, \<open>orchestrator.rs\<close>, the registration of the tests
  (\<open>bin/desktop/test_registration.rs\<close>) and the runner that turns a run into a stream of updates
  (\<open>bin/desktop/state/test_runner.rs\<close>). A test is a record of what the trait asks of it, its \<open>run\<close> an argument that may answer
  each call differently. A \<open>HashMap\<close> is an association list with distinct keys, durations are nanoseconds, the clock and the
  privileges are observations.
\<close>

section \<open>Results\<close>

datatype TestCategory = MTU | RTT | PacketLoss | PathAnalysis | TCPHealth | DNS | HTTPS | IPv6 | Application | Fuzzing

definition all_categories :: "TestCategory list" where
  "all_categories = [MTU, RTT, PacketLoss, PathAnalysis, TCPHealth, DNS, HTTPS, IPv6, Application, Fuzzing]"

fun category_as_str :: "TestCategory \<Rightarrow> string" where
  "category_as_str MTU = ''MTU''"
| "category_as_str RTT = ''RTT''"
| "category_as_str PacketLoss = ''Packet Loss''"
| "category_as_str PathAnalysis = ''Path Analysis''"
| "category_as_str TCPHealth = ''TCP Health''"
| "category_as_str DNS = ''DNS''"
| "category_as_str HTTPS = ''HTTPS''"
| "category_as_str IPv6 = ''IPv6''"
| "category_as_str Application = ''Application''"
| "category_as_str Fuzzing = ''Fuzzing''"

text \<open>The deserializer: the error text, or the category of that name.\<close>

definition category_deserialize :: "string \<Rightarrow> string + TestCategory" where
  "category_deserialize s =
     (if s = ''MTU'' then Inr MTU else if s = ''RTT'' then Inr RTT else if s = ''Packet Loss'' then Inr PacketLoss
      else if s = ''Path Analysis'' then Inr PathAnalysis else if s = ''TCP Health'' then Inr TCPHealth
      else if s = ''DNS'' then Inr DNS else if s = ''HTTPS'' then Inr HTTPS else if s = ''IPv6'' then Inr IPv6
      else if s = ''Application'' then Inr Application else if s = ''Fuzzing'' then Inr Fuzzing
      else Inl (''Unknown test category: '' @ s))"

text \<open>\<open>*c as u8\<close>; the order of the categories is that of their numbers.\<close>

fun category_as_u8 :: "TestCategory \<Rightarrow> nat" where
  "category_as_u8 MTU = 0"
| "category_as_u8 RTT = 1"
| "category_as_u8 PacketLoss = 2"
| "category_as_u8 PathAnalysis = 3"
| "category_as_u8 TCPHealth = 4"
| "category_as_u8 DNS = 5"
| "category_as_u8 HTTPS = 6"
| "category_as_u8 IPv6 = 7"
| "category_as_u8 Application = 8"
| "category_as_u8 Fuzzing = 9"

lemma category_as_u8_inj: "category_as_u8 a = category_as_u8 b \<longleftrightarrow> a = b"
  by (cases a; cases b) simp_all

instantiation TestCategory :: linorder
begin

definition less_eq_TestCategory :: "TestCategory \<Rightarrow> TestCategory \<Rightarrow> bool" where
  "less_eq_TestCategory a b \<longleftrightarrow> category_as_u8 a \<le> category_as_u8 b"

definition less_TestCategory :: "TestCategory \<Rightarrow> TestCategory \<Rightarrow> bool" where
  "less_TestCategory a b \<longleftrightarrow> category_as_u8 a < category_as_u8 b"

instance
  by standard (auto simp: less_eq_TestCategory_def less_TestCategory_def category_as_u8_inj[symmetric])

end

datatype TestStatus = Pending | Running | Success | Warning | Failed | Skipped

datatype DiagnosisSeverity = Info | WarningSeverity | ErrorSeverity | Critical

record TestDiagnosis =
  td_severity :: DiagnosisSeverity
  td_title :: string
  td_description :: string
  td_recommendations :: "string list"
  td_related_tests :: "string list"

record TestResult =
  tr_name :: string
  tr_category :: TestCategory
  tr_target :: string
  tr_status :: TestStatus
  tr_metrics :: "(string \<times> f64) list"
  tr_metadata :: "(string \<times> string) list"
  tr_diagnoses :: "TestDiagnosis list"
  tr_duration :: nat
  tr_timestamp :: u64

definition test_result_new :: "u64 \<Rightarrow> string \<Rightarrow> TestCategory \<Rightarrow> string \<Rightarrow> TestResult" where
  "test_result_new now n c t = \<lparr>tr_name = n, tr_category = c, tr_target = t, tr_status = Running, tr_metrics = [], tr_metadata = [],
     tr_diagnoses = [], tr_duration = 0, tr_timestamp = now\<rparr>"

definition add_metric :: "string \<Rightarrow> f64 \<Rightarrow> TestResult \<Rightarrow> TestResult" where
  "add_metric k v r = r\<lparr>tr_metrics := AList.update k v (tr_metrics r)\<rparr>"

definition add_metadata :: "string \<Rightarrow> string \<Rightarrow> TestResult \<Rightarrow> TestResult" where
  "add_metadata k v r = r\<lparr>tr_metadata := AList.update k v (tr_metadata r)\<rparr>"

definition add_diagnosis :: "TestDiagnosis \<Rightarrow> TestResult \<Rightarrow> TestResult" where
  "add_diagnosis d r = r\<lparr>tr_diagnoses := tr_diagnoses r @ [d]\<rparr>"

definition set_status :: "TestStatus \<Rightarrow> TestResult \<Rightarrow> TestResult" where
  "set_status s r = r\<lparr>tr_status := s\<rparr>"

definition has_issues :: "TestResult \<Rightarrow> bool" where
  "has_issues r \<longleftrightarrow> tr_diagnoses r \<noteq> [] \<or> tr_status r = Failed"

definition diagnosis_new :: "DiagnosisSeverity \<Rightarrow> string \<Rightarrow> string \<Rightarrow> TestDiagnosis" where
  "diagnosis_new s t d = \<lparr>td_severity = s, td_title = t, td_description = d, td_recommendations = [], td_related_tests = []\<rparr>"

definition with_recommendation :: "string \<Rightarrow> TestDiagnosis \<Rightarrow> TestDiagnosis" where
  "with_recommendation x d = d\<lparr>td_recommendations := td_recommendations d @ [x]\<rparr>"

definition with_related_test :: "string \<Rightarrow> TestDiagnosis \<Rightarrow> TestDiagnosis" where
  "with_related_test x d = d\<lparr>td_related_tests := td_related_tests d @ [x]\<rparr>"

section \<open>Tests and their orchestrator\<close>

text \<open>\<open>NetworkTest\<close>; the first argument of \<open>nt_run\<close> numbers the call.\<close>

record NetworkTest =
  nt_name :: string
  nt_category :: TestCategory
  nt_requires_root :: bool
  nt_run :: "nat \<Rightarrow> string \<Rightarrow> string + TestResult"

type_synonym stored_results = "(string \<times> (TestCategory \<times> TestResult) list) list"

record TestOrchestrator =
  orch_tests :: "NetworkTest list"
  orch_results :: stored_results

record RunObs =
  ro_root :: bool
  ro_now :: "nat \<Rightarrow> u64"
  ro_elapsed :: "nat \<Rightarrow> nat"

definition orchestrator_new :: TestOrchestrator where
  "orchestrator_new = \<lparr>orch_tests = [], orch_results = []\<rparr>"

definition register :: "NetworkTest \<Rightarrow> TestOrchestrator \<Rightarrow> TestOrchestrator" where
  "register t orch = orch\<lparr>orch_tests := orch_tests orch @ [t]\<rparr>"

definition orch_store :: "string \<Rightarrow> TestResult \<Rightarrow> TestOrchestrator \<Rightarrow> TestOrchestrator" where
  "orch_store target r orch =
     (let entry = (case map_of (orch_results orch) target of Some m \<Rightarrow> m | None \<Rightarrow> [])
      in orch\<lparr>orch_results := AList.update target (AList.update (tr_category r) r entry) (orch_results orch)\<rparr>)"

text \<open>Every branch sets the duration, stores the result and returns it.\<close>

definition test_outcome :: "RunObs \<Rightarrow> nat \<Rightarrow> NetworkTest \<Rightarrow> string \<Rightarrow> TestResult" where
  "test_outcome ob k test target =
     (let fresh = test_result_new (ro_now ob k) (nt_name test) (nt_category test) target in
      if nt_requires_root test \<and> \<not> ro_root ob
      then (add_metadata ''skip_reason'' ''Requires root privileges'' (set_status Skipped fresh))\<lparr>tr_duration := ro_elapsed ob k\<rparr>
      else (case nt_run test k target of
              Inl e \<Rightarrow> (add_metadata ''error'' e (set_status Failed fresh))\<lparr>tr_duration := ro_elapsed ob k\<rparr>
            | Inr r \<Rightarrow> r\<lparr>tr_duration := ro_elapsed ob k\<rparr>))"

definition run_single :: "RunObs \<Rightarrow> nat \<Rightarrow> NetworkTest \<Rightarrow> string \<Rightarrow> TestOrchestrator \<Rightarrow> (string + TestResult) \<times> TestOrchestrator" where
  "run_single ob k test target orch =
     (let r = test_outcome ob k test target in (Inr r, orch_store target r orch))"

text \<open>The tests a run goes through, with \<open>filter_map\<close> dropping errors; the tests are numbered.\<close>

fun run_tests :: "RunObs \<Rightarrow> nat \<Rightarrow> NetworkTest list \<Rightarrow> string \<Rightarrow> TestOrchestrator \<Rightarrow> TestResult list \<times> TestOrchestrator" where
  "run_tests ob k [] target orch = ([], orch)"
| "run_tests ob k (test # rest) target orch =
     (case run_single ob k test target orch of (out, orch1) \<Rightarrow>
      case run_tests ob (Suc k) rest target orch1 of (rs, orch2) \<Rightarrow>
        ((case out of Inl _ \<Rightarrow> rs | Inr r \<Rightarrow> r # rs), orch2))"

definition orch_run_all :: "RunObs \<Rightarrow> string \<Rightarrow> TestOrchestrator \<Rightarrow> TestResult list \<times> TestOrchestrator" where
  "orch_run_all ob target orch = run_tests ob 0 (orch_tests orch) target orch"

definition orch_run_category :: "RunObs \<Rightarrow> nat \<Rightarrow> string \<Rightarrow> TestCategory \<Rightarrow> TestOrchestrator \<Rightarrow> TestResult list \<times> TestOrchestrator" where
  "orch_run_category ob k target c orch = run_tests ob k (filter (\<lambda>t. nt_category t = c) (orch_tests orch)) target orch"

definition orch_get_result :: "string \<Rightarrow> TestCategory \<Rightarrow> TestOrchestrator \<Rightarrow> TestResult option" where
  "orch_get_result target c orch = (case map_of (orch_results orch) target of None \<Rightarrow> None | Some m \<Rightarrow> map_of m c)"

definition orch_target_results :: "string \<Rightarrow> TestOrchestrator \<Rightarrow> (TestCategory \<times> TestResult) list" where
  "orch_target_results target orch = (case map_of (orch_results orch) target of None \<Rightarrow> [] | Some m \<Rightarrow> m)"

definition orch_all_results :: "TestOrchestrator \<Rightarrow> stored_results" where
  "orch_all_results orch = orch_results orch"

definition orch_clear :: "TestOrchestrator \<Rightarrow> TestOrchestrator" where
  "orch_clear orch = orch\<lparr>orch_results := []\<rparr>"

definition available_categories :: "TestOrchestrator \<Rightarrow> TestCategory list" where
  "available_categories orch = remdups_adj (sort_key category_as_u8 (map nt_category (orch_tests orch)))"

definition test_count :: "TestCategory \<Rightarrow> TestOrchestrator \<Rightarrow> nat" where
  "test_count c orch = length (filter (\<lambda>t. nt_category t = c) (orch_tests orch))"

section \<open>The registered tests\<close>

text \<open>Name and category of the tests in the order of their registration; none requires root. What a test does is an argument.\<close>

definition registered_tests :: "(string \<times> TestCategory) list" where
  "registered_tests =
     [(''DNS Resolution'', DNS), (''ICMP MTU Discovery'', MTU), (''TCP MSS Discovery'', MTU), (''Tunnel MSS Clamping Analysis'', MTU),
      (''HTTPS Stage-by-Stage'', HTTPS), (''TCP Segmentation Detection'', TCPHealth), (''TCP Health Analysis'', TCPHealth),
      (''RTT/Latency Test'', RTT), (''Packet Loss Analysis'', PacketLoss), (''Path Analysis (Traceroute)'', PathAnalysis),
      (''IPv6 Connectivity'', IPv6), (''Application Protocol Detection'', Application), (''Fuzzing: All Modes'', Fuzzing),
      (''HTTP Upload Size Sweep'', HTTPS), (''SSH Data-Path'', Application), (''Raw 9100 Bulk Sweep'', Application),
      (''TCP Options Echo'', TCPHealth), (''QUIC PMTU Probe'', MTU), (''DNS Secure Comparison'', DNS)]"

definition register_all_tests :: "(string \<Rightarrow> nat \<Rightarrow> string \<Rightarrow> string + TestResult) \<Rightarrow> TestOrchestrator \<Rightarrow> TestOrchestrator" where
  "register_all_tests run orch =
     fold (\<lambda>(n, c). register \<lparr>nt_name = n, nt_category = c, nt_requires_root = False, nt_run = run n\<rparr>) registered_tests orch"

section \<open>The runner\<close>

datatype TestUpdate =
    Started string "TestCategory option"
  | Result string TestResult
  | Completed string
  | FailedRun string string
  | Progress string f64

text \<open>What the blocking task gave: the results, or the message of its panic. Of a run over selected categories the divisor is at
  least one.\<close>

definition result_updates :: "string \<Rightarrow> nat \<Rightarrow> TestResult list \<Rightarrow> TestUpdate list" where
  "result_updates target denom rs =
     concat (map (\<lambda>(i, r). [Result target r, Progress target (f64_div (f64_of_nat (i + 1)) (f64_of_nat denom))]) (enumerate 0 rs))"

definition runner_updates :: "string \<Rightarrow> TestCategory option \<Rightarrow> (TestResult list \<Rightarrow> nat) \<Rightarrow> string + TestResult list \<Rightarrow> TestUpdate list" where
  "runner_updates target c denom joined =
     Started target c # (case joined of
        Inr rs \<Rightarrow> result_updates target (denom rs) rs @ [Completed target]
      | Inl e \<Rightarrow> [FailedRun target e])"

definition runner_run_category :: "string \<Rightarrow> TestCategory \<Rightarrow> string + TestResult list \<Rightarrow> TestUpdate list" where
  "runner_run_category target c joined = runner_updates target (Some c) length joined"

definition runner_run_categories :: "string \<Rightarrow> string + TestResult list \<Rightarrow> TestUpdate list" where
  "runner_run_categories target joined = runner_updates target None (\<lambda>rs. max (length rs) 1) joined"

definition runner_run_all :: "string \<Rightarrow> string + TestResult list \<Rightarrow> TestUpdate list" where
  "runner_run_all target joined = runner_updates target None length joined"

text \<open>What the task of a run over categories collects, in the order in which the set is iterated.\<close>

fun run_categories_body :: "RunObs \<Rightarrow> nat \<Rightarrow> string \<Rightarrow> TestCategory list \<Rightarrow> TestOrchestrator \<Rightarrow> TestResult list \<times> TestOrchestrator" where
  "run_categories_body ob k target [] orch = ([], orch)"
| "run_categories_body ob k target (c # cs) orch =
     (case orch_run_category ob k target c orch of (rs, orch1) \<Rightarrow>
      case run_categories_body ob (k + length rs) target cs orch1 of (rs', orch2) \<Rightarrow> (rs @ rs', orch2))"

section \<open>What a run returns and what is stored\<close>

lemma run_tests_eq:
  "run_tests ob k ts target orch =
     (let rs = map (\<lambda>(i, t). test_outcome ob i t target) (enumerate k ts) in (rs, fold (orch_store target) rs orch))"
  by (induction ts arbitrary: k orch) (simp_all add: run_single_def Let_def)

lemma map_of_update [simp]: "map_of (AList.update k v al) = (map_of al)(k \<mapsto> v)"
  by (rule update_conv')

lemma get_result_store:
  "orch_get_result t c (orch_store target r orch)
    = (if t = target \<and> c = tr_category r then Some r else orch_get_result t c orch)"
  by (auto simp: orch_get_result_def orch_store_def Let_def split: option.splits)

lemma get_result_stored:
  "orch_get_result t c (fold (orch_store target) rs orch) =
     (if t = target \<and> filter (\<lambda>r. tr_category r = c) rs \<noteq> [] then Some (last (filter (\<lambda>r. tr_category r = c) rs))
      else orch_get_result t c orch)"
proof (induction rs arbitrary: orch)
  case (Cons r rs)
  then show ?case by (cases "filter (\<lambda>r. tr_category r = c) rs = []") (auto simp: get_result_store filter_empty_conv)
qed simp

text \<open>C31: A run over all tests returns one outcome per registered test, in the order of registration: skipped exactly when the test
  needs privileges that are missing, failed with its error, or what the test returned, with the measured duration. Of these the
  store keeps, for each category, the last one; results of other targets and categories without a test are untouched.\<close>

theorem orchestrator_keeps_last:
  "let (rs, orch1) = orch_run_all ob target orch in
     length rs = length (orch_tests orch)
   \<and> list_all (\<lambda>(i, t, r). tr_duration r = ro_elapsed ob i
        \<and> (if nt_requires_root t \<and> \<not> ro_root ob then tr_status r = Skipped
           else (case nt_run t i target of Inl e \<Rightarrow> tr_status r = Failed \<and> map_of (tr_metadata r) ''error'' = Some e
                 | Inr r0 \<Rightarrow> r = r0\<lparr>tr_duration := ro_elapsed ob i\<rparr>))) (enumerate 0 (zip (orch_tests orch) rs))
   \<and> orch_tests orch1 = orch_tests orch
   \<and> (\<forall>t c. orch_get_result t c orch1 =
        (let same = filter (\<lambda>r. tr_category r = c) rs in
         if t = target \<and> same \<noteq> [] then Some (last same) else orch_get_result t c orch))"
proof -
  define rs where "rs = map (\<lambda>(i, t). test_outcome ob i t target) (enumerate 0 (orch_tests orch))"
  have run: "orch_run_all ob target orch = (rs, fold (orch_store target) rs orch)"
    by (simp add: orch_run_all_def run_tests_eq rs_def Let_def)
  have "orch_tests (fold (orch_store target) xs o') = orch_tests o'" for xs o'
    by (induction xs arbitrary: o') (simp_all add: orch_store_def Let_def)
  moreover have "list_all (\<lambda>(i, t, r). tr_duration r = ro_elapsed ob i
        \<and> (if nt_requires_root t \<and> \<not> ro_root ob then tr_status r = Skipped
           else (case nt_run t i target of Inl e \<Rightarrow> tr_status r = Failed \<and> map_of (tr_metadata r) ''error'' = Some e
                 | Inr r0 \<Rightarrow> r = r0\<lparr>tr_duration := ro_elapsed ob i\<rparr>))) (enumerate 0 (zip (orch_tests orch) rs))"
  proof (unfold list_all_length, intro allI impI)
    fix i assume "i < length (enumerate 0 (zip (orch_tests orch) rs))"
    then have i: "i < length (orch_tests orch)" by (simp add: rs_def)
    have "enumerate 0 (zip (orch_tests orch) rs) ! i = (i, orch_tests orch ! i, test_outcome ob i (orch_tests orch ! i) target)"
      using i by (simp add: nth_enumerate_eq rs_def)
    then show "case enumerate 0 (zip (orch_tests orch) rs) ! i of (i, t, r) \<Rightarrow> tr_duration r = ro_elapsed ob i
        \<and> (if nt_requires_root t \<and> \<not> ro_root ob then tr_status r = Skipped
           else (case nt_run t i target of Inl e \<Rightarrow> tr_status r = Failed \<and> map_of (tr_metadata r) ''error'' = Some e
                 | Inr r0 \<Rightarrow> r = r0\<lparr>tr_duration := ro_elapsed ob i\<rparr>))"
      by (auto simp: test_outcome_def Let_def set_status_def add_metadata_def test_result_new_def split: sum.splits)
  qed
  ultimately show ?thesis unfolding run by (simp add: Let_def get_result_stored rs_def)
qed

section \<open>The orchestrator as a state machine\<close>

text \<open>The public operations that change it.\<close>

inductive orch_step :: "TestOrchestrator \<Rightarrow> TestOrchestrator \<Rightarrow> bool" where
  register_step: "orch_step orch (register t orch)"
| single_step: "orch_step orch (snd (run_single ob k t target orch))"
| all_step: "orch_step orch (snd (orch_run_all ob target orch))"
| category_step: "orch_step orch (snd (orch_run_category ob k target c orch))"
| clear_step: "orch_step orch (orch_clear orch)"

inductive_cases orch_stepE: "orch_step orch orch1"

text \<open>The store is a map of maps, and every result is stored under its own category.\<close>

definition wf_orch :: "TestOrchestrator \<Rightarrow> bool" where
  "wf_orch orch \<longleftrightarrow> distinct (map fst (orch_results orch))
   \<and> list_all (\<lambda>(_, m). m \<noteq> [] \<and> distinct (map fst m) \<and> list_all (\<lambda>(c, r). tr_category r = c) m) (orch_results orch)"

definition orch_init :: "TestOrchestrator \<Rightarrow> bool" where
  "orch_init orch \<longleftrightarrow> orch = orchestrator_new"

lemma update_entries: "(k', v') \<in> set (AList.update k v al) \<Longrightarrow> distinct (map fst al) \<Longrightarrow> (k' = k \<and> v' = v) \<or> (k' \<noteq> k \<and> (k', v') \<in> set al)"
proof -
  assume a: "(k', v') \<in> set (AList.update k v al)" "distinct (map fst al)"
  then have "map_of (AList.update k v al) k' = Some v'" by (simp add: distinct_update map_of_is_SomeI del: map_of_update)
  then show ?thesis using a(2) by (auto split: if_splits dest: map_of_SomeD)
qed

lemma update_nonempty [simp]: "AList.update k v al \<noteq> []"
  by (cases al) (auto split: prod.split)

lemma wf_orch_store:
  assumes "wf_orch orch" shows "wf_orch (orch_store target r orch)"
proof -
  define entry where "entry = (case map_of (orch_results orch) target of Some m \<Rightarrow> m | None \<Rightarrow> [])"
  have e: "distinct (map fst entry) \<and> list_all (\<lambda>(c, r). tr_category r = c) entry"
    using assms by (auto simp: entry_def wf_orch_def list_all_iff split: option.splits dest!: map_of_SomeD)
  then have "list_all (\<lambda>(c, r). tr_category r = c) (AList.update (tr_category r) r entry)"
    by (auto simp: list_all_iff dest!: update_entries)
  then show ?thesis
    using assms e by (auto simp: wf_orch_def orch_store_def Let_def entry_def[symmetric] distinct_update list_all_iff dest!: update_entries)
qed

lemma wf_orch_fold: "wf_orch orch \<Longrightarrow> wf_orch (fold (orch_store target) rs orch)"
  by (induction rs arbitrary: orch) (simp_all add: wf_orch_store)

interpretation orchestrator: step_invariant orch_init orch_step wf_orch
proof unfold_locales
  show "orch_init s \<Longrightarrow> wf_orch s" for s by (simp add: orch_init_def orchestrator_new_def wf_orch_def)
  show "wf_orch s \<Longrightarrow> orch_step s t \<Longrightarrow> wf_orch t" for s t
    by (erule orch_stepE)
      (simp_all add: wf_orch_fold wf_orch_store run_single_def orch_run_all_def orch_run_category_def run_tests_eq Let_def
        register_def orch_clear_def, simp_all add: wf_orch_def)
qed

text \<open>In every reachable state of the orchestrator each target has at most one result per category, filed under the category the
  result itself states.\<close>

theorem orchestrator_store_wf:
  assumes "reachable_by orch_init orch_step orch"
  shows "distinct (map fst (orch_target_results target orch))
     \<and> list_all (\<lambda>(c, r). tr_category r = c) (orch_target_results target orch) \<and> distinct (map fst (orch_all_results orch))"
  using orchestrator.reachable_inv[OF assms]
  by (auto simp: wf_orch_def orch_target_results_def orch_all_results_def list_all_iff split: option.splits dest!: map_of_SomeD)

text \<open>One test that needs privileges, run without them.\<close>

definition demo_orchestrator :: TestOrchestrator where
  "demo_orchestrator = snd (orch_run_all \<lparr>ro_root = False, ro_now = \<lambda>_. 0, ro_elapsed = \<lambda>_. 5\<rparr> ''h''
     (register \<lparr>nt_name = ''a'', nt_category = DNS, nt_requires_root = True, nt_run = \<lambda>_ _. Inl ''e''\<rparr> orchestrator_new))"

lemma demo_orchestrator_reachable: "reachable_by orch_init orch_step demo_orchestrator"
proof -
  have "reachable_by orch_init orch_step orchestrator_new" by (rule reachable_by.intros) (simp add: orch_init_def)
  then have "reachable_by orch_init orch_step (register t orchestrator_new)" for t
    by (rule reachable_by.intros(2)) (rule register_step)
  then show ?thesis unfolding demo_orchestrator_def by (rule reachable_by.intros(2)) (rule all_step)
qed

theorem orchestrator_store_wf_witness:
  "map fst (orch_target_results ''h'' demo_orchestrator) = [DNS] \<and> distinct (map fst (orch_all_results demo_orchestrator))"
proof -
  have "map fst (orch_target_results ''h'' demo_orchestrator) = [DNS]" by code_simp
  then show ?thesis using orchestrator_store_wf[OF demo_orchestrator_reachable, of "''h''"] by blast
qed

section \<open>The registered tests lose results\<close>

lemma register_all_tests_eq:
  "orch_tests (register_all_tests run orch)
    = orch_tests orch @ map (\<lambda>(n, c). \<lparr>nt_name = n, nt_category = c, nt_requires_root = False, nt_run = run n\<rparr>) registered_tests"
  "orch_results (register_all_tests run orch) = orch_results orch"
proof -
  have "orch_tests (fold (\<lambda>(n, c). register \<lparr>nt_name = n, nt_category = c, nt_requires_root = False, nt_run = run n\<rparr>) xs orch)
      = orch_tests orch @ map (\<lambda>(n, c). \<lparr>nt_name = n, nt_category = c, nt_requires_root = False, nt_run = run n\<rparr>) xs
    \<and> orch_results (fold (\<lambda>(n, c). register \<lparr>nt_name = n, nt_category = c, nt_requires_root = False, nt_run = run n\<rparr>) xs orch) = orch_results orch" for xs
    by (induction xs arbitrary: orch) (auto simp: register_def)
  then show "orch_tests (register_all_tests run orch)
    = orch_tests orch @ map (\<lambda>(n, c). \<lparr>nt_name = n, nt_category = c, nt_requires_root = False, nt_run = run n\<rparr>) registered_tests"
  "orch_results (register_all_tests run orch) = orch_results orch" by (simp_all add: register_all_tests_def)
qed

lemma stored_keys:
  "distinct (map fst m) \<Longrightarrow> set (map fst (AList.update k v m)) = insert k (set (map fst m)) \<and> distinct (map fst (AList.update k v m))"
  by (simp add: dom_update distinct_update)

lemma target_results_store:
  "orch_target_results target (orch_store target r orch) = AList.update (tr_category r) r (orch_target_results target orch)"
  by (auto simp: orch_target_results_def orch_store_def Let_def split: option.splits)

lemma stored_count:
  assumes "distinct (map fst (orch_target_results target orch))"
  shows "length (orch_target_results target (fold (orch_store target) rs orch))
    = card (set (map fst (orch_target_results target orch)) \<union> set (map tr_category rs))"
proof -
  have "set (map fst (orch_target_results target (fold (orch_store target) rs orch)))
      = set (map fst (orch_target_results target orch)) \<union> set (map tr_category rs)
    \<and> distinct (map fst (orch_target_results target (fold (orch_store target) rs orch)))"
    using assms
  proof (induction rs arbitrary: orch)
    case (Cons r rs)
    have d: "distinct (map fst (orch_target_results target (orch_store target r orch)))"
      using Cons.prems by (simp add: target_results_store distinct_update)
    show ?case using Cons.IH[OF d] Cons.prems by (auto simp: target_results_store dom_update)
  qed simp
  then show ?thesis using distinct_card by fastforce
qed

text \<open>The desktop registers nineteen tests in ten categories. A run of all of them returns nineteen results, and the store of the
  orchestrator has ten: of the four MTU tests, the three of TCP health, the three of applications and the two each of DNS and HTTPS only the last remains.\<close>

theorem registered_tests_lose_results:
  assumes "\<And>n c k r. (n, c) \<in> set registered_tests \<Longrightarrow> run n k target = Inr r \<Longrightarrow> tr_category r = c"
  shows "let (rs, orch) = orch_run_all ob target (register_all_tests run orchestrator_new) in
     map tr_category rs = map snd registered_tests \<and> length rs = 19 \<and> length (orch_target_results target orch) = 10
   \<and> orch_get_result target MTU orch = Some (rs ! 17) \<and> orch_get_result target TCPHealth orch = Some (rs ! 16)
   \<and> orch_get_result target HTTPS orch = Some (rs ! 13) \<and> orch_get_result target DNS orch = Some (rs ! 18)
   \<and> orch_get_result target Application orch = Some (rs ! 15)"
proof -
  define mk where "mk = (\<lambda>(n, c). \<lparr>nt_name = n, nt_category = c, nt_requires_root = False, nt_run = run n\<rparr>)"
  define rs where "rs = map (\<lambda>(i, t). test_outcome ob i t target) (enumerate 0 (map mk registered_tests))"
  have run: "orch_run_all ob target (register_all_tests run orchestrator_new)
      = (rs, fold (orch_store target) rs (register_all_tests run orchestrator_new))"
    by (simp add: orch_run_all_def run_tests_eq rs_def mk_def Let_def register_all_tests_eq orchestrator_new_def)
  have l: "length registered_tests = 19" by (simp add: registered_tests_def)
  have "tr_category (rs ! i) = snd (registered_tests ! i)" if i: "i < 19" for i
  proof -
    obtain n c where nc: "registered_tests ! i = (n, c)" by fastforce
    then have m: "(n, c) \<in> set registered_tests" using i l by (metis nth_mem)
    have "rs ! i = test_outcome ob i (mk (n, c)) target" using i l nc by (simp add: rs_def nth_enumerate_eq)
    then show ?thesis using assms[OF m] nc
      by (cases "run n i target")
        (simp_all add: test_outcome_def mk_def Let_def add_metadata_def set_status_def test_result_new_def)
  qed
  then have cats: "map tr_category rs = map snd registered_tests"
    using l by (intro nth_equalityI) (simp_all add: rs_def)
  have len: "length rs = 19" using l by (simp add: rs_def)
  have none: "orch_target_results target (register_all_tests run orchestrator_new) = []"
    by (simp add: orch_target_results_def register_all_tests_eq orchestrator_new_def)
  have "length (orch_target_results target (fold (orch_store target) rs (register_all_tests run orchestrator_new))) = card (set (map snd registered_tests))"
    using stored_count[of target "register_all_tests run orchestrator_new" rs] none cats by simp
  moreover have "card (set (map snd registered_tests)) = 10" by code_simp
  moreover have last_of: "orch_get_result target c (fold (orch_store target) rs (register_all_tests run orchestrator_new)) = Some (rs ! j)"
    if "filter (\<lambda>i. map snd registered_tests ! i = c) [0..<19] = is @ [j]" for c "is" j
  proof -
    have "filter (\<lambda>r. tr_category r = c) rs = map (\<lambda>i. rs ! i) (filter (\<lambda>i. tr_category (rs ! i) = c) [0..<length rs])"
      by (metis (no_types, lifting) filter_map comp_def filter_cong map_nth)
    also have "filter (\<lambda>i. tr_category (rs ! i) = c) [0..<length rs] = filter (\<lambda>i. map snd registered_tests ! i = c) [0..<19]"
      by (rule filter_cong) (auto simp: len cats[symmetric])
    finally show ?thesis using that by (simp add: get_result_stored)
  qed
  have ix: "filter (\<lambda>i. map snd registered_tests ! i = MTU) [0..<19] = [1, 2, 3] @ [17]"
    "filter (\<lambda>i. map snd registered_tests ! i = TCPHealth) [0..<19] = [5, 6] @ [16]"
    "filter (\<lambda>i. map snd registered_tests ! i = HTTPS) [0..<19] = [4] @ [13]"
    "filter (\<lambda>i. map snd registered_tests ! i = DNS) [0..<19] = [0] @ [18]"
    "filter (\<lambda>i. map snd registered_tests ! i = Application) [0..<19] = [11, 14] @ [15]"
    by code_simp+
  ultimately show ?thesis unfolding run using cats len ix[THEN last_of] by simp
qed

theorem registered_tests_lose_results_witness:
  "length (orch_target_results ''h'' (snd (orch_run_all \<lparr>ro_root = False, ro_now = \<lambda>_. 0, ro_elapsed = \<lambda>_. 5\<rparr> ''h''
     (register_all_tests (\<lambda>_ _ _. Inl ''offline'') orchestrator_new)))) = 10"
  using registered_tests_lose_results[of "\<lambda>_ _ _. Inl ''offline''" "''h''" "\<lparr>ro_root = False, ro_now = \<lambda>_. 0, ro_elapsed = \<lambda>_. 5\<rparr>"]
  by (simp add: case_prod_beta)

text \<open>The name of a category is read back as that category, and only the ten names are accepted.\<close>

theorem category_round_trip: "category_deserialize s = Inr c \<longleftrightarrow> s = category_as_str c"
  by (cases c) (auto simp: category_deserialize_def)

text \<open>The categories on offer are those of the registered tests, each once, in the order of the enum.\<close>

lemma distinct_remdups_adj: "sorted (xs :: TestCategory list) \<Longrightarrow> distinct (remdups_adj xs)"
  by (induction xs rule: remdups_adj.induct) auto

lemma available_categories_exact:
  "set (available_categories orch) = set (map nt_category (orch_tests orch))" "sorted (available_categories orch)"
  "distinct (available_categories orch)"
proof -
  let ?s = "sort_key category_as_u8 (map nt_category (orch_tests orch))"
  have "sorted (map category_as_u8 ?s)" by (rule sorted_sort_key)
  then have s: "sorted ?s" by (simp add: sorted_map less_eq_TestCategory_def[abs_def])
  show "set (available_categories orch) = set (map nt_category (orch_tests orch))" by (simp add: available_categories_def)
  show "sorted (available_categories orch)" using s by (simp add: available_categories_def sorted_remdups_adj)
  show "distinct (available_categories orch)" using s by (simp add: available_categories_def distinct_remdups_adj)
qed

end
