(* ===== verification/Desktop_State.thy ===== *)
theory Desktop_State
  imports Test_Framework
begin

text \<open>
  The state of the desktop and what changes it: \<open>bin/desktop/state/mod.rs\<close>, the loop of \<open>bin/desktop/app.rs\<close> that takes the
  updates of a run, the second such loop in a detached window and the bookkeeping of detached windows (\<open>window_manager.rs\<close>), and the
  task of the fuzzing panel that forwards updates and can be stopped (\<open>components/fuzzing_panel/mod.rs\<close>). A signal is a field of the
  state. Rendering is not modelled; what the user can press is: a step is possible where its button is shown and enabled.
\<close>

section \<open>Panels and targets\<close>

datatype PanelId =
    PDashboard | PCommands | PTests | PHttps | PFuzzing | PPath | PSimulator | PVpnCalculator | PTargets | PLogs | PHistory
  | PProbes | PReport

fun panel_label :: "PanelId \<Rightarrow> string" where
  "panel_label PDashboard = ''Dashboard''"
| "panel_label PCommands = ''Commands''"
| "panel_label PTests = ''Tests''"
| "panel_label PHttps = ''HTTPS''"
| "panel_label PFuzzing = ''Fuzzing''"
| "panel_label PPath = ''Path''"
| "panel_label PSimulator = ''Simulator''"
| "panel_label PVpnCalculator = ''VPN Calc''"
| "panel_label PTargets = ''Targets''"
| "panel_label PLogs = ''Logs''"
| "panel_label PHistory = ''History''"
| "panel_label PProbes = ''Probes''"
| "panel_label PReport = ''Report''"

definition panels_shown :: "PanelId list" where
  "panels_shown = [PDashboard, PCommands, PTests, PProbes, PReport, PFuzzing, PSimulator, PLogs, PHistory]"

datatype TargetCategory = DnsServers | CloudProviders | Microsoft365 | Collaboration | DevTools | Cdn | CustomTarget

fun target_category_label :: "TargetCategory \<Rightarrow> string" where
  "target_category_label DnsServers = ''DNS Servers''"
| "target_category_label CloudProviders = ''Cloud Providers''"
| "target_category_label Microsoft365 = ''Microsoft 365''"
| "target_category_label Collaboration = ''Collaboration''"
| "target_category_label DevTools = ''Dev Tools''"
| "target_category_label Cdn = ''CDN / Edge''"
| "target_category_label CustomTarget = ''Custom''"

definition target_categories :: "TargetCategory list" where
  "target_categories = [DnsServers, CloudProviders, Microsoft365, Collaboration, DevTools, Cdn]"

record Target =
  tg_host :: string
  tg_description :: string
  tg_port :: u16
  tg_category :: TargetCategory
  tg_supported_tests :: "TestCategory list"

definition target_new :: "string \<Rightarrow> string \<Rightarrow> u16 \<Rightarrow> Target" where
  "target_new h d p = \<lparr>tg_host = h, tg_description = d, tg_port = p, tg_category = CustomTarget, tg_supported_tests = []\<rparr>"

definition with_category :: "TargetCategory \<Rightarrow> Target \<Rightarrow> Target" where
  "with_category c t = t\<lparr>tg_category := c\<rparr>"

definition with_tests :: "TestCategory list \<Rightarrow> Target \<Rightarrow> Target" where
  "with_tests cs t = t\<lparr>tg_supported_tests := cs\<rparr>"

definition supports_test :: "Target \<Rightarrow> TestCategory \<Rightarrow> bool" where
  "supports_test t c \<longleftrightarrow> tg_supported_tests t = [] \<or> c \<in> set (tg_supported_tests t)"

definition get_preset_targets :: "Target list" where
  "get_preset_targets = map (\<lambda>(h, d, c). with_tests all_categories (with_category c (target_new h d 443)))
     [(''8.8.8.8'', ''Google DNS'', DnsServers), (''8.8.4.4'', ''Google DNS Secondary'', DnsServers),
      (''1.1.1.1'', ''Cloudflare DNS'', DnsServers), (''1.0.0.1'', ''Cloudflare DNS Secondary'', DnsServers),
      (''9.9.9.9'', ''Quad9 DNS'', DnsServers), (''208.67.222.222'', ''OpenDNS'', DnsServers),
      (''aws.amazon.com'', ''AWS'', CloudProviders), (''console.aws.amazon.com'', ''AWS Console'', CloudProviders),
      (''azure.microsoft.com'', ''Azure'', CloudProviders), (''portal.azure.com'', ''Azure Portal'', CloudProviders),
      (''cloud.google.com'', ''Google Cloud'', CloudProviders), (''console.cloud.google.com'', ''GCP Console'', CloudProviders),
      (''outlook.office365.com'', ''M365 Outlook'', Microsoft365), (''teams.microsoft.com'', ''MS Teams'', Microsoft365),
      (''login.microsoftonline.com'', ''M365 Auth'', Microsoft365), (''sharepoint.com'', ''SharePoint'', Microsoft365),
      (''onedrive.live.com'', ''OneDrive'', Microsoft365), (''slack.com'', ''Slack'', Collaboration),
      (''zoom.us'', ''Zoom'', Collaboration), (''meet.google.com'', ''Google Meet'', Collaboration),
      (''mail.google.com'', ''Gmail'', Collaboration), (''discord.com'', ''Discord'', Collaboration),
      (''github.com'', ''GitHub'', DevTools), (''gitlab.com'', ''GitLab'', DevTools),
      (''bitbucket.org'', ''Bitbucket'', DevTools), (''npmjs.com'', ''npm Registry'', DevTools),
      (''pypi.org'', ''PyPI'', DevTools), (''crates.io'', ''crates.io'', DevTools), (''cloudflare.com'', ''Cloudflare'', Cdn),
      (''akamai.com'', ''Akamai'', Cdn), (''fastly.com'', ''Fastly'', Cdn), (''cdn.jsdelivr.net'', ''jsDelivr CDN'', Cdn)]"

section \<open>The state\<close>

datatype ToastType = ToastSuccess | ToastWarning | ToastError | ToastInfo

record Toast =
  to_id :: u64
  to_message :: string
  to_type :: ToastType

datatype LogLevel = LogInfo | LogRunning | LogSuccess | LogWarning | LogError

record LogEntry =
  le_timestamp :: u64
  le_level :: LogLevel
  le_message :: string
  le_cli_command :: "string option"
  le_details :: "string option"
  le_metrics :: "(string \<times> string) list"

definition log_entry_new :: "u64 \<Rightarrow> LogLevel \<Rightarrow> string \<Rightarrow> LogEntry" where
  "log_entry_new now lv m = \<lparr>le_timestamp = now, le_level = lv, le_message = m, le_cli_command = None, le_details = None, le_metrics = []\<rparr>"

definition with_cli_command :: "string \<Rightarrow> LogEntry \<Rightarrow> LogEntry" where
  "with_cli_command c e = e\<lparr>le_cli_command := Some c\<rparr>"

definition with_details :: "string \<Rightarrow> LogEntry \<Rightarrow> LogEntry" where
  "with_details d e = e\<lparr>le_details := Some d\<rparr>"

definition with_metrics :: "(string \<times> string) list \<Rightarrow> LogEntry \<Rightarrow> LogEntry" where
  "with_metrics ms e = e\<lparr>le_metrics := ms\<rparr>"

record HistoryEntry =
  he_id :: u64
  he_timestamp :: u64
  he_target :: string
  he_categories :: "TestCategory set"
  he_results :: "TestResult list"
  he_duration_secs :: nat

record ProbeToolsState =
  pt_dsl_dst :: string
  pt_dsl_port :: u16
  pt_dsl_size :: nat
  pt_replay_pcap :: string
  pt_replay_iface :: string
  pt_replay_pps :: u32
  pt_replay_loops :: u32
  pt_probe_target :: string
  pt_probe_iface :: string
  pt_probe_min :: u16
  pt_probe_max :: u16
  pt_scenario_text :: string
  pt_metrics_bind :: string
  pt_metrics_serving :: bool
  pt_last_output :: string

text \<open>\<open>cfg!(target_os = "linux")\<close> is an argument.\<close>

definition default_iface :: "bool \<Rightarrow> string" where
  "default_iface linux = (if linux then ''eth0'' else ''en0'')"

definition probe_tools_default :: "bool \<Rightarrow> ProbeToolsState" where
  "probe_tools_default linux = \<lparr>pt_dsl_dst = ''1.1.1.1'', pt_dsl_port = 443, pt_dsl_size = 32, pt_replay_pcap = ''reports/fuzz.pcap'',
     pt_replay_iface = default_iface linux, pt_replay_pps = 0, pt_replay_loops = 1, pt_probe_target = ''1.1.1.1'',
     pt_probe_iface = default_iface linux, pt_probe_min = 576, pt_probe_max = 1500,
     pt_scenario_text = join [CHR 0x0A] [''# step: check-http'', ''kind: https'', ''target: github.com'', '''',
       ''# step: bulk-upload'', ''kind: upload_sweep'', ''target: github.com'', ''port: 443'', ''''],
     pt_metrics_bind = ''127.0.0.1:9464'', pt_metrics_serving = False, pt_last_output = ''''\<rparr>"

text \<open>The instant of the start of a run is in nanoseconds of a monotonic clock.\<close>

record AppState =
  as_active_panel :: PanelId
  as_selected_categories :: "TestCategory set"
  as_current_target :: string
  as_targets :: "Target list"
  as_results :: "(string \<times> TestResult list) list"
  as_testing :: bool
  as_progress :: f64
  as_status_message :: string
  as_toasts :: "Toast list"
  as_toast_counter :: u64
  as_orchestrator :: TestOrchestrator
  as_logs :: "LogEntry list"
  as_history :: "HistoryEntry list"
  as_history_counter :: u64
  as_current_test_name :: string
  as_cancel :: bool
  as_test_start_time :: "nat option"
  as_last_report :: string
  as_probe_tools :: ProbeToolsState
  as_privileged :: bool
  as_disabled_features :: "string list"
  as_priv_banner_dismissed :: bool

definition ROOT_REQUIRED_FEATURES :: "string list" where
  "ROOT_REQUIRED_FEATURES = [''PCAP Replay'', ''Active PMTU Probe'', ''Packet Capture'']"

definition app_new :: "(string \<Rightarrow> nat \<Rightarrow> string \<Rightarrow> string + TestResult) \<Rightarrow> bool \<Rightarrow> bool \<Rightarrow> AppState" where
  "app_new run linux privileged =
     \<lparr>as_active_panel = PDashboard, as_selected_categories = {}, as_current_target = ''github.com'',
      as_targets = [with_category DnsServers (target_new ''8.8.8.8'' ''Google DNS'' 0),
        with_category DnsServers (target_new ''1.1.1.1'' ''Cloudflare DNS'' 0),
        with_category DevTools (target_new ''github.com'' ''GitHub'' 443),
        with_category Collaboration (target_new ''google.com'' ''Google'' 443)],
      as_results = [], as_testing = False, as_progress = Fin 0, as_status_message = ''Ready'', as_toasts = [], as_toast_counter = 0,
      as_orchestrator = register_all_tests run orchestrator_new, as_logs = [], as_history = [], as_history_counter = 0,
      as_current_test_name = '''', as_cancel = False, as_test_start_time = None, as_last_report = '''',
      as_probe_tools = probe_tools_default linux, as_privileged = privileged,
      as_disabled_features = (if privileged then [] else ROOT_REQUIRED_FEATURES), as_priv_banner_dismissed = False\<rparr>"

definition add_toast :: "string \<Rightarrow> ToastType \<Rightarrow> AppState \<Rightarrow> AppState" where
  "add_toast m ty s = (let i = as_toast_counter s in
     s\<lparr>as_toast_counter := i + 1, as_toasts := as_toasts s @ [\<lparr>to_id = i, to_message = m, to_type = ty\<rparr>]\<rparr>)"

definition remove_toast :: "u64 \<Rightarrow> AppState \<Rightarrow> AppState" where
  "remove_toast i s = s\<lparr>as_toasts := filter (\<lambda>t. to_id t \<noteq> i) (as_toasts s)\<rparr>"

definition app_target_results :: "string \<Rightarrow> AppState \<Rightarrow> TestResult list" where
  "app_target_results target s = (case map_of (as_results s) target of Some rs \<Rightarrow> rs | None \<Rightarrow> [])"

definition app_store_result :: "string \<Rightarrow> TestResult \<Rightarrow> AppState \<Rightarrow> AppState" where
  "app_store_result target r s =
     s\<lparr>as_results := AList.update target ((case map_of (as_results s) target of Some rs \<Rightarrow> rs | None \<Rightarrow> []) @ [r]) (as_results s)\<rparr>"

definition get_category_results :: "string \<Rightarrow> TestCategory \<Rightarrow> AppState \<Rightarrow> TestResult list" where
  "get_category_results target c s =
     (case map_of (as_results s) target of Some rs \<Rightarrow> filter (\<lambda>r. tr_category r = c) rs | None \<Rightarrow> [])"

definition get_categories_results :: "string \<Rightarrow> TestCategory set \<Rightarrow> AppState \<Rightarrow> TestResult list" where
  "get_categories_results target cs s =
     (case map_of (as_results s) target of
        Some rs \<Rightarrow> if cs = {} then rs else filter (\<lambda>r. tr_category r \<in> cs) rs
      | None \<Rightarrow> [])"

definition app_clear_results :: "AppState \<Rightarrow> AppState" where
  "app_clear_results s = s\<lparr>as_results := []\<rparr>"

definition success_count :: "AppState \<Rightarrow> nat" where
  "success_count s = length (filter (\<lambda>r. tr_status r = Success) (concat (map snd (as_results s))))"

definition total_tests :: "AppState \<Rightarrow> nat" where
  "total_tests s = sum_list (map (length \<circ> snd) (as_results s))"

definition app_log :: "u64 \<Rightarrow> LogLevel \<Rightarrow> string \<Rightarrow> AppState \<Rightarrow> AppState" where
  "app_log now lv m s = s\<lparr>as_logs := as_logs s @ [log_entry_new now lv m]\<rparr>"

definition log_detailed :: "LogEntry \<Rightarrow> AppState \<Rightarrow> AppState" where
  "log_detailed e s = (let ls = as_logs s @ [e] in s\<lparr>as_logs := (if 500 < length ls then drop 100 ls else ls)\<rparr>)"

definition clear_logs :: "AppState \<Rightarrow> AppState" where
  "clear_logs s = s\<lparr>as_logs := []\<rparr>"

text \<open>The two clocks at the moment an update is handled.\<close>

record Clocks =
  ck_local :: u64
  ck_instant :: nat

definition save_to_history :: "Clocks \<Rightarrow> string \<Rightarrow> TestCategory set \<Rightarrow> AppState \<Rightarrow> AppState" where
  "save_to_history ck target cats s =
     (let rs = app_target_results target s in
      if rs = [] then s
      else let i = as_history_counter s;
               duration = (case as_test_start_time s of Some t \<Rightarrow> (ck_instant ck - t) div 1000000000 | None \<Rightarrow> 0);
               entry = \<lparr>he_id = i, he_timestamp = ck_local ck, he_target = target, he_categories = cats, he_results = rs,
                        he_duration_secs = duration\<rparr>
           in s\<lparr>as_history_counter := i + 1, as_history := take 50 (entry # as_history s)\<rparr>)"

definition clear_history :: "AppState \<Rightarrow> AppState" where
  "clear_history s = s\<lparr>as_history := []\<rparr>"

definition cancel_tests :: "AppState \<Rightarrow> AppState" where
  "cancel_tests s = s\<lparr>as_cancel := True\<rparr>"

definition reset_cancel :: "AppState \<Rightarrow> AppState" where
  "reset_cancel s = s\<lparr>as_cancel := False\<rparr>"

definition is_cancelled :: "AppState \<Rightarrow> bool" where
  "is_cancelled s \<longleftrightarrow> as_cancel s"

section \<open>The updates of a run\<close>

fun status_debug :: "TestStatus \<Rightarrow> string" where
  "status_debug Pending = ''Pending''"
| "status_debug Running = ''Running''"
| "status_debug Success = ''Success''"
| "status_debug Warning = ''Warning''"
| "status_debug Failed = ''Failed''"
| "status_debug Skipped = ''Skipped''"

fun status_level :: "TestStatus \<Rightarrow> LogLevel" where
  "status_level Success = LogSuccess"
| "status_level Warning = LogWarning"
| "status_level Failed = LogError"
| "status_level Skipped = LogInfo"
| "status_level Pending = LogInfo"
| "status_level Running = LogRunning"

definition result_entry :: "u64 \<Rightarrow> TestResult \<Rightarrow> LogEntry" where
  "result_entry now r =
     (let metrics = map (\<lambda>(k, v). (k, fmt_prec 2 v)) (tr_metrics r);
          other_meta = map (\<lambda>(k, v). k @ '': '' @ v) (filter (\<lambda>(k, _). \<not> starts_with k ''cli_'') (tr_metadata r));
          e0 = log_entry_new now (status_level (tr_status r)) (tr_name r @ '': '' @ status_debug (tr_status r));
          e1 = (case map_of (tr_metadata r) ''cli_command'' of Some cmd \<Rightarrow> with_cli_command cmd e0 | None \<Rightarrow> e0);
          e2 = (if metrics \<noteq> [] then with_metrics metrics e1 else e1)
      in if other_meta = [] then e2 else with_details (join [CHR 0x0A] other_meta) e2)"

fun process_update :: "Clocks \<Rightarrow> TestUpdate \<Rightarrow> AppState \<Rightarrow> AppState" where
  "process_update ck (Started target category) s =
     (let msg = (case category of
                   Some c \<Rightarrow> ''Running '' @ category_as_str c @ '' test on '' @ target @ ''...''
                 | None \<Rightarrow> ''Running all tests on '' @ target @ ''...'');
          s1 = (reset_cancel (s\<lparr>as_testing := True, as_progress := Fin 0\<rparr>))
                 \<lparr>as_test_start_time := Some (ck_instant ck), as_status_message := msg\<rparr>
      in (app_log (ck_local ck) LogInfo (''=== '' @ msg @ '' ==='') s1)\<lparr>as_current_test_name := ''''\<rparr>)"
| "process_update ck (Result _ r) s =
     app_store_result (tr_target r) r ((log_detailed (result_entry (ck_local ck) r) s)\<lparr>as_current_test_name := tr_name r\<rparr>)"
| "process_update ck (Progress _ p) s = s\<lparr>as_progress := p\<rparr>"
| "process_update ck (Completed target) s =
     (let s1 = (save_to_history ck target (as_selected_categories s) s)
                 \<lparr>as_testing := False, as_progress := Fin 1, as_current_test_name := '''',
                  as_status_message := ''Tests completed for '' @ target\<rparr>
      in add_toast (''Tests completed for '' @ target) ToastSuccess
           (app_log (ck_local ck) LogSuccess (''=== Completed: '' @ target @ '' ==='') s1))"
| "process_update ck (FailedRun target e) s =
     (let s1 = s\<lparr>as_testing := False, as_current_test_name := '''', as_status_message := ''Test failed: '' @ e\<rparr>
      in add_toast (''Test failed for '' @ target @ '': '' @ e) ToastError
           (app_log (ck_local ck) LogError (''FAILED: '' @ target @ '' - '' @ e) s1))"

text \<open>The loop of a detached window, on a state of its own.\<close>

fun process_update_detached :: "TestUpdate \<Rightarrow> AppState \<Rightarrow> AppState" where
  "process_update_detached (Started target category) s =
     s\<lparr>as_testing := True, as_progress := Fin 0,
       as_status_message := (case category of
           Some c \<Rightarrow> ''Running '' @ category_as_str c @ '' on '' @ target @ ''...''
         | None \<Rightarrow> ''Running tests on '' @ target @ ''...'')\<rparr>"
| "process_update_detached (Result _ r) s = app_store_result (tr_target r) r s"
| "process_update_detached (Progress _ p) s = s\<lparr>as_progress := p\<rparr>"
| "process_update_detached (Completed target) s = s\<lparr>as_testing := False, as_status_message := ''Completed: '' @ target\<rparr>"
| "process_update_detached (FailedRun _ e) s = s\<lparr>as_testing := False, as_status_message := ''Failed: '' @ e\<rparr>"

text \<open>The privilege check at the start.\<close>

definition startup_hook :: "u64 \<Rightarrow> AppState \<Rightarrow> AppState" where
  "startup_hook now s =
     (let ls = join '', '' (as_disabled_features s) in
      if \<not> as_privileged s \<and> as_disabled_features s \<noteq> []
      then add_toast (''Running without root. Disabled features: '' @ ls) ToastWarning
             (app_log now LogWarning (''Running without root. Disabled: '' @ ls) s)
      else if as_privileged s then app_log now LogInfo ''Running with elevated privileges'' s
      else s)"

section \<open>The task of the fuzzing panel\<close>






section \<open>Detached windows\<close>

text \<open>\<open>REATTACH_CHANNEL\<close> as the messages in it, once it is initialised, and whether its receiver is still there to take; the listener, the
  panels marked as detached, and the open windows.\<close>

record WindowManager =
  wm_channel :: "PanelId list option"
  wm_receiver :: bool
  wm_listener :: bool
  wm_detached :: "PanelId set"
  wm_windows :: "PanelId list"

definition get_reattach_sender :: "WindowManager \<Rightarrow> WindowManager" where
  "get_reattach_sender w = (case wm_channel w of None \<Rightarrow> w\<lparr>wm_channel := Some [], wm_receiver := True\<rparr> | Some _ \<Rightarrow> w)"

definition take_reattach_receiver :: "WindowManager \<Rightarrow> bool \<times> WindowManager" where
  "take_reattach_receiver w = (case wm_channel w of None \<Rightarrow> (False, w) | Some _ \<Rightarrow> (wm_receiver w, w\<lparr>wm_receiver := False\<rparr>))"

definition use_reattach_listener :: "WindowManager \<Rightarrow> WindowManager" where
  "use_reattach_listener w = (case take_reattach_receiver w of (got, w1) \<Rightarrow> if got then w1\<lparr>wm_listener := True\<rparr> else w1)"

definition reattach_panel :: "PanelId \<Rightarrow> WindowManager \<Rightarrow> WindowManager" where
  "reattach_panel p w = w\<lparr>wm_detached := wm_detached w - {p}\<rparr>"

text \<open>The Detach button and the mounting of the window it opens.\<close>

definition detach_panel :: "PanelId \<Rightarrow> WindowManager \<Rightarrow> WindowManager" where
  "detach_panel p w = get_reattach_sender (w\<lparr>wm_detached := insert p (wm_detached w), wm_windows := p # wm_windows w\<rparr>)"

text \<open>The handler of a close request; the receiver is never dropped, so the message is sent.\<close>

definition close_window :: "PanelId \<Rightarrow> WindowManager \<Rightarrow> WindowManager" where
  "close_window p w = w\<lparr>wm_channel := map_option (\<lambda>q. q @ [p]) (wm_channel w), wm_windows := remove1 p (wm_windows w)\<rparr>"

text \<open>One pass of the listener.\<close>

definition listener_poll :: "WindowManager \<Rightarrow> WindowManager" where
  "listener_poll w = (case wm_channel w of
     Some (p # q) \<Rightarrow> w\<lparr>wm_channel := Some q, wm_detached := wm_detached w - {p}\<rparr>
   | _ \<Rightarrow> w)"

text \<open>The application mounts its main component first.\<close>

definition wm_init :: WindowManager where
  "wm_init = use_reattach_listener \<lparr>wm_channel = None, wm_receiver = False, wm_listener = False, wm_detached = {}, wm_windows = []\<rparr>"

datatype WmEvent = Detach PanelId | CloseWindow PanelId | Reattach PanelId | Poll

text \<open>Detach is on offer for an attached panel, a window can be closed while it is open, \<open>Bring Back Here\<close> and \<open>Reattach\<close> are on offer
  for a panel that is detached or whose window is still open, and a listener polls where there is one.\<close>

fun wm_apply :: "WmEvent \<Rightarrow> WindowManager \<Rightarrow> WindowManager option" where
  "wm_apply (Detach p) w = (if p \<notin> wm_detached w then Some (detach_panel p w) else None)"
| "wm_apply (CloseWindow p) w = (if p \<in> set (wm_windows w) then Some (close_window p w) else None)"
| "wm_apply (Reattach p) w = (if p \<in> wm_detached w \<or> p \<in> set (wm_windows w) then Some (reattach_panel p w) else None)"
| "wm_apply Poll w = (if wm_listener w then Some (listener_poll w) else None)"

fun wm_run :: "WmEvent list \<Rightarrow> WindowManager \<Rightarrow> WindowManager option" where
  "wm_run [] w = Some w"
| "wm_run (e # es) w = (case wm_apply e w of None \<Rightarrow> None | Some w1 \<Rightarrow> wm_run es w1)"

section \<open>What a run leaves behind\<close>

definition process_updates :: "(Clocks \<times> TestUpdate) list \<Rightarrow> AppState \<Rightarrow> AppState" where
  "process_updates us s = fold (\<lambda>(ck, u). process_update ck u) us s"

lemma process_updates_simps [simp]:
  "process_updates [] s = s" "process_updates ((ck, u) # us) s = process_updates us (process_update ck u s)"
  "process_updates (us @ vs) s = process_updates vs (process_updates us s)"
  by (simp_all add: process_updates_def)

lemma app_target_results_store:
  "app_target_results t (app_store_result t' r s) = (if t = t' then app_target_results t s @ [r] else app_target_results t s)"
  by (simp add: app_target_results_def app_store_result_def split: option.split)

text \<open>What the handling of results leaves alone.\<close>

definition same_frame :: "AppState \<Rightarrow> AppState \<Rightarrow> bool" where
  "same_frame s s' \<longleftrightarrow> as_testing s' = as_testing s \<and> as_cancel s' = as_cancel s \<and> as_toasts s' = as_toasts s
   \<and> as_selected_categories s' = as_selected_categories s \<and> as_history s' = as_history s \<and> as_history_counter s' = as_history_counter s
   \<and> as_test_start_time s' = as_test_start_time s"

lemma same_frame_refl [simp]: "same_frame s s"
  by (simp add: same_frame_def)

lemma same_frame_result: "same_frame s (process_update ck (Result t r) s)"
  by (simp add: same_frame_def app_store_result_def log_detailed_def Let_def)

lemma same_frame_progress: "same_frame s (process_update ck (Progress t p) s)"
  by (simp add: same_frame_def)

lemma process_results:
  assumes "map snd us = concat (map (\<lambda>(i, r). [Result t r, Progress t (p i)]) (enumerate n rs))"
    and "list_all (\<lambda>r. tr_target r = t) rs"
  shows "same_frame s (process_updates us s)
    \<and> (\<forall>t'. app_target_results t' (process_updates us s) = (if t' = t then app_target_results t s @ rs else app_target_results t' s))"
  using assms
proof (induction rs arbitrary: us s n)
  case (Cons r rs)
  obtain c1 c2 us' where us: "us = (c1, Result t r) # (c2, Progress t (p n)) # us'"
    and us': "map snd us' = concat (map (\<lambda>(i, r). [Result t r, Progress t (p i)]) (enumerate (Suc n) rs))"
    using Cons.prems(1) by (auto simp: map_eq_Cons_conv)
  let ?s1 = "process_update c2 (Progress t (p n)) (process_update c1 (Result t r) s)"
  have f: "same_frame s ?s1"
    using same_frame_result[of s c1 t r] by (simp add: same_frame_def)
  have t: "tr_target r = t" using Cons.prems(2) by simp
  have a: "app_target_results t' ?s1 = (if t' = t then app_target_results t s @ [r] else app_target_results t' s)" for t'
    by (simp add: app_target_results_def app_store_result_def log_detailed_def Let_def t split: option.split)
  have "same_frame ?s1 (process_updates us' ?s1)
    \<and> (\<forall>t'. app_target_results t' (process_updates us' ?s1)
        = (if t' = t then app_target_results t ?s1 @ rs else app_target_results t' ?s1))"
    using Cons.IH[OF us'] Cons.prems(2) by simp
  then show ?case using f a unfolding us by (simp add: same_frame_def)
qed simp

lemma process_update_Started:
  "as_testing (process_update ck (Started t c) s)" "\<not> as_cancel (process_update ck (Started t c) s)"
  "app_target_results t' (process_update ck (Started t c) s) = app_target_results t' s"
  "as_selected_categories (process_update ck (Started t c) s) = as_selected_categories s"
  "as_toasts (process_update ck (Started t c) s) = as_toasts s" "as_history (process_update ck (Started t c) s) = as_history s"
  "as_test_start_time (process_update ck (Started t c) s) = Some (ck_instant ck)"
  by (simp_all add: Let_def app_log_def reset_cancel_def app_target_results_def)

lemma process_update_Completed:
  "\<not> as_testing (process_update ck (Completed t) s)" "as_progress (process_update ck (Completed t) s) = Fin 1"
  "as_cancel (process_update ck (Completed t) s) = as_cancel s"
  "app_target_results t' (process_update ck (Completed t) s) = app_target_results t' s"
  "map to_message (as_toasts (process_update ck (Completed t) s)) = map to_message (as_toasts s) @ [''Tests completed for '' @ t]"
  "map (\<lambda>h. (he_target h, he_categories h, he_results h)) (as_history (process_update ck (Completed t) s))
     = (let kept = app_target_results t s; old = map (\<lambda>h. (he_target h, he_categories h, he_results h)) (as_history s)
        in if kept = [] then old else take 50 ((t, as_selected_categories s, kept) # old))"
  "as_test_start_time (process_update ck (Completed t) s) = as_test_start_time s"
  by (simp_all add: Let_def app_log_def add_toast_def save_to_history_def app_target_results_def take_map[symmetric])

lemma process_update_Failed:
  "\<not> as_testing (process_update ck (FailedRun t e) s)" "as_cancel (process_update ck (FailedRun t e) s) = as_cancel s"
  "app_target_results t' (process_update ck (FailedRun t e) s) = app_target_results t' s"
  "as_history (process_update ck (FailedRun t e) s) = as_history s"
  "map to_message (as_toasts (process_update ck (FailedRun t e) s)) = map to_message (as_toasts s) @ [''Test failed for '' @ t @ '': '' @ e]"
  "as_test_start_time (process_update ck (FailedRun t e) s) = as_test_start_time s"
  by (simp_all add: Let_def app_log_def add_toast_def app_target_results_def)

text \<open>C32: Handling the updates of a whole run ends the testing state and withdraws a cancellation. A run that returns results adds them to
  those of its target and to no other, and records in the history, under the selected categories, all results of the target, those of earlier
  runs included. A run that panics leaves results and history as they are.\<close>

theorem session_outcome:
  assumes "map snd us = runner_run_all t joined"
    and "case joined of Inr rs \<Rightarrow> list_all (\<lambda>r. tr_target r = t) rs | Inl _ \<Rightarrow> True"
  shows "let s' = process_updates us s; seen = (\<lambda>h. (he_target h, he_categories h, he_results h)) in
    \<not> as_testing s' \<and> \<not> is_cancelled s'
    \<and> (case joined of
         Inr rs \<Rightarrow> as_progress s' = Fin 1
           \<and> (\<forall>t'. app_target_results t' s' = (if t' = t then app_target_results t s @ rs else app_target_results t' s))
           \<and> map seen (as_history s')
             = (if app_target_results t s @ rs = [] then map seen (as_history s)
                else take 50 ((t, as_selected_categories s, app_target_results t s @ rs) # map seen (as_history s)))
           \<and> map to_message (as_toasts s') = map to_message (as_toasts s) @ [''Tests completed for '' @ t]
       | Inl e \<Rightarrow> (\<forall>t'. app_target_results t' s' = app_target_results t' s) \<and> as_history s' = as_history s
           \<and> map to_message (as_toasts s') = map to_message (as_toasts s) @ [''Test failed for '' @ t @ '': '' @ e])"
proof (cases joined)
  case (Inl e)
  then obtain c1 c2 where us: "us = [(c1, Started t None), (c2, FailedRun t e)]"
    using assms(1) by (auto simp: runner_run_all_def runner_updates_def map_eq_Cons_conv)
  show ?thesis unfolding us Inl Let_def
    by (simp add: process_update_Started process_update_Failed is_cancelled_def del: process_update.simps)
next
  case (Inr rs)
  obtain c1 mid c2 where us: "us = (c1, Started t None) # mid @ [(c2, Completed t)]" and mid: "map snd mid = result_updates t (length rs) rs"
    using assms(1) by (auto simp: Inr runner_run_all_def runner_updates_def map_eq_Cons_conv map_eq_append_conv)
  let ?s1 = "process_update c1 (Started t None) s"
  have "same_frame ?s1 (process_updates mid ?s1)
    \<and> (\<forall>t'. app_target_results t' (process_updates mid ?s1)
        = (if t' = t then app_target_results t ?s1 @ rs else app_target_results t' ?s1))"
    using assms(2) Inr process_results[OF mid[unfolded result_updates_def], of ?s1] by simp
  then show ?thesis unfolding us Inr
    by (simp add: Let_def same_frame_def process_update_Started process_update_Completed is_cancelled_def take_map
        del: process_update.simps)
qed

text \<open>A run of one test, after which the cancelled flag is down again.\<close>

definition demo_result :: TestResult where
  "demo_result = set_status Success (test_result_new 7 ''RTT/Latency Test'' RTT ''h'')"

definition demo_app :: AppState where
  "demo_app = cancel_tests (app_new (\<lambda>_ _ _. Inl ''offline'') True False)"

theorem session_outcome_witness:
  "\<not> is_cancelled (process_updates (map (Pair \<lparr>ck_local = 9, ck_instant = 5\<rparr>) (runner_run_all ''h'' (Inr [demo_result]))) demo_app)
   \<and> app_target_results ''h''
       (process_updates (map (Pair \<lparr>ck_local = 9, ck_instant = 5\<rparr>) (runner_run_all ''h'' (Inr [demo_result]))) demo_app) = [demo_result]"
proof -
  have "map snd (map (Pair \<lparr>ck_local = 9, ck_instant = 5\<rparr>) (runner_run_all ''h'' (Inr [demo_result]))) = runner_run_all ''h'' (Inr [demo_result])"
    by (simp add: comp_def)
  moreover have "app_target_results ''h'' demo_app = []" by code_simp
  moreover have "tr_target demo_result = ''h''" by code_simp
  ultimately show ?thesis using session_outcome[of _ "''h''" "Inr [demo_result]" demo_app] by (simp add: Let_def)
qed

text \<open>A detached window keeps no history, no start of the run and no cancellation: only what it shows changes.\<close>

lemma detached_loop_frame:
  "as_history (process_update_detached u s) = as_history s" "as_cancel (process_update_detached u s) = as_cancel s"
  "as_logs (process_update_detached u s) = as_logs s" "as_toasts (process_update_detached u s) = as_toasts s"
  "as_testing (process_update_detached u s) = as_testing (process_update ck u s)"
  by (cases u; simp add: app_store_result_def Let_def app_log_def add_toast_def log_detailed_def reset_cancel_def)+

text \<open>The comments announce the last 500 entries; the plain \<open>log\<close> removes none, whatever their number.\<close>

lemma app_log_never_trims: "length (as_logs (app_log now lv m s)) = length (as_logs s) + 1"
  by (simp add: app_log_def)

lemma log_detailed_trims: "length (as_logs s) \<le> 500 \<Longrightarrow> length (as_logs (log_detailed e s)) \<le> 500"
  by (auto simp: log_detailed_def Let_def)

section \<open>The history\<close>

text \<open>Every operation of the state, and the choices of the user, which may set any of the fields they concern.\<close>

inductive app_step :: "AppState \<Rightarrow> AppState \<Rightarrow> bool" where
  "app_step s (process_update ck u s)"
| "app_step s (process_update_detached u s)"
| "app_step s (startup_hook now s)"
| "app_step s (add_toast m ty s)"
| "app_step s (remove_toast i s)"
| "app_step s (app_store_result t r s)"
| "app_step s (app_clear_results s)"
| "app_step s (app_log now lv m s)"
| "app_step s (log_detailed e s)"
| "app_step s (clear_logs s)"
| "app_step s (save_to_history ck t cats s)"
| "app_step s (clear_history s)"
| "app_step s (cancel_tests s)"
| "app_step s (reset_cancel s)"
| "app_step s (s\<lparr>as_active_panel := p, as_selected_categories := cats, as_current_target := t, as_targets := ts, as_last_report := rep,
     as_probe_tools := pt, as_priv_banner_dismissed := b\<rparr>)"

inductive_cases app_stepE: "app_step s s'"

definition app_init :: "AppState \<Rightarrow> bool" where
  "app_init s \<longleftrightarrow> (\<exists>run linux priv. s = app_new run linux priv)"

definition history_ok :: "AppState \<Rightarrow> bool" where
  "history_ok s \<longleftrightarrow> length (as_history s) \<le> 50 \<and> list_all (\<lambda>h. he_results h \<noteq> []) (as_history s)"

lemma history_ok_cong: "as_history s' = as_history s \<Longrightarrow> history_ok s' = history_ok s"
  by (simp add: history_ok_def)

lemma history_ok_save: "history_ok s \<Longrightarrow> history_ok (save_to_history ck t cats s)"
  by (auto simp: history_ok_def save_to_history_def Let_def list_all_iff dest: in_set_takeD)

lemma history_ok_update: "history_ok s \<Longrightarrow> history_ok (process_update ck u s)"
proof (cases u)
  case (Completed t)
  have "as_history (process_update ck u s) = as_history (save_to_history ck t (as_selected_categories s) s)"
    by (simp add: Completed Let_def add_toast_def app_log_def)
  then show "history_ok s \<Longrightarrow> ?thesis" using history_ok_save history_ok_cong by metis
qed (simp_all add: history_ok_def Let_def app_log_def reset_cancel_def app_store_result_def log_detailed_def add_toast_def)

interpretation app_history: step_invariant app_init app_step history_ok
proof unfold_locales
  show "app_init s \<Longrightarrow> history_ok s" for s by (auto simp: app_init_def app_new_def history_ok_def)
  show "history_ok s \<Longrightarrow> app_step s t \<Longrightarrow> history_ok t" for s t
    by (erule app_stepE)
      (simp_all add: history_ok_update history_ok_save,
       simp_all add: history_ok_def detached_loop_frame startup_hook_def add_toast_def remove_toast_def app_store_result_def Let_def
        app_clear_results_def app_log_def log_detailed_def clear_logs_def clear_history_def cancel_tests_def reset_cancel_def)
qed

text \<open>Whatever the user and the runs do, the history holds at most fifty entries and none without results.\<close>

theorem history_bounded:
  assumes "reachable_by app_init app_step s"
  shows "length (as_history s) \<le> 50 \<and> list_all (\<lambda>h. he_results h \<noteq> []) (as_history s)"
  using app_history.reachable_inv[OF assms] by (simp add: history_ok_def)

lemma demo_app_reachable: "reachable_by app_init app_step demo_app"
  unfolding demo_app_def
  by (rule reachable_by.intros(2), rule reachable_by.intros(1)) (auto simp: app_init_def intro: app_step.intros)

definition demo_history_app :: AppState where
  "demo_history_app = save_to_history \<lparr>ck_local = 9, ck_instant = 5\<rparr> ''h'' {} (app_store_result ''h'' demo_result demo_app)"

theorem history_bounded_witness:
  "length (as_history demo_history_app) = 1 \<and> list_all (\<lambda>h. he_results h \<noteq> []) (as_history demo_history_app)"
proof -
  have "reachable_by app_init app_step demo_history_app"
    unfolding demo_history_app_def
    by (rule reachable_by.more[OF reachable_by.more[OF demo_app_reachable app_step.intros(6)] app_step.intros(11)])
  moreover have "length (as_history demo_history_app) = 1"
    by (simp add: demo_history_app_def save_to_history_def app_target_results_def app_store_result_def Let_def demo_app_def
        cancel_tests_def app_new_def)
  ultimately show ?thesis using history_bounded[of demo_history_app] by simp
qed

section \<open>How a run of the fuzzing panel ends\<close>
























text \<open>A Stop that comes before the start of the run has been handled is lost: handling the start withdraws it.\<close>

lemma stop_before_start_lost: "\<not> is_cancelled (process_update ck (Started t c) (cancel_tests s))"
  by (simp add: is_cancelled_def process_update_Started del: process_update.simps)

section \<open>Closing a window\<close>

lemma wm_run_append: "wm_run (es @ fs) w = (case wm_run es w of None \<Rightarrow> None | Some w1 \<Rightarrow> wm_run fs w1)"
  by (induction es arbitrary: w) (auto split: option.split)

lemma wm_apply_listener: "wm_apply e w = Some w1 \<Longrightarrow> wm_listener w1 = wm_listener w"
  by (cases e) (auto simp: detach_panel_def get_reattach_sender_def close_window_def reattach_panel_def listener_poll_def
      split: if_splits option.splits list.splits)

lemma wm_init_no_listener [simp]: "\<not> wm_listener wm_init" "wm_detached wm_init = {}"
  by (simp_all add: wm_init_def use_reattach_listener_def take_reattach_receiver_def)

lemma wm_run_no_listener: "wm_run es wm_init = Some w \<Longrightarrow> \<not> wm_listener w"
proof (induction es arbitrary: w rule: rev_induct)
  case (snoc e es)
  then show ?case by (auto simp: wm_run_append dest!: wm_apply_listener split: option.splits)
qed simp

text \<open>C34: The listener that should bring a panel back when its window is closed is never started: when the application mounts, the channel
  it takes the receiver of does not exist yet. So whether a panel is detached depends on the Detach and the Reattach buttons alone, the last of
  them pressed for it deciding, and closing its window changes nothing.\<close>

theorem closing_never_reattaches:
  assumes "wm_run es wm_init = Some w"
  shows "\<not> wm_listener w
     \<and> (p \<in> wm_detached w \<longleftrightarrow>
        (let buttons = filter (\<lambda>e. e = Detach p \<or> e = Reattach p) es in buttons \<noteq> [] \<and> last buttons = Detach p))"
proof -
  have "p \<in> wm_detached w \<longleftrightarrow>
        (let buttons = filter (\<lambda>e. e = Detach p \<or> e = Reattach p) es in buttons \<noteq> [] \<and> last buttons = Detach p)"
    using assms
  proof (induction es arbitrary: w rule: rev_induct)
    case (snoc e es)
    then obtain w1 where w1: "wm_run es wm_init = Some w1" "wm_apply e w1 = Some w"
      by (auto simp: wm_run_append split: option.splits)
    show ?case using snoc.IH[OF w1(1)] w1(2) wm_run_no_listener[OF w1(1)]
      by (cases e) (auto simp: Let_def detach_panel_def get_reattach_sender_def close_window_def reattach_panel_def
          split: if_splits option.splits)
  qed simp
  then show ?thesis using wm_run_no_listener[OF assms] by simp
qed

theorem closing_never_reattaches_witness:
  "(case wm_run [Detach PLogs, CloseWindow PLogs] wm_init of Some w \<Rightarrow> PLogs \<in> wm_detached w \<and> wm_windows w = [] | None \<Rightarrow> False)"
proof -
  obtain w where w: "wm_run [Detach PLogs, CloseWindow PLogs] wm_init = Some w" "wm_windows w = []"
    by (simp add: detach_panel_def close_window_def get_reattach_sender_def wm_init_def use_reattach_listener_def take_reattach_receiver_def)
  then show ?thesis using closing_never_reattaches[OF w(1), of PLogs] by (simp add: Let_def)
qed

end
