(* ===== verification/Command_Registry.thy ===== *)
theory Command_Registry
  imports Fraggle_Prelude
begin

text \<open>
  The registry of the subcommands (\<open>ui_bridge/registry.rs\<close>), the bridge that runs one of them and reads its output
  (\<open>ui_bridge/mod.rs\<close>) and the browser over the registry (\<open>bin/tui/command_panel.rs\<close>), with the required options that the argument
  structs of \<open>cli/commands\<close> declare. Whether a path is a file, the operating system, the environment and the child process are
  arguments; so are the JSON parser and the command-line parser.
\<close>

section \<open>The registry\<close>

datatype Bucket = WifiRf | Throughput | PathMtu | DnsAddressing | Infrastructure | SecurityPolicy | ToolsBucket

definition all_buckets :: "Bucket list" where
  "all_buckets = [WifiRf, Throughput, PathMtu, DnsAddressing, Infrastructure, SecurityPolicy, ToolsBucket]"

fun bucket_label :: "Bucket \<Rightarrow> string" where
  "bucket_label WifiRf = ''Wi-Fi & RF''"
| "bucket_label Throughput = ''Throughput & Capacity''"
| "bucket_label PathMtu = ''Path & MTU''"
| "bucket_label DnsAddressing = ''DNS & Addressing''"
| "bucket_label Infrastructure = ''Infrastructure''"
| "bucket_label SecurityPolicy = ''Security & Policy''"
| "bucket_label ToolsBucket = ''Tools & Reports''"

datatype Platform = AnyPlatform | MacOsOnly | MacOsForLiveSampling

datatype Availability = Available | IngestOnly string | Unavailable string

definition is_available :: "Availability \<Rightarrow> bool" where
  "is_available a \<longleftrightarrow> a = Available"

definition is_blocked :: "Availability \<Rightarrow> bool" where
  "is_blocked a \<longleftrightarrow> (case a of Unavailable _ \<Rightarrow> True | _ \<Rightarrow> False)"

datatype InputKind = TargetInput | TargetListInput | InterfaceInput | ExistingFileInput | PortInput | TextInput

definition from_placeholder :: "string \<Rightarrow> InputKind" where
  "from_placeholder n =
     (if n \<in> {''TARGET'', ''HOST'', ''GATEWAY'', ''REMOTE'', ''AFFECTED_HOST'', ''CONTROL_HOST'', ''NAME''} then TargetInput
      else if n \<in> {''TARGETS'', ''RESOLVERS''} then TargetListInput
      else if n \<in> {''INTERFACE'', ''IFACE''} then InterfaceInput
      else if n \<in> {''PCAP'', ''FILE'', ''FILES'', ''MANIFEST'', ''MANIFEST_FILE'', ''BRACKET'', ''RUN'', ''MEASUREMENTS_FILE''}
        then ExistingFileInput
      else if n = ''PORT'' then PortInput
      else TextInput)"

fun hint :: "InputKind \<Rightarrow> string" where
  "hint TargetInput = ''hostname or IP''"
| "hint TargetListInput = ''comma-separated hosts''"
| "hint InterfaceInput = ''interface name, e.g. en0''"
| "hint ExistingFileInput = ''path to an existing file''"
| "hint PortInput = ''port number''"
| "hint TextInput = ''value''"

text \<open>The first argument says whether a path is a file.\<close>

definition validate_input :: "(string \<Rightarrow> bool) \<Rightarrow> InputKind \<Rightarrow> string \<Rightarrow> string + unit" where
  "validate_input is_file k value =
     (let v = trim value in
      if v = '''' then Inl (hint k @ '' is required'')
      else (case k of
          PortInput \<Rightarrow> (case (parse_uint v :: u16 option) of
              None \<Rightarrow> Inl ''port must be a number from 0 to 65535''
            | Some _ \<Rightarrow> Inr ())
        | ExistingFileInput \<Rightarrow> if is_file v then Inr () else Inl (''no file at '' @ v)
        | _ \<Rightarrow> if 1 < length (split_whitespace v) then Inl ''must not contain spaces'' else Inr ()))"

record Cmd =
  cmd_name :: string
  cmd_bucket :: Bucket
  cmd_required_inputs :: "string list"
  cmd_emits_json :: bool
  cmd_platform :: Platform
  cmd_needs_privilege :: bool
  cmd_gaps :: "string option"
  cmd_summary :: string

definition typed_inputs :: "Cmd \<Rightarrow> (string \<times> InputKind) list" where
  "typed_inputs c = map (\<lambda>n. (n, from_placeholder n)) (cmd_required_inputs c)"

definition input_errors :: "(string \<Rightarrow> bool) \<Rightarrow> Cmd \<Rightarrow> string list \<Rightarrow> string list" where
  "input_errors is_file c vals =
     (let typed = typed_inputs c in
      (if length vals < length typed
       then [''expected '' @ show_nat (length typed) @ '' value(s), got '' @ show_nat (length vals)] else [])
      @ filter_map (\<lambda>(i, name, kind).
          if i < length vals
          then (case validate_input is_file kind (vals ! i) of Inl e \<Rightarrow> Some (name @ '': '' @ e) | Inr _ \<Rightarrow> None)
          else Some (name @ '': '' @ hint kind @ '' is required'')) (enumerate 0 typed))"

definition validate_inputs :: "(string \<Rightarrow> bool) \<Rightarrow> Cmd \<Rightarrow> string list \<Rightarrow> string list + unit" where
  "validate_inputs is_file c vals = (let errors = input_errors is_file c vals in if errors = [] then Inr () else Inl errors)"

definition availability :: "bool \<Rightarrow> Cmd \<Rightarrow> Availability" where
  "availability darwin c = (case cmd_platform c of
     AnyPlatform \<Rightarrow> Available
   | MacOsOnly \<Rightarrow> if darwin then Available
       else Unavailable ''needs macOS: reads system_profiler/wdutil/networkQuality, which have no equivalent here''
   | MacOsForLiveSampling \<Rightarrow> if darwin then Available
       else IngestOnly ''live sampling needs macOS/BSD tooling; supply operator JSON to run it here'')"

definition invocation :: "Cmd \<Rightarrow> string list \<Rightarrow> string list" where
  "invocation c user_args =
     (if cmd_emits_json c \<and> ''--json'' \<notin> set user_args then user_args @ [''--json''] else user_args)"

definition cmd_row :: "string \<Rightarrow> Bucket \<Rightarrow> string list \<Rightarrow> bool \<Rightarrow> Platform \<Rightarrow> bool \<Rightarrow> string option \<Rightarrow> string \<Rightarrow> Cmd" where
  "cmd_row n b req js p priv g s = \<lparr>cmd_name = n, cmd_bucket = b, cmd_required_inputs = req, cmd_emits_json = js,
     cmd_platform = p, cmd_needs_privilege = priv, cmd_gaps = g, cmd_summary = s\<rparr>"

definition COMMANDS :: "Cmd list" where
  "COMMANDS =
     [cmd_row ''admission-fanout'' Throughput [''TARGET''] True AnyPlatform False (Some ''GAP-045'')
        (''Barrier-synchronized public-listener admission fanout: never reports a listener that never admitted as zero '' @
         ''throughput (GAP-045)''),
      cmd_row ''ap-compat-matrix'' WifiRf [] True MacOsForLiveSampling False (Some ''GAP-037'')
        (''AP-generation/radio-mode/client-capability compatibility matrix; refuses a verdict until required comparison cells '' @
         ''are present (GAP-037)''),
      cmd_row ''ap-identity'' WifiRf [] True MacOsForLiveSampling False (Some ''GAP-024'')
        ''Stable, privacy-safe salted AP/radio identity derived from BSSID without storing or displaying it (GAP-024)'',
      cmd_row ''auth-portal'' SecurityPolicy [] True AnyPlatform False (Some ''GAP-049'')
        (''Authentication/captive-portal/policy-assignment workflow: separately timed phases, portal detection without login '' @
         ''automation (GAP-049)''),
      cmd_row ''bufferbloat'' Throughput [] True MacOsOnly False (Some ''GAP-002'')
        ''Idle/upload-loaded/download-loaded/simultaneous latency via networkQuality (GAP-002)'',
      cmd_row ''burst-analysis'' PathMtu [''INTERFACE'', ''TARGET''] True MacOsForLiveSampling False (Some ''GAP-066'')
        ''Bounded burst-loss/reordering/duplication/jitter probe with queue-delay correlation (GAP-066)'',
      cmd_row ''capacity-knee'' Throughput [''INTERFACE''] True AnyPlatform False (Some ''GAP-070'')
        (''Capacity/latency-knee discovery: distinguishes a capacity plateau from directional unfairness and withholds an '' @
         ''established claim without cross-method reproduction (GAP-070)''),
      cmd_row ''capture'' SecurityPolicy [''INTERFACE''] True AnyPlatform True (Some ''GAP-007'')
        ''Bounded packet capture with duration/size caps and safe privilege handoff (GAP-007)'',
      cmd_row ''circuit-compare'' Infrastructure [''MANIFEST''] True AnyPlatform False (Some ''GAP-029'')
        ''Compare WAN A-only, B-only, and dual-active phases from an operator manifest; never changes routing (GAP-029)'',
      cmd_row ''clock-guard'' Infrastructure [] True AnyPlatform False (Some ''GAP-064'')
        (''Synchronized clock verification: NTP offset with uncertainty, gated against a configured skew threshold, before '' @
         ''permitting a one-way delay claim (GAP-064)''),
      cmd_row ''counter-deltas'' Infrastructure [] True MacOsForLiveSampling False (Some ''GAP-031'')
        ''Normalized, qualified per-phase interface-counter deltas (GAP-031)'',
      cmd_row ''counter-liveness'' Infrastructure [] True MacOsForLiveSampling False (Some ''GAP-043'')
        (''Bracket a known packet stimulus to prove a counter is live, and refuse a zero-drop verdict without corroboration '' @
         ''(GAP-043)''),
      cmd_row ''dependency-health'' Infrastructure [] True AnyPlatform False (Some ''GAP-059'')
        (''Infrastructure dependency health bundle: DNS/NTP/cert/OCSP/controller checks distinguishing blocked-by-policy from '' @
         ''unhealthy (GAP-059)''),
      cmd_row ''dhcp-lifecycle'' DnsAddressing [''INTERFACE''] True AnyPlatform False (Some ''GAP-048'')
        (''DHCP address-lifecycle and pool-capacity test: safe existing-lease read by default, authorization-gated '' @
         ''fresh-lease test (GAP-048)''),
      cmd_row ''diagnose'' ToolsBucket [''TARGET''] True AnyPlatform False (None)
        ''Full diagnostic against a hostname (DNS, TCP, HTTP, ICMP comparison)'',
      cmd_row ''dns-secure'' DnsAddressing [''TARGET''] True AnyPlatform False (None)
        ''DoH/DoT vs plain DNS comparison'',
      cmd_row ''dns-steering'' DnsAddressing [''RESOLVERS'', ''NAME''] True AnyPlatform False (Some ''GAP-014'')
        ''Compare A/AAAA/HTTPS/SVCB answers across resolvers to detect steering divergence (GAP-014)'',
      cmd_row ''dsl-demo'' ToolsBucket [] False AnyPlatform False (None)
        ''Print a hexdump of a packet described by our DSL (demo helper)'',
      cmd_row ''ecmp-nat'' PathMtu [] True AnyPlatform False (Some ''GAP-028'')
        ''Multi-uplink ECMP/LAG hash and NAT-affinity diagnostic via fixed-5-tuple port sweeps (GAP-028)'',
      cmd_row ''ecn-aqm'' PathMtu [] True AnyPlatform False (Some ''GAP-023'')
        ''ECN/AQM capability and CE-mark counting with classic-ECN-vs-L4S distinction (GAP-023)'',
      cmd_row ''endpoints'' Throughput [] True AnyPlatform False (None)
        (''Known iperf3 endpoints and the ports recorded as failing, so a known-bad endpoint is never retried or scored as '' @
         ''zero throughput''),
      cmd_row ''first-hop'' PathMtu [] True AnyPlatform False (Some ''GAP-022'')
        ''First-hop gateway isolation with non-ICMP fallback when echo is suppressed (GAP-022)'',
      cmd_row ''fleet-orchestrator'' Infrastructure [] True AnyPlatform False (Some ''GAP-038'')
        (''Distributed wireless-probe fleet orchestrator: management/test-node separation, redacted labels, bounded fanout '' @
         ''(GAP-038)''),
      cmd_row ''flow-dscp-matrix'' Throughput [''INTERFACE'', ''TARGET''] True MacOsForLiveSampling False (Some ''GAP-034'')
        ''Constant-aggregate flow-count sweep with DSCP marking-survival qualification (GAP-034)'',
      cmd_row ''fuzz'' SecurityPolicy [''TARGET''] False AnyPlatform False (None)
        ''Packet fuzzing for security testing'',
      cmd_row ''gateway-bracket'' Throughput [] True AnyPlatform False (Some ''GAP-044'')
        ''Pair idle/upload/download/simultaneous load phases with a first-hop gateway RTT/loss bracket (GAP-044)'',
      cmd_row ''https'' ToolsBucket [''TARGET''] True AnyPlatform False (None)
        ''Test HTTPS connectivity with stage-by-stage analysis (MTU blackhole detection)'',
      cmd_row ''independent-rates'' Throughput [] True AnyPlatform False (Some ''GAP-032'')
        ''Independently rate-controlled, time-aligned simultaneous upload/download sweep (GAP-032)'',
      cmd_row ''iperf-analyze'' Throughput [] True AnyPlatform False (Some ''GAP-036,GAP-039'')
        ''Version/direction-aware iperf3 JSON parsing and explicit-allowlist endpoint capability discovery (GAP-039/GAP-036)'',
      cmd_row ''ipv6-validate'' DnsAddressing [''INTERFACE''] True AnyPlatform False (Some ''GAP-015,GAP-056'')
        (''Decomposed IPv6/NAT64/DNS64 validation with separate IPv4 and IPv6 verdicts, plus Happy Eyeballs timing '' @
         ''(GAP-056/GAP-015)''),
      cmd_row ''kitchen-sink'' PathMtu [] True AnyPlatform False (None)
        ''Run all tests against common targets and give final verdict'',
      cmd_row ''listener-lease'' Throughput [''ALLOW'', ''USE_LISTENER''] True AnyPlatform False (Some ''GAP-040'')
        (''Authorized-only listener leasing with per-transport capacity/duration qualification and endpoint loss-floor '' @
         ''declaration (GAP-040)''),
      cmd_row ''load-guard'' Throughput [] True MacOsForLiveSampling False (Some ''GAP-027,GAP-047'')
        ''Run a budget-guarded, radio-monitored load phase (GAP-027/GAP-047)'',
      cmd_row ''media-quality'' SecurityPolicy [''INTERFACE'', ''TARGET''] True MacOsForLiveSampling False (Some ''GAP-052'')
        (''Synthetic RTP/WebRTC media-quality probe: setup/ICE, burst-derived concealment/freeze risk, MOS-style estimate '' @
         ''(GAP-052)''),
      cmd_row ''mss-evidence'' PathMtu [] True AnyPlatform False (Some ''GAP-010,GAP-026'')
        ''SYN/SYN-ACK MSS evidence (local/peer/middlebox) and multi-destination MSS clustering vs route MTU (GAP-010/GAP-026)'',
      cmd_row ''multi'' PathMtu [''TARGETS''] True AnyPlatform False (None)
        ''Test multiple targets and compare path MTUs'',
      cmd_row ''multicast-isolation'' DnsAddressing [] True AnyPlatform False (Some ''GAP-057'')
        (''Discovery/multicast/peer-isolation policy diagnostic: declared expected-reachable/expected-blocked verdicts, '' @
         ''name-free responder tallies (GAP-057)''),
      cmd_row ''multiclient-fairness'' WifiRf [] True AnyPlatform False (Some ''GAP-051,GAP-072'')
        (''Coordinated multi-client capacity/fairness: refuses a cross-client verdict until both role descriptors exist and '' @
         ''their phase windows overlap (GAP-051/GAP-072)''),
      cmd_row ''nat-capacity'' SecurityPolicy [''TARGET''] True MacOsForLiveSampling False (Some ''GAP-054'')
        (''Firewall/NAT/session-state capacity matrix: authorization-gated disruptive probing, safe-by-default idle-mapping '' @
         ''observation (GAP-054)''),
      cmd_row ''pcap-report'' PathMtu [''FILES''] True AnyPlatform False (Some ''GAP-019'')
        ''Analyze a PCAP/pcapng capture: vantage point, capture health, qualified MTU/loss verdicts (GAP-019)'',
      cmd_row ''phy-normalized'' WifiRf [''MEASUREMENTS_FILE''] True MacOsForLiveSampling False (Some ''GAP-042'')
        (''PHY-normalized fleet comparison: offered load as a fraction of each client'' @ [CHR 0x27] @ ''s own PHY capacity (GAP-042)''),
      cmd_row ''platform-matrix'' WifiRf [] True AnyPlatform False (Some ''GAP-063'')
        ''Privacy-safe cross-platform/power-save capability matrix with confound-aware attribution (GAP-063)'',
      cmd_row ''policy-manifest'' SecurityPolicy [''MANIFEST_FILE''] True AnyPlatform False (Some ''GAP-065'')
        (''Expected-policy and service-reachability manifest: probes only allowlisted targets and flags drift from declared '' @
         ''allow/deny policy (GAP-065)''),
      cmd_row ''preflight'' SecurityPolicy [] True AnyPlatform False (Some ''GAP-025'')
        ''Preflight ALPN/Alt-Svc + real handshake capability across endpoints (GAP-025)'',
      cmd_row ''printer-raw'' ToolsBucket [''TARGET''] True AnyPlatform False (None)
        ''Raw JetDirect port 9100 PJL + bulk size sweep'',
      cmd_row ''privilege-status'' SecurityPolicy [] True AnyPlatform False (Some ''GAP-016'')
        (''Privileged-operation inventory and failure classification: preserve the error, name the exact command, offer an '' @
         ''unprivileged path (GAP-016)''),
      cmd_row ''probe'' PathMtu [''IFACE'', ''TARGET''] False AnyPlatform True (None)
        ''Active MTU probe using the native DSL + send-and-capture engine'',
      cmd_row ''probe-preflight'' Infrastructure [] True AnyPlatform False (Some ''GAP-041'')
        (''Remote probe health/dependency preflight: quarantines broken binaries, timeouts, and changed SSH host keys with no '' @
         ''auto-accept path (GAP-041)''),
      cmd_row ''probe-rate'' PathMtu [''GATEWAY'', ''REMOTE''] True AnyPlatform False (Some ''GAP-021'')
        ''Detect ICMP rate-limiting/batching artifacts by comparing normal vs elevated probe cadence (GAP-021)'',
      cmd_row ''process-model'' Infrastructure [] True AnyPlatform False (Some ''GAP-069'')
        (''Process-model equivalence and receive-path artifact guard: withholds a directional-collapse verdict unless it '' @
         ''reproduces across native-bidir and paired-process methods (GAP-069)''),
      cmd_row ''protocol-compare'' Throughput [''HOST''] True AnyPlatform False (Some ''GAP-003,GAP-004'')
        ''Controlled H1/H2/H3 comparison with directional vs simultaneous isolation (GAP-003/GAP-004)'',
      cmd_row ''provider-path'' PathMtu [''TARGET''] True AnyPlatform False (Some ''GAP-061'')
        ''Provider/geography/path-stability comparison with non-response distinguished from loss (GAP-061)'',
      cmd_row ''quic'' PathMtu [''TARGET''] True AnyPlatform False (None)
        ''QUIC/UDP PMTUD probe'',
      cmd_row ''quick'' PathMtu [''TARGET''] True AnyPlatform False (None)
        ''Quick ICMP-only MTU test'',
      cmd_row ''radio-diagnostic'' WifiRf [] True MacOsForLiveSampling False (Some ''GAP-011'')
        ''Wi-Fi radio/retry diagnostic with safe elevation and explicit platform-limitation reporting (GAP-011)'',
      cmd_row ''reference-endpoint'' Throughput [] True AnyPlatform False (Some ''GAP-053'')
        ((''Reference-endpoint calibration and client-result acceptance: the endpoint can invalidate a client'' @ [CHR 0x27] @ ''s measurement '') @
         ''(GAP-053)''),
      cmd_row ''replay'' SecurityPolicy [''PCAP''] False AnyPlatform True (None)
        ''Replay a PCAP file onto the wire (requires root)'',
      cmd_row ''report'' ToolsBucket [''TARGET''] True AnyPlatform False (None)
        ''Render a unified README_FIRST-style diagnosis of a target'',
      cmd_row ''resilience'' Infrastructure [''RUN''] True AnyPlatform False (Some ''GAP-062'')
        (''Controlled resilience/failover validation: observes and labels an operator-performed component change, never '' @
         ''initiates one (GAP-062)''),
      cmd_row ''rf-survey'' WifiRf [] True MacOsOnly False (Some ''GAP-055'')
        ''Bounded time-series RF survey with platform-limited metric qualification and change-point correlation (GAP-055)'',
      cmd_row ''roaming'' WifiRf [] True MacOsForLiveSampling False (Some ''GAP-050'')
        (''Controlled roaming/session-continuity test: privacy-safe AP transitions, handoff duration, and '' @
         ''VLAN/public-identity continuity (GAP-050)''),
      cmd_row ''scenario'' ToolsBucket [''FILE''] True AnyPlatform False (None)
        ''Run a declarative scenario from a file or stdin'',
      cmd_row ''second-network'' Infrastructure [] True AnyPlatform False (Some ''GAP-013'')
        (''Second-network control workflow: save/compare a connection fingerprint and test bundle across a network switch '' @
         ''(GAP-013)''),
      cmd_row ''serve'' ToolsBucket [] False AnyPlatform False (None)
        ''Expose a Prometheus metrics scrape endpoint'',
      cmd_row ''site-ab'' Infrastructure [''AFFECTED_HOST'', ''CONTROL_HOST''] True AnyPlatform False (Some ''GAP-012'')
        (''Affected-site vs known-good-control A/B workflow: forced protocol, IP pinning, repeated samples, redirect-aware '' @
         ''verdict (GAP-012)''),
      cmd_row ''size-rate-matrix'' Throughput [''INTERFACE'', ''TARGET''] True MacOsForLiveSampling False (Some ''GAP-033'')
        ''Datagram-size/packet-rate pressure matrix distinguishing packet-rate ceilings from byte-rate policing (GAP-033)'',
      cmd_row ''ssh-path'' ToolsBucket [''TARGET''] True AnyPlatform False (None)
        ''SSH banner + optional authenticated echo data-path test'',
      cmd_row ''stun-turn'' DnsAddressing [] True AnyPlatform False (Some ''GAP-005'')
        (''Repeated STUN binding requests with validation/RTT, mapped-address change detection, and TURN allocation checks '' @
         ''(GAP-005)''),
      cmd_row ''tcp'' PathMtu [''TARGET''] True AnyPlatform False (None)
        ''TCP-based MTU discovery (no ICMP required)'',
      cmd_row ''tcp-options'' PathMtu [''TARGET''] True AnyPlatform False (None)
        ''Query actual negotiated TCP MSS and detect middlebox rewriting'',
      cmd_row ''tcp-vs-udp'' Throughput [] True MacOsForLiveSampling False (Some ''GAP-006'')
        ''Controlled TCP-versus-UDP throughput/loss comparison against a user-supplied endpoint (GAP-006)'',
      cmd_row ''test'' ToolsBucket [''TARGET''] True AnyPlatform False (None)
        ''Run test framework tests (DNS, HTTPS, TCP, RTT, Loss)'',
      cmd_row ''throughput-tuner'' Throughput [''HOST'', ''PORT''] True AnyPlatform False (Some ''GAP-046'')
        (''Version-aware maximum-throughput tuner: randomized trials, duration validation, synthetic-max vs '' @
         ''representative-application split (GAP-046)''),
      cmd_row ''tui'' ToolsBucket [] False AnyPlatform False (None)
        ''Launch interactive TUI'',
      cmd_row ''upload-sweep'' PathMtu [''TARGET''] True AnyPlatform False (None)
        ''HTTP(S) upload size sweep (detects data-stall blackholes)'',
      cmd_row ''vpn'' PathMtu [''VPN_TYPE''] True AnyPlatform False (None)
        ''Calculate safe MTU for VPN/SASE/Zero-Trust usage'',
      cmd_row ''vpn-matrix'' SecurityPolicy [''TARGET''] True AnyPlatform False (Some ''GAP-060'')
        (''VPN/encapsulation compatibility matrix: credential-free protocol reachability and real effective MTU/MSS '' @
         ''measurement (GAP-060)''),
      cmd_row ''wired-control'' Infrastructure [] True AnyPlatform False (Some ''GAP-030'')
        ((''Matched wired-versus-Wi-Fi fault-domain control: withholds WLAN attribution when the two paths'' @ [CHR 0x27] @ '' public egress '') @
         ''identities differ (GAP-030)''),
      cmd_row ''wired-edge'' Infrastructure [''BRACKET''] True AnyPlatform False (Some ''GAP-058'')
        ''Wired edge/AP-uplink/LLDP/PoE health bundle: read-only ingest, refuses a conclusion without telemetry (GAP-058)'']"

definition in_bucket :: "Bucket \<Rightarrow> Cmd list" where
  "in_bucket b = filter (\<lambda>c. cmd_bucket c = b) COMMANDS"

definition find_command :: "string \<Rightarrow> Cmd option" where
  "find_command n = List.find (\<lambda>c. cmd_name c = n) COMMANDS"

section \<open>The options the commands require\<close>

text \<open>Of the commands with required inputs, those that take one of them as an option: the options their argument struct requires.\<close>

definition admission_fanout_flags :: "string list" where
  "admission_fanout_flags = [''--target'']"

definition burst_analysis_flags :: "string list" where
  "burst_analysis_flags = [''--interface'', ''--target'']"

definition capacity_knee_flags :: "string list" where
  "capacity_knee_flags = [''--interface'']"

definition capture_flags :: "string list" where
  "capture_flags = [''--interface'']"

definition circuit_compare_flags :: "string list" where
  "circuit_compare_flags = [''--manifest'']"

definition dhcp_lifecycle_flags :: "string list" where
  "dhcp_lifecycle_flags = [''--interface'']"

definition dns_steering_flags :: "string list" where
  "dns_steering_flags = [''--resolver'']"

definition flow_dscp_matrix_flags :: "string list" where
  "flow_dscp_matrix_flags = [''--interface'', ''--target'']"

definition ipv6_validate_flags :: "string list" where
  "ipv6_validate_flags = [''--interface'']"

definition listener_lease_flags :: "string list" where
  "listener_lease_flags = [''--allow'', ''--use-listener'']"

definition media_quality_flags :: "string list" where
  "media_quality_flags = [''--interface'', ''--target'']"

definition nat_capacity_flags :: "string list" where
  "nat_capacity_flags = [''--target'']"

definition phy_normalized_flags :: "string list" where
  "phy_normalized_flags = [''--measurements-file'']"

definition policy_manifest_flags :: "string list" where
  "policy_manifest_flags = [''--manifest-file'']"

definition probe_flags :: "string list" where
  "probe_flags = [''--iface'']"

definition probe_rate_flags :: "string list" where
  "probe_rate_flags = [''--gateway'', ''--remote'']"

definition resilience_flags :: "string list" where
  "resilience_flags = [''--run'']"

definition site_ab_flags :: "string list" where
  "site_ab_flags = [''--affected-host'', ''--control-host'']"

definition size_rate_matrix_flags :: "string list" where
  "size_rate_matrix_flags = [''--interface'', ''--target'']"

definition throughput_tuner_flags :: "string list" where
  "throughput_tuner_flags = [''--host'', ''--port'']"

definition vpn_matrix_flags :: "string list" where
  "vpn_matrix_flags = [''--target'']"

definition wired_edge_flags :: "string list" where
  "wired_edge_flags = [''--bracket'']"

definition required_flags :: "(string \<times> string list) list" where
  "required_flags =
     [(''admission-fanout'', admission_fanout_flags), (''burst-analysis'', burst_analysis_flags),
      (''capacity-knee'', capacity_knee_flags), (''capture'', capture_flags), (''circuit-compare'', circuit_compare_flags),
      (''dhcp-lifecycle'', dhcp_lifecycle_flags), (''dns-steering'', dns_steering_flags),
      (''flow-dscp-matrix'', flow_dscp_matrix_flags), (''ipv6-validate'', ipv6_validate_flags),
      (''listener-lease'', listener_lease_flags), (''media-quality'', media_quality_flags),
      (''nat-capacity'', nat_capacity_flags), (''phy-normalized'', phy_normalized_flags),
      (''policy-manifest'', policy_manifest_flags), (''probe'', probe_flags), (''probe-rate'', probe_rate_flags),
      (''resilience'', resilience_flags), (''site-ab'', site_ab_flags), (''size-rate-matrix'', size_rate_matrix_flags),
      (''throughput-tuner'', throughput_tuner_flags), (''vpn-matrix'', vpn_matrix_flags), (''wired-edge'', wired_edge_flags)]"

section \<open>Running a command\<close>

text \<open>The type of JSON documents is a parameter.\<close>

datatype 'j Outcome = Json 'j | TextOnly string | ExitFailed "i32 option" string | NotRun string

definition is_json :: "'j Outcome \<Rightarrow> bool" where
  "is_json x \<longleftrightarrow> (case x of Json _ \<Rightarrow> True | _ \<Rightarrow> False)"

definition is_failure :: "'j Outcome \<Rightarrow> bool" where
  "is_failure x \<longleftrightarrow> (case x of ExitFailed _ _ \<Rightarrow> True | NotRun _ \<Rightarrow> True | _ \<Rightarrow> False)"

text \<open>\<open>str::split_inclusive\<close> at the newline: every piece keeps its newline, and there is no empty last piece.\<close>

fun split_inclusive :: "string \<Rightarrow> string list" where
  "split_inclusive [] = []"
| "split_inclusive (c # s) =
     (if c = CHR 0x0A then [c] # split_inclusive s
      else (case split_inclusive s of [] \<Rightarrow> [[c]] | l # ls \<Rightarrow> (c # l) # ls))"

text \<open>The byte order mark is its three bytes.\<close>

fun trim_line_start :: "string \<Rightarrow> string" where
  "trim_line_start (c # s) =
     (if c \<in> {CHR 0x20, CHR 0x09} then trim_line_start s
      else (case s of
          c2 # c3 # s3 \<Rightarrow> if c = CHR 0xEF \<and> c2 = CHR 0xBB \<and> c3 = CHR 0xBF then trim_line_start s3 else c # s
        | _ \<Rightarrow> c # s))"
| "trim_line_start [] = []"

definition json_start :: "string \<Rightarrow> bool" where
  "json_start l \<longleftrightarrow> (let t = trim_line_start l in t \<noteq> [] \<and> (hd t = CHR 0x7B \<or> hd t = CHR 0x5B))"

fun payload_from :: "string \<Rightarrow> nat \<Rightarrow> string list \<Rightarrow> string option" where
  "payload_from out offset [] = None"
| "payload_from out offset (l # ls) =
     (let trimmed = trim_line_start l in
      if json_start l then Some (drop (offset + (length l - length trimmed)) out)
      else payload_from out (offset + length l) ls)"

definition extract_json_payload :: "string \<Rightarrow> string option" where
  "extract_json_payload out = payload_from out 0 (split_inclusive out)"

text \<open>What the search for the binary sees: the directory of the running executable, the search path and which paths are files.\<close>

record BinEnv =
  be_windows :: bool
  be_exe_dir :: "string option"
  be_path :: "string option"
  be_is_file :: "string \<Rightarrow> bool"

definition path_join :: "string \<Rightarrow> string \<Rightarrow> string" where
  "path_join dir n = (if dir = [] then n else if last dir = CHR ''/'' then dir @ n else dir @ ''/'' @ n)"

definition find_cli_binary :: "BinEnv \<Rightarrow> string + string" where
  "find_cli_binary e =
     (let exe_name = (if be_windows e then ''fraggle-packet.exe'' else ''fraggle-packet'');
          beside = (case be_exe_dir e of
                      None \<Rightarrow> None
                    | Some dir \<Rightarrow> if be_is_file e (path_join dir exe_name) then Some (path_join dir exe_name) else None);
          on_path = (case be_path e of
                       None \<Rightarrow> None
                     | Some p \<Rightarrow> List.find (be_is_file e) (map (\<lambda>dir. path_join dir exe_name)
                         (filter (\<lambda>dir. dir \<noteq> []) (split_on (if be_windows e then CHR '';'' else CHR '':'') p))))
      in case beside of Some b \<Rightarrow> Inr b | None \<Rightarrow>
         (case on_path of Some b \<Rightarrow> Inr b | None \<Rightarrow>
            Inl (''could not locate `'' @ exe_name @ ''` beside this executable or on PATH; build it with `cargo build --release`'')))"

text \<open>A finished child process: its exit code, absent after a signal, and its two streams as text.\<close>

record ChildOutput =
  co_code :: "i32 option"
  co_stdout :: string
  co_stderr :: string

definition run_subcommand_with ::
  "(string \<Rightarrow> string list \<Rightarrow> string + ChildOutput) \<Rightarrow> (string \<Rightarrow> 'j option) \<Rightarrow> string \<Rightarrow> string \<Rightarrow> string list \<Rightarrow> 'j Outcome" where
  "run_subcommand_with launch parse bin subcommand args =
     (case launch bin (subcommand # args) of
        Inl e \<Rightarrow> NotRun (''failed to execute '' @ bin @ '': '' @ e)
      | Inr out \<Rightarrow>
          if co_code out \<noteq> Some 0
          then ExitFailed (co_code out) (if trim (co_stderr out) = [] then trim (co_stdout out) else co_stderr out)
          else (case extract_json_payload (co_stdout out) of
                  Some payload \<Rightarrow> (case parse payload of Some v \<Rightarrow> Json v | None \<Rightarrow> TextOnly (co_stdout out))
                | None \<Rightarrow> TextOnly (co_stdout out)))"

definition run_subcommand ::
  "BinEnv \<Rightarrow> (string \<Rightarrow> string list \<Rightarrow> string + ChildOutput) \<Rightarrow> (string \<Rightarrow> 'j option) \<Rightarrow> string \<Rightarrow> string list \<Rightarrow> 'j Outcome" where
  "run_subcommand e launch parse subcommand args =
     (case find_cli_binary e of Inl m \<Rightarrow> NotRun m | Inr bin \<Rightarrow> run_subcommand_with launch parse bin subcommand args)"

section \<open>The browser\<close>

datatype Focus = FocusBuckets | FocusCommands

record CommandPanelState =
  cp_focus :: Focus
  cp_selected_bucket :: nat
  cp_selected_command :: nat
  cp_last_output :: "string option"
  cp_last_command :: "string option"
  cp_running :: bool
  cp_input_values :: "string list"
  cp_editing_input :: "nat option"

definition command_panel_default :: CommandPanelState where
  "command_panel_default = \<lparr>cp_focus = FocusBuckets, cp_selected_bucket = 0, cp_selected_command = 0, cp_last_output = None,
     cp_last_command = None, cp_running = False, cp_input_values = [], cp_editing_input = None\<rparr>"

definition current_bucket :: "CommandPanelState \<Rightarrow> Bucket" where
  "current_bucket s = all_buckets ! min (cp_selected_bucket s) (length all_buckets - 1)"

definition panel_commands :: "CommandPanelState \<Rightarrow> Cmd list" where
  "panel_commands s = in_bucket (current_bucket s)"

definition current_command :: "CommandPanelState \<Rightarrow> Cmd option" where
  "current_command s = (let cmds = panel_commands s in
     if cmds = [] then None else Some (cmds ! min (cp_selected_command s) (length cmds - 1)))"

definition clear_inputs :: "CommandPanelState \<Rightarrow> CommandPanelState" where
  "clear_inputs s = s\<lparr>cp_input_values := [], cp_editing_input := None\<rparr>"

definition next_bucket :: "CommandPanelState \<Rightarrow> CommandPanelState" where
  "next_bucket s = clear_inputs (s\<lparr>cp_selected_bucket := (cp_selected_bucket s + 1) mod length all_buckets, cp_selected_command := 0\<rparr>)"

definition prev_bucket :: "CommandPanelState \<Rightarrow> CommandPanelState" where
  "prev_bucket s = clear_inputs (s\<lparr>cp_selected_bucket :=
       (if cp_selected_bucket s = 0 then length all_buckets - 1 else cp_selected_bucket s - 1), cp_selected_command := 0\<rparr>)"

definition next_command :: "CommandPanelState \<Rightarrow> CommandPanelState" where
  "next_command s = (let s1 = clear_inputs s; n = length (panel_commands s1) in
     if 0 < n then s1\<lparr>cp_selected_command := (cp_selected_command s1 + 1) mod n\<rparr> else s1)"

definition prev_command :: "CommandPanelState \<Rightarrow> CommandPanelState" where
  "prev_command s = (let s1 = clear_inputs s; n = length (panel_commands s1) in
     if 0 < n then s1\<lparr>cp_selected_command := (if cp_selected_command s1 = 0 then n - 1 else cp_selected_command s1 - 1)\<rparr> else s1)"

definition begin_input :: "CommandPanelState \<Rightarrow> CommandPanelState" where
  "begin_input s = (case current_command s of
     None \<Rightarrow> s
   | Some c \<Rightarrow> let n = length (cmd_required_inputs c) in
       if n = 0 then s
       else (if length (cp_input_values s) \<noteq> n then s\<lparr>cp_input_values := replicate n []\<rparr> else s)\<lparr>cp_editing_input := Some 0\<rparr>)"

definition cancel_input :: "CommandPanelState \<Rightarrow> CommandPanelState" where
  "cancel_input s = s\<lparr>cp_editing_input := None\<rparr>"

text \<open>The flag says that the last field is done.\<close>

definition advance_input :: "CommandPanelState \<Rightarrow> bool \<times> CommandPanelState" where
  "advance_input s = (case cp_editing_input s of
     None \<Rightarrow> (False, s)
   | Some i \<Rightarrow> if i + 1 < length (cp_input_values s) then (False, s\<lparr>cp_editing_input := Some (i + 1)\<rparr>)
       else (True, s\<lparr>cp_editing_input := None\<rparr>))"

definition edit_value :: "(string \<Rightarrow> string) \<Rightarrow> CommandPanelState \<Rightarrow> CommandPanelState" where
  "edit_value f s = (case cp_editing_input s of
     None \<Rightarrow> s
   | Some i \<Rightarrow> if i < length (cp_input_values s)
       then s\<lparr>cp_input_values := (cp_input_values s)[i := f (cp_input_values s ! i)]\<rparr> else s)"

definition push_char :: "char \<Rightarrow> CommandPanelState \<Rightarrow> CommandPanelState" where
  "push_char ch s = edit_value (\<lambda>v. v @ [ch]) s"

definition pop_char :: "CommandPanelState \<Rightarrow> CommandPanelState" where
  "pop_char s = edit_value butlast s"

definition is_editing :: "CommandPanelState \<Rightarrow> bool" where
  "is_editing s \<longleftrightarrow> cp_editing_input s \<noteq> None"

definition toggle_focus :: "CommandPanelState \<Rightarrow> CommandPanelState" where
  "toggle_focus s = s\<lparr>cp_focus := (case cp_focus s of FocusBuckets \<Rightarrow> FocusCommands | FocusCommands \<Rightarrow> FocusBuckets)\<rparr>"

definition marker_for :: "Availability \<Rightarrow> bool \<Rightarrow> string" where
  "marker_for a needs_privilege = (case a of
     Unavailable _ \<Rightarrow> ''n/a'' | IngestOnly _ \<Rightarrow> ''ingest'' | Available \<Rightarrow> if needs_privilege then ''root'' else '''')"

section \<open>What the registry holds\<close>

text \<open>Evaluated once: the number of commands, their names, and which take a required input as an option.\<close>

lemma commands_distinct: "length COMMANDS = 79" "distinct (map cmd_name COMMANDS)"
  by (simp_all add: COMMANDS_def cmd_row_def)

lemma commands_buckets: "remdups (map cmd_bucket COMMANDS) = [WifiRf, DnsAddressing, Throughput, ToolsBucket, PathMtu, SecurityPolicy, Infrastructure]"
  by (simp add: COMMANDS_def cmd_row_def)

lemma bucket_nonempty: "in_bucket b \<noteq> []"
proof -
  have "b \<in> set (remdups (map cmd_bucket COMMANDS))" unfolding commands_buckets by (cases b) simp_all
  then show ?thesis by (auto simp: in_bucket_def filter_empty_conv)
qed

lemma required_flags_counts:
  "length required_flags = 22" "length (filter (\<lambda>c. cmd_required_inputs c \<noteq> []) COMMANDS) = 42"
  by (simp_all add: COMMANDS_def cmd_row_def required_flags_def)

lemma required_flags_shape: "list_all (\<lambda>(_, fs). fs \<noteq> [] \<and> list_all (\<lambda>f. starts_with f ''-'' \<and> \<not> starts_with ''--json'' f) fs) required_flags"
  by code_simp

lemma required_flags_entry:
  assumes "map_of required_flags n = Some fs"
  shows "fs \<noteq> []" "f \<in> set fs \<Longrightarrow> starts_with f ''-''" "f \<in> set fs \<Longrightarrow> \<not> starts_with ''--json'' f"
proof -
  have "(n, fs) \<in> set required_flags" using assms by (rule map_of_SomeD)
  then have "fs \<noteq> [] \<and> list_all (\<lambda>f. starts_with f ''-'' \<and> \<not> starts_with ''--json'' f) fs"
    using required_flags_shape by (fastforce simp: list_all_iff)
  then show "fs \<noteq> []" "f \<in> set fs \<Longrightarrow> starts_with f ''-''" "f \<in> set fs \<Longrightarrow> \<not> starts_with ''--json'' f"
    by (auto simp: list_all_iff)
qed

section \<open>Moving through the browser\<close>

lemma all_buckets_length [simp]: "length all_buckets = 7"
  by (simp add: all_buckets_def)

lemma next_bucket_iter:
  "cp_selected_bucket ((next_bucket ^^ m) command_panel_default) = m mod 7
   \<and> cp_selected_command ((next_bucket ^^ m) command_panel_default) = 0"
  by (induction m) (simp_all add: command_panel_default_def next_bucket_def clear_inputs_def mod_Suc_eq)

lemma panel_commands_nonempty: "panel_commands s \<noteq> []"
  by (simp add: panel_commands_def bucket_nonempty)

lemma next_command_iter:
  assumes "cp_selected_command s = 0"
  shows "panel_commands ((next_command ^^ n) s) = panel_commands s
    \<and> cp_selected_command ((next_command ^^ n) s) = n mod length (panel_commands s)"
proof (induction n)
  case (Suc n)
  then show ?case
    using panel_commands_nonempty[of s]
    by (auto simp: next_command_def clear_inputs_def Let_def panel_commands_def current_bucket_def mod_Suc_eq)
qed (simp add: assms)

lemma current_command_in: "current_command s = Some c \<Longrightarrow> c \<in> set COMMANDS"
proof -
  assume "current_command s = Some c"
  then have "c = panel_commands s ! min (cp_selected_command s) (length (panel_commands s) - 1)" "panel_commands s \<noteq> []"
    by (auto simp: current_command_def Let_def split: if_splits)
  then have "c \<in> set (panel_commands s)" by (simp add: min_less_iff_disj)
  then show ?thesis by (simp add: panel_commands_def in_bucket_def)
qed

text \<open>Moving to the next area some times and then to the next command some times selects every command of the registry, and nothing
  else.\<close>

theorem every_command_selectable:
  "{c. \<exists>m n. current_command ((next_command ^^ n) ((next_bucket ^^ m) command_panel_default)) = Some c} = set COMMANDS"
proof (intro subset_antisym subsetI)
  fix c assume "c \<in> {c. \<exists>m n. current_command ((next_command ^^ n) ((next_bucket ^^ m) command_panel_default)) = Some c}"
  then show "c \<in> set COMMANDS" using current_command_in by auto
next
  fix c assume c: "c \<in> set COMMANDS"
  have "cmd_bucket c \<in> set all_buckets" by (cases "cmd_bucket c") (simp_all add: all_buckets_def)
  then obtain m where m: "m < 7" "all_buckets ! m = cmd_bucket c" using in_set_conv_nth[of "cmd_bucket c" all_buckets] by auto
  have "c \<in> set (in_bucket (cmd_bucket c))" using c by (simp add: in_bucket_def)
  then obtain n where n: "n < length (in_bucket (cmd_bucket c))" "in_bucket (cmd_bucket c) ! n = c"
    by (auto simp: in_set_conv_nth)
  let ?s = "(next_bucket ^^ m) command_panel_default"
  have p: "panel_commands ?s = in_bucket (cmd_bucket c)"
    using next_bucket_iter[of m] m by (simp add: panel_commands_def current_bucket_def)
  have "current_command ((next_command ^^ n) ?s) = Some c"
    using next_command_iter[of ?s n] next_bucket_iter[of m] n p bucket_nonempty[of "cmd_bucket c"]
    by (auto simp: current_command_def Let_def)
  then show "c \<in> {c. \<exists>m n. current_command ((next_command ^^ n) ((next_bucket ^^ m) command_panel_default)) = Some c}" by blast
qed

text \<open>The operations of the browser, and what a run writes into it.\<close>

inductive panel_step :: "CommandPanelState \<Rightarrow> CommandPanelState \<Rightarrow> bool" where
  "panel_step s (next_bucket s)"
| "panel_step s (prev_bucket s)"
| "panel_step s (next_command s)"
| "panel_step s (prev_command s)"
| "panel_step s (begin_input s)"
| "panel_step s (cancel_input s)"
| "panel_step s (snd (advance_input s))"
| "panel_step s (push_char ch s)"
| "panel_step s (pop_char s)"
| "panel_step s (toggle_focus s)"
| "panel_step s (s\<lparr>cp_running := b, cp_last_command := lc, cp_last_output := lo\<rparr>)"

inductive_cases panel_stepE: "panel_step s s'"

definition panel_init :: "CommandPanelState \<Rightarrow> bool" where
  "panel_init s \<longleftrightarrow> s = command_panel_default"

definition panel_ok :: "CommandPanelState \<Rightarrow> bool" where
  "panel_ok s \<longleftrightarrow> cp_selected_bucket s < 7 \<and> cp_selected_command s < length (panel_commands s)
   \<and> (cp_input_values s = [] \<or> length (cp_input_values s) = length (cmd_required_inputs (panel_commands s ! cp_selected_command s)))
   \<and> (\<forall>i. cp_editing_input s = Some i \<longrightarrow> i < length (cp_input_values s))"

lemma panel_commands_cong: "cp_selected_bucket s' = cp_selected_bucket s \<Longrightarrow> panel_commands s' = panel_commands s"
  by (simp add: panel_commands_def current_bucket_def)

lemma current_command_ok: "panel_ok s \<Longrightarrow> current_command s = Some (panel_commands s ! cp_selected_command s)"
  using panel_commands_nonempty[of s] by (auto simp: panel_ok_def current_command_def Let_def min_def)

lemma panel_ok_cleared:
  "cp_selected_bucket s < 7 \<Longrightarrow> cp_selected_command s < length (panel_commands s) \<Longrightarrow> panel_ok (clear_inputs s)"
  using panel_commands_cong[of "clear_inputs s" s] by (simp add: panel_ok_def clear_inputs_def)

lemma panel_ok_bucket: "panel_ok s \<Longrightarrow> panel_ok (next_bucket s)" "panel_ok s \<Longrightarrow> panel_ok (prev_bucket s)"
  unfolding next_bucket_def prev_bucket_def
  by (rule panel_ok_cleared; simp add: panel_ok_def panel_commands_nonempty; fastforce)+

lemma panel_ok_command:
  assumes "panel_ok s"
  shows "panel_ok (next_command s)" "panel_ok (prev_command s)"
proof -
  have c: "panel_commands (clear_inputs s) = panel_commands s" by (rule panel_commands_cong) (simp add: clear_inputs_def)
  have u: "panel_commands (clear_inputs s\<lparr>cp_selected_command := k\<rparr>) = panel_commands s" for k
    by (rule panel_commands_cong) (simp add: clear_inputs_def)
  show "panel_ok (next_command s)" "panel_ok (prev_command s)"
    using assms panel_commands_nonempty[of s] unfolding next_command_def prev_command_def Let_def c
    by (auto simp: panel_ok_def u) (auto simp: clear_inputs_def)
qed

lemma panel_ok_input:
  assumes "panel_ok s"
  shows "panel_ok (begin_input s)" "panel_ok (cancel_input s)" "panel_ok (snd (advance_input s))" "panel_ok (edit_value f s)"
proof -
  have u: "panel_commands (s\<lparr>cp_editing_input := e\<rparr>) = panel_commands s"
    "panel_commands (s\<lparr>cp_input_values := v\<rparr>) = panel_commands s"
    "panel_commands (s\<lparr>cp_input_values := v, cp_editing_input := e\<rparr>) = panel_commands s" for e v
    by (rule panel_commands_cong, simp)+
  show "panel_ok (begin_input s)"
    unfolding begin_input_def current_command_ok[OF assms] using assms by (auto simp: panel_ok_def u Let_def)
  show "panel_ok (cancel_input s)" using assms by (auto simp: panel_ok_def u cancel_input_def)
  show "panel_ok (snd (advance_input s))" using assms by (auto simp: panel_ok_def u advance_input_def split: option.split)
  show "panel_ok (edit_value f s)" using assms by (auto simp: panel_ok_def u edit_value_def split: option.split)
qed

lemma panel_ok_step: "panel_ok s \<Longrightarrow> panel_step s s' \<Longrightarrow> panel_ok s'"
proof (erule panel_stepE)
  show "panel_ok s \<Longrightarrow> s' = toggle_focus s \<Longrightarrow> panel_ok s'"
    using panel_commands_cong[of "toggle_focus s" s] by (auto simp: panel_ok_def toggle_focus_def)
  show "panel_ok s \<Longrightarrow> s' = s\<lparr>cp_running := b, cp_last_command := lc, cp_last_output := lo\<rparr> \<Longrightarrow> panel_ok s'" for b lc lo
    using panel_commands_cong[of "s\<lparr>cp_running := b, cp_last_command := lc, cp_last_output := lo\<rparr>" s] by (auto simp: panel_ok_def)
qed (simp_all add: panel_ok_bucket panel_ok_command panel_ok_input push_char_def pop_char_def)

interpretation command_panel: step_invariant panel_init panel_step panel_ok
proof unfold_locales
  have "panel_commands command_panel_default \<noteq> []" by (rule panel_commands_nonempty)
  then show "panel_init s \<Longrightarrow> panel_ok s" for s by (simp add: panel_init_def panel_ok_def command_panel_default_def)
  show "panel_ok s \<Longrightarrow> panel_step s t \<Longrightarrow> panel_ok t" for s t by (rule panel_ok_step)
qed

text \<open>C35: In every state the browser can reach an area is highlighted, its index being one of the seven, and so is a command of
  that area, the one at its index: neither index is ever clamped. The values
  typed so far, when there are any, are as many as that command needs, and a field being edited exists.\<close>

theorem browser_well_formed:
  assumes "reachable_by panel_init panel_step s"
  shows "cp_selected_bucket s < length all_buckets
    \<and> current_bucket s = all_buckets ! cp_selected_bucket s
    \<and> cp_selected_command s < length (panel_commands s)
    \<and> current_command s = Some (panel_commands s ! cp_selected_command s)
    \<and> (cp_input_values s = [] \<or> length (cp_input_values s) = length (cmd_required_inputs (panel_commands s ! cp_selected_command s)))
    \<and> (case cp_editing_input s of None \<Rightarrow> True | Some i \<Rightarrow> i < length (cp_input_values s))"
  using command_panel.reachable_inv[OF assms] current_command_ok
  by (auto simp: panel_ok_def current_bucket_def min_def split: option.split)

text \<open>The first command of the second area takes one value; its first character is typed.\<close>

definition demo_typing :: CommandPanelState where
  "demo_typing = push_char CHR ''x'' (begin_input (next_bucket command_panel_default))"

lemma demo_typing_fields:
  "cp_selected_bucket demo_typing = 1" "cp_selected_command demo_typing = 0" "cp_input_values demo_typing = [''x'']"
  "cp_editing_input demo_typing = Some 0" "panel_commands demo_typing = in_bucket Throughput"
proof -
  let ?s = "next_bucket command_panel_default"
  have n: "?s = command_panel_default\<lparr>cp_selected_bucket := 1\<rparr>"
    by (simp add: next_bucket_def clear_inputs_def command_panel_default_def)
  have b1: "cp_selected_bucket ?s = 1" "cp_selected_command ?s = 0" "cp_input_values ?s = []" 
    by (simp_all add: next_bucket_def clear_inputs_def command_panel_default_def)
  have p: "panel_commands ?s = in_bucket Throughput"
    using b1(1) by (simp add: panel_commands_def current_bucket_def all_buckets_def)
  have "cmd_required_inputs (in_bucket Throughput ! 0) = [''TARGET'']"
    by (simp add: in_bucket_def COMMANDS_def cmd_row_def)
  then have c: "\<exists>c. current_command ?s = Some c \<and> cmd_required_inputs c = [''TARGET'']"
    using bucket_nonempty[of Throughput] by (simp add: current_command_def p Let_def b1(2))
  show "cp_selected_bucket demo_typing = 1" "cp_selected_command demo_typing = 0" "cp_input_values demo_typing = [''x'']"
    "cp_editing_input demo_typing = Some 0"
    using c b1 by (auto simp: demo_typing_def begin_input_def push_char_def edit_value_def)
  then show "panel_commands demo_typing = in_bucket Throughput"
    using p panel_commands_cong[of demo_typing ?s] by (simp add: n)
qed

theorem browser_well_formed_witness:
  "cp_editing_input demo_typing = Some 0 \<and> 0 < length (cp_input_values demo_typing)
    \<and> cp_selected_bucket demo_typing < length all_buckets \<and> current_bucket demo_typing = Throughput
    \<and> length (cmd_required_inputs (in_bucket Throughput ! 0)) = 1"
proof -
  have "reachable_by panel_init panel_step command_panel_default" by (rule reachable_by.start) (simp add: panel_init_def)
  then have "reachable_by panel_init panel_step (next_bucket command_panel_default)"
    by (rule reachable_by.more) (rule panel_step.intros)
  then have "reachable_by panel_init panel_step (begin_input (next_bucket command_panel_default))"
    by (rule reachable_by.more) (rule panel_step.intros)
  then have "reachable_by panel_init panel_step demo_typing"
    unfolding demo_typing_def by (rule reachable_by.more) (rule panel_step.intros)
  from browser_well_formed[OF this] show ?thesis by (auto simp: demo_typing_fields all_buckets_def)
qed

section \<open>The values a run is given\<close>

lemma filter_map_Nil: "filter_map f (map g xs) = [] \<longleftrightarrow> (\<forall>x. x \<in> set xs \<longrightarrow> f (g x) = None)"
  by (induction xs) (auto split: option.splits)

lemma validate_inputs_iff:
  "validate_inputs is_file c vals = Inr () \<longleftrightarrow>
     length (cmd_required_inputs c) \<le> length vals
     \<and> (\<forall>i. i < length (cmd_required_inputs c) \<longrightarrow>
          validate_input is_file (from_placeholder (cmd_required_inputs c ! i)) (vals ! i) = Inr ())"
proof -
  let ?r = "cmd_required_inputs c"
  have e: "enumerate 0 (typed_inputs c) = map (\<lambda>i. (i, ?r ! i, from_placeholder (?r ! i))) [0..<length ?r]"
    by (rule nth_equalityI) (simp_all add: typed_inputs_def nth_enumerate_eq)
  have "validate_inputs is_file c vals = Inr () \<longleftrightarrow> input_errors is_file c vals = []"
    by (simp add: validate_inputs_def Let_def)
  also have "\<dots> \<longleftrightarrow> length ?r \<le> length vals
     \<and> (\<forall>i. i < length ?r \<longrightarrow> i < length vals \<longrightarrow> validate_input is_file (from_placeholder (?r ! i)) (vals ! i) = Inr ())"
    unfolding input_errors_def e Let_def by (auto simp: filter_map_Nil typed_inputs_def split: sum.splits)
      (metis (full_types) old.unit.exhaust sum.exhaust)
  finally show ?thesis by auto
qed

lemma starts_with_dash: "starts_with a f \<Longrightarrow> starts_with f ''-'' \<Longrightarrow> starts_with a ''-''"
  by (cases a; cases f) (auto simp: starts_with_def)

text \<open>C36: A command that requires an option of its own is handed the values of the browser by position. So for each required option
  the command line holds an argument that begins with it exactly when one of the values typed does, and with
  values none of which begins with a dash, all required options are missing. With a command-line parser that ends with exit code 2 when no
  option but the one for JSON output is given to such a command, every such run is reported as failed. That concerns twenty-two
  of the forty-two commands that need a value. A value typed as \<open>--target=192.0.2.1\<close> passes the validation of the
  browser and does supply the option.\<close>

theorem browser_omits_required_options:
  assumes cmd: "map_of required_flags (cmd_name c) = Some fs"
    and parser: "\<And>args. list_all (\<lambda>a. a = ''--json'' \<or> \<not> starts_with a ''-'') args
      \<Longrightarrow> \<exists>out. launch bin (cmd_name c # args) = Inr out \<and> co_code out = Some 2"
  shows "list_all (\<lambda>f. list_ex (\<lambda>a. starts_with a f) (invocation c vals) = list_ex (\<lambda>v. starts_with v f) vals) fs
    \<and> (list_all (\<lambda>v. \<not> starts_with v ''-'') vals \<longrightarrow>
         list_all (\<lambda>f. \<not> list_ex (\<lambda>a. starts_with a f) (invocation c vals)) fs \<and> fs \<noteq> []
         \<and> is_failure (run_subcommand_with launch parse bin (cmd_name c) (invocation c vals)))
    \<and> validate_input is_file TargetInput ''--target=192.0.2.1'' = Inr ()"
proof (intro conjI impI)
  show all: "list_all (\<lambda>f. list_ex (\<lambda>a. starts_with a f) (invocation c vals) = list_ex (\<lambda>v. starts_with v f) vals) fs"
    using required_flags_entry(3)[OF cmd] by (auto simp: invocation_def list_all_iff list_ex_iff)
  show "fs \<noteq> []" by (rule required_flags_entry(1)[OF cmd])
  show "validate_input is_file TargetInput ''--target=192.0.2.1'' = Inr ()" by code_simp
  assume plain: "list_all (\<lambda>v. \<not> starts_with v ''-'') vals"
  show "list_all (\<lambda>f. \<not> list_ex (\<lambda>a. starts_with a f) (invocation c vals)) fs"
    using all plain required_flags_entry(2)[OF cmd] starts_with_dash unfolding list_all_iff list_ex_iff by metis
  have "list_all (\<lambda>a. a = ''--json'' \<or> \<not> starts_with a ''-'') (invocation c vals)"
    using plain by (auto simp: invocation_def list_all_iff)
  then obtain out where "launch bin (cmd_name c # invocation c vals) = Inr out" "co_code out = Some 2"
    using parser by blast
  then show "is_failure (run_subcommand_with launch parse bin (cmd_name c) (invocation c vals))"
    by (simp add: run_subcommand_with_def is_failure_def)
qed

text \<open>A parser that looks for the two options of \<open>burst-analysis\<close>.\<close>

definition demo_launch :: "string \<Rightarrow> string list \<Rightarrow> string + ChildOutput" where
  "demo_launch bin args =
     Inr (if list_all (\<lambda>f. list_ex (\<lambda>a. starts_with a f) (tl args)) burst_analysis_flags
          then \<lparr>co_code = Some 0, co_stdout = ''{}'', co_stderr = ''''\<rparr>
          else \<lparr>co_code = Some 2, co_stdout = '''', co_stderr = ''error: required arguments were not provided''\<rparr>)"

definition demo_burst :: Cmd where
  "demo_burst = cmd_row ''burst-analysis'' PathMtu [''INTERFACE'', ''TARGET''] True MacOsForLiveSampling False (Some ''GAP-066'') ''''"

theorem browser_omits_required_options_witness:
  "is_failure (run_subcommand_with demo_launch Some ''fraggle-packet'' ''burst-analysis''
     (invocation demo_burst [''en0'', ''10.0.0.1'']))"
proof -
  have c: "map_of required_flags (cmd_name demo_burst) = Some [''--interface'', ''--target'']"
    by (simp add: demo_burst_def cmd_row_def required_flags_def burst_analysis_flags_def)
  have v: "list_all (\<lambda>v. \<not> starts_with v ''-'') [''en0'', ''10.0.0.1'']" by (simp add: starts_with_def)
  have "\<exists>out. demo_launch bin (cmd_name demo_burst # args) = Inr out \<and> co_code out = Some 2"
    if "list_all (\<lambda>a. a = ''--json'' \<or> \<not> starts_with a ''-'') args" for args bin
  proof -
    have "\<not> starts_with a ''--interface''" if "a \<in> set args" for a
    proof -
      have "a = ''--json'' \<or> \<not> starts_with a ''-''" using that \<open>list_all _ args\<close> by (auto simp: list_all_iff)
      moreover have "\<not> starts_with ''--json'' ''--interface''" "starts_with ''--interface'' ''-''" by (simp_all add: starts_with_def)
      ultimately show ?thesis using starts_with_dash[of a "''--interface''"] by blast
    qed
    then show ?thesis by (simp add: demo_launch_def burst_analysis_flags_def list_ex_iff)
  qed
  from browser_omits_required_options[where launch = demo_launch and bin = "''fraggle-packet''" and parse = Some, OF c this] v
  show ?thesis by (simp add: demo_burst_def cmd_row_def)
qed

section \<open>The payload of a run\<close>

lemma concat_split_inclusive: "concat (split_inclusive s) = s"
  by (induction s rule: split_inclusive.induct) (auto split: list.split)

lemma trim_line_start_suffix: "\<exists>b. l = b @ trim_line_start l"
proof (induction l rule: trim_line_start.induct)
  case (1 c s)
  have a: "\<exists>b. c # s = b @ trim_line_start s" if "c \<in> {CHR 0x20, CHR 0x09}"
    using 1(1)[OF that] by (metis append_Cons)
  have b: "\<exists>b. c # s = b @ trim_line_start s3" if "c \<notin> {CHR 0x20, CHR 0x09}" "s = c2 # c3 # s3"
    "c = CHR 0xEF \<and> c2 = CHR 0xBB \<and> c3 = CHR 0xBF" for c2 c3 s3
    using 1(2)[OF that(1,2) refl that(3)] that(2) by (metis append_Cons)
  show ?case
  proof (cases "c \<in> {CHR 0x20, CHR 0x09}")
    case False
    show ?thesis
    proof (cases "\<exists>c2 c3 s3. s = c2 # c3 # s3 \<and> c = CHR 0xEF \<and> c2 = CHR 0xBB \<and> c3 = CHR 0xBF")
      case True
      then obtain c2 c3 s3 where t: "s = c2 # c3 # s3" "c = CHR 0xEF \<and> c2 = CHR 0xBB \<and> c3 = CHR 0xBF" by blast
      then show ?thesis using b[OF False t] by simp
    next
      case no: False
      have "trim_line_start (c # s) = c # s" using False no by (auto split: list.split)
      then show ?thesis by (metis append_Nil)
    qed
  qed (use a in auto)
qed simp

lemma payload_from_eq:
  assumes "out = pre @ concat ls"
  shows "payload_from out (length pre) ls =
    (case dropWhile (\<lambda>l. \<not> json_start l) ls of [] \<Rightarrow> None | l # rest \<Rightarrow> Some (trim_line_start l @ concat rest))"
  using assms
proof (induction ls arbitrary: pre)
  case (Cons l ls)
  obtain b where b: "l = b @ trim_line_start l" using trim_line_start_suffix by blast
  then have n: "length l - length (trim_line_start l) = length b" by (metis add_diff_cancel_right' length_append)
  have "drop (length pre + length b) out = trim_line_start l @ concat ls"
    using Cons.prems b by (metis append.assoc append_eq_conv_conj concat.simps(2) length_append)
  then show ?case using Cons.IH[of "pre @ l"] Cons.prems by (simp add: Let_def n)
qed simp

lemma extract_json_payload_eq:
  "extract_json_payload out = (case dropWhile (\<lambda>l. \<not> json_start l) (split_inclusive out) of
      [] \<Rightarrow> None | l # rest \<Rightarrow> Some (trim_line_start l @ concat rest))"
  unfolding extract_json_payload_def
  using payload_from_eq[of out "[]" "split_inclusive out"] concat_split_inclusive[of out] by simp

text \<open>Where the binary is looked for, in this order: beside the running executable, then in each directory of the search path.\<close>

definition cli_name :: "BinEnv \<Rightarrow> string" where
  "cli_name e = (if be_windows e then ''fraggle-packet.exe'' else ''fraggle-packet'')"

definition cli_candidates :: "BinEnv \<Rightarrow> string list" where
  "cli_candidates e = map (\<lambda>dir. path_join dir (cli_name e))
     ((case be_exe_dir e of None \<Rightarrow> [] | Some dir \<Rightarrow> [dir])
      @ (case be_path e of None \<Rightarrow> []
         | Some p \<Rightarrow> filter (\<lambda>dir. dir \<noteq> []) (split_on (if be_windows e then CHR '';'' else CHR '':'') p)))"

lemma find_filter: "List.find P xs = (case filter P xs of [] \<Rightarrow> None | x # _ \<Rightarrow> Some x)"
  by (induction xs) auto

lemma find_cli_binary_eq:
  "find_cli_binary e = (case filter (be_is_file e) (cli_candidates e) of
     [] \<Rightarrow> Inl (''could not locate `'' @ cli_name e @ ''` beside this executable or on PATH; build it with `cargo build --release`'')
   | bin # _ \<Rightarrow> Inr bin)"
  unfolding find_cli_binary_def Let_def cli_name_def[symmetric]
  by (cases "be_exe_dir e"; cases "be_path e")
    (auto simp: cli_candidates_def find_filter split: list.split option.split)

text \<open>C37: The outcome of a run. The binary is the first candidate that is a file; without one, or when it cannot be started, the
  command was not run, with that reason. An exit code other than zero, or none, is a failure with that code and the error stream, or the
  trimmed output when that stream is blank. With exit code zero the outcome is the document parsed from the text that starts at the first
  line that opens an object or an array, blanks and a byte order mark aside, and the whole output as text when there is no such line or that text
  does not parse. A line of a banner that starts with a bracket therefore hides the document behind it.\<close>

theorem run_outcome_exact:
  "run_subcommand e launch parse sub args =
     (case filter (be_is_file e) (cli_candidates e) of
        [] \<Rightarrow> NotRun (''could not locate `'' @ cli_name e @ ''` beside this executable or on PATH; build it with `cargo build --release`'')
      | bin # _ \<Rightarrow>
        (case launch bin (sub # args) of
           Inl err \<Rightarrow> NotRun (''failed to execute '' @ bin @ '': '' @ err)
         | Inr out \<Rightarrow>
             if co_code out \<noteq> Some 0
             then ExitFailed (co_code out) (if trim (co_stderr out) = [] then trim (co_stdout out) else co_stderr out)
             else (case dropWhile (\<lambda>l. \<not> json_start l) (split_inclusive (co_stdout out)) of
                     [] \<Rightarrow> TextOnly (co_stdout out)
                   | l # rest \<Rightarrow> (case parse (trim_line_start l @ concat rest) of
                       None \<Rightarrow> TextOnly (co_stdout out) | Some v \<Rightarrow> Json v))))"
  unfolding run_subcommand_def run_subcommand_with_def find_cli_binary_eq extract_json_payload_eq
  by (simp split: list.split sum.split del: dropWhile_eq_Nil_conv)

end
