(* ===== verification/Tui_App.thy ===== *)
theory Tui_App
  imports Command_Registry Test_Framework
begin

text \<open>
  The application of the terminal interface, \<open>bin/tui/app.rs\<close>: its state, the handler of a key with every operation a key
  starts, the handling of the updates that the test threads send, and the main loop of \<open>bin/tui/mod.rs\<close>. Drawing is not modelled. A
  thread that an operation spawns is not part of the application; what it later does to the shared state and to the channel is a step
  of its own. The target file, the tests, the subcommands and the file system are observations.
\<close>

section \<open>The state\<close>

datatype TuiStatus = TPending | TTesting | TComplete | TFailed

record HopInfo =
  hi_hop :: u8
  hi_addr :: string
  hi_mtu :: "nat option"
  hi_rtt_ms :: "f64 option"

record TargetResult =
  tt_target :: string
  tt_desc :: string
  tt_icmp_mtu :: "nat option"
  tt_tcp_mtu :: "nat option"
  tt_udp_mtu :: "nat option"
  tt_quic_mtu :: "nat option"
  tt_tcp_mss :: "nat option"
  tt_status :: TuiStatus
  tt_last_tested :: "nat option"
  tt_hops :: "HopInfo list"

datatype FuzzingStatus = FzPending | FzRunning | FzComplete | FzFailed string

record FuzzingResult =
  fz_mode :: string
  fz_packets_generated :: nat
  fz_pcap_path :: string
  fz_file_size_bytes :: u64
  fz_duration_ms :: u64
  fz_status :: FuzzingStatus

record Verdict =
  vd_status :: string
  vd_recommended_mtu :: "nat option"
  vd_recommended_mss :: "nat option"
  vd_median_mtu :: nat
  vd_percent_ok :: f64

text \<open>The type of HTTPS results is a parameter; \<open>diagnoses\<close>, which nothing writes or reads, is left out.\<close>

record 'h TuiState =
  ts_results :: "TargetResult list"
  ts_hops :: "HopInfo list"
  ts_testing :: bool
  ts_progress :: f64
  ts_current_target :: string
  ts_start_time :: "nat option"
  ts_verdict :: "Verdict option"
  ts_mtu_history :: "nat list"
  ts_simulated_mtu :: nat
  ts_fuzzing_results :: "(string \<times> FuzzingResult) list"
  ts_https_results :: "(string \<times> 'h) list"

datatype ViewMode = ViewDashboard | ViewAllTargets

datatype AppMode = ModeDashboard | ModeTargetDetail | ModeSimulator | ModeFuzzingPanel | ModeHttpsPanel | ModeTestPanel
  | ModeCommandPanel | ModeHelp

record RunnerResult =
  rr_target :: string
  rr_desc :: string
  rr_icmp_mtu :: "nat option"
  rr_tcp_mtu :: "nat option"
  rr_udp_mtu :: "nat option"
  rr_quic_mtu :: "nat option"
  rr_tcp_mss :: "nat option"
  rr_error :: "string option"

datatype TuiUpdate =
    UStarted string
  | UProgress string f64
  | UComplete nat RunnerResult
  | UFailed nat string
  | UAllComplete
  | UTracepathComplete nat nat
  | UTracepathOutput string

text \<open>A channel has a number; \<open>ap_queue\<close> holds what was sent on the current one and not yet received.\<close>

record 'h App =
  ap_state :: "'h TuiState"
  ap_mode :: AppMode
  ap_view_mode :: ViewMode
  ap_selected_target :: nat
  ap_selected_category :: "nat option"
  ap_table_selected :: "nat option"
  ap_should_quit :: bool
  ap_show_popup :: bool
  ap_popup_message :: string
  ap_channel :: nat
  ap_queue :: "TuiUpdate list"
  ap_log_messages :: "string list"
  ap_tracepath_running :: bool
  ap_tracepath_output :: "string list"
  ap_popup_scroll :: nat
  ap_selected_fuzz_mode :: nat
  ap_selected_https_target :: nat
  ap_https_testing :: bool
  ap_orchestrator :: TestOrchestrator
  ap_framework_results :: "(string \<times> TestResult list) list"
  ap_command_panel :: CommandPanelState

section \<open>Targets\<close>

definition default_targets :: "(string \<times> string \<times> u16) list" where
  "default_targets =
     [(''8.8.8.8'', ''Google DNS'', 0), (''1.1.1.1'', ''Cloudflare DNS'', 0), (''9.9.9.9'', ''Quad9 DNS'', 0),
      (''github.com'', ''GitHub'', 443), (''outlook.office365.com'', ''M365 Outlook'', 443), (''teams.microsoft.com'', ''MS Teams'', 443),
      (''login.microsoftonline.com'', ''M365 Auth'', 443), (''aws.amazon.com'', ''AWS'', 443), (''azure.microsoft.com'', ''Azure'', 443),
      (''mail.google.com'', ''Gmail'', 443)]"

definition target_line :: "string \<Rightarrow> (string \<times> string \<times> u16) option" where
  "target_line raw =
     (let l = trim raw in
      if l = '''' \<or> starts_with l ''#'' then None
      else let parts = split_on (CHR '','') l in
        if 2 \<le> length parts
        then Some (trim (parts ! 0), trim (parts ! 1),
               (if 2 < length parts then unwrap_or (parse_uint (trim (parts ! 2))) 443 else 443))
        else None)"

text \<open>The argument is the text of \<open>targets.txt\<close> when it exists and can be read.\<close>

definition load_targets :: "string option \<Rightarrow> (string \<times> string \<times> u16) list" where
  "load_targets content =
     (case content of
        None \<Rightarrow> default_targets
      | Some t \<Rightarrow> let ts = filter_map target_line (lines t) in if ts \<noteq> [] then ts else default_targets)"

definition pending_result :: "string \<times> string \<times> u16 \<Rightarrow> TargetResult" where
  "pending_result t = (case t of (target, desc, _) \<Rightarrow>
     \<lparr>tt_target = target, tt_desc = desc, tt_icmp_mtu = None, tt_tcp_mtu = None, tt_udp_mtu = None, tt_quic_mtu = None,
      tt_tcp_mss = None, tt_status = TPending, tt_last_tested = None, tt_hops = []\<rparr>)"

definition tui_state_default :: "string option \<Rightarrow> 'h TuiState" where
  "tui_state_default content =
     \<lparr>ts_results = map pending_result (load_targets content), ts_hops = [], ts_testing = False, ts_progress = Fin 0,
      ts_current_target = '''', ts_start_time = None, ts_verdict = None, ts_mtu_history = replicate 20 1500, ts_simulated_mtu = 1500,
      ts_fuzzing_results = [], ts_https_results = []\<rparr>"

definition tui_app_new :: "TestOrchestrator \<Rightarrow> 'h TuiState \<Rightarrow> 'h App" where
  "tui_app_new orch s =
     \<lparr>ap_state = s, ap_mode = ModeDashboard, ap_view_mode = ViewDashboard, ap_selected_target = 0, ap_selected_category = None,
      ap_table_selected = Some 0, ap_should_quit = False, ap_show_popup = False, ap_popup_message = '''', ap_channel = 0, ap_queue = [],
      ap_log_messages = [], ap_tracepath_running = False, ap_tracepath_output = [], ap_popup_scroll = 0, ap_selected_fuzz_mode = 0,
      ap_selected_https_target = 0, ap_https_testing = False, ap_orchestrator = orch, ap_framework_results = [],
      ap_command_panel = command_panel_default\<rparr>"

section \<open>Operations\<close>

definition log_line :: "string \<Rightarrow> 'h App \<Rightarrow> 'h App" where
  "log_line m a = a\<lparr>ap_log_messages := ap_log_messages a @ [m]\<rparr>"

definition popup :: "string \<Rightarrow> 'h App \<Rightarrow> 'h App" where
  "popup m a = a\<lparr>ap_show_popup := True, ap_popup_message := m\<rparr>"

definition adjust_simulated_mtu :: "int \<Rightarrow> 'h App \<Rightarrow> 'h App" where
  "adjust_simulated_mtu d a = a\<lparr>ap_state := (ap_state a)\<lparr>ts_simulated_mtu :=
     nat (max 576 (min 9000 (int (ts_simulated_mtu (ap_state a)) + d)))\<rparr>\<rparr>"

definition NL :: string where
  "NL = [CHR 0x0A]"

text \<open>The part before the thread; whether the thread is spawned.\<close>

definition run_tracepath :: "nat \<Rightarrow> 'h App \<Rightarrow> bool \<times> 'h App" where
  "run_tracepath i a =
     (if ap_tracepath_running a
      then (False, popup ''Tracepath already running...'' (log_line ''[TRACEPATH] Already running'' a))
      else if length (ts_results (ap_state a)) \<le> i then (False, log_line ''[TRACEPATH] Invalid index'' a)
      else let target = tt_target (ts_results (ap_state a) ! i) in
        (True, popup (''Running tracepath to '' @ target @ ''...'' @ NL @ NL @ ''Live output:'')
          (log_line (''[TRACEPATH] Starting for '' @ target)
            (a\<lparr>ap_tracepath_running := True, ap_tracepath_output := [], ap_popup_scroll := 0\<rparr>))))"

definition start_testing :: "string option \<Rightarrow> 'h App \<Rightarrow> 'h App" where
  "start_testing content a = a\<lparr>ap_state := (ap_state a)\<lparr>ts_results := map pending_result (load_targets content),
     ts_testing := True, ts_progress := Fin 0\<rparr>\<rparr>"

definition run_https_test :: "string \<Rightarrow> 'h App \<Rightarrow> 'h App" where
  "run_https_test target a = popup (''Testing HTTPS to '' @ target @ ''...'')
     (log_line (''Running HTTPS test on '' @ target @ ''...'') (a\<lparr>ap_https_testing := True\<rparr>))"

definition prev_https_target :: "'h App \<Rightarrow> 'h App" where
  "prev_https_target a = (if 0 < ap_selected_https_target a then a\<lparr>ap_selected_https_target := ap_selected_https_target a - 1\<rparr> else a)"

definition next_https_target :: "'h App \<Rightarrow> 'h App" where
  "next_https_target a =
     (if ap_selected_https_target a < length (ts_results (ap_state a)) - 1
      then a\<lparr>ap_selected_https_target := ap_selected_https_target a + 1\<rparr> else a)"

definition run_all_https_tests :: "'h App \<Rightarrow> 'h App" where
  "run_all_https_tests a = fold run_https_test (map tt_target (ts_results (ap_state a))) a"

fun category_debug :: "TestCategory \<Rightarrow> string" where
  "category_debug MTU = ''MTU''"
| "category_debug RTT = ''RTT''"
| "category_debug PacketLoss = ''PacketLoss''"
| "category_debug PathAnalysis = ''PathAnalysis''"
| "category_debug TCPHealth = ''TCPHealth''"
| "category_debug DNS = ''DNS''"
| "category_debug HTTPS = ''HTTPS''"
| "category_debug IPv6 = ''IPv6''"
| "category_debug Application = ''Application''"
| "category_debug Fuzzing = ''Fuzzing''"

text \<open>The check mark, the cross, the warning sign and the dots are their bytes.\<close>

fun status_mark :: "TestStatus \<Rightarrow> string" where
  "status_mark Success = [CHR 0xE2, CHR 0x9C, CHR 0x93]"
| "status_mark Failed = [CHR 0xE2, CHR 0x9C, CHR 0x97]"
| "status_mark Skipped = ''-''"
| "status_mark Warning = [CHR 0xE2, CHR 0x9A, CHR 0xA0]"
| "status_mark Running = [CHR 0xE2, CHR 0x8B, CHR 0xAF]"
| "status_mark Pending = [CHR 0xE2, CHR 0x8B, CHR 0xAF]"

fun status_word :: "TestStatus \<Rightarrow> string" where
  "status_word Success = '' PASS''"
| "status_word Failed = '' FAIL''"
| "status_word Skipped = '' SKIP''"
| "status_word Warning = '' WARN''"
| "status_word Running = '' RUN''"
| "status_word Pending = '' PEND''"

definition result_message :: "TestResult \<Rightarrow> string" where
  "result_message r =
     (let summary = (case map_of (tr_metadata r) ''summary'' of
                       Some s \<Rightarrow> s
                     | None \<Rightarrow> (case map_of (tr_metadata r) ''error'' of Some e \<Rightarrow> e | None \<Rightarrow> ''''))
      in status_mark (tr_status r) @ status_word (tr_status r) @ '' '' @ tr_name r @ '': '' @ summary @ '' (''
         @ fmt_prec 2 (as_secs_f64 (tr_duration r)) @ ''s)'')"

definition extend_results :: "string \<Rightarrow> TestResult list \<Rightarrow> 'h App \<Rightarrow> 'h App" where
  "extend_results target rs a = a\<lparr>ap_framework_results := AList.update target
     ((case map_of (ap_framework_results a) target of Some old \<Rightarrow> old | None \<Rightarrow> []) @ rs) (ap_framework_results a)\<rparr>"

definition chosen_target :: "'h App \<Rightarrow> string" where
  "chosen_target a =
     (if ap_selected_target a < length (ts_results (ap_state a)) then tt_target (ts_results (ap_state a) ! ap_selected_target a)
      else ''example.com'')"

text \<open>The tests run in the handler itself; \<open>k\<close> numbers the first of them.\<close>

definition tui_run_category :: "RunObs \<Rightarrow> nat \<Rightarrow> TestCategory \<Rightarrow> 'h App \<Rightarrow> 'h App" where
  "tui_run_category ob k c a =
     (let target = chosen_target a;
          m = ''Running '' @ category_debug c @ '' test on '' @ target @ ''...'';
          a1 = popup m (log_line m a)
      in case orch_run_category ob k target c (ap_orchestrator a1) of (rs, orch) \<Rightarrow>
        let a2 = fold (\<lambda>r. log_line (result_message r)) rs (extend_results target rs (a1\<lparr>ap_orchestrator := orch\<rparr>))
        in a2\<lparr>ap_popup_message := ''Completed '' @ category_debug c @ '' tests on '' @ target @ NL
             @ (if ap_log_messages a2 = [] then ''Done'' else last (ap_log_messages a2))\<rparr>)"

definition current_target_categories :: "TestCategory list" where
  "current_target_categories = [DNS, MTU, HTTPS, TCPHealth, RTT, PacketLoss, PathAnalysis, IPv6, Application, Fuzzing]"

fun run_categories_from :: "RunObs \<Rightarrow> nat \<Rightarrow> TestCategory list \<Rightarrow> 'h App \<Rightarrow> 'h App" where
  "run_categories_from ob k [] a = a"
| "run_categories_from ob k (c # cs) a =
     run_categories_from ob (k + test_count c (ap_orchestrator a)) cs (tui_run_category ob k c a)"

definition run_all_tests_on_current_target :: "RunObs \<Rightarrow> 'h App \<Rightarrow> 'h App" where
  "run_all_tests_on_current_target ob a =
     (let target = chosen_target a
      in popup (''Running all tests on '' @ target)
           (run_categories_from ob 0 current_target_categories (log_line (''Running ALL tests for '' @ target) a)))"

fun run_on_targets :: "RunObs \<Rightarrow> nat \<Rightarrow> TestCategory \<Rightarrow> string list \<Rightarrow> 'h App \<Rightarrow> 'h App" where
  "run_on_targets ob k c [] a = a"
| "run_on_targets ob k c (target # rest) a =
     (case orch_run_category ob k target c (ap_orchestrator a) of (rs, orch) \<Rightarrow>
        run_on_targets ob (k + length rs) c rest
          (fold (\<lambda>r. log_line (status_mark (tr_status r) @ '' '' @ tr_name r @ '' on '' @ target)) rs
            (extend_results target rs (a\<lparr>ap_orchestrator := orch\<rparr>))))"

definition run_category_on_all_targets :: "RunObs \<Rightarrow> TestCategory \<Rightarrow> 'h App \<Rightarrow> 'h App" where
  "run_category_on_all_targets ob c a =
     (let targets = map tt_target (ts_results (ap_state a)) in
      popup (''Completed '' @ category_debug c @ '' on '' @ show_nat (length targets) @ '' targets'')
        (run_on_targets ob 0 c targets
          (log_line (''Running '' @ category_debug c @ '' on '' @ show_nat (length targets) @ '' targets'') a)))"

definition set_result :: "nat \<Rightarrow> (TargetResult \<Rightarrow> TargetResult) \<Rightarrow> 'h TuiState \<Rightarrow> 'h TuiState" where
  "set_result i f s =
     (if i < length (ts_results s) then s\<lparr>ts_results := (ts_results s)[i := f (ts_results s ! i)]\<rparr> else s)"

text \<open>Whether the thread is spawned; a new channel replaces the current one, whose queue is dropped with its receiver.\<close>

definition retest_target :: "string option \<Rightarrow> nat \<Rightarrow> 'h App \<Rightarrow> bool \<times> 'h App" where
  "retest_target content i a =
     (let a1 = log_line (''[RETEST] Starting retest for index '' @ show_nat i) a in
      if length (ts_results (ap_state a1)) \<le> i
      then (False, log_line (''[RETEST] ERROR: Index '' @ show_nat i @ '' not found'') a1)
      else let r = ts_results (ap_state a1) ! i;
               port = (case List.find (\<lambda>(t, _, _). t = tt_target r) (load_targets content) of Some (_, _, p) \<Rightarrow> p | None \<Rightarrow> 443);
               a2 = log_line (''[RETEST] Port: '' @ show_word port)
                      (log_line (''[RETEST] Target: '' @ tt_target r @ '', Desc: '' @ tt_desc r) a1);
               a3 = log_line ''[RETEST] Channel created'' (a2\<lparr>ap_channel := Suc (ap_channel a2), ap_queue := []\<rparr>);
               a4 = log_line ''[RETEST] Status set to Testing''
                      (a3\<lparr>ap_state := set_result i (\<lambda>r. r\<lparr>tt_status := TTesting\<rparr>) (ap_state a3)\<rparr>)
           in (True, log_line ''[RETEST] Thread spawned, waiting for results...''
                       (log_line ''[RETEST] Spawning test thread...'' a4)))"

definition retest_all :: "string option \<Rightarrow> 'h App \<Rightarrow> 'h App" where
  "retest_all content a = start_testing content a"

definition next_target :: "'h App \<Rightarrow> 'h App" where
  "next_target a = (let n = length (ts_results (ap_state a)) in
     if 0 < n then (let i = (ap_selected_target a + 1) mod n in a\<lparr>ap_selected_target := i, ap_table_selected := Some i\<rparr>) else a)"

definition prev_target :: "'h App \<Rightarrow> 'h App" where
  "prev_target a = (let n = length (ts_results (ap_state a)) in
     if 0 < n then (let i = (if ap_selected_target a = 0 then n - 1 else ap_selected_target a - 1)
                    in a\<lparr>ap_selected_target := i, ap_table_selected := Some i\<rparr>) else a)"

definition next_fuzz_mode :: "'h App \<Rightarrow> 'h App" where
  "next_fuzz_mode a = a\<lparr>ap_selected_fuzz_mode := (ap_selected_fuzz_mode a + 1) mod 5\<rparr>"

definition prev_fuzz_mode :: "'h App \<Rightarrow> 'h App" where
  "prev_fuzz_mode a = a\<lparr>ap_selected_fuzz_mode := (if ap_selected_fuzz_mode a = 0 then 4 else ap_selected_fuzz_mode a - 1)\<rparr>"

text \<open>Running a subcommand is the function \<open>run\<close> of its name and arguments; \<open>pretty\<close> prints a document.\<close>

definition show_exit_code :: "i32 option \<Rightarrow> string" where
  "show_exit_code c = (case c of None \<Rightarrow> ''None'' | Some n \<Rightarrow> ''Some('' @ show_int (sint n) @ '')'')"

definition outcome_text :: "('j \<Rightarrow> string) \<Rightarrow> 'j Outcome \<Rightarrow> string" where
  "outcome_text pretty x = (case x of
     Json v \<Rightarrow> pretty v
   | TextOnly t \<Rightarrow> t
   | ExitFailed code err \<Rightarrow> ''failed (exit '' @ show_exit_code code @ ''): '' @ trim err
   | NotRun why \<Rightarrow> ''could not run: '' @ why)"

definition run_selected_registry_command ::
  "bool \<Rightarrow> (string \<Rightarrow> bool) \<Rightarrow> (string \<Rightarrow> string list \<Rightarrow> 'j Outcome) \<Rightarrow> ('j \<Rightarrow> string) \<Rightarrow> 'h App \<Rightarrow> 'h App" where
  "run_selected_registry_command darwin is_file run pretty a =
     (let cp = ap_command_panel a in
      case current_command cp of
        None \<Rightarrow> a
      | Some c \<Rightarrow>
          (case availability darwin c of
             Unavailable reason \<Rightarrow>
               log_line (cmd_name c @ '': skipped -- '' @ reason)
                 (a\<lparr>ap_command_panel := cp\<lparr>cp_last_command := Some (cmd_name c),
                      cp_last_output := Some (''not run on this host: '' @ reason)\<rparr>\<rparr>)
           | _ \<Rightarrow>
               (case (if cmd_required_inputs c = [] then Inr () else validate_inputs is_file c (cp_input_values cp)) of
                  Inl errors \<Rightarrow>
                    log_line (cmd_name c @ '': '' @ join ''; '' errors)
                      (a\<lparr>ap_command_panel := cp\<lparr>cp_last_command := Some (cmd_name c),
                           cp_last_output := Some (''cannot run yet:'' @ NL @ ''  '' @ join (NL @ ''  '') errors @ NL @ ''press [i] to enter values'')\<rparr>\<rparr>)
                | Inr _ \<Rightarrow>
                    let args = invocation c (cp_input_values cp);
                        x = run (cmd_name c) args
                    in log_line (cmd_name c @ '': '' @ (if is_failure x then ''failed'' else ''completed''))
                         (a\<lparr>ap_command_panel := cp\<lparr>cp_running := False, cp_last_command := Some (cmd_name c @ '' '' @ join '' '' args),
                              cp_last_output := Some (outcome_text pretty x)\<rparr>\<rparr>))))"

definition fuzz_mode_names :: "string list" where
  "fuzz_mode_names = [''segment-size'', ''length-mismatch'', ''tcp-options'', ''fragmentation'', ''checksum'']"

text \<open>The part before the thread; indexing past the names panics.\<close>

definition run_selected_fuzzer :: "'h App \<Rightarrow> 'h App option" where
  "run_selected_fuzzer a =
     (if length fuzz_mode_names \<le> ap_selected_fuzz_mode a then None
      else let m = fuzz_mode_names ! ap_selected_fuzz_mode a;
               target = (case ts_results (ap_state a) of r # _ \<Rightarrow> tt_target r | [] \<Rightarrow> ''github.com'')
           in Some (log_line (''Starting '' @ m @ '' fuzzer on '' @ target)
                      (popup (''Running '' @ m @ '' fuzzer on '' @ target @ ''...'') a)))"

definition run_all_fuzzers :: "'h App \<Rightarrow> 'h App option" where
  "run_all_fuzzers a = fold (\<lambda>i x. Option.bind x (\<lambda>a. run_selected_fuzzer (a\<lparr>ap_selected_fuzz_mode := i\<rparr>))) [0..<5]
     (Some (popup ''Running all fuzzers...'' a))"

section \<open>The updates of the test threads\<close>

definition show_opt_nat :: "nat option \<Rightarrow> string" where
  "show_opt_nat x = (case x of None \<Rightarrow> ''None'' | Some n \<Rightarrow> ''Some('' @ show_nat n @ '')'')"

definition or_else :: "'a option \<Rightarrow> 'a option \<Rightarrow> 'a option" where
  "or_else x y = (case x of Some _ \<Rightarrow> x | None \<Rightarrow> y)"

definition push_history :: "nat \<Rightarrow> nat list \<Rightarrow> nat list" where
  "push_history m h = (let h1 = h @ [m] in if 20 < length h1 then tl h1 else h1)"

definition has_results :: "RunnerResult \<Rightarrow> bool" where
  "has_results x \<longleftrightarrow> rr_icmp_mtu x \<noteq> None \<or> rr_tcp_mtu x \<noteq> None \<or> rr_udp_mtu x \<noteq> None \<or> rr_quic_mtu x \<noteq> None"

definition complete_result :: "nat \<Rightarrow> RunnerResult \<Rightarrow> TargetResult \<Rightarrow> TargetResult" where
  "complete_result now x r =
     (let r1 = r\<lparr>tt_icmp_mtu := rr_icmp_mtu x, tt_tcp_mtu := rr_tcp_mtu x, tt_udp_mtu := rr_udp_mtu x, tt_quic_mtu := rr_quic_mtu x,
                 tt_tcp_mss := rr_tcp_mss x\<rparr>
      in if has_results x
         then r1\<lparr>tt_status := TComplete, tt_last_tested := Some now\<rparr> else r1\<lparr>tt_status := TFailed\<rparr>)"

text \<open>The best estimate of a result.\<close>

definition best_mtu :: "TargetResult \<Rightarrow> nat option" where
  "best_mtu r = or_else (or_else (tt_icmp_mtu r) (tt_tcp_mtu r)) (tt_udp_mtu r)"

text \<open>\<open>m - 40\<close> on \<open>usize\<close>: a median below forty wraps in a release build (and panics in a debug build).\<close>

definition usize_sub :: "nat \<Rightarrow> nat \<Rightarrow> nat" where
  "usize_sub m n = (2 ^ 64 + m - n) mod 2 ^ 64"

definition verdict_of_mtus :: "nat list \<Rightarrow> Verdict option" where
  "verdict_of_mtus ms =
     (if ms = [] then None
      else let median = sort ms ! (length ms div 2);
               at_1500 = length (filter (\<lambda>m. 1500 \<le> m) ms);
               pct_ok = f64_mul (f64_div (f64_of_nat at_1500) (f64_of_nat (length ms))) (Fin 100);
               (status, rec) =
                 (if f64_le (Fin 95) pct_ok \<and> 1400 \<le> median then (''PASS'', None)
                  else if f64_le (Fin 80) pct_ok \<and> 1400 \<le> median then (''PASS'', None)
                  else if 1400 \<le> median then (''REVIEW'', Some median)
                  else (''ACTION_NEEDED'', Some median))
           in Some \<lparr>vd_status = status, vd_recommended_mtu = rec, vd_recommended_mss = map_option (\<lambda>m. usize_sub m 40) rec,
                    vd_median_mtu = median, vd_percent_ok = pct_ok\<rparr>)"

definition keep_scrolled :: "'h App \<Rightarrow> 'h App" where
  "keep_scrolled a = (let n = length (ap_tracepath_output a) - 20 in
     if n \<le> ap_popup_scroll a + 3 then a\<lparr>ap_popup_scroll := n\<rparr> else a)"

fun process_update :: "nat \<Rightarrow> TuiUpdate \<Rightarrow> 'h App \<Rightarrow> 'h App" where
  "process_update now (UStarted target) a = a\<lparr>ap_state := (ap_state a)\<lparr>ts_current_target := target\<rparr>\<rparr>"
| "process_update now (UProgress _ p) a = a\<lparr>ap_state := (ap_state a)\<lparr>ts_progress := p\<rparr>\<rparr>"
| "process_update now (UComplete i x) a =
     (let a1 = log_line (''[UPDATE] Complete for index '' @ show_nat i @ '': icmp='' @ show_opt_nat (rr_icmp_mtu x) @ '' tcp=''
                 @ show_opt_nat (rr_tcp_mtu x) @ '' udp='' @ show_opt_nat (rr_udp_mtu x) @ '' quic='' @ show_opt_nat (rr_quic_mtu x)) a
      in if i < length (ts_results (ap_state a1))
         then let desc = tt_desc (ts_results (ap_state a1) ! i);
                  a2 = a1\<lparr>ap_state := set_result i (complete_result now x) (ap_state a1)\<rparr>
              in if has_results x
                 then let a3 = log_line (''[COMPLETE] Target '' @ desc @ '' - Press ESC to close'') a2
                      in (case or_else (or_else (rr_icmp_mtu x) (rr_tcp_mtu x)) (rr_udp_mtu x) of
                            Some m \<Rightarrow> a3\<lparr>ap_state := (ap_state a3)\<lparr>ts_mtu_history := push_history m (ts_mtu_history (ap_state a3))\<rparr>\<rparr>
                          | None \<Rightarrow> a3)
                 else let a3 = log_line (''[FAILED] Target '' @ desc @ '' - Press ESC to close'') a2
                      in (case rr_error x of Some e \<Rightarrow> log_line (''[ERROR] '' @ e) a3 | None \<Rightarrow> a3)
         else a1)"
| "process_update now (UFailed i _) a = a\<lparr>ap_state := set_result i (\<lambda>r. r\<lparr>tt_status := TFailed\<rparr>) (ap_state a)\<rparr>"
| "process_update now UAllComplete a =
     (let s = (ap_state a)\<lparr>ts_testing := False, ts_current_target := '''', ts_progress := Fin 1\<rparr> in
      a\<lparr>ap_state := (case verdict_of_mtus (filter_map best_mtu (ts_results s)) of
                       Some v \<Rightarrow> s\<lparr>ts_verdict := Some v\<rparr> | None \<Rightarrow> s)\<rparr>)"
| "process_update now (UTracepathComplete i hop_count) a =
     (let a1 = (log_line (''[TRACEPATH] Complete: '' @ show_nat hop_count @ '' hops parsed'') a)\<lparr>ap_tracepath_running := False\<rparr>
      in if i < length (ts_results (ap_state a1))
         then a1\<lparr>ap_tracepath_output := ap_tracepath_output a1 @
                ['''', ''=== Tracepath complete for '' @ tt_desc (ts_results (ap_state a1) ! i) @ '' ==='',
                 ''Found '' @ show_nat hop_count @ '' hops'', '''', ''Press ESC to close'']\<rparr>
         else a1)"
| "process_update now (UTracepathOutput l) a =
     (let lns = ap_tracepath_output a @ [l];
          a1 = (if 100 < length lns then a\<lparr>ap_tracepath_output := tl lns, ap_popup_scroll := ap_popup_scroll a - 1\<rparr>
                else a\<lparr>ap_tracepath_output := lns\<rparr>)
      in keep_scrolled a1)"

text \<open>Everything that waits on the current channel is received; \<open>now\<close> is the clock.\<close>

definition process_test_updates :: "nat \<Rightarrow> 'h App \<Rightarrow> 'h App" where
  "process_test_updates now a = fold (process_update now) (ap_queue a) (a\<lparr>ap_queue := []\<rparr>)"

section \<open>The report\<close>

definition qt :: string where
  "qt = [CHR 0x22]"

definition json_field :: "string \<Rightarrow> string \<Rightarrow> string \<Rightarrow> string" where
  "json_field indent k v = indent @ qt @ k @ qt @ '': '' @ v"

definition report_mtu :: "string \<Rightarrow> nat option \<Rightarrow> string" where
  "report_mtu k m = (case m of Some m \<Rightarrow> json_field ''      '' k (show_nat m) @ '','' @ NL | None \<Rightarrow> '''')"

definition report_target :: "bool \<Rightarrow> TargetResult \<Rightarrow> string" where
  "report_target is_last r =
     ''    {'' @ NL @ json_field ''      '' ''target'' (qt @ tt_target r @ qt) @ '','' @ NL
     @ json_field ''      '' ''description'' (qt @ tt_desc r @ qt) @ '','' @ NL
     @ report_mtu ''icmp_mtu'' (tt_icmp_mtu r) @ report_mtu ''tcp_mtu'' (tt_tcp_mtu r) @ report_mtu ''udp_mtu'' (tt_udp_mtu r)
     @ report_mtu ''tcp_mss'' (tt_tcp_mss r) @ ''    }'' @ (if is_last then '''' else '','') @ NL"

fun report_targets :: "TargetResult list \<Rightarrow> string" where
  "report_targets [] = ''''"
| "report_targets (r # rs) = report_target (rs = []) r @ report_targets rs"

fun fuzzing_status_text :: "FuzzingStatus \<Rightarrow> string" where
  "fuzzing_status_text FzPending = ''pending''"
| "fuzzing_status_text FzRunning = ''running''"
| "fuzzing_status_text FzComplete = ''complete''"
| "fuzzing_status_text (FzFailed msg) = msg"

definition report_fuzz :: "string \<times> FuzzingResult \<Rightarrow> string" where
  "report_fuzz x = (case x of (mode, f) \<Rightarrow>
     ''    {'' @ NL @ json_field ''      '' ''mode'' (qt @ mode @ qt) @ '','' @ NL
     @ json_field ''      '' ''packets_generated'' (show_nat (fz_packets_generated f)) @ '','' @ NL
     @ json_field ''      '' ''pcap_path'' (qt @ fz_pcap_path f @ qt) @ '','' @ NL
     @ json_field ''      '' ''file_size_bytes'' (show_word (fz_file_size_bytes f)) @ '','' @ NL
     @ json_field ''      '' ''duration_ms'' (show_word (fz_duration_ms f)) @ '','' @ NL
     @ json_field ''      '' ''status'' (qt @ fuzzing_status_text (fz_status f) @ qt) @ NL @ ''    }'')"

definition report_head :: "string \<Rightarrow> string" where
  "report_head stamp = ''{'' @ NL @ json_field ''  '' ''timestamp'' (qt @ stamp @ qt) @ '','' @ NL
     @ json_field ''  '' ''results'' (''['' @ NL)"

definition report_tail :: "'h TuiState \<Rightarrow> string" where
  "report_tail s =
     ''  ]''
     @ (if ts_fuzzing_results s = [] then ''''
        else '','' @ NL @ json_field ''  '' ''fuzzing'' (''['' @ NL)
             @ join ('','' @ NL) (map report_fuzz (ts_fuzzing_results s)) @ NL @ ''  ]'')
     @ (case ts_verdict s of
          Some v \<Rightarrow> '','' @ NL @ json_field ''  '' ''verdict'' (''{'' @ NL)
             @ json_field ''    '' ''status'' (qt @ vd_status v @ qt) @ '','' @ NL
             @ json_field ''    '' ''median_mtu'' (show_nat (vd_median_mtu v)) @ '','' @ NL
             @ json_field ''    '' ''percent_ok'' (fmt_prec 1 (vd_percent_ok v)) @ NL @ ''  }'' @ NL
        | None \<Rightarrow> NL) @ ''}'' @ NL"

definition report_text :: "string \<Rightarrow> 'h TuiState \<Rightarrow> string" where
  "report_text stamp s = report_head stamp @ report_targets (ts_results s) @ report_tail s"

section \<open>The handler of a key\<close>

datatype Key = KChar char | KTab | KEsc | KEnter | KBackspace | KUp | KDown | KPageUp | KPageDown | KLeft | KRight | KOther

text \<open>What a key press sees of the outside.\<close>

record 'j TuiObs =
  to_targets_file :: "string option"
  to_run_obs :: RunObs
  to_darwin :: bool
  to_is_file :: "string \<Rightarrow> bool"
  to_run :: "string \<Rightarrow> string list \<Rightarrow> 'j Outcome"
  to_pretty :: "'j \<Rightarrow> string"
  to_stamp :: string
  to_file_stamp :: string
  to_saved :: "string \<Rightarrow> bool"

definition run_command_now :: "'j TuiObs \<Rightarrow> 'h App \<Rightarrow> 'h App" where
  "run_command_now ob a = run_selected_registry_command (to_darwin ob) (to_is_file ob) (to_run ob) (to_pretty ob) a"

definition with_panel :: "(CommandPanelState \<Rightarrow> CommandPanelState) \<Rightarrow> 'h App \<Rightarrow> 'h App" where
  "with_panel f a = a\<lparr>ap_command_panel := f (ap_command_panel a)\<rparr>"

definition editing_key :: "'j TuiObs \<Rightarrow> Key \<Rightarrow> 'h App \<Rightarrow> 'h App" where
  "editing_key ob k a = (case k of
     KChar ch \<Rightarrow> with_panel (push_char ch) a
   | KBackspace \<Rightarrow> with_panel pop_char a
   | KEsc \<Rightarrow> with_panel cancel_input a
   | KEnter \<Rightarrow> (let (done, cp) = advance_input (ap_command_panel a); a1 = a\<lparr>ap_command_panel := cp\<rparr>
       in if done then run_command_now ob a1 else a1)
   | _ \<Rightarrow> a)"

definition category_of_index :: "nat \<Rightarrow> TestCategory" where
  "category_of_index i = (if i < length current_target_categories then current_target_categories ! i else DNS)"

definition enter_key :: "'j TuiObs \<Rightarrow> 'h App \<Rightarrow> 'h App option" where
  "enter_key ob a = (case ap_mode a of
     ModeCommandPanel \<Rightarrow> Some (run_command_now ob a)
   | ModeDashboard \<Rightarrow> Some (a\<lparr>ap_mode := ModeTargetDetail\<rparr>)
   | ModeFuzzingPanel \<Rightarrow> run_selected_fuzzer a
   | ModeHttpsPanel \<Rightarrow>
       Some (run_https_test (if ap_selected_https_target a < length (ts_results (ap_state a))
                             then tt_target (ts_results (ap_state a) ! ap_selected_https_target a) else ''example.com'') a)
   | ModeTestPanel \<Rightarrow>
       (case ap_selected_category a of
          None \<Rightarrow> Some a
        | Some i \<Rightarrow> (case ap_view_mode a of
            ViewDashboard \<Rightarrow> Some (tui_run_category (to_run_obs ob) 0 (category_of_index i) a)
          | ViewAllTargets \<Rightarrow> Some (run_category_on_all_targets (to_run_obs ob) (category_of_index i) a)))
   | _ \<Rightarrow> Some a)"

definition all_key :: "'j TuiObs \<Rightarrow> 'h App \<Rightarrow> 'h App option" where
  "all_key ob a = (case ap_mode a of
     ModeTestPanel \<Rightarrow> (case ap_view_mode a of
         ViewDashboard \<Rightarrow> Some (run_all_tests_on_current_target (to_run_obs ob) a)
       | ViewAllTargets \<Rightarrow> Some (popup ''Press Shift+A again to run ALL tests on ALL targets (this will take a while!)'' a))
   | ModeFuzzingPanel \<Rightarrow> run_all_fuzzers a
   | ModeHttpsPanel \<Rightarrow> Some (run_all_https_tests a)
   | _ \<Rightarrow> Some a)"

definition scrolling :: "'h App \<Rightarrow> bool" where
  "scrolling a \<longleftrightarrow> ap_show_popup a \<and> (ap_tracepath_running a \<or> ap_tracepath_output a \<noteq> [])"

definition up_key :: "'h App \<Rightarrow> 'h App" where
  "up_key a =
     (if scrolling a then a\<lparr>ap_popup_scroll := ap_popup_scroll a - 1\<rparr>
      else (case ap_mode a of
          ModeCommandPanel \<Rightarrow> (case cp_focus (ap_command_panel a) of
              FocusBuckets \<Rightarrow> with_panel prev_bucket a | FocusCommands \<Rightarrow> with_panel prev_command a)
        | ModeFuzzingPanel \<Rightarrow> prev_fuzz_mode a
        | ModeHttpsPanel \<Rightarrow> prev_https_target a
        | _ \<Rightarrow> prev_target a))"

definition down_key :: "'h App \<Rightarrow> 'h App" where
  "down_key a =
     (if scrolling a then a\<lparr>ap_popup_scroll := ap_popup_scroll a + 1\<rparr>
      else (case ap_mode a of
          ModeCommandPanel \<Rightarrow> (case cp_focus (ap_command_panel a) of
              FocusBuckets \<Rightarrow> with_panel next_bucket a | FocusCommands \<Rightarrow> with_panel next_command a)
        | ModeFuzzingPanel \<Rightarrow> next_fuzz_mode a
        | ModeHttpsPanel \<Rightarrow> next_https_target a
        | _ \<Rightarrow> next_target a))"

definition tab_key :: "'h App \<Rightarrow> 'h App" where
  "tab_key a = (case ap_mode a of
     ModeCommandPanel \<Rightarrow> with_panel toggle_focus a
   | ModeTestPanel \<Rightarrow> a\<lparr>ap_view_mode := (case ap_view_mode a of ViewDashboard \<Rightarrow> ViewAllTargets | ViewAllTargets \<Rightarrow> ViewDashboard)\<rparr>
   | _ \<Rightarrow> a)"

definition save_key :: "'j TuiObs \<Rightarrow> 'h App \<Rightarrow> 'h App" where
  "save_key ob a =
     popup (if to_saved ob (report_text (to_stamp ob) (ap_state a))
            then ''Report saved to: reports/mtu-report-'' @ to_file_stamp ob @ ''.json'' else ''Failed to save report'') a"

definition retest_key :: "'j TuiObs \<Rightarrow> 'h App \<Rightarrow> 'h App" where
  "retest_key ob a =
     (let i = ap_selected_target a; a1 = snd (retest_target (to_targets_file ob) i a)
      in popup (''Retesting '' @ (if i < length (ts_results (ap_state a1)) then tt_desc (ts_results (ap_state a1) ! i) else ''target'') @ ''...'') a1)"

text \<open>The digits select a category in the test panel; elsewhere only \<open>1\<close> and \<open>3\<close> do something.\<close>

definition digit_key :: "nat \<Rightarrow> 'h App \<Rightarrow> 'h App" where
  "digit_key d a =
     (if ap_mode a = ModeTestPanel then a\<lparr>ap_selected_category := Some ((d + 9) mod 10)\<rparr>
      else if d = 1 then a\<lparr>ap_mode := ModeDashboard\<rparr>
      else if d = 3 then a\<lparr>ap_mode := ModeSimulator\<rparr>
      else a)"

definition char_key :: "'j TuiObs \<Rightarrow> char \<Rightarrow> 'h App \<Rightarrow> 'h App option" where
  "char_key ob c a =
     (if c = CHR ''q'' then Some (a\<lparr>ap_should_quit := True\<rparr>)
      else if c \<in> {CHR ''?'', CHR ''h''} then Some (a\<lparr>ap_mode := ModeHelp\<rparr>)
      else if is_digit c then Some (digit_key (of_char c - 48) a)
      else if c \<in> {CHR ''f'', CHR ''F''} then Some (a\<lparr>ap_mode := ModeFuzzingPanel\<rparr>)
      else if c = CHR ''T'' then Some (a\<lparr>ap_mode := ModeTestPanel\<rparr>)
      else if c = CHR ''H'' then Some (a\<lparr>ap_mode := ModeHttpsPanel\<rparr>)
      else if c \<in> {CHR ''C'', CHR ''c''} then Some (a\<lparr>ap_mode := ModeCommandPanel\<rparr>)
      else if c = CHR ''i'' then Some (if ap_mode a = ModeCommandPanel then with_panel begin_input a else a)
      else if c \<in> {CHR ''a'', CHR ''A''} then all_key ob a
      else if c = CHR ''k'' then Some (up_key a)
      else if c = CHR ''j'' then Some (down_key a)
      else if c = CHR ''r'' then Some (retest_key ob a)
      else if c = CHR ''t'' then Some (snd (run_tracepath (ap_selected_target a) a))
      else if c = CHR ''R'' then Some (popup ''Retesting ALL targets...'' (retest_all (to_targets_file ob) a))
      else if c = CHR ''s'' then Some (save_key ob a)
      else Some a)"

definition key_action :: "'j TuiObs \<Rightarrow> Key \<Rightarrow> 'h App \<Rightarrow> 'h App option" where
  "key_action ob k a =
     (if ap_mode a = ModeCommandPanel \<and> is_editing (ap_command_panel a) then Some (editing_key ob k a)
      else (case k of
          KChar c \<Rightarrow> char_key ob c a
        | KTab \<Rightarrow> Some (tab_key a)
        | KEsc \<Rightarrow> Some (a\<lparr>ap_mode := ModeDashboard\<rparr>)
        | KEnter \<Rightarrow> enter_key ob a
        | KUp \<Rightarrow> Some (up_key a)
        | KDown \<Rightarrow> Some (down_key a)
        | KPageUp \<Rightarrow> Some (if scrolling a then a\<lparr>ap_popup_scroll := ap_popup_scroll a - 10\<rparr> else a)
        | KPageDown \<Rightarrow> Some (if scrolling a then a\<lparr>ap_popup_scroll := ap_popup_scroll a + 10\<rparr> else a)
        | KLeft \<Rightarrow> Some (adjust_simulated_mtu (- 10) a)
        | KRight \<Rightarrow> Some (adjust_simulated_mtu 10 a)
        | _ \<Rightarrow> Some a))"

definition keeps_popup :: "Key \<Rightarrow> bool" where
  "keeps_popup k \<longleftrightarrow> k \<in> {KChar (CHR ''r''), KChar (CHR ''R''), KChar (CHR ''s''), KChar (CHR ''t''), KUp, KDown, KChar (CHR ''k''),
     KChar (CHR ''j''), KPageUp, KPageDown}"

text \<open>A key press; \<open>None\<close> is a panic.\<close>

definition handle_key :: "'j TuiObs \<Rightarrow> Key \<Rightarrow> 'h App \<Rightarrow> 'h App option" where
  "handle_key ob k a =
     map_option (\<lambda>a1. if ap_show_popup a1 \<and> \<not> keeps_popup k
                      then a1\<lparr>ap_show_popup := False, ap_tracepath_output := [], ap_popup_scroll := 0\<rparr> else a1) (key_action ob k a)"

section \<open>The main loop\<close>

text \<open>Documents are taken as their text. What the threads do meanwhile: send on the channel they were given the sender of, store the result of an HTTPS test or a fuzzing
  run, and store the hops of a trace.\<close>

inductive tui_step :: "'h App \<Rightarrow> 'h App \<Rightarrow> bool" where
  key: "\<not> ap_should_quit a \<Longrightarrow> handle_key (ob :: string TuiObs) k a = Some a' \<Longrightarrow> tui_step a a'"
| send: "tui_step a (if n = ap_channel a then a\<lparr>ap_queue := ap_queue a @ [u]\<rparr> else a)"
| https_done: "tui_step a (a\<lparr>ap_state := (ap_state a)\<lparr>ts_https_results := AList.update t x (ts_https_results (ap_state a))\<rparr>\<rparr>)"
| fuzz_done: "tui_step a (a\<lparr>ap_state := (ap_state a)\<lparr>ts_fuzzing_results := AList.update m f (ts_fuzzing_results (ap_state a))\<rparr>\<rparr>)"
| trace_done: "tui_step a (a\<lparr>ap_state := set_result i (\<lambda>r. r\<lparr>tt_hops := hs\<rparr>) (ap_state a)\<rparr>)"

inductive_cases tui_stepE: "tui_step a a'"

section \<open>The verdict of a scan\<close>

lemma eighty_percent:
  assumes "0 < n" "n \<le> 2 ^ 20" "m \<le> n"
  shows "f64_le (Fin 80) (f64_mul (f64_div (f64_of_nat m) (f64_of_nat n)) (Fin 100)) \<longleftrightarrow> 4 * n \<le> 5 * m"
  using percent_cmp(1)[OF assms _ _ percent_exact(5)] by (auto simp: percent_def)

text \<open>C38: The verdict that ends a scan, in integers: for at most 2^20 measured targets it passes exactly when the median is at least 1400
  and four fifths of the targets reach 1500, asks for a review when only the median is high enough and for action otherwise; the higher
  threshold of ninety-five percent changes nothing. Without a measured target an earlier verdict stays.\<close>

theorem scan_verdict_exact:
  assumes "length (filter_map best_mtu (ts_results (ap_state a))) \<le> 2 ^ 20"
  shows "let ms = filter_map best_mtu (ts_results (ap_state a)); s' = ap_state (process_update now UAllComplete a);
             median = sort ms ! (length ms div 2) in
     \<not> ts_testing s' \<and> ts_progress s' = Fin 1 \<and> ts_results s' = ts_results (ap_state a)
   \<and> (if ms = [] then ts_verdict s' = ts_verdict (ap_state a)
      else (\<exists>v. ts_verdict s' = Some v \<and> vd_median_mtu v = median
        \<and> (if 1400 \<le> median \<and> 4 * length ms \<le> 5 * length (filter (\<lambda>m. 1500 \<le> m) ms)
           then vd_status v = ''PASS'' \<and> vd_recommended_mtu v = None \<and> vd_recommended_mss v = None
           else vd_status v = (if 1400 \<le> median then ''REVIEW'' else ''ACTION_NEEDED'')
             \<and> vd_recommended_mtu v = Some median \<and> vd_recommended_mss v = Some (usize_sub median 40))))"
proof -
  let ?ms = "filter_map best_mtu (ts_results (ap_state a))"
  let ?median = "sort ?ms ! (length ?ms div 2)"
  let ?pct = "f64_mul (f64_div (f64_of_nat (length (filter (\<lambda>m. 1500 \<le> m) ?ms))) (f64_of_nat (length ?ms))) (Fin 100)"
  show ?thesis
  proof (cases "?ms = []")
    case True
    then show ?thesis by (simp add: Let_def verdict_of_mtus_def)
  next
    case False
    have p: "f64_le (Fin 80) ?pct \<longleftrightarrow> 4 * length ?ms \<le> 5 * length (filter (\<lambda>m. 1500 \<le> m) ?ms)"
      using False assms by (intro eighty_percent) auto
    have ge: "f64_le (Fin 95) ?pct \<Longrightarrow> f64_le (Fin 80) ?pct"
      by (cases ?pct) (auto simp: f64_le_def)
    show ?thesis using False p ge
      by (cases "f64_le (Fin 95) ?pct"; cases "1400 \<le> ?median") (auto simp: Let_def verdict_of_mtus_def)
  qed
qed

text \<open>All targets reached 1500 but one in five.\<close>

definition demo_scan :: "nat list \<Rightarrow> nat App" where
  "demo_scan ms = tui_app_new orchestrator_new ((tui_state_default None)\<lparr>ts_results :=
     map (\<lambda>m. (pending_result (''t'', ''T'', 443))\<lparr>tt_icmp_mtu := Some m, tt_status := TComplete\<rparr>) ms\<rparr>)"

theorem scan_verdict_exact_witness:
  "map_option vd_status (ts_verdict (ap_state (process_update 7 UAllComplete (demo_scan [1500, 1500, 1420, 1500, 1500])))) = Some ''PASS''"
proof -
  have e: "filter_map best_mtu (ts_results (ap_state (demo_scan [1500, 1500, 1420, 1500, 1500]))) = [1500, 1500, 1420, 1500, 1500]"
    by (simp add: demo_scan_def tui_app_new_def tui_state_default_def pending_result_def best_mtu_def or_else_def)
  have m: "sort [1500, 1500, 1420, 1500, 1500 :: nat] = [1420, 1500, 1500, 1500, 1500]" by code_simp
  show ?thesis
    using scan_verdict_exact[of "demo_scan [1500, 1500, 1420, 1500, 1500]" 7] by (auto simp: Let_def e m)
qed

section \<open>What the loop lets happen\<close>

text \<open>A result nothing was measured for.\<close>

definition unmeasured :: "TargetResult \<Rightarrow> bool" where
  "unmeasured r \<longleftrightarrow> tt_icmp_mtu r = None \<and> tt_tcp_mtu r = None \<and> tt_udp_mtu r = None \<and> tt_quic_mtu r = None \<and> tt_tcp_mss r = None
     \<and> tt_last_tested r = None \<and> (tt_status r = TPending \<or> tt_status r = TTesting)"

text \<open>What no key and no thread changes, and what stays in its range.\<close>

definition state_ok :: "'h TuiState \<Rightarrow> bool" where
  "state_ok s \<longleftrightarrow> list_all unmeasured (ts_results s) \<and> ts_verdict s = None \<and> ts_progress s = Fin 0 \<and> ts_mtu_history s = replicate 20 1500
     \<and> 576 \<le> ts_simulated_mtu s \<and> ts_simulated_mtu s \<le> 9000"

definition tui_ok :: "'h App \<Rightarrow> bool" where
  "tui_ok a \<longleftrightarrow> state_ok (ap_state a) \<and> ap_tracepath_output a = [] \<and> ap_selected_fuzz_mode a < 5 \<and> panel_ok (ap_command_panel a)"

text \<open>What a step never withdraws.\<close>

definition still :: "'h App \<Rightarrow> 'h App \<Rightarrow> bool" where
  "still a a' \<longleftrightarrow> (ts_testing (ap_state a) \<longrightarrow> ts_testing (ap_state a')) \<and> (ap_tracepath_running a \<longrightarrow> ap_tracepath_running a')
     \<and> (ap_https_testing a \<longrightarrow> ap_https_testing a')"

text \<open>The operations that leave all of this alone.\<close>

definition neutral :: "'h App \<Rightarrow> 'h App \<Rightarrow> bool" where
  "neutral a a' \<longleftrightarrow> ap_state a' = ap_state a \<and> ap_tracepath_output a' = ap_tracepath_output a \<and> ap_selected_fuzz_mode a' = ap_selected_fuzz_mode a
     \<and> ap_command_panel a' = ap_command_panel a \<and> (ap_tracepath_running a \<longrightarrow> ap_tracepath_running a')
     \<and> (ap_https_testing a \<longrightarrow> ap_https_testing a')"

definition good :: "'h App \<Rightarrow> 'h App \<Rightarrow> bool" where
  "good a a' \<longleftrightarrow> (tui_ok a \<longrightarrow> tui_ok a') \<and> still a a'"

lemma neutral_good: "neutral a a' \<Longrightarrow> good a a'"
  by (simp add: neutral_def good_def tui_ok_def still_def)

lemma neutral_refl: "neutral a a"
  by (simp add: neutral_def)

lemma neutral_trans: "neutral a b \<Longrightarrow> neutral b c \<Longrightarrow> neutral a c"
  by (simp add: neutral_def)

lemma good_trans: "good a b \<Longrightarrow> good b c \<Longrightarrow> good a c"
  by (simp add: good_def still_def)

lemma neutral_log [simp]: "neutral b a \<Longrightarrow> neutral b (log_line m a)"
  by (simp add: neutral_def log_line_def)

lemma neutral_popup [simp]: "neutral b a \<Longrightarrow> neutral b (popup m a)"
  by (simp add: neutral_def popup_def)

lemma neutral_fold:
  assumes "\<And>x a. neutral a (f x a)" and "neutral b a"
  shows "neutral b (fold f xs a)"
  using assms(2)
proof (induction xs arbitrary: a)
  case (Cons x xs)
  show ?case using Cons.IH[OF neutral_trans[OF Cons.prems assms(1)]] by simp
qed simp

lemma neutral_extend: "neutral b a \<Longrightarrow> neutral b (extend_results t rs (a\<lparr>ap_orchestrator := orch\<rparr>))"
  by (simp add: neutral_def extend_results_def)

lemma neutral_run_category: "neutral a (tui_run_category ob k c a)"
proof -
  obtain rs orch where r: "orch_run_category ob k (chosen_target a) c
      (ap_orchestrator (popup (''Running '' @ category_debug c @ '' test on '' @ chosen_target a @ ''...'')
        (log_line (''Running '' @ category_debug c @ '' test on '' @ chosen_target a @ ''...'') a))) = (rs, orch)" by fastforce
  have n: "neutral a (fold (\<lambda>r. log_line (result_message r)) rs (extend_results (chosen_target a) rs
      ((popup (''Running '' @ category_debug c @ '' test on '' @ chosen_target a @ ''...'')
        (log_line (''Running '' @ category_debug c @ '' test on '' @ chosen_target a @ ''...'') a))\<lparr>ap_orchestrator := orch\<rparr>)))"
    by (intro neutral_fold neutral_extend neutral_log neutral_popup neutral_refl)
  have p: "neutral a b \<Longrightarrow> neutral a (b\<lparr>ap_popup_message := m\<rparr>)" for b :: "'a App" and m by (simp add: neutral_def)
  show ?thesis unfolding tui_run_category_def Let_def r prod.case by (rule p[OF n])
qed

lemma neutral_run_categories: "neutral a (run_categories_from ob k cs a)"
proof (induction cs arbitrary: k a)
  case (Cons c cs)
  show ?case using neutral_trans[OF neutral_run_category Cons.IH] by simp
qed (simp add: neutral_refl)

lemma neutral_run_on_targets: "neutral a (run_on_targets ob k c ts a)"
proof (induction ts arbitrary: k a)
  case (Cons t ts)
  obtain rs orch where r: "orch_run_category ob k t c (ap_orchestrator a) = (rs, orch)" by fastforce
  have "neutral a (fold (\<lambda>r. log_line (status_mark (tr_status r) @ '' '' @ tr_name r @ '' on '' @ t)) rs
      (extend_results t rs (a\<lparr>ap_orchestrator := orch\<rparr>)))"
    by (intro neutral_fold neutral_extend neutral_log neutral_refl)
  from neutral_trans[OF this Cons.IH] show ?case by (simp add: r)
qed (simp add: neutral_refl)

lemma neutral_https: "neutral b a \<Longrightarrow> neutral b (run_https_test t a)"
  unfolding run_https_test_def by (intro neutral_popup neutral_log) (simp add: neutral_def)

lemma neutral_moves:
  "neutral a (next_target a)" "neutral a (prev_target a)" "neutral a (next_https_target a)" "neutral a (prev_https_target a)"
  "neutral a (digit_key d a)"
  by (simp_all add: neutral_def next_target_def prev_target_def next_https_target_def prev_https_target_def digit_key_def Let_def)

lemma good_refl: "good a a"
  by (simp add: good_def still_def)

lemma good_log: "good b a \<Longrightarrow> good b (log_line m a)"
  by (rule good_trans) (auto intro: neutral_good neutral_log neutral_refl)

lemma good_popup: "good b a \<Longrightarrow> good b (popup m a)"
  by (rule good_trans) (auto intro: neutral_good neutral_popup neutral_refl)

lemma pending_unmeasured: "list_all unmeasured (map pending_result ts)"
  by (auto simp: list_all_iff unmeasured_def pending_result_def split: prod.split)

lemma good_start_testing: "good a (start_testing content a)"
  by (simp add: good_def still_def start_testing_def tui_ok_def state_ok_def pending_unmeasured)

lemma unmeasured_set:
  assumes "list_all unmeasured rs" "\<And>r. unmeasured r \<Longrightarrow> unmeasured (f r)" "i < length rs"
  shows "list_all unmeasured (rs[i := f (rs ! i)])"
  using assms set_update_subset_insert[of rs i "f (rs ! i)"] nth_mem[OF assms(3)] by (fastforce simp: list_all_iff)

lemma state_ok_set_result: "(\<And>r. unmeasured r \<Longrightarrow> unmeasured (f r)) \<Longrightarrow> state_ok s \<Longrightarrow> state_ok (set_result i f s)"
  by (simp add: state_ok_def set_result_def unmeasured_set)

lemma set_result_testing [simp]: "ts_testing (set_result i f s) = ts_testing s"
  by (simp add: set_result_def)

lemma good_channel: "good b a \<Longrightarrow> good b (a\<lparr>ap_channel := n, ap_queue := q\<rparr>)"
  by (simp add: good_def tui_ok_def still_def)

lemma good_set_result:
  "good b a \<Longrightarrow> (\<And>r. unmeasured r \<Longrightarrow> unmeasured (f r)) \<Longrightarrow> good b (a\<lparr>ap_state := set_result i f (ap_state a)\<rparr>)"
  by (simp add: good_def tui_ok_def still_def state_ok_set_result)

lemma good_retest: "good a (snd (retest_target content i a))"
proof -
  have "unmeasured r \<Longrightarrow> unmeasured (r\<lparr>tt_status := TTesting\<rparr>)" for r by (simp add: unmeasured_def)
  then show ?thesis unfolding retest_target_def Let_def
    by (auto intro!: good_log good_set_result good_channel good_refl)
qed

lemma good_tracepath: "good a (snd (run_tracepath i a))"
proof -
  have "good a (a\<lparr>ap_tracepath_running := True, ap_tracepath_output := [], ap_popup_scroll := 0\<rparr>)"
    by (simp add: good_def tui_ok_def still_def)
  then show ?thesis unfolding run_tracepath_def Let_def by (auto intro!: good_log good_popup good_refl)
qed

lemma good_small:
  "good a (adjust_simulated_mtu d a)" "good a (next_fuzz_mode a)" "good a (prev_fuzz_mode a)"
  "good a (a\<lparr>ap_mode := m\<rparr>)" "good a (a\<lparr>ap_should_quit := q\<rparr>)" "good a (a\<lparr>ap_popup_scroll := n\<rparr>)" "good a (a\<lparr>ap_view_mode := v\<rparr>)"
  by (auto simp: good_def tui_ok_def still_def state_ok_def adjust_simulated_mtu_def next_fuzz_mode_def prev_fuzz_mode_def)

lemma good_panel: "(\<And>cp. panel_ok cp \<Longrightarrow> panel_ok (f cp)) \<Longrightarrow> good a (with_panel f a)"
  by (simp add: good_def tui_ok_def still_def with_panel_def)

lemma panel_ok_run: "panel_ok cp \<Longrightarrow> panel_ok (cp\<lparr>cp_last_command := lc, cp_last_output := lo\<rparr>)"
  "panel_ok cp \<Longrightarrow> panel_ok (cp\<lparr>cp_running := b, cp_last_command := lc, cp_last_output := lo\<rparr>)"
proof -
  have "panel_step cp (cp\<lparr>cp_running := cp_running cp, cp_last_command := lc, cp_last_output := lo\<rparr>)" by (rule panel_step.intros)
  moreover have "cp\<lparr>cp_running := cp_running cp, cp_last_command := lc, cp_last_output := lo\<rparr> = cp\<lparr>cp_last_command := lc, cp_last_output := lo\<rparr>"
    by simp
  ultimately show "panel_ok cp \<Longrightarrow> panel_ok (cp\<lparr>cp_last_command := lc, cp_last_output := lo\<rparr>)" using panel_ok_step by metis
  have "panel_step cp (cp\<lparr>cp_running := b, cp_last_command := lc, cp_last_output := lo\<rparr>)" by (rule panel_step.intros)
  then show "panel_ok cp \<Longrightarrow> panel_ok (cp\<lparr>cp_running := b, cp_last_command := lc, cp_last_output := lo\<rparr>)" using panel_ok_step by metis
qed

lemma good_set_panel: "(panel_ok (ap_command_panel a) \<Longrightarrow> panel_ok cp) \<Longrightarrow> good a (a\<lparr>ap_command_panel := cp\<rparr>)"
  by (simp add: good_def tui_ok_def still_def)

lemma good_run_command: "good a (run_command_now ob a)"
  unfolding run_command_now_def run_selected_registry_command_def Let_def
  by (auto intro!: good_log good_set_panel good_refl panel_ok_run split: option.split Availability.split sum.split)

lemma fuzzer_some:
  assumes "ap_selected_fuzz_mode a < 5"
  shows "\<exists>a'. run_selected_fuzzer a = Some a' \<and> neutral a a'"
  using assms by (auto simp: run_selected_fuzzer_def fuzz_mode_names_def Let_def neutral_refl intro!: neutral_log neutral_popup)

lemma fuzzers_some:
  assumes "set is \<subseteq> {..<5}" "good b a"
  shows "\<exists>a'. fold (\<lambda>i x. Option.bind x (\<lambda>a. run_selected_fuzzer (a\<lparr>ap_selected_fuzz_mode := i\<rparr>))) is (Some a) = Some a' \<and> good b a'"
  using assms
proof (induction "is" arbitrary: a)
  case (Cons i "is")
  have g: "good b (a\<lparr>ap_selected_fuzz_mode := i\<rparr>)" using Cons.prems by (simp add: good_def tui_ok_def still_def)
  obtain a' where a': "run_selected_fuzzer (a\<lparr>ap_selected_fuzz_mode := i\<rparr>) = Some a'" "neutral (a\<lparr>ap_selected_fuzz_mode := i\<rparr>) a'"
    using fuzzer_some[of "a\<lparr>ap_selected_fuzz_mode := i\<rparr>"] Cons.prems(1) by auto
  have "good b a'" using good_trans[OF g neutral_good[OF a'(2)]] .
  then show ?case using Cons.IH[of a'] Cons.prems(1) a'(1) by simp
qed simp

text \<open>Every key is handled, and well.\<close>

definition handled :: "'h App \<Rightarrow> 'h App option \<Rightarrow> bool" where
  "handled a x \<longleftrightarrow> (\<exists>a'. x = Some a' \<and> good a a')"

lemma handled_Some [simp]: "handled a (Some a') \<longleftrightarrow> good a a'"
  by (simp add: handled_def)

lemma handled_fuzzer: "tui_ok a \<Longrightarrow> handled a (run_selected_fuzzer a)"
  using fuzzer_some[of a] by (auto simp: handled_def tui_ok_def intro: neutral_good)

lemma handled_fuzzers: "handled a (run_all_fuzzers a)"
  unfolding handled_def run_all_fuzzers_def by (rule fuzzers_some) (auto intro: good_popup good_refl)

lemma good_all_targets: "good a (run_category_on_all_targets ob c a)" "good a (run_all_tests_on_current_target ob a)"
  unfolding run_category_on_all_targets_def run_all_tests_on_current_target_def Let_def
  by (intro neutral_good neutral_popup neutral_trans[OF neutral_log[OF neutral_refl] neutral_run_on_targets]
      neutral_trans[OF neutral_log[OF neutral_refl] neutral_run_categories])+

lemma good_all_https: "good a (run_all_https_tests a)"
  unfolding run_all_https_tests_def by (intro neutral_good neutral_fold neutral_https neutral_refl)

lemma handled_enter: "tui_ok a \<Longrightarrow> handled a (enter_key ob a)"
  unfolding enter_key_def
  by (auto simp: good_small good_run_command good_all_targets handled_fuzzer good_refl
      intro!: neutral_good neutral_run_category neutral_https neutral_refl split: AppMode.split option.split ViewMode.split)

lemma handled_all: "handled a (all_key ob a)"
  unfolding all_key_def
  by (auto simp: good_all_targets good_all_https handled_fuzzers good_refl intro!: good_popup good_refl
      split: AppMode.split ViewMode.split)

lemma good_up_down: "good a (up_key a)" "good a (down_key a)"
  unfolding up_key_def down_key_def
  by (auto simp: good_small good_panel panel_ok_bucket panel_ok_command neutral_good neutral_moves split: AppMode.split Focus.split)

lemma panel_ok_toggle: "panel_ok cp \<Longrightarrow> panel_ok (toggle_focus cp)"
  by (rule panel_ok_step) (auto intro: panel_step.intros)

lemma good_tab: "good a (tab_key a)"
  unfolding tab_key_def by (auto simp: good_small good_refl intro!: good_panel panel_ok_toggle split: AppMode.split)

lemma good_retest_key: "good a (retest_key ob a)"
  unfolding retest_key_def Let_def by (intro good_popup good_retest)

lemma good_save: "good a (save_key ob a)"
  unfolding save_key_def by (intro good_popup good_refl)

lemma handled_char: "handled a (char_key ob c a)"
  unfolding char_key_def retest_all_def
  by (simp add: good_small good_refl good_up_down good_retest_key good_save good_tracepath handled_all good_popup good_start_testing
      good_panel panel_ok_input neutral_good neutral_moves)

lemma good_editing: "good a (editing_key ob k a)"
proof -
  have "good a (a\<lparr>ap_command_panel := snd (advance_input (ap_command_panel a))\<rparr>)" by (rule good_set_panel) (rule panel_ok_input)
  then show ?thesis
    unfolding editing_key_def push_char_def pop_char_def
    by (auto simp: Let_def good_refl split: Key.split prod.split
        intro!: good_panel panel_ok_input good_trans[OF _ good_run_command])
qed

lemma handled_action: "tui_ok a \<Longrightarrow> handled a (key_action ob k a)"
  unfolding key_action_def
  by (auto simp: good_small good_refl good_up_down good_tab good_editing handled_char handled_enter split: Key.split)

lemma handled_key: "tui_ok a \<Longrightarrow> handled a (handle_key ob k a)"
proof -
  have c: "good a (a1\<lparr>ap_show_popup := False, ap_tracepath_output := [], ap_popup_scroll := 0\<rparr>)" if "good a a1" for a1
    using that by (simp add: good_def tui_ok_def still_def)
  assume "tui_ok a"
  then obtain a1 where "key_action ob k a = Some a1" "good a a1" using handled_action[of a ob k] by (auto simp: handled_def)
  then show ?thesis by (simp add: handle_key_def c)
qed

lemma good_step: "tui_step a a' \<Longrightarrow> tui_ok a \<Longrightarrow> good a a'"
proof (erule tui_stepE)
  fix ob k assume "tui_ok a" "handle_key ob k a = Some a'"
  then show ?thesis using handled_key[of a ob k] by simp
next
  fix i hs assume "tui_ok a" "a' = a\<lparr>ap_state := set_result i (\<lambda>r. r\<lparr>tt_hops := hs\<rparr>) (ap_state a)\<rparr>"
  then show ?thesis by (auto intro!: good_set_result good_refl simp: unmeasured_def)
qed (auto simp: good_def tui_ok_def still_def state_ok_def)

definition tui_init :: "'h App \<Rightarrow> bool" where
  "tui_init a \<longleftrightarrow> (\<exists>run content. a = tui_app_new (register_all_tests run orchestrator_new) (tui_state_default content))"

interpretation tui: step_invariant tui_init tui_step tui_ok
proof unfold_locales
  show "tui_init a \<Longrightarrow> tui_ok a" for a :: "'a App"
    using command_panel.inv_init[of command_panel_default]
    by (auto simp: tui_init_def tui_ok_def tui_app_new_def tui_state_default_def state_ok_def pending_unmeasured panel_init_def)
  show "tui_ok a \<Longrightarrow> tui_step a b \<Longrightarrow> tui_ok b" for a b :: "'a App"
    using good_step[of a b] by (simp add: good_def)
qed

lemma good_steps: "tui_step\<^sup>*\<^sup>* a b \<Longrightarrow> tui_ok a \<Longrightarrow> good a b"
proof (induction rule: rtranclp_induct)
  case (step b c)
  then have g: "good a b" by simp
  then have "tui_ok b" using step.prems by (simp add: good_def)
  then show ?case using good_trans[OF g good_step[OF step.hyps(2)]] by simp
qed (simp add: good_refl)

text \<open>C39: Nothing a scan measures ever arrives: the loop never receives what the test threads send. Whatever keys are pressed and whatever
  the threads do, every target is unmeasured and pending or testing, there is no verdict, the progress is zero and a trace shows no line; a
  scan, a trace or an HTTPS test that was started counts as running for ever. (The hops of a trace and the results of an HTTPS test, which
  the threads write into the state themselves, are outside this.)\<close>

theorem scan_never_completes:
  assumes "reachable_by tui_init tui_step a" and "tui_step\<^sup>*\<^sup>* a a'"
  shows "list_all unmeasured (ts_results (ap_state a')) \<and> ts_verdict (ap_state a') = None \<and> ts_progress (ap_state a') = Fin 0
     \<and> ap_tracepath_output a' = []
     \<and> (ts_testing (ap_state a) \<longrightarrow> ts_testing (ap_state a')) \<and> (ap_tracepath_running a \<longrightarrow> ap_tracepath_running a')
     \<and> (ap_https_testing a \<longrightarrow> ap_https_testing a')"
proof -
  have ok: "tui_ok a" by (rule tui.reachable_inv[OF assms(1)])
  from good_steps[OF assms(2) ok] have "tui_ok a'" "still a a'" using ok by (simp_all add: good_def)
  then show ?thesis by (simp add: tui_ok_def state_ok_def still_def)
qed

text \<open>C40: No key makes the program panic: the index of the fuzzing mode is always in its range, and so are the simulated MTU and the
  highlighted command.\<close>

theorem keys_never_panic:
  assumes "reachable_by tui_init tui_step a"
  shows "handle_key ob k a \<noteq> None \<and> ap_selected_fuzz_mode a < 5
    \<and> 576 \<le> ts_simulated_mtu (ap_state a) \<and> ts_simulated_mtu (ap_state a) \<le> 9000
    \<and> cp_selected_command (ap_command_panel a) < length (panel_commands (ap_command_panel a))"
proof -
  have ok: "tui_ok a" by (rule tui.reachable_inv[OF assms])
  then show ?thesis using handled_key[OF ok, of ob k] by (auto simp: handled_def tui_ok_def state_ok_def panel_ok_def)
qed

text \<open>The press of \<open>R\<close> on a fresh application, and a thread that reports.\<close>

definition demo_obs :: "string TuiObs" where
  "demo_obs = \<lparr>to_targets_file = None, to_run_obs = \<lparr>ro_root = False, ro_now = \<lambda>_. 0, ro_elapsed = \<lambda>_. 5\<rparr>, to_darwin = False,
     to_is_file = \<lambda>_. False, to_run = \<lambda>_ _. NotRun '''', to_pretty = \<lambda>s. s, to_stamp = '''', to_file_stamp = '''', to_saved = \<lambda>_. False\<rparr>"

definition demo_tui :: "nat App" where
  "demo_tui = tui_app_new (register_all_tests (\<lambda>_ _ _. Inl ''offline'') orchestrator_new) (tui_state_default None)"

definition demo_scanning :: "nat App" where
  "demo_scanning = popup ''Retesting ALL targets...'' (start_testing None demo_tui)"

lemma demo_scanning_reachable: "reachable_by tui_init tui_step demo_scanning"
proof -
  have "tui_init demo_tui" by (auto simp: tui_init_def demo_tui_def)
  then have "reachable_by tui_init tui_step demo_tui" by (rule reachable_by.start)
  moreover have "handle_key demo_obs (KChar (CHR ''R'')) demo_tui = Some demo_scanning"
    by (simp add: handle_key_def key_action_def keeps_popup_def char_key_def is_digit_def retest_all_def demo_scanning_def demo_obs_def
        demo_tui_def tui_app_new_def)
  moreover have "\<not> ap_should_quit demo_tui" by (simp add: demo_tui_def tui_app_new_def)
  ultimately show ?thesis using reachable_by.more tui_step.key by metis
qed

theorem scan_never_completes_witness:
  "ts_testing (ap_state (demo_scanning\<lparr>ap_queue := ap_queue demo_scanning @ [UAllComplete]\<rparr>))
     \<and> ts_verdict (ap_state (demo_scanning\<lparr>ap_queue := ap_queue demo_scanning @ [UAllComplete]\<rparr>)) = None"
proof -
  have "tui_step demo_scanning (demo_scanning\<lparr>ap_queue := ap_queue demo_scanning @ [UAllComplete]\<rparr>)"
    using tui_step.send[of demo_scanning "ap_channel demo_scanning" UAllComplete] by simp
  then have "tui_step\<^sup>*\<^sup>* demo_scanning (demo_scanning\<lparr>ap_queue := ap_queue demo_scanning @ [UAllComplete]\<rparr>)" by blast
  moreover have "ts_testing (ap_state demo_scanning)" by (simp add: demo_scanning_def popup_def start_testing_def)
  ultimately show ?thesis using scan_never_completes[OF demo_scanning_reachable] by blast
qed

theorem keys_never_panic_witness:
  "handle_key demo_obs KEnter demo_scanning \<noteq> None"
  using keys_never_panic[OF demo_scanning_reachable, of demo_obs KEnter] by blast

section \<open>The popup and the report\<close>

text \<open>Only the keys that start something in the background or scroll leave a popup open: what running the selected category, every test or
  a fuzzer reports in one is never drawn.\<close>

lemma popup_only_of_kept_keys: "handle_key ob k a = Some a' \<Longrightarrow> ap_show_popup a' \<Longrightarrow> keeps_popup k"
proof -
  assume h: "handle_key ob k a = Some a'" "ap_show_popup a'"
  then obtain a1 where "a' = (if ap_show_popup a1 \<and> \<not> keeps_popup k
      then a1\<lparr>ap_show_popup := False, ap_tracepath_output := [], ap_popup_scroll := 0\<rparr> else a1)" by (auto simp: handle_key_def)
  then show "keeps_popup k" using h(2) by (cases "ap_show_popup a1 \<and> \<not> keeps_popup k") auto
qed

text \<open>Every report on at least one target is malformed: the last member of each target is followed by a comma and then by the closing
  brace.\<close>

theorem report_is_malformed:
  assumes "ts_results s \<noteq> []"
  shows "\<exists>pre post. report_text stamp s = pre @ '','' @ NL @ ''    }'' @ post"
proof -
  obtain r rs where rs: "ts_results s = r # rs" using assms by (cases "ts_results s") auto
  have e: "\<exists>p. report_mtu k m = '''' \<or> report_mtu k m = p @ '','' @ NL" for k m
    by (cases m) (simp_all add: report_mtu_def)
  have tail: "\<exists>p. x @ '','' @ NL @ report_mtu k m = p @ '','' @ NL" for x k m
    using e[of k m] by (metis append.assoc append_Nil2)
  have "\<exists>p. report_target l r = p @ '','' @ NL @ ''    }'' @ (if l then '''' else '','') @ NL" for l
  proof -
    obtain p0 where p0: "''    {'' @ NL @ json_field ''      '' ''target'' (qt @ tt_target r @ qt) @ '','' @ NL
       @ json_field ''      '' ''description'' (qt @ tt_desc r @ qt) = p0" by blast
    obtain p1 where p1: "p0 @ '','' @ NL @ report_mtu ''icmp_mtu'' (tt_icmp_mtu r) = p1 @ '','' @ NL" using tail by blast
    obtain p2 where p2: "p1 @ '','' @ NL @ report_mtu ''tcp_mtu'' (tt_tcp_mtu r) = p2 @ '','' @ NL" using tail by blast
    obtain p3 where p3: "p2 @ '','' @ NL @ report_mtu ''udp_mtu'' (tt_udp_mtu r) = p3 @ '','' @ NL" using tail by blast
    obtain p4 where p4: "p3 @ '','' @ NL @ report_mtu ''tcp_mss'' (tt_tcp_mss r) = p4 @ '','' @ NL" using tail by blast
    have "report_target l r = (((((p0 @ '','' @ NL @ report_mtu ''icmp_mtu'' (tt_icmp_mtu r)) @ report_mtu ''tcp_mtu'' (tt_tcp_mtu r))
        @ report_mtu ''udp_mtu'' (tt_udp_mtu r)) @ report_mtu ''tcp_mss'' (tt_tcp_mss r)) @ ''    }'' @ (if l then '''' else '','')) @ NL"
      unfolding report_target_def p0[symmetric] by simp
    also have "\<dots> = p4 @ '','' @ NL @ ''    }'' @ (if l then '''' else '','') @ NL"
      using p1 p2 p3 p4 by (metis append.assoc)
    finally show ?thesis by blast
  qed
  then obtain p where "report_target (rs = []) r = p @ '','' @ NL @ ''    }'' @ (if rs = [] then '''' else '','') @ NL" by blast
  then have "report_text stamp s = (report_head stamp @ p) @ '','' @ NL @ ''    }'' @ ((if rs = [] then '''' else '','') @ NL @ report_targets rs
      @ report_tail s)"
    unfolding report_text_def rs report_targets.simps by (simp only: append.assoc)
  then show ?thesis by blast
qed

theorem report_is_malformed_witness:
  "\<exists>pre post. report_text ''now'' (ap_state demo_tui) = pre @ '','' @ NL @ ''    }'' @ post"
proof -
  have "ts_results (ap_state demo_tui) \<noteq> []"
    by (simp add: demo_tui_def tui_app_new_def tui_state_default_def load_targets_def default_targets_def)
  then show ?thesis by (rule report_is_malformed)
qed

end
