(* ===== verification/Spec2Isabelle.thy ===== *)
theory Spec2Isabelle
  imports Load_Guard Endpoint_Registry Listener_Admission Pmtu_Evidence Preflight Mss_Evidence Policy Fleet Redact Packet_Dsl
    Diagnosis Stun Capacity_Knee Phy_Normalized Dns_Steering Dhcp_Lifecycle Counter_Liveness Process_Model
    Protocol_Compare Burst_Analysis Fuzz_Campaigns Desktop_State Tui_App
begin

text \<open>
  A verification library for FragglePacket, a network diagnosis tool written in Rust. The tool drives
  bounded load, probes paths and endpoints, and turns what it observes into verdicts. What makes it
  correct is that it never exceeds the load it was allowed, never contacts what it was not allowed to
  contact, and never states more than its observations support. The library models the modules that
  carry these decisions and proves that they keep these promises, or where they do not.

  \<^bold>\<open>How the program is modelled.\<close> A pure function is a HOL function of the same name. A struct is a
  \<open>record\<close>, an enum a \<open>datatype\<close>, \<open>Result\<close> a sum with the error on the left. Machine integers are words
  of their width, lengths of collections are natural numbers, \<open>f64\<close> is the type of theory \<open>F64\<close>:
  infinities, NaN and rationals with the rounding of IEEE 754 binary64 after every operation (the sign of
  zero is not kept). Strings are lists of bytes; the string functions agree with Rust's on ASCII text.
  What the code asks of the outside (sockets, TLS and QUIC, child processes, files, the clock, other
  threads) is an argument: a record of observations, or a function from what is contacted to what it
  answers. Libraries outside the repository (\<open>serde_json\<close>, the hasher, the capture reader) are arguments
  too; no law of theirs is assumed except that iterating a hash map yields a permutation of its values.

  \<^bold>\<open>The theories.\<close>
  \<^item> \<open>Fraggle_Prelude\<close>: integer types, the parts of \<open>str\<close> and of iterators the source uses, decimal
    printing and reading with their round trip, reachability of a step relation and the locale
    \<open>step_invariant\<close>, interpreted on the lease pool and on the fleet fanout.
  \<^item> \<open>F64\<close>: binary64 values and rounding; the locale \<open>rounding\<close> (monotone, exact on small integers),
    interpreted on the rounding function, from which the arithmetic facts of the components follow.
  \<^item> \<open>Load_Budget\<close> (\<open>load_guard/budget.rs\<close>): caps, validation, the ramp. Validation accepts exactly the
    budgets within the caps; the ramp rises to the target and never exceeds it, in binary64, whatever double the target is.
  \<^item> \<open>Radio\<close> (\<open>load_guard/radio.rs\<close>) and \<open>Counters\<close> (\<open>load_guard/counters.rs\<close>): snapshots, their
    fingerprint and classification, and the parsers of the platform tools' output.
  \<^item> \<open>Load_Guard\<close> (\<open>load_guard/guard.rs\<close>): the whole of \<open>LoadGuard::run\<close>. The inner loop consumes one
    observation per evaluation of its condition; a run whose observations end before the loop does is
    \<open>None\<close>, and a theorem says how many observations past the step duration are enough for a report.
    Further theorems: when a run is valid, that every rate stays under the cap unless the target is not a number, how aborts are labelled,
    the bounds of the derived ratio.
  \<^item> \<open>Listener_Lease\<close> and \<open>Endpoint_Registry\<close> (\<open>network_tests/listener_lease.rs\<close>,
    \<open>endpoint_registry.rs\<close>): the lease pool as a state machine with its invariant; the registry; the
    locale \<open>allowlist_source\<close> through which the pool relies on the registry, so that no reachable lease
    is of a listener recorded as bad.
  \<^item> \<open>Iperf\<close> and \<open>Listener_Admission\<close> (\<open>network_tests/iperf.rs\<close>, \<open>listener_admission.rs\<close>): documents of
    iperf3 over abstract JSON accessors, and the admission fanout that reports a throughput only for a
    fully admitted session.
  \<^item> \<open>Pmtu_Evidence\<close> (\<open>probe/pmtu_evidence.rs\<close>): the sweep over sizes; the reported path MTU is exactly
    the largest acknowledged size.
  \<^item> \<open>Preflight\<close> (\<open>probe/preflight.rs\<close>): reading a response in any chunking, classifying handshakes, and
    when a network is called filtering.
  \<^item> \<open>Mss_Evidence\<close> (\<open>network_tests/mss_evidence.rs\<close>): the flow table refines the specification by last
    offers; attribution and clustering.
  \<^item> \<open>Policy\<close> (\<open>network_tests/policy_manifest.rs\<close>, \<open>multicast_isolation.rs\<close>): expectation against
    observation; the locale \<open>drift_judge\<close>, interpreted on both judging functions.
  \<^item> \<open>Fleet\<close> (\<open>network_tests/fleet_orchestrator.rs\<close>): plans, and the concurrent fanout as a step relation
    of its threads with the semaphore; the permit invariant, completeness of the results, absence of
    deadlock.
  \<^item> \<open>Redact\<close> (\<open>redact.rs\<close>): the text scanner and the three passes that mask addresses; the locale
    \<open>text_scanner\<close>, interpreted on each pass; an address that stands alone is always masked.
  \<^item> \<open>Packet_Dsl\<close> (\<open>fuzzing/dsl.rs\<close>): packets as stacks of layers. The header writers of \<open>etherparse\<close>
    are arguments, with the documented wire formats as the hypothesis \<open>wire_formats\<close>. Fragments read back from
    the bytes written reassemble in any order, up to the 65536 bytes the offset field reaches; the fragmentation loop is a partial function, and the inputs on which it never ends are
    characterized; serialized options read back; length fields are right.

  \<^item> \<open>F64_Ext\<close> and \<open>Bytes\<close>: further operations on binary64 with a total order, and byte strings with the
    conversions of the integer types.
  \<^item> \<open>Noc_Metrics\<close> (\<open>noc_metrics\<close>): window functions, thresholds with hysteresis, scales and units. After any
    sequence of windows a threshold is open exactly when it opened and has not met its clear condition since.
  \<^item> \<open>Diagnosis\<close> (\<open>diagnosis/mod.rs\<close>): the rules, the score, the engine and the report; the issues reported are exactly
    those whose condition the evidence meets.
  \<^item> \<open>Crypto_Min\<close> and \<open>Stun\<close> (\<open>network_tests/crypto_min.rs\<close>, \<open>stun.rs\<close>): the hash functions equal the standards'
    definitions; messages parse back, responses are validated, the integrity code of a request is the one a receiver
    computes, and the exchange over a stream is the exchange over datagrams.
  \<^item> \<open>Capacity_Knee\<close> (\<open>network_tests/capacity_knee.rs\<close>): the knee is the first pair of neighbouring rates between which
    throughput stops following the load; a claim needs two methods and a stable endpoint.
  \<^item> \<open>Evidence_Gates\<close> (\<open>freshness.rs\<close>, \<open>corroboration.rs\<close>, \<open>dependency_health.rs\<close>, \<open>clock_guard.rs\<close>) and
    \<open>Phy_Normalized\<close> (\<open>phy_normalized.rs\<close>), which divides by a link capacity only behind the freshness gate and
    partitions the measurements into strata.
  \<^item> \<open>Dns_Steering\<close> (\<open>dns_steering.rs\<close>): the verdict compares the address sets of the answering resolvers.
  \<^item> \<open>Nat_Capacity\<close> (\<open>nat_capacity.rs\<close> and the gate of its command) and \<open>Dhcp_Lifecycle\<close> (\<open>dhcp_lifecycle.rs\<close>): what
    disrupts the network runs only with an authorization statement; the session probe is a phase of \<open>Load_Guard\<close>, and its
    counters are proved to count the attempts of the guard's calls.
  \<^item> \<open>Pcap_Report\<close> (\<open>pcap_report.rs\<close>): both reading loops, the accumulator with its flow table, and the report. The
    accumulator's invariant holds after any frames; every frame is accounted for; below the two caps the anomaly
    counters equal a specification over the segments of the file; the vantage verdict is given over the report's own
    counts. The capture readers and the packet slicer are arguments.
  \<^item> \<open>Protocol_Compare\<close> (\<open>protocol_compare.rs\<close>), on the verdicts of \<open>Preflight\<close> and the confidence of \<open>Pcap_Report\<close>:
    which rates a comparison may state, when it warns of differing endpoints. Running \<open>curl\<close> is an argument.
  \<^item> \<open>Burst_Analysis\<close> (\<open>burst_analysis.rs\<close>): the bursts are the maximal runs of missing numbers, reordering equals a
    quadratic specification; jitter and queue delay in binary64, the square root being an argument.
  \<^item> \<open>Counter_Liveness\<close> (\<open>counter_liveness.rs\<close>): the verdict on a counter in exact integers, and the gate it puts in front
    of a claim of zero drops.
  \<^item> \<open>Process_Model\<close> (\<open>load_guard/process_model.rs\<close>): host and receive-path telemetry, and the two process models that
    must agree before a collapse is blamed on the network.
  \<^item> \<open>Replay\<close> (\<open>fuzzing/replay.rs\<close>): the rewriting of frames with the IPv4 checksum, the senders of the three
    targets, the sending loop; a report counts the sends that succeeded and those that failed, and the two panics are characterized.
  \<^item> \<open>Fuzz_Campaigns\<close> (the rest of \<open>fuzzing\<close> with the five \<open>fuzzers\<close>), on the header writers of \<open>Packet_Dsl\<close>: the context of a
    target, the campaigns as the lists of what their packets are built to, the writer. What each campaign's packets claim and carry is
    computed in general, and its checksum routine equals that of \<open>Replay\<close>.
  \<^item> \<open>Test_Framework\<close> (\<open>framework\<close> and the desktop's runner): results, the orchestrator and its store, the registered tests, the stream of
    updates of a run. The store refines a map from target and category to the last result; its invariant is an interpretation of
    \<open>step_invariant\<close>.
  \<^item> \<open>Desktop_State\<close> (\<open>bin/desktop\<close>), on the updates of \<open>Test_Framework\<close>: the application state and its operations, the two loops that
    apply updates, the task of the fuzzing panel as a step relation of forwarder, handler and user with its invariant and the bound on
    the length of a run, and the
    detached windows. A signal that is global is taken to be one for all windows, as the comments of the code have it.
  \<^item> \<open>Command_Registry\<close> (\<open>ui_bridge\<close>, the browser of \<open>bin/tui/command_panel.rs\<close> and the required options of \<open>cli/commands\<close>): the
    table of subcommands, the outcome of a run by a specification over the places of the binary, the exit code and the lines, the browser as a state machine with its
    invariant, and the commands that positional values without option names leave without a required option.
  \<^item> \<open>Tui_App\<close> (\<open>bin/tui/app.rs\<close>, \<open>bin/tui/mod.rs\<close>), on \<open>Command_Registry\<close> and \<open>Test_Framework\<close>: the handler of every key, the handling of
    the updates and the main loop as a step relation, whose invariant shows that no key panics and that no measurement is ever received.

  \<^bold>\<open>Where the code does less than it says.\<close> Some theorems state behaviour that the documentation of the
  code rules out: a rate that is not a number passes the caps and a one-step ramp starts at full rate
  (\<open>Load_Budget\<close>); leases are keyed by port alone (\<open>Listener_Lease\<close>); a cohort without figures
  aggregates to zero (\<open>Listener_Admission\<close>); a legacy block is reported although hollow (\<open>Iperf\<close>); the
  filtering verdict counts duplicate hosts and undetermined endpoints (\<open>Preflight\<close>); the warning about
  fragmentation looks at the last size only (\<open>Pmtu_Evidence\<close>); foreign SYNs are not recorded
  (\<open>Mss_Evidence\<close>); a UDP entry is probed over TCP and source zones are shown to attendees (\<open>Policy\<close>);
  timed-out runners outlive their permit and the bastion error is never raised (\<open>Fleet\<close>); redaction is
  not idempotent and keeps addresses that touch a further candidate character (\<open>Redact\<close>); a fragment size
  of zero never returns, offsets beyond 8191 units are lost and a VLAN tag behind an Ethernet header is malformed (\<open>Packet_Dsl\<close>); diagnoses are
  listed from the least severe (\<open>Diagnosis\<close>); an open threshold does not escalate (\<open>Noc_Metrics\<close>); the
  transaction of an authentication challenge is not checked (\<open>Stun\<close>); a knee among equal rates depends on the order
  of execution (\<open>Capacity_Knee\<close>); a stamp in the future is always fresh and a negative clock bound widens the gate
  (\<open>Evidence_Gates\<close>); a fraction without recorded times is called fresh (\<open>Phy_Normalized\<close>); aliases and failed
  queries are read as steering (\<open>Dns_Steering\<close>); the concurrency of a budget does not limit the session probe
  (\<open>Nat_Capacity\<close>); reordered segments and segments past a wrap of the sequence number count as retransmissions
  (\<open>Pcap_Report\<close>); the upload of a simultaneous leg is judged by its download and the version a leg really used is not read (\<open>Protocol_Compare\<close>); a burst never has a
  gap duration (\<open>Burst_Analysis\<close>); a counter zeroed far above the stimulus is not called reset (\<open>Counter_Liveness\<close>);
  rewritten addresses leave the transport checksum stale, and a rate of zero or an interface name with a zero byte panics (\<open>Replay\<close>); every generated packet claims twenty
  bytes too many and no fragmentation scenario reassembles (\<open>Fuzz_Campaigns\<close>); results of tests that share a category overwrite
  each other (\<open>Test_Framework\<close>); a stopped fuzzing run leaves the application testing and a closed window never brings its panel back
  (\<open>Desktop_State\<close>); values for required options are passed without their names (\<open>Command_Registry\<close>); the terminal interface never receives
  what its tests send, and its saved report is not JSON (\<open>Tui_App\<close>).

  \<^bold>\<open>What is not modelled.\<close> Rendering, argument parsing and terminal I/O; generation of random salts and
  transaction identifiers; the other modules of \<open>network_tests\<close>, \<open>load_guard\<close> and \<open>fuzzing\<close> not named above.
\<close>

end
